(* ===== verification/Go_Prelude.thy ===== *)
theory Go_Prelude
  imports Main "HOL-Library.Word" "HOL-Library.Sublist"
begin

section \<open>Prelude: Go values, outcomes, strings and the standard library\<close>

text \<open>
  What every component of the development shares.

  Values.  A Go \<^verbatim>\<open>string\<close> and a Go \<^verbatim>\<open>[]byte\<close> are both sequences of 8-bit bytes; both are
  \<^typ>\<open>string\<close> here (an Isabelle \<^typ>\<open>char\<close> has exactly 256 values), so that the conversions
  \<^verbatim>\<open>string(b)\<close> and \<^verbatim>\<open>[]byte(s)\<close> are the identity.  A \<^verbatim>\<open>uint32\<close> is a \<^typ>\<open>32 word\<close>,
  a \<^verbatim>\<open>uint64\<close> and an \<^verbatim>\<open>int64\<close> a \<^typ>\<open>64 word\<close> (read signed with \<^const>\<open>sint\<close>).

  Outcomes.  A Go call returns, panics, or blocks for ever; a call that returns with a
  non-nil error returns an error value.  \<open>go\<close> is the type of the first distinction and
  the sum type \<open>'e + 'a\<close> (\<^const>\<open>Inl\<close> is the error) that of the second.

  Standard library.  The parts of \<^verbatim>\<open>strings\<close>, \<^verbatim>\<open>strconv\<close>, \<^verbatim>\<open>encoding/binary\<close> and
  \<^verbatim>\<open>net\<close> the program calls are defined here, with the generic lemmas the components use.
\<close>

named_theorems stdlib_simps \<open>equations of the standard-library models, for component proofs\<close>

subsection \<open>Outcomes\<close>

type_synonym bytes = string
type_synonym u32 = "32 word"
type_synonym u64 = "64 word"

datatype 'a go =
    Ret (ret_val: 'a)      \<comment> \<open>the call returned\<close>
  | Panic string           \<comment> \<open>the goroutine panicked\<close>
  | Hang                   \<comment> \<open>the goroutine blocks for ever\<close>

definition bind_go :: "'a go \<Rightarrow> ('a \<Rightarrow> 'b go) \<Rightarrow> 'b go" where
  "bind_go m f = (case m of Ret x \<Rightarrow> f x | Panic s \<Rightarrow> Panic s | Hang \<Rightarrow> Hang)"

lemma bind_go_simps [simp]:
  "bind_go (Ret x) f = f x"
  "bind_go (Panic s) f = Panic s"
  "bind_go Hang f = Hang"
  by (simp_all add: bind_go_def)

lemma bind_go_Ret_iff: "bind_go m f = Ret y \<longleftrightarrow> (\<exists>x. m = Ret x \<and> f x = Ret y)"
  by (cases m) auto

lemma bind_go_pair_iff:
  "bind_go m (\<lambda>(a, b). f a b) = Ret y \<longleftrightarrow> (\<exists>a b. m = Ret (a, b) \<and> f a b = Ret y)"
  by (cases m) auto

lemma bind_go_triple_iff:
  "bind_go m (\<lambda>(a, b, c). g a b c) = Ret y \<longleftrightarrow> (\<exists>a b c. m = Ret (a, b, c) \<and> g a b c = Ret y)"
  by (cases m) auto

lemma bind_go_quad_iff:
  "bind_go m (\<lambda>(a, b, c, d). g a b c d) = Ret y \<longleftrightarrow> (\<exists>a b c d. m = Ret (a, b, c, d) \<and> g a b c d = Ret y)"
  by (cases m) auto

lemma bind_go_Hang_iff: "bind_go m f = Hang \<longleftrightarrow> m = Hang \<or> (\<exists>x. m = Ret x \<and> f x = Hang)"
  by (cases m) auto

lemmas bind_go_iffs = bind_go_quad_iff bind_go_triple_iff bind_go_pair_iff

lemma case_pair_Ret_iff:
  "(case p of (a, b) \<Rightarrow> Ret (f a b)) = Ret y \<longleftrightarrow> (\<exists>a b. p = (a, b) \<and> f a b = y)"
  by (cases p) auto

definition returns :: "'a go \<Rightarrow> bool" where
  "returns m \<longleftrightarrow> (\<exists>x. m = Ret x)"

lemma returns_simps [simp]: "returns (Ret x)" "\<not> returns (Panic s)" "\<not> returns Hang"
  by (simp_all add: returns_def)

lemma of_char_lt [simp]: "(of_char c :: nat) < 256"
  using of_char_mod_256 [of c, where 'a = nat] by (metis mod_less_divisor zero_less_numeral)

lemma unat_of_nat_eq: "n < 2 ^ LENGTH('a) \<Longrightarrow> unat (word_of_nat n :: 'a::len word) = n"
  by (simp add: unat_of_nat)

subsection \<open>Package strings\<close>

text \<open>\<^verbatim>\<open>strings.HasPrefix\<close>, \<^verbatim>\<open>strings.HasSuffix\<close>, \<^verbatim>\<open>strings.Contains\<close>.\<close>

definition HasPrefix :: "string \<Rightarrow> string \<Rightarrow> bool" where
  "HasPrefix s p \<longleftrightarrow> length p \<le> length s \<and> take (length p) s = p"

definition HasSuffix :: "string \<Rightarrow> string \<Rightarrow> bool" where
  "HasSuffix s p \<longleftrightarrow> length p \<le> length s \<and> drop (length s - length p) s = p"

definition Contains :: "string \<Rightarrow> string \<Rightarrow> bool" where
  "Contains s p \<longleftrightarrow> list_ex (\<lambda>i. HasPrefix (drop i s) p) [0..<Suc (length s)]"

lemma HasPrefix_append [simp]: "HasPrefix (p @ s) p"
  by (simp add: HasPrefix_def)

lemma HasPrefix_iff: "HasPrefix s p \<longleftrightarrow> (\<exists>t. s = p @ t)"
proof
  assume "HasPrefix s p"
  then have "s = p @ drop (length p) s"
    by (metis HasPrefix_def append_take_drop_id)
  then show "\<exists>t. s = p @ t" by blast
qed auto

lemma HasSuffix_append [simp]: "HasSuffix (s @ p) p"
  by (simp add: HasSuffix_def)

lemma Contains_append: "Contains (a @ p @ b) p"
  unfolding Contains_def list_ex_iff by (rule bexI [of _ "length a"]) auto

lemma Contains_iff: "Contains s p \<longleftrightarrow> (\<exists>a b. s = a @ p @ b)"
proof
  assume "Contains s p"
  then have "\<exists>i \<in> set [0..<Suc (length s)]. HasPrefix (drop i s) p" by (simp only: Contains_def list_ex_iff)
  then obtain i where "HasPrefix (drop i s) p" by (rule bexE)
  then obtain t where "drop i s = p @ t" by (auto simp: HasPrefix_iff)
  then have "s = take i s @ p @ t" by (metis append_take_drop_id)
  then show "\<exists>a b. s = a @ p @ b" by blast
qed (auto simp: Contains_append)

text \<open>\<^verbatim>\<open>strings.Split\<close> with a one-byte separator, and \<^verbatim>\<open>strings.Join\<close>.\<close>

fun Split :: "char \<Rightarrow> string \<Rightarrow> string list" where
  "Split c [] = [[]]"
| "Split c (x # xs) =
     (if x = c then [] # Split c xs
      else (case Split c xs of [] \<Rightarrow> [[x]] | y # ys \<Rightarrow> (x # y) # ys))"

fun Join :: "string \<Rightarrow> string list \<Rightarrow> string" where
  "Join sep [] = []"
| "Join sep [x] = x"
| "Join sep (x # y # ys) = x @ sep @ Join sep (y # ys)"

lemma Split_not_Nil [simp]: "Split c s \<noteq> []"
  by (induction s) (auto split: list.splits)

lemma Join_Split: "Join [c] (Split c s) = s"
proof (induction s)
  case (Cons x xs)
  obtain y ys where yys: "Split c xs = y # ys"
    by (meson Split_not_Nil neq_Nil_conv)
  with Cons show ?case by (cases ys) auto
qed simp

lemma Split_no_sep: "c \<notin> set s \<Longrightarrow> Split c s = [s]"
  by (induction s) auto

lemma Split_append_sep:
  "c \<notin> set a \<Longrightarrow> Split c (a @ c # b) = a # Split c b"
  by (induction a) auto

lemma Split_Join:
  "xs \<noteq> [] \<Longrightarrow> \<forall>x\<in>set xs. c \<notin> set x \<Longrightarrow> Split c (Join [c] xs) = xs"
  by (induction "[c]" xs rule: Join.induct) (auto simp: Split_no_sep Split_append_sep)

lemma Split_parts_no_sep: "x \<in> set (Split c s) \<Longrightarrow> c \<notin> set x"
proof (induction s arbitrary: x)
  case (Cons a s)
  obtain y ys where yys: "Split c s = y # ys"
    by (meson Split_not_Nil neq_Nil_conv)
  with Cons show ?case by (auto split: if_splits)
qed simp

text \<open>
  \<^verbatim>\<open>strings.SplitN(s, sep, 2)\<close> with a one-byte separator: at most one cut, at the first
  separator.
\<close>

definition SplitN2 :: "char \<Rightarrow> string \<Rightarrow> string list" where
  "SplitN2 c s =
     (if c \<in> set s then [takeWhile (\<lambda>x. x \<noteq> c) s, tl (dropWhile (\<lambda>x. x \<noteq> c) s)] else [s])"

lemma SplitN2_append: "c \<notin> set a \<Longrightarrow> SplitN2 c (a @ c # b) = [a, b]"
proof -
  assume c: "c \<notin> set a"
  then have "takeWhile (\<lambda>x. x \<noteq> c) (a @ c # b) = a"
    and "dropWhile (\<lambda>x. x \<noteq> c) (a @ c # b) = c # b"
    by (induction a) auto
  then show ?thesis by (simp add: SplitN2_def)
qed

text \<open>\<^verbatim>\<open>strings.Trim\<close> with an ASCII cutset: bytes of the set are cut from both ends.\<close>

definition TrimLeft :: "string \<Rightarrow> string \<Rightarrow> string" where
  "TrimLeft s cutset = dropWhile (\<lambda>c. c \<in> set cutset) s"

definition Trim :: "string \<Rightarrow> string \<Rightarrow> string" where
  "Trim s cutset = rev (TrimLeft (rev (TrimLeft s cutset)) cutset)"

lemma TrimLeft_id: "s = [] \<or> hd s \<notin> set cs \<Longrightarrow> TrimLeft s cs = s"
  by (cases s) (auto simp: TrimLeft_def)

lemma TrimLeft_cut: "set a \<subseteq> set cs \<Longrightarrow> TrimLeft (a @ s) cs = TrimLeft s cs"
  unfolding TrimLeft_def by (simp add: dropWhile_append2 subset_iff)

text \<open>A string whose ends are outside the cutset survives padding from the cutset.\<close>

lemma Trim_pad:
  assumes "set a \<subseteq> set cs" "set b \<subseteq> set cs" "s \<noteq> []" "hd s \<notin> set cs" "last s \<notin> set cs"
  shows "Trim (a @ s @ b) cs = s"
proof -
  have "TrimLeft (a @ s @ b) cs = s @ b"
    using assms by (simp add: TrimLeft_cut TrimLeft_id)
  moreover have "TrimLeft (rev (s @ b)) cs = rev s"
    using assms by (simp add: TrimLeft_cut TrimLeft_id hd_rev)
  ultimately show ?thesis by (simp add: Trim_def)
qed

lemma Trim_id: "s \<noteq> [] \<Longrightarrow> hd s \<notin> set cs \<Longrightarrow> last s \<notin> set cs \<Longrightarrow> Trim s cs = s"
  using Trim_pad [of "[]" cs "[]" s] by simp

lemma Trim_ends:
  assumes "Trim s cs \<noteq> []"
  shows "hd (Trim s cs) \<notin> set cs" and "last (Trim s cs) \<notin> set cs"
proof -
  let ?l = "TrimLeft s cs"
  let ?t = "dropWhile (\<lambda>c. c \<in> set cs) (rev ?l)"
  have t: "Trim s cs = rev ?t" by (simp add: Trim_def TrimLeft_def)
  with assms have ne: "?t \<noteq> []" by simp
  show "last (Trim s cs) \<notin> set cs"
    using ne hd_dropWhile [of "\<lambda>c. c \<in> set cs" "rev ?l"] by (simp add: t last_rev)
  obtain a where "rev ?l = a @ ?t" using takeWhile_dropWhile_id by metis
  then have l: "?l = rev ?t @ rev a" by (metis rev_append rev_rev_ident)
  moreover have "?l \<noteq> []" using l ne by auto
  ultimately have "hd ?l = hd (rev ?t)" by (metis hd_append2 ne rev_is_Nil_conv)
  moreover have "hd ?l \<notin> set cs"
    using \<open>?l \<noteq> []\<close> hd_dropWhile [of "\<lambda>c. c \<in> set cs" s] by (simp add: TrimLeft_def)
  ultimately show "hd (Trim s cs) \<notin> set cs" by (simp add: t)
qed

text \<open>\<^verbatim>\<open>strings.ToLower\<close> on the ASCII letters (the only ones the callers compare with).\<close>

definition lower_char :: "char \<Rightarrow> char" where
  "lower_char c =
     (let n = of_char c :: nat in if 65 \<le> n \<and> n \<le> 90 then char_of (n + 32) else c)"

definition ToLower :: "string \<Rightarrow> string" where
  "ToLower s = map lower_char s"

end
