(* ===== verification/Go_Stdlib.thy ===== *)
theory Go_Stdlib
  imports Go_Prelude
begin

section \<open>Packages strconv, net and encoding/binary\<close>

text \<open>
  The conversions between integers and text of \<^verbatim>\<open>strconv\<close>, the address splitter
  \<^verbatim>\<open>net.SplitHostPort\<close> and the big-endian coding of \<^verbatim>\<open>encoding/binary\<close>, as the program
  calls them.
\<close>

subsection \<open>Decimal text\<close>

definition is_digit :: "char \<Rightarrow> bool" where
  "is_digit c \<longleftrightarrow> 48 \<le> (of_char c :: nat) \<and> (of_char c :: nat) \<le> 57"

definition digit_val :: "char \<Rightarrow> nat" where
  "digit_val c = of_char c - 48"

definition digit_char :: "nat \<Rightarrow> char" where
  "digit_char d = char_of (48 + d)"

definition digits_val :: "string \<Rightarrow> nat" where
  "digits_val s = foldl (\<lambda>a c. 10 * a + digit_val c) 0 s"

fun show_nat :: "nat \<Rightarrow> string" where
  "show_nat n = (if n < 10 then [digit_char n] else show_nat (n div 10) @ [digit_char (n mod 10)])"

declare show_nat.simps [simp del]

text \<open>\<^verbatim>\<open>fmt.Sprintf("%v", n)\<close> on an integer.\<close>

definition show_int :: "int \<Rightarrow> string" where
  "show_int i = (if i < 0 then CHR ''-'' # show_nat (nat (- i)) else show_nat (nat i))"

datatype num_err = ErrSyntax | ErrRange

text \<open>
  \<^verbatim>\<open>strconv.ParseUint(s, 10, bits)\<close>: the value it returns beside the error is 0 on a syntax
  error and the largest value of the width on a range error.
\<close>

definition ParseUint :: "string \<Rightarrow> nat \<Rightarrow> nat \<times> num_err option" where
  "ParseUint s bits =
     (if s = [] \<or> \<not> list_all is_digit s then (0, Some ErrSyntax)
      else if digits_val s < 2 ^ bits then (digits_val s, None)
      else (2 ^ bits - 1, Some ErrRange))"

text \<open>\<^verbatim>\<open>strconv.Atoi\<close> on a 64-bit machine: an optional sign, then decimal digits.\<close>

definition Atoi :: "string \<Rightarrow> int \<times> num_err option" where
  "Atoi s =
     (let neg = (s \<noteq> [] \<and> hd s = CHR ''-'');
          ds = (if s \<noteq> [] \<and> (hd s = CHR ''-'' \<or> hd s = CHR ''+'') then tl s else s)
      in if ds = [] \<or> \<not> list_all is_digit ds then (0, Some ErrSyntax)
         else let v = (if neg then - int (digits_val ds) else int (digits_val ds))
              in if v < - (2 ^ 63) then (- (2 ^ 63), Some ErrRange)
                 else if 2 ^ 63 \<le> v then (2 ^ 63 - 1, Some ErrRange)
                 else (v, None))"

lemma of_char_digit: "d < 10 \<Longrightarrow> (of_char (digit_char d) :: nat) = 48 + d"
  by (simp add: digit_char_def)

lemma digit_char_props [simp]:
  "d < 10 \<Longrightarrow> is_digit (digit_char d)" "d < 10 \<Longrightarrow> digit_val (digit_char d) = d"
  by (simp_all add: is_digit_def digit_val_def of_char_digit)

lemma digits_val_snoc [simp]: "digits_val (s @ [c]) = 10 * digits_val s + digit_val c"
  by (simp add: digits_val_def)

lemma digits_val_Nil [simp]: "digits_val [] = 0"
  by (simp add: digits_val_def)

lemma digits_val_single [simp]: "digits_val [c] = digit_val c"
  by (simp add: digits_val_def)

lemma show_nat_not_Nil [simp]: "show_nat n \<noteq> []"
  by (subst show_nat.simps) simp

lemma show_nat_digits: "list_all is_digit (show_nat n)"
proof (induction n rule: show_nat.induct)
  case (1 n)
  then show ?case by (subst show_nat.simps) (simp add: list_all_iff)
qed

lemma digits_val_show_nat [simp]: "digits_val (show_nat n) = n"
proof (induction n rule: show_nat.induct)
  case (1 n)
  then show ?case by (subst show_nat.simps) (simp del: digits_val_snoc add: digits_val_snoc)
qed

lemma ParseUint_show: "n < 2 ^ bits \<Longrightarrow> ParseUint (show_nat n) bits = (n, None)"
  by (simp add: ParseUint_def show_nat_digits)

lemma ParseUint_bound: "ParseUint s bits = (v, e) \<Longrightarrow> v < 2 ^ bits"
  by (auto simp: ParseUint_def split: if_splits)

lemma digit_not_sign: "is_digit c \<Longrightarrow> c \<noteq> CHR ''-'' \<and> c \<noteq> CHR ''+''"
  by (auto simp: is_digit_def)

lemma hd_show_nat: "is_digit (hd (show_nat n))"
  using show_nat_digits [of n] by (cases "show_nat n") auto

lemma Atoi_show_int:
  assumes "- (2 ^ 63) \<le> i" "i < 2 ^ 63"
  shows "Atoi (show_int i) = (i, None)"
proof (cases "i < 0")
  case True
  with assms show ?thesis by (simp add: Atoi_def show_int_def show_nat_digits Let_def)
next
  case False
  with assms digit_not_sign [OF hd_show_nat, of "nat i"] show ?thesis
    by (simp add: Atoi_def show_int_def show_nat_digits Let_def)
qed

subsection \<open>Package net\<close>

fun index_of :: "char \<Rightarrow> string \<Rightarrow> nat option" where
  "index_of c [] = None"
| "index_of c (x # xs) = (if x = c then Some 0 else map_option Suc (index_of c xs))"

definition last_index_of :: "char \<Rightarrow> string \<Rightarrow> nat option" where
  "last_index_of c s = map_option (\<lambda>k. length s - Suc k) (index_of c (rev s))"

lemma index_of_None [simp]: "index_of c s = None \<longleftrightarrow> c \<notin> set s"
  by (induction s) auto

lemma index_of_append: "c \<notin> set a \<Longrightarrow> index_of c (a @ c # b) = Some (length a)"
  by (induction a) auto

lemma last_index_of_append: "c \<notin> set b \<Longrightarrow> last_index_of c (a @ c # b) = Some (length a)"
  unfolding last_index_of_def using index_of_append [of c "rev b" "rev a"] by simp

lemma last_index_of_None [simp]: "last_index_of c s = None \<longleftrightarrow> c \<notin> set s"
  by (simp add: last_index_of_def)

text \<open>The error texts of \<^verbatim>\<open>net.AddrError\<close>.\<close>

datatype addr_err = MissingPort | TooManyColons | MissingBracket | UnexpectedOpen | UnexpectedClose

definition net_SplitHostPort :: "string \<Rightarrow> addr_err + string \<times> string" where
  "net_SplitHostPort hp =
     (case last_index_of CHR '':'' hp of
        None \<Rightarrow> Inl MissingPort
      | Some i \<Rightarrow>
          let tail = (\<lambda>host j k.
                if CHR ''['' \<in> set (drop j hp) then Inl UnexpectedOpen
                else if CHR '']'' \<in> set (drop k hp) then Inl UnexpectedClose
                else Inr (host, drop (Suc i) hp))
          in if hd hp = CHR ''['' then
               (case index_of CHR '']'' hp of
                  None \<Rightarrow> Inl MissingBracket
                | Some e \<Rightarrow>
                    if Suc e = length hp then Inl MissingPort
                    else if Suc e = i then tail (drop 1 (take e hp)) 1 (Suc e)
                    else if hp ! Suc e = CHR '':'' then Inl TooManyColons
                    else Inl MissingPort)
             else let host = take i hp
                  in if CHR '':'' \<in> set host then Inl TooManyColons else tail host 0 0)"

text \<open>A plain \<open>host:port\<close> text splits into its two parts.\<close>

lemma net_SplitHostPort_plain:
  assumes "set host \<inter> {CHR '':'', CHR ''['', CHR '']''} = {}"
    and "set port \<inter> {CHR '':'', CHR ''['', CHR '']''} = {}"
  shows "net_SplitHostPort (host @ '':'' @ port) = Inr (host, port)"
proof -
  have li: "last_index_of CHR '':'' (host @ CHR '':'' # port) = Some (length host)"
    using assms by (intro last_index_of_append) auto
  have "hd (host @ CHR '':'' # port) \<noteq> CHR ''[''"
    using assms by (cases host) auto
  with assms show ?thesis by (auto simp: net_SplitHostPort_def li Let_def)
qed

text \<open>Without brackets, a successful split is a cut at the only colon.\<close>

lemma last_index_of_Some:
  assumes "last_index_of c s = Some i"
  shows "i < length s" and "s ! i = c" and "c \<notin> set (drop (Suc i) s)"
proof -
  obtain k where k: "index_of c (rev s) = Some k" and i: "i = length s - Suc k"
    using assms by (auto simp: last_index_of_def)
  have idx: "index_of c t = Some k \<Longrightarrow> k < length t \<and> t ! k = c \<and> c \<notin> set (take k t)" for t k
    by (induction t arbitrary: k) (auto split: if_splits)
  from idx [OF k] have kl: "k < length s" and kn: "rev s ! k = c" and kt: "c \<notin> set (take k (rev s))"
    by auto
  from kl i show "i < length s" by simp
  from kl kn i show "s ! i = c" by (simp add: rev_nth)
  have "drop (Suc i) s = rev (take k (rev s))"
    using kl i by (simp add: take_rev Suc_diff_Suc)
  with kt show "c \<notin> set (drop (Suc i) s)" by simp
qed

lemma net_SplitHostPort_port_no_colon:
  "net_SplitHostPort hp = Inr (host, port) \<Longrightarrow> CHR '':'' \<notin> set port"
  by (auto simp: net_SplitHostPort_def Let_def dest: last_index_of_Some
           split: option.splits if_splits)

subsection \<open>Package encoding/binary: big-endian words\<close>

definition PutUint32 :: "u32 \<Rightarrow> bytes" where
  "PutUint32 n = map (\<lambda>k. char_of (unat n div 256 ^ k)) [3, 2, 1, 0]"

definition Uint32 :: "bytes \<Rightarrow> u32" where
  "Uint32 b = word_of_nat (foldl (\<lambda>a c. 256 * a + of_char c) 0 (take 4 b))"

definition PutUint64 :: "u64 \<Rightarrow> bytes" where
  "PutUint64 n = map (\<lambda>k. char_of (unat n div 256 ^ k)) [7, 6, 5, 4, 3, 2, 1, 0]"

definition Uint64 :: "bytes \<Rightarrow> u64" where
  "Uint64 b = word_of_nat (foldl (\<lambda>a c. 256 * a + of_char c) 0 (take 8 b))"

lemma length_PutUint32 [simp]: "length (PutUint32 n) = 4"
  by (simp add: PutUint32_def)

lemma length_PutUint64 [simp]: "length (PutUint64 n) = 8"
  by (simp add: PutUint64_def)

lemma base256_step: "256 * (n div (256 * m)) + n div m mod 256 = n div (m :: nat)"
  by (metis div_mult2_eq mult.commute mult_div_mod_eq)

lemma Uint32_PutUint32 [simp]: "Uint32 (PutUint32 n @ r) = n"
proof -
  have b: "unat n < 4294967296"
    using unsigned_less [of n] by simp
  have "unat n div 16777216 mod 256 = unat n div 16777216"
    using b by (simp add: less_mult_imp_div_less)
  then have "foldl (\<lambda>a c. 256 * a + of_char c) 0 (PutUint32 n) = unat n"
    using base256_step [of "unat n" 65536] base256_step [of "unat n" 256] base256_step [of "unat n" 1]
    by (simp add: PutUint32_def)
  then show ?thesis by (simp add: Uint32_def)
qed

lemma base256_digits:
  fixes a b c d :: nat
  assumes "a < 256" "b < 256" "c < 256" "d < 256"
  defines "v \<equiv> 256 * (256 * (256 * a + b) + c) + d"
  shows "v < 4294967296" "v div 16777216 = a" "v div 65536 = 256 * a + b" "v div 256 = 256 * (256 * a + b) + c"
  using assms(1-4) by (simp_all add: v_def)

lemma char_of_tail: "char_of (256 * k + of_char c :: nat) = c"
proof -
  have "(256 * k + of_char c :: nat) mod 256 = of_char c" using of_char_lt [of c] by simp
  then show ?thesis by (metis char_of_mod_256 char_of_char)
qed

lemma PutUint32_Uint32:
  assumes "4 \<le> length b"
  shows "PutUint32 (Uint32 b) = take 4 b"
proof -
  obtain c3 c2 c1 c0 r where b: "b = c3 # c2 # c1 # c0 # r"
    using assms by (auto simp: numeral_eq_Suc Suc_le_length_iff)
  let ?v = "256 * (256 * (256 * of_char c3 + of_char c2) + of_char c1) + of_char c0 :: nat"
  note d = base256_digits [OF of_char_lt [of c3] of_char_lt [of c2] of_char_lt [of c1] of_char_lt [of c0]]
  have "unat (word_of_nat ?v :: u32) = ?v" using d(1) by (intro unat_of_nat_eq) simp
  then have "unat (Uint32 b) = ?v" by (simp add: Uint32_def b)
  then show ?thesis
    using d(2-4) char_of_tail [of "of_char c3" c2] char_of_tail [of "256 * of_char c3 + of_char c2" c1]
      char_of_tail [of "256 * (256 * of_char c3 + of_char c2) + of_char c1" c0]
    by (simp add: PutUint32_def b)
qed

lemma Uint64_PutUint64 [simp]: "Uint64 (PutUint64 n @ r) = n"
proof -
  have b: "unat n < 18446744073709551616"
    using unsigned_less [of n] by simp
  have "unat n div 72057594037927936 mod 256 = unat n div 72057594037927936"
    using b by (simp add: less_mult_imp_div_less)
  then have "foldl (\<lambda>a c. 256 * a + of_char c) 0 (PutUint64 n) = unat n"
    using base256_step [of "unat n" 281474976710656] base256_step [of "unat n" 1099511627776]
      base256_step [of "unat n" 4294967296] base256_step [of "unat n" 16777216]
      base256_step [of "unat n" 65536] base256_step [of "unat n" 256] base256_step [of "unat n" 1]
    by (simp add: PutUint64_def)
  then show ?thesis by (simp add: Uint64_def)
qed

end
