(* ===== verification/Go_Base64.thy ===== *)
theory Go_Base64
  imports Go_Prelude
begin

section \<open>Package encoding/base64: the standard encoding\<close>

text \<open>
  \<^verbatim>\<open>base64.StdEncoding\<close>: \<open>EncodeToString\<close> (also what the streaming encoder produces after
  \<open>Close\<close>) and \<open>Decode\<close>, which skips CR and LF, wants whole quanta of four characters and
  accepts padding in the last quantum only.
\<close>

definition b64_char :: "nat \<Rightarrow> char" where
  "b64_char v =
     (if v < 26 then char_of (65 + v) else if v < 52 then char_of (71 + v)
      else if v < 62 then char_of (v - 4) else if v = 62 then CHR ''+'' else CHR ''/'')"

definition b64_val :: "char \<Rightarrow> nat option" where
  "b64_val ch =
     (let n = of_char ch :: nat in
      if 65 \<le> n \<and> n \<le> 90 then Some (n - 65)
      else if 97 \<le> n \<and> n \<le> 122 then Some (n - 71)
      else if 48 \<le> n \<and> n \<le> 57 then Some (n + 4)
      else if n = 43 then Some 62 else if n = 47 then Some 63 else None)"

fun b64_encode :: "bytes \<Rightarrow> string" where
  "b64_encode [] = []"
| "b64_encode [a] =
     (let x = of_char a :: nat in
      [b64_char (x div 4), b64_char (x mod 4 * 16), CHR ''='', CHR ''=''])"
| "b64_encode [a, b] =
     (let x = of_char a :: nat; y = of_char b :: nat in
      [b64_char (x div 4), b64_char (x mod 4 * 16 + y div 16), b64_char (y mod 16 * 4), CHR ''=''])"
| "b64_encode (a # b # c # r) =
     (let x = of_char a :: nat; y = of_char b :: nat; z = of_char c :: nat in
      [b64_char (x div 4), b64_char (x mod 4 * 16 + y div 16),
       b64_char (y mod 16 * 4 + z div 64), b64_char (z mod 64)] @ b64_encode r)"

definition b64_byte0 :: "nat \<Rightarrow> nat \<Rightarrow> char" where
  "b64_byte0 v w = char_of (v * 4 + w div 16)"

definition b64_byte1 :: "nat \<Rightarrow> nat \<Rightarrow> char" where
  "b64_byte1 w x = char_of (w mod 16 * 16 + x div 4)"

definition b64_byte2 :: "nat \<Rightarrow> nat \<Rightarrow> char" where
  "b64_byte2 x y = char_of (x mod 4 * 64 + y)"

fun b64_quanta :: "string \<Rightarrow> bytes option" where
  "b64_quanta [] = Some []"
| "b64_quanta (a # b # c # d # r) =
     (case (b64_val a, b64_val b) of
        (Some v, Some w) \<Rightarrow>
          if c = CHR ''='' \<and> d = CHR ''='' then
            (if r = [] then Some [b64_byte0 v w] else None)
          else (case b64_val c of
              None \<Rightarrow> None
            | Some x \<Rightarrow>
                if d = CHR ''='' then
                  (if r = [] then Some [b64_byte0 v w, b64_byte1 w x] else None)
                else (case b64_val d of
                    None \<Rightarrow> None
                  | Some y \<Rightarrow>
                      map_option (\<lambda>bs. b64_byte0 v w # b64_byte1 w x # b64_byte2 x y # bs)
                        (b64_quanta r)))
      | _ \<Rightarrow> None)"
| "b64_quanta _ = None"

definition b64_decode :: "string \<Rightarrow> bytes option" where
  "b64_decode s = b64_quanta (filter (\<lambda>c. c \<noteq> CHR 0x0D \<and> c \<noteq> CHR 0x0A) s)"

lemma b64_val_char: "v < 64 \<Longrightarrow> b64_val (b64_char v) = Some v"
proof -
  assume "v < 64"
  then consider "v < 26" | "26 \<le> v" "v < 52" | "52 \<le> v" "v < 62" | "v = 62" | "v = 63"
    by linarith
  then show ?thesis by cases (auto simp: b64_char_def b64_val_def Let_def)
qed

lemma b64_char_not_pad: "v < 64 \<Longrightarrow> b64_char v \<noteq> CHR ''=''"
  using b64_val_char [of v] by (auto simp: b64_val_def)

lemma sextet_bounds [simp]:
  "(of_char a :: nat) div 4 < 64"
  "(of_char a :: nat) mod 4 * 16 < 64"
  "(of_char a :: nat) mod 4 * 16 + (of_char b :: nat) div 16 < 64"
  "(of_char b :: nat) mod 16 * 4 < 64"
  "(of_char b :: nat) mod 16 * 4 + (of_char c :: nat) div 64 < 64"
  "(of_char c :: nat) mod 64 < 64"
proof -
  have "(of_char a :: nat) < 256" "(of_char b :: nat) < 256" "(of_char c :: nat) < 256"
    by (rule of_char_lt)+
  then have d: "(of_char a :: nat) div 4 < 64" "(of_char b :: nat) div 16 < 16"
      "(of_char c :: nat) div 64 < 4"
    by (simp_all add: less_mult_imp_div_less)
  have m: "(of_char a :: nat) mod 4 < 4" "(of_char b :: nat) mod 16 < 16" by simp_all
  show "(of_char a :: nat) div 4 < 64" by (fact d)
  show "(of_char a :: nat) mod 4 * 16 < 64"
    "(of_char a :: nat) mod 4 * 16 + (of_char b :: nat) div 16 < 64"
    "(of_char b :: nat) mod 16 * 4 < 64"
    "(of_char b :: nat) mod 16 * 4 + (of_char c :: nat) div 64 < 64"
    using d m by linarith+
qed simp

lemma b64_bytes:
  "b64_byte0 ((of_char a :: nat) div 4) ((of_char a :: nat) mod 4 * 16) = a"
  "b64_byte0 ((of_char a :: nat) div 4) ((of_char a :: nat) mod 4 * 16 + (of_char b :: nat) div 16) = a"
  "b64_byte1 ((of_char a :: nat) mod 4 * 16 + (of_char b :: nat) div 16) ((of_char b :: nat) mod 16 * 4) = b"
  "b64_byte1 ((of_char a :: nat) mod 4 * 16 + (of_char b :: nat) div 16)
     ((of_char b :: nat) mod 16 * 4 + (of_char c :: nat) div 64) = b"
  "b64_byte2 ((of_char b :: nat) mod 16 * 4 + (of_char c :: nat) div 64) ((of_char c :: nat) mod 64) = c"
proof -
  have d: "(of_char b :: nat) div 16 < 16" "(of_char c :: nat) div 64 < 4"
    by (simp_all add: less_mult_imp_div_less)
  have a: "(of_char a :: nat) div 4 * 4 + of_char a mod 4 = of_char a" by simp
  have b: "(of_char b :: nat) div 16 * 16 + of_char b mod 16 = of_char b" by simp
  have c: "(of_char c :: nat) div 64 * 64 + of_char c mod 64 = of_char c" by simp
  show "b64_byte0 ((of_char a :: nat) div 4) ((of_char a :: nat) mod 4 * 16) = a"
    by (simp add: b64_byte0_def)
  show "b64_byte0 ((of_char a :: nat) div 4) ((of_char a :: nat) mod 4 * 16 + (of_char b :: nat) div 16) = a"
    using d by (simp add: b64_byte0_def)
  show "b64_byte1 ((of_char a :: nat) mod 4 * 16 + (of_char b :: nat) div 16) ((of_char b :: nat) mod 16 * 4) = b"
    using d by (simp add: b64_byte1_def)
  show "b64_byte1 ((of_char a :: nat) mod 4 * 16 + (of_char b :: nat) div 16)
     ((of_char b :: nat) mod 16 * 4 + (of_char c :: nat) div 64) = b"
    using d by (simp add: b64_byte1_def)
  show "b64_byte2 ((of_char b :: nat) mod 16 * 4 + (of_char c :: nat) div 64) ((of_char c :: nat) mod 64) = c"
    using d by (simp add: b64_byte2_def)
qed

lemma b64_quanta_encode: "b64_quanta (b64_encode s) = Some s"
  by (induction s rule: b64_encode.induct)
    (simp_all add: Let_def b64_val_char b64_char_not_pad b64_bytes)

lemma set_b64_encode: "c \<in> set (b64_encode s) \<Longrightarrow> c = CHR ''='' \<or> b64_val c \<noteq> None"
  by (induction s rule: b64_encode.induct) (auto simp: Let_def b64_val_char)

lemma b64_encode_safe:
  "c \<in> set (b64_encode s) \<Longrightarrow> c \<noteq> CHR '' '' \<and> c \<noteq> CHR 0x0A \<and> c \<noteq> CHR 0x0D"
  using set_b64_encode [of c s] by (auto simp: b64_val_def)

lemma b64_decode_encode: "b64_decode (b64_encode s) = Some s"
proof -
  have "filter (\<lambda>c. c \<noteq> CHR 0x0D \<and> c \<noteq> CHR 0x0A) (b64_encode s) = b64_encode s"
    using b64_encode_safe by (auto simp: filter_id_conv)
  then show ?thesis by (simp add: b64_decode_def b64_quanta_encode)
qed

lemma b64_encode_eq_Nil [simp]: "b64_encode s = [] \<longleftrightarrow> s = []"
  by (cases s rule: b64_encode.cases) (simp_all add: Let_def)

end
