(* ===== verification/Known_Hosts.thy ===== *)
theory Known_Hosts
  imports Go_Stdlib Go_Base64 "HOL-Library.AList"
begin

section \<open>The known-hosts database of the client\<close>

text \<open>
  \<^verbatim>\<open>knownhosts.go\<close> and the host-key half of \<^verbatim>\<open>sshutil.go\<close>: the table of server keys, its
  text format (\<open>LoadSshKnownHosts\<close>, \<open>saveSshKnownHosts\<close>), the decision
  \<open>HostAlreadyKnown\<close>, its trust-on-first-use branch \<open>AddNeeded\<close>, and the callback that lets
  a handshake go on or fails it.

  The Go map \<^verbatim>\<open>Hosts\<close> is an association list; its order is the iteration order of a
  \<^verbatim>\<open>range\<close> loop, which Go leaves open, so what is proved for every list is proved for every
  order.  The mutex of a record is the field \<open>sk_Mut\<close>: locking a locked mutex blocks for
  ever (\<^const>\<open>Hang\<close>).  Files are a map from paths to contents.  What lies outside the
  repository or is pure cryptography is a field of \<open>kh_env\<close>: the JSON/gob-and-snappy
  images, whether files can be opened and written, the public-key parser, the clock.
\<close>

subsection \<open>Data\<close>

type_synonym disk = "string \<rightharpoonup> bytes"

record pub_key =
  pk_Type :: string
  pk_Marshal :: bytes

record server_pub_key =
  sk_Hostname :: string
  sk_HumanKey :: string
  sk_ServerBanned :: bool
  sk_remote :: string
  sk_Markers :: string
  sk_Hostnames :: string
  sk_SplitHostnames :: "string list"
  sk_Keytype :: string
  sk_Base64 :: string
  sk_Comment :: string
  sk_Port :: string
  sk_Line :: nat
  sk_AlreadySaved :: bool
  sk_Mut :: bool

datatype persist_format = KHJson | KHGob | KHSsh

datatype HostState = Unknown | Banned | KnownOK | KnownRecordMismatch | AddedNew

record known_hosts =
  kh_Hosts :: "(string \<times> server_pub_key) list"
  kh_curHost :: "server_pub_key option"
  kh_curStatus :: HostState
  kh_FilepathPrefix :: string
  kh_PersistFormatSuffix :: string
  kh_PersistFormat :: persist_format
  kh_NoSave :: bool

record kh_env =
  ke_json :: "known_hosts \<Rightarrow> bytes"
  ke_gob :: "known_hosts \<Rightarrow> bytes"
  ke_unjson :: "bytes \<Rightarrow> known_hosts option"
  ke_ungob :: "bytes \<Rightarrow> known_hosts option"
  ke_openable :: "string \<Rightarrow> bool"
  ke_writable :: "string \<Rightarrow> bool"
  ke_parse_key :: "bytes \<Rightarrow> pub_key option"
  ke_now :: string

type_synonym kh_state = "known_hosts \<times> disk"

datatype kh_err =
    ErrKeyBanned | ErrHostnameMismatch | ErrNewNotNeeded | ErrAddedNew
  | ErrBannedServer | ErrRecordMismatch | ErrUnknownServer
  | ErrNoSuchPath | ErrFieldCount nat | ErrOpenAppend | ErrAppend

text \<open>The fixed part of the texts of the errors that callers search with \<^verbatim>\<open>strings.Contains\<close>.\<close>

definition kh_err_text :: "kh_err \<Rightarrow> string" where
  "kh_err_text e = (case e of
     ErrNewNotNeeded \<Rightarrow> ''error: flag -new given but not needed. Re-run without -new : this is important to prevent MITM attacks; TofuAddIfNotKnown must be false once the server/host is known.''
   | ErrAddedNew \<Rightarrow> ''good: added previously unknown sshd host with the -new flag. Re-run without -new (or setting TofuAddIfNotKnown=false) now''
   | ErrKeyBanned \<Rightarrow> ''the key has been marked as banned''
   | ErrHostnameMismatch \<Rightarrow> ''hostname mismatch for key''
   | ErrBannedServer \<Rightarrow> ''banned server''
   | ErrRecordMismatch \<Rightarrow> ''known record mismatch''
   | ErrUnknownServer \<Rightarrow> ''unknown server; could be Man-In-The-Middle attack.  If this is first time setup, you must use -new to allow the new host''
   | ErrNoSuchPath \<Rightarrow> ''path does not exist''
   | ErrFieldCount _ \<Rightarrow> ''known_hosts file did not have 3/4/5 fields on line''
   | ErrOpenAppend \<Rightarrow> ''could not open file for appending''
   | ErrAppend \<Rightarrow> ''could not append to file'')"

definition HostState_String :: "HostState \<Rightarrow> string" where
  "HostState_String s = (case s of
     Unknown \<Rightarrow> ''Unknown'' | Banned \<Rightarrow> ''Banned'' | KnownOK \<Rightarrow> ''KnownOK''
   | KnownRecordMismatch \<Rightarrow> ''KnownRecordMismatch'' | AddedNew \<Rightarrow> ''AddedNew'')"

definition defaultFileFormat :: persist_format where
  "defaultFileFormat = KHJson"

definition Base64ofPublicKey :: "pub_key \<Rightarrow> string" where
  "Base64ofPublicKey key = b64_encode (pk_Marshal key)"

definition MarshalAuthorizedKey :: "pub_key \<Rightarrow> bytes" where
  "MarshalAuthorizedKey key = pk_Type key @ '' '' @ b64_encode (pk_Marshal key) @ [CHR 0x0A]"

subsection \<open>Records\<close>

definition AddHostPort :: "string \<Rightarrow> server_pub_key \<Rightarrow> server_pub_key go" where
  "AddHostPort hp prior =
     (if sk_Mut prior then Hang
      else let already = hp \<in> set (sk_SplitHostnames prior);
               prior1 = prior\<lparr>sk_SplitHostnames := List.insert hp (sk_SplitHostnames prior)\<rparr>
           in Ret (if already then prior1 else prior1\<lparr>sk_AlreadySaved := False\<rparr>))"

definition new_server_pub_key :: server_pub_key where
  "new_server_pub_key =
     \<lparr>sk_Hostname = [], sk_HumanKey = [], sk_ServerBanned = False, sk_remote = [], sk_Markers = [],
      sk_Hostnames = [], sk_SplitHostnames = [], sk_Keytype = [], sk_Base64 = [], sk_Comment = [],
      sk_Port = [], sk_Line = 0, sk_AlreadySaved = False, sk_Mut = False\<rparr>"

subsection \<open>Writing the text format\<close>

definition bracketed :: "string \<Rightarrow> string \<Rightarrow> string" where
  "bracketed host port = ''['' @ host @ '']:'' @ port"

fun join_hostnames :: "string list \<Rightarrow> string go" where
  "join_hostnames [] = Ret []"
| "join_hostnames (tmp # rest) =
     (let hp = Split CHR '':'' tmp in
      if length hp \<noteq> 2 then Panic ''must be 2 parts here''
      else let hn = bracketed (hp ! 0) (hp ! 1) in
        if rest = [] then Ret hn
        else bind_go (join_hostnames rest) (\<lambda>more. Ret (hn @ '','' @ more)))"

definition hostname_field :: "server_pub_key \<Rightarrow> string go" where
  "hostname_field v =
     (if length (sk_SplitHostnames v) = 1 then
        let hn = sk_Hostname v; hp = Split CHR '':'' hn in
        if length hp < 2 then Panic ''index out of range''
        else Ret (if hp ! 1 \<noteq> ''22'' then bracketed (hp ! 0) (hp ! 1) else hn)
      else join_hostnames (sk_SplitHostnames v))"

definition host_line :: "server_pub_key \<Rightarrow> string \<Rightarrow> string" where
  "host_line v hostname =
     hostname @ '' '' @ sk_Keytype v @ '' '' @ sk_Base64 v @ '' '' @ sk_Comment v @ [CHR 0x0A]"

text \<open>
  The loop of \<open>saveSshKnownHosts\<close>: what it appends to the file, and the hosts with
  \<open>AlreadySaved\<close> set.  A failing write ends it with an error.
\<close>

fun save_loop :: "bool \<Rightarrow> (string \<times> server_pub_key) list
                   \<Rightarrow> (kh_err option \<times> string \<times> (string \<times> server_pub_key) list) go" where
  "save_loop writable [] = Ret (None, [], [])"
| "save_loop writable ((k, v) # rest) =
     (if sk_AlreadySaved v then
        bind_go (save_loop writable rest) (\<lambda>(e, txt, hs). Ret (e, txt, (k, v) # hs))
      else bind_go (hostname_field v) (\<lambda>hostname.
        if \<not> writable then Ret (Some ErrAppend, [], (k, v) # rest)
        else bind_go (save_loop writable rest) (\<lambda>(e, txt, hs).
          Ret (e, host_line v hostname @ txt, (k, v\<lparr>sk_AlreadySaved := True\<rparr>) # hs))))"

text \<open>The backups: \<^verbatim>\<open>mv fn.prev fn.prev.prev\<close> and \<^verbatim>\<open>cp -p fn fn.prev\<close>, both ignoring failure.\<close>

definition mv_file :: "string \<Rightarrow> string \<Rightarrow> disk \<Rightarrow> disk" where
  "mv_file a b d = (case d a of None \<Rightarrow> d | Some c \<Rightarrow> (d(a := None))(b \<mapsto> c))"

definition cp_file :: "string \<Rightarrow> string \<Rightarrow> disk \<Rightarrow> disk" where
  "cp_file a b d = (case d a of None \<Rightarrow> d | Some c \<Rightarrow> d(b \<mapsto> c))"

definition append_file :: "string \<Rightarrow> string \<Rightarrow> disk \<Rightarrow> disk" where
  "append_file fn txt d = d(fn \<mapsto> (case d fn of None \<Rightarrow> txt | Some c \<Rightarrow> c @ txt))"

definition saveSshKnownHosts :: "kh_env \<Rightarrow> kh_state \<Rightarrow> (kh_err option \<times> kh_state) go" where
  "saveSshKnownHosts env st = (case st of (h, d) \<Rightarrow>
     if kh_NoSave h then Ret (None, h, d)
     else let fn = kh_FilepathPrefix h;
              d1 = mv_file (fn @ ''.prev'') (fn @ ''.prev.prev'') d;
              d2 = cp_file fn (fn @ ''.prev'') d1
          in if \<not> ke_openable env fn then Ret (Some ErrOpenAppend, h, d2)
             else bind_go (save_loop (ke_writable env fn) (kh_Hosts h)) (\<lambda>(e, txt, hs).
               Ret (e, h\<lparr>kh_Hosts := hs\<rparr>, append_file fn txt d2)))"

text \<open>\<open>saveJSONSnappy\<close> and \<open>saveGobSnappy\<close>: back up, write \<open>fn.new\<close>, rename it over \<open>fn\<close>.\<close>

definition save_image :: "kh_env \<Rightarrow> string \<Rightarrow> bytes \<Rightarrow> disk \<Rightarrow> disk go" where
  "save_image env fn content d =
     (let d1 = cp_file fn (fn @ ''.prev'') d in
      if \<not> ke_openable env (fn @ ''.new'') \<or> \<not> ke_writable env (fn @ ''.new'') then Panic ''create''
      else Ret (mv_file (fn @ ''.new'') fn (d1(fn @ ''.new'' \<mapsto> content))))"

definition Sync :: "kh_env \<Rightarrow> kh_state \<Rightarrow> kh_state go" where
  "Sync env st = (case st of (h, d) \<Rightarrow>
     let fn = kh_FilepathPrefix h @ kh_PersistFormatSuffix h in
     (case kh_PersistFormat h of
        KHJson \<Rightarrow> bind_go (save_image env fn (ke_json env h) d) (\<lambda>d'. Ret (h, d'))
      | KHGob \<Rightarrow> bind_go (save_image env fn (ke_gob env h) d) (\<lambda>d'. Ret (h, d'))
      | KHSsh \<Rightarrow> bind_go (saveSshKnownHosts env (h, d)) (\<lambda>(e, st').
          case e of None \<Rightarrow> Ret st' | Some _ \<Rightarrow> Panic ''panicOn'')))"

subsection \<open>Deciding on a host key\<close>

definition AddNeeded :: "kh_env \<Rightarrow> bool \<Rightarrow> bool \<Rightarrow> string \<Rightarrow> string \<Rightarrow> string \<Rightarrow> pub_key
    \<Rightarrow> server_pub_key option \<Rightarrow> kh_state
    \<Rightarrow> (HostState \<times> server_pub_key option \<times> kh_err option \<times> kh_state) go" where
  "AddNeeded env addIfNotKnown allowOneshotConnect hostname remote strPubBytes key record st =
     (case st of (h, d) \<Rightarrow>
      if addIfNotKnown then
        bind_go (AddHostPort hostname
            (new_server_pub_key\<lparr>sk_Hostname := hostname, sk_remote := remote, sk_HumanKey := strPubBytes,
               sk_Keytype := pk_Type key, sk_Base64 := Base64ofPublicKey key,
               sk_Comment := ''added_by_sshego_on_'' @ ke_now env\<rparr>)) (\<lambda>fresh.
          bind_go
            (case map_of (kh_Hosts h) strPubBytes of
               None \<Rightarrow> Sync env (h\<lparr>kh_Hosts := AList.update strPubBytes fresh (kh_Hosts h)\<rparr>, d)
             | Some prior \<Rightarrow>
                 bind_go (AddHostPort hostname prior) (\<lambda>prior'.
                   Sync env (h\<lparr>kh_Hosts := AList.update strPubBytes prior' (kh_Hosts h)\<rparr>, d)))
            (\<lambda>st'. Ret (if allowOneshotConnect then (KnownOK, Some fresh, None, st')
                        else (AddedNew, Some fresh, Some ErrAddedNew, st'))))
      else Ret (Unknown, record, None, (h, d)))"

text \<open>
  \<open>record.Mut\<close> is locked before the scan of \<open>SplitHostnames\<close> and unlocked only where the
  scan finds the name, so that the record stays locked in the state handed on when the name
  is missing; the next \<^verbatim>\<open>Lock\<close> on it blocks.
\<close>

definition lock_record :: "string \<Rightarrow> known_hosts \<Rightarrow> known_hosts" where
  "lock_record k h = (case map_of (kh_Hosts h) k of
     None \<Rightarrow> h
   | Some r \<Rightarrow> h\<lparr>kh_Hosts := AList.update k (r\<lparr>sk_Mut := True\<rparr>) (kh_Hosts h)\<rparr>)"

definition HostAlreadyKnown :: "kh_env \<Rightarrow> string \<Rightarrow> string \<Rightarrow> pub_key \<Rightarrow> bytes \<Rightarrow> bool \<Rightarrow> bool
    \<Rightarrow> kh_state \<Rightarrow> (HostState \<times> server_pub_key option \<times> kh_err option \<times> kh_state) go" where
  "HostAlreadyKnown env hostname remote key pubBytes addIfNotKnown allowOneshotConnect st =
     (case st of (h, d) \<Rightarrow>
      (case map_of (kh_Hosts h) pubBytes of
         None \<Rightarrow> AddNeeded env addIfNotKnown allowOneshotConnect hostname remote pubBytes key None (h, d)
       | Some record \<Rightarrow>
           if sk_ServerBanned record then Ret (Banned, Some record, Some ErrKeyBanned, (h, d))
           else if (HasPrefix hostname ''localhost'' \<or> HasPrefix hostname ''127.0.0.1'') \<and> addIfNotKnown
           then AddNeeded env addIfNotKnown allowOneshotConnect hostname remote pubBytes key (Some record) (h, d)
           else if sk_Hostname record \<noteq> hostname then
             (if sk_Mut record then Hang
              else let found = hostname \<in> set (sk_SplitHostnames record);
                       h1 = (if found then h else lock_record pubBytes h)
                   in if addIfNotKnown
                      then AddNeeded env addIfNotKnown allowOneshotConnect hostname remote pubBytes key
                             (Some record) (h1, d)
                      else if \<not> found then
                        (case map_of (kh_Hosts h1) pubBytes of
                           Some r \<Rightarrow>
                             if sk_Mut r then Hang
                             else Ret (KnownRecordMismatch, Some record, Some ErrHostnameMismatch, (h1, d))
                         | None \<Rightarrow> Panic ''nil pointer dereference'')
                      else Ret (KnownOK, Some record, None, (h1, d)))
           else if addIfNotKnown then Ret (KnownOK, Some record, Some ErrNewNotNeeded, (h, d))
           else Ret (KnownOK, Some record, None, (h, d))))"

text \<open>
  The closure \<open>hostKeyCallback\<close> of \<open>SSHConnect\<close>: nil (\<^const>\<open>None\<close>) lets the handshake go
  on, an error fails it.
\<close>

definition hostKeyCallback :: "kh_env \<Rightarrow> bool \<Rightarrow> bool \<Rightarrow> string \<Rightarrow> string \<Rightarrow> pub_key
    \<Rightarrow> kh_state \<Rightarrow> (kh_err option \<times> kh_state) go" where
  "hostKeyCallback env cfgAddIfNotKnown cfgTestAllowOneshotConnect hostname remote key st =
     bind_go (HostAlreadyKnown env hostname remote key (MarshalAuthorizedKey key)
                cfgAddIfNotKnown cfgTestAllowOneshotConnect st)
       (\<lambda>(hostStatus, spubkey, err, (h, d)).
          let h' = h\<lparr>kh_curStatus := hostStatus, kh_curHost := spubkey\<rparr> in
          (case err of
             Some e \<Rightarrow> Ret (Some e, (h', d))
           | None \<Rightarrow>
               Ret ((case hostStatus of
                       Banned \<Rightarrow> Some ErrBannedServer
                     | KnownRecordMismatch \<Rightarrow> Some ErrRecordMismatch
                     | KnownOK \<Rightarrow> None
                     | Unknown \<Rightarrow> Some ErrUnknownServer
                     | AddedNew \<Rightarrow> None), (h', d))))"

subsection \<open>Reading the text format\<close>

text \<open>One name of the comma-separated host field: brackets stripped, an explicit port split off.\<close>

definition parse_host :: "string \<Rightarrow> string \<Rightarrow> (string \<times> string) go" where
  "parse_host port hst =
     (if hst = [] then Panic ''index out of range''
      else let hst1 = (if hd hst = CHR ''['' then filter (\<lambda>c. c \<noteq> CHR '']'') (tl hst) else hst);
               hostport = Split CHR '':'' hst1
           in Ret (if length hostport > 1 then (hostport ! 0, hostport ! 1) else (hst1, port)))"

text \<open>Pass a) of \<open>LoadSshKnownHosts\<close> over the names of a line: the port found last is kept.\<close>

fun fill_split :: "string list \<Rightarrow> server_pub_key \<Rightarrow> server_pub_key go" where
  "fill_split [] pk = Ret pk"
| "fill_split (hst # hosts) pk =
     bind_go (parse_host (sk_Port pk) hst) (\<lambda>(host, port).
       let name = host @ '':'' @ port in
       fill_split hosts (pk\<lparr>sk_Port := port, sk_Hostname := name,
         sk_SplitHostnames := List.insert name (sk_SplitHostnames pk)\<rparr>))"

text \<open>Pass b): each name with its own copy of the record, entered under the key's text.\<close>

definition load_name :: "kh_env \<Rightarrow> nat \<Rightarrow> server_pub_key \<Rightarrow> string
    \<Rightarrow> (string \<times> server_pub_key) list \<Rightarrow> (string \<times> server_pub_key) list go" where
  "load_name env i pubkey hst hs =
     bind_go (parse_host (sk_Port pubkey) hst) (\<lambda>(host, port).
       let ourpubkey = pubkey\<lparr>sk_Port := port, sk_Hostname := host @ '':'' @ port\<rparr> in
       (case b64_decode (sk_Base64 ourpubkey) of
          None \<Rightarrow> Ret hs
        | Some expand \<Rightarrow>
           (case ke_parse_key env expand of
              None \<Rightarrow> Ret hs
            | Some xkey \<Rightarrow>
               let se = MarshalAuthorizedKey xkey;
                   ourpubkey1 = ourpubkey\<lparr>sk_Line := Suc i, sk_AlreadySaved := True, sk_HumanKey := se\<rparr>
               in (case map_of hs se of
                     None \<Rightarrow> Ret (AList.update se ourpubkey1 hs)
                   | Some prior \<Rightarrow>
                       bind_go (AddHostPort (sk_Hostname ourpubkey1) prior) (\<lambda>prior'.
                         Ret (AList.update se (prior'\<lparr>sk_AlreadySaved := True\<rparr>) hs))))))"

fun load_names :: "kh_env \<Rightarrow> nat \<Rightarrow> server_pub_key \<Rightarrow> string list
    \<Rightarrow> (string \<times> server_pub_key) list \<Rightarrow> (string \<times> server_pub_key) list go" where
  "load_names env i pubkey [] hs = Ret hs"
| "load_names env i pubkey (hst # hosts) hs =
     bind_go (load_name env i pubkey hst hs) (\<lambda>hs'. load_names env i pubkey hosts hs')"

definition load_line :: "kh_env \<Rightarrow> nat \<Rightarrow> string \<Rightarrow> (string \<times> server_pub_key) list
    \<Rightarrow> (kh_err + (string \<times> server_pub_key) list) go" where
  "load_line env i raw hs =
     (let line = Trim raw '' '' in
      if line = [] \<or> hd line = CHR ''#'' \<or> hd line = CHR ''|'' then Ret (Inr hs)
      else let splt = Split CHR '' '' line; n = length splt in
        if n < 3 \<or> 5 < n then Ret (Inl (ErrFieldCount (Suc i)))
        else if splt ! 0 = [] then Panic ''index out of range''
        else let marked = (hd (splt ! 0) = CHR ''@'');
                 markers = (if marked then splt ! 0 else []);
                 b = (if marked then 1 else 0 :: nat)
             in if marked \<and> (Contains markers ''@revoked'' \<or> Contains markers ''@cert-authority'')
                then Ret (Inr hs)
                else if n \<le> b + 2 then Panic ''index out of range''
                else let comment = (if b + 3 < n then splt ! (b + 3) else []);
                         pubkey = new_server_pub_key\<lparr>sk_Markers := markers, sk_Hostnames := splt ! b,
                           sk_Keytype := splt ! (b + 1), sk_Base64 := splt ! (b + 2),
                           sk_Comment := comment, sk_Port := ''22''\<rparr>;
                         hosts = Split CHR '','' (sk_Hostnames pubkey)
                     in bind_go (fill_split hosts pubkey) (\<lambda>pubkey1.
                          bind_go (load_names env i pubkey1 hosts hs) (\<lambda>hs'. Ret (Inr hs'))))"

fun load_lines :: "kh_env \<Rightarrow> nat \<Rightarrow> string list \<Rightarrow> (string \<times> server_pub_key) list
    \<Rightarrow> (kh_err + (string \<times> server_pub_key) list) go" where
  "load_lines env i [] hs = Ret (Inr hs)"
| "load_lines env i (l # ls) hs =
     bind_go (load_line env i l hs) (\<lambda>r.
       case r of Inl e \<Rightarrow> Ret (Inl e) | Inr hs' \<Rightarrow> load_lines env (Suc i) ls hs')"

definition empty_known_hosts :: "string \<Rightarrow> persist_format \<Rightarrow> known_hosts" where
  "empty_known_hosts path fmt =
     \<lparr>kh_Hosts = [], kh_curHost = None, kh_curStatus = Unknown, kh_FilepathPrefix = path,
      kh_PersistFormatSuffix = [], kh_PersistFormat = fmt, kh_NoSave = False\<rparr>"

definition LoadSshKnownHosts :: "kh_env \<Rightarrow> string \<Rightarrow> disk \<Rightarrow> (kh_err + known_hosts) go" where
  "LoadSshKnownHosts env path d =
     (case d path of
        None \<Rightarrow> Ret (Inl ErrNoSuchPath)
      | Some by \<Rightarrow>
          bind_go (load_lines env 0 (Split CHR 0x0A by) []) (\<lambda>r. Ret (case r of
            Inl e \<Rightarrow> Inl e
          | Inr hs \<Rightarrow> Inr ((empty_known_hosts path KHSsh)\<lparr>kh_Hosts := hs\<rparr>))))"

definition format_suffix :: "persist_format \<Rightarrow> string" where
  "format_suffix fmt = (case fmt of KHJson \<Rightarrow> ''.json.snappy'' | KHGob \<Rightarrow> ''.gob.snappy'' | KHSsh \<Rightarrow> [])"

text \<open>
  \<open>NewKnownHosts\<close>.  The readers of the snappy formats fill the structure from the decoded
  image and panic when it does not decode.
\<close>

definition NewKnownHosts :: "kh_env \<Rightarrow> string \<Rightarrow> persist_format \<Rightarrow> disk \<Rightarrow> (kh_err + known_hosts) go" where
  "NewKnownHosts env path fmt d =
     (let h = (empty_known_hosts path fmt)\<lparr>kh_PersistFormatSuffix := format_suffix fmt\<rparr>;
          fn = path @ format_suffix fmt
      in (case d fn of
            None \<Rightarrow> Ret (Inr h)
          | Some by \<Rightarrow>
             (case fmt of
                KHJson \<Rightarrow> (case ke_unjson env by of None \<Rightarrow> Panic ''json'' | Some h' \<Rightarrow> Ret (Inr h'))
              | KHGob \<Rightarrow> (case ke_ungob env by of None \<Rightarrow> Panic ''gob'' | Some h' \<Rightarrow> Ret (Inr h'))
              | KHSsh \<Rightarrow> LoadSshKnownHosts env fn d)))"

subsection \<open>Comparing two databases\<close>

definition same_server :: "server_pub_key \<Rightarrow> server_pub_key \<Rightarrow> bool" where
  "same_server v v2 \<longleftrightarrow> sk_HumanKey v = sk_HumanKey v2 \<and> sk_Hostname v = sk_Hostname v2
     \<and> sk_ServerBanned v = sk_ServerBanned v2"

definition KnownHostsEqual :: "known_hosts \<Rightarrow> known_hosts \<Rightarrow> bool" where
  "KnownHostsEqual a b \<longleftrightarrow>
     list_all (\<lambda>(k, v). case map_of (kh_Hosts b) k of None \<Rightarrow> False | Some v2 \<Rightarrow> same_server v v2)
       (kh_Hosts a)
     \<and> list_all (\<lambda>(k, _). map_of (kh_Hosts a) k \<noteq> None) (kh_Hosts b)"

end
