(* ===== verification/Known_Hosts_Proofs.thy ===== *)
theory Known_Hosts_Proofs
  imports Known_Hosts
begin

section \<open>Known hosts: who is accepted, what is stored\<close>

text \<open>
  The lemmas on the known-hosts database.  \<open>db_ok\<close> is its invariant (distinct keys, every
  record unlocked and filed under its own text); each operation keeps it whenever it
  returns.  The properties proper are at the end of each subsection.
\<close>

definition unlocked :: "known_hosts \<Rightarrow> bool" where
  "unlocked h \<longleftrightarrow> distinct (map fst (kh_Hosts h)) \<and> (\<forall>(k, v) \<in> set (kh_Hosts h). \<not> sk_Mut v)"

definition hosts_of :: "known_hosts \<Rightarrow> string \<Rightarrow> server_pub_key option" where
  "hosts_of h = map_of (kh_Hosts h)"

text \<open>The names a record vouches for.\<close>

definition vouched :: "server_pub_key \<Rightarrow> string set" where
  "vouched r = insert (sk_Hostname r) (set (sk_SplitHostnames r))"

subsection \<open>Updates and saving\<close>

lemma in_set_update: "kv \<in> set (AList.update k v al) \<Longrightarrow> kv = (k, v) \<or> kv \<in> set al"
  by (induction al) (auto split: if_splits)

lemma hosts_of_update [simp]:
  "hosts_of (h\<lparr>kh_Hosts := AList.update k v (kh_Hosts h)\<rparr>) = (hosts_of h)(k \<mapsto> v)"
  by (simp add: hosts_of_def update_conv')

lemma unlocked_map_of: "unlocked h \<Longrightarrow> map_of (kh_Hosts h) k = Some v \<Longrightarrow> \<not> sk_Mut v"
  by (auto simp: unlocked_def dest: map_of_SomeD)

lemma unlocked_cong: "kh_Hosts h' = kh_Hosts h \<Longrightarrow> unlocked h' = unlocked h"
  by (simp add: unlocked_def)

lemma unlocked_update:
  assumes "unlocked h" "\<not> sk_Mut v"
  shows "unlocked (h\<lparr>kh_Hosts := AList.update k v (kh_Hosts h)\<rparr>)"
proof -
  have d: "distinct (map fst (kh_Hosts h))" using assms by (simp add: unlocked_def)
  then have d': "distinct (map fst (AList.update k v (kh_Hosts h)))"
    by (rule distinct_update)
  moreover have "\<not> sk_Mut w" if "(j, w) \<in> set (AList.update k v (kh_Hosts h))" for j w
  proof -
    from that d' have "map_of (AList.update k v (kh_Hosts h)) j = Some w" by simp
    then show ?thesis
      using assms by (auto simp: update_conv' dest: unlocked_map_of split: if_splits)
  qed
  ultimately show ?thesis by (auto simp: unlocked_def)
qed

lemma AddHostPort_Ret:
  "AddHostPort hp r = Ret r' \<Longrightarrow>
     \<not> sk_Mut r \<and> \<not> sk_Mut r' \<and> set (sk_SplitHostnames r') = insert hp (set (sk_SplitHostnames r))
     \<and> sk_Hostname r' = sk_Hostname r \<and> sk_ServerBanned r' = sk_ServerBanned r
     \<and> sk_HumanKey r' = sk_HumanKey r"
  by (auto simp: AddHostPort_def Let_def split: if_splits)

lemma AddHostPort_unlocked: "\<not> sk_Mut r \<Longrightarrow> \<exists>r'. AddHostPort hp r = Ret r'"
  by (simp add: AddHostPort_def Let_def)

text \<open>Saving changes nothing of a record but its \<open>AlreadySaved\<close> mark.\<close>

definition mark_saved :: "(string \<times> server_pub_key) list \<Rightarrow> (string \<times> server_pub_key) list" where
  "mark_saved hs = map (\<lambda>(k, v). (k, v\<lparr>sk_AlreadySaved := True\<rparr>)) hs"

lemma map_of_mark_saved:
  "map_of (mark_saved hs) k = map_option (\<lambda>v. v\<lparr>sk_AlreadySaved := True\<rparr>) (map_of hs k)"
  by (induction hs) (auto simp: mark_saved_def)

lemma save_loop_no_error:
  "save_loop True hs = Ret (e, tx, hs') \<Longrightarrow> e = None \<and> hs' = mark_saved hs"
proof (induction hs arbitrary: e tx hs')
  case (Cons kv hs)
  obtain k v where kv: "kv = (k, v)" by (cases kv)
  show ?case
  proof (cases "sk_AlreadySaved v")
    case True
    then have "v\<lparr>sk_AlreadySaved := True\<rparr> = v" by simp
    with Cons True kv show ?thesis
      by (auto simp: bind_go_Ret_iff mark_saved_def)
  next
    case False
    with Cons kv show ?thesis by (auto simp: bind_go_Ret_iff mark_saved_def)
  qed
qed (simp add: mark_saved_def)

lemma Sync_Ret_hosts:
  assumes "Sync env (h, d) = Ret (h', d')"
  shows "h' = h \<or> (\<exists>hs. h' = h\<lparr>kh_Hosts := hs\<rparr> \<and> hs = mark_saved (kh_Hosts h))"
proof (cases "kh_PersistFormat h")
  case KHSsh
  show ?thesis
  proof (cases "ke_writable env (kh_FilepathPrefix h)")
    case True
    with KHSsh assms show ?thesis
      by (auto simp: Sync_def saveSshKnownHosts_def Let_def bind_go_Ret_iff
               dest!: save_loop_no_error split: if_splits option.splits)
  next
    case False
    have "save_loop False hs = Ret (None, tx, hs') \<Longrightarrow> hs' = hs" for hs tx hs'
    proof (induction hs arbitrary: tx hs')
      case (Cons kv hs)
      then show ?case by (cases kv) (auto simp: bind_go_Ret_iff split: if_splits)
    qed simp
    with KHSsh False assms show ?thesis
      by (auto simp: Sync_def saveSshKnownHosts_def Let_def bind_go_Ret_iff
               split: if_splits option.splits)
  qed
qed (use assms in \<open>auto simp: Sync_def Let_def bind_go_Ret_iff\<close>)

lemma Sync_Ret:
  assumes "Sync env (h, d) = Ret (h', d')"
  shows "\<exists>f. (\<forall>v. f v = v \<or> f v = v\<lparr>sk_AlreadySaved := True\<rparr>)
             \<and> hosts_of h' = (\<lambda>k. map_option f (hosts_of h k))"
    and "unlocked h \<Longrightarrow> unlocked h'"
proof -
  consider "h' = h" | "h' = h\<lparr>kh_Hosts := mark_saved (kh_Hosts h)\<rparr>"
    using Sync_Ret_hosts [OF assms] by blast
  then show "\<exists>f. (\<forall>v. f v = v \<or> f v = v\<lparr>sk_AlreadySaved := True\<rparr>)
             \<and> hosts_of h' = (\<lambda>k. map_option f (hosts_of h k))"
  proof cases
    case 1
    then show ?thesis by (intro exI [of _ id]) (simp add: option.map_id fun_eq_iff)
  next
    case 2
    then show ?thesis
      by (intro exI [of _ "\<lambda>v. v\<lparr>sk_AlreadySaved := True\<rparr>"]) (simp add: hosts_of_def map_of_mark_saved fun_eq_iff)
  qed
  from Sync_Ret_hosts [OF assms] show "unlocked h \<Longrightarrow> unlocked h'"
    by (fastforce simp: unlocked_def mark_saved_def comp_def case_prod_unfold)
qed

text \<open>When saving works: the file can be opened and written and every name is \<open>host:port\<close>.\<close>

definition two_parts :: "string \<Rightarrow> bool" where
  "two_parts s \<longleftrightarrow> length (Split CHR '':'' s) = 2"

definition names_ok :: "(string \<times> server_pub_key) list \<Rightarrow> bool" where
  "names_ok hs \<longleftrightarrow> (\<forall>(k, v) \<in> set hs. two_parts (sk_Hostname v) \<and> list_all two_parts (sk_SplitHostnames v))"

definition files_ok :: "kh_env \<Rightarrow> bool" where
  "files_ok env \<longleftrightarrow> (\<forall>fn. ke_openable env fn \<and> ke_writable env fn)"

lemma join_hostnames_returns: "list_all two_parts ns \<Longrightarrow> \<exists>s. join_hostnames ns = Ret s"
  by (induction ns) (auto simp: two_parts_def Let_def)

lemma hostname_field_returns:
  "two_parts (sk_Hostname v) \<Longrightarrow> list_all two_parts (sk_SplitHostnames v) \<Longrightarrow> \<exists>s. hostname_field v = Ret s"
  using join_hostnames_returns by (auto simp: hostname_field_def two_parts_def Let_def)

lemma save_loop_returns: "names_ok hs \<Longrightarrow> \<exists>tx. save_loop True hs = Ret (None, tx, mark_saved hs)"
proof (induction hs)
  case (Cons kv hs)
  obtain k v where kv: "kv = (k, v)" by (cases kv)
  from Cons kv obtain tx where tx: "save_loop True hs = Ret (None, tx, mark_saved hs)"
    by (auto simp: names_ok_def)
  from Cons.prems kv obtain s where "hostname_field v = Ret s"
    using hostname_field_returns [of v] by (auto simp: names_ok_def)
  with tx kv show ?case by (cases "sk_AlreadySaved v") (auto simp: mark_saved_def)
qed (simp add: mark_saved_def)

lemma Sync_returns:
  assumes "files_ok env" "names_ok (kh_Hosts h)"
  shows "\<exists>h' d'. Sync env (h, d) = Ret (h', d')"
proof (cases "kh_PersistFormat h")
  case KHSsh
  from save_loop_returns [OF assms(2)] obtain tx
    where "save_loop True (kh_Hosts h) = Ret (None, tx, mark_saved (kh_Hosts h))" by blast
  with KHSsh assms(1) show ?thesis
    by (simp add: Sync_def saveSshKnownHosts_def Let_def files_ok_def)
qed (use assms(1) in \<open>auto simp: Sync_def save_image_def Let_def files_ok_def\<close>)

subsection \<open>The trust-on-first-use branch\<close>

text \<open>A record up to its \<open>AlreadySaved\<close> mark.\<close>

definition same_but_saved :: "server_pub_key \<Rightarrow> server_pub_key \<Rightarrow> bool" where
  "same_but_saved v w \<longleftrightarrow> v\<lparr>sk_AlreadySaved := False\<rparr> = w\<lparr>sk_AlreadySaved := False\<rparr>"

lemma same_but_saved_fields:
  "same_but_saved v w \<Longrightarrow> sk_SplitHostnames v = sk_SplitHostnames w \<and> sk_Hostname v = sk_Hostname w
     \<and> sk_ServerBanned v = sk_ServerBanned w \<and> sk_Mut v = sk_Mut w \<and> sk_HumanKey v = sk_HumanKey w"
  by (cases v; cases w) (simp add: same_but_saved_def)

lemma same_but_saved_mark:
  "f v = v \<or> f v = v\<lparr>sk_AlreadySaved := True\<rparr> \<Longrightarrow> same_but_saved (f v) v"
  by (auto simp: same_but_saved_def)

lemma Sync_hosts:
  assumes "Sync env (h, d) = Ret (h', d')"
  shows "rel_option same_but_saved (hosts_of h' k) (hosts_of h k)"
proof -
  from Sync_Ret(1) [OF assms] obtain f
    where f: "\<forall>v. f v = v \<or> f v = v\<lparr>sk_AlreadySaved := True\<rparr>"
      and e: "hosts_of h' k = map_option f (hosts_of h k)" by metis
  from f show ?thesis by (cases "hosts_of h k") (simp_all add: e same_but_saved_mark)
qed

definition fresh_record :: "kh_env \<Rightarrow> string \<Rightarrow> string \<Rightarrow> string \<Rightarrow> pub_key \<Rightarrow> server_pub_key" where
  "fresh_record env hostname remote k key =
     new_server_pub_key\<lparr>sk_Hostname := hostname, sk_remote := remote, sk_HumanKey := k,
       sk_Keytype := pk_Type key, sk_Base64 := Base64ofPublicKey key,
       sk_Comment := ''added_by_sshego_on_'' @ ke_now env, sk_SplitHostnames := [hostname]\<rparr>"

lemma AddHostPort_fresh:
  "AddHostPort hostname
     (new_server_pub_key\<lparr>sk_Hostname := hostname, sk_remote := remote, sk_HumanKey := k,
        sk_Keytype := pk_Type key, sk_Base64 := Base64ofPublicKey key,
        sk_Comment := ''added_by_sshego_on_'' @ ke_now env\<rparr>)
   = Ret (fresh_record env hostname remote k key)"
  by (simp add: AddHostPort_def fresh_record_def new_server_pub_key_def Let_def)

text \<open>The record under the key's text after the branch ran.\<close>

definition merged :: "kh_env \<Rightarrow> string \<Rightarrow> string \<Rightarrow> string \<Rightarrow> pub_key \<Rightarrow> known_hosts \<Rightarrow> server_pub_key go" where
  "merged env hostname remote k key h = (case hosts_of h k of
     None \<Rightarrow> Ret (fresh_record env hostname remote k key)
   | Some prior \<Rightarrow> AddHostPort hostname prior)"

lemma AddNeeded_True:
  "AddNeeded env True one hostname remote k key rec (h, d) =
     bind_go (merged env hostname remote k key h) (\<lambda>w.
       bind_go (Sync env (h\<lparr>kh_Hosts := AList.update k w (kh_Hosts h)\<rparr>, d)) (\<lambda>st'.
         Ret (if one then (KnownOK, Some (fresh_record env hostname remote k key), None, st')
              else (AddedNew, Some (fresh_record env hostname remote k key), Some ErrAddedNew, st'))))"
  unfolding AddNeeded_def AddHostPort_fresh merged_def hosts_of_def
  by (cases "map_of (kh_Hosts h) k"; cases "AddHostPort hostname (the (map_of (kh_Hosts h) k))") simp_all

lemma AddNeeded_False: "AddNeeded env False one hostname remote k key rec st = Ret (Unknown, rec, None, st)"
  by (simp add: AddNeeded_def split: prod.splits)

lemma merged_props:
  assumes "merged env hostname remote k key h = Ret w"
  shows "\<not> sk_Mut w" "hostname \<in> set (sk_SplitHostnames w)"
    and "sk_ServerBanned w \<longleftrightarrow> (\<exists>p. hosts_of h k = Some p \<and> sk_ServerBanned p)"
  using assms
  by (auto simp: merged_def fresh_record_def new_server_pub_key_def split: option.splits dest!: AddHostPort_Ret)

lemma AddNeeded_Ret:
  assumes "AddNeeded env True one hostname remote k key rec (h, d) = Ret (s, r, e, (h', d'))"
  shows "(s, e) = (if one then (KnownOK, None) else (AddedNew, Some ErrAddedNew))"
    and "\<exists>w. hosts_of h' k = Some w \<and> hostname \<in> set (sk_SplitHostnames w) \<and> \<not> sk_Mut w
             \<and> (sk_ServerBanned w \<longleftrightarrow> (\<exists>p. hosts_of h k = Some p \<and> sk_ServerBanned p))"
    and "j \<noteq> k \<Longrightarrow> rel_option same_but_saved (hosts_of h' j) (hosts_of h j)"
    and "unlocked h \<Longrightarrow> unlocked h'"
proof -
  from assms obtain w where w: "merged env hostname remote k key h = Ret w"
    and sy: "Sync env (h\<lparr>kh_Hosts := AList.update k w (kh_Hosts h)\<rparr>, d) = Ret (h', d')"
    and se: "(s, e) = (if one then (KnownOK, None) else (AddedNew, Some ErrAddedNew))"
    by (auto simp: AddNeeded_True bind_go_Ret_iff split: if_splits)
  show "(s, e) = (if one then (KnownOK, None) else (AddedNew, Some ErrAddedNew))" by (fact se)
  have "rel_option same_but_saved (hosts_of h' k) (Some w)"
    using Sync_hosts [OF sy, of k] by simp
  then obtain w' where w': "hosts_of h' k = Some w'" "same_but_saved w' w"
    by (auto simp: option_rel_Some2)
  show "\<exists>w. hosts_of h' k = Some w \<and> hostname \<in> set (sk_SplitHostnames w) \<and> \<not> sk_Mut w
             \<and> (sk_ServerBanned w \<longleftrightarrow> (\<exists>p. hosts_of h k = Some p \<and> sk_ServerBanned p))"
    using w' merged_props [OF w] same_but_saved_fields [OF w'(2)] by auto
  show "j \<noteq> k \<Longrightarrow> rel_option same_but_saved (hosts_of h' j) (hosts_of h j)"
    using Sync_hosts [OF sy, of j] by simp
  show "unlocked h \<Longrightarrow> unlocked h'"
    using Sync_Ret(2) [OF sy] unlocked_update merged_props(1) [OF w] by blast
qed

subsection \<open>The decision\<close>

lemma hosts_of_lock_record:
  "hosts_of h k = Some r \<Longrightarrow> hosts_of (lock_record k h) k = Some (r\<lparr>sk_Mut := True\<rparr>)"
  by (simp add: lock_record_def hosts_of_def update_conv')

text \<open>A missing name leaves the record locked, so that the next lock on it never returns.\<close>

lemma HostAlreadyKnown_missing_name:
  assumes "hosts_of h pub = Some r" "\<not> sk_ServerBanned r"
    and "hostname \<notin> vouched r"
    and "\<not> (add \<and> (HasPrefix hostname ''localhost'' \<or> HasPrefix hostname ''127.0.0.1''))"
  shows "HostAlreadyKnown env hostname remote key pub add one (h, d) = Hang"
proof -
  let ?h = "lock_record pub h"
  have l: "hosts_of ?h pub = Some (r\<lparr>sk_Mut := True\<rparr>)"
    using assms(1) by (rule hosts_of_lock_record)
  then have "merged env hostname remote pub key ?h = Hang"
    by (simp add: merged_def AddHostPort_def)
  then have "AddNeeded env True one hostname remote pub key rec (?h, d) = Hang" for rec
    by (simp add: AddNeeded_True)
  with assms l show ?thesis
    by (cases add) (auto simp: HostAlreadyKnown_def hosts_of_def vouched_def Let_def)
qed

text \<open>Every way \<open>HostAlreadyKnown\<close> can return without an error.\<close>

lemma HostAlreadyKnown_no_error:
  assumes "HostAlreadyKnown env hostname remote key pub add one (h, d) = Ret (s, r, None, (h', d'))"
  shows "(s = Unknown \<and> \<not> add \<and> hosts_of h pub = None)
       \<or> (s = KnownOK \<and> add \<and> one)
       \<or> (s = KnownOK \<and> \<not> add \<and> h' = h \<and>
          (\<exists>v. hosts_of h pub = Some v \<and> \<not> sk_ServerBanned v \<and> hostname \<in> vouched v))"
proof (cases add)
  case True
  have "s = KnownOK \<and> one" if "AddNeeded env True one hostname remote pub key rec (g, d) = Ret (s, r, None, (h', d'))"
    for rec g using AddNeeded_Ret(1) [OF that] by (simp split: if_splits)
  with True assms show ?thesis
    by (auto simp: HostAlreadyKnown_def Let_def split: option.splits if_splits)
next
  case False
  with assms show ?thesis
    by (auto simp: HostAlreadyKnown_def AddNeeded_False hosts_of_def vouched_def Let_def
             split: option.splits if_splits)
qed

lemma HostAlreadyKnown_unlocked:
  assumes "HostAlreadyKnown env hostname remote key pub add one (h, d) = Ret (s, r, e, (h', d'))"
    and "unlocked h"
  shows "unlocked h'"
proof (cases "hosts_of h pub")
  case None
  with assms show ?thesis
    by (cases add) (auto simp: HostAlreadyKnown_def hosts_of_def AddNeeded_False dest: AddNeeded_Ret(4))
next
  case (Some v)
  show ?thesis
  proof (cases "hostname \<in> vouched v \<or> sk_ServerBanned v
                \<or> add \<and> (HasPrefix hostname ''localhost'' \<or> HasPrefix hostname ''127.0.0.1'')")
    case True
    with assms Some show ?thesis
      by (auto simp: HostAlreadyKnown_def hosts_of_def vouched_def Let_def
               dest: AddNeeded_Ret(4) split: if_splits)
  next
    case False
    with HostAlreadyKnown_missing_name [OF Some, of hostname add] assms(1) show ?thesis by simp
  qed
qed

lemma same_but_saved_refl [simp]: "rel_option same_but_saved x x"
  by (rule option.rel_refl) (simp add: same_but_saved_def)

lemma hosts_of_lock_record_other: "j \<noteq> k \<Longrightarrow> hosts_of (lock_record k h) j = hosts_of h j"
  by (simp add: lock_record_def hosts_of_def update_conv' split: option.splits)

lemma HostAlreadyKnown_frame:
  assumes "HostAlreadyKnown env hostname remote key pub add one (h, d) = Ret (s, r, e, (h', d'))"
    and "j \<noteq> pub"
  shows "rel_option same_but_saved (hosts_of h' j) (hosts_of h j)"
proof (cases add)
  case True
  have "rel_option same_but_saved (hosts_of h' j) (hosts_of h j)"
    if "AddNeeded env True one hostname remote pub key rec (g, d) = Ret (s, r, e, (h', d'))"
      and "hosts_of g j = hosts_of h j" for rec g
    using AddNeeded_Ret(3) [OF that(1) assms(2)] that(2) by simp
  with True assms hosts_of_lock_record_other [OF assms(2), of h] show ?thesis
    by (auto simp: HostAlreadyKnown_def Let_def split: option.splits if_splits)
next
  case False
  with assms hosts_of_lock_record_other [OF assms(2), of h] show ?thesis
    by (auto simp: HostAlreadyKnown_def AddNeeded_False Let_def split: option.splits if_splits)
qed

lemma hostKeyCallback_None:
  assumes "hostKeyCallback env add one hostname remote key (h, d) = Ret (None, (h', d'))"
  shows "\<exists>s r g. HostAlreadyKnown env hostname remote key (MarshalAuthorizedKey key) add one (h, d)
             = Ret (s, r, None, (g, d')) \<and> (s = KnownOK \<or> s = AddedNew)"
  using assms by (auto simp: hostKeyCallback_def bind_go_Ret_iff Let_def split: option.splits HostState.splits)

lemma callback_accepts:
  assumes "hostKeyCallback env add False hostname remote key (h, d) = Ret (None, (h', d'))"
  shows "\<not> add" "kh_Hosts h' = kh_Hosts h"
    and "\<exists>r. hosts_of h (MarshalAuthorizedKey key) = Some r \<and> \<not> sk_ServerBanned r \<and> hostname \<in> vouched r"
proof -
  from hostKeyCallback_None [OF assms] obtain s r g
    where k: "HostAlreadyKnown env hostname remote key (MarshalAuthorizedKey key) add False (h, d)
             = Ret (s, r, None, (g, d'))" and "s = KnownOK \<or> s = AddedNew" by blast
  with HostAlreadyKnown_no_error [OF k] have "\<not> add" "g = h"
    "\<exists>r. hosts_of h (MarshalAuthorizedKey key) = Some r \<and> \<not> sk_ServerBanned r \<and> hostname \<in> vouched r" by auto
  then show "\<not> add" "\<exists>r. hosts_of h (MarshalAuthorizedKey key) = Some r \<and> \<not> sk_ServerBanned r \<and> hostname \<in> vouched r"
    by auto
  show "kh_Hosts h' = kh_Hosts h" using assms k \<open>g = h\<close> by (auto simp: hostKeyCallback_def split: HostState.splits)
qed

text \<open>A save touches no file but those whose names begin with the path of the database.\<close>

lemma HasPrefix_self_append [simp]: "\<not> HasPrefix p fn \<Longrightarrow> p \<noteq> fn @ s"
  by auto

lemma Sync_disk:
  assumes "Sync env (h, d) = Ret (h', d')" "\<not> HasPrefix p (kh_FilepathPrefix h)"
  shows "d' p = d p"
proof -
  have "p \<noteq> kh_FilepathPrefix h" using assms(2) by (auto simp: HasPrefix_def)
  with assms show ?thesis
    by (auto simp: Sync_def save_image_def saveSshKnownHosts_def mv_file_def cp_file_def append_file_def Let_def
        bind_go_Ret_iff split: persist_format.split_asm option.split_asm if_split_asm)
qed

lemma callback_first_use:
  assumes "hosts_of h (MarshalAuthorizedKey key) = None"
    and "files_ok env" "names_ok (kh_Hosts h)" "two_parts hostname"
  shows "\<exists>h1 d1 h2. hostKeyCallback env True False hostname remote key (h, d) = Ret (Some ErrAddedNew, (h1, d1))
            \<and> hostKeyCallback env False False hostname remote' key (h1, d1) = Ret (None, (h2, d1))
            \<and> (\<forall>p. \<not> HasPrefix p (kh_FilepathPrefix h) \<longrightarrow> d1 p = d p)"
proof -
  let ?k = "MarshalAuthorizedKey key" and ?w = "fresh_record env hostname remote (MarshalAuthorizedKey key) key"
  let ?h1 = "h\<lparr>kh_Hosts := AList.update ?k ?w (kh_Hosts h)\<rparr>"
  have m: "merged env hostname remote ?k key h = Ret ?w"
    using assms(1) by (simp add: merged_def)
  have "names_ok (kh_Hosts ?h1)"
    using assms(3,4)
    by (fastforce simp: names_ok_def fresh_record_def new_server_pub_key_def dest!: in_set_update)
  with assms(2) obtain h2 d2 where sy: "Sync env (?h1, d) = Ret (h2, d2)"
    using Sync_returns by blast
  have "hosts_of h ?k = None \<Longrightarrow> map_of (kh_Hosts h) ?k = None" by (simp add: hosts_of_def)
  with assms(1) m sy have first: "hostKeyCallback env True False hostname remote key (h, d)
      = Ret (Some ErrAddedNew, (h2\<lparr>kh_curStatus := AddedNew, kh_curHost := Some ?w\<rparr>, d2))"
    by (simp add: hostKeyCallback_def HostAlreadyKnown_def AddNeeded_True)
  have "rel_option same_but_saved (hosts_of h2 ?k) (Some ?w)"
    using Sync_hosts [OF sy, of ?k] by simp
  then obtain w2 where "hosts_of h2 ?k = Some w2" and "same_but_saved w2 ?w"
    by (auto simp: option_rel_Some2)
  then have "map_of (kh_Hosts h2) ?k = Some w2" "sk_Hostname w2 = hostname" "\<not> sk_ServerBanned w2"
    using same_but_saved_fields [of w2 ?w]
    by (auto simp: hosts_of_def fresh_record_def new_server_pub_key_def)
  then have "\<exists>h3. hostKeyCallback env False False hostname remote' key
      (h2\<lparr>kh_curStatus := AddedNew, kh_curHost := Some ?w\<rparr>, d2) = Ret (None, (h3, d2))"
    by (simp add: hostKeyCallback_def HostAlreadyKnown_def)
  moreover have "\<forall>p. \<not> HasPrefix p (kh_FilepathPrefix h) \<longrightarrow> d2 p = d p"
    using Sync_disk [OF sy] by simp
  ultimately show ?thesis using first by blast
qed

subsection \<open>Properties\<close>

text \<open>A small database for the witnesses: one key, known under \<open>h:22\<close>.\<close>

definition demo_env :: kh_env where
  "demo_env = \<lparr>ke_json = (\<lambda>_. []), ke_gob = (\<lambda>_. []), ke_unjson = (\<lambda>_. None), ke_ungob = (\<lambda>_. None),
     ke_openable = (\<lambda>_. True), ke_writable = (\<lambda>_. True),
     ke_parse_key = (\<lambda>b. Some \<lparr>pk_Type = ''ssh-rsa'', pk_Marshal = b\<rparr>), ke_now = ''now''\<rparr>"

definition demo_key :: pub_key where
  "demo_key = \<lparr>pk_Type = ''ssh-rsa'', pk_Marshal = ''K''\<rparr>"

definition demo_record :: server_pub_key where
  "demo_record = fresh_record demo_env ''h:22'' ''1.2.3.4:22'' (MarshalAuthorizedKey demo_key) demo_key"

definition demo_db :: known_hosts where
  "demo_db = (empty_known_hosts ''kh'' KHSsh)\<lparr>kh_Hosts := [(MarshalAuthorizedKey demo_key, demo_record)]\<rparr>"

lemma demo_simps:
  "hosts_of demo_db (MarshalAuthorizedKey demo_key) = Some demo_record"
  "hosts_of (empty_known_hosts p f) k = None"
  "\<not> sk_ServerBanned demo_record" "vouched demo_record = {''h:22''}"
  "unlocked demo_db" "unlocked (empty_known_hosts p f)"
  "names_ok (kh_Hosts (empty_known_hosts p f))" "files_ok demo_env"
  by (simp_all add: demo_db_def hosts_of_def empty_known_hosts_def demo_record_def fresh_record_def
      new_server_pub_key_def vouched_def unlocked_def names_ok_def files_ok_def demo_env_def)

text \<open>
  C2: with the one-shot test switch off, the host-key callback lets a handshake go on only
  when trust-on-first-use is off too and the presented key is in the database, not banned,
  and vouches for the very host name dialled.  This holds for every name: one that begins with \<^verbatim>\<open>localhost\<close> or
  \<^verbatim>\<open>127.0.0.1\<close> is checked like any other (the early return that a comment and a log line of \<open>HostAlreadyKnown\<close> announce for
  these names is commented out in the code).
\<close>

theorem callback_accepts_only_vouched:
  assumes "hostKeyCallback env add False hostname remote key (h, d) = Ret (None, st')"
  shows "\<not> add \<and> (\<exists>r. hosts_of h (MarshalAuthorizedKey key) = Some r
                     \<and> \<not> sk_ServerBanned r \<and> hostname \<in> vouched r)"
  using callback_accepts [of env add hostname remote key h d "fst st'" "snd st'"] assms by auto

theorem callback_accepts_only_vouched_witness:
  "\<not> False \<and> (\<exists>r. hosts_of demo_db (MarshalAuthorizedKey demo_key) = Some r
                     \<and> \<not> sk_ServerBanned r \<and> ''h:22'' \<in> vouched r)"
proof (rule callback_accepts_only_vouched)
  show "hostKeyCallback demo_env False False ''h:22'' ''r'' demo_key (demo_db, Map.empty)
          = Ret (None, (demo_db\<lparr>kh_curStatus := KnownOK, kh_curHost := Some demo_record\<rparr>, Map.empty))"
    by (simp add: hostKeyCallback_def HostAlreadyKnown_def demo_db_def empty_known_hosts_def
        demo_record_def fresh_record_def new_server_pub_key_def)
qed

text \<open>
  A banned key is refused whatever the flags and the host name are, and the refusal
  leaves every record as it was.
\<close>

lemma banned_key_refused:
  assumes "hosts_of h (MarshalAuthorizedKey key) = Some r" and "sk_ServerBanned r"
  shows "\<exists>h'. hostKeyCallback env add one hostname remote key (h, d) = Ret (Some ErrKeyBanned, (h', d))
            \<and> kh_Hosts h' = kh_Hosts h"
  using assms by (simp add: hostKeyCallback_def HostAlreadyKnown_def hosts_of_def Let_def)

text \<open>
  trust on first use takes two runs and the second succeeds.  For a key that is not in
  the database, when the files can be written and every stored name is \<open>host:port\<close>, the
  run with the new-host flag returns the error that asks for a re-run, and the re-run
  without the flag, on the database the first run left, accepts the same host and key.
\<close>

lemma tofu_takes_two_runs:
  assumes "hosts_of h (MarshalAuthorizedKey key) = None"
    and "files_ok env" "names_ok (kh_Hosts h)" "two_parts hostname"
  shows "\<exists>st1. hostKeyCallback env True False hostname remote key (h, d) = Ret (Some ErrAddedNew, st1)
            \<and> (\<exists>st2. hostKeyCallback env False False hostname remote' key st1 = Ret (None, st2))"
  using callback_first_use [OF assms, of remote d remote'] by blast

text \<open>
  A known, unbanned key presented under a name its record does not vouch for makes the
  callback block for ever: the record's mutex is still held from the scan of its names when
  it is locked again, so that the mismatch error is never delivered.  (With the new-host
  flag the names with a localhost prefix take another branch.)
\<close>

lemma name_mismatch_blocks:
  assumes "hosts_of h (MarshalAuthorizedKey key) = Some r" and "\<not> sk_ServerBanned r"
    and "hostname \<notin> vouched r"
    and "\<not> add \<or> \<not> (HasPrefix hostname ''localhost'' \<or> HasPrefix hostname ''127.0.0.1'')"
  shows "hostKeyCallback env add one hostname remote key (h, d) = Hang"
  using HostAlreadyKnown_missing_name [OF assms(1-3), of add] assms(4)
  by (simp add: hostKeyCallback_def)

text \<open>
  Whenever the callback returns, no record is left locked, and the records of all other
  keys are untouched but for the mark that says they are on disk.
\<close>

lemma callback_keeps_database:
  assumes "hostKeyCallback env add one hostname remote key (h, d) = Ret (e, (h', d'))" and "unlocked h"
  shows "unlocked h' \<and> (\<forall>j. j \<noteq> MarshalAuthorizedKey key \<longrightarrow>
            rel_option same_but_saved (hosts_of h' j) (hosts_of h j))"
proof -
  let ?k = "MarshalAuthorizedKey key"
  from assms(1) obtain s r e' g where
    ha: "HostAlreadyKnown env hostname remote key ?k add one (h, d) = Ret (s, r, e', (g, d'))"
    and h': "kh_Hosts h' = kh_Hosts g"
    by (auto simp: hostKeyCallback_def bind_go_Ret_iff Let_def split: option.splits)
  have "unlocked h'"
    using HostAlreadyKnown_unlocked [OF ha assms(2)] unlocked_cong [OF h'] by simp
  moreover have "rel_option same_but_saved (hosts_of g j) (hosts_of h j)" if "j \<noteq> ?k" for j
    by (rule HostAlreadyKnown_frame [OF ha that])
  ultimately show ?thesis using h' by (simp add: hosts_of_def)
qed

end
