(* ===== verification/Known_Hosts_File.thy ===== *)
theory Known_Hosts_File
  imports Known_Hosts_Proofs
begin

section \<open>Known hosts: the text file\<close>

text \<open>
  What \<open>saveSshKnownHosts\<close> writes, \<open>LoadSshKnownHosts\<close> reads back: the same keys, each with
  the same set of names.  The lemmas go bottom-up: one name, the names of a line, one line,
  all lines.  Two properties of the reader and the comparison \<open>KnownHostsEqual\<close> close the
  theory.
\<close>

subsection \<open>One name\<close>

definition plain :: "string \<Rightarrow> bool" where
  "plain s \<longleftrightarrow> set s \<inter> {CHR '':'', CHR ''['', CHR '']'', CHR '','', CHR '' '', CHR 0x0A,
                        CHR ''#'', CHR ''|'', CHR ''@''} = {}"

definition good_name :: "string \<Rightarrow> bool" where
  "good_name n \<longleftrightarrow> (\<exists>host port. n = host @ '':'' @ port \<and> plain host \<and> plain port)"

text \<open>A written form of a name: whatever the port so far, the reader gets the name back.\<close>

definition writes :: "string \<Rightarrow> string \<Rightarrow> bool" where
  "writes f n \<longleftrightarrow> (\<forall>q. \<exists>host port. n = host @ '':'' @ port \<and> parse_host q f = Ret (host, port))
     \<and> f \<noteq> [] \<and> set f \<inter> {CHR '','', CHR '' '', CHR 0x0A} = {}
     \<and> hd f \<notin> {CHR ''#'', CHR ''|'', CHR ''@''}"

lemma Split_name:
  assumes "plain host" "plain port"
  shows "Split CHR '':'' (host @ CHR '':'' # port) = [host, port]"
proof -
  have "CHR '':'' \<notin> set host" "CHR '':'' \<notin> set port" using assms by (auto simp: plain_def)
  then show ?thesis by (simp add: Split_append_sep Split_no_sep)
qed

lemma filter_plain: "plain s \<Longrightarrow> filter (\<lambda>c. c \<noteq> CHR '']'') s = s"
  by (auto simp: plain_def filter_id_conv)

lemma writes_bracketed:
  assumes "plain host" "plain port"
  shows "writes (bracketed host port) (host @ '':'' @ port)"
  using assms
  by (auto simp: writes_def parse_host_def bracketed_def Let_def filter_plain Split_name)
    (auto simp: plain_def)

lemma writes_plain:
  assumes "plain host" "plain port"
  shows "writes (host @ '':'' @ port) (host @ '':'' @ port)"
proof -
  have "hd (host @ CHR '':'' # port) \<notin> {CHR ''['', CHR ''#'', CHR ''|'', CHR ''@''}"
    using assms by (cases host) (auto simp: plain_def)
  moreover have "set (host @ CHR '':'' # port) \<inter> {CHR '','', CHR '' '', CHR 0x0A} = {}"
    using assms by (auto simp: plain_def)
  ultimately show ?thesis
    by (auto simp: writes_def parse_host_def Let_def Split_name [OF assms])
qed

lemma two_parts_good: "good_name n \<Longrightarrow> two_parts n"
  by (auto simp: good_name_def two_parts_def Split_name)

text \<open>The host field of a record whose names are all good.\<close>

lemma join_hostnames_writes:
  "ns \<noteq> [] \<Longrightarrow> list_all good_name ns \<Longrightarrow>
     \<exists>fs. join_hostnames ns = Ret (Join '','' fs) \<and> list_all2 writes fs ns"
proof (induction ns)
  case (Cons n ns)
  from Cons.prems obtain host port where n: "n = host @ '':'' @ port" "plain host" "plain port"
    by (auto simp: good_name_def)
  let ?f = "bracketed host port"
  have w: "writes ?f n" unfolding n(1) using n(2,3) by (rule writes_bracketed)
  show ?case
  proof (cases "ns = []")
    case True
    with n w show ?thesis by (intro exI [of _ "[?f]"]) (simp add: Split_name)
  next
    case False
    with Cons obtain fs where "join_hostnames ns = Ret (Join '','' fs)" "list_all2 writes fs ns"
      by auto
    moreover from this False obtain f fs' where "fs = f # fs'" by (cases fs) auto
    ultimately show ?thesis using n w False
      by (intro exI [of _ "?f # fs"]) (simp add: Split_name)
  qed
qed simp

definition good_names :: "server_pub_key \<Rightarrow> bool" where
  "good_names v \<longleftrightarrow> list_all good_name (sk_SplitHostnames v) \<and> sk_SplitHostnames v \<noteq> []
     \<and> (length (sk_SplitHostnames v) = 1 \<longrightarrow> sk_SplitHostnames v = [sk_Hostname v])"

lemma hostname_field_writes:
  assumes "good_names v"
  shows "\<exists>fs. hostname_field v = Ret (Join '','' fs) \<and> list_all2 writes fs (sk_SplitHostnames v)"
proof (cases "length (sk_SplitHostnames v) = 1")
  case True
  with assms have s: "sk_SplitHostnames v = [sk_Hostname v]" and g: "good_name (sk_Hostname v)"
    by (auto simp: good_names_def)
  from g obtain host port where n: "sk_Hostname v = host @ '':'' @ port" "plain host" "plain port"
    by (auto simp: good_name_def)
  let ?f = "if port \<noteq> ''22'' then bracketed host port else sk_Hostname v"
  have "writes ?f (sk_Hostname v)"
    using writes_bracketed [OF n(2,3)] writes_plain [OF n(2,3)] n(1) by (cases "port = ''22''") auto
  then show ?thesis using n s
    by (intro exI [of _ "[?f]"]) (simp add: hostname_field_def Split_name Let_def)
next
  case False
  with assms join_hostnames_writes [of "sk_SplitHostnames v"] show ?thesis
    by (auto simp: hostname_field_def good_names_def)
qed

subsection \<open>The names of a line\<close>

lemma writesD:
  assumes "writes f n"
  obtains host port where "n = host @ '':'' @ port" "parse_host q f = Ret (host, port)"
proof -
  from assms have "\<exists>host port. n = host @ '':'' @ port \<and> parse_host q f = Ret (host, port)"
    by (simp add: writes_def)
  with that show thesis by blast
qed

lemma fill_split_writes:
  "list_all2 writes fs ns \<Longrightarrow>
     \<exists>port hn sp. fill_split fs pk = Ret (pk\<lparr>sk_Port := port, sk_Hostname := hn, sk_SplitHostnames := sp\<rparr>)
       \<and> set sp = set (sk_SplitHostnames pk) \<union> set ns"
proof (induction fs ns arbitrary: pk rule: list_all2_induct)
  case Nil
  show ?case
    by (intro exI [of _ "sk_Port pk"] exI [of _ "sk_Hostname pk"] exI [of _ "sk_SplitHostnames pk"]) simp
next
  case (Cons f fs n ns)
  from Cons.hyps(1) obtain host port
    where n: "n = host @ '':'' @ port" and p: "parse_host (sk_Port pk) f = Ret (host, port)"
    by (rule writesD)
  let ?pk = "pk\<lparr>sk_Port := port, sk_Hostname := n, sk_SplitHostnames := List.insert n (sk_SplitHostnames pk)\<rparr>"
  from Cons.IH [of ?pk] obtain port' hn sp where
    "fill_split fs ?pk = Ret (?pk\<lparr>sk_Port := port', sk_Hostname := hn, sk_SplitHostnames := sp\<rparr>)"
    and "set sp = set (sk_SplitHostnames ?pk) \<union> set ns" by blast
  with n p show ?case
    by (intro exI [of _ port'] exI [of _ hn] exI [of _ sp]) auto
qed

lemma update_same: "map_of hs k = Some v \<Longrightarrow> AList.update k v hs = hs"
  by (induction hs) auto

lemma update_fresh: "map_of hs k = None \<Longrightarrow> AList.update k v hs = hs @ [(k, v)]"
  by (induction hs) (auto split: if_splits)

lemma load_names_known:
  assumes "list_all2 writes fs ns" "b64_decode (sk_Base64 pk) = Some m" "ke_parse_key env m = Some key"
    and "map_of hs (MarshalAuthorizedKey key) = Some v" "\<not> sk_Mut v" "sk_AlreadySaved v"
    and "set ns \<subseteq> set (sk_SplitHostnames v)"
  shows "load_names env i pk fs hs = Ret hs"
  using assms(1,7)
proof (induction rule: list_all2_induct)
  case (Cons f fs n ns)
  from Cons.hyps(1) obtain host port
    where n: "n = host @ '':'' @ port" and p: "parse_host (sk_Port pk) f = Ret (host, port)"
    by (rule writesD)
  have "n \<in> set (sk_SplitHostnames v)" using Cons.prems by simp
  then have "AddHostPort n v = Ret v"
    using assms(5) by (simp add: AddHostPort_def Let_def)
  with Cons n p assms(2-6) show ?case
    by (simp add: load_name_def Let_def update_same)
qed simp

lemma load_names_fresh:
  assumes "list_all2 writes fs ns" "ns \<noteq> []" "b64_decode (sk_Base64 pk) = Some m"
    and "ke_parse_key env m = Some key" "map_of hs (MarshalAuthorizedKey key) = None"
    and "\<not> sk_Mut pk" "set ns \<subseteq> set (sk_SplitHostnames pk)"
  shows "\<exists>port hn. load_names env i pk fs hs =
     Ret (hs @ [(MarshalAuthorizedKey key, pk\<lparr>sk_Port := port, sk_Hostname := hn, sk_Line := Suc i,
       sk_AlreadySaved := True, sk_HumanKey := MarshalAuthorizedKey key\<rparr>)])"
proof -
  obtain f fs' n ns' where c: "fs = f # fs'" "ns = n # ns'" "writes f n" "list_all2 writes fs' ns'"
    using assms(1,2) by (cases ns; cases fs) auto
  from c(3) obtain host port
    where n: "n = host @ '':'' @ port" and p: "parse_host (sk_Port pk) f = Ret (host, port)"
    by (rule writesD)
  let ?se = "MarshalAuthorizedKey key"
  let ?v = "pk\<lparr>sk_Port := port, sk_Hostname := n, sk_Line := Suc i, sk_AlreadySaved := True, sk_HumanKey := ?se\<rparr>"
  have one: "load_name env i pk f hs = Ret (hs @ [(?se, ?v)])"
    using p n assms(3-5) by (simp add: load_name_def Let_def update_fresh)
  have m: "map_of (hs @ [(?se, ?v)]) ?se = Some ?v"
    using assms(5) by (simp add: map_add_def)
  have "load_names env i pk fs' (hs @ [(?se, ?v)]) = Ret (hs @ [(?se, ?v)])"
    by (rule load_names_known [OF c(4) assms(3,4) m]) (use assms(6,7) c(2) in auto)
  with one c(1) show ?thesis by auto
qed

subsection \<open>One line\<close>

text \<open>An entry that the text format can carry: a parseable key and fields without separators.\<close>

definition no_blank :: "string \<Rightarrow> bool" where
  "no_blank s \<longleftrightarrow> CHR '' '' \<notin> set s \<and> CHR 0x0A \<notin> set s"

definition good_entry :: "kh_env \<Rightarrow> string \<Rightarrow> server_pub_key \<Rightarrow> bool" where
  "good_entry env k v \<longleftrightarrow>
     (\<exists>key. ke_parse_key env (pk_Marshal key) = Some key \<and> pk_Marshal key \<noteq> []
          \<and> k = MarshalAuthorizedKey key \<and> sk_Base64 v = b64_encode (pk_Marshal key))
     \<and> sk_Keytype v \<noteq> [] \<and> no_blank (sk_Keytype v) \<and> no_blank (sk_Comment v)
     \<and> good_names v \<and> \<not> sk_AlreadySaved v"

text \<open>What survives a trip through the file.\<close>

definition reloaded :: "server_pub_key \<Rightarrow> server_pub_key \<Rightarrow> bool" where
  "reloaded v w \<longleftrightarrow> set (sk_SplitHostnames w) = set (sk_SplitHostnames v)
     \<and> sk_Keytype w = sk_Keytype v \<and> sk_Base64 w = sk_Base64 v \<and> sk_Comment w = sk_Comment v
     \<and> sk_AlreadySaved w \<and> \<not> sk_Mut w \<and> \<not> sk_ServerBanned w"

lemma Join_writes:
  "list_all2 writes fs ns \<Longrightarrow> fs \<noteq> [] \<Longrightarrow>
     no_blank (Join '','' fs) \<and> Join '','' fs \<noteq> [] \<and> hd (Join '','' fs) \<notin> {CHR ''#'', CHR ''|'', CHR ''@''}
     \<and> Split CHR '','' (Join '','' fs) = fs"
proof (induction fs arbitrary: ns)
  case (Cons f fs)
  from Cons.prems obtain n ns' where w: "writes f n" "list_all2 writes fs ns'"
    by (auto simp: list_all2_Cons1)
  from w(1) have f: "CHR '','' \<notin> set f" "no_blank f" "f \<noteq> []" "hd f \<notin> {CHR ''#'', CHR ''|'', CHR ''@''}"
    by (auto simp: writes_def no_blank_def)
  show ?case
  proof (cases fs)
    case Nil
    with f show ?thesis by (simp add: Split_no_sep)
  next
    case (Cons f' fs')
    with Cons.IH [OF w(2)] f show ?thesis by (auto simp: Split_append_sep no_blank_def)
  qed
qed simp

lemma line_fields:
  assumes "no_blank H" "H \<noteq> []" "no_blank T" "no_blank B" "B \<noteq> []" "no_blank C"
  shows "Split CHR '' '' (Trim (H @ '' '' @ T @ '' '' @ B @ '' '' @ C) '' '')
           = (if C = [] then [H, T, B] else [H, T, B, C])"
    and "Trim (H @ '' '' @ T @ '' '' @ B @ '' '' @ C) '' '' \<noteq> []"
    and "hd (Trim (H @ '' '' @ T @ '' '' @ B @ '' '' @ C) '' '') = hd H"
proof -
  have bl: "CHR '' '' \<notin> set H" "CHR '' '' \<notin> set T" "CHR '' '' \<notin> set B" "CHR '' '' \<notin> set C"
    using assms by (auto simp: no_blank_def)
  have hdH: "hd H \<noteq> CHR '' ''" using bl assms(2) by (metis hd_in_set)
  have lastB: "last B \<noteq> CHR '' ''" using bl assms(5) by (metis last_in_set)
  let ?body = "H @ CHR '' '' # T @ CHR '' '' # B"
  have t: "Trim (H @ '' '' @ T @ '' '' @ B @ '' '' @ C) '' '' = (if C = [] then ?body else ?body @ CHR '' '' # C)"
  proof (cases "C = []")
    case True
    have "Trim ([] @ ?body @ '' '') '' '' = ?body"
      using assms(2,5) hdH lastB by (intro Trim_pad) auto
    with True show ?thesis by simp
  next
    case False
    then have "last C \<noteq> CHR '' ''" using bl by (metis last_in_set)
    with False assms(2) hdH have "Trim (?body @ CHR '' '' # C) '' '' = ?body @ CHR '' '' # C"
      by (intro Trim_id) auto
    with False show ?thesis by simp
  qed
  show "Split CHR '' '' (Trim (H @ '' '' @ T @ '' '' @ B @ '' '' @ C) '' '')
           = (if C = [] then [H, T, B] else [H, T, B, C])"
    unfolding t using bl by (simp add: Split_append_sep Split_no_sep)
  show "Trim (H @ '' '' @ T @ '' '' @ B @ '' '' @ C) '' '' \<noteq> []" unfolding t by simp
  show "hd (Trim (H @ '' '' @ T @ '' '' @ B @ '' '' @ C) '' '') = hd H"
    unfolding t using assms(2) by simp
qed

definition host_body :: "server_pub_key \<Rightarrow> string \<Rightarrow> string" where
  "host_body v H = H @ '' '' @ sk_Keytype v @ '' '' @ sk_Base64 v @ '' '' @ sk_Comment v"

lemma host_line_body: "host_line v H = host_body v H @ [CHR 0x0A]"
  by (simp add: host_line_def host_body_def)

lemma no_blank_b64: "no_blank (b64_encode s)"
  using b64_encode_safe [of _ s] by (auto simp: no_blank_def)

lemma load_line_saved:
  assumes "good_entry env k v" "map_of hs k = None" "hostname_field v = Ret H"
  shows "\<exists>w. load_line env i (host_body v H) hs = Ret (Inr (hs @ [(k, w)])) \<and> reloaded v w"
    and "CHR 0x0A \<notin> set (host_body v H)"
proof -
  from assms(1) obtain key where key: "ke_parse_key env (pk_Marshal key) = Some key" "pk_Marshal key \<noteq> []"
      "k = MarshalAuthorizedKey key" "sk_Base64 v = b64_encode (pk_Marshal key)"
    and flds: "sk_Keytype v \<noteq> []" "no_blank (sk_Keytype v)" "no_blank (sk_Comment v)" "good_names v"
    unfolding good_entry_def by blast
  from hostname_field_writes [OF flds(4)] assms(3) obtain fs
    where H: "H = Join '','' fs" and w: "list_all2 writes fs (sk_SplitHostnames v)" by auto
  have ne: "sk_SplitHostnames v \<noteq> []" "fs \<noteq> []" using flds(4) w by (auto simp: good_names_def)
  from Join_writes [OF w ne(2)] have HJ: "no_blank H" "H \<noteq> []" "hd H \<notin> {CHR ''#'', CHR ''|'', CHR ''@''}"
    "Split CHR '','' H = fs" by (auto simp: H)
  have B: "no_blank (sk_Base64 v)" "sk_Base64 v \<noteq> []" using key by (simp_all add: no_blank_b64)
  show "CHR 0x0A \<notin> set (host_body v H)"
    using HJ(1) B(1) flds(2,3) by (auto simp: host_body_def no_blank_def)
  let ?pk = "new_server_pub_key\<lparr>sk_Markers := [], sk_Hostnames := H, sk_Keytype := sk_Keytype v,
      sk_Base64 := sk_Base64 v, sk_Comment := sk_Comment v, sk_Port := ''22''\<rparr>"
  from fill_split_writes [OF w, of ?pk] obtain port hn sp where
    fill: "fill_split fs ?pk = Ret (?pk\<lparr>sk_Port := port, sk_Hostname := hn, sk_SplitHostnames := sp\<rparr>)"
    and sp: "set sp = set (sk_SplitHostnames v)" by (auto simp: new_server_pub_key_def)
  let ?pk1 = "?pk\<lparr>sk_Port := port, sk_Hostname := hn, sk_SplitHostnames := sp\<rparr>"
  have "\<exists>port' hn'. load_names env i ?pk1 fs hs = Ret (hs @ [(MarshalAuthorizedKey key,
      ?pk1\<lparr>sk_Port := port', sk_Hostname := hn', sk_Line := Suc i, sk_AlreadySaved := True,
           sk_HumanKey := MarshalAuthorizedKey key\<rparr>)])"
    by (rule load_names_fresh [OF w ne(1), where m = "pk_Marshal key"])
      (use key assms(2) sp in \<open>simp_all add: b64_decode_encode new_server_pub_key_def\<close>)
  then obtain w' where lw: "load_names env i ?pk1 fs hs = Ret (hs @ [(k, w')])" and r: "reloaded v w'"
    using key(3) sp by (auto simp: reloaded_def new_server_pub_key_def)
  note lf = line_fields [OF HJ(1,2) flds(2) B flds(3)]
  have "load_line env i (host_body v H) hs = bind_go (fill_split fs ?pk) (\<lambda>p1.
      bind_go (load_names env i p1 fs hs) (\<lambda>hs'. Ret (Inr hs')))"
    unfolding load_line_def host_body_def Let_def lf(1)
    using lf(2,3) HJ(2,3,4) by (cases "sk_Comment v = []") simp_all
  with fill lw r show "\<exists>w. load_line env i (host_body v H) hs = Ret (Inr (hs @ [(k, w)])) \<and> reloaded v w"
    by auto
qed

subsection \<open>The whole file\<close>

lemma load_lines_saved:
  assumes "save_loop True hs = Ret (e, tx, hs')" "\<forall>(k, v) \<in> set hs. good_entry env k v"
    and "distinct (map fst hs)" "set (map fst hs) \<inter> set (map fst acc) = {}"
  shows "\<exists>ws. load_lines env i (Split CHR 0x0A tx) acc = Ret (Inr (acc @ ws))
            \<and> list_all2 (\<lambda>(k, v) (k', w). k' = k \<and> reloaded v w) hs ws"
  using assms
proof (induction hs arbitrary: e tx hs' acc i)
  case Nil
  then show ?case by (simp add: load_line_def Trim_def TrimLeft_def)
next
  case (Cons kv hs)
  obtain k v where kv: "kv = (k, v)" by (cases kv)
  have g: "good_entry env k v" and uns: "\<not> sk_AlreadySaved v"
    using Cons.prems(2) kv by (auto simp: good_entry_def)
  from Cons.prems(1) kv uns obtain H e' tx' hs'' where
    H: "hostname_field v = Ret H" and sl: "save_loop True hs = Ret (e', tx', hs'')"
    and tx: "tx = host_line v H @ tx'"
    by (auto simp: bind_go_Ret_iff)
  have "map_of acc k = None" using Cons.prems(4) kv by (auto simp: map_of_eq_None_iff)
  note ll = load_line_saved [OF g this H]
  from ll(1) [of i] obtain w where w: "load_line env i (host_body v H) acc = Ret (Inr (acc @ [(k, w)]))"
    "reloaded v w" by blast
  from Cons.IH [OF sl, of "acc @ [(k, w)]" "Suc i"] Cons.prems(2-4) kv obtain ws where
    "load_lines env (Suc i) (Split CHR 0x0A tx') (acc @ [(k, w)]) = Ret (Inr (acc @ (k, w) # ws))"
    "list_all2 (\<lambda>(k, v) (k', w). k' = k \<and> reloaded v w) hs ws" by auto
  moreover have "Split CHR 0x0A tx = host_body v H # Split CHR 0x0A tx'"
    using ll(2) by (simp add: tx host_line_body Split_append_sep)
  ultimately show ?case using w kv
    by (intro exI [of _ "(k, w) # ws"]) simp
qed

lemma map_of_list_all2:
  "list_all2 (\<lambda>(k, v) (k', w). k' = k \<and> P v w) hs ws \<Longrightarrow> rel_option P (map_of hs k) (map_of ws k)"
  by (induction rule: list_all2_induct) (auto split: if_splits)

lemma good_names_ok: "\<forall>(k, v) \<in> set hs. good_entry env k v \<and> good_name (sk_Hostname v) \<Longrightarrow> names_ok hs"
  by (fastforce simp: names_ok_def good_entry_def good_names_def list_all_iff intro: two_parts_good)

subsection \<open>Properties\<close>

text \<open>
  C20: the text file is faithful.  Take a database in the text format (with no suffix to its file name) that may be saved (\<^verbatim>\<open>NoSave\<close> is
  off), of which nothing has been saved yet (no entry is marked \<^verbatim>\<open>AlreadySaved\<close>: such entries are skipped, as they are taken to be in
  the file; and neither the file nor its \<^verbatim>\<open>.prev\<close> copy exists).  When every entry has a parseable key, stored under its own text, fields without
  blanks, at least one name, and names of the form host:port without special characters (a single split name is the host name itself), saving returns
  and loading the saved file returns a database with exactly the same keys, each with the
  same set of names, key type, encoded key and comment.  (The ban mark is not part of the
  format: every reloaded record is unbanned.)
\<close>

theorem save_then_load:
  assumes "kh_PersistFormat h = KHSsh" "kh_PersistFormatSuffix h = []" "\<not> kh_NoSave h"
    and "files_ok env" "distinct (map fst (kh_Hosts h))" "d (kh_FilepathPrefix h) = None"
    and "\<forall>(k, v) \<in> set (kh_Hosts h). good_entry env k v \<and> good_name (sk_Hostname v)"
    and "d (kh_FilepathPrefix h @ ''.prev'') = None"
  shows "\<exists>h1 d1 h2. Sync env (h, d) = Ret (h1, d1)
           \<and> LoadSshKnownHosts env (kh_FilepathPrefix h) d1 = Ret (Inr h2)
           \<and> (\<forall>k. rel_option reloaded (hosts_of h k) (hosts_of h2 k))"
proof -
  let ?hs = "kh_Hosts h" and ?fn = "kh_FilepathPrefix h"
  from save_loop_returns [OF good_names_ok [OF assms(7)]] obtain tx
    where sl: "save_loop True ?hs = Ret (None, tx, mark_saved ?hs)" by blast
  have d2: "mv_file (?fn @ ''.prev'') (?fn @ ''.prev.prev'') d = d" "cp_file ?fn (?fn @ ''.prev'') d = d"
    using assms(6,8) by (simp_all add: mv_file_def cp_file_def)
  have "Sync env (h, d) = Ret (h\<lparr>kh_Hosts := mark_saved ?hs\<rparr>, append_file ?fn tx d)"
    using assms(1-4) sl by (simp add: Sync_def saveSshKnownHosts_def Let_def files_ok_def d2)
  moreover have "append_file ?fn tx d ?fn = Some tx" using assms(6) by (simp add: append_file_def)
  moreover obtain ws where "load_lines env 0 (Split CHR 0x0A tx) [] = Ret (Inr ws)"
      and ws: "list_all2 (\<lambda>(k, v) (k', w). k' = k \<and> reloaded v w) ?hs ws"
    using load_lines_saved [OF sl, of env "[]" 0] assms(5,7) by (auto simp: case_prod_beta)
  ultimately show ?thesis using map_of_list_all2 [OF ws]
    by (auto simp: LoadSshKnownHosts_def hosts_of_def)
qed

theorem save_then_load_witness:
  "\<exists>h1 d1 h2. Sync demo_env (demo_db, Map.empty) = Ret (h1, d1)
           \<and> LoadSshKnownHosts demo_env (kh_FilepathPrefix demo_db) d1 = Ret (Inr h2)
           \<and> (\<forall>k. rel_option reloaded (hosts_of demo_db k) (hosts_of h2 k))"
proof (rule save_then_load)
  have n: "good_name ''h:22''"
    unfolding good_name_def by (rule exI [of _ "''h''"], rule exI [of _ "''22''"]) (simp add: plain_def)
  have "good_entry demo_env (MarshalAuthorizedKey demo_key) demo_record"
    unfolding good_entry_def
  proof (intro conjI exI [of _ demo_key])
    show "good_names demo_record"
      using n by (simp add: good_names_def demo_record_def fresh_record_def)
  qed (simp_all add: demo_env_def demo_key_def demo_record_def fresh_record_def new_server_pub_key_def
        Base64ofPublicKey_def no_blank_def)
  with n show "\<forall>(k, v) \<in> set (kh_Hosts demo_db). good_entry demo_env k v \<and> good_name (sk_Hostname v)"
    by (simp add: demo_db_def demo_record_def fresh_record_def)
qed (simp_all add: demo_db_def empty_known_hosts_def demo_simps)

text \<open>
  a host field that names one host with an explicit port and a second one without
  enters the second host under the port of the first, not under the default port 22.
\<close>

lemma port_carries_over:
  assumes "plain host1" "plain port1" "plain host2" "host2 \<noteq> []" "port1 \<noteq> ''22''" "host1 \<noteq> host2"
    and "sk_SplitHostnames pk = []"
  shows "\<exists>pk'. fill_split [bracketed host1 port1, host2] pk = Ret pk'
           \<and> set (sk_SplitHostnames pk') = {host1 @ '':'' @ port1, host2 @ '':'' @ port1}
           \<and> host2 @ '':22'' \<notin> set (sk_SplitHostnames pk')"
proof -
  have h2: "hd host2 \<noteq> CHR ''[''" "Split CHR '':'' host2 = [host2]"
    using assms(3,4) by (cases host2; auto simp: plain_def Split_no_sep)+
  have "host1 @ CHR '':'' # port1 \<noteq> host2 @ '':22''"
  proof
    assume "host1 @ CHR '':'' # port1 = host2 @ '':22''"
    then have "Split CHR '':'' (host1 @ CHR '':'' # port1) = Split CHR '':'' (host2 @ CHR '':'' # ''22'')"
      by simp
    then show False using assms(5) Split_name [OF assms(1,2)] Split_name [OF assms(3), of "''22''"]
      by (simp add: plain_def)
  qed
  with assms h2 show ?thesis
    by (auto simp: parse_host_def bracketed_def Let_def filter_plain Split_name)
qed

text \<open>
  \<open>KnownHostsEqual\<close> decides agreement of the two tables key by key: both have the key
  or neither has it, and the two records agree on key text, host name and ban mark.
\<close>

lemma KnownHostsEqual_iff:
  assumes "distinct (map fst (kh_Hosts a))"
  shows "KnownHostsEqual a b \<longleftrightarrow> (\<forall>k. rel_option same_server (hosts_of a k) (hosts_of b k))"
proof
  assume eq: "KnownHostsEqual a b"
  show "\<forall>k. rel_option same_server (hosts_of a k) (hosts_of b k)"
  proof
    fix k
    show "rel_option same_server (hosts_of a k) (hosts_of b k)"
    proof (cases "map_of (kh_Hosts a) k")
      case None
      with eq have "map_of (kh_Hosts b) k = None"
        by (fastforce simp: KnownHostsEqual_def list_all_iff map_of_eq_None_iff)
      with None show ?thesis by (simp add: hosts_of_def)
    next
      case (Some v)
      then have "(k, v) \<in> set (kh_Hosts a)" by (rule map_of_SomeD)
      with eq Some show ?thesis
        by (fastforce simp: KnownHostsEqual_def list_all_iff hosts_of_def split: option.splits)
    qed
  qed
next
  assume rel: "\<forall>k. rel_option same_server (hosts_of a k) (hosts_of b k)"
  have "case map_of (kh_Hosts b) k of None \<Rightarrow> False | Some v2 \<Rightarrow> same_server v v2"
    if "(k, v) \<in> set (kh_Hosts a)" for k v
  proof -
    from that assms have "map_of (kh_Hosts a) k = Some v" by simp
    with rel [rule_format, of k] show ?thesis by (auto simp: hosts_of_def option_rel_Some1)
  qed
  moreover have "map_of (kh_Hosts a) k \<noteq> None" if "(k, v) \<in> set (kh_Hosts b)" for k v
  proof
    assume "map_of (kh_Hosts a) k = None"
    with rel [rule_format, of k] have "map_of (kh_Hosts b) k = None" by (simp add: hosts_of_def)
    with that show False by (force simp: map_of_eq_None_iff)
  qed
  ultimately show "KnownHostsEqual a b" by (auto simp: KnownHostsEqual_def list_all_iff)
qed

end
