(* ===== verification/Config.thy ===== *)
theory Config
  imports Go_Stdlib
begin

section \<open>Configuration\<close>

text \<open>
  \<^verbatim>\<open>config.go\<close>, the configuration half of \<^verbatim>\<open>mailgun.go\<close> and \<^verbatim>\<open>SplitHostPort\<close> of
  \<^verbatim>\<open>ipaddr.go\<close>: the configuration record, the parsing of addresses, the key=value file
  (reader and writer), the consistency check after the flags are read.

  Reading a file is reading its text: the loop over \<^verbatim>\<open>ReadBytes\<close> visits the pieces between
  the newlines.  \<open>getenv\<close> is the environment: it gives the text that replaces a reference
  to a variable (the value of \<^verbatim>\<open>os.Getenv\<close> after the template expansion that
  \<^verbatim>\<open>regexp.ReplaceAllString\<close> applies to its replacement).
\<close>

subsection \<open>Records\<close>

record addr_host_port =
  ah_Title :: string
  ah_Addr :: string
  ah_Host :: string
  ah_Port :: nat
  ah_UnixDomainPath :: string
  ah_Required :: bool

record tunnel_spec =
  ts_Listen :: addr_host_port
  ts_Remote :: addr_host_port

record mailgun_config =
  mg_Domain :: string
  mg_PublicApiKey :: string
  mg_SecretApiKey :: string

record sshego_config =
  cf_Nickname :: string
  cf_KeepAliveEvery :: int
  cf_SkipKeepAlive :: bool
  cf_IdleTimeoutDur :: int
  cf_ConfigPath :: string
  cf_SSHdServer :: addr_host_port
  cf_LocalToRemote :: tunnel_spec
  cf_RemoteToLocal :: tunnel_spec
  cf_Debug :: bool
  cf_AddIfNotKnown :: bool
  cf_Username :: string
  cf_PrivateKeyPath :: string
  cf_ClientKnownHostsPath :: string
  cf_WriteConfigOut :: string
  cf_WriteConfigOnly :: bool
  cf_Quiet :: bool
  cf_EmbeddedSSHdHostDbPath :: string
  cf_EmbeddedSSHd :: addr_host_port
  cf_AddUser :: string
  cf_DelUser :: string
  cf_SshegoSystemMutexPortString :: string
  cf_SshegoSystemMutexPort :: int
  cf_MailCfg :: mailgun_config
  cf_SkipTOTP :: bool
  cf_SkipPassphrase :: bool
  cf_SkipRSA :: bool
  cf_BitLenRSAkeys :: int
  cf_DirectTcp :: bool
  cf_TestAllowOneshotConnect :: bool
  cf_SkipCommandRecv :: bool

definition new_addr :: addr_host_port where
  "new_addr = \<lparr>ah_Title = [], ah_Addr = [], ah_Host = [], ah_Port = 0, ah_UnixDomainPath = [], ah_Required = False\<rparr>"

definition NewSshegoConfig :: sshego_config where
  "NewSshegoConfig =
     \<lparr>cf_Nickname = [], cf_KeepAliveEvery = 0, cf_SkipKeepAlive = False, cf_IdleTimeoutDur = 0,
      cf_ConfigPath = [], cf_SSHdServer = new_addr,
      cf_LocalToRemote = \<lparr>ts_Listen = new_addr, ts_Remote = new_addr\<rparr>,
      cf_RemoteToLocal = \<lparr>ts_Listen = new_addr, ts_Remote = new_addr\<rparr>,
      cf_Debug = False, cf_AddIfNotKnown = False, cf_Username = [], cf_PrivateKeyPath = [], cf_ClientKnownHostsPath = [],
      cf_WriteConfigOut = [], cf_WriteConfigOnly = False, cf_Quiet = False,
      cf_EmbeddedSSHdHostDbPath = [], cf_EmbeddedSSHd = new_addr, cf_AddUser = [], cf_DelUser = [],
      cf_SshegoSystemMutexPortString = [], cf_SshegoSystemMutexPort = 0,
      cf_MailCfg = \<lparr>mg_Domain = [], mg_PublicApiKey = [], mg_SecretApiKey = []\<rparr>,
      cf_SkipTOTP = False, cf_SkipPassphrase = False, cf_SkipRSA = False, cf_BitLenRSAkeys = 4096,
      cf_DirectTcp = False, cf_TestAllowOneshotConnect = False, cf_SkipCommandRecv = False\<rparr>"

datatype cfg_err =
    ErrAddrRequired string | ErrBadHostPort string addr_err | ErrEmptyPort string
  | ErrBadPort string num_err | ErrNoListenRemote | ErrNoRevRemote | ErrNoTunnels
  | ErrPathMissing | ErrBadAddr addr_err | ErrNoPort | ErrPortNumber num_err

subsection \<open>Addresses\<close>

definition ParseAddr :: "addr_host_port \<Rightarrow> cfg_err option \<times> addr_host_port" where
  "ParseAddr a =
     (if ah_Addr a = [] then
        (if ah_Required a then (Some (ErrAddrRequired (ah_Title a)), a) else (None, a))
      else (case net_SplitHostPort (ah_Addr a) of
          Inl e \<Rightarrow> (Some (ErrBadHostPort (ah_Title a) e), a)
        | Inr (host, port) \<Rightarrow>
            let a1 = a\<lparr>ah_Host := (if host = [] then ''127.0.0.1'' else host)\<rparr> in
            if port = [] then (Some (ErrEmptyPort (ah_Title a)), a1)
            else if hd port = CHR ''/'' then (None, a1\<lparr>ah_UnixDomainPath := port\<rparr>)
            else (case ParseUint port 16 of (prt, err) \<Rightarrow>
                   let a2 = a1\<lparr>ah_Port := prt\<rparr> in
                   (case err of None \<Rightarrow> (None, a2) | Some e \<Rightarrow> (Some (ErrBadPort (ah_Title a) e), a2)))))"

text \<open>
  \<open>SplitHostPort\<close> of \<^verbatim>\<open>ipaddr.go\<close>.  The port is parsed with 64 bits and converted to a signed
  64-bit integer, so that a text above \<open>2^63 - 1\<close> comes out negative.
\<close>

definition SplitHostPort :: "string \<Rightarrow> cfg_err + string \<times> u64" where
  "SplitHostPort hostport =
     (case net_SplitHostPort hostport of
        Inl e \<Rightarrow> Inl (ErrBadAddr e)
      | Inr (host0, sPort) \<Rightarrow>
          let host = (if host0 = [] then ''127.0.0.1'' else host0) in
          if sPort = [] then Inl ErrNoPort
          else (case ParseUint sPort 64 of
              (prt, None) \<Rightarrow> Inr (host, word_of_nat prt)
            | (_, Some e) \<Rightarrow> Inl (ErrPortNumber e)))"

subsection \<open>Values of the file\<close>

text \<open>\<open>trim\<close>: one trailing newline and one pair of enclosing double quotes are removed.\<close>

definition trim_value :: "string \<Rightarrow> string" where
  "trim_value s0 =
     (if s0 = [] then s0
      else let s = (if last s0 = CHR 0x0A then butlast s0 else s0) in
        if length s < 2 then s
        else if hd s = CHR 0x22 \<and> last s = CHR 0x22 then butlast (tl s) else s)"

function replace_all :: "string \<Rightarrow> string \<Rightarrow> string \<Rightarrow> string" where
  "replace_all pat rep s =
     (if s = [] then []
      else if pat \<noteq> [] \<and> HasPrefix s pat then rep @ replace_all pat rep (drop (length pat) s)
      else hd s # replace_all pat rep (tl s))"
  by pat_completeness auto
termination
  by (relation "measure (\<lambda>(pat, rep, s). length s)") (simp_all add: diff_less)

declare replace_all.simps [simp del]

definition subEnv :: "(string \<Rightarrow> string) \<Rightarrow> string \<Rightarrow> string \<Rightarrow> string" where
  "subEnv getenv src fromEnv = replace_all (''$'' @ fromEnv) (getenv fromEnv) src"

definition boolToString :: "bool \<Rightarrow> string" where
  "boolToString b = (if b then ''true'' else ''false'')"

definition stringToBool :: "string \<Rightarrow> bool" where
  "stringToBool s \<longleftrightarrow> ToLower s = ''true''"

subsection \<open>Reading the file\<close>

definition blanks :: string where
  "blanks = [CHR 0x0A, CHR 0x0D, CHR 0x09, CHR '' '']"

text \<open>One line: nothing for a comment or a line without \<open>=\<close>, else the key and the value.\<close>

definition config_pair :: "string \<Rightarrow> (string \<times> string) option" where
  "config_pair raw =
     (let line = Trim raw blanks in
      if line \<noteq> [] \<and> hd line = CHR ''#'' then None
      else (case SplitN2 CHR ''='' line of
          [k, v] \<Rightarrow> Some (Trim k blanks, trim_value (Trim v blanks))
        | _ \<Rightarrow> None))"

definition set_listen :: "string \<Rightarrow> tunnel_spec \<Rightarrow> tunnel_spec" where
  "set_listen v t = t\<lparr>ts_Listen := (ts_Listen t)\<lparr>ah_Addr := v\<rparr>\<rparr>"

definition set_remote :: "string \<Rightarrow> tunnel_spec \<Rightarrow> tunnel_spec" where
  "set_remote v t = t\<lparr>ts_Remote := (ts_Remote t)\<lparr>ah_Addr := v\<rparr>\<rparr>"

text \<open>The switch over the key.  A port or a bit length that is no number panics.\<close>

definition apply_key :: "(string \<Rightarrow> string) \<Rightarrow> sshego_config \<Rightarrow> string \<times> string \<Rightarrow> sshego_config go" where
  "apply_key getenv c kv = (case kv of (key, val) \<Rightarrow>
     if key = ''SSHD_ADDR'' then Ret (c\<lparr>cf_SSHdServer := (cf_SSHdServer c)\<lparr>ah_Addr := val\<rparr>\<rparr>)
     else if key = ''FWD_LISTEN_ADDR'' then Ret (c\<lparr>cf_LocalToRemote := set_listen val (cf_LocalToRemote c)\<rparr>)
     else if key = ''FWD_REMOTE_ADDR'' then Ret (c\<lparr>cf_LocalToRemote := set_remote val (cf_LocalToRemote c)\<rparr>)
     else if key = ''REV_LISTEN_ADDR'' then Ret (c\<lparr>cf_RemoteToLocal := set_listen val (cf_RemoteToLocal c)\<rparr>)
     else if key = ''REV_REMOTE_ADDR'' then Ret (c\<lparr>cf_RemoteToLocal := set_remote val (cf_RemoteToLocal c)\<rparr>)
     else if key = ''SSHD_LOGIN_USERNAME'' then Ret (c\<lparr>cf_Username := subEnv getenv val ''USER''\<rparr>)
     else if key = ''SSH_PRIVATE_KEY_PATH'' then Ret (c\<lparr>cf_PrivateKeyPath := subEnv getenv val ''HOME''\<rparr>)
     else if key = ''SSH_KNOWN_HOSTS_PATH'' then Ret (c\<lparr>cf_ClientKnownHostsPath := subEnv getenv val ''HOME''\<rparr>)
     else if key = ''QUIET'' then Ret (c\<lparr>cf_Quiet := stringToBool val\<rparr>)
     else if key = ''EMBEDDED_SSHD_HOST_DB_PATH''
       then Ret (c\<lparr>cf_EmbeddedSSHdHostDbPath := subEnv getenv val ''HOME''\<rparr>)
     else if key = ''EMBEDDED_SSHD_LISTEN_ADDR'' then Ret (c\<lparr>cf_EmbeddedSSHd := (cf_EmbeddedSSHd c)\<lparr>ah_Addr := val\<rparr>\<rparr>)
     else if key = ''EMBEDDED_SSHD_COMMAND_XPORT'' then
       (case Atoi val of
          (prt, None) \<Rightarrow> Ret (c\<lparr>cf_SshegoSystemMutexPortString := val, cf_SshegoSystemMutexPort := prt\<rparr>)
        | (_, Some _) \<Rightarrow> Panic ''panicOn'')
     else if key = ''AUTH_OPTION_SKIP_TOTP'' then Ret (c\<lparr>cf_SkipTOTP := stringToBool val\<rparr>)
     else if key = ''AUTH_OPTION_SKIP_PASSPHRASE'' then Ret (c\<lparr>cf_SkipPassphrase := stringToBool val\<rparr>)
     else if key = ''AUTH_OPTION_SKIP_RSA'' then Ret (c\<lparr>cf_SkipRSA := stringToBool val\<rparr>)
     else if key = ''KEYGEN_RSA_BITS'' then
       (case Atoi val of
          (bits, None) \<Rightarrow> Ret (c\<lparr>cf_BitLenRSAkeys := bits\<rparr>)
        | (_, Some _) \<Rightarrow> Panic ''panicOn'')
     else Ret c)"

fun load_config_lines :: "(string \<Rightarrow> string) \<Rightarrow> string list \<Rightarrow> sshego_config \<Rightarrow> sshego_config go" where
  "load_config_lines getenv [] c = Ret c"
| "load_config_lines getenv (l # ls) c =
     (case config_pair l of
        None \<Rightarrow> load_config_lines getenv ls c
      | Some kv \<Rightarrow> bind_go (apply_key getenv c kv) (load_config_lines getenv ls))"

definition apply_mail_key :: "mailgun_config \<Rightarrow> string \<times> string \<Rightarrow> mailgun_config" where
  "apply_mail_key c kv = (case kv of (key, val) \<Rightarrow>
     if key = ''MAILGUN_DOMAIN'' then c\<lparr>mg_Domain := val\<rparr>
     else if key = ''MAILGUN_PUBLIC_API_KEY'' then c\<lparr>mg_PublicApiKey := val\<rparr>
     else if key = ''MAILGUN_SECRET_API_KEY'' then c\<lparr>mg_SecretApiKey := val\<rparr>
     else c)"

fun load_mail_lines :: "string list \<Rightarrow> mailgun_config \<Rightarrow> mailgun_config" where
  "load_mail_lines [] c = c"
| "load_mail_lines (l # ls) c =
     (case config_pair l of None \<Rightarrow> load_mail_lines ls c | Some kv \<Rightarrow> load_mail_lines ls (apply_mail_key c kv))"

definition MailgunConfig_LoadConfig :: "bytes option \<Rightarrow> mailgun_config \<Rightarrow> cfg_err + mailgun_config" where
  "MailgunConfig_LoadConfig file c =
     (case file of None \<Rightarrow> Inl ErrPathMissing | Some content \<Rightarrow> Inr (load_mail_lines (Split CHR 0x0A content) c))"

definition LoadConfig :: "(string \<Rightarrow> string) \<Rightarrow> bytes option \<Rightarrow> sshego_config \<Rightarrow> (cfg_err + sshego_config) go" where
  "LoadConfig getenv file c =
     (case file of
        None \<Rightarrow> Ret (Inl ErrPathMissing)
      | Some content \<Rightarrow>
          bind_go (load_config_lines getenv (Split CHR 0x0A content) c) (\<lambda>c'.
            Ret (case MailgunConfig_LoadConfig file (cf_MailCfg c') of
                   Inl e \<Rightarrow> Inl e
                 | Inr m \<Rightarrow> Inr (c'\<lparr>cf_MailCfg := m\<rparr>))))"

subsection \<open>Writing the file\<close>

definition config_line :: "string \<Rightarrow> string \<Rightarrow> string" where
  "config_line key val = key @ ''='' @ [CHR 0x22] @ val @ [CHR 0x22]"

definition unlines :: "string list \<Rightarrow> string" where
  "unlines ls = concat (map (\<lambda>l. l @ [CHR 0x0A]) ls)"

definition mail_lines :: "mailgun_config \<Rightarrow> string list" where
  "mail_lines c =
     [''#'', ''# config for Mailgun:'', ''#'',
      config_line ''MAILGUN_DOMAIN'' (mg_Domain c),
      config_line ''MAILGUN_PUBLIC_API_KEY'' (mg_PublicApiKey c),
      config_line ''MAILGUN_SECRET_API_KEY'' (mg_SecretApiKey c)]"

definition config_lines :: "sshego_config \<Rightarrow> string list" where
  "config_lines c =
     [''#'', ''# config file sshego:'', ''#'',
      config_line ''SSHD_ADDR'' (ah_Addr (cf_SSHdServer c)),
      config_line ''FWD_LISTEN_ADDR'' (ah_Addr (ts_Listen (cf_LocalToRemote c))),
      config_line ''FWD_REMOTE_ADDR'' (ah_Addr (ts_Remote (cf_LocalToRemote c))),
      config_line ''REV_LISTEN_ADDR'' (ah_Addr (ts_Listen (cf_RemoteToLocal c))),
      config_line ''REV_REMOTE_ADDR'' (ah_Addr (ts_Remote (cf_RemoteToLocal c))),
      config_line ''SSHD_LOGIN_USERNAME'' (cf_Username c),
      config_line ''SSH_PRIVATE_KEY_PATH'' (cf_PrivateKeyPath c),
      config_line ''SSH_KNOWN_HOSTS_PATH'' (cf_ClientKnownHostsPath c),
      config_line ''QUIET'' (boolToString (cf_Quiet c)),
      ''#'', ''# optional sshd server config'', ''#'',
      config_line ''EMBEDDED_SSHD_HOST_DB_PATH'' (cf_EmbeddedSSHdHostDbPath c),
      config_line ''EMBEDDED_SSHD_LISTEN_ADDR'' (ah_Addr (cf_EmbeddedSSHd c)),
      config_line ''EMBEDDED_SSHD_COMMAND_XPORT'' (show_int (cf_SshegoSystemMutexPort c)),
      ''#'', ''# auth config'', ''#'',
      config_line ''AUTH_OPTION_SKIP_TOTP'' (boolToString (cf_SkipTOTP c)),
      config_line ''AUTH_OPTION_SKIP_PASSPHRASE'' (boolToString (cf_SkipPassphrase c)),
      config_line ''AUTH_OPTION_SKIP_RSA'' (boolToString (cf_SkipRSA c)),
      config_line ''KEYGEN_RSA_BITS'' (show_int (cf_BitLenRSAkeys c))]"

text \<open>\<open>SaveConfig\<close> to a writer that takes everything: the text, and the port string it sets.\<close>

definition SaveConfig :: "sshego_config \<Rightarrow> bytes \<times> sshego_config" where
  "SaveConfig c =
     (unlines (config_lines c @ mail_lines (cf_MailCfg c)),
      c\<lparr>cf_SshegoSystemMutexPortString := show_int (cf_SshegoSystemMutexPort c)\<rparr>)"

subsection \<open>The check after the flags are parsed\<close>

text \<open>One tunnel: both ends are parsed, and a listening end needs a remote end.\<close>

definition validate_tunnel :: "cfg_err \<Rightarrow> tunnel_spec \<Rightarrow> cfg_err option \<times> tunnel_spec" where
  "validate_tunnel incomplete t =
     (case ParseAddr (ts_Listen t) of (e1, a1) \<Rightarrow>
      let t1 = t\<lparr>ts_Listen := a1\<rparr> in
      if e1 \<noteq> None then (e1, t1)
      else (case ParseAddr (ts_Remote t1) of (e2, a2) \<Rightarrow>
        let t2 = t1\<lparr>ts_Remote := a2\<rparr> in
        if e2 \<noteq> None then (e2, t2)
        else if ah_Addr (ts_Listen t2) \<noteq> [] \<and> ah_Addr (ts_Remote t2) = [] then (Some incomplete, t2)
        else (None, t2)))"

text \<open>The checks on a loaded configuration (the check of the mail half always succeeds).\<close>

definition validate_loaded :: "sshego_config \<Rightarrow> cfg_err option \<times> sshego_config" where
  "validate_loaded c1 =
     (case validate_tunnel ErrNoListenRemote (cf_LocalToRemote c1) of (e1, l) \<Rightarrow>
      let c2 = c1\<lparr>cf_LocalToRemote := l\<rparr> in
      if e1 \<noteq> None then (e1, c2)
      else (case validate_tunnel ErrNoRevRemote (cf_RemoteToLocal c2) of (e2, r) \<Rightarrow>
        let c3 = c2\<lparr>cf_RemoteToLocal := r\<rparr> in
        if e2 \<noteq> None then (e2, c3)
        else
          let idle = (ah_Addr (ts_Listen (cf_RemoteToLocal c3)) = [] \<and> ah_Addr (ts_Listen (cf_LocalToRemote c3)) = []
                      \<and> ah_Addr (cf_EmbeddedSSHd c3) = [] \<and> cf_AddUser c3 = [] \<and> cf_DelUser c3 = []);
              c4 = (if idle \<and> cf_WriteConfigOut c3 \<noteq> [] then c3\<lparr>cf_WriteConfigOnly := True\<rparr> else c3)
          in if idle \<and> cf_WriteConfigOut c3 = [] then (Some ErrNoTunnels, c3)
             else (case ParseAddr (cf_SSHdServer c4) of (e3, a) \<Rightarrow> (e3, c4\<lparr>cf_SSHdServer := a\<rparr>))))"

definition ValidateConfig :: "(string \<Rightarrow> string) \<Rightarrow> (string \<Rightarrow> bytes option) \<Rightarrow> sshego_config
    \<Rightarrow> (cfg_err option \<times> sshego_config) go" where
  "ValidateConfig getenv files c0 =
     bind_go (if cf_ConfigPath c0 = [] then Ret (Inr c0)
              else LoadConfig getenv (files (cf_ConfigPath c0)) c0) (\<lambda>r.
     Ret (case r of Inl e \<Rightarrow> (Some e, c0) | Inr c1 \<Rightarrow> validate_loaded c1))"

text \<open>\<open>GenAuthString\<close>: the text that lists the factors in force.\<close>

definition GenAuthString :: "sshego_config \<Rightarrow> string" where
  "GenAuthString c =
     (let count = length (filter id [\<not> cf_SkipRSA c, \<not> cf_SkipTOTP c, \<not> cf_SkipPassphrase c]);
          s1 = (if cf_SkipRSA c then [] else ''RSA'');
          added1 = (if cf_SkipRSA c then 0 else 1 :: nat);
          s2 = (if cf_SkipTOTP c then s1
                else s1 @ (if added1 > 0
                           then (if count = 1 then [] else if count = 2 then '' and '' else '', '') else [])
                     @ ''phone-app'');
          added2 = (if cf_SkipTOTP c then added1 else added1 + 1)
      in if cf_SkipPassphrase c then s2
         else s2 @ (if added2 = 1 then '' and '' else if added2 = 2 then '', and'' else [])
                 @ ''memorable pass-phrase'')"

end
