(* ===== verification/Config_Proofs.thy ===== *)
theory Config_Proofs
  imports Config
begin

section \<open>Configuration: addresses, the file round trip, the consistency check\<close>

text \<open>
  Lemmas and properties of \<open>Config\<close>: what a parsed address satisfies, that \<open>LoadConfig\<close>
  reads back what \<open>SaveConfig\<close> wrote, and what \<open>ValidateConfig\<close> guarantees to the rest of
  the program.
\<close>

subsection \<open>Substitution and lines\<close>

lemma Contains_tl: "s \<noteq> [] \<Longrightarrow> Contains (tl s) p \<Longrightarrow> Contains s p"
  unfolding Contains_iff by (metis append_Cons list.collapse)

lemma Contains_prefix: "HasPrefix s p \<Longrightarrow> Contains s p"
  unfolding Contains_iff HasPrefix_iff by (metis append_Nil)

lemma replace_all_id: "\<not> Contains s pat \<Longrightarrow> replace_all pat rep s = s"
proof (induction pat rep s rule: replace_all.induct)
  case (1 pat rep s)
  show ?case
  proof (cases "s = []")
    case False
    have "\<not> HasPrefix s pat" "\<not> Contains (tl s) pat"
      using "1.prems" Contains_prefix Contains_tl False by blast+
    with 1 False show ?thesis by (subst replace_all.simps) simp
  qed (simp add: replace_all.simps)
qed

lemma subEnv_id: "\<not> Contains s (''$'' @ v) \<Longrightarrow> subEnv getenv s v = s"
  by (simp add: subEnv_def replace_all_id)

lemma Split_unlines:
  "\<forall>l \<in> set ls. CHR 0x0A \<notin> set l \<Longrightarrow> Split CHR 0x0A (unlines ls) = ls @ [[]]"
  by (induction ls) (simp_all add: unlines_def Split_append_sep)

lemma stringToBool_boolToString [simp]: "stringToBool (boolToString b) = b"
  by (simp add: stringToBool_def boolToString_def ToLower_def lower_char_def)

definition key_ok :: "string \<Rightarrow> bool" where
  "key_ok k \<longleftrightarrow> k \<noteq> [] \<and> CHR ''='' \<notin> set k \<and> hd k \<noteq> CHR ''#'' \<and> set k \<inter> set blanks = {}"

lemma blanks_simps [simp]: "CHR 0x22 \<notin> set blanks"
  by (simp add: blanks_def)

lemma config_pair_line:
  assumes "key_ok k"
  shows "config_pair (config_line k v) = Some (k, v)"
proof -
  have k: "k \<noteq> []" "CHR ''='' \<notin> set k" "hd k \<noteq> CHR ''#''" "hd k \<notin> set blanks" "last k \<notin> set blanks"
    using assms hd_in_set [of k] last_in_set [of k] by (auto simp: key_ok_def disjoint_iff)
  let ?q = "CHR 0x22 # v @ [CHR 0x22]"
  have line: "config_line k v = k @ CHR ''='' # ?q" by (simp add: config_line_def)
  have "Trim (k @ CHR ''='' # ?q) blanks = k @ CHR ''='' # ?q"
    using k by (intro Trim_id) simp_all
  moreover have "Trim k blanks = k" using k by (intro Trim_id)
  moreover have "Trim ?q blanks = ?q" by (rule Trim_id) simp_all
  moreover have "trim_value ?q = v" by (simp add: trim_value_def Let_def)
  moreover have "SplitN2 CHR ''='' (k @ CHR ''='' # ?q) = [k, ?q]"
    using k(2) by (rule SplitN2_append)
  ultimately show ?thesis unfolding line config_pair_def Let_def using k by simp
qed

lemma config_pair_comment: "config_pair (CHR ''#'' # l) = None"
proof -
  have "TrimLeft (CHR ''#'' # l) blanks = CHR ''#'' # l"
    by (simp add: TrimLeft_def blanks_def)
  then have "Trim (CHR ''#'' # l) blanks = rev (TrimLeft (rev l @ ''#'') blanks)"
    by (simp add: Trim_def)
  moreover have "\<exists>t. TrimLeft (rev l @ ''#'') blanks = t @ ''#''"
    by (induction l rule: rev_induct) (auto simp: TrimLeft_def blanks_def)
  ultimately show ?thesis by (auto simp: config_pair_def)
qed

lemma config_pair_empty: "config_pair [] = None"
  by (simp add: config_pair_def Trim_def TrimLeft_def SplitN2_def)

lemma no_newline_show_int: "CHR 0x0A \<notin> set (show_int i)"
proof -
  have "CHR 0x0A \<notin> set (show_nat n)" for n
    using bspec [OF show_nat_digits [of n, unfolded list_all_iff], of "CHR 0x0A"] by (auto simp: is_digit_def)
  then show ?thesis by (simp add: show_int_def)
qed

lemma no_newline_line: "CHR 0x0A \<notin> set k \<Longrightarrow> CHR 0x0A \<notin> set v \<Longrightarrow> CHR 0x0A \<notin> set (config_line k v)"
  by (simp add: config_line_def)

subsection \<open>The file round trip\<close>

text \<open>The fields the file holds, and what makes them representable in it.\<close>

definition texts :: "sshego_config \<Rightarrow> string list" where
  "texts c = [ah_Addr (cf_SSHdServer c), ah_Addr (ts_Listen (cf_LocalToRemote c)),
     ah_Addr (ts_Remote (cf_LocalToRemote c)), ah_Addr (ts_Listen (cf_RemoteToLocal c)),
     ah_Addr (ts_Remote (cf_RemoteToLocal c)), cf_Username c, cf_PrivateKeyPath c,
     cf_ClientKnownHostsPath c, cf_EmbeddedSSHdHostDbPath c, ah_Addr (cf_EmbeddedSSHd c),
     mg_Domain (cf_MailCfg c), mg_PublicApiKey (cf_MailCfg c), mg_SecretApiKey (cf_MailCfg c)]"

definition persisted :: "sshego_config \<Rightarrow> string list \<times> bool list \<times> int list" where
  "persisted c = (texts c, [cf_Quiet c, cf_SkipTOTP c, cf_SkipPassphrase c, cf_SkipRSA c],
     [cf_SshegoSystemMutexPort c, cf_BitLenRSAkeys c])"

definition int64_range :: "int \<Rightarrow> bool" where
  "int64_range i \<longleftrightarrow> - (2 ^ 63) \<le> i \<and> i < 2 ^ 63"

definition saveable :: "sshego_config \<Rightarrow> bool" where
  "saveable c \<longleftrightarrow> list_all (\<lambda>s. CHR 0x0A \<notin> set s) (texts c)
     \<and> \<not> Contains (cf_Username c) ''$USER'' \<and> \<not> Contains (cf_PrivateKeyPath c) ''$HOME''
     \<and> \<not> Contains (cf_ClientKnownHostsPath c) ''$HOME'' \<and> \<not> Contains (cf_EmbeddedSSHdHostDbPath c) ''$HOME''
     \<and> int64_range (cf_SshegoSystemMutexPort c) \<and> int64_range (cf_BitLenRSAkeys c)"

lemma all_lines_no_newline:
  "saveable c \<Longrightarrow> \<forall>l \<in> set (config_lines c @ mail_lines (cf_MailCfg c)). CHR 0x0A \<notin> set l"
  by (simp add: saveable_def texts_def config_lines_def mail_lines_def no_newline_line
      no_newline_show_int boolToString_def)

text \<open>One written line, read back: the switch runs on the key and the value that were written.\<close>

lemma load_config_step:
  "key_ok k \<Longrightarrow> load_config_lines getenv (config_line k v # ls) c
     = bind_go (apply_key getenv c (k, v)) (load_config_lines getenv ls)"
  by (simp add: config_pair_line)

lemma load_mail_step:
  "key_ok k \<Longrightarrow> load_mail_lines (config_line k v # ls) c = load_mail_lines ls (apply_mail_key c (k, v))"
  by (simp add: config_pair_line)

lemma load_config_comment:
  "load_config_lines getenv ((CHR ''#'' # l) # ls) c = load_config_lines getenv ls c"
  "load_mail_lines ((CHR ''#'' # l) # ls) m = load_mail_lines ls m"
  by (simp_all add: config_pair_comment)

lemma load_config_lines_own:
  assumes "saveable c"
  shows "load_config_lines getenv (config_lines c) c0 = Ret (c0
     \<lparr>cf_SSHdServer := (cf_SSHdServer c0)\<lparr>ah_Addr := ah_Addr (cf_SSHdServer c)\<rparr>,
      cf_LocalToRemote := set_remote (ah_Addr (ts_Remote (cf_LocalToRemote c)))
         (set_listen (ah_Addr (ts_Listen (cf_LocalToRemote c))) (cf_LocalToRemote c0)),
      cf_RemoteToLocal := set_remote (ah_Addr (ts_Remote (cf_RemoteToLocal c)))
         (set_listen (ah_Addr (ts_Listen (cf_RemoteToLocal c))) (cf_RemoteToLocal c0)),
      cf_Username := cf_Username c, cf_PrivateKeyPath := cf_PrivateKeyPath c,
      cf_ClientKnownHostsPath := cf_ClientKnownHostsPath c, cf_Quiet := cf_Quiet c,
      cf_EmbeddedSSHdHostDbPath := cf_EmbeddedSSHdHostDbPath c,
      cf_EmbeddedSSHd := (cf_EmbeddedSSHd c0)\<lparr>ah_Addr := ah_Addr (cf_EmbeddedSSHd c)\<rparr>,
      cf_SshegoSystemMutexPortString := show_int (cf_SshegoSystemMutexPort c),
      cf_SshegoSystemMutexPort := cf_SshegoSystemMutexPort c,
      cf_SkipTOTP := cf_SkipTOTP c, cf_SkipPassphrase := cf_SkipPassphrase c,
      cf_SkipRSA := cf_SkipRSA c, cf_BitLenRSAkeys := cf_BitLenRSAkeys c\<rparr>)"
proof -
  have "subEnv getenv (cf_Username c) ''USER'' = cf_Username c"
    "subEnv getenv (cf_PrivateKeyPath c) ''HOME'' = cf_PrivateKeyPath c"
    "subEnv getenv (cf_ClientKnownHostsPath c) ''HOME'' = cf_ClientKnownHostsPath c"
    "subEnv getenv (cf_EmbeddedSSHdHostDbPath c) ''HOME'' = cf_EmbeddedSSHdHostDbPath c"
    using assms by (simp_all add: saveable_def subEnv_id)
  moreover have "Atoi (show_int (cf_SshegoSystemMutexPort c)) = (cf_SshegoSystemMutexPort c, None)"
    "Atoi (show_int (cf_BitLenRSAkeys c)) = (cf_BitLenRSAkeys c, None)"
    using assms by (simp_all add: saveable_def int64_range_def Atoi_show_int)
  ultimately show ?thesis
    by (simp add: config_lines_def load_config_step load_config_comment key_ok_def blanks_def apply_key_def
        del: load_config_lines.simps(2))
qed


text \<open>The lines of one half of the file say nothing to the reader of the other half.\<close>

lemma load_mail_lines_own:
  "load_mail_lines (mail_lines m) m0 = m0\<lparr>mg_Domain := mg_Domain m, mg_PublicApiKey := mg_PublicApiKey m,
     mg_SecretApiKey := mg_SecretApiKey m\<rparr>"
  by (simp add: mail_lines_def load_mail_step load_config_comment key_ok_def blanks_def apply_mail_key_def
      del: load_mail_lines.simps(2))

lemma load_mail_lines_config: "load_mail_lines (config_lines c) m = m"
  by (simp add: config_lines_def load_mail_step load_config_comment key_ok_def blanks_def apply_mail_key_def
      del: load_mail_lines.simps(2))

lemma load_config_lines_mail: "load_config_lines getenv (mail_lines m) c = Ret c"
  by (simp add: mail_lines_def load_config_step load_config_comment key_ok_def blanks_def apply_key_def
      del: load_config_lines.simps(2))

lemma load_config_append:
  "load_config_lines getenv (xs @ ys) c = bind_go (load_config_lines getenv xs c) (load_config_lines getenv ys)"
proof (induction xs arbitrary: c)
  case (Cons x xs)
  have "bind_go (apply_key getenv c kv) (load_config_lines getenv (xs @ ys))
      = bind_go (bind_go (apply_key getenv c kv) (load_config_lines getenv xs)) (load_config_lines getenv ys)" for kv
    by (cases "apply_key getenv c kv") (simp_all add: Cons.IH)
  then show ?case by (simp add: Cons.IH split: option.split)
qed simp

lemma load_mail_append: "load_mail_lines (xs @ ys) m = load_mail_lines ys (load_mail_lines xs m)"
  by (induction xs arbitrary: m) (simp_all split: option.split)

text \<open>
  The configuration file round trip.  What \<open>SaveConfig\<close> writes, \<open>LoadConfig\<close> reads back
  into any configuration without an error and without a panic, and every persisted field
  then has the value that was saved - when the texts contain no newline, the fields that
  are subject to environment substitution contain no reference to the variable, and the two
  numbers are 64-bit integers.  Quotes and equal signs in the values do no harm.
\<close>

lemma save_config_then_load:
  assumes "saveable c"
  shows "\<exists>c'. LoadConfig getenv (Some (fst (SaveConfig c))) c0 = Ret (Inr c') \<and> persisted c' = persisted c"
proof -
  have "Split CHR 0x0A (fst (SaveConfig c)) = config_lines c @ mail_lines (cf_MailCfg c) @ [[]]"
    using all_lines_no_newline [OF assms] by (simp add: SaveConfig_def Split_unlines)
  then show ?thesis
    by (simp add: LoadConfig_def MailgunConfig_LoadConfig_def load_config_append load_config_lines_own [OF assms]
        load_config_lines_mail load_mail_append load_mail_lines_own load_mail_lines_config config_pair_empty persisted_def texts_def
        set_listen_def set_remote_def)
qed

definition demo_config :: sshego_config where
  "demo_config = NewSshegoConfig\<lparr>cf_Username := ''alice=a'', cf_Quiet := True, cf_SkipTOTP := True,
     cf_SshegoSystemMutexPort := 33754, cf_SSHdServer := new_addr\<lparr>ah_Addr := ''db.example.org:22''\<rparr>\<rparr>"

lemma demo_config_saveable: "saveable demo_config"
  by (simp add: saveable_def texts_def demo_config_def NewSshegoConfig_def new_addr_def int64_range_def
      Contains_def HasPrefix_def)

subsection \<open>Addresses\<close>

text \<open>What the parts are joined with: the host and the port of an address give its text, with or without brackets.\<close>

lemma index_of_Some: "index_of c s = Some k \<Longrightarrow> k < length s \<and> s ! k = c"
  by (induction s arbitrary: k) (auto split: if_split_asm)

lemma net_SplitHostPort_joins:
  assumes "net_SplitHostPort hp = Inr (host, port)"
  shows "hp = host @ '':'' @ port \<or> hp = ''['' @ host @ '']:'' @ port"
proof -
  obtain i where i: "last_index_of CHR '':'' hp = Some i" "port = drop (Suc i) hp"
    and h: "host = take i hp \<or> (\<exists>e. hd hp = CHR ''['' \<and> index_of CHR '']'' hp = Some e \<and> Suc e = i \<and> host = drop 1 (take e hp))"
    using assms by (auto simp: net_SplitHostPort_def Let_def split: option.split_asm if_split_asm)
  have hp: "hp = take i hp @ '':'' @ port" using last_index_of_Some [OF i(1)] i(2) id_take_nth_drop [of i hp] by simp
  show ?thesis using h
  proof
    assume "\<exists>e. hd hp = CHR ''['' \<and> index_of CHR '']'' hp = Some e \<and> Suc e = i \<and> host = drop 1 (take e hp)"
    then obtain e where e: "hd hp = CHR ''[''" "index_of CHR '']'' hp = Some e" "Suc e = i" "host = drop 1 (take e hp)" by blast
    have x: "e < length hp" "hp ! e = CHR '']''" using index_of_Some [OF e(2)] by auto
    then obtain t where t: "hp = CHR ''['' # t" using e(1) by (cases hp) auto
    obtain e' where e': "e = Suc e'" using x t by (cases e) auto
    have "take i hp = take e hp @ [CHR '']'']" using x e(3) by (metis take_Suc_conv_app_nth)
    then show ?thesis using hp t e' e(4) by simp
  qed (use hp in simp)
qed

text \<open>
  An address that was parsed, or that is empty: its text is made of a host and a port; the host is in
  place (the loopback address for none), and so is the port: its number, below \<open>2 ^ 16\<close>, or the path of a socket when it begins with a slash.
\<close>

definition addr_ready :: "addr_host_port \<Rightarrow> bool" where
  "addr_ready a \<longleftrightarrow> ah_Addr a \<noteq> [] \<longrightarrow>
     (\<exists>host port. (ah_Addr a = host @ '':'' @ port \<or> ah_Addr a = ''['' @ host @ '']:'' @ port)
        \<and> CHR '':'' \<notin> set port \<and> port \<noteq> []
        \<and> ah_Host a = (if host = [] then ''127.0.0.1'' else host)
        \<and> (if hd port = CHR ''/'' then ah_UnixDomainPath a = port
           else list_all is_digit port \<and> ah_Port a = digits_val port \<and> ah_Port a < 2 ^ 16))"

lemma ParseUint_None: "ParseUint s bits = (v, None) \<longleftrightarrow> s \<noteq> [] \<and> list_all is_digit s \<and> v = digits_val s \<and> v < 2 ^ bits"
  by (auto simp: ParseUint_def)

lemma ParseAddr_ready:
  assumes "ParseAddr a = (None, b)"
  shows "addr_ready b \<and> ah_Addr b = ah_Addr a"
proof (cases "ah_Addr a = []")
  case True
  then show ?thesis using assms by (auto simp: ParseAddr_def addr_ready_def split: if_split_asm)
next
  case False
  obtain host port where sp: "net_SplitHostPort (ah_Addr a) = Inr (host, port)"
    using assms False by (auto simp: ParseAddr_def split: sum.split_asm)
  have b: "ah_Addr b = ah_Addr a \<and> port \<noteq> [] \<and> ah_Host b = (if host = [] then ''127.0.0.1'' else host)
      \<and> (if hd port = CHR ''/'' then ah_UnixDomainPath b = port
         else list_all is_digit port \<and> ah_Port b = digits_val port \<and> ah_Port b < 2 ^ 16)"
    using assms False sp by (auto simp: ParseAddr_def Let_def ParseUint_None split: if_split_asm prod.split_asm option.split_asm)
  then show ?thesis using net_SplitHostPort_joins [OF sp] net_SplitHostPort_port_no_colon [OF sp]
    unfolding addr_ready_def by metis
qed

lemma ParseAddr_Addr [simp]: "ah_Addr (snd (ParseAddr a)) = ah_Addr a"
  by (simp add: ParseAddr_def Let_def split: sum.split prod.split option.split)

lemma digits_plain:
  assumes "list_all is_digit s"
  shows "set s \<inter> {CHR '':'', CHR ''['', CHR '']''} = {}"
proof -
  have "c \<notin> set s" if "\<not> is_digit c" for c using assms that by (auto simp: list_all_iff)
  then show ?thesis by (simp add: is_digit_def)
qed

text \<open>
  \<open>ParseAddr\<close> takes a plain \<open>host:port\<close> address apart: for every host without colons and
  brackets (the empty host stands for the loopback address) and every port below 65536
  written in decimal it succeeds with that host and that port, whatever the record held
  before; and the port above that range is refused.
\<close>

lemma ParseAddr_plain:
  assumes "set host \<inter> {CHR '':'', CHR ''['', CHR '']''} = {}"
  shows "ParseAddr (a\<lparr>ah_Addr := host @ '':'' @ show_nat p\<rparr>) =
     (if p < 65536
      then (None, a\<lparr>ah_Addr := host @ '':'' @ show_nat p,
                    ah_Host := (if host = [] then ''127.0.0.1'' else host), ah_Port := p\<rparr>)
      else (Some (ErrBadPort (ah_Title a) ErrRange),
            a\<lparr>ah_Addr := host @ '':'' @ show_nat p,
              ah_Host := (if host = [] then ''127.0.0.1'' else host), ah_Port := 65535\<rparr>))"
proof -
  have "net_SplitHostPort (host @ '':'' @ show_nat p) = Inr (host, show_nat p)"
    using assms digits_plain [OF show_nat_digits] by (rule net_SplitHostPort_plain)
  moreover have "hd (show_nat p) \<noteq> CHR ''/''" using hd_show_nat [of p] by (auto simp: is_digit_def)
  moreover have "ParseUint (show_nat p) 16 = (if p < 65536 then (p, None) else (65535, Some ErrRange))"
    by (simp add: ParseUint_def show_nat_digits)
  ultimately show ?thesis by (simp add: ParseAddr_def Let_def)
qed

text \<open>
  the flags promise that a unix-domain socket needs no port (\<open>the port can be
  omitted\<close>), but \<open>ParseAddr\<close> refuses every non-empty address without a colon, so no path of
  a unix-domain socket alone is accepted.
\<close>

lemma ParseAddr_needs_colon:
  assumes "ah_Addr a \<noteq> []" "CHR '':'' \<notin> set (ah_Addr a)"
  shows "ParseAddr a = (Some (ErrBadHostPort (ah_Title a) MissingPort), a)"
proof -
  have "net_SplitHostPort (ah_Addr a) = Inl MissingPort"
    unfolding net_SplitHostPort_def iffD2 [OF last_index_of_None assms(2)] by simp
  then show ?thesis using assms by (simp add: ParseAddr_def)
qed

subsection \<open>What the consistency check guarantees\<close>

definition tunnel_ready :: "tunnel_spec \<Rightarrow> bool" where
  "tunnel_ready t \<longleftrightarrow> addr_ready (ts_Listen t) \<and> addr_ready (ts_Remote t)
     \<and> (ah_Addr (ts_Listen t) \<noteq> [] \<longrightarrow> ah_Addr (ts_Remote t) \<noteq> [])"

lemma validate_tunnel_ready: "validate_tunnel e t = (None, t') \<Longrightarrow> tunnel_ready t'"
  using ParseAddr_ready [of "ts_Listen t"] ParseAddr_ready [of "ts_Remote t"]
  by (auto simp: validate_tunnel_def tunnel_ready_def Let_def split: prod.splits if_splits)

text \<open>Something to do: a tunnel, the embedded server, a user to change, a file to write.\<close>

definition has_job :: "sshego_config \<Rightarrow> bool" where
  "has_job d \<longleftrightarrow> ah_Addr (ts_Listen (cf_LocalToRemote d)) \<noteq> [] \<or> ah_Addr (ts_Listen (cf_RemoteToLocal d)) \<noteq> []
     \<or> ah_Addr (cf_EmbeddedSSHd d) \<noteq> [] \<or> cf_AddUser d \<noteq> [] \<or> cf_DelUser d \<noteq> []
     \<or> cf_WriteConfigOnly d \<and> cf_WriteConfigOut d \<noteq> []"

lemma validate_loaded_ready:
  assumes "validate_loaded c = (None, d)"
  shows "tunnel_ready (cf_LocalToRemote d) \<and> tunnel_ready (cf_RemoteToLocal d) \<and> addr_ready (cf_SSHdServer d)
     \<and> has_job d"
proof -
  obtain l r a where
    "validate_tunnel ErrNoListenRemote (cf_LocalToRemote c) = (None, l)" "cf_LocalToRemote d = l"
    "validate_tunnel ErrNoRevRemote (cf_RemoteToLocal c) = (None, r)" "cf_RemoteToLocal d = r"
    "ParseAddr (cf_SSHdServer c) = (None, a)" "cf_SSHdServer d = a"
    using assms by (fastforce simp: validate_loaded_def Let_def split: prod.splits if_splits)
  moreover have "has_job d"
    using assms by (auto simp: validate_loaded_def has_job_def Let_def split: prod.splits if_splits)
  ultimately show ?thesis using validate_tunnel_ready ParseAddr_ready by blast
qed

text \<open>
  The address of the embedded server is not looked at: \<open>ValidateConfig\<close> leaves it as it was given, so that its host, port and
  socket path are those it had before, whatever its text says.
\<close>

lemma embedded_not_parsed:
  assumes "validate_loaded c = (None, d)"
  shows "cf_EmbeddedSSHd d = cf_EmbeddedSSHd c"
  using assms by (auto simp: validate_loaded_def Let_def split: prod.split_asm if_split_asm)

text \<open>
  C33: a configuration that \<open>ValidateConfig\<close> accepts has the addresses of both tunnels and of the ssh server it will
  dial taken apart: each that is not empty is the text of a host and a port, the host is entered (the loopback address for
  none), and the port is entered as its 16-bit number or as the path of a socket.  It has a remote end for each listening end,
  and something to do: a tunnel, the embedded server, a user to add or delete, or a
  configuration to write.  (The address of the embedded server is not among those it checks.)
\<close>

theorem ValidateConfig_guarantees:
  assumes "ValidateConfig getenv files c = Ret (None, d)"
  shows "tunnel_ready (cf_LocalToRemote d) \<and> tunnel_ready (cf_RemoteToLocal d) \<and> addr_ready (cf_SSHdServer d)
     \<and> has_job d"
proof -
  obtain r where "(case r of Inl e \<Rightarrow> (Some e, c) | Inr c1 \<Rightarrow> validate_loaded c1) = (None, d)"
    using assms by (auto simp: ValidateConfig_def bind_go_Ret_iff)
  then show ?thesis by (cases r) (auto dest: validate_loaded_ready)
qed

definition demo_tunnel :: sshego_config where
  "demo_tunnel = NewSshegoConfig\<lparr>cf_LocalToRemote :=
     \<lparr>ts_Listen = new_addr\<lparr>ah_Addr := '':80''\<rparr>, ts_Remote = new_addr\<lparr>ah_Addr := ''a:81''\<rparr>\<rparr>\<rparr>"

theorem ValidateConfig_guarantees_witness:
  "\<exists>d. ValidateConfig (\<lambda>_. []) (\<lambda>_. None) demo_tunnel = Ret (None, d) \<and> tunnel_ready (cf_LocalToRemote d)
     \<and> ah_Port (ts_Remote (cf_LocalToRemote d)) = 81"
proof -
  obtain d where d: "ValidateConfig (\<lambda>_. []) (\<lambda>_. None) demo_tunnel = Ret (None, d)"
    "ah_Port (ts_Remote (cf_LocalToRemote d)) = 81"
    by (simp add: ValidateConfig_def validate_loaded_def validate_tunnel_def demo_tunnel_def NewSshegoConfig_def
        new_addr_def ParseAddr_def net_SplitHostPort_def last_index_of_def Let_def ParseUint_def is_digit_def
        digits_val_def digit_val_def)
  from ValidateConfig_guarantees [OF d(1)] d show ?thesis by blast
qed

end
