(* ===== verification/Codec.thy ===== *)
theory Codec
  imports Go_Prelude
begin

section \<open>Interface: encoders and decoders of a byte stream\<close>

text \<open>
  The contract between the writers and the readers of a wire format: decoding what was
  encoded gives the value back and leaves what follows it, as long as the whole buffer is
  shorter than \<open>2^32\<close> bytes (the readers compare lengths as 32-bit numbers).  From it follow,
  once for every format, that no buffer can be read in two ways and that sequences of
  encodings are read back.
\<close>

definition small :: "bytes \<Rightarrow> bool" where
  "small b \<longleftrightarrow> length b < 2 ^ 32"

lemma small_append: "small (a @ b) \<Longrightarrow> small a \<and> small b"
  by (simp add: small_def)

locale codec =
  fixes enc :: "'a \<Rightarrow> bytes"
    and dec :: "bytes \<Rightarrow> ('a \<times> bytes) option"
    and fits :: "'a \<Rightarrow> bool"
  assumes dec_enc: "fits x \<Longrightarrow> small (enc x @ rest) \<Longrightarrow> dec (enc x @ rest) = Some (x, rest)"
begin

lemma prefix_free:
  assumes "fits x" "fits y" "small (enc x @ r)" "enc x @ r = enc y @ s"
  shows "x = y \<and> r = s"
proof -
  have "dec (enc x @ r) = Some (y, s)" using dec_enc [OF assms(2), of s] assms(3,4) by simp
  then show ?thesis using dec_enc [OF assms(1,3)] by simp
qed

fun dec_n :: "nat \<Rightarrow> bytes \<Rightarrow> ('a list \<times> bytes) option" where
  "dec_n 0 b = Some ([], b)"
| "dec_n (Suc n) b =
     (case dec b of
        None \<Rightarrow> None
      | Some (x, b1) \<Rightarrow> (case dec_n n b1 of None \<Rightarrow> None | Some (xs, b2) \<Rightarrow> Some (x # xs, b2)))"

lemma dec_n_enc:
  "list_all fits xs \<Longrightarrow> small (concat (map enc xs) @ rest) \<Longrightarrow>
   dec_n (length xs) (concat (map enc xs) @ rest) = Some (xs, rest)"
proof (induction xs)
  case (Cons x xs)
  have "small (enc x @ concat (map enc xs) @ rest)" using Cons.prems by simp
  moreover from this have "small (concat (map enc xs) @ rest)" by (rule small_append [THEN conjunct2])
  ultimately show ?case using Cons by (simp add: dec_enc)
qed simp

end

text \<open>Two formats in sequence are a format.\<close>

locale codec_pair = c1: codec enc1 dec1 fits1 + c2: codec enc2 dec2 fits2
  for enc1 :: "'a \<Rightarrow> bytes" and dec1 fits1 and enc2 :: "'b \<Rightarrow> bytes" and dec2 fits2
begin

definition enc_pair :: "'a \<times> 'b \<Rightarrow> bytes" where
  "enc_pair p = enc1 (fst p) @ enc2 (snd p)"

definition dec_pair :: "bytes \<Rightarrow> (('a \<times> 'b) \<times> bytes) option" where
  "dec_pair b =
     (case dec1 b of
        None \<Rightarrow> None
      | Some (x, b1) \<Rightarrow> (case dec2 b1 of None \<Rightarrow> None | Some (y, b2) \<Rightarrow> Some ((x, y), b2)))"

definition fits_pair :: "'a \<times> 'b \<Rightarrow> bool" where
  "fits_pair p \<longleftrightarrow> fits1 (fst p) \<and> fits2 (snd p)"

lemma dec_pair_enc: "fits_pair p \<Longrightarrow> small (enc_pair p @ r) \<Longrightarrow> dec_pair (enc_pair p @ r) = Some (p, r)"
  using small_append [of "enc1 (fst p)" "enc2 (snd p) @ r"]
  by (simp add: enc_pair_def dec_pair_def fits_pair_def c1.dec_enc c2.dec_enc)

end

sublocale codec_pair \<subseteq> pair: codec enc_pair dec_pair fits_pair
  by unfold_locales (rule dec_pair_enc)

end
