(* ===== verification/Wire.thy ===== *)
theory Wire
  imports Go_Stdlib Codec
begin

section \<open>The SSH wire format\<close>

text \<open>
  \<^verbatim>\<open>messages.go\<close> and the append functions of \<^verbatim>\<open>common.go\<close> of the ssh library in
  \<^verbatim>\<open>xendor/github.com/glycerine/xcryptossh\<close>: strings, name lists, multiple-precision integers,
  the reflective \<^verbatim>\<open>Marshal\<close> and \<^verbatim>\<open>Unmarshal\<close>, the message structures and \<^verbatim>\<open>decode\<close>.

  The reflection of Go is an explicit schema: a message structure is the list of the kinds of
  its fields with the message numbers of its tag, a message is the list of its field values.
\<close>

subsection \<open>Parsing\<close>

definition parseString :: "bytes \<Rightarrow> (bytes \<times> bytes) option" where
  "parseString inp =
     (if length inp < 4 then None
      else let len = Uint32 inp; inp1 = drop 4 inp in
        if (word_of_nat (length inp1) :: u32) < len then None
        else Some (take (unat len) inp1, drop (unat len) inp1))"

definition parseUint32 :: "bytes \<Rightarrow> (u32 \<times> bytes) option" where
  "parseUint32 inp = (if length inp < 4 then None else Some (Uint32 inp, drop 4 inp))"

definition parseUint64 :: "bytes \<Rightarrow> (u64 \<times> bytes) option" where
  "parseUint64 inp = (if length inp < 8 then None else Some (Uint64 inp, drop 8 inp))"

definition parseNameList :: "bytes \<Rightarrow> (string list \<times> bytes) option" where
  "parseNameList inp =
     (case parseString inp of
        None \<Rightarrow> None
      | Some (contents, rest) \<Rightarrow> Some (if contents = [] then [] else Split CHR '','' contents, rest))"

text \<open>\<^verbatim>\<open>big.Int.SetBytes\<close>, \<^verbatim>\<open>big.Int.Bytes\<close> (no leading zero bytes) and \<^verbatim>\<open>big.Int.BitLen\<close>.\<close>

definition be_val :: "bytes \<Rightarrow> nat" where
  "be_val b = foldl (\<lambda>a c. 256 * a + of_char c) 0 b"

fun be_bytes :: "nat \<Rightarrow> bytes" where
  "be_bytes n = (if n = 0 then [] else be_bytes (n div 256) @ [char_of (n mod 256)])"

fun bit_len :: "nat \<Rightarrow> nat" where
  "bit_len n = (if n = 0 then 0 else Suc (bit_len (n div 2)))"

declare be_bytes.simps [simp del] bit_len.simps [simp del]

definition high_bit :: "char \<Rightarrow> bool" where
  "high_bit c \<longleftrightarrow> 128 \<le> (of_char c :: nat)"

definition flip_byte :: "char \<Rightarrow> char" where
  "flip_byte c = char_of (255 - of_char c :: nat)"

definition parseInt :: "bytes \<Rightarrow> (int \<times> bytes) option" where
  "parseInt inp =
     (case parseString inp of
        None \<Rightarrow> None
      | Some (contents, rest) \<Rightarrow>
          Some (if contents \<noteq> [] \<and> high_bit (hd contents)
                then - (int (be_val (map flip_byte contents)) + 1)
                else int (be_val contents), rest))"

subsection \<open>Writing\<close>

definition appendU32 :: "bytes \<Rightarrow> u32 \<Rightarrow> bytes" where
  "appendU32 buf n = buf @ PutUint32 n"

definition appendU64 :: "bytes \<Rightarrow> u64 \<Rightarrow> bytes" where
  "appendU64 buf n = buf @ PutUint64 n"

definition appendInt :: "bytes \<Rightarrow> nat \<Rightarrow> bytes" where
  "appendInt buf n = appendU32 buf (word_of_nat n)"

definition appendString :: "bytes \<Rightarrow> string \<Rightarrow> bytes" where
  "appendString buf s = appendU32 buf (word_of_nat (length s)) @ s"

definition appendBool :: "bytes \<Rightarrow> bool \<Rightarrow> bytes" where
  "appendBool buf b = buf @ [if b then CHR 0x01 else CHR 0x00]"

text \<open>
  \<^verbatim>\<open>intLength\<close> computes the size of the buffer \<^verbatim>\<open>marshalInt\<close> fills: the length word and the
  magnitude with its padding byte.
\<close>

definition intLength :: "int \<Rightarrow> nat" where
  "intLength n =
     (let bytes_for = (\<lambda>bl. (if bl mod 8 = 0 then 1 else 0) + (bl + 7) div 8) in
      if n < 0 then 4 + bytes_for (bit_len (nat (- n - 1)))
      else if n = 0 then 4
      else 4 + bytes_for (bit_len (nat n)))"

definition int_contents :: "int \<Rightarrow> bytes" where
  "int_contents n =
     (if n < 0 then
        let b = map flip_byte (be_bytes (nat (- n - 1))) in
        (if b = [] \<or> \<not> high_bit (hd b) then CHR 0xFF # b else b)
      else if n = 0 then []
      else let b = be_bytes (nat n) in
        (if b \<noteq> [] \<and> high_bit (hd b) then CHR 0x00 # b else b))"

definition marshalInt :: "int \<Rightarrow> bytes" where
  "marshalInt n = PutUint32 (word_of_nat (length (int_contents n))) @ int_contents n"

subsection \<open>Messages\<close>

datatype fkind = KBool | KArray nat | KU8 | KU32 | KU64 | KString | KBytes | KRest | KNames | KInt

datatype fval = VBool bool | VArray bytes | VU8 char | VU32 u32 | VU64 u64 | VStr string | VBytes bytes
  | VNames "string list" | VInt int

record schema =
  sc_tags :: "nat list"
  sc_fields :: "fkind list"

datatype wire_err = ParseError nat | UnexpectedType nat | ErrShortRead | FieldError

definition parse_field :: "fkind \<Rightarrow> bytes \<Rightarrow> wire_err + fval \<times> bytes" where
  "parse_field k data =
     (let got = (\<lambda>err mk r. case r of None \<Rightarrow> Inl err | Some (x, rest) \<Rightarrow> Inr (mk x, rest)) in
      case k of
        KBool \<Rightarrow> (case data of [] \<Rightarrow> Inl ErrShortRead | c # cs \<Rightarrow> Inr (VBool (c \<noteq> CHR 0x00), cs))
      | KArray n \<Rightarrow> if length data < n then Inl ErrShortRead else Inr (VArray (take n data), drop n data)
      | KU8 \<Rightarrow> (case data of [] \<Rightarrow> Inl ErrShortRead | c # cs \<Rightarrow> Inr (VU8 c, cs))
      | KU32 \<Rightarrow> (case parseUint32 data of None \<Rightarrow> Inl ErrShortRead | Some (x, r) \<Rightarrow> Inr (VU32 x, r))
      | KU64 \<Rightarrow> (case parseUint64 data of None \<Rightarrow> Inl ErrShortRead | Some (x, r) \<Rightarrow> Inr (VU64 x, r))
      | KString \<Rightarrow> got FieldError VStr (parseString data)
      | KBytes \<Rightarrow> got ErrShortRead VBytes (parseString data)
      | KRest \<Rightarrow> Inr (VBytes data, [])
      | KNames \<Rightarrow> (case parseNameList data of None \<Rightarrow> Inl ErrShortRead | Some (x, r) \<Rightarrow> Inr (VNames x, r))
      | KInt \<Rightarrow> (case parseInt data of None \<Rightarrow> Inl ErrShortRead | Some (x, r) \<Rightarrow> Inr (VInt x, r)))"

fun parse_fields :: "fkind list \<Rightarrow> bytes \<Rightarrow> wire_err + fval list \<times> bytes" where
  "parse_fields [] data = Inr ([], data)"
| "parse_fields (k # ks) data =
     (case parse_field k data of
        Inl e \<Rightarrow> Inl e
      | Inr (v, rest) \<Rightarrow> (case parse_fields ks rest of Inl e \<Rightarrow> Inl e | Inr (vs, r) \<Rightarrow> Inr (v # vs, r)))"

definition Unmarshal :: "schema \<Rightarrow> bytes \<Rightarrow> wire_err + fval list" where
  "Unmarshal s data =
     (let tags = sc_tags s; expected = (case tags of [] \<Rightarrow> 0 | t # _ \<Rightarrow> t) in
      if data = [] then Inl (ParseError expected)
      else if tags \<noteq> [] \<and> \<not> list_ex (\<lambda>e. e > 0 \<and> of_char (hd data) = e) tags
      then Inl (UnexpectedType (of_char (hd data)))
      else (case parse_fields (sc_fields s) (if tags = [] then data else tl data) of
          Inl e \<Rightarrow> Inl e
        | Inr (vs, rest) \<Rightarrow> if rest \<noteq> [] then Inl (ParseError expected) else Inr vs))"

text \<open>
  The length word of a name list is written first as 0 and overwritten when the list is not
  empty; the bytes are those of the joined names.
\<close>

definition marshal_field :: "fkind \<Rightarrow> fval \<Rightarrow> bytes \<Rightarrow> bytes" where
  "marshal_field k v out =
     (case v of
        VBool b \<Rightarrow> appendBool out b
      | VArray b \<Rightarrow> out @ b
      | VU8 c \<Rightarrow> out @ [c]
      | VU32 n \<Rightarrow> appendU32 out n
      | VU64 n \<Rightarrow> appendU64 out n
      | VStr s \<Rightarrow> appendInt out (length s) @ s
      | VBytes b \<Rightarrow> (if k = KRest then out else appendInt out (length b)) @ b
      | VNames ns \<Rightarrow>
          (if ns = [] then appendU32 out 0
           else appendU32 out (word_of_nat (length (Join '','' ns))) @ Join '','' ns)
      | VInt n \<Rightarrow> out @ marshalInt n)"

fun marshal_fields :: "fkind list \<Rightarrow> fval list \<Rightarrow> bytes \<Rightarrow> bytes" where
  "marshal_fields (k # ks) (v # vs) out = marshal_fields ks vs (marshal_field k v out)"
| "marshal_fields _ _ out = out"

definition Marshal :: "schema \<Rightarrow> fval list \<Rightarrow> bytes" where
  "Marshal s vs =
     marshal_fields (sc_fields s) vs (case sc_tags s of [] \<Rightarrow> [] | t # _ \<Rightarrow> [char_of t])"

text \<open>The message structures.\<close>

definition disconnectMsg :: schema where
  "disconnectMsg = \<lparr>sc_tags = [1], sc_fields = [KU32, KString, KString]\<rparr>"

definition serviceRequestMsg :: schema where
  "serviceRequestMsg = \<lparr>sc_tags = [5], sc_fields = [KString]\<rparr>"

definition serviceAcceptMsg :: schema where
  "serviceAcceptMsg = \<lparr>sc_tags = [6], sc_fields = [KString]\<rparr>"

definition kexInitMsg :: schema where
  "kexInitMsg = \<lparr>sc_tags = [20],
     sc_fields = KArray 16 # replicate 10 KNames @ [KBool, KU32]\<rparr>"

definition kexDHInitMsg :: schema where
  "kexDHInitMsg = \<lparr>sc_tags = [30], sc_fields = [KInt]\<rparr>"

definition kexDHReplyMsg :: schema where
  "kexDHReplyMsg = \<lparr>sc_tags = [31], sc_fields = [KBytes, KInt, KBytes]\<rparr>"

definition kexECDHInitMsg :: schema where
  "kexECDHInitMsg = \<lparr>sc_tags = [30], sc_fields = [KBytes]\<rparr>"

definition kexECDHReplyMsg :: schema where
  "kexECDHReplyMsg = \<lparr>sc_tags = [31], sc_fields = [KBytes, KBytes, KBytes]\<rparr>"

definition userAuthRequestMsg :: schema where
  "userAuthRequestMsg = \<lparr>sc_tags = [50], sc_fields = [KString, KString, KString, KRest]\<rparr>"

definition userAuthFailureMsg :: schema where
  "userAuthFailureMsg = \<lparr>sc_tags = [51], sc_fields = [KNames, KBool]\<rparr>"

definition userAuthInfoRequestMsg :: schema where
  "userAuthInfoRequestMsg = \<lparr>sc_tags = [60], sc_fields = [KString, KString, KString, KU32, KRest]\<rparr>"

definition userAuthPubKeyOkMsg :: schema where
  "userAuthPubKeyOkMsg = \<lparr>sc_tags = [60], sc_fields = [KString, KBytes]\<rparr>"

definition globalRequestMsg :: schema where
  "globalRequestMsg = \<lparr>sc_tags = [80], sc_fields = [KString, KBool, KRest]\<rparr>"

definition globalRequestSuccessMsg :: schema where
  "globalRequestSuccessMsg = \<lparr>sc_tags = [81], sc_fields = [KRest]\<rparr>"

definition globalRequestFailureMsg :: schema where
  "globalRequestFailureMsg = \<lparr>sc_tags = [82], sc_fields = [KRest]\<rparr>"

definition channelOpenMsg :: schema where
  "channelOpenMsg = \<lparr>sc_tags = [90], sc_fields = [KString, KU32, KU32, KU32, KRest]\<rparr>"

definition channelOpenConfirmMsg :: schema where
  "channelOpenConfirmMsg = \<lparr>sc_tags = [91], sc_fields = [KU32, KU32, KU32, KU32, KRest]\<rparr>"

definition channelOpenFailureMsg :: schema where
  "channelOpenFailureMsg = \<lparr>sc_tags = [92], sc_fields = [KU32, KU32, KString, KString]\<rparr>"

definition windowAdjustMsg :: schema where
  "windowAdjustMsg = \<lparr>sc_tags = [93], sc_fields = [KU32, KU32]\<rparr>"

definition channelDataMsg :: schema where
  "channelDataMsg = \<lparr>sc_tags = [94], sc_fields = [KU32, KU32, KRest]\<rparr>"

definition channelEOFMsg :: schema where
  "channelEOFMsg = \<lparr>sc_tags = [96], sc_fields = [KU32]\<rparr>"

definition channelCloseMsg :: schema where
  "channelCloseMsg = \<lparr>sc_tags = [97], sc_fields = [KU32]\<rparr>"

definition channelRequestMsg :: schema where
  "channelRequestMsg = \<lparr>sc_tags = [98], sc_fields = [KU32, KString, KBool, KRest]\<rparr>"

definition channelRequestSuccessMsg :: schema where
  "channelRequestSuccessMsg = \<lparr>sc_tags = [99], sc_fields = [KU32]\<rparr>"

definition channelRequestFailureMsg :: schema where
  "channelRequestFailureMsg = \<lparr>sc_tags = [100], sc_fields = [KU32]\<rparr>"

text \<open>
  \<^verbatim>\<open>decode\<close>: the message number selects the structure; number 52 has no fields to read.  A
  packet is never empty (an empty one would panic on its first byte).
\<close>

definition schema_of :: "nat \<Rightarrow> schema option" where
  "schema_of t =
     map_of [(1, disconnectMsg), (5, serviceRequestMsg), (6, serviceAcceptMsg), (20, kexInitMsg),
       (30, kexDHInitMsg), (31, kexDHReplyMsg), (50, userAuthRequestMsg), (51, userAuthFailureMsg),
       (60, userAuthPubKeyOkMsg), (80, globalRequestMsg), (81, globalRequestSuccessMsg),
       (82, globalRequestFailureMsg), (90, channelOpenMsg), (94, channelDataMsg), (91, channelOpenConfirmMsg),
       (92, channelOpenFailureMsg), (93, windowAdjustMsg), (96, channelEOFMsg), (97, channelCloseMsg),
       (98, channelRequestMsg), (99, channelRequestSuccessMsg), (100, channelRequestFailureMsg)] t"

definition decode :: "bytes \<Rightarrow> (wire_err + nat \<times> fval list) go" where
  "decode packet =
     (case packet of
        [] \<Rightarrow> Panic ''index out of range''
      | c # _ \<Rightarrow>
          let t = of_char c :: nat in
          if t = 52 then Ret (Inr (t, []))
          else (case schema_of t of
              None \<Rightarrow> Ret (Inl (UnexpectedType t))
            | Some s \<Rightarrow> Ret (case Unmarshal s packet of Inl e \<Rightarrow> Inl e | Inr vs \<Rightarrow> Inr (t, vs))))"

end
