(* ===== verification/Wire_Proofs.thy ===== *)
theory Wire_Proofs
  imports Wire
begin

section \<open>The wire format: round trips\<close>

text \<open>
  Every field kind is a \<open>codec\<close>, the reflective \<open>Marshal\<close> and \<open>Unmarshal\<close> are inverse on every
  message structure whose values fit, and \<open>decode\<close> recovers the message.
\<close>

subsection \<open>Words, strings, lists of names\<close>

lemma parseUint32_put: "parseUint32 (PutUint32 n @ r) = Some (n, r)"
  by (simp add: parseUint32_def)

lemma parseUint64_put: "parseUint64 (PutUint64 n @ r) = Some (n, r)"
  by (simp add: parseUint64_def)

text \<open>
  A string fits when its length is a 32-bit number; the reader compares the rest of the packet
  modulo \<open>2^32\<close>, so the packet has to be smaller than that too.
\<close>

definition enc_string :: "string \<Rightarrow> bytes" where
  "enc_string s = PutUint32 (word_of_nat (length s)) @ s"

lemma appendString_enc: "appendString buf s = buf @ enc_string s"
  by (simp add: appendString_def appendU32_def enc_string_def)

lemma parseString_enc:
  assumes "length s + length r < 2 ^ 32"
  shows "parseString (enc_string s @ r) = Some (s, r)"
proof -
  let ?w = "word_of_nat (length s) :: u32"
  have u: "unat ?w = length s" using assms by (simp add: unat_of_nat)
  have "\<not> (word_of_nat (length s + length r) :: u32) < ?w"
    using assms u by (simp add: word_less_nat_alt unat_of_nat_eq del: of_nat_add)
  then show ?thesis by (simp add: parseString_def enc_string_def Let_def u)
qed

text \<open>What a successful parse consumes.\<close>

lemma parseString_split:
  assumes "parseString inp = Some (s, r)" "length inp < 2 ^ 32"
  shows "inp = enc_string s @ r"
proof -
  let ?n = "Uint32 inp"
  have l: "4 \<le> length inp" and w: "\<not> (word_of_nat (length inp - 4) :: u32) < ?n"
    and s: "s = take (unat ?n) (drop 4 inp)" and r: "r = drop (unat ?n) (drop 4 inp)"
    using assms(1) by (auto simp: parseString_def Let_def split: if_split_asm)
  have "unat (word_of_nat (length inp - 4) :: u32) = length inp - 4"
    using assms(2) by (simp add: unat_of_nat)
  with w have "length s = unat ?n" by (simp add: s word_less_nat_alt)
  then have "enc_string s @ r = PutUint32 ?n @ drop 4 inp" by (simp add: enc_string_def s r del: drop_drop)
  moreover have "PutUint32 ?n = take 4 inp" using l by (rule PutUint32_Uint32)
  ultimately show ?thesis by simp
qed

definition names_ok :: "string list \<Rightarrow> bool" where
  "names_ok ns \<longleftrightarrow> ns \<noteq> [[]] \<and> list_all (\<lambda>n. CHR '','' \<notin> set n) ns"

lemma Join_empty: "Join sep ns = [] \<Longrightarrow> sep \<noteq> [] \<Longrightarrow> ns = [] \<or> ns = [[]]"
  by (induction sep ns rule: Join.induct) auto

lemma parseNameList_enc:
  assumes "names_ok ns" "length (Join '','' ns) + length r < 2 ^ 32"
  shows "parseNameList (enc_string (Join '','' ns) @ r) = Some (ns, r)"
proof (cases "ns = []")
  case True
  then show ?thesis using assms(2) by (simp add: parseNameList_def parseString_enc)
next
  case False
  then have "Join '','' ns \<noteq> []" using assms(1) Join_empty [of "'',''" ns] by (auto simp: names_ok_def)
  moreover have "Split CHR '','' (Join '','' ns) = ns"
    using False assms(1) by (intro Split_Join) (simp_all add: names_ok_def list_all_iff)
  ultimately show ?thesis using assms(2) by (simp add: parseNameList_def parseString_enc)
qed

subsection \<open>Integers\<close>

lemma be_val_snoc [simp]: "be_val (b @ [c]) = 256 * be_val b + of_char c"
  by (simp add: be_val_def)

lemma be_val_Nil [simp]: "be_val [] = 0"
  by (simp add: be_val_def)

lemma be_val_be_bytes [simp]: "be_val (be_bytes n) = n"
proof (induction n rule: be_bytes.induct)
  case (1 n)
  then show ?case by (subst be_bytes.simps) simp
qed

lemma be_val_append: "be_val (a @ b) = be_val a * 256 ^ length b + be_val b"
  by (induction b rule: rev_induct) (simp_all flip: append_assoc)

lemma be_val_Cons: "be_val (c # b) = of_char c * 256 ^ length b + be_val b"
  using be_val_append [of "[c]" b] be_val_snoc [of "[]" c] by simp

lemma be_bytes_Nil [simp]: "be_bytes n = [] \<longleftrightarrow> n = 0"
  by (subst be_bytes.simps) simp

lemma flip_flip [simp]: "flip_byte (flip_byte c) = c"
proof -
  have "255 - (255 - of_char c) = (of_char c :: nat)" using of_char_lt [of c] by linarith
  then show ?thesis by (simp add: flip_byte_def)
qed

lemma of_char_flip: "(of_char (flip_byte c) :: nat) = 255 - of_char c"
  by (simp add: flip_byte_def)

lemma high_bit_flip [simp]: "high_bit (flip_byte c) \<longleftrightarrow> \<not> high_bit c"
  by (auto simp: high_bit_def of_char_flip)

lemma map_flip_flip [simp]: "map (flip_byte \<circ> flip_byte) b = b"
  by (induction b) simp_all

lemma parseInt_marshalInt:
  assumes "length (int_contents n) + length r < 2 ^ 32"
  shows "parseInt (marshalInt n @ r) = Some (n, r)"
proof -
  have ps: "parseString (marshalInt n @ r) = Some (int_contents n, r)"
    using parseString_enc [OF assms] by (simp add: marshalInt_def enc_string_def)
  consider "n < 0" | "n = 0" | "n > 0" by linarith
  then show ?thesis
  proof cases
    case 1
    let ?b = "map flip_byte (be_bytes (nat (- n - 1)))"
    have "be_val (map flip_byte ?b) = nat (- n - 1)" by simp
    moreover have "flip_byte CHR 0xFF = CHR 0x00"
      using of_char_eq_iff [of "flip_byte CHR 0xFF" "CHR 0x00", where 'a = nat] by (simp add: of_char_flip)
    moreover have "high_bit CHR 0xFF" by (simp add: high_bit_def)
    ultimately show ?thesis
      using 1 ps by (auto simp: parseInt_def int_contents_def Let_def be_val_Cons)
  next
    case 3
    have "\<not> high_bit CHR 0x00" by (simp add: high_bit_def)
    then show ?thesis using 3 ps by (auto simp: parseInt_def int_contents_def Let_def be_val_Cons)
  qed (use ps in \<open>simp add: parseInt_def int_contents_def\<close>)
qed

text \<open>The buffer of \<open>intLength\<close> bytes is filled exactly.\<close>

lemma bit_len_256: "0 < n div 256 \<Longrightarrow> bit_len n = 8 + bit_len (n div 256)"
proof -
  have step: "0 < n \<Longrightarrow> bit_len n = Suc (bit_len (n div 2))" for n by (subst bit_len.simps) simp
  assume n: "0 < n div 256"
  then have "0 < n" "0 < n div 2" "0 < n div 4" "0 < n div 8" "0 < n div 16" "0 < n div 32" "0 < n div 64"
    "0 < n div 128" by (simp_all add: div_greater_zero_iff)
  then show ?thesis
    using step [of n] step [of "n div 2"] step [of "n div 4"] step [of "n div 8"] step [of "n div 16"]
      step [of "n div 32"] step [of "n div 64"] step [of "n div 128"]
    by (simp add: div_mult2_eq [symmetric])
qed

text \<open>The bit length from the bytes: eight for each byte after the first, and those of the first.\<close>

lemma bit_len_bytes:
  "0 < n \<Longrightarrow> 0 < bit_len (of_char (hd (be_bytes n))) \<and>
     bit_len n = 8 * (length (be_bytes n) - 1) + bit_len (of_char (hd (be_bytes n)))"
proof (induction n rule: be_bytes.induct)
  case (1 n)
  show ?case
  proof (cases "n div 256 = 0")
    case True
    then have "n < 256" by (simp add: div_eq_0_iff)
    then have "be_bytes n = [char_of n]" using 1 True by (subst be_bytes.simps) simp
    then show ?thesis using \<open>n < 256\<close> 1 by (simp add: bit_len.simps [of n])
  next
    case False
    then have b: "be_bytes n = be_bytes (n div 256) @ [char_of (n mod 256)]" using 1 by (subst be_bytes.simps) simp
    obtain l where "length (be_bytes (n div 256)) = Suc l" using False by (cases "be_bytes (n div 256)") simp_all
    then show ?thesis using 1 False b bit_len_256 [of n] by (auto simp: hd_append)
  qed
qed

lemma bit_len_byte: "bit_len (of_char c) \<le> 8" "bit_len (of_char c) = 8 \<longleftrightarrow> high_bit c"
proof -
  have step: "bit_len n = (if n = 0 then 0 else Suc (bit_len (n div 2)))" for n by (subst bit_len.simps) simp
  have b: "bit_len n \<le> k" if "n < 2 ^ k" for n k
    using that
  proof (induction k arbitrary: n)
    case (Suc k)
    then show ?case using Suc.IH [of "n div 2"] by (subst step) (auto simp: less_mult_imp_div_less)
  qed (simp add: bit_len.simps)
  have a: "k < bit_len n" if "2 ^ k \<le> n" for n k
    using that
  proof (induction k arbitrary: n)
    case 0
    then show ?case by (subst step) simp
  next
    case (Suc k)
    moreover have "0 < n" using Suc.prems zero_less_power [of "2 :: nat" "Suc k"] by linarith
    ultimately show ?case using Suc.IH [of "n div 2"] by (subst step) auto
  qed
  show "bit_len (of_char c) \<le> 8" using b [of "of_char c" 8] by simp
  show "bit_len (of_char c) = 8 \<longleftrightarrow> high_bit c"
    using b [of "of_char c" 7] b [of "of_char c" 8] a [of 7 "of_char c"] by (force simp: high_bit_def)
qed

lemma pad_length:
  assumes "0 < n"
  shows "(if bit_len n mod 8 = 0 then 1 else 0) + (bit_len n + 7) div 8
     = length (be_bytes n) + (if high_bit (hd (be_bytes n)) then 1 else 0)"
proof -
  let ?b = "bit_len (of_char (hd (be_bytes n)))" and ?l = "length (be_bytes n) - 1"
  have n: "bit_len n = 8 * ?l + ?b" "0 < ?b" using bit_len_bytes [OF assms] by simp_all
  have l: "length (be_bytes n) = Suc ?l" using assms by (cases "be_bytes n") simp_all
  have "?b mod 8 = 0 \<longleftrightarrow> ?b = 8" "(?b + 7) div 8 = 1"
    using n(2) bit_len_byte(1) [of "hd (be_bytes n)"] by auto
  then show ?thesis using l bit_len_byte(2) [of "hd (be_bytes n)"] by (simp add: n(1))
qed

text \<open>
  The multiple-precision integers of the handshake.  For every integer of which the
  encoding fits a packet, \<open>parseInt\<close> reads back what \<open>marshalInt\<close> wrote, negative numbers and
  padding included, and the buffer \<open>intLength\<close> allocates for it has exactly the number of
  bytes written.
\<close>

lemma marshalInt_exact:
  "length (marshalInt n) = intLength n \<and> (small (marshalInt n @ r) \<longrightarrow> parseInt (marshalInt n @ r) = Some (n, r))"
proof
  have h: "high_bit (hd (map flip_byte (be_bytes m))) \<longleftrightarrow> \<not> high_bit (hd (be_bytes m))" if "m \<noteq> 0" for m
    using that by (simp add: hd_map)
  show "length (marshalInt n) = intLength n"
  proof (cases "nat (- n - 1) = 0")
    case True
    then show ?thesis using pad_length [of "nat n"]
      by (auto simp: marshalInt_def int_contents_def intLength_def Let_def bit_len.simps [of 0])
  next
    case False
    then show ?thesis using pad_length [of "nat (- n - 1)"] pad_length [of "nat n"] h [OF False]
      by (auto simp: marshalInt_def int_contents_def intLength_def Let_def)
  qed
  show "small (marshalInt n @ r) \<longrightarrow> parseInt (marshalInt n @ r) = Some (n, r)"
    by (auto simp: small_def marshalInt_def intro!: parseInt_marshalInt [unfolded marshalInt_def, simplified])
qed

subsection \<open>The field formats as codecs\<close>

interpretation word32: codec PutUint32 parseUint32 "\<lambda>_. True"
  by unfold_locales (rule parseUint32_put)

interpretation word64: codec PutUint64 parseUint64 "\<lambda>_. True"
  by unfold_locales (rule parseUint64_put)

interpretation wire_string: codec enc_string parseString "\<lambda>_. True"
  by unfold_locales (simp add: small_def enc_string_def parseString_enc [unfolded enc_string_def, simplified])

interpretation name_list: codec "\<lambda>ns. enc_string (Join '','' ns)" parseNameList names_ok
  by unfold_locales (simp add: small_def enc_string_def parseNameList_enc [unfolded enc_string_def, simplified])

interpretation mpint: codec marshalInt parseInt "\<lambda>_. True"
  by unfold_locales (simp add: small_def marshalInt_def parseInt_marshalInt [unfolded marshalInt_def, simplified])

subsection \<open>Messages\<close>

text \<open>A value of a kind; a list of names has to be one the format can carry.\<close>

definition has_kind :: "fkind \<Rightarrow> fval \<Rightarrow> bool" where
  "has_kind k v =
     (case v of
        VBool _ \<Rightarrow> k = KBool
      | VArray b \<Rightarrow> k = KArray (length b)
      | VU8 _ \<Rightarrow> k = KU8
      | VU32 _ \<Rightarrow> k = KU32
      | VU64 _ \<Rightarrow> k = KU64
      | VStr _ \<Rightarrow> k = KString
      | VBytes _ \<Rightarrow> k = KBytes \<or> k = KRest
      | VNames ns \<Rightarrow> k = KNames \<and> names_ok ns
      | VInt _ \<Rightarrow> k = KInt)"

text \<open>A message fits its structure; only the last field may be the rest of the packet.\<close>

fun fits_fields :: "fkind list \<Rightarrow> fval list \<Rightarrow> bool" where
  "fits_fields [] [] = True"
| "fits_fields (k # ks) (v # vs) = (has_kind k v \<and> (k = KRest \<longrightarrow> ks = []) \<and> fits_fields ks vs)"
| "fits_fields _ _ = False"

abbreviation enc_field :: "fkind \<Rightarrow> fval \<Rightarrow> bytes" where
  "enc_field k v \<equiv> marshal_field k v []"

lemma marshal_field_append: "marshal_field k v out = out @ enc_field k v"
  by (simp add: marshal_field_def appendBool_def appendU32_def appendU64_def appendInt_def split: fval.split)

lemma marshal_fields_append: "marshal_fields ks vs out = out @ marshal_fields ks vs []"
proof (induction ks arbitrary: vs out)
  case (Cons k ks)
  note IH = Cons.IH
  show ?case
  proof (cases vs)
    case (Cons v vs')
    then show ?thesis using IH [of vs' "out @ enc_field k v"] IH [of vs' "enc_field k v"]
      by (simp add: marshal_field_append [of k v out])
  qed simp
qed simp

lemma enc_field_simps:
  "enc_field KString (VStr s) = enc_string s"
  "enc_field KBytes (VBytes b) = enc_string b"
  "enc_field KRest (VBytes b) = b"
  "enc_field KNames (VNames ns) = enc_string (Join '','' ns)"
  "enc_field KInt (VInt i) = marshalInt i"
  "enc_field KU32 (VU32 n) = PutUint32 n" "enc_field KU64 (VU64 m) = PutUint64 m"
  "enc_field KU8 (VU8 c) = [c]" "enc_field (KArray l) (VArray b) = b"
  "enc_field KBool (VBool t) = [if t then CHR 0x01 else CHR 0x00]"
  by (simp_all add: marshal_field_def appendInt_def appendU32_def appendU64_def appendBool_def enc_string_def)

lemma parse_enc_field:
  assumes "has_kind k v" "small (enc_field k v @ r)" "k = KRest \<Longrightarrow> r = []"
  shows "parse_field k (enc_field k v @ r) = Inr (v, r)"
proof (cases v)
  case (VBytes b)
  then have "k = KBytes \<or> k = KRest" using assms(1) by (simp add: has_kind_def)
  then show ?thesis using assms VBytes
    by (auto simp: enc_field_simps parse_field_def wire_string.dec_enc)
next
  case (VNames ns)
  then show ?thesis using assms
    by (simp add: has_kind_def enc_field_simps parse_field_def name_list.dec_enc)
qed (use assms in \<open>simp_all add: has_kind_def enc_field_simps parse_field_def wire_string.dec_enc word32.dec_enc
      word64.dec_enc mpint.dec_enc\<close>)

lemma parse_enc_fields:
  assumes "fits_fields ks vs" "small (marshal_fields ks vs [])"
  shows "parse_fields ks (marshal_fields ks vs []) = Inr (vs, [])"
  using assms
proof (induction ks vs rule: fits_fields.induct)
  case (2 k ks v vs)
  have e: "marshal_fields (k # ks) (v # vs) [] = enc_field k v @ marshal_fields ks vs []"
    using marshal_fields_append [of ks vs "enc_field k v"] by simp
  then have s: "small (enc_field k v @ marshal_fields ks vs [])" using "2.prems" by simp
  have "marshal_fields ks vs [] = []" if "k = KRest"
    using that "2.prems"(1) by (cases vs) simp_all
  then have "parse_field k (enc_field k v @ marshal_fields ks vs []) = Inr (v, marshal_fields ks vs [])"
    using "2.prems"(1) s by (intro parse_enc_field) simp_all
  then show ?case using 2 e small_append [OF s] by simp
qed simp_all

definition tags_ok :: "schema \<Rightarrow> bool" where
  "tags_ok s \<longleftrightarrow> (case sc_tags s of [] \<Rightarrow> True | t # _ \<Rightarrow> 0 < t \<and> t < 256)"

lemma Unmarshal_of_Marshal:
  assumes "fits_fields (sc_fields s) vs" "sc_tags s \<noteq> []" "tags_ok s" "small (Marshal s vs)"
  shows "Unmarshal s (Marshal s vs) = Inr vs"
proof -
  obtain t ts where t: "sc_tags s = t # ts" "0 < t" "t < 256" using assms(2,3) by (cases "sc_tags s") (auto simp: tags_ok_def)
  have m: "Marshal s vs = char_of t # marshal_fields (sc_fields s) vs []"
    using marshal_fields_append [of "sc_fields s" vs "[char_of t]"] by (simp add: Marshal_def t(1))
  then have "small (marshal_fields (sc_fields s) vs [])" using assms(4) by (simp add: small_def)
  from parse_enc_fields [OF assms(1) this] show ?thesis
    using t by (simp add: Unmarshal_def m)
qed

text \<open>The same for structures without a message number, as in requests, payloads and keys.\<close>

lemma Unmarshal_untagged:
  assumes "fits_fields (sc_fields s) vs" "sc_tags s = []" "small (Marshal s vs)" "Marshal s vs \<noteq> []"
  shows "Unmarshal s (Marshal s vs) = Inr vs"
proof -
  have m: "Marshal s vs = marshal_fields (sc_fields s) vs []" by (simp add: Marshal_def assms(2))
  then have "parse_fields (sc_fields s) (Marshal s vs) = Inr (vs, [])" using parse_enc_fields [OF assms(1)] assms(3) by simp
  then show ?thesis using assms(2,4) by (simp add: Unmarshal_def)
qed

text \<open>
  C17: every message structure with a message number: \<open>Unmarshal\<close> gives back the field values
  \<open>Marshal\<close> was called with, for all values that fit the fields (names without commas, the
  rest of the packet only at the end) in a packet below \<open>2^32\<close> bytes.
\<close>

theorem Unmarshal_Marshal:
  assumes "fits_fields (sc_fields s) vs" "sc_tags s \<noteq> []" "tags_ok s" "small (Marshal s vs)"
  shows "Unmarshal s (Marshal s vs) = Inr vs"
  using assms by (rule Unmarshal_of_Marshal)

definition demo_request :: "fval list" where
  "demo_request = [VStr ''bob'', VStr ''ssh-connection'', VStr ''none'', VBytes []]"

lemma demo_request_fits:
  "fits_fields (sc_fields userAuthRequestMsg) demo_request" "sc_tags userAuthRequestMsg \<noteq> []"
  "tags_ok userAuthRequestMsg" "small (Marshal userAuthRequestMsg demo_request)"
  by (simp_all add: demo_request_def userAuthRequestMsg_def has_kind_def tags_ok_def Marshal_def marshal_field_def
      appendInt_def appendU32_def small_def)

theorem Unmarshal_Marshal_witness:
  "Unmarshal userAuthRequestMsg (Marshal userAuthRequestMsg demo_request) = Inr demo_request"
  using demo_request_fits by (rule Unmarshal_Marshal)

lemma schema_of_tags:
  assumes "schema_of t = Some s"
  shows "sc_tags s = [t] \<and> 0 < t \<and> t < 256 \<and> t \<noteq> 52"
  using assms unfolding schema_of_def
  by (simp add: disconnectMsg_def serviceRequestMsg_def serviceAcceptMsg_def kexInitMsg_def kexDHInitMsg_def
      kexDHReplyMsg_def userAuthRequestMsg_def userAuthFailureMsg_def userAuthPubKeyOkMsg_def globalRequestMsg_def
      globalRequestSuccessMsg_def globalRequestFailureMsg_def channelOpenMsg_def channelDataMsg_def
      channelOpenConfirmMsg_def channelOpenFailureMsg_def windowAdjustMsg_def channelEOFMsg_def channelCloseMsg_def
      channelRequestMsg_def channelRequestSuccessMsg_def channelRequestFailureMsg_def split: if_split_asm) auto

lemma decode_of_Marshal:
  assumes "schema_of t = Some s" "fits_fields (sc_fields s) vs" "small (Marshal s vs)"
  shows "decode (Marshal s vs) = Ret (Inr (t, vs))"
proof -
  have t: "sc_tags s = [t]" "0 < t" "t < 256" "t \<noteq> 52" using schema_of_tags [OF assms(1)] by simp_all
  have "Marshal s vs = char_of t # marshal_fields (sc_fields s) vs []"
    using marshal_fields_append [of "sc_fields s" vs "[char_of t]"] by (simp add: Marshal_def t(1))
  moreover have "Unmarshal s (Marshal s vs) = Inr vs"
    using assms(2,3) t by (intro Unmarshal_of_Marshal) (simp_all add: tags_ok_def)
  ultimately show ?thesis using assms(1) t by (simp add: decode_def)
qed

text \<open>
  the dispatcher.  For each of its message structures \<open>decode\<close> returns, from the bytes of a
  message that fits, the number of the structure and the field values, and never panics on a
  packet that has a first byte.
\<close>

lemma decode_Marshal:
  assumes "schema_of t = Some s" "fits_fields (sc_fields s) vs" "small (Marshal s vs)"
  shows "decode (Marshal s vs) = Ret (Inr (t, vs)) \<and> (\<forall>c cs. returns (decode (c # cs)))"
  using decode_of_Marshal [OF assms] by (simp add: decode_def Let_def split: option.split)

subsection \<open>Packets have one reading\<close>

text \<open>The kinds of which every value has one encoding (a boolean is any non-zero byte, an integer may be padded).\<close>

definition canonical :: "fkind \<Rightarrow> bool" where
  "canonical k \<longleftrightarrow> k \<notin> {KBool, KInt, KU64}"

lemma parseUint32_split: "parseUint32 d = Some (n, r) \<Longrightarrow> d = PutUint32 n @ r"
  using PutUint32_Uint32 [of d] by (auto simp: parseUint32_def split: if_split_asm)

lemma parseNameList_split:
  assumes "parseNameList d = Some (ns, r)" "small d"
  shows "d = enc_string (Join '','' ns) @ r"
proof -
  obtain c where c: "parseString d = Some (c, r)" and ns: "ns = (if c = [] then [] else Split CHR '','' c)"
    using assms(1) by (auto simp: parseNameList_def split: option.split_asm)
  then show ?thesis using parseString_split [OF c] assms(2) by (simp add: small_def ns Join_Split)
qed

lemma parse_field_split:
  assumes "parse_field k d = Inr (v, r)" "canonical k" "small d"
  shows "d = enc_field k v @ r"
proof (cases k)
  case KString
  then obtain s where "parseString d = Some (s, r)" "v = VStr s"
    using assms(1) by (auto simp: parse_field_def split: option.split_asm)
  then show ?thesis using KString parseString_split assms(3) by (simp add: enc_field_simps small_def)
next
  case KBytes
  then obtain s where "parseString d = Some (s, r)" "v = VBytes s"
    using assms(1) by (auto simp: parse_field_def split: option.split_asm)
  then show ?thesis using KBytes parseString_split assms(3) by (simp add: enc_field_simps small_def)
next
  case KNames
  then obtain ns where "parseNameList d = Some (ns, r)" "v = VNames ns"
    using assms(1) by (auto simp: parse_field_def split: option.split_asm)
  then show ?thesis using KNames parseNameList_split assms(3) by (simp add: enc_field_simps)
next
  case KU32
  then obtain n where "parseUint32 d = Some (n, r)" "v = VU32 n"
    using assms(1) by (auto simp: parse_field_def split: option.split_asm)
  then show ?thesis using KU32 parseUint32_split by (simp add: enc_field_simps)
next
  case (KArray n)
  then show ?thesis using assms(1) by (auto simp: parse_field_def enc_field_simps split: if_split_asm)
next
  case KU8
  then show ?thesis using assms(1) by (auto simp: parse_field_def enc_field_simps split: list.split_asm)
next
  case KRest
  then show ?thesis using assms(1) by (auto simp: parse_field_def enc_field_simps)
qed (use assms(2) in \<open>simp_all add: canonical_def\<close>)

lemma parse_fields_split:
  "parse_fields ks d = Inr (vs, r) \<Longrightarrow> list_all canonical ks \<Longrightarrow> small d \<Longrightarrow> d = marshal_fields ks vs [] @ r"
proof (induction ks arbitrary: d vs)
  case (Cons k ks)
  obtain v d1 vs' where p: "parse_field k d = Inr (v, d1)" "parse_fields ks d1 = Inr (vs', r)" "vs = v # vs'"
    using Cons.prems(1) by (auto split: sum.split_asm prod.split_asm)
  have d: "d = enc_field k v @ d1" using parse_field_split p(1) Cons.prems by simp
  then have "small d1" using Cons.prems(3) small_append by blast
  then have "d1 = marshal_fields ks vs' [] @ r" using Cons.IH [OF p(2)] Cons.prems(2) by simp
  then show ?case using d p(3) marshal_fields_append [of ks vs' "enc_field k v"] by simp
qed simp

text \<open>
  No packet below \<open>2^32\<close> bytes has two readings as a message, and re-encoding what was read
  gives the packet back byte for byte - for every message structure with one number and
  fields other than booleans and big integers, the requests and replies of user
  authentication and channel data among them.
\<close>

lemma Marshal_Unmarshal:
  assumes "Unmarshal s d = Inr vs" "sc_tags s = [t]" "list_all canonical (sc_fields s)" "small d"
  shows "Marshal s vs = d"
proof -
  have d: "d \<noteq> []" "of_char (hd d) = t" "parse_fields (sc_fields s) (tl d) = Inr (vs, [])"
    using assms(1,2) by (auto simp: Unmarshal_def Let_def split: if_split_asm sum.split_asm)
  have "small (tl d)" using assms(4) by (simp add: small_def)
  from parse_fields_split [OF d(3) assms(3) this] have "tl d = marshal_fields (sc_fields s) vs []" by simp
  moreover have "char_of t = hd d" using d(2) by (metis char_of_char)
  ultimately show ?thesis
    using d(1) marshal_fields_append [of "sc_fields s" vs "[char_of t]"]
    by (simp add: Marshal_def assms(2)) (metis list.collapse)
qed

subsection \<open>Prompts\<close>

text \<open>A prompt of the keyboard-interactive method: the question and whether the answer is echoed.\<close>

definition enc_bool :: "bool \<Rightarrow> bytes" where
  "enc_bool b = appendBool [] b"

definition dec_bool :: "bytes \<Rightarrow> (bool \<times> bytes) option" where
  "dec_bool d = (case parse_field KBool d of Inr (VBool b, r) \<Rightarrow> Some (b, r) | _ \<Rightarrow> None)"

interpretation wire_bool: codec enc_bool dec_bool "\<lambda>_. True"
  by unfold_locales (simp add: enc_bool_def dec_bool_def appendBool_def parse_field_def)

interpretation prompt: codec_pair enc_string parseString "\<lambda>_. True" enc_bool dec_bool "\<lambda>_. True"
  by unfold_locales

text \<open>The prompts as the server appends them are read back by a client that reads strings and booleans.\<close>

definition append_prompts :: "(string \<times> bool) list \<Rightarrow> bytes" where
  "append_prompts ps = fold (\<lambda>(q, e) out. appendBool (appendString out q) e) ps []"

lemma append_prompts_enc: "append_prompts ps = concat (map prompt.enc_pair ps)"
proof -
  have "fold (\<lambda>(q, e) out. appendBool (appendString out q) e) ps out = out @ concat (map prompt.enc_pair ps)" for out
    by (induction ps arbitrary: out)
       (auto simp: prompt.enc_pair_def enc_bool_def appendBool_def appendString_enc)
  then show ?thesis by (simp add: append_prompts_def)
qed

lemma prompts_read_back:
  "small (append_prompts ps) \<Longrightarrow> prompt.pair.dec_n (length ps) (append_prompts ps) = Some (ps, [])"
  using prompt.pair.dec_n_enc [of ps "[]"]
  by (simp add: append_prompts_enc prompt.fits_pair_def list_all_iff)

end
