(* ===== verification/Key_Store.thy ===== *)
theory Key_Store
  imports Go_Prelude
begin

section \<open>Interface: a table from keys to values\<close>

text \<open>
  The contract of the tables the program keeps under a lock: the users of the host database
  (\<^verbatim>\<open>AtomicUserMap\<close>), the server keys of the client (\<^verbatim>\<open>KnownHosts.Hosts\<close>), the handlers and
  the registered channels.  A provider gives \<open>get\<close>, \<open>put\<close>, \<open>del\<close> and the empty table, and
  the lookup laws; a client may then reason about any sequence of operations: what a lookup
  returns is decided by the last operation on that key.
\<close>

datatype ('k, 'v) table_op = OpPut 'k 'v | OpDel 'k

fun op_key :: "('k, 'v) table_op \<Rightarrow> 'k" where
  "op_key (OpPut k v) = k"
| "op_key (OpDel k) = k"

fun op_value :: "('k, 'v) table_op \<Rightarrow> 'v option" where
  "op_value (OpPut k v) = Some v"
| "op_value (OpDel k) = None"

text \<open>The last operation of a sequence on a key, if there is one.\<close>

fun last_on :: "'k \<Rightarrow> ('k, 'v) table_op list \<Rightarrow> ('k, 'v) table_op option" where
  "last_on k [] = None"
| "last_on k (x # xs) =
     (case last_on k xs of Some y \<Rightarrow> Some y | None \<Rightarrow> if op_key x = k then Some x else None)"

locale key_store =
  fixes empty_t :: 't
    and get_t :: "'t \<Rightarrow> 'k \<Rightarrow> 'v option"
    and put_t :: "'k \<Rightarrow> 'v \<Rightarrow> 't \<Rightarrow> 't"
    and del_t :: "'k \<Rightarrow> 't \<Rightarrow> 't"
  assumes get_empty: "get_t empty_t k = None"
    and get_put: "get_t (put_t k v t) k' = (if k = k' then Some v else get_t t k')"
    and get_del: "get_t (del_t k t) k' = (if k = k' then None else get_t t k')"
begin

fun apply_op :: "('k, 'v) table_op \<Rightarrow> 't \<Rightarrow> 't" where
  "apply_op (OpPut k v) t = put_t k v t"
| "apply_op (OpDel k) t = del_t k t"

lemma get_apply: "get_t (apply_op x t) k = (if op_key x = k then op_value x else get_t t k)"
  by (cases x) (simp_all add: get_put get_del)

lemma get_fold:
  "get_t (fold apply_op ops t) k = (case last_on k ops of None \<Rightarrow> get_t t k | Some x \<Rightarrow> op_value x)"
proof (induction ops arbitrary: t)
  case (Cons x xs)
  then show ?case by (simp add: get_apply split: option.split)
qed simp

lemma get_fold_untouched: "k \<notin> op_key ` set ops \<Longrightarrow> get_t (fold apply_op ops t) k = get_t t k"
proof -
  assume "k \<notin> op_key ` set ops"
  then have "last_on k ops = None" by (induction ops) auto
  then show ?thesis by (simp add: get_fold)
qed

lemma swap_ops:
  "op_key x \<noteq> op_key y \<Longrightarrow>
   get_t (apply_op x (apply_op y t)) k = get_t (apply_op y (apply_op x t)) k"
  by (auto simp: get_apply)

end

end
