(* ===== verification/Host_Db.thy ===== *)
theory Host_Db
  imports Config Known_Hosts Key_Store
begin

section \<open>The user database of the embedded server\<close>

text \<open>
  \<^verbatim>\<open>user.go\<close>, \<^verbatim>\<open>amap.go\<close>, \<^verbatim>\<open>filedb.go\<close>, \<^verbatim>\<open>rsa.go\<close> and the one-time-password type of
  \<^verbatim>\<open>server.go\<close>: the users, the table that holds them, the files of a user (private key,
  one-time-password secret, QR code), and the database file that is rewritten after every
  change.

  A table of users is a partial map (its lock is taken and released inside each method).
  The file system is a map from paths to contents.  Code outside the repository is a field
  of \<open>host_env\<close>: scrypt, the one-time-password library, RSA key generation and the key
  parsers, the MessagePack image of the database and its JSON rendering, and whether the
  operating system lets a directory or a file be made.  The operating system is not Windows
  (there \<open>NewFiledb\<close> would also turn the slashes around).
\<close>

subsection \<open>Data\<close>

record login_record =
  lr_FirstTm :: int
  lr_LastTm :: int
  lr_SeenCount :: u64
  lr_AcceptedCount :: u64
  lr_PubFinger :: string

record user =
  us_MyEmail :: string
  us_MyFullname :: string
  us_MyLogin :: string
  us_PublicKeyPath :: string
  us_PrivateKeyPath :: string
  us_TOTPpath :: string
  us_QrPath :: string
  us_Issuer :: string
  us_PublicKey :: "pub_key option"
  us_SeenPubKey :: "bytes \<rightharpoonup> login_record"
  us_ScryptedPassword :: bytes
  us_ClearPw :: string
  us_TOTPorig :: string
  us_oneTime :: "string option"
  us_FirstLoginTime :: int
  us_LastLoginTime :: int
  us_LastLoginAddr :: string
  us_IPwhitelist :: "string list"
  us_DisabledAcct :: bool

definition NewUser :: user where
  "NewUser = \<lparr>us_MyEmail = [], us_MyFullname = [], us_MyLogin = [], us_PublicKeyPath = [], us_PrivateKeyPath = [],
     us_TOTPpath = [], us_QrPath = [], us_Issuer = [], us_PublicKey = None, us_SeenPubKey = Map.empty,
     us_ScryptedPassword = [], us_ClearPw = [], us_TOTPorig = [], us_oneTime = None, us_FirstLoginTime = 0,
     us_LastLoginTime = 0, us_LastLoginAddr = [], us_IPwhitelist = [], us_DisabledAcct = False\<rparr>"

type_synonym user_map = "string \<rightharpoonup> user"

text \<open>What is saved: the users and the path of the host key.\<close>

record host_db_persist =
  hp_Users :: user_map
  hp_HostPrivateKeyPath :: string

record host_db =
  hd_cfg :: sshego_config
  hd_Persist :: host_db_persist
  hd_HostSshSigner :: "pub_key option"
  hd_loadedFromDisk :: bool
  hd_dbStored :: bool    \<comment> \<open>\<^verbatim>\<open>h.db.HostDb\<close> is set\<close>
  hd_files :: disk

record host_env =
  he_dirExists :: "string \<Rightarrow> bool"
  he_mkdir :: "string \<Rightarrow> bool"                 \<comment> \<open>\<^verbatim>\<open>os.MkdirAll\<close> succeeds\<close>
  he_open :: "string \<Rightarrow> bool"                  \<comment> \<open>the file can be opened for writing\<close>
  he_removeAll :: "string \<Rightarrow> bool"             \<comment> \<open>\<^verbatim>\<open>os.RemoveAll\<close> succeeds\<close>
  he_hostname :: string
  he_scrypt :: "string \<Rightarrow> bytes"               \<comment> \<open>\<^verbatim>\<open>scrypt.GenerateFromPassword\<close>\<close>
  he_compare :: "bytes \<Rightarrow> bytes \<Rightarrow> bool"      \<comment> \<open>\<^verbatim>\<open>scrypt.CompareHashAndPassword\<close> gives nil\<close>
  he_totp :: "string \<Rightarrow> string \<Rightarrow> (string \<times> bytes) option"   \<comment> \<open>account, issuer: key url and image\<close>
  he_urlOk :: "string \<Rightarrow> bool"                 \<comment> \<open>\<^verbatim>\<open>otp.NewKeyFromURL\<close> succeeds\<close>
  he_totpValid :: "string \<Rightarrow> string \<Rightarrow> bool"  \<comment> \<open>pass code, key url: \<^verbatim>\<open>totp.Validate\<close> now\<close>
  he_genRSA :: "int \<Rightarrow> (bytes \<times> pub_key) option"
  he_parsePrivate :: "bytes \<Rightarrow> pub_key option"
  he_parseAuthorized :: "bytes \<Rightarrow> pub_key option"
  he_marshal :: "host_db_persist \<Rightarrow> bytes option"
  he_json :: "bytes \<Rightarrow> bytes option"
  he_decode :: "bytes \<Rightarrow> host_db_persist option option"  \<comment> \<open>None: an error; Some None: no database in it\<close>

datatype hd_err =
    ErrBadLogin string | ErrBadEmail string | ErrUserExists string | ErrUserNotFound string
  | ErrMkdir string | ErrOpen string | ErrMarshal | ErrJson | ErrDecode | ErrEmptyPath
  | ErrNoKeyFile string | ErrParseKey string

subsection \<open>The table of users\<close>

definition NewAtomicUserMap :: user_map where
  "NewAtomicUserMap = Map.empty"

definition Get2 :: "user_map \<Rightarrow> string \<Rightarrow> user option" where
  "Get2 m key = m key"

definition Set :: "string \<Rightarrow> user \<Rightarrow> user_map \<Rightarrow> user_map" where
  "Set key val m = m(key \<mapsto> val)"

definition Del :: "string \<Rightarrow> user_map \<Rightarrow> user_map" where
  "Del key m = m(key := None)"

interpretation amap: key_store NewAtomicUserMap Get2 Set Del
  by unfold_locales (simp_all add: NewAtomicUserMap_def Get2_def Set_def Del_def)

subsection \<open>Logins, mail addresses, paths\<close>

definition lower_letter :: "char \<Rightarrow> bool" where
  "lower_letter c \<longleftrightarrow> (let n = of_char c :: nat in 97 \<le> n \<and> n \<le> 122)"

definition upper_letter :: "char \<Rightarrow> bool" where
  "upper_letter c \<longleftrightarrow> (let n = of_char c :: nat in 65 \<le> n \<and> n \<le> 90)"

definition alnum :: "char \<Rightarrow> bool" where
  "alnum c \<longleftrightarrow> lower_letter c \<or> upper_letter c \<or> is_digit c"

text \<open>\<open>loginREstring\<close>: \<^verbatim>\<open>^[a-z][-_a-z0-9]{0,31}$\<close>.\<close>

definition login_char :: "char \<Rightarrow> bool" where
  "login_char c \<longleftrightarrow> c = CHR ''-'' \<or> c = CHR ''_'' \<or> lower_letter c \<or> is_digit c"

definition ValidLogin :: "string \<Rightarrow> bool" where
  "ValidLogin login \<longleftrightarrow>
     (case login of [] \<Rightarrow> False | c # cs \<Rightarrow> lower_letter c \<and> length cs \<le> 31 \<and> list_all login_char cs)"

text \<open>
  \<open>emailAddressREstring\<close>: \<^verbatim>\<open>^([a-zA-Z0-9][\+-_.a-zA-Z0-9]{0,63})@([-_.a-zA-Z0-9]{1,255})$\<close>.  The
  sequence \<^verbatim>\<open>\+-_\<close> in the first class is the range of bytes from the plus sign (43) to the
  underscore (95).  No byte of the second class is an at sign, so the cut is at the last one.
\<close>

definition email_local_char :: "char \<Rightarrow> bool" where
  "email_local_char c \<longleftrightarrow> (let n = of_char c :: nat in 43 \<le> n \<and> n \<le> 95) \<or> c = CHR ''.'' \<or> alnum c"

definition email_domain_char :: "char \<Rightarrow> bool" where
  "email_domain_char c \<longleftrightarrow> c = CHR ''-'' \<or> c = CHR ''_'' \<or> c = CHR ''.'' \<or> alnum c"

definition ValidEmail :: "string \<Rightarrow> bool" where
  "ValidEmail e \<longleftrightarrow>
     (case last_index_of CHR 0x40 e of
        None \<Rightarrow> False
      | Some i \<Rightarrow>
          let name = take i e; domain = drop (Suc i) e in
          name \<noteq> [] \<and> alnum (hd name) \<and> length name \<le> 64 \<and> list_all email_local_char (tl name)
          \<and> 1 \<le> length domain \<and> length domain \<le> 255 \<and> list_all email_domain_char domain)"

definition db_dir :: "host_db \<Rightarrow> string" where
  "db_dir h = cf_EmbeddedSSHdHostDbPath (hd_cfg h)"

definition privpath :: "host_db \<Rightarrow> string" where
  "privpath h = db_dir h @ ''.hostkey''"

definition msgpath :: "host_db \<Rightarrow> string" where
  "msgpath h = db_dir h @ ''/msgp.db''"

definition userpath :: "host_db \<Rightarrow> string \<Rightarrow> string" where
  "userpath h username = db_dir h @ ''/users/'' @ username"

definition Rsapath :: "host_db \<Rightarrow> string \<Rightarrow> string" where
  "Rsapath h username = db_dir h @ ''/users/'' @ username @ ''/id_rsa''"

definition toptpath :: "host_db \<Rightarrow> string \<Rightarrow> string" where
  "toptpath h username = db_dir h @ ''/users/'' @ username @ ''/topt''"

definition fileExists :: "disk \<Rightarrow> string \<Rightarrow> bool" where
  "fileExists files name \<longleftrightarrow> files name \<noteq> None"

subsection \<open>The database file\<close>

text \<open>
  \<open>SaveToDisk\<close>: both files are truncated before the database is encoded, so that an error of
  the encoder or of the JSON rendering leaves them as they were then.
\<close>

definition SaveToDisk :: "host_env \<Rightarrow> string \<Rightarrow> host_db_persist \<Rightarrow> disk \<Rightarrow> hd_err option \<times> disk" where
  "SaveToDisk env filepath d files =
     (if \<not> he_open env filepath then (Some (ErrOpen filepath), files)
      else let files1 = files(filepath \<mapsto> []); json = filepath @ ''.json'' in
        if \<not> he_open env json then (Some (ErrOpen json), files1)
        else let files2 = files1(json \<mapsto> []) in
          (case he_marshal env d of
             None \<Rightarrow> (Some ErrMarshal, files2)
           | Some by \<Rightarrow>
               (case he_json env by of
                  None \<Rightarrow> (Some ErrJson, files2)
                | Some js \<Rightarrow> (None, files2(json \<mapsto> js, filepath \<mapsto> by)))))"

text \<open>\<open>HostDb.save\<close>, with the lock taken or not.\<close>

definition save_db :: "host_env \<Rightarrow> host_db \<Rightarrow> hd_err option \<times> host_db" where
  "save_db env h =
     (case SaveToDisk env (msgpath h) (hd_Persist h) (hd_files h) of
        (e, files) \<Rightarrow> (e, h\<lparr>hd_files := files, hd_dbStored := True\<rparr>))"

text \<open>
  \<open>NewFiledb\<close>.  A relative path gets the prefix \<open>./\<close>, which names the same file; the file is
  made when it is missing, then decoded.
\<close>

definition filedb_path :: "string \<Rightarrow> string" where
  "filedb_path p = (if hd p \<noteq> CHR ''/'' \<and> hd p \<noteq> CHR ''.'' then ''./'' @ p else p)"

definition same_file :: "string \<Rightarrow> string" where
  "same_file p = (if HasPrefix p ''./'' then drop 2 p else p)"

definition NewFiledb :: "host_env \<Rightarrow> string \<Rightarrow> disk \<Rightarrow> (hd_err + host_db_persist option) \<times> disk" where
  "NewFiledb env filepath files =
     (if filepath = [] then (Inl ErrEmptyPath, files)
      else let name = same_file (filedb_path filepath) in
        if \<not> he_open env (filedb_path filepath) then (Inl (ErrOpen (filedb_path filepath)), files)
        else let content = (case files name of None \<Rightarrow> [] | Some c \<Rightarrow> c); files1 = files(name \<mapsto> content) in
          (case he_decode env content of
             None \<Rightarrow> (Inl ErrDecode, files1)
           | Some d \<Rightarrow> (Inr d, files1)))"

definition gendir :: "host_env \<Rightarrow> host_db \<Rightarrow> hd_err option" where
  "gendir env h =
     (let path = db_dir h in
      if he_dirExists env path then None
      else if he_mkdir env path then None else Some (ErrMkdir path))"

definition opendb :: "host_env \<Rightarrow> host_db \<Rightarrow> (hd_err option \<times> host_db) go" where
  "opendb env h =
     (if db_dir h = [] then Panic ''opendb() called on empty h.cfg.EmbeddedSSHdHostDbPath''
      else if hd_dbStored h then Ret (None, h)
      else (case gendir env h of
          Some e \<Rightarrow> Ret (Some e, h)
        | None \<Rightarrow>
            (case NewFiledb env (msgpath h) (hd_files h) of
               (Inl e, files) \<Rightarrow> Ret (Some e, h\<lparr>hd_files := files\<rparr>)
             | (Inr None, files) \<Rightarrow> Ret (None, h\<lparr>hd_files := files\<rparr>)
             | (Inr (Some d), files) \<Rightarrow> Ret (None, h\<lparr>hd_files := files, hd_Persist := d\<rparr>))))"

subsection \<open>RSA keys and one-time passwords on disk\<close>

text \<open>\<open>GenRSAKeyPair\<close>: the private key and, with the mail address at its end, the public key.\<close>

definition GenRSAKeyPair :: "host_env \<Rightarrow> string \<Rightarrow> int \<Rightarrow> string \<Rightarrow> disk \<Rightarrow> (pub_key \<times> disk) go" where
  "GenRSAKeyPair env rsaFile bits email files =
     (case he_genRSA env bits of
        None \<Rightarrow> Panic ''panicOn''
      | Some (privBytes, pub) \<Rightarrow>
          if rsaFile = [] then Ret (pub, files)
          else
            let pubBytes0 = MarshalAuthorizedKey pub;
                pubBytes = (if email = [] then pubBytes0
                            else butlast pubBytes0 @ '' '' @ email @ [CHR 0x0A])
            in if he_open env rsaFile \<and> he_open env (rsaFile @ ''.pub'')
               then Ret (pub, files(rsaFile \<mapsto> privBytes, rsaFile @ ''.pub'' \<mapsto> pubBytes))
               else Panic ''panicOn'')"

definition LoadRSAPrivateKey :: "host_env \<Rightarrow> disk \<Rightarrow> string \<Rightarrow> pub_key option" where
  "LoadRSAPrivateKey env files path =
     (case files path of None \<Rightarrow> None | Some buf \<Rightarrow> he_parsePrivate env buf)"

definition LoadRSAPublicKey :: "host_env \<Rightarrow> disk \<Rightarrow> string \<Rightarrow> pub_key option" where
  "LoadRSAPublicKey env files path =
     (case files path of None \<Rightarrow> None | Some buf \<Rightarrow> he_parseAuthorized env buf)"

text \<open>\<open>TOTP.SaveToFile\<close>: the secret, and the QR code when there is one.\<close>

definition SaveToFile :: "host_env \<Rightarrow> string \<times> bytes \<Rightarrow> string \<Rightarrow> disk \<Rightarrow> (hd_err + string) \<times> disk" where
  "SaveToFile env w path files =
     (case w of (url, png) \<Rightarrow>
       if \<not> he_open env path then (Inl (ErrOpen path), files)
       else let files1 = files(path \<mapsto> url @ [CHR 0x0A]) in
         if png = [] then (Inr [], files1)
         else let qrPath = path @ ''-qrcode.png'' in
           if he_open env qrPath then (Inr qrPath, files1(qrPath \<mapsto> png))
           else (Inl (ErrOpen qrPath), files1))"

definition RestoreTotp :: "host_env \<Rightarrow> user \<Rightarrow> user go" where
  "RestoreTotp env u =
     (if us_oneTime u = None \<and> us_TOTPorig u \<noteq> []
      then (if he_urlOk env (us_TOTPorig u) then Ret (u\<lparr>us_oneTime := Some (us_TOTPorig u)\<rparr>) else Panic ''panicOn'')
      else Ret u)"

definition MatchingHashAndPw :: "host_env \<Rightarrow> user \<Rightarrow> string \<Rightarrow> bool" where
  "MatchingHashAndPw env u password = he_compare env (us_ScryptedPassword u) password"

subsection \<open>Opening the database\<close>

definition adoptNewHostKeyFromPath :: "host_env \<Rightarrow> string \<Rightarrow> host_db \<Rightarrow> hd_err option \<times> host_db" where
  "adoptNewHostKeyFromPath env path h =
     (if \<not> fileExists (hd_files h) path then (Some (ErrNoKeyFile path), h)
      else (case LoadRSAPrivateKey env (hd_files h) path of
          None \<Rightarrow> (Some (ErrParseKey path), h)
        | Some pub \<Rightarrow> (None, h\<lparr>hd_HostSshSigner := Some pub,
                                hd_Persist := (hd_Persist h)\<lparr>hp_HostPrivateKeyPath := path\<rparr>\<rparr>)))"

definition generateHostKey :: "host_env \<Rightarrow> host_db \<Rightarrow> (hd_err option \<times> host_db) go" where
  "generateHostKey env h =
     (case gendir env h of
        Some e \<Rightarrow> Ret (Some e, h)
      | None \<Rightarrow>
          bind_go (GenRSAKeyPair env (privpath h) (cf_BitLenRSAkeys (hd_cfg h)) (he_hostname env) (hd_files h))
            (\<lambda>(signer, files). Ret (None, h\<lparr>hd_files := files, hd_HostSshSigner := Some signer,
               hd_Persist := (hd_Persist h)\<lparr>hp_HostPrivateKeyPath := privpath h\<rparr>\<rparr>)))"

text \<open>The second half of \<open>loadOrCreate\<close>: adopt the key file, which has to be there.\<close>

definition adopt_or_panic :: "host_env \<Rightarrow> host_db \<Rightarrow> (hd_err option \<times> host_db) go" where
  "adopt_or_panic env h =
     (let h1 = h\<lparr>hd_loadedFromDisk := True\<rparr>; path = hp_HostPrivateKeyPath (hd_Persist h1) in
      if fileExists (hd_files h1) path then Ret (adoptNewHostKeyFromPath env path h1)
      else Panic ''missing h.Persist.HostPrivateKeyPath'')"

definition loadOrCreate :: "host_env \<Rightarrow> host_db \<Rightarrow> (hd_err option \<times> host_db) go" where
  "loadOrCreate env h =
     bind_go (opendb env h) (\<lambda>(e1, h1).
     if e1 \<noteq> None then Panic ''panic(err)''
     else let path = hp_HostPrivateKeyPath (hd_Persist h1) in
       if path \<noteq> [] \<and> fileExists (hd_files h1) path then adopt_or_panic env h1
       else bind_go (generateHostKey env h1) (\<lambda>(e2, h2).
         if e2 \<noteq> None then Ret (e2, h2)
         else (case save_db env h2 of (e3, h3) \<Rightarrow>
           if e3 \<noteq> None then Ret (e3, h3) else adopt_or_panic env h3)))"

definition init_db :: "host_env \<Rightarrow> host_db \<Rightarrow> (hd_err option \<times> host_db) go" where
  "init_db env h = loadOrCreate env (h\<lparr>hd_Persist := (hd_Persist h)\<lparr>hp_HostPrivateKeyPath := privpath h\<rparr>\<rparr>)"

definition NewHostDb :: "host_env \<Rightarrow> sshego_config \<Rightarrow> disk \<Rightarrow> (hd_err option \<times> host_db) go" where
  "NewHostDb env cfg files =
     init_db env \<lparr>hd_cfg = cfg, hd_Persist = \<lparr>hp_Users = NewAtomicUserMap, hp_HostPrivateKeyPath = []\<rparr>,
       hd_HostSshSigner = None, hd_loadedFromDisk = False, hd_dbStored = False, hd_files = files\<rparr>"

subsection \<open>Adding and deleting users\<close>

text \<open>\<open>finishUserBuildout\<close> in its three steps: passphrase, one-time password, RSA key.\<close>

definition build_passphrase :: "host_env \<Rightarrow> host_db \<Rightarrow> user \<Rightarrow> user" where
  "build_passphrase env h u =
     (if cf_SkipPassphrase (hd_cfg h) then u else u\<lparr>us_ScryptedPassword := he_scrypt env (us_ClearPw u)\<rparr>)"

definition build_totp :: "host_env \<Rightarrow> host_db \<Rightarrow> user \<Rightarrow> ((string \<times> string) \<times> user \<times> host_db) go" where
  "build_totp env h u =
     (if cf_SkipTOTP (hd_cfg h) then Ret (([], []), u, h)
      else (case he_totp env (us_MyEmail u) (us_MyLogin u @ ''/'' @ us_Issuer u) of
          None \<Rightarrow> Panic ''panic(err)''
        | Some w \<Rightarrow>
            let path = toptpath h (us_MyLogin u) in
            (case SaveToFile env w path (hd_files h) of
               (Inl _, _) \<Rightarrow> Panic ''panicOn''
             | (Inr qrPath, files) \<Rightarrow>
                 Ret ((path, qrPath),
                      u\<lparr>us_TOTPpath := path, us_TOTPorig := fst w, us_oneTime := Some (fst w), us_QrPath := qrPath\<rparr>,
                      h\<lparr>hd_files := files\<rparr>))))"

definition build_rsa :: "host_env \<Rightarrow> host_db \<Rightarrow> user \<Rightarrow> (string \<times> user \<times> host_db) go" where
  "build_rsa env h u =
     (if cf_SkipRSA (hd_cfg h) then Ret ([], u, h)
      else if us_PrivateKeyPath u \<noteq> [] \<and> fileExists (hd_files h) (us_PrivateKeyPath u)
      then Ret (us_PrivateKeyPath u, u, h)
      else let rsaPath = Rsapath h (us_MyLogin u) in
        bind_go (GenRSAKeyPair env rsaPath (cf_BitLenRSAkeys (hd_cfg h)) (us_MyEmail u) (hd_files h))
          (\<lambda>(signer, files). Ret (rsaPath,
             u\<lparr>us_PrivateKeyPath := rsaPath, us_PublicKeyPath := rsaPath @ ''.pub'', us_PublicKey := Some signer\<rparr>,
             h\<lparr>hd_files := files\<rparr>)))"

definition store_user :: "user \<Rightarrow> host_db \<Rightarrow> host_db" where
  "store_user u h = h\<lparr>hd_Persist := (hd_Persist h)\<lparr>hp_Users := Set (us_MyLogin u) u (hp_Users (hd_Persist h))\<rparr>\<rparr>"

text \<open>The three paths, the error of the last save, the user as filled in, the database.\<close>

definition finishUserBuildout :: "host_env \<Rightarrow> user \<Rightarrow> host_db
    \<Rightarrow> ((string \<times> string \<times> string) \<times> hd_err option \<times> user \<times> host_db) go" where
  "finishUserBuildout env u h =
     bind_go (build_totp env h (build_passphrase env h u)) (\<lambda>((toptPath, qrPath), u1, h1).
     bind_go (build_rsa env h1 u1) (\<lambda>(rsaPath, u2, h2).
       let u3 = u2\<lparr>us_ClearPw := []\<rparr> in
       (case save_db env (store_user u3 h2) of
          (e, h3) \<Rightarrow> Ret ((toptPath, qrPath, rsaPath), e, u3, h3))))"

definition AddUser :: "host_env \<Rightarrow> string \<Rightarrow> string \<Rightarrow> string \<Rightarrow> string \<Rightarrow> string \<Rightarrow> string \<Rightarrow> host_db
    \<Rightarrow> ((string \<times> string \<times> string) \<times> hd_err option \<times> host_db) go" where
  "AddUser env mylogin myemail pw issuer fullname extantPrivateKeyPath h =
     (if \<not> ValidLogin mylogin then Ret (([], [], []), Some (ErrBadLogin mylogin), h)
      else if Get2 (hp_Users (hd_Persist h)) mylogin \<noteq> None
      then Ret (([], [], []), Some (ErrUserExists mylogin), h)
      else
        let rsaPath = (if extantPrivateKeyPath \<noteq> [] then extantPrivateKeyPath else Rsapath h mylogin);
            u = NewUser\<lparr>us_MyLogin := mylogin, us_MyEmail := myemail, us_ClearPw := pw, us_Issuer := issuer,
                        us_MyFullname := fullname\<rparr>;
            u' = (if cf_SkipRSA (hd_cfg h) then u
                  else u\<lparr>us_PrivateKeyPath := rsaPath, us_PublicKeyPath := rsaPath @ ''.pub''\<rparr>)
        in bind_go (finishUserBuildout env u' h) (\<lambda>(paths, e, _, h'). Ret (paths, e, h')))"

definition remove_all :: "string \<Rightarrow> disk \<Rightarrow> disk" where
  "remove_all path files = (\<lambda>q. if q = path \<or> HasPrefix q (path @ ''/'') then None else files q)"

definition DelUser :: "host_env \<Rightarrow> string \<Rightarrow> host_db \<Rightarrow> (hd_err option \<times> host_db) go" where
  "DelUser env mylogin h =
     (if \<not> ValidLogin mylogin then Ret (Some (ErrBadLogin mylogin), h)
      else if Get2 (hp_Users (hd_Persist h)) mylogin = None then Ret (Some (ErrUserNotFound mylogin), h)
      else if \<not> he_removeAll env (userpath h mylogin) then Panic ''panicOn''
      else Ret (save_db env (h\<lparr>hd_files := remove_all (userpath h mylogin) (hd_files h),
             hd_Persist := (hd_Persist h)\<lparr>hp_Users := Del mylogin (hp_Users (hd_Persist h))\<rparr>\<rparr>)))"

definition UserExists :: "host_db \<Rightarrow> string \<Rightarrow> bool" where
  "UserExists h mylogin \<longleftrightarrow> Get2 (hp_Users (hd_Persist h)) mylogin \<noteq> None"

subsection \<open>Requests over the command port\<close>

text \<open>
  The two requests the server loop takes from \<^verbatim>\<open>CommandRecv\<close>.  A new user goes straight to
  \<open>finishUserBuildout\<close>, without \<open>ValidLogin\<close> and without a look at the table; an error of the
  save panics.  The reply to a deletion is whether it succeeded.
\<close>

definition serve_add :: "host_env \<Rightarrow> user \<Rightarrow> host_db \<Rightarrow> (user \<times> host_db) go" where
  "serve_add env u h =
     bind_go (finishUserBuildout env u h) (\<lambda>(_, e, u', h').
       if e = None then Ret (u', h') else Panic ''panicOn'')"

definition serve_del :: "host_env \<Rightarrow> user \<Rightarrow> host_db \<Rightarrow> (bool \<times> host_db) go" where
  "serve_del env u h = bind_go (DelUser env (us_MyLogin u) h) (\<lambda>(e, h'). Ret (e = None, h'))"

end
