(* ===== verification/Server_Auth.thy ===== *)
theory Server_Auth
  imports Host_Db Wire
begin

section \<open>Logging in to the embedded server\<close>

text \<open>
  The three-factor login of \<^verbatim>\<open>server.go\<close> (\<^verbatim>\<open>PerAttempt\<close> and its callbacks) inside the
  authentication loop of the ssh library (\<^verbatim>\<open>serverAuthenticate\<close>, \<^verbatim>\<open>pubKeyCache\<close>,
  \<^verbatim>\<open>Challenge\<close> of \<^verbatim>\<open>xcryptossh/server.go\<close>), on the bytes of the packets.

  The state of an attempt is the pair of flags of \<^verbatim>\<open>PerAttempt\<close>, the user database, the packets
  still to be read and those written, the cache of public-key answers and the failure count.
  Writes succeed; reading past the last packet is \<^verbatim>\<open>io.EOF\<close>.  The field \<open>au_proved\<close> is a
  history of the model only: which key or which answers were found right for which login, at
  the two places where the callbacks set a flag.  A callback of this server never returns permissions, so the
  source-address check of the loop has nothing to check.

  Code outside the repository and cryptography are fields of \<open>auth_env\<close>: the parser and the
  signature check of public keys, and the clock and
  its rendering.
\<close>

subsection \<open>State\<close>

record auth_env =
  ae_host :: host_env
  ae_now :: int
  ae_formatTime :: "int \<Rightarrow> string"
  ae_parseKey :: "bytes \<Rightarrow> pub_key option"
  ae_verify :: "pub_key \<Rightarrow> bytes \<Rightarrow> string \<times> bytes \<Rightarrow> bool"
  ae_sessionID :: bytes
  ae_remote :: string
  ae_MaxAuthTries :: int

datatype auth_err =
    UnknownKey string | BadLogin string | KeyFail | NoAuthPassed | NotConfigured string | UnknownMethod string
  | AlgoNotAccepted string

datatype factor_proof = ProvedKey string bytes | ProvedCode string "string list"

record cached_key =
  ck_user :: string
  ck_data :: bytes
  ck_result :: "auth_err option"

record auth_state =
  au_PublicKeyOK :: bool
  au_OneTimeOK :: bool
  au_db :: host_db
  au_in :: "bytes list"
  au_out :: "bytes list"
  au_cache :: "cached_key list"
  au_failures :: int
  au_user :: string
  au_proved :: "factor_proof list"

subsection \<open>Challenges\<close>

text \<open>The answers of a packet: so many strings and nothing after them.\<close>

fun parse_answers :: "nat \<Rightarrow> bytes \<Rightarrow> string list option" where
  "parse_answers 0 packet = (if packet = [] then Some [] else None)"
| "parse_answers (Suc n) packet =
     (case parseString packet of
        None \<Rightarrow> None
      | Some (ans, rest) \<Rightarrow> map_option (Cons ans) (parse_answers n rest))"

definition info_request :: "string \<Rightarrow> (string \<times> bool) list \<Rightarrow> bytes" where
  "info_request instruction qs =
     Marshal userAuthInfoRequestMsg
       [VStr [], VStr instruction, VStr [], VU32 (word_of_nat (length qs)),
        VBytes (fold (\<lambda>(q, e) out. appendBool (appendString out q) e) qs [])]"

definition Challenge :: "string \<Rightarrow> (string \<times> bool) list \<Rightarrow> auth_state \<Rightarrow> (string list option \<times> auth_state) go" where
  "Challenge instruction qs st =
     (let st1 = st\<lparr>au_out := au_out st @ [info_request instruction qs]\<rparr> in
      case au_in st1 of
        [] \<Rightarrow> Ret (None, st1)
      | packet # later \<Rightarrow>
          let st2 = st1\<lparr>au_in := later\<rparr> in
          (case packet of
             [] \<Rightarrow> Panic ''index out of range''
           | c # body \<Rightarrow>
               if of_char c \<noteq> (61 :: nat) then Ret (None, st2)
               else (case parseUint32 body of
                   None \<Rightarrow> Ret (None, st2)
                 | Some (n, body1) \<Rightarrow>
                     if unat n \<noteq> length qs then Ret (None, st2) else Ret (parse_answers (unat n) body1, st2))))"

subsection \<open>The callbacks of an attempt\<close>

text \<open>\<open>SetupAuthRequirements\<close>: a factor that is switched off counts as passed.\<close>

definition pk_enabled :: "sshego_config \<Rightarrow> bool" where
  "pk_enabled cfg \<longleftrightarrow> \<not> cf_SkipRSA cfg"

definition ki_enabled :: "sshego_config \<Rightarrow> bool" where
  "ki_enabled cfg \<longleftrightarrow> \<not> (cf_SkipPassphrase cfg \<and> cf_SkipTOTP cfg)"

definition SetupAuthRequirements :: "host_db \<Rightarrow> bytes list \<Rightarrow> auth_state" where
  "SetupAuthRequirements h packets =
     \<lparr>au_PublicKeyOK = cf_SkipRSA (hd_cfg h),
      au_OneTimeOK = (cf_SkipPassphrase (hd_cfg h) \<and> cf_SkipTOTP (hd_cfg h)),
      au_db = h, au_in = packets, au_out = [], au_cache = [], au_failures = 0, au_user = [], au_proved = []\<rparr>"

definition put_user :: "user \<Rightarrow> string \<Rightarrow> auth_state \<Rightarrow> auth_state" where
  "put_user u l st = st\<lparr>au_db := (au_db st)\<lparr>hd_Persist := (hd_Persist (au_db st))
     \<lparr>hp_Users := Set l u (hp_Users (hd_Persist (au_db st)))\<rparr>\<rparr>\<rparr>"

definition save_users :: "auth_env \<Rightarrow> auth_state \<Rightarrow> auth_state" where
  "save_users env st = st\<lparr>au_db := snd (save_db (ae_host env) (au_db st))\<rparr>"

definition zero_record :: login_record where
  "zero_record = \<lparr>lr_FirstTm = 0, lr_LastTm = 0, lr_SeenCount = 0, lr_AcceptedCount = 0, lr_PubFinger = []\<rparr>"

text \<open>The record of a key that was offered, as the deferred function of \<open>PublicKeyCallback\<close> stores it.\<close>

definition note_key :: "auth_env \<Rightarrow> bool \<Rightarrow> bytes \<Rightarrow> user \<Rightarrow> user" where
  "note_key env accepted k u =
     (let r = (case us_SeenPubKey u k of None \<Rightarrow> zero_record | Some r \<Rightarrow> r);
          r1 = r\<lparr>lr_LastTm := ae_now env, lr_FirstTm := (if lr_FirstTm r = 0 then ae_now env else lr_FirstTm r),
                 lr_SeenCount := lr_SeenCount r + 1\<rparr>;
          r2 = (if accepted then r1\<lparr>lr_AcceptedCount := lr_AcceptedCount r1 + 1\<rparr> else r1)
      in u\<lparr>us_SeenPubKey := (us_SeenPubKey u)(k \<mapsto> r2)\<rparr>)"

text \<open>The key on file of a user is the given one; a file that cannot be read or parsed matches nothing.\<close>

definition key_on_file :: "auth_env \<Rightarrow> host_db \<Rightarrow> user \<Rightarrow> bytes \<Rightarrow> bool" where
  "key_on_file env h u k \<longleftrightarrow>
     (case LoadRSAPublicKey (ae_host env) (hd_files h) (us_PublicKeyPath u) of
        None \<Rightarrow> False | Some onfile \<Rightarrow> pk_Marshal onfile = k)"

definition PublicKeyCallback :: "auth_env \<Rightarrow> pub_key \<Rightarrow> auth_state \<Rightarrow> auth_err option \<times> auth_state" where
  "PublicKeyCallback env key st =
     (let login = au_user st; h = au_db st; unknown = Some (UnknownKey login) in
      if \<not> ValidLogin login then (Some (BadLogin login), st)
      else (case Get2 (hp_Users (hd_Persist h)) login of
          None \<Rightarrow> (unknown, st)
        | Some u \<Rightarrow>
            let match = key_on_file env h u (pk_Marshal key);
                st1 = (if match then st\<lparr>au_PublicKeyOK := True, au_proved := ProvedKey login (pk_Marshal key) # au_proved st\<rparr> else st);
                rerr = (if match \<and> au_OneTimeOK st1 then None else unknown);
                st2 = save_users env (put_user (note_key env match (pk_Marshal key) u) login st1)
            in (if au_PublicKeyOK st2 \<and> au_OneTimeOK st2 then None else rerr, st2)))"

definition questions :: "sshego_config \<Rightarrow> (string \<times> bool) list" where
  "questions cfg =
     (if cf_SkipPassphrase cfg then [] else [(''password: '', False)])
     @ (if cf_SkipTOTP cfg then [] else [(''google-authenticator-code: '', True)])"

text \<open>\<open>TOTP.IsValid\<close>; without a key the method call dereferences a nil pointer.\<close>

definition code_valid :: "auth_env \<Rightarrow> user \<Rightarrow> string \<Rightarrow> bool go" where
  "code_valid env u code =
     (if code = [] then Ret False
      else (case us_oneTime u of
          None \<Rightarrow> Panic ''nil pointer dereference''
        | Some key \<Rightarrow> Ret (he_totpValid (ae_host env) code key)))"

definition NoteLogin :: "auth_env \<Rightarrow> user \<Rightarrow> string \<Rightarrow> auth_state \<Rightarrow> auth_state" where
  "NoteLogin env u login st =
     save_users env (put_user (u\<lparr>us_LastLoginTime := ae_now env, us_LastLoginAddr := ae_remote env\<rparr>) login st)"

definition last_login_text :: "auth_env \<Rightarrow> user \<Rightarrow> string" where
  "last_login_text env u =
     ''last login was at '' @ ae_formatTime env (us_LastLoginTime u) @ '', from '' @ [CHR 0x27] @ us_LastLoginAddr u @ [CHR 0x27]"

text \<open>The second half of \<open>KeyboardInteractiveCallback\<close>: both answers were checked.\<close>

definition interactive_verdict :: "auth_env \<Rightarrow> user \<Rightarrow> string list \<Rightarrow> bool \<Rightarrow> auth_state \<Rightarrow> (auth_err option \<times> auth_state) go" where
  "interactive_verdict env u ans ok st =
     (let login = au_user st in
      if \<not> ok then Ret (Some KeyFail, st)
      else let st1 = st\<lparr>au_OneTimeOK := True, au_proved := ProvedCode login ans # au_proved st\<rparr> in
        if \<not> au_PublicKeyOK st1 then Ret (Some KeyFail, st1)
        else bind_go (Challenge (last_login_text env u) [] st1) (\<lambda>(_, st2). Ret (None, NoteLogin env u login st2)))"

definition KeyboardInteractiveCallback :: "auth_env \<Rightarrow> auth_state \<Rightarrow> (auth_err option \<times> auth_state) go" where
  "KeyboardInteractiveCallback env st =
     (let cfg = hd_cfg (au_db st); login = au_user st; found = Get2 (hp_Users (hd_Persist (au_db st))) login in
      if cf_SkipPassphrase cfg \<and> cf_SkipTOTP cfg
      then Panic ''should not be in the KeyboardInteractiveCallback at all!''
      else bind_go (Challenge (''login for '' @ login @ '':'') (questions cfg) st) (\<lambda>(answers, st1).
        case answers of
          None \<Rightarrow> Ret (Some KeyFail, st1)
        | Some ans \<Rightarrow>
            (case found of
               None \<Rightarrow> Ret (Some KeyFail, st1)
             | Some u0 \<Rightarrow>
                 let firstPassOK = (cf_SkipPassphrase cfg \<or> MatchingHashAndPw (ae_host env) u0 (ans ! 0));
                     totpIdx = (if cf_SkipPassphrase cfg then 0 else 1)
                 in bind_go (RestoreTotp (ae_host env) u0) (\<lambda>u.
                    let st2 = put_user u login st1 in
                    bind_go (if cf_SkipTOTP cfg then Ret True else code_valid env u (ans ! totpIdx)) (\<lambda>timeOK.
                      interactive_verdict env u ans (firstPassOK \<and> timeOK) st2)))))"

definition AuthLogCallback :: "string \<Rightarrow> auth_err option \<Rightarrow> auth_state \<Rightarrow> auth_state" where
  "AuthLogCallback method err st =
     (if err \<noteq> None then st
      else if method = ''keyboard-interactive'' then st\<lparr>au_OneTimeOK := True\<rparr>
      else if method = ''publickey'' then st\<lparr>au_PublicKeyOK := True\<rparr>
      else st)"

subsection \<open>The cache of public-key answers\<close>

definition maxCachedPubKeys :: nat where
  "maxCachedPubKeys = 16"

fun cache_get :: "cached_key list \<Rightarrow> string \<Rightarrow> bytes \<Rightarrow> cached_key option" where
  "cache_get [] u k = None"
| "cache_get (c # cs) u k = (if ck_user c = u \<and> ck_data c = k then Some c else cache_get cs u k)"

definition cache_add :: "cached_key \<Rightarrow> cached_key list \<Rightarrow> cached_key list" where
  "cache_add c cs = (if length cs < maxCachedPubKeys then cs @ [c] else cs)"

definition candidate :: "auth_env \<Rightarrow> pub_key \<Rightarrow> bytes \<Rightarrow> auth_state \<Rightarrow> auth_err option \<times> auth_state" where
  "candidate env key data st =
     (case cache_get (au_cache st) (au_user st) data of
        Some c \<Rightarrow> (ck_result c, st)
      | None \<Rightarrow>
          (case PublicKeyCallback env key st of (r, st1) \<Rightarrow>
             (r, st1\<lparr>au_cache := cache_add \<lparr>ck_user = au_user st, ck_data = data, ck_result = r\<rparr> (au_cache st1)\<rparr>)))"

subsection \<open>The loop\<close>

definition isAcceptableAlgo :: "string \<Rightarrow> bool" where
  "isAcceptableAlgo algo \<longleftrightarrow>
     algo \<in> set [''ssh-rsa'', ''ssh-dss'', ''ecdsa-sha2-nistp256'', ''ecdsa-sha2-nistp384'', ''ecdsa-sha2-nistp521'',
       ''ssh-ed25519'', ''ssh-rsa-cert-v01@openssh.com'', ''ssh-dss-cert-v01@openssh.com'',
       ''ecdsa-sha2-nistp256-cert-v01@openssh.com'', ''ecdsa-sha2-nistp384-cert-v01@openssh.com'',
       ''ecdsa-sha2-nistp521-cert-v01@openssh.com'']"

definition parseSignatureBody :: "bytes \<Rightarrow> ((string \<times> bytes) \<times> bytes) option" where
  "parseSignatureBody inp =
     (case parseString inp of
        None \<Rightarrow> None
      | Some (format, inp1) \<Rightarrow>
          (case parseString inp1 of None \<Rightarrow> None | Some (blob, inp2) \<Rightarrow> Some ((format, blob), inp2)))"

definition parseSignature :: "bytes \<Rightarrow> ((string \<times> bytes) \<times> bytes) option" where
  "parseSignature inp =
     (case parseString inp of
        None \<Rightarrow> None
      | Some (sigBytes, rest) \<Rightarrow>
          (case parseSignatureBody sigBytes of
             None \<Rightarrow> None
           | Some (out, trailing) \<Rightarrow> if trailing \<noteq> [] then None else Some (out, rest)))"

definition signed_data_schema :: schema where
  "signed_data_schema = \<lparr>sc_tags = [], sc_fields = [KBytes, KU8, KString, KString, KString, KBool, KBytes, KBytes]\<rparr>"

definition buildDataSignedForAuth :: "bytes \<Rightarrow> string \<Rightarrow> string \<Rightarrow> string \<Rightarrow> bytes \<Rightarrow> bytes \<Rightarrow> bytes" where
  "buildDataSignedForAuth sessionId user service method algo pubKey =
     Marshal signed_data_schema
       [VBytes sessionId, VU8 (char_of (50 :: nat)), VStr user, VStr service, VStr method, VBool True,
        VBytes algo, VBytes pubKey]"

text \<open>What one request leads to: a verdict, a query answered with yes, or the end of the connection.\<close>

datatype verdict = Verdict "auth_err option" | QueryOK string bytes | Abort

definition try_publickey :: "auth_env \<Rightarrow> string \<Rightarrow> string \<Rightarrow> bytes \<Rightarrow> auth_state \<Rightarrow> verdict \<times> auth_state" where
  "try_publickey env service method payload st =
     (if \<not> pk_enabled (hd_cfg (au_db st)) then (Verdict (Some (NotConfigured ''publickey'')), st)
      else (case payload of
          [] \<Rightarrow> (Abort, st)
        | q # payload1 \<Rightarrow>
            (case parseString payload1 of
               None \<Rightarrow> (Abort, st)
             | Some (algo, payload2) \<Rightarrow>
                 if \<not> isAcceptableAlgo algo then (Verdict (Some (AlgoNotAccepted algo)), st)
                 else (case parseString payload2 of
                     None \<Rightarrow> (Abort, st)
                   | Some (data, payload3) \<Rightarrow>
                       (case ae_parseKey env data of
                          None \<Rightarrow> (Abort, st)
                        | Some key \<Rightarrow>
                            (case candidate env key data st of (result, st1) \<Rightarrow>
                               if q = CHR 0x00 then
                                 (if payload3 \<noteq> [] then (Abort, st1)
                                  else if result = None then (QueryOK algo data, st1)
                                  else (Verdict result, st1))
                               else
                                 (case parseSignature payload3 of
                                    None \<Rightarrow> (Abort, st1)
                                  | Some (sig, rest) \<Rightarrow>
                                      if rest \<noteq> [] then (Abort, st1)
                                      else if \<not> isAcceptableAlgo (fst sig) then (Verdict (Some NoAuthPassed), st1)
                                      else if \<not> ae_verify env key
                                          (buildDataSignedForAuth (ae_sessionID env) (au_user st) service method algo data) sig
                                        then (Abort, st1)
                                      else (Verdict result, st1))))))))"

text \<open>The switch over the method; the server configures neither passwords nor logins without authentication.\<close>

definition try_method :: "auth_env \<Rightarrow> string \<Rightarrow> string \<Rightarrow> bytes \<Rightarrow> auth_state \<Rightarrow> (verdict \<times> auth_state) go" where
  "try_method env service method payload st =
     (if method = ''none'' then
        Ret (Verdict (Some NoAuthPassed), if au_failures st = 0 then st\<lparr>au_failures := au_failures st - 1\<rparr> else st)
      else if method = ''password'' then Ret (Verdict (Some (NotConfigured ''password'')), st)
      else if method = ''keyboard-interactive'' then
        (if \<not> ki_enabled (hd_cfg (au_db st)) then Ret (Verdict (Some (NotConfigured ''keyboard-interactive'')), st)
         else bind_go (KeyboardInteractiveCallback env st) (\<lambda>(e, st1). Ret (Verdict e, st1)))
      else if method = ''publickey'' then Ret (try_publickey env service method payload st)
      else Ret (Verdict (Some (UnknownMethod method)), st))"

definition failure_message :: "sshego_config \<Rightarrow> bytes" where
  "failure_message cfg =
     Marshal userAuthFailureMsg
       [VNames ((if pk_enabled cfg then [''publickey''] else []) @ (if ki_enabled cfg then [''keyboard-interactive''] else [])),
        VBool False]"

definition send :: "bytes \<Rightarrow> auth_state \<Rightarrow> auth_state" where
  "send packet st = st\<lparr>au_out := au_out st @ [packet]\<rparr>"

datatype auth_result = LoggedIn string | Refused

text \<open>The request of a packet: user, service, method and payload; None when it does not unmarshal.\<close>

definition auth_request :: "bytes \<Rightarrow> (string \<times> string \<times> string \<times> bytes) option" where
  "auth_request packet =
     (case Unmarshal userAuthRequestMsg packet of
        Inr [VStr user, VStr service, VStr method, VBytes payload] \<Rightarrow> Some (user, service, method, payload)
      | _ \<Rightarrow> None)"

text \<open>The end of a turn: the log callback, then success, or the count and the failure message.\<close>

definition finish_turn :: "string \<Rightarrow> string \<Rightarrow> verdict \<Rightarrow> auth_state \<Rightarrow> auth_result option \<times> auth_state" where
  "finish_turn user method v st =
     (case v of
        Abort \<Rightarrow> (Some Refused, st)
      | QueryOK algo data \<Rightarrow> (None, send (Marshal userAuthPubKeyOkMsg [VStr algo, VBytes data]) st)
      | Verdict err \<Rightarrow>
          let st1 = AuthLogCallback method err st in
          if err = None then (Some (LoggedIn user), send [char_of (52 :: nat)] st1)
          else let st2 = st1\<lparr>au_failures := au_failures st1 + 1\<rparr>; cfg = hd_cfg (au_db st2) in
            if \<not> pk_enabled cfg \<and> \<not> ki_enabled cfg then (Some Refused, st2)
            else (None, send (failure_message cfg) st2))"

text \<open>One turn of \<open>userAuthLoop\<close>: a result, or the state for the next turn.\<close>

definition auth_turn :: "auth_env \<Rightarrow> auth_state \<Rightarrow> (auth_result option \<times> auth_state) go" where
  "auth_turn env st =
     (if ae_MaxAuthTries env \<le> au_failures st \<and> 0 < ae_MaxAuthTries env
      then Ret (Some Refused, send (Marshal disconnectMsg
             [VU32 2, VStr ''too many authentication failures'', VStr []]) st)
      else (case au_in st of
          [] \<Rightarrow> Ret (Some Refused, st)
        | packet # later \<Rightarrow>
            let st1 = st\<lparr>au_in := later\<rparr> in
            (case auth_request packet of
               None \<Rightarrow> Ret (Some Refused, st1)
             | Some (user, service, method, payload) \<Rightarrow>
                 if service \<noteq> ''ssh-connection'' then Ret (Some Refused, st1)
                 else bind_go (try_method env service method payload (st1\<lparr>au_user := user\<rparr>))
                   (\<lambda>(v, st2). Ret (finish_turn user method v st2)))))"

text \<open>The loop, with fuel: each turn reads a packet, so one more than the packets to come is enough.\<close>

fun auth_loop :: "auth_env \<Rightarrow> nat \<Rightarrow> auth_state \<Rightarrow> (auth_result \<times> auth_state) go" where
  "auth_loop env 0 st = Hang"
| "auth_loop env (Suc n) st =
     bind_go (auth_turn env st) (\<lambda>(r, st').
       case r of None \<Rightarrow> auth_loop env n st' | Some res \<Rightarrow> Ret (res, st'))"

definition default_tries :: "int \<Rightarrow> int" where
  "default_tries n = (if n = 0 then 6 else n)"

text \<open>
  \<open>PerConnection\<close> up to the end of \<open>NewServerConn\<close>: with every factor switched off the handshake
  is refused; else the loop runs on the packets of the client.
\<close>

definition serverAuthenticate :: "auth_env \<Rightarrow> host_db \<Rightarrow> bytes list \<Rightarrow> (auth_result \<times> auth_state) go" where
  "serverAuthenticate env h packets =
     (let st = SetupAuthRequirements h packets in
      if \<not> pk_enabled (hd_cfg h) \<and> \<not> ki_enabled (hd_cfg h) then Ret (Refused, st)
      else auth_loop (env\<lparr>ae_MaxAuthTries := default_tries (ae_MaxAuthTries env)\<rparr>) (Suc (length packets)) st)"

end
