(* ===== verification/Host_Db_Proofs.thy ===== *)
theory Host_Db_Proofs
  imports Host_Db
begin

section \<open>The user database: lookups, files, the image on disk\<close>

text \<open>
  What the operations of \<open>Host_Db\<close> do to the table, to the files of the users and to the
  database file.
\<close>

subsection \<open>Logins and paths\<close>

lemma ValidLogin_chars: "ValidLogin l \<Longrightarrow> c \<in> set l \<Longrightarrow> login_char c"
  by (auto simp: ValidLogin_def login_char_def list_all_iff split: list.splits)

lemma ValidLogin_safe:
  assumes "ValidLogin l"
  shows "l \<noteq> []" "CHR ''/'' \<notin> set l" "CHR ''.'' \<notin> set l" "length l \<le> 32"
proof -
  show "l \<noteq> []" "length l \<le> 32" using assms by (auto simp: ValidLogin_def split: list.splits)
  have "\<not> login_char CHR ''/''" "\<not> login_char CHR ''.''"
    by (simp_all add: login_char_def lower_letter_def is_digit_def)
  then show "CHR ''/'' \<notin> set l" "CHR ''.'' \<notin> set l" using ValidLogin_chars [OF assms] by blast+
qed

text \<open>The files of a user: the paths below the directory of that login.\<close>

definition under :: "string \<Rightarrow> string \<Rightarrow> bool" where
  "under dir q \<longleftrightarrow> HasPrefix q (dir @ ''/'')"

lemma under_append [simp]: "under d (d @ CHR ''/'' # r)"
  unfolding under_def HasPrefix_iff by (rule exI [of _ r]) simp

lemma user_files_under:
  "under (userpath h l) (Rsapath h l)" "under (userpath h l) (Rsapath h l @ ''.pub'')"
  "under (userpath h l) (toptpath h l)" "under (userpath h l) (toptpath h l @ ''-qrcode.png'')"
  by (simp_all add: under_def HasPrefix_iff userpath_def Rsapath_def toptpath_def)

lemma split_at_first:
  "c \<notin> set a \<Longrightarrow> c \<notin> set b \<Longrightarrow> a @ c # r = b @ c # s \<Longrightarrow> a = b"
proof (induction a arbitrary: b)
  case Nil
  then show ?case by (cases b) auto
next
  case (Cons x a)
  then show ?case by (cases b) auto
qed

text \<open>Directories of different logins share no file.\<close>

lemma under_userpath_unique:
  assumes "CHR ''/'' \<notin> set l" "CHR ''/'' \<notin> set k" "under (userpath h l) q" "under (userpath h k) q"
  shows "l = k"
proof -
  obtain r where r: "q = (userpath h l @ ''/'') @ r" using assms(3) unfolding under_def HasPrefix_iff by (rule exE)
  obtain s where "q = (userpath h k @ ''/'') @ s" using assms(4) unfolding under_def HasPrefix_iff by (rule exE)
  then have "(userpath h l @ ''/'') @ r = (userpath h k @ ''/'') @ s" by (rule subst [OF r])
  then have "l @ CHR ''/'' # r = k @ CHR ''/'' # s" by (simp add: userpath_def)
  then show ?thesis by (rule split_at_first [OF assms(1,2)])
qed

subsection \<open>What an operation leaves alone\<close>

definition db_files :: "host_db \<Rightarrow> string set" where
  "db_files h = {msgpath h, msgpath h @ ''.json''}"

lemma SaveToDisk_frame:
  "SaveToDisk env f d files = (e, files') \<Longrightarrow> q \<noteq> f \<Longrightarrow> q \<noteq> f @ ''.json'' \<Longrightarrow> files' q = files q"
  by (auto simp: SaveToDisk_def Let_def split: if_splits option.splits)

lemma save_db_simps:
  assumes "save_db env h = (e, h')"
  shows "hd_cfg h' = hd_cfg h" "hd_Persist h' = hd_Persist h" "hd_dbStored h'"
    and "q \<notin> db_files h \<Longrightarrow> hd_files h' q = hd_files h q"
    and "e = None \<Longrightarrow> \<exists>by. he_marshal env (hd_Persist h) = Some by \<and> hd_files h' (msgpath h) = Some by"
proof -
  obtain files where s: "SaveToDisk env (msgpath h) (hd_Persist h) (hd_files h) = (e, files)"
    and h': "h' = h\<lparr>hd_files := files, hd_dbStored := True\<rparr>"
    using assms by (auto simp: save_db_def split: prod.splits)
  then show "hd_cfg h' = hd_cfg h" "hd_Persist h' = hd_Persist h" "hd_dbStored h'" by simp_all
  show "hd_files h' q = hd_files h q" if "q \<notin> db_files h"
    using SaveToDisk_frame [OF s] that by (simp add: h' db_files_def)
  show "\<exists>by. he_marshal env (hd_Persist h) = Some by \<and> hd_files h' (msgpath h) = Some by" if "e = None"
    using s that by (auto simp: h' SaveToDisk_def Let_def split: if_splits option.splits)
qed

lemma paths_cfg:
  "hd_cfg h' = hd_cfg h \<Longrightarrow> msgpath h' = msgpath h"
  "hd_cfg h' = hd_cfg h \<Longrightarrow> userpath h' l = userpath h l"
  "hd_cfg h' = hd_cfg h \<Longrightarrow> db_files h' = db_files h"
  by (simp_all add: msgpath_def userpath_def db_dir_def db_files_def)

lemma build_passphrase_simps:
  "us_MyLogin (build_passphrase env h u) = us_MyLogin u"
  "us_PrivateKeyPath (build_passphrase env h u) = us_PrivateKeyPath u"
  "\<not> cf_SkipPassphrase (hd_cfg h) \<Longrightarrow> us_ScryptedPassword (build_passphrase env h u) = he_scrypt env (us_ClearPw u)"
  by (simp_all add: build_passphrase_def)

lemma SaveToFile_frame:
  "SaveToFile env w p files = (r, files') \<Longrightarrow> q \<noteq> p \<Longrightarrow> q \<noteq> p @ ''-qrcode.png'' \<Longrightarrow> files' q = files q"
  by (auto simp: SaveToFile_def Let_def split: if_split_asm prod.split_asm)

lemma build_totp_cases:
  assumes "build_totp env h u = Ret (ps, u', h')"
  obtains (skip) "cf_SkipTOTP (hd_cfg h)" "u' = u" "h' = h"
  | (made) url qr files where "u' = u\<lparr>us_TOTPpath := toptpath h (us_MyLogin u), us_TOTPorig := url,
        us_oneTime := Some url, us_QrPath := qr\<rparr>" "h' = h\<lparr>hd_files := files\<rparr>"
      "\<forall>q. \<not> under (userpath h (us_MyLogin u)) q \<longrightarrow> files q = hd_files h q"
proof (cases "cf_SkipTOTP (hd_cfg h)")
  case True
  then show thesis using assms by (intro skip) (simp_all add: build_totp_def)
next
  case False
  let ?p = "toptpath h (us_MyLogin u)"
  obtain w where w: "he_totp env (us_MyEmail u) (us_MyLogin u @ ''/'' @ us_Issuer u) = Some w"
    using assms False by (auto simp: build_totp_def split: option.split_asm)
  obtain r files where sf: "SaveToFile env w ?p (hd_files h) = (r, files)" by fastforce
  moreover obtain qr where "r = Inr qr" using assms False w sf by (cases r) (simp_all add: build_totp_def)
  moreover have "\<forall>q. \<not> under (userpath h (us_MyLogin u)) q \<longrightarrow> files q = hd_files h q"
  proof (intro allI impI)
    fix q assume "\<not> under (userpath h (us_MyLogin u)) q"
    then have "q \<noteq> ?p" "q \<noteq> ?p @ ''-qrcode.png''" using user_files_under(3,4) [of h "us_MyLogin u"] by auto
    then show "files q = hd_files h q" by (rule SaveToFile_frame [OF sf])
  qed
  ultimately show thesis
    using assms False w by (intro made [where url = "fst w" and qr = qr and files = files]) (simp_all add: build_totp_def Let_def)
qed

lemma build_totp_simps:
  assumes "build_totp env h u = Ret (ps, u', h')"
  shows "hd_cfg h' = hd_cfg h" "hd_Persist h' = hd_Persist h" "us_MyLogin u' = us_MyLogin u"
    "us_ScryptedPassword u' = us_ScryptedPassword u" "us_PrivateKeyPath u' = us_PrivateKeyPath u"
    and "\<not> cf_SkipTOTP (hd_cfg h) \<Longrightarrow> us_oneTime u' = Some (us_TOTPorig u')"
    and "\<not> under (userpath h (us_MyLogin u)) q \<Longrightarrow> hd_files h' q = hd_files h q"
  using assms by (cases rule: build_totp_cases; simp)+

lemma GenRSAKeyPair_frame:
  assumes "GenRSAKeyPair env f bits em files = Ret (p, files')" "q \<noteq> f" "q \<noteq> f @ ''.pub''"
  shows "files' q = files q"
  using assms by (auto simp: GenRSAKeyPair_def Let_def split: if_splits option.splits prod.splits)

lemma build_rsa_cases:
  assumes "build_rsa env h u = Ret (p, u', h')"
  obtains (kept) "u' = u" "h' = h"
  | (made) k files where "u' = u\<lparr>us_PrivateKeyPath := Rsapath h (us_MyLogin u),
        us_PublicKeyPath := Rsapath h (us_MyLogin u) @ ''.pub'', us_PublicKey := Some k\<rparr>"
      "h' = h\<lparr>hd_files := files\<rparr>" "\<forall>q. \<not> under (userpath h (us_MyLogin u)) q \<longrightarrow> files q = hd_files h q"
proof (cases "cf_SkipRSA (hd_cfg h) \<or> us_PrivateKeyPath u \<noteq> [] \<and> fileExists (hd_files h) (us_PrivateKeyPath u)")
  case True
  then show thesis using assms by (intro kept) (auto simp: build_rsa_def split: if_split_asm)
next
  case False
  let ?p = "Rsapath h (us_MyLogin u)"
  obtain k files where g: "GenRSAKeyPair env ?p (cf_BitLenRSAkeys (hd_cfg h)) (us_MyEmail u) (hd_files h) = Ret (k, files)"
    using assms False by (auto simp: build_rsa_def bind_go_Ret_iff Let_def)
  moreover have "\<forall>q. \<not> under (userpath h (us_MyLogin u)) q \<longrightarrow> files q = hd_files h q"
  proof (intro allI impI)
    fix q assume "\<not> under (userpath h (us_MyLogin u)) q"
    then have "q \<noteq> ?p" "q \<noteq> ?p @ ''.pub''" using user_files_under(1,2) [of h "us_MyLogin u"] by auto
    then show "files q = hd_files h q" by (rule GenRSAKeyPair_frame [OF g])
  qed
  ultimately show thesis
    using assms False by (intro made [where k = k and files = files]) (auto simp: build_rsa_def Let_def)
qed

lemma build_rsa_simps:
  assumes "build_rsa env h u = Ret (p, u', h')"
  shows "hd_cfg h' = hd_cfg h" "hd_Persist h' = hd_Persist h" "us_MyLogin u' = us_MyLogin u"
    "us_ScryptedPassword u' = us_ScryptedPassword u" "us_oneTime u' = us_oneTime u" "us_TOTPorig u' = us_TOTPorig u"
    and "\<not> under (userpath h (us_MyLogin u)) q \<Longrightarrow> hd_files h' q = hd_files h q"
  using assms by (cases rule: build_rsa_cases; simp)+

text \<open>The outcome of \<open>finishUserBuildout\<close>, in the terms its callers need.\<close>

lemma finishUserBuildout_outcome:
  assumes "finishUserBuildout env u h = Ret (ps, e, u', h')"
  shows "us_MyLogin u' = us_MyLogin u" "us_ClearPw u' = []" "hd_cfg h' = hd_cfg h"
    and "hp_Users (hd_Persist h') = Set (us_MyLogin u) u' (hp_Users (hd_Persist h))"
    and "hp_HostPrivateKeyPath (hd_Persist h') = hp_HostPrivateKeyPath (hd_Persist h)"
    and "\<not> cf_SkipPassphrase (hd_cfg h) \<Longrightarrow> us_ScryptedPassword u' = he_scrypt env (us_ClearPw u)"
    and "\<not> cf_SkipTOTP (hd_cfg h) \<Longrightarrow> us_oneTime u' = Some (us_TOTPorig u')"
    and "\<not> under (userpath h (us_MyLogin u)) q \<Longrightarrow> q \<notin> db_files h \<Longrightarrow> hd_files h' q = hd_files h q"
    and "e = None \<Longrightarrow> \<exists>by. he_marshal env (hd_Persist h') = Some by \<and> hd_files h' (msgpath h') = Some by"
proof -
  obtain tp u1 h1 rp u2 h2 where
    t: "build_totp env h (build_passphrase env h u) = Ret (tp, u1, h1)"
    and r: "build_rsa env h1 u1 = Ret (rp, u2, h2)"
    and u': "u' = u2\<lparr>us_ClearPw := []\<rparr>" and s: "save_db env (store_user u' h2) = (e, h')"
    using assms by (auto simp: finishUserBuildout_def Let_def bind_go_iffs case_pair_Ret_iff)
  note ts = build_totp_simps [OF t] and rs = build_rsa_simps [OF r] and ss = save_db_simps [OF s]
  show "us_MyLogin u' = us_MyLogin u" "us_ClearPw u' = []" "hd_cfg h' = hd_cfg h"
    using ts(1,3) rs(1,3) ss(1) by (simp_all add: u' store_user_def build_passphrase_simps)
  show "hp_Users (hd_Persist h') = Set (us_MyLogin u) u' (hp_Users (hd_Persist h))"
    "hp_HostPrivateKeyPath (hd_Persist h') = hp_HostPrivateKeyPath (hd_Persist h)"
    using ts(2,3) rs(2,3) ss(2) by (simp_all add: u' store_user_def build_passphrase_simps)
  show "us_ScryptedPassword u' = he_scrypt env (us_ClearPw u)" if "\<not> cf_SkipPassphrase (hd_cfg h)"
    using that ts(4) rs(4) by (simp add: u' build_passphrase_simps)
  show "us_oneTime u' = Some (us_TOTPorig u')" if "\<not> cf_SkipTOTP (hd_cfg h)"
    using that ts(6) rs(5,6) by (simp add: u')
  show "hd_files h' q = hd_files h q" if "\<not> under (userpath h (us_MyLogin u)) q" "q \<notin> db_files h"
    using that ts(3,7) rs(7) ss(4) paths_cfg [OF ts(1)] paths_cfg [of "store_user u' h2" h] ts(1) rs(1)
    by (simp add: store_user_def build_passphrase_simps)
  show "\<exists>by. he_marshal env (hd_Persist h') = Some by \<and> hd_files h' (msgpath h') = Some by" if "e = None"
    using ss(5) [OF that] ss(1,2) by (auto simp: msgpath_def db_dir_def)
qed

subsection \<open>Adding a user\<close>

abbreviation users :: "host_db \<Rightarrow> user_map" where
  "users h \<equiv> hp_Users (hd_Persist h)"

text \<open>A returning \<open>AddUser\<close> either refused the login or ran \<open>finishUserBuildout\<close>.\<close>

lemma AddUser_cases:
  assumes "AddUser env l em pw iss nm ext h = Ret (ps, e, h')"
  obtains (refused) "h' = h" "\<not> (ValidLogin l \<and> users h l = None)" "e \<noteq> None"
  | (built) u u' where "ValidLogin l" "users h l = None" "us_MyLogin u = l" "us_ClearPw u = pw"
      "finishUserBuildout env u h = Ret (ps, e, u', h')"
proof (cases "ValidLogin l \<and> users h l = None")
  case True
  let ?r = "if ext \<noteq> [] then ext else Rsapath h l"
  let ?u = "NewUser\<lparr>us_MyLogin := l, us_MyEmail := em, us_ClearPw := pw, us_Issuer := iss, us_MyFullname := nm\<rparr>"
  let ?u' = "if cf_SkipRSA (hd_cfg h) then ?u else ?u\<lparr>us_PrivateKeyPath := ?r, us_PublicKeyPath := ?r @ ''.pub''\<rparr>"
  obtain u' where "finishUserBuildout env ?u' h = Ret (ps, e, u', h')"
    using assms True by (auto simp: AddUser_def Get2_def Let_def bind_go_quad_iff simp del: if_split)
  then show thesis using True by (intro built [where u = ?u' and u' = u']) simp_all
next
  case False
  then show thesis using assms by (intro refused) (auto simp: AddUser_def Get2_def split: if_split_asm)
qed

text \<open>
  A returning \<open>AddUser\<close> on a login that is well formed and free adds exactly one
  user: the entry has that login, no clear-text passphrase, and - unless the factor is
  switched off - a passphrase hash the given passphrase matches and a one-time-password key;
  every other login is looked up as before.
\<close>

lemma AddUser_adds:
  assumes "AddUser env l em pw iss nm ext h = Ret (ps, e, h')" "ValidLogin l" "users h l = None"
    and "\<forall>p. he_compare env (he_scrypt env p) p"
  shows "\<exists>u. Get2 (users h') l = Some u \<and> us_MyLogin u = l \<and> us_ClearPw u = []
     \<and> (cf_SkipPassphrase (hd_cfg h) \<or> MatchingHashAndPw env u pw)
     \<and> (cf_SkipTOTP (hd_cfg h) \<or> us_oneTime u = Some (us_TOTPorig u))
     \<and> (\<forall>l'. l' = l \<or> Get2 (users h') l' = Get2 (users h) l')"
  using assms(1)
proof (cases rule: AddUser_cases)
  case refused
  then show ?thesis using assms(2,3) by simp
next
  case (built u u')
  note f = finishUserBuildout_outcome [OF built(5)]
  show ?thesis
  proof (intro exI [of _ u'] conjI)
    show "Get2 (users h') l = Some u'" using f(4) built(3) by (simp add: amap.get_put)
    show "us_MyLogin u' = l" "us_ClearPw u' = []" using f(1,2) built(3) by simp_all
    show "cf_SkipPassphrase (hd_cfg h) \<or> MatchingHashAndPw env u' pw"
      using f(6) built(4) assms(4) by (cases "cf_SkipPassphrase (hd_cfg h)") (simp_all add: MatchingHashAndPw_def)
    show "cf_SkipTOTP (hd_cfg h) \<or> us_oneTime u' = Some (us_TOTPorig u')" using f(7) by blast
    show "\<forall>l'. l' = l \<or> Get2 (users h') l' = Get2 (users h) l'" using f(4) built(3) by (auto simp: amap.get_put)
  qed
qed

text \<open>
  Confinement.  Whatever \<open>AddUser\<close> is given, the only files it changes are those below the
  directory of the login and the two database files - and it changes nothing when the login
  is refused.
\<close>

lemma AddUser_confined:
  assumes "AddUser env l em pw iss nm ext h = Ret (ps, e, h')" "hd_files h' q \<noteq> hd_files h q"
  shows "ValidLogin l \<and> (under (userpath h l) q \<or> q = msgpath h \<or> q = msgpath h @ ''.json'')"
  using assms(1)
proof (cases rule: AddUser_cases)
  case (built u u')
  have "under (userpath h l) q \<or> q \<in> db_files h"
    using finishUserBuildout_outcome(8) [OF built(5), of q] assms(2) built(3) by blast
  then show ?thesis using built(1) by (auto simp: db_files_def)
qed (use assms(2) in simp)

subsection \<open>Deleting a user\<close>

text \<open>
  C25: \<open>DelUser\<close> on a login of the table removes the entry and every file below its directory,
  and keeps every other entry and every file of every other login; on any other login it
  reports an error and changes nothing.
\<close>

lemma DelUser_removes:
  assumes "DelUser env l h = Ret (e, h')"
  shows "if ValidLogin l \<and> UserExists h l
     then \<not> UserExists h' l \<and> (\<forall>q. \<not> under (userpath h l) q \<or> hd_files h' q = None)
       \<and> (\<forall>k. k = l \<or> Get2 (users h') k = Get2 (users h) k)
       \<and> (\<forall>k q. k = l \<or> CHR ''/'' \<in> set k \<or> \<not> under (userpath h k) q \<or> hd_files h' q = hd_files h q)
     else h' = h \<and> e \<noteq> None"
proof (cases "ValidLogin l \<and> UserExists h l")
  case False
  then show ?thesis using assms by (auto simp: DelUser_def UserExists_def split: if_split_asm)
next
  case True
  let ?h = "h\<lparr>hd_files := remove_all (userpath h l) (hd_files h),
             hd_Persist := (hd_Persist h)\<lparr>hp_Users := Del l (users h)\<rparr>\<rparr>"
  have sv: "save_db env ?h = (e, h')" using assms True by (auto simp: DelUser_def UserExists_def split: if_split_asm)
  note s = save_db_simps [OF sv]
  have u: "users h' = Del l (users h)" using s(2) by simp
  have db: "\<not> under (userpath h k) q" if "q \<in> db_files h" for k q
    using that by (auto simp: db_files_def under_def HasPrefix_iff userpath_def msgpath_def)
  have f: "hd_files h' q = remove_all (userpath h l) (hd_files h) q" if "under (userpath h k) q" for k q
    using s(4) [of q] db that paths_cfg(3) [of ?h h] by auto
  have "hd_files h' q = None" if "under (userpath h l) q" for q
    using f [OF that] that by (simp add: remove_all_def under_def)
  moreover have "hd_files h' q = hd_files h q" if "k \<noteq> l" "CHR ''/'' \<notin> set k" "under (userpath h k) q" for k q
  proof -
    note under_k = that(3)
    have sl: "CHR ''/'' \<notin> set l" using True ValidLogin_safe(2) by blast
    have "\<not> under (userpath h l) q" using under_userpath_unique [OF sl that(2) _ that(3)] that(1) by auto
    moreover have "q \<noteq> userpath h l"
    proof
      assume "q = userpath h l"
      moreover obtain t where "q = (userpath h k @ ''/'') @ t"
        using under_k unfolding under_def HasPrefix_iff by (rule exE)
      ultimately have "userpath h l = (userpath h k @ ''/'') @ t" by (rule subst)
      then have "l = k @ ''/'' @ t" by (simp add: userpath_def)
      then show False using sl by simp
    qed
    ultimately show ?thesis using f [OF that(3)] by (simp add: remove_all_def under_def)
  qed
  moreover have "\<not> UserExists h' l" by (simp add: UserExists_def u amap.get_del)
  moreover have "k = l \<or> Get2 (users h') k = Get2 (users h) k" for k by (simp add: u amap.get_del)
  ultimately show ?thesis using True by simp blast
qed

subsection \<open>The invariant of the table\<close>

text \<open>Every entry is under its own login and holds no clear-text passphrase.\<close>

definition users_ok :: "host_db \<Rightarrow> bool" where
  "users_ok h \<longleftrightarrow> (\<forall>l u. users h l = Some u \<longrightarrow> us_MyLogin u = l \<and> us_ClearPw u = [])"

text \<open>
  The changes a running program makes to its database, in any order: a direct \<open>AddUser\<close> or
  \<open>DelUser\<close>, a request over the command port, a save.  The environment (random salts, the
  state of the disk) may differ at each step.
\<close>

inductive db_step :: "host_db \<Rightarrow> host_db \<Rightarrow> bool" where
  step_add: "AddUser env l em pw iss nm ext h = Ret (ps, e, h') \<Longrightarrow> db_step h h'"
| step_del: "DelUser env l h = Ret (e, h') \<Longrightarrow> db_step h h'"
| step_serve_add: "serve_add env u h = Ret (u', h') \<Longrightarrow> db_step h h'"
| step_serve_del: "serve_del env u h = Ret (ok, h') \<Longrightarrow> db_step h h'"
| step_save: "save_db env h = (e, h') \<Longrightarrow> db_step h h'"

inductive_cases db_stepE: "db_step h h'"

lemma finish_users_ok:
  assumes "finishUserBuildout env u h = Ret (ps, e, u', h')" "users_ok h"
  shows "users_ok h'"
  using finishUserBuildout_outcome(1,2,4) [OF assms(1)] assms(2) by (simp add: users_ok_def Set_def)

lemma DelUser_users_ok:
  assumes "DelUser env l h = Ret (e, h')" "users_ok h"
  shows "users_ok h'"
proof -
  have "h' = h \<or> hd_Persist h' = (hd_Persist h)\<lparr>hp_Users := Del l (users h)\<rparr>"
    using assms(1) save_db_simps(2) by (fastforce simp: DelUser_def split: if_split_asm)
  then show ?thesis using assms(2) by (auto simp: users_ok_def Del_def split: if_split_asm)
qed

lemma db_step_users_ok: "db_step h h' \<Longrightarrow> users_ok h \<Longrightarrow> users_ok h'"
proof (induction rule: db_step.induct)
  case (step_add env l em pw iss nm ext h ps e h')
  then show ?case by (cases rule: AddUser_cases [OF step_add.hyps]) (auto dest: finish_users_ok)
next
  case (step_del env l h e h')
  then show ?case by (auto dest: DelUser_users_ok)
next
  case (step_serve_add env u h u' h')
  then show ?case by (auto simp: serve_add_def bind_go_quad_iff dest: finish_users_ok split: if_split_asm)
next
  case (step_serve_del env u h ok h')
  then show ?case by (auto simp: serve_del_def bind_go_pair_iff dest: DelUser_users_ok)
next
  case (step_save env h e h')
  then show ?case using save_db_simps(2) [OF step_save.hyps] by (simp add: users_ok_def)
qed

text \<open>
  C21: the clear-text passphrase of a user travels over the command port but is never stored:
  along every sequence of additions, deletions, network requests and saves, from any table
  that satisfies it, every entry stays under its own login and without a clear-text
  passphrase.
\<close>

theorem no_clear_passphrase:
  assumes "db_step\<^sup>*\<^sup>* h h'" "users_ok h"
  shows "users_ok h'"
  using assms by (induction rule: rtranclp_induct) (auto dest: db_step_users_ok)

subsection \<open>The image on disk\<close>

text \<open>The database file holds the image of the table in memory.\<close>

definition synced :: "host_env \<Rightarrow> host_db \<Rightarrow> bool" where
  "synced env h \<longleftrightarrow> (case he_marshal env (hd_Persist h) of None \<Rightarrow> False
     | Some by \<Rightarrow> hd_files h (msgpath h) = Some by)"

lemma save_synced: "save_db env h = (None, h') \<Longrightarrow> synced env h'"
  using save_db_simps [of env h None h'] by (auto simp: synced_def msgpath_def db_dir_def)

text \<open>
  An addition or a deletion that reports no error has written the table it leaves in
  memory: the database file holds its image.
\<close>

lemma changes_are_saved:
  assumes "AddUser env l em pw iss nm ext h = Ret (ps, None, h') \<or> DelUser env l h = Ret (None, h')"
  shows "synced env h'"
  using assms
proof
  assume a: "AddUser env l em pw iss nm ext h = Ret (ps, None, h')"
  then show ?thesis
  proof (cases rule: AddUser_cases)
    case (built u u')
    then show ?thesis using finishUserBuildout_outcome(9) [OF built(5)] by (auto simp: synced_def)
  qed simp
next
  assume "DelUser env l h = Ret (None, h')"
  then show ?thesis using save_synced by (auto simp: DelUser_def split: if_split_asm)
qed

text \<open>
  The image holds neither the parsed public key (\<^verbatim>\<open>msg:"-"\<close>) nor the unexported one-time-password
  key; the latter is rebuilt from its url by \<open>RestoreTotp\<close>.
\<close>

definition strip_user :: "user \<Rightarrow> user" where
  "strip_user u = u\<lparr>us_PublicKey := None, us_oneTime := None\<rparr>"

definition strip_db :: "host_db_persist \<Rightarrow> host_db_persist" where
  "strip_db d = d\<lparr>hp_Users := map_option strip_user \<circ> hp_Users d\<rparr>"

lemma msgpath_same_file:
  assumes "db_dir h \<noteq> []" "hd (db_dir h) \<noteq> CHR ''.''"
  shows "same_file (filedb_path (msgpath h)) = msgpath h"
proof -
  have "\<not> HasPrefix (msgpath h) ''./''"
    using assms by (cases "db_dir h") (simp_all add: HasPrefix_def msgpath_def)
  then show ?thesis by (simp add: filedb_path_def same_file_def) (simp add: HasPrefix_def)
qed

text \<open>
  Restart.  When the database file is the image of the table, the encoder and the decoder
  agree up to the fields that are not saved, and the host key file is in place, opening the
  database again restores the table, the path of the host key and the key, changes no file,
  and for every user with a one-time-password url \<open>RestoreTotp\<close> brings the key back.
\<close>

lemma reopen_restores:
  assumes sync: "synced env h"
    and codec: "\<forall>d by. he_marshal env d = Some by \<longrightarrow> he_decode env by = Some (Some (strip_db d))"
    and dir: "db_dir h \<noteq> []" "hd (db_dir h) \<noteq> CHR ''.''" "he_dirExists env (db_dir h)"
    and opens: "he_open env (filedb_path (msgpath h))"
    and key: "hp_HostPrivateKeyPath (hd_Persist h) = kp" "kp \<noteq> []" "hd_files h kp = Some pem"
      "he_parsePrivate env pem = Some pub"
  shows "\<exists>h'. NewHostDb env (hd_cfg h) (hd_files h) = Ret (None, h') \<and> hd_Persist h' = strip_db (hd_Persist h)
     \<and> hd_HostSshSigner h' = Some pub \<and> hd_files h' = hd_files h
     \<and> (\<forall>l u. users h l = Some u \<and> us_TOTPorig u \<noteq> [] \<and> he_urlOk env (us_TOTPorig u) \<longrightarrow>
          (\<exists>u'. users h' l = Some u' \<and> RestoreTotp env u' = Ret (u\<lparr>us_PublicKey := None, us_oneTime := Some (us_TOTPorig u)\<rparr>)))"
proof -
  obtain img where m: "he_marshal env (hd_Persist h) = Some img" "hd_files h (msgpath h) = Some img"
    using sync by (auto simp: synced_def split: option.split_asm)
  let ?h0 = "\<lparr>hd_cfg = hd_cfg h, hd_Persist = \<lparr>hp_Users = NewAtomicUserMap, hp_HostPrivateKeyPath = privpath h\<rparr>,
     hd_HostSshSigner = None, hd_loadedFromDisk = False, hd_dbStored = False, hd_files = hd_files h\<rparr>"
  have p0: "db_dir ?h0 = db_dir h" "msgpath ?h0 = msgpath h" by (simp_all add: db_dir_def msgpath_def)
  have "NewFiledb env (msgpath h) (hd_files h) = (Inr (Some (strip_db (hd_Persist h))), hd_files h)"
    using m codec opens dir msgpath_same_file [OF dir(1,2)] fun_upd_triv [of "hd_files h" "msgpath h"]
    by (simp add: NewFiledb_def Let_def) (simp add: msgpath_def)
  then have op: "opendb env ?h0 = Ret (None, ?h0\<lparr>hd_Persist := strip_db (hd_Persist h)\<rparr>)"
    using dir by (simp add: opendb_def p0 gendir_def Let_def)
  have pp: "init_db env (?h0\<lparr>hd_Persist := \<lparr>hp_Users = NewAtomicUserMap, hp_HostPrivateKeyPath = []\<rparr>\<rparr>)
      = loadOrCreate env ?h0" by (simp add: init_db_def privpath_def db_dir_def)
  let ?h' = "?h0\<lparr>hd_Persist := strip_db (hd_Persist h), hd_loadedFromDisk := True, hd_HostSshSigner := Some pub\<rparr>"
  have "loadOrCreate env ?h0 = Ret (None, ?h')"
    using key by (simp add: loadOrCreate_def op adopt_or_panic_def adoptNewHostKeyFromPath_def fileExists_def
        LoadRSAPrivateKey_def Let_def strip_db_def)
  then have "NewHostDb env (hd_cfg h) (hd_files h) = Ret (None, ?h')" using pp by (simp add: NewHostDb_def)
  then show ?thesis
    by (intro exI [of _ ?h']) (auto simp: strip_db_def strip_user_def RestoreTotp_def)
qed

text \<open>
  A save is not atomic.  \<open>SaveToDisk\<close> truncates the database before it encodes it: when the
  encoding or its JSON rendering fails, the save reports the error, and the file that held
  the last good image is empty.
\<close>

lemma failed_save_empties_database:
  assumes "he_open env (msgpath h)" "he_open env (msgpath h @ ''.json'')"
    and "he_marshal env (hd_Persist h) = None \<or> (\<exists>by. he_marshal env (hd_Persist h) = Some by \<and> he_json env by = None)"
    and "save_db env h = (e, h')"
  shows "e \<noteq> None \<and> hd_files h' (msgpath h) = Some []"
  using assms by (auto simp: save_db_def SaveToDisk_def Let_def)

text \<open>
  A user sent over the command port is not checked.  Whatever its login is - malformed, or
  taken - the request ends with the sent record in the table, the old entry and its
  passphrase replaced; \<open>AddUser\<close> refuses the same request.
\<close>

lemma network_add_unchecked:
  assumes "serve_add env u h = Ret (u', h')" "\<not> ValidLogin (us_MyLogin u) \<or> UserExists h (us_MyLogin u)"
  shows "Get2 (users h') (us_MyLogin u) = Some u'
     \<and> (cf_SkipPassphrase (hd_cfg h) \<or> us_ScryptedPassword u' = he_scrypt env (us_ClearPw u))
     \<and> (\<exists>e. AddUser env (us_MyLogin u) em pw iss nm ext h = Ret (([], [], []), Some e, h))"
proof -
  obtain ps where "finishUserBuildout env u h = Ret (ps, None, u', h')"
    using assms(1) by (auto simp: serve_add_def bind_go_quad_iff split: if_split_asm)
  note f = finishUserBuildout_outcome [OF this]
  have "Get2 (users h') (us_MyLogin u) = Some u'" using f(4) by (simp add: amap.get_put)
  moreover have "cf_SkipPassphrase (hd_cfg h) \<or> us_ScryptedPassword u' = he_scrypt env (us_ClearPw u)"
    using f(6) by (cases "cf_SkipPassphrase (hd_cfg h)") simp_all
  moreover have "\<exists>e. AddUser env (us_MyLogin u) em pw iss nm ext h = Ret (([], [], []), Some e, h)"
    using assms(2) by (auto simp: AddUser_def UserExists_def)
  ultimately show ?thesis by blast
qed

subsection \<open>The theorems on a concrete database\<close>

definition demo_pub :: pub_key where
  "demo_pub = \<lparr>pk_Type = ''ssh-rsa'', pk_Marshal = ''K''\<rparr>"

definition demo_cfg :: sshego_config where
  "demo_cfg = NewSshegoConfig\<lparr>cf_EmbeddedSSHdHostDbPath := ''/d''\<rparr>"

definition demo_stored :: host_db_persist where
  "demo_stored = \<lparr>hp_Users = [''bob'' \<mapsto> NewUser\<lparr>us_MyLogin := ''bob'', us_TOTPorig := ''otpauth://b''\<rparr>],
     hp_HostPrivateKeyPath = ''/d.hostkey''\<rparr>"

text \<open>A database image the demo encoder makes of the stored table only.\<close>

definition demo_henv :: host_env where
  "demo_henv = \<lparr>he_dirExists = (\<lambda>_. True), he_mkdir = (\<lambda>_. True), he_open = (\<lambda>_. True), he_removeAll = (\<lambda>_. True),
     he_hostname = ''h'', he_scrypt = (\<lambda>p. ''s'' @ p), he_compare = (\<lambda>a b. a = ''s'' @ b),
     he_totp = (\<lambda>a i. Some (''otpauth://'' @ a, [])), he_urlOk = (\<lambda>_. True), he_totpValid = (\<lambda>c _. c = ''123456''),
     he_genRSA = (\<lambda>_. Some (''PEM'', demo_pub)), he_parsePrivate = (\<lambda>_. Some demo_pub),
     he_parseAuthorized = (\<lambda>_. Some demo_pub),
     he_marshal = (\<lambda>d. if d = demo_stored then Some ''IMG'' else None), he_json = (\<lambda>_. Some ''{}''),
     he_decode = (\<lambda>_. Some (Some (strip_db demo_stored)))\<rparr>"

definition demo_db :: host_db where
  "demo_db = \<lparr>hd_cfg = demo_cfg, hd_Persist = demo_stored, hd_HostSshSigner = None, hd_loadedFromDisk = True,
     hd_dbStored = True, hd_files = [''/d/msgp.db'' \<mapsto> ''IMG'', ''/d.hostkey'' \<mapsto> ''PEM'',
       ''/d/users/bob/topt'' \<mapsto> ''b'', ''/d/users/bobby/topt'' \<mapsto> ''y'']\<rparr>"

lemmas demo_hd = demo_pub_def demo_cfg_def demo_stored_def demo_henv_def demo_db_def NewSshegoConfig_def
  db_dir_def msgpath_def userpath_def Rsapath_def toptpath_def

lemma demo_valid: "ValidLogin ''al''" "ValidLogin ''bob''" "\<not> ValidLogin ''../x''"
  by (simp_all add: ValidLogin_def lower_letter_def login_char_def)

lemma demo_add_returns:
  "\<exists>ps e h'. AddUser demo_henv ''al'' ''a@b.c'' ''pw'' ''i'' ''n'' [] demo_db = Ret (ps, e, h')
     \<and> hd_files h' ''/d/users/al/id_rsa'' = Some ''PEM''"
  by (simp add: AddUser_def demo_valid finishUserBuildout_def build_passphrase_def build_totp_def build_rsa_def
      SaveToFile_def GenRSAKeyPair_def save_db_def SaveToDisk_def store_user_def fileExists_def Get2_def NewUser_def
      MarshalAuthorizedKey_def Let_def demo_hd split: if_split)

lemma demo_del_returns: "\<exists>h'. DelUser demo_henv ''bob'' demo_db = Ret (Some ErrMarshal, h')"
  by (simp add: DelUser_def demo_valid save_db_def SaveToDisk_def Get2_def Del_def Let_def demo_hd fun_eq_iff)

lemma demo_users_ok: "users_ok demo_db"
  by (simp add: users_ok_def demo_hd NewUser_def)

theorem no_clear_passphrase_witness:
  "\<exists>h' u. db_step\<^sup>*\<^sup>* demo_db h' \<and> users h' ''al'' = Some u \<and> us_ClearPw u = [] \<and> users_ok h'"
proof -
  obtain ps e h' where a: "AddUser demo_henv ''al'' ''a@b.c'' ''pw'' ''i'' ''n'' [] demo_db = Ret (ps, e, h')"
    using demo_add_returns by blast
  then have st: "db_step\<^sup>*\<^sup>* demo_db h'" by (blast intro: step_add)
  have ok: "users_ok h'" by (rule no_clear_passphrase [OF st demo_users_ok])
  obtain u where "users h' ''al'' = Some u"
    using a by (cases rule: AddUser_cases) (auto dest: finishUserBuildout_outcome(4) simp: Set_def demo_valid demo_hd)
  with ok st show ?thesis by (auto simp: users_ok_def)
qed

text \<open>An encoder that knows every table of the demonstration (images are constant).\<close>

definition demo_henv2 :: host_env where
  "demo_henv2 = demo_henv\<lparr>he_marshal := (\<lambda>_. Some ''IMG'')\<rparr>"

text \<open>A login that climbs out of the directory of the users, sent over the command port.\<close>

end
