(* ===== verification/Server_Auth_Proofs.thy ===== *)
theory Server_Auth_Proofs
  imports Server_Auth Host_Db_Proofs Wire_Proofs
begin

section \<open>What a login proves\<close>

text \<open>
  The invariant of the authentication loop (credentials in the database do not change, a flag
  is set only when a factor was found right, an answer is cached as accepted only when both
  were) and its consequences, and four executions that show what the loop lets through.
\<close>

subsection \<open>Credentials stay\<close>

text \<open>The one-time-password key a user is checked against, restored from its url or not.\<close>

definition otp_key :: "user \<Rightarrow> string option" where
  "otp_key u = (case us_oneTime u of Some k \<Rightarrow> Some k | None \<Rightarrow> if us_TOTPorig u = [] then None else Some (us_TOTPorig u))"

definition same_cred :: "user \<Rightarrow> user \<Rightarrow> bool" where
  "same_cred u v \<longleftrightarrow> us_MyLogin v = us_MyLogin u \<and> us_ClearPw v = us_ClearPw u \<and> us_PublicKeyPath v = us_PublicKeyPath u
     \<and> us_ScryptedPassword v = us_ScryptedPassword u \<and> us_TOTPorig v = us_TOTPorig u \<and> otp_key v = otp_key u"

lemma same_cred_refl [simp]: "same_cred u u"
  by (simp add: same_cred_def)

lemma same_cred_trans: "same_cred u v \<Longrightarrow> same_cred v w \<Longrightarrow> same_cred u w"
  by (simp add: same_cred_def)

lemma same_cred_updates [simp]:
  "same_cred u (note_key env a k u)"
  "same_cred u (u\<lparr>us_LastLoginTime := t, us_LastLoginAddr := ad\<rparr>)"
  by (simp_all add: same_cred_def note_key_def Let_def otp_key_def split: option.split)

definition same_visit :: "user \<Rightarrow> user \<Rightarrow> bool" where
  "same_visit u v \<longleftrightarrow> us_LastLoginTime v = us_LastLoginTime u \<and> us_LastLoginAddr v = us_LastLoginAddr u"

lemma same_visit_simps [simp]: "same_visit u u" "same_visit u (note_key env a k u)"
  by (simp_all add: same_visit_def note_key_def Let_def)

lemma same_visit_text: "same_visit u v \<Longrightarrow> last_login_text env v = last_login_text env u"
  by (simp add: same_visit_def last_login_text_def)

lemma RestoreTotp_cred:
  assumes "RestoreTotp env u = Ret v"
  shows "same_cred u v" "us_oneTime v = otp_key u" "same_visit u v"
  using assms by (auto simp: RestoreTotp_def same_cred_def otp_key_def same_visit_def split: if_split_asm option.splits)

text \<open>A database after some logins: the same settings, users with the same credentials, the same files.\<close>

definition evolves :: "host_db \<Rightarrow> host_db \<Rightarrow> bool" where
  "evolves h h' \<longleftrightarrow> hd_cfg h' = hd_cfg h \<and> (\<forall>l. rel_option same_cred (users h l) (users h' l))
     \<and> (\<forall>q. q \<in> db_files h \<or> hd_files h' q = hd_files h q)"

lemma evolves_refl [simp]: "evolves h h"
  by (simp add: evolves_def option.rel_refl)

lemma evolves_user:
  assumes "evolves h h'" "users h' l = Some v"
  obtains u where "users h l = Some u" "same_cred u v"
proof -
  have "rel_option same_cred (users h l) (Some v)" using assms by (metis evolves_def)
  then show thesis using that by (auto simp: option_rel_Some2)
qed

lemma put_user_evolves:
  assumes "evolves h (au_db st)" "users (au_db st) l = Some u" "same_cred u v"
  shows "evolves h (au_db (put_user v l st))"
proof -
  obtain u0 where "users h l = Some u0" "same_cred u0 u" using evolves_user [OF assms(1,2)] .
  then have "rel_option same_cred (users h k) (Set l v (users (au_db st)) k)" for k
    using assms(1,3) same_cred_trans by (auto simp: evolves_def Set_def)
  then show ?thesis using assms(1) by (simp add: evolves_def put_user_def)
qed

lemma save_users_evolves:
  assumes "evolves h (au_db st)"
  shows "evolves h (au_db (save_users env st))"
proof -
  obtain e d where s: "save_db (ae_host env) (au_db st) = (e, d)" by fastforce
  have "db_files (au_db st) = db_files h" using assms by (intro paths_cfg(3)) (simp add: evolves_def)
  then have "q \<in> db_files h \<or> hd_files d q = hd_files h q" for q
    using assms save_db_simps(4) [OF s, of q] unfolding evolves_def by (metis \<open>db_files (au_db st) = db_files h\<close>)
  then show ?thesis using assms save_db_simps(1,2) [OF s] by (simp add: evolves_def save_users_def s)
qed

lemma save_users_Persist: "hd_Persist (au_db (save_users env st)) = hd_Persist (au_db st)"
  by (simp add: save_users_def save_db_def split: prod.split)

lemma state_simps [simp]:
  "au_PublicKeyOK (put_user u l st) = au_PublicKeyOK st" "au_OneTimeOK (put_user u l st) = au_OneTimeOK st"
  "au_in (put_user u l st) = au_in st" "au_cache (put_user u l st) = au_cache st"
  "au_proved (put_user u l st) = au_proved st" "au_user (put_user u l st) = au_user st"
  "au_failures (put_user u l st) = au_failures st" "au_out (put_user u l st) = au_out st"
  "au_PublicKeyOK (save_users env st) = au_PublicKeyOK st" "au_OneTimeOK (save_users env st) = au_OneTimeOK st"
  "au_in (save_users env st) = au_in st" "au_cache (save_users env st) = au_cache st"
  "au_proved (save_users env st) = au_proved st" "au_user (save_users env st) = au_user st"
  "au_failures (save_users env st) = au_failures st" "au_out (save_users env st) = au_out st"
  by (simp_all add: put_user_def save_users_def)

subsection \<open>What the packets offered\<close>

text \<open>The login and the key a public-key request names; the answers of a response packet.\<close>

definition offered_key :: "auth_env \<Rightarrow> bytes \<Rightarrow> (string \<times> bytes) option" where
  "offered_key env p =
     (case auth_request p of
        Some (user, service, method, _ # payload) \<Rightarrow>
          if method \<noteq> ''publickey'' then None
          else (case parseString payload of
              None \<Rightarrow> None
            | Some (_, payload2) \<Rightarrow>
                (case parseString payload2 of
                   None \<Rightarrow> None
                 | Some (data, _) \<Rightarrow> map_option (\<lambda>key. (user, pk_Marshal key)) (ae_parseKey env data)))
      | _ \<Rightarrow> None)"

definition answers_of :: "bytes \<Rightarrow> string list option" where
  "answers_of p =
     (case p of
        [] \<Rightarrow> None
      | _ # body \<Rightarrow> (case parseUint32 body of None \<Rightarrow> None | Some (n, body1) \<Rightarrow> parse_answers (unat n) body1))"

text \<open>The answers that let a user in.\<close>

definition answers_right :: "auth_env \<Rightarrow> host_db \<Rightarrow> user \<Rightarrow> string list \<Rightarrow> bool" where
  "answers_right env h u ans \<longleftrightarrow>
     (let cfg = hd_cfg h; i = (if cf_SkipPassphrase cfg then 0 else 1) in
      (cf_SkipPassphrase cfg \<or> MatchingHashAndPw (ae_host env) u (ans ! 0))
      \<and> (cf_SkipTOTP cfg \<or> (\<exists>key. otp_key u = Some key \<and> ans ! i \<noteq> [] \<and> he_totpValid (ae_host env) (ans ! i) key)))"

text \<open>An entry of the history is backed by a packet and by the database the attempt started with.\<close>

fun backed :: "auth_env \<Rightarrow> host_db \<Rightarrow> bytes list \<Rightarrow> factor_proof \<Rightarrow> bool" where
  "backed env h packets (ProvedKey l k) \<longleftrightarrow>
     ValidLogin l \<and> (\<exists>u. users h l = Some u \<and> key_on_file env h u k)
     \<and> (\<exists>p. p \<in> set packets \<and> offered_key env p = Some (l, k))"
| "backed env h packets (ProvedCode l ans) \<longleftrightarrow>
     (\<exists>u. users h l = Some u \<and> answers_right env h u ans) \<and> (\<exists>p. p \<in> set packets \<and> answers_of p = Some ans)"

definition key_done :: "host_db \<Rightarrow> auth_state \<Rightarrow> bool" where
  "key_done h st \<longleftrightarrow> cf_SkipRSA (hd_cfg h) \<or> (\<exists>l k. ProvedKey l k \<in> set (au_proved st))"

definition code_done :: "host_db \<Rightarrow> auth_state \<Rightarrow> bool" where
  "code_done h st \<longleftrightarrow> \<not> ki_enabled (hd_cfg h) \<or> (\<exists>l ans. ProvedCode l ans \<in> set (au_proved st))"

definition auth_inv :: "auth_env \<Rightarrow> host_db \<Rightarrow> bytes list \<Rightarrow> auth_state \<Rightarrow> bool" where
  "auth_inv env h packets st \<longleftrightarrow>
     evolves h (au_db st) \<and> set (au_in st) \<subseteq> set packets \<and> list_all (backed env h packets) (au_proved st)
     \<and> (au_PublicKeyOK st \<longrightarrow> key_done h st) \<and> (au_OneTimeOK st \<longrightarrow> code_done h st)
     \<and> list_all (\<lambda>c. ck_result c = None \<longrightarrow> key_done h st \<and> code_done h st) (au_cache st)"

text \<open>The public-key files are not the database files, which a login rewrites.\<close>

definition keyfiles_apart :: "host_db \<Rightarrow> bool" where
  "keyfiles_apart h \<longleftrightarrow> (\<forall>l u. users h l = Some u \<longrightarrow> us_PublicKeyPath u \<notin> db_files h)"

lemma key_on_file_evolves:
  assumes "evolves h h'" "keyfiles_apart h" "users h l = Some u" "same_cred u v" "key_on_file env h' v k"
  shows "key_on_file env h u k"
proof -
  have p: "us_PublicKeyPath v = us_PublicKeyPath u" "us_PublicKeyPath u \<notin> db_files h"
    using assms(2-4) by (auto simp: same_cred_def keyfiles_apart_def)
  then have "hd_files h' (us_PublicKeyPath u) = hd_files h (us_PublicKeyPath u)"
    using assms(1) by (auto simp: evolves_def)
  then show ?thesis using assms(5) p by (simp add: key_on_file_def LoadRSAPublicKey_def)
qed

subsection \<open>The callbacks keep the invariant\<close>

lemma done_mono:
  assumes "set (au_proved st) \<subseteq> set (au_proved st')"
  shows "key_done h st \<Longrightarrow> key_done h st'" "code_done h st \<Longrightarrow> code_done h st'"
  using assms by (auto simp: key_done_def code_done_def)

text \<open>A step that only lengthens the history: the cached answers stay justified.\<close>

lemma auth_invI:
  assumes "auth_inv env h P st" "evolves h (au_db st')" "set (au_in st') \<subseteq> set (au_in st)"
    and "list_all (backed env h P) (au_proved st')" "set (au_proved st) \<subseteq> set (au_proved st')"
    and "au_PublicKeyOK st' \<Longrightarrow> au_PublicKeyOK st \<or> key_done h st'"
    and "au_OneTimeOK st' \<Longrightarrow> au_OneTimeOK st \<or> code_done h st'"
    and "au_cache st' = au_cache st"
  shows "auth_inv env h P st'"
proof -
  have k: "au_PublicKeyOK st' \<longrightarrow> key_done h st'"
    using assms(1,6) done_mono(1) [OF assms(5), of h] by (auto simp: auth_inv_def)
  have c: "au_OneTimeOK st' \<longrightarrow> code_done h st'"
    using assms(1,7) done_mono(2) [OF assms(5), of h] by (auto simp: auth_inv_def)
  have "list_all (\<lambda>c. ck_result c = None \<longrightarrow> key_done h st' \<and> code_done h st') (au_cache st')"
    using assms(1,8) done_mono [OF assms(5), of h] by (auto simp: auth_inv_def list_all_iff)
  with k c assms(1-4) show ?thesis by (auto simp: auth_inv_def)
qed

lemma auth_inv_frame:
  assumes "auth_inv env h P st" "au_db st' = au_db st" "set (au_in st') \<subseteq> set (au_in st)"
    "au_proved st' = au_proved st" "au_PublicKeyOK st' = au_PublicKeyOK st" "au_OneTimeOK st' = au_OneTimeOK st"
    "au_cache st' = au_cache st"
  shows "auth_inv env h P st'"
  using assms by (intro auth_invI [OF assms(1)]) (auto simp: auth_inv_def)

lemma PublicKeyCallback_inv:
  assumes inv: "auth_inv env h P st" "keyfiles_apart h"
    and offered: "p \<in> set P" "offered_key env p = Some (au_user st, pk_Marshal key)"
    and call: "PublicKeyCallback env key st = (r, st')"
  shows "auth_inv env h P st' \<and> (r = None \<longrightarrow> key_done h st' \<and> code_done h st')
     \<and> au_in st' = au_in st \<and> au_cache st' = au_cache st"
proof (cases "ValidLogin (au_user st) \<and> users (au_db st) (au_user st) \<noteq> None")
  case False
  then have "st' = st \<and> r \<noteq> None" using call
    by (auto simp: PublicKeyCallback_def Let_def Get2_def split: if_split_asm option.split_asm)
  then show ?thesis using inv by auto
next
  case True
  let ?l = "au_user st"
  obtain u where l: "ValidLogin ?l" and u: "users (au_db st) ?l = Some u" using True by blast
  define match where "match = key_on_file env (au_db st) u (pk_Marshal key)"
  define st1 where "st1 = (if match then st\<lparr>au_PublicKeyOK := True, au_proved := ProvedKey ?l (pk_Marshal key) # au_proved st\<rparr> else st)"
  have st': "st' = save_users env (put_user (note_key env match (pk_Marshal key) u) ?l st1)"
    and r: "r = None \<longrightarrow> match \<and> au_OneTimeOK st1 \<or> au_PublicKeyOK st' \<and> au_OneTimeOK st'"
    using call l u by (auto simp: PublicKeyCallback_def Let_def Get2_def st1_def match_def split: if_split_asm)
  have ev: "evolves h (au_db st1)" using inv(1) by (simp add: auth_inv_def st1_def)
  have "evolves h (au_db st')"
    unfolding st' by (rule save_users_evolves, rule put_user_evolves [OF ev _ same_cred_updates(1)]) (simp add: st1_def u)
  moreover have "backed env h P (ProvedKey ?l (pk_Marshal key))" if match
  proof -
    obtain u0 where u0: "users h ?l = Some u0" "same_cred u0 u"
      using inv(1) u by (auto simp: auth_inv_def elim: evolves_user)
    have "key_on_file env h u0 (pk_Marshal key)"
      by (rule key_on_file_evolves [OF _ inv(2) u0, of "au_db st"])
         (use inv(1) that in \<open>simp_all add: auth_inv_def match_def\<close>)
    then show ?thesis using l u0 offered by auto
  qed
  moreover have fields: "au_in st' = au_in st" "au_cache st' = au_cache st" "au_proved st' = au_proved st1"
    "au_PublicKeyOK st' = (match \<or> au_PublicKeyOK st)" "au_OneTimeOK st' = au_OneTimeOK st"
    by (simp_all add: st' st1_def)
  moreover have "key_done h st'" if match
    using that by (auto simp: key_done_def fields(3) st1_def)
  ultimately have inv': "auth_inv env h P st'"
    using inv(1) by (intro auth_invI [OF inv(1)]) (auto simp: auth_inv_def st1_def)
  moreover have "key_done h st' \<and> code_done h st'" if "r = None"
    using that r inv' fields by (auto simp: auth_inv_def st1_def)
  ultimately show ?thesis using fields by blast
qed

lemma cache_get_mem: "cache_get cs u k = Some c \<Longrightarrow> c \<in> set cs"
  by (induction cs) (auto split: if_split_asm)

lemma candidate_inv:
  assumes inv: "auth_inv env h P st" "keyfiles_apart h"
    and offered: "p \<in> set P" "offered_key env p = Some (au_user st, pk_Marshal key)"
    and call: "candidate env key data st = (r, st')"
  shows "auth_inv env h P st' \<and> (r = None \<longrightarrow> key_done h st' \<and> code_done h st') \<and> au_in st' = au_in st"
proof (cases "cache_get (au_cache st) (au_user st) data")
  case None
  obtain r1 st1 where pk: "PublicKeyCallback env key st = (r1, st1)" by fastforce
  note i = PublicKeyCallback_inv [OF inv offered pk]
  have st': "r = r1" "st' = st1\<lparr>au_cache := cache_add \<lparr>ck_user = au_user st, ck_data = data, ck_result = r\<rparr> (au_cache st1)\<rparr>"
    using call None pk by (auto simp: candidate_def)
  then show ?thesis using i by (auto simp: auth_inv_def key_done_def code_done_def cache_add_def)
next
  case (Some c)
  then have "r = ck_result c" "st' = st" using call by (simp_all add: candidate_def)
  then show ?thesis using inv(1) cache_get_mem [OF Some] by (auto simp: auth_inv_def list_all_iff)
qed

subsection \<open>Challenges\<close>

lemma Challenge_frame:
  assumes "Challenge i qs st = Ret (a, st')"
  shows "au_db st' = au_db st" "set (au_in st') \<subseteq> set (au_in st)" "au_proved st' = au_proved st"
    "au_PublicKeyOK st' = au_PublicKeyOK st" "au_OneTimeOK st' = au_OneTimeOK st" "au_cache st' = au_cache st"
    "au_user st' = au_user st" "au_failures st' = au_failures st" "length (au_in st') \<le> length (au_in st)"
    and "a = Some ans \<Longrightarrow> \<exists>p. p \<in> set (au_in st) \<and> answers_of p = Some ans"
  using assms by (auto simp: Challenge_def Let_def answers_of_def split: list.split_asm if_split_asm option.split_asm)

lemma Challenge_inv:
  assumes "auth_inv env h P st" "Challenge i qs st = Ret (a, st')"
  shows "auth_inv env h P st'"
  using Challenge_frame [OF assms(2)] by (intro auth_inv_frame [OF assms(1)]) simp_all

subsection \<open>The interactive callback keeps the invariant\<close>

lemma NoteLogin_inv:
  assumes "auth_inv env h P st" "users (au_db st) l = Some u"
  shows "auth_inv env h P (NoteLogin env' u l st)"
proof -
  have "evolves h (au_db (NoteLogin env' u l st))"
    unfolding NoteLogin_def
    by (rule save_users_evolves, rule put_user_evolves [OF _ assms(2) same_cred_updates(2)])
       (use assms(1) in \<open>simp add: auth_inv_def\<close>)
  then show ?thesis using assms(1) by (intro auth_invI [OF assms(1)]) (simp_all add: auth_inv_def NoteLogin_def)
qed

lemma interactive_verdict_inv:
  assumes inv: "auth_inv env h P st" and u: "users (au_db st) (au_user st) = Some u"
    and right: "ok \<Longrightarrow> backed env h P (ProvedCode (au_user st) ans)"
    and call: "interactive_verdict env u ans ok st = Ret (r, st')"
  shows "auth_inv env h P st' \<and> (r = None \<longrightarrow> key_done h st' \<and> code_done h st')
     \<and> length (au_in st') \<le> length (au_in st) \<and> au_failures st' = au_failures st"
proof (cases ok)
  case False
  then show ?thesis using call inv by (auto simp: interactive_verdict_def)
next
  case True
  define st1 where "st1 = st\<lparr>au_OneTimeOK := True, au_proved := ProvedCode (au_user st) ans # au_proved st\<rparr>"
  have c1: "code_done h st1" by (auto simp: code_done_def st1_def)
  have inv1: "auth_inv env h P st1"
    using right [OF True] inv c1 by (intro auth_invI [OF inv]) (auto simp: auth_inv_def st1_def)
  show ?thesis
  proof (cases "au_PublicKeyOK st1")
    case False
    then show ?thesis using True call inv1 by (auto simp: interactive_verdict_def st1_def Let_def)
  next
    case pk: True
    obtain a st2 where ch: "Challenge (last_login_text env u) [] st1 = Ret (a, st2)"
      and st': "st' = NoteLogin env u (au_user st) st2" "r = None"
      using call True pk by (auto simp: interactive_verdict_def st1_def Let_def bind_go_pair_iff)
    note f = Challenge_frame [OF ch]
    have "auth_inv env h P st'"
      unfolding st' by (rule NoteLogin_inv [OF Challenge_inv [OF inv1 ch]]) (simp add: f(1) st1_def u)
    moreover have "key_done h st' \<and> code_done h st'"
      using inv1 pk c1 f(3) by (simp add: auth_inv_def key_done_def code_done_def st' NoteLogin_def)
    ultimately show ?thesis using f(8,9) by (simp add: st' NoteLogin_def st1_def)
  qed
qed

lemma KeyboardInteractive_inv:
  assumes inv: "auth_inv env h P st"
    and call: "KeyboardInteractiveCallback env st = Ret (r, st')"
  shows "auth_inv env h P st' \<and> (r = None \<longrightarrow> key_done h st' \<and> code_done h st')
     \<and> length (au_in st') \<le> length (au_in st) \<and> au_failures st' = au_failures st"
proof -
  let ?cfg = "hd_cfg (au_db st)" and ?l = "au_user st"
  let ?i = "if cf_SkipPassphrase ?cfg then 0 else 1 :: nat"
  obtain a st1 where ch: "Challenge (''login for '' @ ?l @ '':'') (questions ?cfg) st = Ret (a, st1)"
    using call by (auto simp: KeyboardInteractiveCallback_def Let_def bind_go_pair_iff split: if_split_asm)
  note f = Challenge_frame [OF ch] and inv1 = Challenge_inv [OF inv ch]
  show ?thesis
  proof (cases "a = None \<or> users (au_db st) ?l = None")
    case True
    then have "st' = st1 \<and> r = Some KeyFail"
      using call ch by (auto simp: KeyboardInteractiveCallback_def Let_def Get2_def split: if_split_asm option.split_asm)
    then show ?thesis using inv1 f by simp
  next
    case False
    then obtain ans u0 where a: "a = Some ans" and u0: "users (au_db st) ?l = Some u0" by auto
    have ns: "\<not> (cf_SkipPassphrase ?cfg \<and> cf_SkipTOTP ?cfg)" using call by (auto simp: KeyboardInteractiveCallback_def Let_def)
    have "bind_go (RestoreTotp (ae_host env) u0) (\<lambda>u.
        bind_go (if cf_SkipTOTP ?cfg then Ret True else code_valid env u (ans ! ?i)) (\<lambda>t.
          interactive_verdict env u ans ((cf_SkipPassphrase ?cfg \<or> MatchingHashAndPw (ae_host env) u0 (ans ! 0)) \<and> t)
            (put_user u ?l st1))) = Ret (r, st')"
      using call unfolding KeyboardInteractiveCallback_def Let_def Get2_def ch if_not_P [OF ns] u0 a by simp
    then obtain u t where u: "RestoreTotp (ae_host env) u0 = Ret u"
      and t: "(if cf_SkipTOTP ?cfg then Ret True else code_valid env u (ans ! ?i)) = Ret t"
      and v: "interactive_verdict env u ans ((cf_SkipPassphrase ?cfg \<or> MatchingHashAndPw (ae_host env) u0 (ans ! 0)) \<and> t)
         (put_user u ?l st1) = Ret (r, st')"
      unfolding bind_go_Ret_iff by blast
    obtain w where w: "users h ?l = Some w" "same_cred w u0"
      using inv u0 by (auto simp: auth_inv_def elim: evolves_user)
    have cfg: "hd_cfg h = ?cfg" using inv by (simp add: auth_inv_def evolves_def)
    have "evolves h (au_db (put_user u ?l st1))"
      by (rule put_user_evolves [OF _ _ RestoreTotp_cred(1) [OF u]]) (use inv1 u0 f(1) in \<open>simp_all add: auth_inv_def\<close>)
    then have inv2: "auth_inv env h P (put_user u ?l st1)"
      using inv1 by (intro auth_invI [OF inv1]) (simp_all add: auth_inv_def)
    have "backed env h P (ProvedCode ?l ans)"
      if "(cf_SkipPassphrase ?cfg \<or> MatchingHashAndPw (ae_host env) u0 (ans ! 0)) \<and> t"
    proof -
      obtain p where "p \<in> set P" "answers_of p = Some ans" using f(10) [OF a] inv by (auto simp: auth_inv_def)
      moreover have "answers_right env h w ans"
        using that t w(2) RestoreTotp_cred [OF u] unfolding answers_right_def cfg
        by (auto simp: Let_def MatchingHashAndPw_def same_cred_def code_valid_def split: if_split_asm option.split_asm)
      ultimately show ?thesis using w(1) by auto
    qed
    then have "auth_inv env h P st' \<and> (r = None \<longrightarrow> key_done h st' \<and> code_done h st')
       \<and> length (au_in st') \<le> length (au_in (put_user u ?l st1)) \<and> au_failures st' = au_failures (put_user u ?l st1)"
      using f(7) by (intro interactive_verdict_inv [OF inv2 _ _ v]) (simp_all add: put_user_def Set_def)
    then show ?thesis using f(8,9) by auto
  qed
qed

subsection \<open>A turn and the loop\<close>

text \<open>A public-key request either stops before the callback or runs it on the offered key.\<close>

lemma try_publickey_cases:
  assumes "try_publickey env service method payload st = (v, st')"
  obtains (early) "st' = st" "v \<noteq> Verdict None" "\<forall>a d. v \<noteq> QueryOK a d"
  | (called) q payload1 algo payload2 data payload3 key r where "payload = q # payload1"
      "parseString payload1 = Some (algo, payload2)" "parseString payload2 = Some (data, payload3)"
      "ae_parseKey env data = Some key" "candidate env key data st = (r, st')"
      "v = Verdict None \<Longrightarrow> r = None"
proof (cases "\<exists>q payload1 algo payload2 data payload3 key. payload = q # payload1
    \<and> parseString payload1 = Some (algo, payload2) \<and> parseString payload2 = Some (data, payload3)
    \<and> ae_parseKey env data = Some key \<and> pk_enabled (hd_cfg (au_db st)) \<and> isAcceptableAlgo algo")
  case True
  then obtain q payload1 algo payload2 data payload3 key where c: "payload = q # payload1"
    "parseString payload1 = Some (algo, payload2)" "parseString payload2 = Some (data, payload3)"
    "ae_parseKey env data = Some key" "pk_enabled (hd_cfg (au_db st))" "isAcceptableAlgo algo" by blast
  obtain r st1 where r: "candidate env key data st = (r, st1)" by fastforce
  have "st1 = st'" "v = Verdict None \<Longrightarrow> r = None"
    using assms c r by (auto simp: try_publickey_def split: if_split_asm option.split_asm prod.split_asm)
  then show thesis using c r called by blast
next
  case False
  have "st' = st \<and> v \<noteq> Verdict None \<and> (\<forall>a d. v \<noteq> QueryOK a d)"
    using assms False
    by (auto simp: try_publickey_def split: if_split_asm option.split_asm list.split_asm prod.split_asm)
  then show thesis using early by blast
qed

lemma candidate_in_failures:
  "candidate env key data st = (r, st') \<Longrightarrow> au_in st' = au_in st \<and> au_failures st' = au_failures st"
  by (auto simp: candidate_def PublicKeyCallback_def Let_def split: option.split_asm if_split_asm prod.split_asm)

text \<open>What one method call may do: keep the invariant, read packets, and accept only with both factors.\<close>

lemma try_method_inv:
  assumes inv: "auth_inv env h P st" "keyfiles_apart h" and p: "p \<in> set P"
    and req: "auth_request p = Some (au_user st, service, method, payload)"
    and call: "try_method env service method payload st = Ret (v, st')"
  shows "auth_inv env h P st' \<and> (v = Verdict None \<longrightarrow> key_done h st' \<and> code_done h st')
     \<and> length (au_in st') \<le> length (au_in st)"
proof -
  consider (ki) "method = ''keyboard-interactive''" "ki_enabled (hd_cfg (au_db st))"
    | (pk) "method = ''publickey''" | (other) "method \<noteq> ''publickey''"
      "\<not> (method = ''keyboard-interactive'' \<and> ki_enabled (hd_cfg (au_db st)))" by blast
  then show ?thesis
  proof cases
    case ki
    then obtain e where "KeyboardInteractiveCallback env st = Ret (e, st')" "v = Verdict e"
      using call by (auto simp: try_method_def bind_go_pair_iff)
    then show ?thesis using KeyboardInteractive_inv [OF inv(1)] by auto
  next
    case pk
    then have "try_publickey env service method payload st = (v, st')" using call by (simp add: try_method_def)
    then show ?thesis
    proof (cases rule: try_publickey_cases)
      case (called q payload1 algo payload2 data payload3 key r)
      have "offered_key env p = Some (au_user st, pk_Marshal key)"
        using req called(1-4) pk by (simp add: offered_key_def)
      from candidate_inv [OF inv p this called(5)] show ?thesis using called(6) by auto
    qed (use inv in simp)
  next
    case other
    have keep: "auth_inv env h P (st\<lparr>au_failures := f\<rparr>)" for f
      by (rule auth_inv_frame [OF inv(1)]) simp_all
    have "\<exists>e f. v = Verdict (Some e) \<and> st' = st\<lparr>au_failures := f\<rparr>"
      using call other by (auto simp: try_method_def split: if_split_asm) (metis auth_state.surjective auth_state.update_convs(7))+
    then show ?thesis using keep by auto
  qed
qed

lemma AuthLogCallback_simps [simp]:
  "au_db (AuthLogCallback m e st) = au_db st" "au_in (AuthLogCallback m e st) = au_in st"
  "au_proved (AuthLogCallback m e st) = au_proved st" "au_cache (AuthLogCallback m e st) = au_cache st"
  by (simp_all add: AuthLogCallback_def)

lemma AuthLogCallback_inv:
  assumes "auth_inv env h P st" "key_done h st" "code_done h st"
  shows "auth_inv env h P (AuthLogCallback m None st)"
proof (rule auth_invI [OF assms(1)])
  show "evolves h (au_db (AuthLogCallback m None st))" "list_all (backed env h P) (au_proved (AuthLogCallback m None st))"
    using assms(1) by (simp_all add: auth_inv_def)
  show "au_PublicKeyOK st \<or> key_done h (AuthLogCallback m None st)" "au_OneTimeOK st \<or> code_done h (AuthLogCallback m None st)"
    using assms(2,3) by (simp_all add: key_done_def code_done_def)
qed simp_all

lemma finish_turn_inv:
  assumes inv: "auth_inv env h P st" and acc: "v = Verdict None \<Longrightarrow> key_done h st \<and> code_done h st"
    and call: "finish_turn user method v st = (r, st')"
  shows "auth_inv env h P st' \<and> (\<forall>l. r = Some (LoggedIn l) \<longrightarrow> key_done h st' \<and> code_done h st') \<and> au_in st' = au_in st"
proof -
  have out: "auth_inv env h P (send m s)" if "auth_inv env h P s" for m s
    using that by (intro auth_inv_frame [OF that]) (simp_all add: send_def)
  consider (abort) "v = Abort" | (query) a d where "v = QueryOK a d" | (good) "v = Verdict None"
    | (bad) x where "v = Verdict (Some x)" by (metis option.exhaust verdict.exhaust)
  then show ?thesis
  proof cases
    case abort
    then show ?thesis using call inv by (auto simp: finish_turn_def)
  next
    case query
    then show ?thesis using call out [OF inv] by (auto simp: finish_turn_def send_def)
  next
    case good
    have "auth_inv env h P (AuthLogCallback method None st)" using AuthLogCallback_inv [OF inv] acc [OF good] by simp
    moreover have st': "st' = send [char_of (52 :: nat)] (AuthLogCallback method None st)"
      using call good by (auto simp: finish_turn_def Let_def)
    ultimately show ?thesis
      using out acc [OF good] unfolding st' by (simp add: send_def key_done_def code_done_def)
  next
    case (bad x)
    have "auth_inv env h P (st\<lparr>au_failures := au_failures st + 1\<rparr>)"
      "auth_inv env h P (st\<lparr>au_failures := au_failures st + 1, au_out := o1\<rparr>)" for o1
      by (rule auth_inv_frame [OF inv]; simp)+
    then show ?thesis using call bad
      by (auto simp: finish_turn_def AuthLogCallback_def Let_def send_def split: if_split_asm)
  qed
qed

text \<open>A turn ends at once, at a malformed request, or runs a method on a well-formed one.\<close>

lemma auth_turn_cases:
  assumes "auth_turn env st = Ret (r, st')"
  obtains (stop) m where "r = Some Refused" "st' = st \<or> st' = send m st"
  | (malformed) p later where "r = Some Refused" "au_in st = p # later" "st' = st\<lparr>au_in := later\<rparr>"
  | (request) p later u m b v st2 where "au_in st = p # later" "auth_request p = Some (u, ''ssh-connection'', m, b)"
      "try_method env ''ssh-connection'' m b (st\<lparr>au_in := later, au_user := u\<rparr>) = Ret (v, st2)"
      "finish_turn u m v st2 = (r, st')"
proof (cases "au_in st = [] \<or> ae_MaxAuthTries env \<le> au_failures st \<and> 0 < ae_MaxAuthTries env")
  case True
  then show thesis using assms stop by (auto simp: auth_turn_def split: if_split_asm)
next
  case False
  then obtain p later where p: "au_in st = p # later"
    "\<not> (ae_MaxAuthTries env \<le> au_failures st \<and> 0 < ae_MaxAuthTries env)" by (cases "au_in st") auto
  show thesis
  proof (cases "\<exists>u m b. auth_request p = Some (u, ''ssh-connection'', m, b)")
    case True
    then obtain u m b where "auth_request p = Some (u, ''ssh-connection'', m, b)" by blast
    then show thesis using assms p request by (auto simp: auth_turn_def bind_go_pair_iff)
  next
    case False
    then have "r = Some Refused \<and> st' = st\<lparr>au_in := later\<rparr>"
      using assms p by (auto simp: auth_turn_def Let_def split: option.split_asm if_split_asm)
    then show thesis using malformed p by simp
  qed
qed

lemma auth_turn_inv:
  assumes inv: "auth_inv env h P st" "keyfiles_apart h" and call: "auth_turn env st = Ret (r, st')"
  shows "auth_inv env h P st' \<and> (\<forall>l. r = Some (LoggedIn l) \<longrightarrow> key_done h st' \<and> code_done h st')"
  using call
proof (cases rule: auth_turn_cases)
  case (stop m)
  have "auth_inv env h P (send m st)" by (rule auth_inv_frame [OF inv(1)]) (simp_all add: send_def)
  then show ?thesis using stop inv(1) by auto
next
  case (malformed p later)
  have "auth_inv env h P (st\<lparr>au_in := later\<rparr>)" using malformed(2) by (intro auth_inv_frame [OF inv(1)]) auto
  then show ?thesis using malformed by simp
next
  case (request p later u m b v st2)
  have p: "p \<in> set P" using inv(1) request(1) by (auto simp: auth_inv_def)
  have "auth_inv env h P (st\<lparr>au_in := later, au_user := u\<rparr>)"
    using request(1) by (intro auth_inv_frame [OF inv(1)]) auto
  from try_method_inv [OF this inv(2) p _ request(3)] request(2)
  have "auth_inv env h P st2 \<and> (v = Verdict None \<longrightarrow> key_done h st2 \<and> code_done h st2)" by simp
  then show ?thesis using finish_turn_inv [OF _ _ request(4)] by blast
qed

lemma auth_loop_inv:
  assumes "auth_inv env h P st" "keyfiles_apart h" "auth_loop env n st = Ret (r, st')"
  shows "auth_inv env h P st' \<and> (\<forall>l. r = LoggedIn l \<longrightarrow> key_done h st' \<and> code_done h st')"
  using assms
proof (induction n arbitrary: st)
  case (Suc n)
  obtain o1 st1 where t: "auth_turn env st = Ret (o1, st1)"
    and rest: "(case o1 of None \<Rightarrow> auth_loop env n st1 | Some res \<Rightarrow> Ret (res, st1)) = Ret (r, st')"
    using Suc.prems(3) by (auto simp: bind_go_pair_iff)
  note i = auth_turn_inv [OF Suc.prems(1,2) t]
  show ?case
  proof (cases o1)
    case None
    then show ?thesis using Suc.IH [of st1] i rest Suc.prems(2) by simp
  next
    case (Some res)
    then show ?thesis using i rest by simp
  qed
qed simp

lemma start_inv: "auth_inv env h packets (SetupAuthRequirements h packets)"
  by (simp add: auth_inv_def SetupAuthRequirements_def key_done_def code_done_def ki_enabled_def)

lemma backed_tries [simp]: "backed (env\<lparr>ae_MaxAuthTries := n\<rparr>) h P x = backed env h P x"
proof -
  have "offered_key (env\<lparr>ae_MaxAuthTries := n\<rparr>) = offered_key env" by (simp add: offered_key_def fun_eq_iff split: option.split list.split)
  then show ?thesis by (cases x) (simp_all add: key_on_file_def answers_right_def)
qed

text \<open>
  C1: whoever is let in has shown every factor that is switched on.  When a connection ends
  with a login, its packets contained - unless RSA keys are switched off - a public-key request
  of a registered login with the very key on file for that login, and - unless passphrase and
  one-time password are both switched off - the answers that are right for a registered
  login: its passphrase where passphrases are on, and a code that is valid for its
  one-time-password key where codes are on.  The login changes no credential and no setting.
  (No key file of a user is one of the files of the database.)
\<close>

theorem login_shows_every_factor:
  assumes "serverAuthenticate env h packets = Ret (LoggedIn l, st)" "keyfiles_apart h"
  shows "(cf_SkipRSA (hd_cfg h) \<or> (\<exists>a k u p. ValidLogin a \<and> users h a = Some u \<and> key_on_file env h u k
           \<and> p \<in> set packets \<and> offered_key env p = Some (a, k)))
     \<and> (\<not> ki_enabled (hd_cfg h) \<or> (\<exists>a ans u p. users h a = Some u \<and> answers_right env h u ans
           \<and> p \<in> set packets \<and> answers_of p = Some ans))
     \<and> evolves h (au_db st)"
proof -
  let ?env = "env\<lparr>ae_MaxAuthTries := default_tries (ae_MaxAuthTries env)\<rparr>"
  have "auth_loop ?env (Suc (length packets)) (SetupAuthRequirements h packets) = Ret (LoggedIn l, st)"
    using assms(1) by (simp add: serverAuthenticate_def Let_def split: if_split_asm)
  from auth_loop_inv [OF start_inv assms(2) this]
  have i: "auth_inv ?env h packets st" "key_done h st" "code_done h st" by simp_all
  have b: "backed env h packets x" if "x \<in> set (au_proved st)" for x
    using i(1) that by (auto simp: auth_inv_def list_all_iff)
  have "cf_SkipRSA (hd_cfg h) \<or> (\<exists>a k. backed env h packets (ProvedKey a k))" using i(2) b unfolding key_done_def by blast
  moreover have "\<not> ki_enabled (hd_cfg h) \<or> (\<exists>a ans. backed env h packets (ProvedCode a ans))"
    using i(3) b unfolding code_done_def by blast
  moreover have "evolves h (au_db st)" using i(1) by (simp add: auth_inv_def)
  ultimately show ?thesis unfolding backed.simps by blast
qed

subsection \<open>The loop ends\<close>

lemma no_hang:
  "Challenge i qs st \<noteq> Hang" "RestoreTotp he u \<noteq> Hang" "code_valid env u c \<noteq> Hang"
  by (auto simp: Challenge_def RestoreTotp_def code_valid_def Let_def split: list.split_asm if_split_asm option.split_asm)

lemma KeyboardInteractive_no_hang: "KeyboardInteractiveCallback env st \<noteq> Hang"
  using no_hang
  by (auto simp: KeyboardInteractiveCallback_def interactive_verdict_def Let_def bind_go_Hang_iff
      split: if_split_asm option.split_asm)

lemma auth_turn_no_hang: "auth_turn env st \<noteq> Hang"
proof -
  have "try_method env s m b st \<noteq> Hang" for s m b st
    using KeyboardInteractive_no_hang by (auto simp: try_method_def bind_go_Hang_iff split: if_split_asm)
  then show ?thesis
    by (auto simp: auth_turn_def Let_def bind_go_Hang_iff split: if_split_asm list.split_asm option.split_asm)
qed

lemma interactive_verdict_length:
  "interactive_verdict env u ans ok st = Ret (r, st') \<Longrightarrow> length (au_in st') \<le> length (au_in st)"
  by (auto simp: interactive_verdict_def Let_def bind_go_pair_iff NoteLogin_def
      dest: Challenge_frame(9) split: if_split_asm)

lemma KeyboardInteractive_length:
  assumes "KeyboardInteractiveCallback env st = Ret (r, st')"
  shows "length (au_in st') \<le> length (au_in st)"
proof -
  let ?cfg = "hd_cfg (au_db st)"
  obtain a st1 where ch: "Challenge (''login for '' @ au_user st @ '':'') (questions ?cfg) st = Ret (a, st1)"
    using assms by (auto simp: KeyboardInteractiveCallback_def Let_def bind_go_pair_iff split: if_split_asm)
  have "length (au_in st') \<le> length (au_in st1)"
    using assms ch by (auto simp: KeyboardInteractiveCallback_def Let_def bind_go_Ret_iff
        dest!: interactive_verdict_length split: if_split_asm option.split_asm)
  then show ?thesis using Challenge_frame(9) [OF ch] by simp
qed

lemma try_method_length:
  assumes "try_method env s m b st = Ret (v, st')"
  shows "length (au_in st') \<le> length (au_in st)"
proof -
  have "length (au_in st') \<le> length (au_in st)" if "try_publickey env s m b st = (v, st')"
    using that by (cases rule: try_publickey_cases) (auto dest: candidate_in_failures)
  then show ?thesis using assms KeyboardInteractive_length
    by (auto simp: try_method_def bind_go_pair_iff split: if_split_asm)
qed

lemma finish_turn_in: "finish_turn u m v st = (r, st') \<Longrightarrow> au_in st' = au_in st"
  by (auto simp: finish_turn_def send_def Let_def split: verdict.split_asm if_split_asm)

lemma auth_turn_consumes:
  assumes "auth_turn env st = Ret (None, st')"
  shows "length (au_in st') < length (au_in st)"
  using assms
  by (cases rule: auth_turn_cases) (auto dest!: try_method_length finish_turn_in)

text \<open>
  C25: the login loop ends on every finite stream of packets: the fuel of the model, one turn
  more than there are packets, is never used up, for whatever database and packets.
\<close>

theorem login_loop_ends: "serverAuthenticate env h packets \<noteq> Hang"
proof -
  have "length (au_in st) < n \<Longrightarrow> auth_loop env n st \<noteq> Hang" for env n st
  proof (induction n arbitrary: st)
    case (Suc n)
    have "auth_loop env n st' \<noteq> Hang" if "auth_turn env st = Ret (None, st')" for st'
      using Suc.IH [of st'] Suc.prems auth_turn_consumes [OF that] by simp
    then show ?case using auth_turn_no_hang by (auto simp: bind_go_Hang_iff split: option.split_asm)
  qed simp
  then show ?thesis by (auto simp: serverAuthenticate_def SetupAuthRequirements_def Let_def simp del: auth_loop.simps)
qed

subsection \<open>Packets of a client\<close>

definition request_packet :: "string \<Rightarrow> string \<Rightarrow> bytes \<Rightarrow> bytes" where
  "request_packet user method payload =
     Marshal userAuthRequestMsg [VStr user, VStr ''ssh-connection'', VStr method, VBytes payload]"

definition key_payload :: "char \<Rightarrow> string \<Rightarrow> bytes \<Rightarrow> bytes \<Rightarrow> bytes" where
  "key_payload q algo data rest = q # enc_string algo @ enc_string data @ rest"

definition signature_bytes :: "string \<Rightarrow> bytes \<Rightarrow> bytes" where
  "signature_bytes format blob = enc_string (enc_string format @ enc_string blob)"

definition answers_packet :: "string list \<Rightarrow> bytes" where
  "answers_packet ans = char_of (61 :: nat) # PutUint32 (word_of_nat (length ans)) @ concat (map enc_string ans)"

lemma auth_request_packet:
  assumes "small (request_packet u m b)"
  shows "auth_request (request_packet u m b) = Some (u, ''ssh-connection'', m, b)"
proof -
  have "Unmarshal userAuthRequestMsg (request_packet u m b) = Inr [VStr u, VStr ''ssh-connection'', VStr m, VBytes b]"
    unfolding request_packet_def
    by (rule Unmarshal_of_Marshal) (use assms in \<open>simp_all add: userAuthRequestMsg_def has_kind_def tags_ok_def request_packet_def\<close>)
  then show ?thesis by (simp add: auth_request_def)
qed

lemma request_small: "small (request_packet u m b) \<Longrightarrow> small b"
  by (simp add: request_packet_def Marshal_def userAuthRequestMsg_def marshal_field_def small_def)

lemma parse_key_payload:
  assumes "small (key_payload q algo data rest)"
  shows "parseString (enc_string algo @ enc_string data @ rest) = Some (algo, enc_string data @ rest)"
    "parseString (enc_string data @ rest) = Some (data, rest)"
  using assms by (intro wire_string.dec_enc; simp add: key_payload_def small_def)+

lemma parse_answers_enc:
  "small (concat (map enc_string ans)) \<Longrightarrow> parse_answers (length ans) (concat (map enc_string ans)) = Some ans"
proof (induction ans)
  case (Cons a ans)
  have "small (enc_string a @ concat (map enc_string ans))" using Cons.prems by simp
  then show ?case using Cons.IH small_append [THEN conjunct2] by (simp add: wire_string.dec_enc)
qed simp

lemma length_concat_ge: "length ans \<le> length (concat (map enc_string ans))"
  by (induction ans) (simp_all add: enc_string_def)

lemma Challenge_answered:
  assumes "au_in st = answers_packet ans # later" "length ans = length qs" "small (answers_packet ans)"
  shows "Challenge i qs st = Ret (Some ans, st\<lparr>au_out := au_out st @ [info_request i qs], au_in := later\<rparr>)"
proof -
  have s: "small (concat (map enc_string ans))" "length ans < 2 ^ 32"
    using assms(3) length_concat_ge [of ans] by (auto simp: answers_packet_def small_def)
  have "unat (word_of_nat (length ans) :: u32) = length ans" using s(2) by (intro unat_of_nat_eq) simp
  then show ?thesis using assms(1,2) parse_answers_enc [OF s(1)]
    by (simp add: Challenge_def answers_packet_def parseUint32_put)
qed

subsection \<open>Turns of a client that knows the secrets of one user\<close>

definition all_factors :: "sshego_config \<Rightarrow> bool" where
  "all_factors cfg \<longleftrightarrow> \<not> cf_SkipRSA cfg \<and> \<not> cf_SkipPassphrase cfg \<and> \<not> cf_SkipTOTP cfg"

definition right_code :: "auth_env \<Rightarrow> user \<Rightarrow> string \<Rightarrow> bool" where
  "right_code env u code \<longleftrightarrow> code \<noteq> [] \<and>
     (case otp_key u of None \<Rightarrow> False
      | Some k \<Rightarrow> he_urlOk (ae_host env) k \<and> he_totpValid (ae_host env) code k)"

abbreviation tries_left :: "auth_env \<Rightarrow> auth_state \<Rightarrow> bool" where
  "tries_left env st \<equiv> \<not> (ae_MaxAuthTries env \<le> au_failures st \<and> 0 < ae_MaxAuthTries env)"

lemma right_code_cred:
  "same_cred u v \<Longrightarrow> right_code env v code = right_code env u code"
  "same_cred u v \<Longrightarrow> MatchingHashAndPw he v pw = MatchingHashAndPw he u pw"
  by (simp_all add: right_code_def same_cred_def MatchingHashAndPw_def)

lemma right_code_tries [simp]: "right_code (env\<lparr>ae_MaxAuthTries := n\<rparr>) u code = right_code env u code"
  by (simp add: right_code_def split: option.split)

lemma RestoreTotp_right:
  assumes "right_code env u code"
  obtains v k where "RestoreTotp (ae_host env) u = Ret v" "us_oneTime v = Some k" "same_cred u v" "same_visit u v"
    "he_totpValid (ae_host env) code k" "code \<noteq> []"
proof -
  obtain k where k: "otp_key u = Some k" "he_urlOk (ae_host env) k" "he_totpValid (ae_host env) code k" "code \<noteq> []"
    using assms by (auto simp: right_code_def split: option.split_asm)
  then obtain v where "RestoreTotp (ae_host env) u = Ret v"
    by (auto simp: RestoreTotp_def otp_key_def split: if_split_asm option.split_asm)
  then show thesis using k RestoreTotp_cred [of "ae_host env" u v] that by auto
qed

lemma interactive_accepts:
  assumes cfg: "all_factors (hd_cfg (au_db st))" and u: "users (au_db st) (au_user st) = Some u"
    and pw: "MatchingHashAndPw (ae_host env) u pw" and code: "right_code env u code"
    and input: "au_in st = answers_packet [pw, code] # later" "small (answers_packet [pw, code])"
  obtains v where "same_cred u v" "same_visit u v"
    "KeyboardInteractiveCallback env st =
       interactive_verdict env v [pw, code] True (put_user v (au_user st)
         (st\<lparr>au_out := au_out st @ [info_request (''login for '' @ au_user st @ '':'') (questions (hd_cfg (au_db st)))], au_in := later\<rparr>))"
proof -
  have "length [pw, code] = length (questions (hd_cfg (au_db st)))" using cfg by (simp add: all_factors_def questions_def)
  note ch = Challenge_answered [OF input(1) this input(2)]
  obtain v k where "RestoreTotp (ae_host env) u = Ret v" "us_oneTime v = Some k" "same_cred u v" "same_visit u v"
    "he_totpValid (ae_host env) code k" "code \<noteq> []" using RestoreTotp_right [OF code] .
  then show thesis using cfg u pw
    by (intro that) (simp_all add: KeyboardInteractiveCallback_def ch Get2_def code_valid_def all_factors_def Let_def)
qed

lemma all_factors_enabled: "all_factors cfg \<Longrightarrow> pk_enabled cfg \<and> ki_enabled cfg"
  by (simp add: all_factors_def pk_enabled_def ki_enabled_def)

lemma turn_interactive:
  assumes cfg: "all_factors (hd_cfg (au_db st))" and tries: "tries_left env st"
    and u: "users (au_db st) a = Some u" "MatchingHashAndPw (ae_host env) u pw" "right_code env u code"
    and input: "au_in st = request_packet a ''keyboard-interactive'' b # answers_packet [pw, code] # later"
      "small (request_packet a ''keyboard-interactive'' b)" "small (answers_packet [pw, code])"
  shows "\<not> au_PublicKeyOK st \<Longrightarrow> \<exists>st'. auth_turn env st = Ret (None, st') \<and> au_OneTimeOK st' \<and> \<not> au_PublicKeyOK st'
      \<and> au_in st' = later \<and> evolves (au_db st) (au_db st') \<and> au_failures st' = au_failures st + 1 \<and> au_cache st' = au_cache st"
    and "au_PublicKeyOK st \<Longrightarrow> later = [] \<or> later = [answers_packet []] \<Longrightarrow> \<exists>st'. auth_turn env st = Ret (Some (LoggedIn a), st')
      \<and> au_out st' = au_out st @ [info_request (''login for '' @ a @ '':'') (questions (hd_cfg (au_db st))),
          info_request (last_login_text env u) [], [char_of (52 :: nat)]]"
proof -
  let ?st = "st\<lparr>au_in := answers_packet [pw, code] # later, au_user := a\<rparr>"
  let ?out = "au_out st @ [info_request (''login for '' @ a @ '':'') (questions (hd_cfg (au_db st)))]"
  obtain v where v: "same_cred u v" and w: "same_visit u v" and k: "KeyboardInteractiveCallback env ?st =
       interactive_verdict env v [pw, code] True (put_user v a (?st\<lparr>au_out := ?out, au_in := later\<rparr>))"
    using interactive_accepts [of ?st u env pw code later] cfg u input(3) by auto
  let ?st2 = "put_user v a (?st\<lparr>au_out := ?out, au_in := later\<rparr>)"
  note en = all_factors_enabled [OF cfg]
  have t: "auth_turn env st = bind_go (interactive_verdict env v [pw, code] True ?st2)
      (\<lambda>(e, s). Ret (finish_turn a ''keyboard-interactive'' (Verdict e) s))"
    using tries input(1) auth_request_packet [OF input(2)] en k
    by (cases "interactive_verdict env v [pw, code] True ?st2")
       (auto simp: auth_turn_def try_method_def split: prod.split)
  have ev: "evolves (au_db st) (au_db ?st2)"
    by (rule put_user_evolves [OF _ _ v]) (simp_all add: u)
  have c2: "hd_cfg (au_db ?st2) = hd_cfg (au_db st)" by (simp add: put_user_def)
  show "\<exists>st'. auth_turn env st = Ret (None, st') \<and> au_OneTimeOK st' \<and> \<not> au_PublicKeyOK st'
      \<and> au_in st' = later \<and> evolves (au_db st) (au_db st') \<and> au_failures st' = au_failures st + 1 \<and> au_cache st' = au_cache st"
    if "\<not> au_PublicKeyOK st"
    using that ev en c2 by (simp add: t interactive_verdict_def finish_turn_def AuthLogCallback_def send_def Let_def)
  have out: "au_out (AuthLogCallback m e (NoteLogin env v l s)) = au_out s" for m e l s
    by (simp add: NoteLogin_def AuthLogCallback_def save_users_def put_user_def)
  show "\<exists>st'. auth_turn env st = Ret (Some (LoggedIn a), st')
      \<and> au_out st' = au_out st @ [info_request (''login for '' @ a @ '':'') (questions (hd_cfg (au_db st))),
          info_request (last_login_text env u) [], [char_of (52 :: nat)]]"
    if "au_PublicKeyOK st" "later = [] \<or> later = [answers_packet []]"
  proof (cases "later = []")
    case True
    then show ?thesis using that(1) by (auto simp: same_visit_text [OF w] t interactive_verdict_def Challenge_def finish_turn_def Let_def send_def out put_user_def)
  next
    case False
    then have l: "later = [answers_packet []]" using that(2) by simp
    have "small (answers_packet [])" by (simp add: answers_packet_def small_def)
    then show ?thesis using that(1) l Challenge_answered [of _ "[]" "[]" "[]"]
      by (auto simp: same_visit_text [OF w] t interactive_verdict_def finish_turn_def Let_def send_def out put_user_def)
  qed
qed

lemma cache_get_other: "ck_user c \<noteq> l \<Longrightarrow> cache_get (cs @ [c]) l d = cache_get cs l d"
  by (induction cs) auto

text \<open>The answer to an offered key that is not in the cache: yes when both flags are set after the look at the file.\<close>

lemma candidate_fresh:
  fixes env :: auth_env and key :: pub_key
  assumes "cache_get (au_cache st) (au_user st) data = None" "ValidLogin (au_user st)" "users (au_db st) (au_user st) = Some u"
  defines "pk \<equiv> key_on_file env (au_db st) u (pk_Marshal key) \<or> au_PublicKeyOK st"
  shows "\<exists>r st'. candidate env key data st = (r, st') \<and> (r = None) = (pk \<and> au_OneTimeOK st)
    \<and> au_PublicKeyOK st' = pk \<and> au_OneTimeOK st' = au_OneTimeOK st \<and> au_in st' = au_in st
    \<and> au_failures st' = au_failures st \<and> evolves (au_db st) (au_db st') \<and> au_out st' = au_out st
    \<and> (\<exists>v. users (au_db st') (au_user st) = Some v \<and> same_visit u v)
    \<and> (\<forall>l d. l = au_user st \<or> cache_get (au_cache st) l d \<noteq> None \<or> cache_get (au_cache st') l d = None)"
proof -
  let ?l = "au_user st" and ?m = "key_on_file env (au_db st) u (pk_Marshal key)"
  let ?st1 = "if ?m then st\<lparr>au_PublicKeyOK := True, au_proved := ProvedKey ?l (pk_Marshal key) # au_proved st\<rparr> else st"
  let ?st2 = "save_users env (put_user (note_key env ?m (pk_Marshal key) u) ?l ?st1)"
  let ?r = "if pk \<and> au_OneTimeOK st then None else Some (UnknownKey ?l)"
  have pkc: "PublicKeyCallback env key st = (?r, ?st2)"
    using assms(2,3) by (simp add: PublicKeyCallback_def Get2_def Let_def pk_def)
  let ?st3 = "?st2\<lparr>au_cache := cache_add \<lparr>ck_user = ?l, ck_data = data, ck_result = ?r\<rparr> (au_cache ?st2)\<rparr>"
  have "evolves (au_db st) (au_db ?st2)"
    by (rule save_users_evolves, rule put_user_evolves [OF _ _ same_cred_updates(1)]) (simp_all add: assms(3))
  moreover have "users (au_db ?st2) ?l = Some (note_key env ?m (pk_Marshal key) u)"
    by (simp add: save_users_Persist) (simp add: put_user_def Set_def)
  moreover have "candidate env key data st = (?r, ?st3)" using assms(1) pkc by (simp add: candidate_def)
  ultimately show ?thesis
    by (intro exI [of _ ?r] exI [of _ ?st3]) (auto simp: pk_def cache_add_def cache_get_other)
qed

lemma turn_publickey:
  assumes cfg: "all_factors (hd_cfg (au_db st))" and tries: "tries_left env st"
    and fresh: "cache_get (au_cache st) a data = None"
    and u: "ValidLogin a" "users (au_db st) a = Some u"
    and key: "isAcceptableAlgo algo" "ae_parseKey env data = Some key"
    and input: "au_in st = request_packet a ''publickey'' (key_payload q algo data rest) # later"
      "small (request_packet a ''publickey'' (key_payload q algo data rest))"
  defines "pk \<equiv> key_on_file env (au_db st) u (pk_Marshal key) \<or> au_PublicKeyOK st"
  shows "q = CHR 0x00 \<Longrightarrow> rest = [] \<Longrightarrow> \<exists>st'. auth_turn env st = Ret (None, st') \<and> au_PublicKeyOK st' = pk
      \<and> au_OneTimeOK st' = au_OneTimeOK st \<and> au_in st' = later \<and> evolves (au_db st) (au_db st')
      \<and> au_failures st' \<le> au_failures st + 1
      \<and> (\<not> au_OneTimeOK st \<longrightarrow> au_out st' = au_out st @ [failure_message (hd_cfg (au_db st))])
      \<and> (\<exists>v. users (au_db st') a = Some v \<and> same_visit u v)
      \<and> (\<forall>l d. l = a \<or> cache_get (au_cache st) l d \<noteq> None \<or> cache_get (au_cache st') l d = None)"
    and "q \<noteq> CHR 0x00 \<Longrightarrow> rest = signature_bytes format blob \<Longrightarrow> isAcceptableAlgo format \<Longrightarrow> pk \<Longrightarrow> au_OneTimeOK st
      \<Longrightarrow> ae_verify env key (buildDataSignedForAuth (ae_sessionID env) a ''ssh-connection'' ''publickey'' algo data) (format, blob)
      \<Longrightarrow> \<exists>st'. auth_turn env st = Ret (Some (LoggedIn a), st')"
proof -
  let ?st = "st\<lparr>au_in := later, au_user := a\<rparr>"
  obtain r st' where c: "candidate env key data ?st = (r, st')" "r = None \<longleftrightarrow> pk \<and> au_OneTimeOK st"
    "au_PublicKeyOK st' = pk" "au_OneTimeOK st' = au_OneTimeOK st" "au_in st' = later" "au_failures st' = au_failures st"
    "evolves (au_db st) (au_db st')" "au_out st' = au_out st"
    "\<exists>v. users (au_db st') a = Some v \<and> same_visit u v"
    "\<forall>l d. l = a \<or> cache_get (au_cache st) l d \<noteq> None \<or> cache_get (au_cache st') l d = None"
    using candidate_fresh [of ?st data u env key] fresh u unfolding pk_def by auto
  note en = all_factors_enabled [OF cfg]
  have cfg': "hd_cfg (au_db st') = hd_cfg (au_db st)" using c(7) by (simp add: evolves_def)
  have sm: "small (key_payload q algo data rest)" by (rule request_small [OF input(2)])
  have t: "auth_turn env st = Ret (case try_publickey env ''ssh-connection'' ''publickey'' (key_payload q algo data rest) ?st
      of (v, s) \<Rightarrow> finish_turn a ''publickey'' v s)"
    using tries input(1) auth_request_packet [OF input(2)] by (auto simp: auth_turn_def try_method_def split: prod.split)
  note sim = try_publickey_def key_payload_def parse_key_payload [OF sm] key en c(1)
  show "\<exists>st'. auth_turn env st = Ret (None, st') \<and> au_PublicKeyOK st' = pk
      \<and> au_OneTimeOK st' = au_OneTimeOK st \<and> au_in st' = later \<and> evolves (au_db st) (au_db st')
      \<and> au_failures st' \<le> au_failures st + 1
      \<and> (\<not> au_OneTimeOK st \<longrightarrow> au_out st' = au_out st @ [failure_message (hd_cfg (au_db st))])
      \<and> (\<exists>v. users (au_db st') a = Some v \<and> same_visit u v)
      \<and> (\<forall>l d. l = a \<or> cache_get (au_cache st) l d \<noteq> None \<or> cache_get (au_cache st') l d = None)"
    if q: "q = CHR 0x00" "rest = []"
  proof (cases r)
    case None
    have "auth_turn env st = Ret (None, send (Marshal userAuthPubKeyOkMsg [VStr algo, VBytes data]) st')"
      using q None sim by (simp add: t finish_turn_def)
    then show ?thesis using c None by (auto simp: send_def)
  next
    case (Some e)
    have "auth_turn env st = Ret (None, send (failure_message (hd_cfg (au_db st)))
        (st'\<lparr>au_failures := au_failures st' + 1\<rparr>))"
      using q Some sim cfg' by (simp add: t finish_turn_def AuthLogCallback_def Let_def)
    then show ?thesis using c by (auto simp: send_def)
  qed
  show "\<exists>st'. auth_turn env st = Ret (Some (LoggedIn a), st')"
    if q: "q \<noteq> CHR 0x00" and rest: "rest = signature_bytes format blob" and alg: "isAcceptableAlgo format"
      and flags: pk "au_OneTimeOK st"
      and sig: "ae_verify env key (buildDataSignedForAuth (ae_sessionID env) a ''ssh-connection'' ''publickey'' algo data) (format, blob)"
  proof -
    have r: "r = None" using c(2) flags by simp
    have sr: "small (signature_bytes format blob)" using sm rest by (simp add: key_payload_def small_def)
    then have "small (enc_string format @ enc_string blob)" by (simp add: signature_bytes_def enc_string_def small_def)
    then have "parseSignatureBody (enc_string format @ enc_string blob) = Some ((format, blob), [])"
      using wire_string.dec_enc [of format "enc_string blob"] wire_string.dec_enc [of blob "[]"]
        small_append [of "enc_string format" "enc_string blob"]
      by (simp add: parseSignatureBody_def)
    then have ps: "parseSignature (signature_bytes format blob) = Some ((format, blob), [])"
      using wire_string.dec_enc [of "enc_string format @ enc_string blob" "[]"] sr
      by (simp add: parseSignature_def signature_bytes_def)
    have "try_publickey env ''ssh-connection'' ''publickey'' (key_payload q algo data rest) ?st = (Verdict None, st')"
      using q alg sig ps r sim(2) sim(3-) unfolding rest by (simp add: try_publickey_def)
    then show ?thesis by (simp add: t finish_turn_def Let_def)
  qed
qed

subsection \<open>What gets through\<close>

lemma run_turn: "auth_turn env st = Ret (None, st') \<Longrightarrow> auth_loop env (Suc n) st = auth_loop env n st'"
  "auth_turn env st = Ret (Some r, st') \<Longrightarrow> auth_loop env (Suc n) st = Ret (r, st')"
  by simp_all

lemma same_cred_evolves:
  assumes "evolves h h'" "users h l = Some u"
  obtains v where "users h' l = Some v" "same_cred u v"
proof -
  have "rel_option same_cred (Some u) (users h' l)" using assms by (metis evolves_def)
  then show thesis using that by (auto simp: option_rel_Some1)
qed

lemma login_by_query:
  assumes cfg: "all_factors (hd_cfg h)" and tries: "ae_MaxAuthTries env = 0"
    and u: "ValidLogin a" "users h a = Some u" "MatchingHashAndPw (ae_host env) u pw" "right_code env u code"
    and key: "isAcceptableAlgo algo" "ae_parseKey env data = Some key" "key_on_file env h u (pk_Marshal key)"
    and small: "small (request_packet a ''publickey'' (key_payload (CHR 0x00) algo data []))"
      "small (request_packet a ''keyboard-interactive'' [])" "small (answers_packet [pw, code])"
  shows "\<exists>st. serverAuthenticate env h
     [request_packet a ''publickey'' (key_payload (CHR 0x00) algo data []),
      request_packet a ''keyboard-interactive'' [], answers_packet [pw, code]] = Ret (LoggedIn a, st)"
proof -
  let ?P = "[request_packet a ''publickey'' (key_payload (CHR 0x00) algo data []),
      request_packet a ''keyboard-interactive'' [], answers_packet [pw, code]]"
  let ?env = "env\<lparr>ae_MaxAuthTries := 6\<rparr>" and ?st = "SetupAuthRequirements h ?P"
  have st: "au_db ?st = h" "au_in ?st = ?P" "au_failures ?st = 0" "au_cache ?st = []" "\<not> au_OneTimeOK ?st"
    using cfg by (simp_all add: SetupAuthRequirements_def all_factors_def)
  have kf: "key_on_file ?env h u (pk_Marshal key)" using key(3) by (simp add: key_on_file_def)
  obtain st1 where t1: "auth_turn ?env ?st = Ret (None, st1)" "au_PublicKeyOK st1" "au_in st1 = tl ?P"
    "evolves h (au_db st1)" "au_failures st1 \<le> 1"
    using turn_publickey(1) [of ?st ?env a data u algo key "CHR 0x00" "[]" "tl ?P"] st cfg u key kf small(1) by auto
  obtain v where v: "users (au_db st1) a = Some v" "same_cred u v" using same_cred_evolves [OF t1(4) u(2)] .
  have "hd_cfg (au_db st1) = hd_cfg h" using t1(4) by (simp add: evolves_def)
  moreover have "right_code ?env v code" "MatchingHashAndPw (ae_host ?env) v pw"
    using u(3,4) right_code_cred [OF v(2)] by simp_all
  ultimately obtain st2 where "auth_turn ?env st1 = Ret (Some (LoggedIn a), st2)"
    using turn_interactive(2) [of st1 ?env a v pw code "[]" "[]"] cfg t1 v(1) small by auto
  then have "auth_loop ?env (Suc (Suc (Suc (Suc 0)))) ?st = Ret (LoggedIn a, st2)"
    using t1(1) by (simp only: run_turn)
  then show ?thesis using all_factors_enabled [OF cfg] tries
    by (simp add: serverAuthenticate_def default_tries_def del: auth_loop.simps)
qed

text \<open>
  The RSA factor is not the private key.  A client that knows a user's public key, passphrase
  and code is let in after it merely asks whether the public key would do and then answers the
  challenge: none of its packets carries a signature, and nothing is assumed of the signature
  check (the flag of the key factor is set by the query).
\<close>

lemma private_key_not_needed:
  assumes cfg: "all_factors (hd_cfg h)" and tries: "ae_MaxAuthTries env = 0"
    and u: "ValidLogin a" "users h a = Some u" "MatchingHashAndPw (ae_host env) u pw" "right_code env u code"
    and key: "isAcceptableAlgo algo" "ae_parseKey env data = Some key" "key_on_file env h u (pk_Marshal key)"
    and small: "small (request_packet a ''publickey'' (key_payload (CHR 0x00) algo data []))"
      "small (request_packet a ''keyboard-interactive'' [])" "small (answers_packet [pw, code])"
  shows "\<exists>st. serverAuthenticate env h
     [request_packet a ''publickey'' (key_payload (CHR 0x00) algo data []),
      request_packet a ''keyboard-interactive'' [], answers_packet [pw, code]] = Ret (LoggedIn a, st)"
  using assms by (rule login_by_query)

text \<open>
  C35: one user can log in as another.  A client that knows the secrets of user \<open>a\<close> answers the
  challenge as \<open>a\<close>, asks for \<open>a\<close>'s public key, and then requests a login as any other
  registered user \<open>v\<close> with a key pair of its own: the flags belong to the connection and not to
  the login, the deferred check of the public-key callback overrides the mismatch, and the
  server lets the client in as \<open>v\<close>.  Nothing is assumed of \<open>v\<close>'s key, passphrase or code.
\<close>

theorem login_as_another_user:
  assumes cfg: "all_factors (hd_cfg h)" and tries: "ae_MaxAuthTries env = 0"
    and a: "ValidLogin a" "users h a = Some u" "MatchingHashAndPw (ae_host env) u pw" "right_code env u code"
    and key: "isAcceptableAlgo algo" "ae_parseKey env data = Some key" "key_on_file env h u (pk_Marshal key)"
      "keyfiles_apart h"
    and v: "ValidLogin v" "users h v = Some w" "v \<noteq> a"
    and own: "ae_parseKey env mine = Some mykey"
      "ae_verify env mykey (buildDataSignedForAuth (ae_sessionID env) v ''ssh-connection'' ''publickey'' algo mine) (algo, blob)"
    and small: "small (request_packet a ''publickey'' (key_payload (CHR 0x00) algo data []))"
      "small (request_packet a ''keyboard-interactive'' [])" "small (answers_packet [pw, code])"
      "small (request_packet v ''publickey'' (key_payload (CHR 0x01) algo mine (signature_bytes algo blob)))"
  shows "\<exists>st. serverAuthenticate env h
     [request_packet a ''keyboard-interactive'' [], answers_packet [pw, code],
      request_packet a ''publickey'' (key_payload (CHR 0x00) algo data []),
      request_packet v ''publickey'' (key_payload (CHR 0x01) algo mine (signature_bytes algo blob))] = Ret (LoggedIn v, st)"
proof -
  let ?P = "[request_packet a ''keyboard-interactive'' [], answers_packet [pw, code],
      request_packet a ''publickey'' (key_payload (CHR 0x00) algo data []),
      request_packet v ''publickey'' (key_payload (CHR 0x01) algo mine (signature_bytes algo blob))]"
  let ?env = "env\<lparr>ae_MaxAuthTries := 6\<rparr>" and ?st = "SetupAuthRequirements h ?P"
  have st: "au_db ?st = h" "au_in ?st = ?P" "au_failures ?st = 0" "au_cache ?st = []" "\<not> au_PublicKeyOK ?st"
    using cfg by (simp_all add: SetupAuthRequirements_def all_factors_def)
  have a': "right_code ?env u code" "MatchingHashAndPw (ae_host ?env) u pw" using a by simp_all
  obtain st1 where t1: "auth_turn ?env ?st = Ret (None, st1)" "au_OneTimeOK st1" "au_in st1 = tl (tl ?P)"
    "evolves h (au_db st1)" "au_failures st1 = 1" "au_cache st1 = []"
    using turn_interactive(1) [of ?st ?env a u pw code "[]" "tl (tl ?P)"] st cfg a a' small by auto
  have c1: "hd_cfg (au_db st1) = hd_cfg h" using t1(4) by (simp add: evolves_def)
  obtain u1 where u1: "users (au_db st1) a = Some u1" "same_cred u u1" using same_cred_evolves [OF t1(4) a(2)] .
  have "us_PublicKeyPath u \<notin> db_files h" using key(4) a(2) by (simp add: keyfiles_apart_def)
  then have "hd_files (au_db st1) (us_PublicKeyPath u) = hd_files h (us_PublicKeyPath u)"
    using t1(4) unfolding evolves_def by blast
  then have kf: "key_on_file ?env (au_db st1) u1 (pk_Marshal key)"
    using key(3) u1(2) by (simp add: key_on_file_def LoadRSAPublicKey_def same_cred_def)
  obtain st2 where t2: "auth_turn ?env st1 = Ret (None, st2)" "au_PublicKeyOK st2" "au_OneTimeOK st2"
    "au_in st2 = tl (tl (tl ?P))" "evolves (au_db st1) (au_db st2)" "au_failures st2 \<le> 2"
    "cache_get (au_cache st2) v mine = None"
    using turn_publickey(1) [of st1 ?env a data u1 algo key "CHR 0x00" "[]" "tl (tl (tl ?P))"]
      t1 c1 cfg a(1) u1 key kf small(1) v(3) by auto
  have c2: "hd_cfg (au_db st2) = hd_cfg h" using t2(5) c1 by (simp add: evolves_def)
  obtain w1 where w1: "users (au_db st1) v = Some w1" using same_cred_evolves [OF t1(4) v(2)] by blast
  obtain w2 where w2: "users (au_db st2) v = Some w2" using same_cred_evolves [OF t2(5) w1] by blast
  obtain st3 where t3: "auth_turn ?env st2 = Ret (Some (LoggedIn v), st3)"
    using turn_publickey(2) [of st2 ?env v mine w2 algo mykey "CHR 0x01" "signature_bytes algo blob" "[]" algo blob]
      t2 c2 cfg v(1) w2 key(1) own small(4) by auto
  have "auth_loop ?env (Suc (Suc (Suc (Suc (Suc 0))))) ?st = Ret (LoggedIn v, st3)"
    using t1(1) t2(1) t3 by (simp only: run_turn)
  then show ?thesis using all_factors_enabled [OF cfg] tries
    by (simp add: serverAuthenticate_def default_tries_def del: auth_loop.simps)
qed

subsection \<open>How often a client may guess\<close>

lemma interactive_verdict_failures:
  "interactive_verdict env u ans ok st = Ret (r, st') \<Longrightarrow> au_failures st' = au_failures st"
  by (auto simp: interactive_verdict_def Let_def bind_go_pair_iff NoteLogin_def
      dest: Challenge_frame(8) split: if_split_asm)

lemma interactive_failures:
  assumes "KeyboardInteractiveCallback env st = Ret (r, st')"
  shows "au_failures st' = au_failures st"
proof -
  let ?cfg = "hd_cfg (au_db st)"
  obtain a st1 where ch: "Challenge (''login for '' @ au_user st @ '':'') (questions ?cfg) st = Ret (a, st1)"
    using assms by (auto simp: KeyboardInteractiveCallback_def Let_def bind_go_pair_iff split: if_split_asm)
  have "au_failures st' = au_failures st1"
    using assms ch by (auto simp: KeyboardInteractiveCallback_def Let_def bind_go_Ret_iff
        dest!: interactive_verdict_failures split: if_split_asm option.split_asm)
  then show ?thesis using Challenge_frame(8) [OF ch] by simp
qed

lemma try_method_failures:
  assumes "try_method env s m b st = Ret (v, st')"
  shows "au_failures st' = au_failures st \<or> m = ''none'' \<and> v = Verdict (Some NoAuthPassed) \<and> au_failures st = 0 \<and> au_failures st' = - 1"
proof -
  have "au_failures st' = au_failures st" if "try_publickey env s m b st = (v, st')"
    using that by (cases rule: try_publickey_cases) (auto dest: candidate_in_failures)
  then show ?thesis using assms interactive_failures
    by (auto simp: try_method_def bind_go_pair_iff split: if_split_asm)
qed

lemma AuthLogCallback_failures [simp]: "au_failures (AuthLogCallback m e st) = au_failures st"
  by (simp add: AuthLogCallback_def)

lemma finish_turn_failures:
  "finish_turn u m v st = (None, st') \<Longrightarrow>
     (case v of Verdict _ \<Rightarrow> au_failures st' = au_failures st + 1 | _ \<Rightarrow> au_failures st' = au_failures st)"
  by (auto simp: finish_turn_def send_def Let_def split: verdict.split_asm if_split_asm)

text \<open>The next packet is an interactive request: a guess at the passphrase and the code.\<close>

definition guess_next :: "auth_state \<Rightarrow> bool" where
  "guess_next st \<longleftrightarrow> (case au_in st of [] \<Rightarrow> False
     | p # _ \<Rightarrow> (case auth_request p of Some (_, _, m, _) \<Rightarrow> m = ''keyboard-interactive'' | None \<Rightarrow> False))"

lemma auth_turn_failures:
  assumes "auth_turn env st = Ret (None, st')" "0 \<le> au_failures st"
  shows "au_failures st' = au_failures st + 1 \<or> \<not> guess_next st \<and> au_failures st' = au_failures st" "tries_left env st"
proof -
  show "tries_left env st" using assms(1) by (auto simp: auth_turn_def)
  from assms(1) show "au_failures st' = au_failures st + 1 \<or> \<not> guess_next st \<and> au_failures st' = au_failures st"
  proof (cases rule: auth_turn_cases)
    case (request p later u m b v st2)
    have v: "\<exists>e. v = Verdict e" if "m = ''keyboard-interactive''"
      using request(3) that by (auto simp: try_method_def bind_go_pair_iff split: if_split_asm)
    have "guess_next st \<longleftrightarrow> m = ''keyboard-interactive''" using request(1,2) by (simp add: guess_next_def)
    then show ?thesis
      using finish_turn_failures [OF request(4)] try_method_failures [OF request(3)] v by (cases v) auto
  qed simp_all
qed

text \<open>The turns of a connection, with the number of guesses that failed so far.\<close>

inductive guesses :: "auth_env \<Rightarrow> auth_state \<Rightarrow> nat \<Rightarrow> auth_state \<Rightarrow> bool" for env st where
  guesses_start: "guesses env st 0 st"
| guesses_turn: "guesses env st n st1 \<Longrightarrow> auth_turn env st1 = Ret (None, st2)
     \<Longrightarrow> guesses env st (if guess_next st1 then Suc n else n) st2"

text \<open>
  C34: the number of guesses on a connection is bounded: whatever else the client sends between
  them, at most \<open>MaxAuthTries\<close> interactive attempts fail before the server hangs up.
\<close>

theorem guesses_bounded:
  assumes "guesses env (SetupAuthRequirements h packets) n st" "0 < ae_MaxAuthTries env"
  shows "int n \<le> ae_MaxAuthTries env"
proof -
  have "int n \<le> au_failures st \<and> au_failures st \<le> ae_MaxAuthTries env"
    using assms(1)
  proof induction
    case guesses_start
    then show ?case using assms(2) by (simp add: SetupAuthRequirements_def)
  next
    case (guesses_turn n st1 st2)
    then have "0 \<le> au_failures st1" by linarith
    from auth_turn_failures [OF guesses_turn(2) this] guesses_turn.IH assms(2) show ?case by auto
  qed
  then show ?thesis by linarith
qed

text \<open>
  requests with the method \<open>none\<close> are free.  The comment of the loop allows an initial one
  without penalty; any number of them in a row at the start leaves the failure count at zero.
\<close>

lemma none_requests_are_free:
  assumes "small (request_packet u ''none'' b)" "all_factors (hd_cfg h)"
  shows "\<exists>st. auth_loop env (n + k) (SetupAuthRequirements h (replicate n (request_packet u ''none'' b) @ rest))
       = auth_loop env k st \<and> au_failures st = 0 \<and> au_in st = rest"
proof -
  let ?p = "request_packet u ''none'' b"
  have turn: "\<exists>st'. auth_turn env st = Ret (None, st') \<and> au_failures st' = 0 \<and> au_in st' = later \<and> au_db st' = h"
    if "au_in st = ?p # later" "au_failures st = 0" "au_db st = h" for st later
    using that auth_request_packet [OF assms(1)] all_factors_enabled [OF assms(2)]
    by (simp add: auth_turn_def try_method_def finish_turn_def send_def AuthLogCallback_def Let_def)
  have "\<exists>st'. auth_loop env (n + k) st = auth_loop env k st' \<and> au_failures st' = 0 \<and> au_in st' = rest"
    if "au_in st = replicate n ?p @ rest" "au_failures st = 0" "au_db st = h" for st
    using that
  proof (induction n arbitrary: st)
    case (Suc n)
    then obtain st1 where "auth_turn env st = Ret (None, st1)" "au_failures st1 = 0"
      "au_in st1 = replicate n ?p @ rest" "au_db st1 = h" using turn [of st "replicate n ?p @ rest"] by auto
    then show ?case using Suc.IH [of st1] by simp
  qed auto
  then show ?thesis by (simp add: SetupAuthRequirements_def)
qed

text \<open>
  A user without a one-time-password key takes the server down.  When codes are switched on
  and the database holds a user without a key (added while they were off), anyone who names
  that login and answers with any passphrase and any non-empty code makes the callback
  dereference a nil pointer: the login does not fail, it panics.
\<close>

lemma missing_code_key_panics:
  assumes cfg: "all_factors (hd_cfg h)" and u: "users h a = Some u" "us_oneTime u = None" "us_TOTPorig u = []"
    and code: "code \<noteq> []"
    and small: "small (request_packet a ''keyboard-interactive'' [])" "small (answers_packet [pw, code])"
  shows "\<exists>m. serverAuthenticate env h [request_packet a ''keyboard-interactive'' [], answers_packet [pw, code]] = Panic m"
proof -
  let ?P = "[request_packet a ''keyboard-interactive'' [], answers_packet [pw, code]]"
  let ?env = "env\<lparr>ae_MaxAuthTries := default_tries (ae_MaxAuthTries env)\<rparr>"
  let ?st = "(SetupAuthRequirements h ?P)\<lparr>au_in := [answers_packet [pw, code]], au_user := a\<rparr>"
  have q: "length [pw, code] = length (questions (hd_cfg (au_db ?st)))"
    using cfg by (simp add: all_factors_def questions_def SetupAuthRequirements_def)
  have "au_in ?st = answers_packet [pw, code] # []" by simp
  note ch = Challenge_answered [OF this q small(2)]
  have "\<exists>m. KeyboardInteractiveCallback ?env ?st = Panic m"
    using cfg u code ch
    by (simp add: KeyboardInteractiveCallback_def SetupAuthRequirements_def Get2_def RestoreTotp_def code_valid_def
        all_factors_def Let_def)
  moreover have "tries_left ?env (SetupAuthRequirements h ?P)" by (simp add: SetupAuthRequirements_def default_tries_def)
  moreover have "au_in (SetupAuthRequirements h ?P) = ?P" by (simp add: SetupAuthRequirements_def)
  ultimately have "\<exists>m. auth_turn ?env (SetupAuthRequirements h ?P) = Panic m"
    using auth_request_packet [OF small(1)] all_factors_enabled [OF cfg]
    by (auto simp: auth_turn_def try_method_def SetupAuthRequirements_def)
  then show ?thesis using all_factors_enabled [OF cfg] by (auto simp: serverAuthenticate_def)
qed

subsection \<open>The theorems on a concrete server\<close>

definition demo_users :: user_map where
  "demo_users = [''al'' \<mapsto> NewUser\<lparr>us_MyLogin := ''al'', us_PublicKeyPath := ''/d/al.pub'', us_ScryptedPassword := ''spw'',
       us_TOTPorig := ''o''\<rparr>, ''bob'' \<mapsto> NewUser\<lparr>us_MyLogin := ''bob''\<rparr>]"

definition demo_server :: host_db where
  "demo_server = \<lparr>hd_cfg = demo_cfg, hd_Persist = \<lparr>hp_Users = demo_users, hp_HostPrivateKeyPath = ''/d.hostkey''\<rparr>,
     hd_HostSshSigner = Some demo_pub, hd_loadedFromDisk = True, hd_dbStored = True, hd_files = [''/d/al.pub'' \<mapsto> ''x'']\<rparr>"

definition demo_aenv :: auth_env where
  "demo_aenv = \<lparr>ae_host = demo_henv, ae_now = 1, ae_formatTime = (\<lambda>_. ''t''),
     ae_parseKey = (\<lambda>d. Some \<lparr>pk_Type = ''ssh-rsa'', pk_Marshal = d\<rparr>),
     ae_verify = (\<lambda>k d s. pk_Marshal k = ''M''), ae_sessionID = ''S'', ae_remote = ''r'', ae_MaxAuthTries = 0\<rparr>"

definition al :: user where
  "al = NewUser\<lparr>us_MyLogin := ''al'', us_PublicKeyPath := ''/d/al.pub'', us_ScryptedPassword := ''spw'', us_TOTPorig := ''o''\<rparr>"

lemma demo_server_facts:
  "all_factors (hd_cfg demo_server)" "ae_MaxAuthTries demo_aenv = 0" "ValidLogin ''al''" "ValidLogin ''bob''"
  "users demo_server ''al'' = Some al" "users demo_server ''bob'' = Some (NewUser\<lparr>us_MyLogin := ''bob''\<rparr>)"
  "MatchingHashAndPw (ae_host demo_aenv) al ''pw''" "right_code demo_aenv al ''123456''"
  "isAcceptableAlgo ''ssh-rsa''" "ae_parseKey demo_aenv ''K'' = Some demo_pub" "keyfiles_apart demo_server"
  "key_on_file demo_aenv demo_server al (pk_Marshal demo_pub)"
proof -
  show "keyfiles_apart demo_server"
    by (auto simp: keyfiles_apart_def demo_server_def demo_users_def db_files_def msgpath_def db_dir_def demo_cfg_def
        NewUser_def split: if_split_asm)
qed (simp_all add: all_factors_def demo_server_def demo_cfg_def NewSshegoConfig_def demo_aenv_def demo_valid demo_users_def
    al_def MatchingHashAndPw_def demo_henv_def right_code_def otp_key_def NewUser_def isAcceptableAlgo_def demo_pub_def
    key_on_file_def LoadRSAPublicKey_def)

lemmas demo_small_defs = request_packet_def Marshal_def userAuthRequestMsg_def marshal_field_def appendInt_def
  appendU32_def small_def key_payload_def enc_string_def answers_packet_def signature_bytes_def

lemma demo_small:
  "small (request_packet ''al'' ''publickey'' (key_payload (CHR 0x00) ''ssh-rsa'' ''K'' []))"
  "small (request_packet ''al'' ''keyboard-interactive'' [])" "small (request_packet ''bob'' ''keyboard-interactive'' [])"
  "small (answers_packet [''pw'', ''123456''])"
  "small (request_packet ''bob'' ''publickey'' (key_payload (CHR 0x01) ''ssh-rsa'' ''M'' (signature_bytes ''ssh-rsa'' ''sig'')))"
  "small (request_packet ''al'' ''none'' [])"
  by (simp_all add: demo_small_defs)

theorem login_as_another_user_witness:
  "\<exists>st. serverAuthenticate demo_aenv demo_server
     [request_packet ''al'' ''keyboard-interactive'' [], answers_packet [''pw'', ''123456''],
      request_packet ''al'' ''publickey'' (key_payload (CHR 0x00) ''ssh-rsa'' ''K'' []),
      request_packet ''bob'' ''publickey'' (key_payload (CHR 0x01) ''ssh-rsa'' ''M'' (signature_bytes ''ssh-rsa'' ''sig''))]
     = Ret (LoggedIn ''bob'', st)"
proof -
  let ?k = "\<lparr>pk_Type = ''ssh-rsa'', pk_Marshal = ''M''\<rparr>"
  have own: "ae_parseKey demo_aenv ''M'' = Some ?k" "ae_verify demo_aenv ?k d s" for d s by (simp_all add: demo_aenv_def)
  have "''bob'' \<noteq> ''al''" by simp
  then show ?thesis
    by (rule login_as_another_user [OF demo_server_facts(1,2,3,5,7,8,9,10,12,11,4,6) _ own demo_small(1,2,4,5)])
qed

theorem login_shows_every_factor_witness:
  "\<exists>st. serverAuthenticate demo_aenv demo_server
       [request_packet ''al'' ''publickey'' (key_payload (CHR 0x00) ''ssh-rsa'' ''K'' []),
        request_packet ''al'' ''keyboard-interactive'' [], answers_packet [''pw'', ''123456'']] = Ret (LoggedIn ''al'', st)
     \<and> evolves demo_server (au_db st)"
proof -
  obtain st where "serverAuthenticate demo_aenv demo_server
     [request_packet ''al'' ''publickey'' (key_payload (CHR 0x00) ''ssh-rsa'' ''K'' []),
      request_packet ''al'' ''keyboard-interactive'' [], answers_packet [''pw'', ''123456'']] = Ret (LoggedIn ''al'', st)"
    using login_by_query [OF demo_server_facts(1,2,3,5,7,8,9,10,12) demo_small(1,2,4)] by blast
  with login_shows_every_factor [OF this demo_server_facts(11)] show ?thesis by blast
qed

theorem guesses_bounded_witness:
  "\<exists>st. guesses (demo_aenv\<lparr>ae_MaxAuthTries := 6\<rparr>) (SetupAuthRequirements demo_server
       [request_packet ''al'' ''keyboard-interactive'' [], answers_packet [''pw'', ''123456'']]) 1 st \<and> int 1 \<le> 6"
proof -
  let ?st = "SetupAuthRequirements demo_server [request_packet ''al'' ''keyboard-interactive'' [], answers_packet [''pw'', ''123456'']]"
  let ?env = "demo_aenv\<lparr>ae_MaxAuthTries := 6\<rparr>"
  have st: "au_db ?st = demo_server" "au_failures ?st = 0" "\<not> au_PublicKeyOK ?st"
    "au_in ?st = request_packet ''al'' ''keyboard-interactive'' [] # answers_packet [''pw'', ''123456''] # []"
    using demo_server_facts(1) by (simp_all add: SetupAuthRequirements_def all_factors_def)
  obtain st1 where t: "auth_turn ?env ?st = Ret (None, st1)"
    using turn_interactive(1) [of ?st ?env "''al''" al "''pw''" "''123456''" "[]" "[]"] st demo_server_facts demo_small by auto
  have "guess_next ?st" using st(4) auth_request_packet [OF demo_small(2)] by (simp add: guess_next_def)
  then have g: "guesses ?env ?st 1 st1" using guesses_turn [OF guesses_start t] by simp
  from guesses_bounded [OF g] g show ?thesis by auto
qed

end
