(* ===== verification/Command_Port.thy ===== *)
theory Command_Port
  imports Server_Auth
begin

section \<open>The command port and the loop of the embedded server\<close>

text \<open>
  \<^verbatim>\<open>tcplock.go\<close>, \<^verbatim>\<open>netcli.go\<close> and the two goroutines of \<^verbatim>\<open>server.go\<close> that share the user
  database: \<^verbatim>\<open>CommandRecv.Start\<close>, which reads requests from a local tcp port, and
  \<^verbatim>\<open>Esshd.Start\<close>, which owns the database, accepts ssh connections one at a time and takes a
  request from \<^verbatim>\<open>CommandRecv\<close> whenever its \<^verbatim>\<open>Accept\<close> times out.  They talk over unbuffered
  channels, so every exchange is one joint step of the two.

  The system is a state machine: a program counter for each goroutine, the database and the
  replies written so far; \<open>cp_next\<close> gives the effect of an event on a state, \<^const>\<open>None\<close>
  when the event is not possible there.  A panic in either goroutine ends the process.

  Sockets, the clock and the generated msgpack code (\<^verbatim>\<open>user_gen.go\<close> over a package that is
  not in the repository) are parameters.
\<close>

subsection \<open>The port as a lock\<close>

datatype lock_err = ErrCouldNotAquirePort | ErrXport string

definition port_addr :: "int \<Rightarrow> string" where
  "port_addr port = ''127.0.0.1:'' @ show_int port"

text \<open>
  The loop of \<open>Lock\<close>: \<open>listen k\<close> says whether the \<open>k\<close>-th attempt to bind succeeds and \<open>clock k\<close>
  is the time in milliseconds since the start after the sleep that follows it.  It may run for
  ever: without a deadline, when the port is never free.
\<close>

partial_function (option) lock_loop ::
    "(nat \<Rightarrow> bool) \<Rightarrow> (nat \<Rightarrow> int) \<Rightarrow> int \<Rightarrow> int \<Rightarrow> nat \<Rightarrow> lock_err option option" where
  "lock_loop listen clock port limitMsec k =
     (if listen k then Some None
      else if 0 < limitMsec \<and> limitMsec < clock k then Some (Some (ErrXport (port_addr port)))
      else lock_loop listen clock port limitMsec (Suc k))"

definition Lock :: "(nat \<Rightarrow> bool) \<Rightarrow> (nat \<Rightarrow> int) \<Rightarrow> int \<Rightarrow> int \<Rightarrow> lock_err option go" where
  "Lock listen clock port limitMsec =
     (case lock_loop listen clock port limitMsec 0 of None \<Rightarrow> Hang | Some e \<Rightarrow> Ret e)"

subsection \<open>Requests and replies\<close>

definition NewUserCmd :: bytes where "NewUserCmd = ''00NEWUSER___''"
definition NewUserReply :: bytes where "NewUserReply = ''00REPLY_____''"
definition DelUserCmd :: bytes where "DelUserCmd = ''01DELUSER___''"
definition DelUserReplyOK :: bytes where "DelUserReplyOK = ''01REPLY_OK__''"
definition DelUserReplyFailed :: bytes where "DelUserReplyFailed = ''01REPLY_FAIL''"

datatype user_cmd = CmdNew | CmdDel

record cp_env =
  ce_encode :: "user \<Rightarrow> bytes"          \<comment> \<open>\<^verbatim>\<open>MarshalMsg\<close>, \<^verbatim>\<open>EncodeMsg\<close>\<close>
  ce_decode :: "bytes \<Rightarrow> user option"   \<comment> \<open>\<^verbatim>\<open>UnmarshalMsg\<close>, \<^verbatim>\<open>DecodeMsg\<close>; None is an error\<close>

text \<open>
  The first \<^verbatim>\<open>Read\<close> fills a buffer of twelve bytes with what has arrived (\<open>chunk\<close>; the rest of
  the buffer stays zero); the user is decoded from what follows.
\<close>

definition fill_buffer :: "bytes \<Rightarrow> bytes" where
  "fill_buffer chunk = chunk @ replicate (length NewUserCmd - length chunk) (CHR 0x00)"

definition recv_request :: "cp_env \<Rightarrow> bytes \<Rightarrow> bytes \<Rightarrow> (user_cmd \<times> user) option" where
  "recv_request env chunk rest =
     (let cmd = fill_buffer chunk in
      if cmd = NewUserCmd then map_option (Pair CmdNew) (ce_decode env rest)
      else if cmd = DelUserCmd then map_option (Pair CmdDel) (ce_decode env rest)
      else None)"

text \<open>The client side; \<open>net\<close> is what the server answers to what is sent, None when dialling, writing or reading fails.\<close>

datatype net_err = ErrNegativePort int | ErrDeleteFailed

definition TcpClientUserAdd :: "cp_env \<Rightarrow> (bytes \<Rightarrow> bytes option) \<Rightarrow> int \<Rightarrow> user
    \<Rightarrow> (net_err + string \<times> string \<times> string) go" where
  "TcpClientUserAdd env net port u =
     (if port < 0 then Ret (Inl (ErrNegativePort port))
      else case net (NewUserCmd @ ce_encode env u) of
        None \<Rightarrow> Panic ''panicOn''
      | Some dat \<Rightarrow>
          if length dat < length NewUserReply then Panic ''expected preamble''
          else (case ce_decode env (drop (length NewUserReply) dat) of
             None \<Rightarrow> Panic ''panicOn''
           | Some r \<Rightarrow> Ret (Inr (us_TOTPpath r, us_QrPath r, us_PrivateKeyPath r))))"

definition TcpClientUserDel :: "cp_env \<Rightarrow> (bytes \<Rightarrow> bytes option) \<Rightarrow> int \<Rightarrow> user \<Rightarrow> net_err option go" where
  "TcpClientUserDel env net port u =
     (if port < 0 then Ret (Some (ErrNegativePort port))
      else case net (DelUserCmd @ ce_encode env u) of
        None \<Rightarrow> Panic ''panicOn''
      | Some dat \<Rightarrow>
          if length dat < length DelUserReplyFailed then Panic ''expected preamble''
          else if take (length DelUserReplyFailed) dat = DelUserReplyFailed then Ret (Some ErrDeleteFailed)
          else Ret None)"

subsection \<open>The two goroutines\<close>

datatype cr_pc = CrIdle | CrSend user_cmd user | CrAwait user_cmd | CrStopped

datatype es_pc = EsIdle | EsReplyUser user | EsReplyDone bool | EsStopped

record cp_sys =
  cp_cr :: cr_pc
  cp_conn :: nat                        \<comment> \<open>connections accepted on the command port; the last is the current one\<close>
  cp_es :: es_pc
  cp_db :: host_db
  cp_HostKey :: "pub_key option"        \<comment> \<open>\<^verbatim>\<open>a.HostKey\<close>\<close>
  cp_out :: "(nat \<times> bytes) list"        \<comment> \<open>replies written, with their connection\<close>
  cp_ctx :: bool                        \<comment> \<open>the context is cancelled\<close>
  cp_halt :: bool                       \<comment> \<open>\<^verbatim>\<open>Halt.RequestStop\<close> was called\<close>
  cp_reqStop :: bool                    \<comment> \<open>\<^verbatim>\<open>cr.reqStop\<close> is closed\<close>

datatype cp_event =
    CrAccept bytes bytes       \<comment> \<open>a connection: the first read, and the bytes after it\<close>
  | CrReadFail                 \<comment> \<open>a connection whose first read fails or times out\<close>
  | CrGiveUp                   \<comment> \<open>ten seconds without a receiver for the request\<close>
  | CrQuit
  | EsTake host_env            \<comment> \<open>\<^verbatim>\<open>Accept\<close> timed out; a request is received and served\<close>
  | EsReply bool               \<comment> \<open>the reply is handed over and written; false: the write fails\<close>
  | EsUpdateHostKey pub_key
  | EsLogin auth_env "bytes list"
  | EsQuit
  | CtxDone
  | HaltRequested

text \<open>\<open>Esshd.Start\<close>: the port must be ours unless there is no command port; a failing \<^verbatim>\<open>Listen\<close> only ends the second goroutine.\<close>

definition Esshd_Start :: "lock_err option \<Rightarrow> bool \<Rightarrow> host_db \<Rightarrow> cp_sys go" where
  "Esshd_Start lockErr listens h =
     (if \<not> cf_SkipCommandRecv (hd_cfg h) \<and> lockErr \<noteq> None then Panic ''-xport error''
      else Ret \<lparr>cp_cr = (if cf_SkipCommandRecv (hd_cfg h) then CrStopped else CrIdle), cp_conn = 0,
                cp_es = (if listens then EsIdle else EsStopped), cp_db = h, cp_HostKey = hd_HostSshSigner h,
                cp_out = [], cp_ctx = False, cp_halt = False, cp_reqStop = False\<rparr>)"

text \<open>The request that is served, and the reply that goes back.\<close>

definition serve_request :: "host_env \<Rightarrow> user_cmd \<Rightarrow> user \<Rightarrow> host_db \<Rightarrow> (es_pc \<times> host_db) go" where
  "serve_request env cmd u h =
     (case cmd of
        CmdNew \<Rightarrow> bind_go (serve_add env u h) (\<lambda>(u', h'). Ret (EsReplyUser u', h'))
      | CmdDel \<Rightarrow> bind_go (serve_del env u h) (\<lambda>(ok, h'). Ret (EsReplyDone ok, h')))"

fun reply_bytes :: "cp_env \<Rightarrow> es_pc \<Rightarrow> bytes" where
  "reply_bytes env (EsReplyUser u) = NewUserReply @ ce_encode env u"
| "reply_bytes env (EsReplyDone ok) = (if ok then DelUserReplyOK else DelUserReplyFailed)"
| "reply_bytes env _ = []"

text \<open>The two reply channels: a created user goes to a pending addition, a result to a pending deletion.\<close>

fun reply_fits :: "es_pc \<Rightarrow> cr_pc \<Rightarrow> bool" where
  "reply_fits (EsReplyUser u) (CrAwait CmdNew) = True"
| "reply_fits (EsReplyDone ok) (CrAwait CmdDel) = True"
| "reply_fits _ _ = False"

fun replying :: "es_pc \<Rightarrow> bool" where
  "replying (EsReplyUser u) = True"
| "replying (EsReplyDone ok) = True"
| "replying _ = False"

text \<open>The loop of \<open>CommandRecv.Start\<close>.\<close>

fun cr_next :: "cp_env \<Rightarrow> cp_event \<Rightarrow> cp_sys \<Rightarrow> cp_sys go option" where
  "cr_next env (CrAccept chunk rest) s =
     (if cp_cr s = CrIdle \<and> length chunk \<le> length NewUserCmd
      then Some (Ret (s\<lparr>cp_conn := Suc (cp_conn s),
             cp_cr := (case recv_request env chunk rest of None \<Rightarrow> CrIdle | Some (cmd, u) \<Rightarrow> CrSend cmd u)\<rparr>))
      else None)"
| "cr_next env CrReadFail s =
     (if cp_cr s = CrIdle then Some (Ret (s\<lparr>cp_conn := Suc (cp_conn s)\<rparr>)) else None)"
| "cr_next env CrGiveUp s =
     (case cp_cr s of CrSend cmd u \<Rightarrow> Some (Ret (s\<lparr>cp_cr := CrAwait cmd\<rparr>)) | _ \<Rightarrow> None)"
| "cr_next env CrQuit s =
     (if cp_cr s \<noteq> CrStopped \<and> (cp_ctx s \<or> cp_reqStop s) then Some (Ret (s\<lparr>cp_cr := CrStopped\<rparr>)) else None)"
| "cr_next env _ s = None"

text \<open>The loop of \<open>Esshd.Start\<close>; handing over a reply is a joint step, in which \<open>CommandRecv\<close> writes it.\<close>

fun es_next :: "cp_env \<Rightarrow> cp_event \<Rightarrow> cp_sys \<Rightarrow> cp_sys go option" where
  "es_next env (EsTake henv) s =
     (case (cp_es s, cp_cr s) of
        (EsIdle, CrSend cmd u) \<Rightarrow>
          Some (bind_go (serve_request henv cmd u (cp_db s)) (\<lambda>(r, h').
            Ret (s\<lparr>cp_es := r, cp_cr := CrAwait cmd, cp_db := h'\<rparr>)))
      | _ \<Rightarrow> None)"
| "es_next env (EsReply written) s =
     (if reply_fits (cp_es s) (cp_cr s)
      then Some (if written
                 then Ret (s\<lparr>cp_es := EsIdle, cp_cr := CrIdle,
                        cp_out := cp_out s @ [(cp_conn s, reply_bytes env (cp_es s))]\<rparr>)
                 else Panic ''panicOn'')
      else None)"
| "es_next env (EsUpdateHostKey k) s =
     (if cp_es s = EsIdle then Some (Ret (s\<lparr>cp_HostKey := Some k\<rparr>)) else None)"
| "es_next env (EsLogin aenv packets) s =
     (if cp_es s = EsIdle
      then Some (bind_go (serverAuthenticate aenv (cp_db s) packets) (\<lambda>(r, st). Ret (s\<lparr>cp_db := au_db st\<rparr>)))
      else None)"
| "es_next env EsQuit s =
     (if (cp_es s = EsIdle \<and> (cp_ctx s \<or> cp_halt s)) \<or> (replying (cp_es s) \<and> cp_halt s)
      then Some (Ret (s\<lparr>cp_es := EsStopped, cp_reqStop := True\<rparr>)) else None)"
| "es_next env _ s = None"

fun cp_next :: "cp_env \<Rightarrow> cp_event \<Rightarrow> cp_sys \<Rightarrow> cp_sys go option" where
  "cp_next env (CrAccept chunk rest) s = cr_next env (CrAccept chunk rest) s"
| "cp_next env CrReadFail s = cr_next env CrReadFail s"
| "cp_next env CrGiveUp s = cr_next env CrGiveUp s"
| "cp_next env CrQuit s = cr_next env CrQuit s"
| "cp_next env (EsTake henv) s = es_next env (EsTake henv) s"
| "cp_next env (EsReply written) s = es_next env (EsReply written) s"
| "cp_next env (EsUpdateHostKey k) s = es_next env (EsUpdateHostKey k) s"
| "cp_next env (EsLogin aenv packets) s = es_next env (EsLogin aenv packets) s"
| "cp_next env EsQuit s = es_next env EsQuit s"
| "cp_next env CtxDone s = Some (Ret (s\<lparr>cp_ctx := True\<rparr>))"
| "cp_next env HaltRequested s = Some (Ret (s\<lparr>cp_halt := True\<rparr>))"

text \<open>A run: the events in order, every one possible and none of them a panic.\<close>

fun cp_run :: "cp_env \<Rightarrow> cp_event list \<Rightarrow> cp_sys \<Rightarrow> cp_sys option" where
  "cp_run env [] s = Some s"
| "cp_run env (ev # evs) s =
     (case cp_next env ev s of Some (Ret s') \<Rightarrow> cp_run env evs s' | _ \<Rightarrow> None)"

end
