(* ===== verification/User_Mgmt.thy ===== *)
theory User_Mgmt
  imports Command_Port "HOL-Library.Signed_Division"
begin

section \<open>Managing users from the command line\<close>

text \<open>
  \<^verbatim>\<open>usermgt.go\<close> (the decisions of \<^verbatim>\<open>AddUserAndExit\<close> and \<^verbatim>\<open>DelUserAndExit\<close>; the report that
  is printed and mailed afterwards is not modelled), \<^verbatim>\<open>prompt.go\<close>, \<^verbatim>\<open>cryrand.go\<close> and the
  choice of an address in \<^verbatim>\<open>ipaddr.go\<close>.

  The console gives one line to each read; reading past the last line is an error, on which
  the code panics.  Random bytes are arguments.
\<close>

subsection \<open>Random numbers\<close>

text \<open>\<open>binary.LittleEndian.Uint64\<close> of eight random bytes.\<close>

definition CryptoRandInt64 :: "bytes \<Rightarrow> u64" where
  "CryptoRandInt64 b = Uint64 (rev b)"

text \<open>Go negates with wrap-around and its remainder has the sign of the dividend; a zero divisor panics.\<close>

definition go_neg :: "u64 \<Rightarrow> u64" where
  "go_neg x = (if sint x < 0 then - x else x)"

definition CryptoRandNonNegInt :: "bytes \<Rightarrow> u64 \<Rightarrow> u64 go" where
  "CryptoRandNonNegInt b n =
     (if n = 0 then Panic ''integer divide by zero''
      else Ret (word_of_int (sint (go_neg (CryptoRandInt64 b)) smod sint n)))"

definition random_alphabet :: string where
  "random_alphabet = ''0123456789abcdefghijklmnopqrstuvwxyz''"

fun RandomString :: "bytes list \<Rightarrow> string go" where
  "RandomString [] = Ret []"
| "RandomString (b # bs) =
     (let k = sint (go_neg (CryptoRandInt64 b)) smod int (length random_alphabet) in
      if k < 0 then Panic ''index out of range''
      else bind_go (RandomString bs) (\<lambda>s. Ret (random_alphabet ! nat k # s)))"

text \<open>The pause before every interactive reply, in milliseconds.\<close>

definition wait_msec :: "bytes \<Rightarrow> u64 go" where
  "wait_msec b = bind_go (CryptoRandNonNegInt b 1000) (\<lambda>n. Ret (1000 + n))"

subsection \<open>Asking for a passphrase\<close>

datatype prompt_err = PhraseTooShort | PhraseTooLong | PhraseMismatch nat string string

fun scan_diff :: "string \<Rightarrow> string \<Rightarrow> nat" where
  "scan_diff (x # xs) (y # ys) = (if x = y then Suc (scan_diff xs ys) else 0)"
| "scan_diff _ _ = 0"

definition firstDiff :: "string \<Rightarrow> string \<Rightarrow> nat" where
  "firstDiff a b = (if a = [] \<or> b = [] then 0 else scan_diff a b)"

definition line_end :: string where
  "line_end = [CHR 0x0A, CHR 0x0D]"

fun prompt_loop :: "nat \<Rightarrow> string \<Rightarrow> string list \<Rightarrow> prompt_err option \<Rightarrow> (string \<times> prompt_err option \<times> string list) go" where
  "prompt_loop 0 start lines err = Ret ([], err, lines)"
| "prompt_loop (Suc n) start [] err = Panic ''panicOn''"
| "prompt_loop (Suc n) start (l # ls) err =
     (let e = Trim l line_end; pw = start @ e in
      if length e < 3 then prompt_loop n start ls (Some PhraseTooShort)
      else if 100 < length e then prompt_loop n start ls (Some PhraseTooLong)
      else (case ls of
          [] \<Rightarrow> Panic ''panicOn''
        | l2 # ls2 \<Rightarrow>
            let pw2 = Trim l2 line_end in
            if pw \<noteq> pw2 then prompt_loop n start ls2 (Some (PhraseMismatch (firstDiff pw pw2 + 1) pw pw2))
            else Ret (pw, None, ls2)))"

text \<open>\<open>starter\<close> is what \<^verbatim>\<open>dict.GetNewPasswordStarter\<close> returns.\<close>

definition PromptForPassword :: "string \<Rightarrow> string list \<Rightarrow> (string \<times> prompt_err option \<times> string list) go" where
  "PromptForPassword starter lines = prompt_loop 3 (starter @ '' '') lines None"

subsection \<open>Adding and deleting\<close>

record um_env =
  um_host :: host_env
  um_cp :: cp_env
  um_net :: "bytes \<Rightarrow> bytes option"   \<comment> \<open>the server behind the command port\<close>
  um_listen :: "nat \<Rightarrow> bool"           \<comment> \<open>the attempts to bind the command port\<close>
  um_clock :: "nat \<Rightarrow> int"
  um_starter :: string

definition text_blanks :: string where
  "text_blanks = [CHR 0x0A, CHR 0x0D, CHR 0x09, CHR '' '']"

text \<open>The questions: e-mail address (None when it is refused), backup, name, passphrase.\<close>

definition ask_details :: "um_env \<Rightarrow> sshego_config \<Rightarrow> string list
    \<Rightarrow> (string \<times> string \<times> string) option go" where
  "ask_details env cfg lines =
     (case lines of
        [] \<Rightarrow> Panic ''panicOn''
      | l1 # ls1 \<Rightarrow>
          let myemail = Trim l1 text_blanks in
          if \<not> ValidEmail myemail then Ret None
          else (case ls1 of
              yn # l3 # ls3 \<Rightarrow>
                let fullname = Trim l3 text_blanks in
                if cf_SkipPassphrase cfg then Ret (Some (myemail, fullname, []))
                else bind_go (PromptForPassword (um_starter env) ls3) (\<lambda>(pw, e, _).
                  Ret (if e = None then Some (myemail, fullname, pw) else None))
            | _ \<Rightarrow> Panic ''panicOn''))"

text \<open>The exit code and the database as this process leaves it.\<close>

definition AddUserAndExit :: "um_env \<Rightarrow> sshego_config \<Rightarrow> string list \<Rightarrow> disk \<Rightarrow> (nat \<times> host_db) go" where
  "AddUserAndExit env cfg lines files =
     bind_go (NewHostDb (um_host env) cfg files) (\<lambda>(e0, h).
     if e0 \<noteq> None then Panic ''panicOn''
     else if UserExists h (cf_AddUser cfg) \<or> cf_SshegoSystemMutexPort cfg < 0 \<or> \<not> ValidLogin (cf_AddUser cfg)
     then Ret (1, h)
     else bind_go (ask_details env cfg lines) (\<lambda>d.
       case d of
         None \<Rightarrow> Ret (1, h)
       | Some (myemail, fullname, pw) \<Rightarrow>
           bind_go (Lock (um_listen env) (um_clock env) (cf_SshegoSystemMutexPort cfg) 5000) (\<lambda>lockErr.
           if lockErr = Some ErrCouldNotAquirePort
           then bind_go (TcpClientUserAdd (um_cp env) (um_net env) (cf_SshegoSystemMutexPort cfg)
                  (NewUser\<lparr>us_MyLogin := cf_AddUser cfg, us_MyEmail := myemail, us_MyFullname := fullname,
                           us_ClearPw := pw, us_Issuer := ''gosshtun''\<rparr>))
                  (\<lambda>r. case r of Inl _ \<Rightarrow> Panic ''panicOn'' | Inr _ \<Rightarrow> Ret (0, h))
           else bind_go (AddUser (um_host env) (cf_AddUser cfg) myemail pw ''gosshtun'' fullname [] h)
                  (\<lambda>(_, e, h'). if e = None then Ret (0, h') else Panic ''panicOn''))))"

definition DelUserAndExit :: "um_env \<Rightarrow> sshego_config \<Rightarrow> disk \<Rightarrow> (nat \<times> host_db option) go" where
  "DelUserAndExit env cfg files =
     bind_go (Lock (um_listen env) (um_clock env) (cf_SshegoSystemMutexPort cfg) 5000) (\<lambda>lockErr.
     if lockErr = Some ErrCouldNotAquirePort
     then bind_go (TcpClientUserDel (um_cp env) (um_net env) (cf_SshegoSystemMutexPort cfg)
            (NewUser\<lparr>us_MyLogin := cf_DelUser cfg\<rparr>)) (\<lambda>e. Ret (if e = None then 0 else 1, None))
     else bind_go (NewHostDb (um_host env) cfg files) (\<lambda>(e0, h).
       if e0 \<noteq> None then Ret (1, Some h)
       else bind_go (DelUser (um_host env) (cf_DelUser cfg) h) (\<lambda>(e, h').
         Ret (if e = None then 0 else 1, Some h'))))"

subsection \<open>Choosing an address\<close>

definition ipv4_shape :: "string \<Rightarrow> bool" where
  "ipv4_shape s \<longleftrightarrow> length (Split (CHR ''.'') s) = 4 \<and> list_all (\<lambda>p. p \<noteq> [] \<and> list_all is_digit p) (Split (CHR ''.'') s)"

text \<open>The alternatives of \<^verbatim>\<open>privateIPv4addr\<close>, all anchored at the start.\<close>

definition IsRoutableIPv4 :: "string \<Rightarrow> bool" where
  "IsRoutableIPv4 ip \<longleftrightarrow>
     \<not> (list_ex (HasPrefix ip)
          ([''127.0.0.1'', ''10.''] @ map (\<lambda>d. ''172.1'' @ [d] @ ''.'') ''6789''
           @ map (\<lambda>d. ''172.2'' @ [d] @ ''.'') ''0123456789'' @ map (\<lambda>d. ''172.3'' @ [d] @ ''.'') ''01''
           @ [''192.168.'']))"

text \<open>\<open>addrs\<close>: the texts of the interface addresses that are ip networks and not loopback.\<close>

definition GetExternalIP :: "string list \<Rightarrow> string" where
  "GetExternalIP addrs =
     (case filter (\<lambda>a. ipv4_shape a \<and> a \<noteq> ''127.0.0.1'') addrs of
        [] \<Rightarrow> ''127.0.0.1''
      | [a] \<Rightarrow> a
      | a # as \<Rightarrow> (case find IsRoutableIPv4 (a # as) of Some ip \<Rightarrow> ip | None \<Rightarrow> a))"

end
