(* ===== verification/Command_Port_Proofs.thy ===== *)
theory Command_Port_Proofs
  imports Command_Port Host_Db_Proofs
begin

section \<open>Correctness of the command port\<close>

text \<open>
  The port lock returns within its deadline and never returns the error its callers look for.
  The two goroutines implement a server that handles each request in one atomic step: the
  replies are those of the requests, in their order and each on its own connection, as long as
  no request waits ten seconds for the server loop; after such a wait the command port never
  answers again.
\<close>

subsection \<open>The port lock\<close>

lemma lock_loop_error:
  "lock_loop listen clock port lim k = Some y \<Longrightarrow> y = None \<or> y = Some (ErrXport (port_addr port))"
  by (rule lock_loop.raw_induct [where P = "\<lambda>_ _ port _ _ y. y = None \<or> y = Some (ErrXport (port_addr port))"])
    (auto split: if_split_asm)

lemma lock_loop_returns:
  assumes "0 < lim" "\<And>k. 10 * (int k + 1) \<le> clock k"
  shows "\<exists>e. lock_loop listen clock port lim k = Some e"
proof (induction "nat lim - k" arbitrary: k rule: less_induct)
  case less
  show ?case
  proof (cases "listen k \<or> lim < clock k")
    case True
    then show ?thesis using assms(1) by (subst lock_loop.simps) auto
  next
    case False
    then have "int k < lim" using assms(2) [of k] by simp
    then have "nat lim - Suc k < nat lim - k" by linarith
    from less [OF this] False show ?thesis by (subst lock_loop.simps) auto
  qed
qed

text \<open>Each attempt sleeps ten milliseconds, so \<open>Lock\<close> with a deadline returns.\<close>

lemma Lock_returns:
  assumes "0 < lim" "\<And>k. 10 * (int k + 1) \<le> clock k"
  shows "Lock listen clock port lim = Ret None \<or> Lock listen clock port lim = Ret (Some (ErrXport (port_addr port)))"
  using lock_loop_returns [OF assms, of listen port 0] lock_loop_error [of listen clock port lim 0]
  by (auto simp: Lock_def)

lemma lock_loop_busy: "(\<And>k. \<not> listen k) \<Longrightarrow> lock_loop listen clock port lim k \<noteq> Some None"
proof
  assume free: "\<And>k. \<not> listen k" and "lock_loop listen clock port lim k = Some None"
  from this(2) have "\<exists>k. listen k"
    by (rule lock_loop.raw_induct [where P = "\<lambda>listen _ _ _ _ y. y = None \<longrightarrow> (\<exists>k. listen k)", THEN mp, rotated])
      (auto split: if_split_asm)
  with free show False by blast
qed

lemma Lock_busy:
  assumes "0 < lim" "\<And>k. 10 * (int k + 1) \<le> clock k" "\<And>k. \<not> listen k"
  shows "Lock listen clock port lim = Ret (Some (ErrXport (port_addr port)))"
  using Lock_returns [OF assms(1,2), of listen port] lock_loop_busy [of listen clock port lim 0] assms(3)
  by (auto simp: Lock_def split: option.splits)

subsection \<open>A server that handles requests atomically\<close>

text \<open>
  The specification: the state is the database and the replies given; a step serves one
  request of one connection, or processes one login.
\<close>

datatype spec_op = Serve host_env nat user_cmd user | LogIn auth_env "bytes list"

fun spec_step :: "cp_env \<Rightarrow> spec_op \<Rightarrow> host_db \<times> (nat \<times> bytes) list \<Rightarrow> (host_db \<times> (nat \<times> bytes) list) option" where
  "spec_step env (Serve henv n cmd u) (h, outs) =
     (case serve_request henv cmd u h of
        Ret (r, h') \<Rightarrow> Some (h', outs @ [(n, reply_bytes env r)]) | _ \<Rightarrow> None)"
| "spec_step env (LogIn aenv packets) (h, outs) =
     (case serverAuthenticate aenv h packets of Ret (r, st) \<Rightarrow> Some (au_db st, outs) | _ \<Rightarrow> None)"

fun spec_run :: "cp_env \<Rightarrow> spec_op list \<Rightarrow> host_db \<times> (nat \<times> bytes) list \<Rightarrow> (host_db \<times> (nat \<times> bytes) list) option" where
  "spec_run env [] st = Some st"
| "spec_run env (x # xs) st = (case spec_step env x st of None \<Rightarrow> None | Some st' \<Rightarrow> spec_run env xs st')"

fun op_request :: "spec_op \<Rightarrow> (nat \<times> user_cmd \<times> user) list" where
  "op_request (Serve henv n cmd u) = [(n, cmd, u)]"
| "op_request (LogIn aenv packets) = []"

definition served :: "spec_op list \<Rightarrow> (nat \<times> user_cmd \<times> user) list" where
  "served ops = concat (map op_request ops)"

text \<open>The well-formed requests of the accepted connections, numbered by connection.\<close>

definition connects :: "cp_event \<Rightarrow> bool" where
  "connects ev = (case ev of CrAccept _ _ \<Rightarrow> True | CrReadFail \<Rightarrow> True | _ \<Rightarrow> False)"

definition event_request :: "cp_env \<Rightarrow> nat \<Rightarrow> cp_event \<Rightarrow> (nat \<times> user_cmd \<times> user) list" where
  "event_request env n ev =
     (case ev of CrAccept chunk rest \<Rightarrow>
        (case recv_request env chunk rest of None \<Rightarrow> [] | Some (cmd, u) \<Rightarrow> [(Suc n, cmd, u)]) | _ \<Rightarrow> [])"

fun accepted :: "cp_env \<Rightarrow> nat \<Rightarrow> cp_event list \<Rightarrow> (nat \<times> user_cmd \<times> user) list" where
  "accepted env n [] = []"
| "accepted env n (ev # evs) = event_request env n ev @ accepted env (if connects ev then Suc n else n) evs"

lemma cp_run_snoc:
  "cp_run env (evs @ [ev]) s = Some s' \<longleftrightarrow> (\<exists>s1. cp_run env evs s = Some s1 \<and> cp_next env ev s1 = Some (Ret s'))"
  by (induction evs arbitrary: s) (auto split: option.splits go.splits)

lemma spec_run_append:
  "spec_run env (xs @ ys) st = (case spec_run env xs st of None \<Rightarrow> None | Some st' \<Rightarrow> spec_run env ys st')"
  by (induction xs arbitrary: st) (auto split: option.splits)

lemma served_append: "served (xs @ ys) = served xs @ served ys"
  by (simp add: served_def)

lemma accepted_append:
  "accepted env n (xs @ ys) = accepted env n xs @ accepted env (n + length (filter connects xs)) ys"
  by (induction xs arbitrary: n) auto

subsection \<open>The simulation\<close>

text \<open>The reply that is computed and not yet handed over; the request that waits for the server loop.\<close>

fun pend :: "cp_env \<Rightarrow> nat \<Rightarrow> es_pc \<Rightarrow> (nat \<times> bytes) list" where
  "pend env n (EsReplyUser u) = [(n, reply_bytes env (EsReplyUser u))]"
| "pend env n (EsReplyDone ok) = [(n, reply_bytes env (EsReplyDone ok))]"
| "pend env n _ = []"

fun waiting :: "nat \<Rightarrow> cr_pc \<Rightarrow> (nat \<times> user_cmd \<times> user) list" where
  "waiting n (CrSend cmd u) = [(n, cmd, u)]"
| "waiting n _ = []"

text \<open>
  How a state of the two goroutines represents one of the specification.  The reply in hand is
  for the connection that waits for it; a goroutine that was told to stop may leave the last
  reply or the last request behind.
\<close>

definition sim :: "cp_env \<Rightarrow> host_db \<Rightarrow> cp_event list \<Rightarrow> cp_sys \<Rightarrow> spec_op list \<Rightarrow> (nat \<times> bytes) list \<Rightarrow> bool" where
  "sim env h evs s ops outs \<longleftrightarrow>
     spec_run env ops (h, []) = Some (cp_db s, outs)
   \<and> cp_conn s = length (filter connects evs)
   \<and> (if cp_es s = EsStopped then outs = cp_out s \<or> (\<exists>r. outs = cp_out s @ [r]) else outs = cp_out s @ pend env (cp_conn s) (cp_es s))
   \<and> (if cp_cr s = CrStopped
      then accepted env 0 evs = served ops \<or> (\<exists>r. accepted env 0 evs = served ops @ [r])
      else accepted env 0 evs = served ops @ waiting (cp_conn s) (cp_cr s))
   \<and> (replying (cp_es s) \<longrightarrow> cp_cr s = CrStopped \<or> reply_fits (cp_es s) (cp_cr s))
   \<and> (\<forall>cmd. cp_cr s = CrAwait cmd \<longrightarrow> cp_es s = EsStopped \<or> reply_fits (cp_es s) (cp_cr s))"

lemma serve_request_reply:
  "serve_request henv cmd u h = Ret (r, h') \<Longrightarrow> replying r \<and> reply_fits r (CrAwait cmd)"
  by (cases cmd) (auto simp: serve_request_def bind_go_pair_iff)

lemma sim_take:
  assumes sim: "sim env h evs s ops outs" and step: "cp_next env (EsTake henv) s = Some (Ret s')"
  shows "\<exists>ops outs. sim env h (evs @ [EsTake henv]) s' ops outs"
proof -
  obtain cmd u r h' where pc: "cp_es s = EsIdle" "cp_cr s = CrSend cmd u"
      and run: "serve_request henv cmd u (cp_db s) = Ret (r, h')"
      and s': "s' = s\<lparr>cp_es := r, cp_cr := CrAwait cmd, cp_db := h'\<rparr>"
    using step by (auto simp: bind_go_pair_iff split: es_pc.split_asm cr_pc.split_asm)
  note serve_request_reply [OF run]
  then have "sim env h (evs @ [EsTake henv]) s' (ops @ [Serve henv (cp_conn s) cmd u])
      (outs @ [(cp_conn s, reply_bytes env r)])"
    using sim pc run
    by (cases r) (auto simp: s' sim_def spec_run_append served_append served_def
        accepted_append connects_def event_request_def)
  then show ?thesis by blast
qed

lemma sim_login:
  assumes sim: "sim env h evs s ops outs" and step: "cp_next env (EsLogin aenv packets) s = Some (Ret s')"
  shows "\<exists>ops outs. sim env h (evs @ [EsLogin aenv packets]) s' ops outs"
proof -
  obtain r st where pc: "cp_es s = EsIdle" and run: "serverAuthenticate aenv (cp_db s) packets = Ret (r, st)"
      and s': "s' = s\<lparr>cp_db := au_db st\<rparr>"
    using step by (auto simp: bind_go_pair_iff split: if_split_asm)
  have "sim env h (evs @ [EsLogin aenv packets]) s' (ops @ [LogIn aenv packets]) outs"
    using sim pc run
    by (auto simp: s' sim_def spec_run_append served_append served_def
        accepted_append connects_def event_request_def)
  then show ?thesis by blast
qed

lemma sim_step:
  assumes sim: "sim env h evs s ops outs" and step: "cp_next env ev s = Some (Ret s')" and "ev \<noteq> CrGiveUp"
  shows "\<exists>ops outs. sim env h (evs @ [ev]) s' ops outs"
proof (cases "(\<exists>henv. ev = EsTake henv) \<or> (\<exists>aenv packets. ev = EsLogin aenv packets)")
  case True
  then show ?thesis using sim_take sim_login sim step by blast
next
  case False
  note defs = sim_def accepted_append connects_def event_request_def
  have "sim env h (evs @ [ev]) s' ops outs"
  proof (cases ev)
    case (CrAccept chunk rest)
    with sim step show ?thesis
      by (cases "recv_request env chunk rest"; cases "cp_es s") (auto simp: defs split: if_split_asm)
  next
    case (EsReply written)
    with sim step show ?thesis
      by (cases "cp_es s"; cases "cp_cr s") (auto simp: defs split: if_split_asm)
  next
    case EsQuit
    with sim step show ?thesis by (cases "cp_es s"; cases "cp_cr s") (auto simp: defs split: if_split_asm)
  next
    case CrQuit
    with sim step show ?thesis by (cases "cp_cr s") (auto simp: defs split: if_split_asm)
  next
    case CrReadFail
    with sim step show ?thesis by (cases "cp_es s") (auto simp: defs split: if_split_asm)
  next
    case (EsUpdateHostKey k)
    with sim step show ?thesis by (auto simp: defs split: if_split_asm)
  next
    case CtxDone
    with sim step show ?thesis by (auto simp: defs)
  next
    case HaltRequested
    with sim step show ?thesis by (auto simp: defs)
  qed (use False assms(3) in simp_all)
  then show ?thesis by blast
qed

lemma sim_start:
  assumes "Esshd_Start lockErr listens h = Ret s0"
  shows "sim env h [] s0 [] []"
  using assms by (auto simp: Esshd_Start_def sim_def served_def split: if_split_asm)

lemma sim_run:
  assumes "Esshd_Start lockErr listens h = Ret s0"
  shows "cp_run env evs s0 = Some s \<Longrightarrow> CrGiveUp \<notin> set evs \<Longrightarrow> \<exists>ops outs. sim env h evs s ops outs"
proof (induction evs arbitrary: s rule: rev_induct)
  case Nil
  then show ?case using sim_start [OF assms] by auto
next
  case (snoc ev evs)
  then obtain s1 where s1: "cp_run env evs s0 = Some s1" "cp_next env ev s1 = Some (Ret s)"
    by (auto simp: cp_run_snoc)
  then show ?case using snoc.IH [OF s1(1)] snoc.prems(2) sim_step by fastforce
qed

text \<open>
  C12: the two goroutines behave like one server that handles each request atomically.  For
  every interleaving of connections, logins, requests and stops in which no request waits ten
  seconds for the server loop, the database is the one a sequence of atomic operations leaves;
  the requests served are the well-formed requests in the order of their connections, all but
  perhaps the last; and the replies written are those of that sequence, each on the connection
  of its own request, all but perhaps the last.
\<close>

theorem requests_served_atomically:
  assumes "Esshd_Start lockErr listens h = Ret s0" "cp_run env evs s0 = Some s" "CrGiveUp \<notin> set evs"
  shows "\<exists>ops outs. spec_run env ops (h, []) = Some (cp_db s, outs)
           \<and> prefix (served ops) (accepted env 0 evs) \<and> length (accepted env 0 evs) \<le> length (served ops) + 1
           \<and> prefix (cp_out s) outs \<and> length outs \<le> length (cp_out s) + 1"
proof -
  obtain ops outs where sim: "sim env h evs s ops outs" using sim_run [OF assms] by blast
  then have "outs = cp_out s \<or> (\<exists>r. outs = cp_out s @ [r])"
    by (cases "cp_es s") (auto simp: sim_def)
  moreover have "accepted env 0 evs = served ops \<or> (\<exists>r. accepted env 0 evs = served ops @ [r])"
    using sim by (cases "cp_cr s") (auto simp: sim_def)
  moreover have "spec_run env ops (h, []) = Some (cp_db s, outs)" using sim by (simp add: sim_def)
  ultimately show ?thesis by (intro exI [of _ ops] exI [of _ outs]) auto
qed

subsection \<open>A request that is not taken\<close>

lemma wedged_step:
  assumes "cp_next env ev s = Some (Ret s')" "cp_cr s = CrAwait cmd" "\<not> replying (cp_es s)" "ev \<noteq> CrQuit"
  shows "cp_cr s' = cp_cr s \<and> \<not> replying (cp_es s') \<and> cp_out s' = cp_out s \<and> cp_conn s' = cp_conn s"
  using assms by (cases ev; cases "cp_es s") (auto simp: bind_go_pair_iff split: if_split_asm)

lemma wedged_run:
  "cp_run env evs s = Some s' \<Longrightarrow> cp_cr s = CrAwait cmd \<Longrightarrow> \<not> replying (cp_es s) \<Longrightarrow> CrQuit \<notin> set evs
    \<Longrightarrow> cp_cr s' = CrAwait cmd \<and> cp_out s' = cp_out s \<and> cp_conn s' = cp_conn s"
proof (induction evs arbitrary: s)
  case (Cons ev evs)
  then obtain s1 where s1: "cp_next env ev s = Some (Ret s1)" "cp_run env evs s1 = Some s'"
    by (auto split: option.splits go.splits)
  with Cons.IH [OF s1(2)] wedged_step [OF s1(1) Cons.prems(2,3)] Cons.prems show ?case by auto
qed simp

text \<open>
  A request that is not taken in ten seconds - the server loop is in a slow login - closes
  the command port for good.  The goroutine logs a warning and then waits for the reply to a
  request it never delivered: whatever happens afterwards short of a shutdown, it accepts no
  connection and writes no reply.
\<close>

lemma undelivered_request_wedges:
  assumes "Esshd_Start lockErr listens h = Ret s0"
    and "cp_run env (evs1 @ [CrGiveUp]) s0 = Some s1" "CrGiveUp \<notin> set evs1"
    and "cp_run env evs2 s1 = Some s2" "CrQuit \<notin> set evs2"
  shows "(\<exists>cmd. cp_cr s2 = CrAwait cmd) \<and> cp_out s2 = cp_out s1 \<and> cp_conn s2 = cp_conn s1"
proof -
  obtain s where s: "cp_run env evs1 s0 = Some s" "cp_next env CrGiveUp s = Some (Ret s1)"
    using assms(2) by (auto simp: cp_run_snoc)
  obtain ops outs where sim: "sim env h evs1 s ops outs" using sim_run [OF assms(1) s(1) assms(3)] by blast
  obtain cmd u where pc: "cp_cr s = CrSend cmd u" and s1: "s1 = s\<lparr>cp_cr := CrAwait cmd\<rparr>"
    using s(2) by (auto split: cr_pc.split_asm)
  then have "\<not> replying (cp_es s)" using sim by (cases "cp_es s") (auto simp: sim_def)
  with wedged_run [OF assms(4), of cmd] assms(5) s1 show ?thesis by auto
qed

subsection \<open>The client's view\<close>

text \<open>What a client that sends its bytes at a quiet moment gets back.\<close>

definition ask_server :: "cp_env \<Rightarrow> host_env \<Rightarrow> cp_sys \<Rightarrow> bytes \<Rightarrow> bytes option" where
  "ask_server env henv s sent =
     (case cp_run env [CrAccept (take 12 sent) (drop 12 sent), EsTake henv, EsReply True] s of
        None \<Rightarrow> None | Some s' \<Rightarrow> Some (snd (last (cp_out s'))))"

lemma cmd_lengths: "length NewUserCmd = 12" "length DelUserCmd = 12" "length NewUserReply = 12"
    "length DelUserReplyOK = 12" "length DelUserReplyFailed = 12" "NewUserCmd \<noteq> DelUserCmd" "DelUserReplyOK \<noteq> DelUserReplyFailed"
  by (simp_all add: NewUserCmd_def DelUserCmd_def NewUserReply_def DelUserReplyOK_def DelUserReplyFailed_def)

lemma recv_request_cmd:
  "recv_request env NewUserCmd b = map_option (Pair CmdNew) (ce_decode env b)"
  "recv_request env DelUserCmd b = map_option (Pair CmdDel) (ce_decode env b)"
  using cmd_lengths by (simp_all add: recv_request_def fill_buffer_def)

lemma ask_server_served:
  assumes idle: "cp_cr s = CrIdle" "cp_es s = EsIdle"
    and req: "recv_request env (take 12 sent) (drop 12 sent) = Some (cmd, u)"
    and run: "serve_request henv cmd u (cp_db s) = Ret (r, h')"
  shows "ask_server env henv s sent = Some (reply_bytes env r)"
  using idle req run serve_request_reply [OF run] by (cases r) (auto simp: ask_server_def cmd_lengths)

text \<open>
  Both ends of the command port agree.  When the encoding of the user and of the reply
  can be read back (without the fields that are not encoded), a client that adds a user gets
  the paths of the record the server stored, and a client that deletes one is told of the
  failure exactly when the deletion failed.
\<close>

lemma client_sees_server_result:
  assumes "cp_cr s = CrIdle" "cp_es s = EsIdle" "0 \<le> port"
    and "ce_decode env (ce_encode env u) = Some (strip_user u)"
  shows "(\<forall>u' h'. serve_add henv (strip_user u) (cp_db s) = Ret (u', h') \<and> ce_decode env (ce_encode env u') = Some (strip_user u')
            \<longrightarrow> TcpClientUserAdd env (ask_server env henv s) port u
                  = Ret (Inr (us_TOTPpath u', us_QrPath u', us_PrivateKeyPath u'))
              \<and> Get2 (users h') (us_MyLogin u) = Some u')
       \<and> (\<forall>ok h'. serve_del henv (strip_user u) (cp_db s) = Ret (ok, h')
            \<longrightarrow> TcpClientUserDel env (ask_server env henv s) port u = Ret (if ok then None else Some ErrDeleteFailed))"
proof (intro conjI allI impI; (elim conjE)?)
  fix u' h' assume add: "serve_add henv (strip_user u) (cp_db s) = Ret (u', h')"
    and dec: "ce_decode env (ce_encode env u') = Some (strip_user u')"
  have "ask_server env henv s (NewUserCmd @ ce_encode env u) = Some (reply_bytes env (EsReplyUser u'))"
    by (rule ask_server_served [where h' = h' and cmd = CmdNew and u = "strip_user u", OF assms(1,2)])
      (simp_all add: cmd_lengths recv_request_cmd assms(4) serve_request_def add)
  then show "TcpClientUserAdd env (ask_server env henv s) port u = Ret (Inr (us_TOTPpath u', us_QrPath u', us_PrivateKeyPath u'))"
    using assms(3) dec by (simp add: TcpClientUserAdd_def strip_user_def cmd_lengths)
  show "Get2 (users h') (us_MyLogin u) = Some u'"
    using add finishUserBuildout_outcome(4)
    by (fastforce simp: serve_add_def bind_go_quad_iff strip_user_def amap.get_put split: if_split_asm)
next
  fix ok h' assume del: "serve_del henv (strip_user u) (cp_db s) = Ret (ok, h')"
  have "ask_server env henv s (DelUserCmd @ ce_encode env u) = Some (reply_bytes env (EsReplyDone ok))"
    by (rule ask_server_served [where h' = h' and cmd = CmdDel and u = "strip_user u", OF assms(1,2)])
      (simp_all add: cmd_lengths recv_request_cmd assms(4) serve_request_def del)
  then show "TcpClientUserDel env (ask_server env henv s) port u = Ret (if ok then None else Some ErrDeleteFailed)"
    using assms(3) by (simp add: TcpClientUserDel_def cmd_lengths)
qed

subsection \<open>The theorems on a concrete run\<close>

text \<open>An encoding that works for the user of the demonstration and the record made of it.\<close>

definition demo_new :: user where
  "demo_new = NewUser\<lparr>us_MyLogin := ''al''\<rparr>"

definition demo_made :: user where
  "demo_made = NewUser\<lparr>us_MyLogin := ''al'', us_ScryptedPassword := ''s'', us_TOTPpath := ''/d/users/al/topt'',
     us_TOTPorig := ''otpauth://'', us_oneTime := Some ''otpauth://'', us_QrPath := [],
     us_PrivateKeyPath := ''/d/users/al/id_rsa'', us_PublicKeyPath := ''/d/users/al/id_rsa.pub'',
     us_PublicKey := Some demo_pub\<rparr>"

definition demo_cenv :: cp_env where
  "demo_cenv = \<lparr>ce_encode = (\<lambda>u. if u = demo_made then ''m'' else ''n''),
     ce_decode = (\<lambda>b. if b = ''m'' then Some (strip_user demo_made) else if b = ''n'' then Some demo_new else None)\<rparr>"

definition demo_sys :: cp_sys where
  "demo_sys = \<lparr>cp_cr = CrIdle, cp_conn = 0, cp_es = EsIdle, cp_db = demo_db, cp_HostKey = None, cp_out = [],
     cp_ctx = False, cp_halt = False, cp_reqStop = False\<rparr>"

lemma demo_start: "Esshd_Start None True demo_db = Ret demo_sys"
  by (simp add: Esshd_Start_def demo_sys_def demo_hd)

lemma demo_accept: "recv_request demo_cenv NewUserCmd ''n'' = Some (CmdNew, demo_new)"
  by (simp add: recv_request_cmd demo_cenv_def)

lemma demo_serve: "\<exists>h'. serve_add demo_henv2 demo_new demo_db = Ret (demo_made, h')"
  by (simp add: serve_add_def finishUserBuildout_def build_passphrase_def build_totp_def build_rsa_def
      SaveToFile_def GenRSAKeyPair_def save_db_def SaveToDisk_def store_user_def fileExists_def NewUser_def
      MarshalAuthorizedKey_def Let_def demo_henv2_def demo_hd demo_new_def demo_made_def)

lemma demo_run:
  "\<exists>s. cp_run demo_cenv [CrAccept NewUserCmd ''n'', EsTake demo_henv2, EsReply True] demo_sys = Some s
     \<and> cp_out s = [(1, NewUserReply @ ''m'')] \<and> Get2 (users (cp_db s)) ''al'' = Some demo_made"
proof -
  obtain h' where h': "serve_add demo_henv2 demo_new demo_db = Ret (demo_made, h')" using demo_serve by blast
  then have "Get2 (users h') ''al'' = Some demo_made"
    using finishUserBuildout_outcome(4)
    by (fastforce simp: serve_add_def bind_go_quad_iff demo_new_def amap.get_put split: if_split_asm)
  with h' show ?thesis
    by (simp add: demo_accept demo_sys_def serve_request_def) (simp add: demo_cenv_def)
qed

theorem requests_served_atomically_witness:
  "\<exists>s ops outs. cp_run demo_cenv [CrAccept NewUserCmd ''n'', EsTake demo_henv2, EsReply True] demo_sys = Some s
     \<and> spec_run demo_cenv ops (demo_db, []) = Some (cp_db s, outs) \<and> prefix [(1, NewUserReply @ ''m'')] outs"
proof -
  obtain s where s: "cp_run demo_cenv [CrAccept NewUserCmd ''n'', EsTake demo_henv2, EsReply True] demo_sys = Some s"
    "cp_out s = [(1, NewUserReply @ ''m'')]"
    using demo_run by blast
  from requests_served_atomically [OF demo_start s(1)] s show ?thesis by auto
qed

end
