(* ===== verification/User_Mgmt_Proofs.thy ===== *)
theory User_Mgmt_Proofs
  imports User_Mgmt Command_Port_Proofs
begin

section \<open>Correctness of the user management\<close>

text \<open>
  The random index of \<^verbatim>\<open>cryrand.go\<close> is in range for every random number but one; the passphrase
  that the prompt returns was typed twice; and a user deleted from the command line while the
  server runs is back after the server's next save, because the port lock never reports the
  error that would send the request to the server.
\<close>

subsection \<open>Random numbers\<close>

definition min_int64 :: u64 where
  "min_int64 = 0x8000000000000000"

lemma sint_min_int64: "sint min_int64 = - (2 ^ 63)"
  by (simp add: min_int64_def)

lemma sint_range: "- (2 ^ 63) \<le> sint (x :: u64)" "sint (x :: u64) < 2 ^ 63"
  using sint_ge [of x] sint_lt [of x] by simp_all

lemma sint_word_of_int: "- (2 ^ 63) \<le> k \<Longrightarrow> k < 2 ^ 63 \<Longrightarrow> sint (word_of_int k :: u64) = k"
  by (simp add: sint_sbintrunc' signed_take_bit_int_eq_self)

lemma sint_go_neg: "sint (go_neg x) = (if x = min_int64 then - (2 ^ 63) else \<bar>sint x\<bar>)"
proof (cases "x = min_int64")
  case True
  then show ?thesis using sint_min_int64 by (simp add: go_neg_def min_int64_def)
next
  case False
  then have "(of_int (sint x) :: u64) \<noteq> of_int (sint min_int64)" by simp
  then have "sint x \<noteq> sint min_int64" by metis
  then have "sint x \<noteq> - (2 ^ 63)" by (simp add: sint_min_int64)
  then have "- sint x < 2 ^ 63" "- (2 ^ 63) \<le> - sint x" using sint_range [of x] by linarith+
  then have "sint (- x) = - sint x" using sint_word_of_int [of "- sint x"] by simp
  with False show ?thesis by (simp add: go_neg_def)
qed

text \<open>
  the random index.  For a positive bound \<open>CryptoRandNonNegInt\<close> returns, and the result is
  a number from zero up to the bound - but for one of the \<open>2^64\<close> random numbers: the smallest
  \<^verbatim>\<open>int64\<close> is its own negation, and gives a negative result unless the bound divides \<open>2^63\<close>.
\<close>

lemma CryptoRandNonNegInt_range:
  assumes "0 < sint n"
  shows "\<exists>r. CryptoRandNonNegInt b n = Ret r
           \<and> ((0 \<le> sint r \<and> sint r < sint n) \<longleftrightarrow> (CryptoRandInt64 b \<noteq> min_int64 \<or> sint n dvd 2 ^ 63))"
proof -
  let ?k = "sint (go_neg (CryptoRandInt64 b))"
  have n: "n \<noteq> 0" using assms by auto
  have bnd: "- sint n < ?k smod sint n" "?k smod sint n < sint n" using smod_int_range [of "sint n" ?k] assms by auto
  then have r: "sint (word_of_int (?k smod sint n) :: u64) = ?k smod sint n"
    using sint_range [of n] by (intro sint_word_of_int) linarith+
  have "0 \<le> ?k smod sint n \<longleftrightarrow> CryptoRandInt64 b \<noteq> min_int64 \<or> sint n dvd 2 ^ 63"
  proof (cases "CryptoRandInt64 b = min_int64")
    case True
    then have "?k smod sint n = - (2 ^ 63 mod sint n)" using assms by (simp add: sint_go_neg smod_int_alt_def)
    moreover have "0 \<le> 2 ^ 63 mod sint n" using assms by simp
    ultimately show ?thesis using True by (auto simp: dvd_eq_mod_eq_0)
  next
    case False
    then show ?thesis using assms by (simp add: sint_go_neg smod_mod_positive)
  qed
  with bnd r n show ?thesis by (simp add: CryptoRandNonNegInt_def)
qed

definition demo_random :: bytes where
  "demo_random = [CHR 0x00, CHR 0x00, CHR 0x00, CHR 0x00, CHR 0x00, CHR 0x00, CHR 0x00, CHR 0x80]"

text \<open>The same number is the only one that makes \<open>RandomString\<close> panic.\<close>

lemma RandomString_returns:
  "\<forall>b\<in>set bs. CryptoRandInt64 b \<noteq> min_int64 \<Longrightarrow>
    \<exists>s. RandomString bs = Ret s \<and> length s = length bs \<and> set s \<subseteq> set random_alphabet"
proof (induction bs)
  case (Cons b bs)
  have len: "length random_alphabet = 36" by (simp add: random_alphabet_def)
  let ?k = "sint (go_neg (CryptoRandInt64 b)) smod 36"
  have "0 \<le> ?k" "?k < 36" using Cons.prems by (simp_all add: sint_go_neg smod_mod_positive)
  then have "random_alphabet ! nat ?k \<in> set random_alphabet" using len by (intro nth_mem) simp
  with Cons \<open>0 \<le> ?k\<close> len show ?case by auto
qed simp

subsection \<open>The passphrase\<close>

lemma scan_diff_spec:
  "a \<noteq> b \<Longrightarrow> take (scan_diff a b) a = take (scan_diff a b) b
     \<and> (scan_diff a b < length a \<and> scan_diff a b < length b \<longrightarrow> a ! scan_diff a b \<noteq> b ! scan_diff a b)
     \<and> scan_diff a b \<le> min (length a) (length b)"
  by (induction a b rule: scan_diff.induct) auto

text \<open>A passphrase that is returned without an error continues the starter by 3 to 100 characters and was typed twice.\<close>

definition typed_twice :: "string \<Rightarrow> string list \<Rightarrow> string \<Rightarrow> bool" where
  "typed_twice start ls pw \<longleftrightarrow>
     (\<exists>l1\<in>set ls. \<exists>l2\<in>set ls. pw = start @ Trim l1 line_end \<and> pw = Trim l2 line_end
        \<and> 3 \<le> length (Trim l1 line_end) \<and> length (Trim l1 line_end) \<le> 100)"

lemma typed_twice_mono: "typed_twice start ls pw \<Longrightarrow> set ls \<subseteq> set ls' \<Longrightarrow> typed_twice start ls' pw"
  by (auto simp: typed_twice_def)

lemma prompt_loop_result:
  "prompt_loop n start ls err = Ret (pw, None, rest) \<Longrightarrow> n = 0 \<and> err = None \<or> typed_twice start ls pw"
proof (induction n arbitrary: ls err)
  case (Suc n)
  then obtain l ls1 where ls: "ls = l # ls1" by (cases ls) auto
  have again: "typed_twice start ls pw" if "prompt_loop n start xs (Some e) = Ret (pw, None, rest)" "set xs \<subseteq> set ls" for xs e
    using Suc.IH [OF that(1)] typed_twice_mono that(2) by blast
  have sub: "set ls1 \<subseteq> set ls" by (auto simp: ls)
  show ?case
  proof (cases "length (Trim l line_end) < 3 \<or> 100 < length (Trim l line_end)")
    case True
    then show ?thesis using Suc.prems again [OF _ sub] by (auto simp: ls split: if_split_asm)
  next
    case False
    then obtain l2 ls2 where ls1: "ls1 = l2 # ls2" using Suc.prems by (cases ls1) (auto simp: ls)
    show ?thesis
    proof (cases "start @ Trim l line_end = Trim l2 line_end")
      case True
      then have "pw = start @ Trim l line_end" using Suc.prems False by (auto simp: ls ls1)
      then show ?thesis using True False by (auto simp: typed_twice_def ls ls1 not_less)
    next
      case mismatch: False
      then show ?thesis using Suc.prems False again [of ls2] by (auto simp: ls ls1 Let_def)
    qed
  qed
qed simp

subsection \<open>Deleting a user under a running server\<close>

lemma DelUser_done:
  "DelUser env l h = Ret (None, h') \<Longrightarrow> Get2 (users h') l = None"
  by (auto simp: DelUser_def Get2_def Del_def dest: save_db_simps(2) split: if_split_asm)

text \<open>
  A user cannot be deleted from the command line while the server runs.  The server holds
  the command port; \<open>Lock\<close> then gives an error, but never the one \<open>DelUserAndExit\<close> compares
  with, so the request is not sent to the server: the result is the same whatever the server
  would answer.  The process edits the database file itself and reports success - and the next
  save of the server, whose table still has the user, writes the user back.
\<close>

lemma running_server_bypassed:
  assumes busy: "\<forall>k. \<not> um_listen env k" and sleeps: "\<forall>k. 10 * (int k + 1) \<le> um_clock env k"
    and exits: "DelUserAndExit env cfg files = Ret (0, Some h1)"
    and server: "Get2 (users h) (cf_DelUser cfg) = Some u"
    and save: "save_db (um_host env) (h\<lparr>hd_files := hd_files h1\<rparr>) = (None, h')"
  shows "DelUserAndExit (env\<lparr>um_net := net\<rparr>) cfg files = Ret (0, Some h1)
       \<and> Get2 (users h1) (cf_DelUser cfg) = None
       \<and> Get2 (users h') (cf_DelUser cfg) = Some u \<and> synced (um_host env) h'"
proof -
  let ?l = "cf_DelUser cfg"
  have lock: "Lock (um_listen env) (um_clock env) (cf_SshegoSystemMutexPort cfg) 5000
      = Ret (Some (ErrXport (port_addr (cf_SshegoSystemMutexPort cfg))))"
    using busy sleeps by (intro Lock_busy) simp_all
  then obtain h0 where h0: "NewHostDb (um_host env) cfg files = Ret (None, h0)" "DelUser (um_host env) ?l h0 = Ret (None, h1)"
    using exits by (auto simp: DelUserAndExit_def bind_go_iffs split: if_split_asm)
  then have "DelUserAndExit (env\<lparr>um_net := net\<rparr>) cfg files = Ret (0, Some h1)"
    by (simp add: DelUserAndExit_def lock)
  moreover have "Get2 (users h') ?l = Some u" using save_db_simps(2) [OF save] server by simp
  ultimately show ?thesis using DelUser_done [OF h0(2)] save_synced [OF save] by blast
qed

end
