(* ===== verification/Tower.thy ===== *)
theory Tower
  imports Go_Prelude
begin

section \<open>Reconnect notices: the tower\<close>

text \<open>
  \<^verbatim>\<open>buzz.go\<close> and \<^verbatim>\<open>uhp.go\<close>: the one-to-many notification of a lost connection.  Channels live
  in a store, so that one channel may be subscribed twice; a channel is its capacity, the values
  waiting in it and whether it is closed.  The mutex of the tower is held during each operation,
  so an operation is one function of the state.

  Who receives is not the tower's doing: \<open>takes c\<close> says whether a receiver takes a value from
  channel \<open>c\<close> while a send waits (at most ten seconds in \<open>Broadcast\<close>); \<open>picks_halt c\<close> resolves
  the random choice of \<^verbatim>\<open>select\<close> when both the send and the stop request are ready.
\<close>

subsection \<open>Destinations\<close>

record uhp =
  uh_User :: string
  uh_HostPort :: string
  uh_Nickname :: string

definition UHP_String :: "uhp \<Rightarrow> string" where
  "UHP_String a = uh_User a @ ''@'' @ uh_HostPort a @ ''/'' @ uh_Nickname a"

definition UHPEqual :: "uhp option \<Rightarrow> uhp option \<Rightarrow> bool go" where
  "UHPEqual a b =
     (case (a, b) of
        (Some x, Some y) \<Rightarrow> Ret (if uh_User x \<noteq> uh_User y then False else uh_HostPort x = uh_HostPort y)
      | _ \<Rightarrow> Panic ''cannot call UHPEqual with nil(s)'')"

subsection \<open>Channels\<close>

record uhp_chan =
  ch_cap :: nat
  ch_buf :: "uhp list"
  ch_closed :: bool

definition new_chan :: "nat \<Rightarrow> uhp_chan" where
  "new_chan n = \<lparr>ch_cap = n, ch_buf = [], ch_closed = False\<rparr>"

text \<open>\<^verbatim>\<open>select { case <-ch: default: }\<close>: takes the oldest value if there is one.\<close>

definition poll_chan :: "uhp_chan \<Rightarrow> uhp_chan" where
  "poll_chan ch = ch\<lparr>ch_buf := tl (ch_buf ch)\<rparr>"

text \<open>A send that can go on now, given whether a receiver takes a value; None: it has to wait.\<close>

definition send_chan :: "bool \<Rightarrow> uhp \<Rightarrow> uhp_chan \<Rightarrow> uhp_chan go option" where
  "send_chan taken v ch =
     (if ch_closed ch then Some (Panic ''send on closed channel'')
      else if length (ch_buf ch) < ch_cap ch then Some (Ret (ch\<lparr>ch_buf := ch_buf ch @ [v]\<rparr>))
      else if taken then Some (Ret (ch\<lparr>ch_buf := tl (ch_buf ch @ [v])\<rparr>))
      else None)"

definition close_chan :: "uhp_chan \<Rightarrow> uhp_chan go" where
  "close_chan ch = (if ch_closed ch then Panic ''close of closed channel'' else Ret (ch\<lparr>ch_closed := True\<rparr>))"

subsection \<open>The tower\<close>

type_synonym chan_store = "nat \<Rightarrow> uhp_chan"

record tower =
  tw_subs :: "nat list"
  tw_closed :: bool
  tw_haltReq :: bool
  tw_haltDone :: bool
  tw_chans :: chan_store
  tw_next :: nat            \<comment> \<open>the next channel to be allocated\<close>

definition NewUHPTower :: tower where
  "NewUHPTower = \<lparr>tw_subs = [], tw_closed = False, tw_haltReq = False, tw_haltDone = False,
     tw_chans = (\<lambda>_. new_chan 0), tw_next = 0\<rparr>"

definition Subscribe :: "nat option \<Rightarrow> tower \<Rightarrow> nat \<times> tower" where
  "Subscribe notify t =
     (case notify of
        None \<Rightarrow> (tw_next t, t\<lparr>tw_chans := (tw_chans t)(tw_next t := new_chan 1), tw_next := Suc (tw_next t),
                              tw_subs := tw_subs t @ [tw_next t]\<rparr>)
      | Some c \<Rightarrow> (c, t\<lparr>tw_subs := tw_subs t @ [c]\<rparr>))"

definition Unsub :: "nat \<Rightarrow> tower \<Rightarrow> tower" where
  "Unsub x t = t\<lparr>tw_subs := remove1 x (tw_subs t)\<rparr>"

fun close_all :: "nat list \<Rightarrow> chan_store \<Rightarrow> chan_store go" where
  "close_all [] m = Ret m"
| "close_all (c # cs) m = bind_go (close_chan (m c)) (\<lambda>ch. close_all cs (m(c := ch)))"

datatype tower_err = ErrClosed

definition internalClose :: "tower \<Rightarrow> (tower_err option \<times> tower) go" where
  "internalClose t =
     (if tw_closed t then Ret (Some ErrClosed, t)
      else bind_go (close_all (tw_subs t) (tw_chans t)) (\<lambda>m.
        Ret (None, t\<lparr>tw_closed := True, tw_chans := m, tw_haltDone := True\<rparr>)))"

definition Close :: "tower \<Rightarrow> (tower_err option \<times> tower) go" where
  "Close t = internalClose t"

fun broadcast_loop :: "(nat \<Rightarrow> bool) \<Rightarrow> (nat \<Rightarrow> bool) \<Rightarrow> uhp \<Rightarrow> nat list \<Rightarrow> tower \<Rightarrow> (tower_err option \<times> tower) go" where
  "broadcast_loop takes picks_halt v [] t = Ret (None, t)"
| "broadcast_loop takes picks_halt v (c # cs) t =
     (let ch = tw_chans t c;
          ch1 = (if ch_cap ch = 1 then poll_chan ch else ch);
          t1 = t\<lparr>tw_chans := (tw_chans t)(c := ch1)\<rparr>
      in (case send_chan (takes c) v ch1 of
            Some sent \<Rightarrow>
              if tw_haltReq t \<and> picks_halt c then internalClose t1
              else bind_go sent (\<lambda>ch2. broadcast_loop takes picks_halt v cs (t1\<lparr>tw_chans := (tw_chans t1)(c := ch2)\<rparr>))
          | None \<Rightarrow>
              if tw_haltReq t then internalClose t1
              else Panic ''big problem: Broadcast blocked for 10 seconds!''))"

definition Broadcast :: "(nat \<Rightarrow> bool) \<Rightarrow> (nat \<Rightarrow> bool) \<Rightarrow> uhp \<Rightarrow> tower \<Rightarrow> (tower_err option \<times> tower) go" where
  "Broadcast takes picks_halt v t =
     (if tw_closed t then Ret (Some ErrClosed, t) else broadcast_loop takes picks_halt v (tw_subs t) t)"

text \<open>\<open>Signal\<close> to the subscriber a random number \<open>r\<close> selects: no subscriber is a panic of \<^verbatim>\<open>rand.Intn\<close>, a full channel blocks.\<close>

definition Signal :: "(nat \<Rightarrow> bool) \<Rightarrow> nat \<Rightarrow> uhp \<Rightarrow> tower \<Rightarrow> (tower_err option \<times> tower) go" where
  "Signal takes r v t =
     (if tw_closed t then Ret (Some ErrClosed, t)
      else if tw_subs t = [] then Panic ''invalid argument to Intn''
      else let c = tw_subs t ! (r mod length (tw_subs t)) in
        (case send_chan (takes c) v (tw_chans t c) of
           None \<Rightarrow> Hang
         | Some sent \<Rightarrow> bind_go sent (\<lambda>ch. Ret (None, t\<lparr>tw_chans := (tw_chans t)(c := ch)\<rparr>))))"

fun clear_all :: "nat list \<Rightarrow> chan_store \<Rightarrow> chan_store" where
  "clear_all [] m = m"
| "clear_all (c # cs) m = clear_all cs (m(c := poll_chan (m c)))"

definition Clear :: "tower \<Rightarrow> tower" where
  "Clear t = t\<lparr>tw_chans := clear_all (tw_subs t) (tw_chans t)\<rparr>"

text \<open>\<open>EmptyUHPChan\<close>: a closed channel is always ready to be received from, so that the loop never ends there.\<close>

definition EmptyUHPChan :: "uhp_chan \<Rightarrow> uhp_chan go" where
  "EmptyUHPChan ch = (if ch_closed ch then Hang else Ret (ch\<lparr>ch_buf := []\<rparr>))"

subsection \<open>What a broadcast does\<close>

text \<open>The invariant of the subscriptions the program makes: open channels of size one.\<close>

definition subs_ok :: "tower \<Rightarrow> bool" where
  "subs_ok t \<longleftrightarrow> (\<forall>c\<in>set (tw_subs t). ch_cap (tw_chans t c) = 1 \<and> \<not> ch_closed (tw_chans t c)
     \<and> length (ch_buf (tw_chans t c)) \<le> 1)"

lemma broadcast_loop_reaches:
  "\<forall>c\<in>set cs. ch_cap (tw_chans t c) = 1 \<and> \<not> ch_closed (tw_chans t c) \<and> length (ch_buf (tw_chans t c)) \<le> 1 \<Longrightarrow>
   \<not> tw_haltReq t \<Longrightarrow>
   broadcast_loop takes picks_halt v cs t
     = Ret (None, t\<lparr>tw_chans := (\<lambda>c. if c \<in> set cs then (tw_chans t c)\<lparr>ch_buf := [v]\<rparr> else tw_chans t c)\<rparr>)"
proof (induction cs arbitrary: t)
  case (Cons c cs)
  let ?m = "(tw_chans t)(c := (tw_chans t c)\<lparr>ch_buf := [v]\<rparr>)"
  have "tl (ch_buf (tw_chans t c)) = []" using Cons.prems(1) by (cases "ch_buf (tw_chans t c)") auto
  then have "broadcast_loop takes picks_halt v (c # cs) t = broadcast_loop takes picks_halt v cs (t\<lparr>tw_chans := ?m\<rparr>)"
    using Cons.prems by (simp add: poll_chan_def send_chan_def Let_def)
  moreover have "\<forall>d\<in>set cs. ch_cap (?m d) = 1 \<and> \<not> ch_closed (?m d) \<and> length (ch_buf (?m d)) \<le> 1"
    using Cons.prems(1) by simp
  ultimately show ?case using Cons.IH [of "t\<lparr>tw_chans := ?m\<rparr>"] Cons.prems(2)
    by (auto intro!: arg_cong [where f = "\<lambda>m. t\<lparr>tw_chans := m\<rparr>"])
qed simp

lemma subs_ok_ops:
  "subs_ok NewUHPTower"
  "subs_ok t \<Longrightarrow> \<forall>c\<in>set (tw_subs t). c < tw_next t \<Longrightarrow> subs_ok (snd (Subscribe None t))"
  "subs_ok t \<Longrightarrow> subs_ok (Unsub x t)"
  by (auto simp: subs_ok_def NewUHPTower_def Subscribe_def Unsub_def new_chan_def dest: notin_set_remove1)

lemma close_all_distinct:
  "distinct cs \<Longrightarrow> \<forall>c\<in>set cs. \<not> ch_closed (m c) \<Longrightarrow>
   close_all cs m = Ret (\<lambda>c. if c \<in> set cs then (m c)\<lparr>ch_closed := True\<rparr> else m c)"
proof (induction cs arbitrary: m)
  case (Cons c cs)
  let ?m = "m(c := (m c)\<lparr>ch_closed := True\<rparr>)"
  have "close_all cs ?m = Ret (\<lambda>d. if d \<in> set cs then (?m d)\<lparr>ch_closed := True\<rparr> else ?m d)"
    using Cons.prems by (intro Cons.IH) auto
  moreover have "(\<lambda>d. if d \<in> set cs then (?m d)\<lparr>ch_closed := True\<rparr> else ?m d)
      = (\<lambda>d. if d \<in> set (c # cs) then (m d)\<lparr>ch_closed := True\<rparr> else m d)"
    by (auto simp: fun_eq_iff)
  moreover have "close_all (c # cs) m = close_all cs ?m" using Cons.prems by (simp add: close_chan_def)
  ultimately show ?case by (simp only:)
qed simp

lemma internalClose_once:
  assumes "distinct (tw_subs t)" "\<forall>c\<in>set (tw_subs t). \<not> ch_closed (tw_chans t c)" "\<not> tw_closed t"
  shows "\<exists>t'. internalClose t = Ret (None, t') \<and> tw_closed t' \<and> (\<forall>c\<in>set (tw_subs t). ch_closed (tw_chans t' c))"
  using assms by (simp add: internalClose_def close_all_distinct)

text \<open>
  A broadcast to channels of size one neither blocks nor fails, whether anybody receives
  or not: every subscriber's channel holds exactly the new value, whatever it held before - a
  channel that was subscribed twice too - and no other channel is touched.  After \<open>Close\<close> every
  broadcast reports that the tower is closed.
\<close>

lemma broadcast_reaches_all:
  assumes "subs_ok t" "\<not> tw_closed t" "\<not> tw_haltReq t"
  shows "\<exists>t'. Broadcast takes picks_halt v t = Ret (None, t') \<and> subs_ok t' \<and> tw_subs t' = tw_subs t
           \<and> (\<forall>c. ch_buf (tw_chans t' c) = (if c \<in> set (tw_subs t) then [v] else ch_buf (tw_chans t c)))
           \<and> (\<forall>e t''. Close t' = Ret (e, t'') \<longrightarrow> Broadcast takes picks_halt v t'' = Ret (Some ErrClosed, t''))"
proof -
  let ?t' = "t\<lparr>tw_chans := (\<lambda>c. if c \<in> set (tw_subs t) then (tw_chans t c)\<lparr>ch_buf := [v]\<rparr> else tw_chans t c)\<rparr>"
  have "Broadcast takes picks_halt v t = Ret (None, ?t')"
    using assms broadcast_loop_reaches [of "tw_subs t" t] by (simp add: Broadcast_def subs_ok_def)
  moreover have "subs_ok ?t'" using assms(1) by (auto simp: subs_ok_def)
  moreover have "tw_closed t''" if "Close u = Ret (e, t'')" for u e t''
    using that by (auto simp: Close_def internalClose_def bind_go_Ret_iff split: if_split_asm)
  ultimately show ?thesis by (intro exI [of _ ?t']) (auto simp: Broadcast_def)
qed

definition demo_uhp :: uhp where
  "demo_uhp = \<lparr>uh_User = ''al'', uh_HostPort = ''h:22'', uh_Nickname = []\<rparr>"

definition demo_tower :: tower where
  "demo_tower = snd (Subscribe (Some 0) (snd (Subscribe None NewUHPTower)))"

text \<open>The other sizes: a full channel that nobody reads ends the process after ten seconds.\<close>

lemma broadcast_unread_panics:
  assumes "\<not> tw_closed t" "\<not> tw_haltReq t" "tw_subs t = c # cs" "ch_cap (tw_chans t c) \<noteq> 1" "\<not> takes c"
    "\<not> ch_closed (tw_chans t c)" "ch_cap (tw_chans t c) \<le> length (ch_buf (tw_chans t c))"
  shows "\<exists>m. Broadcast takes picks_halt v t = Panic m"
  using assms by (simp add: Broadcast_def send_chan_def Let_def)

end
