(* ===== verification/Client.thy ===== *)
theory Client
  imports Server_Auth Tower
begin

section \<open>The client: dialling, trust on first use, reconnecting\<close>

text \<open>
  The client half of \<^verbatim>\<open>sshutil.go\<close> (\<^verbatim>\<open>SSHConnect\<close>, \<^verbatim>\<open>mySSHDial\<close>, the answers to challenges),
  \<^verbatim>\<open>cli.go\<close> (\<^verbatim>\<open>DialConfig\<close>) and \<^verbatim>\<open>tri.go\<close> (\<^verbatim>\<open>Tricorder\<close>).

  The network is a parameter: what answers the \<open>n\<close>-th connection attempt to an address.  A peer
  presents a host key and decides about the login; the check of that key is the callback of the
  model of the known hosts.  Errors are texts, because the callers search them.  The state is
  the database of known hosts (None while it is not loaded), the files and the number of
  connection attempts made.
\<close>

subsection \<open>Data\<close>

record dial_config =
  dc_ClientKnownHostsPath :: string
  dc_Mylogin :: string
  dc_RsaPath :: string
  dc_TotpUrl :: string
  dc_Pw :: string
  dc_Sshdhost :: string
  dc_Sshdport :: int
  dc_DownstreamHostPort :: string
  dc_TofuAddIfNotKnown :: bool
  dc_DoNotUpdateSshKnownHosts :: bool
  dc_Verbose :: bool
  dc_TestAllowOneshotConnect :: bool
  dc_SkipKeepAlive :: bool
  dc_KeepAliveEvery :: int
  dc_LocalNickname :: string
  dc_DestNickname :: string

datatype auth_method = MPublicKeys pub_key | MPassword string | MInteractive string string

text \<open>
  What answers a connection attempt: nothing; a peer with which no key is agreed; or a peer
  with its host key, its address, its answer to the login and to the first keepalive.
\<close>

datatype peer =
    NoAnswer string
  | BadHandshake string
  | Peer pub_key string "string \<Rightarrow> auth_method list \<Rightarrow> string option" "string option"

record ssh_client =
  sc_addr :: string
  sc_user :: string
  sc_hostKey :: pub_key

record cl_state =
  cs_kh :: "known_hosts option"
  cs_disk :: disk
  cs_attempts :: nat

record cl_env =
  cn_kh :: kh_env
  cn_host :: host_env
  cn_net :: "nat \<Rightarrow> string \<Rightarrow> peer"
  cn_code :: "string \<Rightarrow> string option"        \<comment> \<open>the code of a one-time-password url now; None: \<^verbatim>\<open>panicOn\<close>\<close>
  cn_keyErr :: "string \<Rightarrow> string"            \<comment> \<open>the text of the error of loading a private key\<close>
  cn_listen :: "tunnel_spec \<Rightarrow> string option"  \<comment> \<open>the error of starting a listener\<close>
  cn_esshd :: bool                              \<comment> \<open>the embedded server is already running\<close>

subsection \<open>Answers to challenges\<close>

text \<open>\<open>kiCliHelp.helper\<close>; \<open>url\<close> is trimmed by \<^verbatim>\<open>otp.NewKeyFromURL\<close>'s caller, which \<open>cn_code\<close> includes.\<close>

fun ki_helper :: "(string \<Rightarrow> string option) \<Rightarrow> string \<Rightarrow> string \<Rightarrow> string list \<Rightarrow> string list go" where
  "ki_helper code passphrase url [] = Ret []"
| "ki_helper code passphrase url (q # qs) =
     bind_go (if q = ''password: '' then Ret passphrase
              else if q = ''google-authenticator-code: ''
              then (case code url of None \<Rightarrow> Panic ''panicOn'' | Some c \<Rightarrow> Ret c)
              else Panic ''unrecognized challenge'')
       (\<lambda>a. bind_go (ki_helper code passphrase url qs) (\<lambda>as. Ret (a # as)))"

subsection \<open>Connecting\<close>

definition client_methods :: "pub_key option \<Rightarrow> string \<Rightarrow> string \<Rightarrow> auth_method list" where
  "client_methods privkey passphrase toptUrl =
     (case privkey of None \<Rightarrow> [] | Some k \<Rightarrow> [MPublicKeys k])
     @ (if passphrase \<noteq> [] then [MPassword passphrase] else [])
     @ (if toptUrl \<noteq> [] then [MInteractive passphrase toptUrl] else [])"

definition next_attempt :: "cl_state \<Rightarrow> cl_state" where
  "next_attempt st = st\<lparr>cs_attempts := Suc (cs_attempts st)\<rparr>"

definition host_port :: "string \<Rightarrow> int \<Rightarrow> string" where
  "host_port host port = host @ '':'' @ show_int port"

text \<open>
  \<open>mySSHDial\<close> with \<^verbatim>\<open>NewClientConn\<close>: the host key is checked before the login is attempted,
  under the address that was dialled; the first keepalive is part of connecting.
\<close>

definition mySSHDial :: "cl_env \<Rightarrow> sshego_config \<Rightarrow> string \<Rightarrow> string \<Rightarrow> auth_method list \<Rightarrow> known_hosts \<Rightarrow> cl_state
    \<Rightarrow> ((string + ssh_client) \<times> cl_state) go" where
  "mySSHDial env cfg addr user auth h st =
     (let st1 = next_attempt st in
      case cn_net env (cs_attempts st) addr of
        NoAnswer e \<Rightarrow> Ret (Inl e, st1)
      | BadHandshake e \<Rightarrow> Ret (Inl (''ssh: handshake failed: '' @ e), st1)
      | Peer key remote login alive \<Rightarrow>
          bind_go (hostKeyCallback (cn_kh env) (cf_AddIfNotKnown cfg) (cf_TestAllowOneshotConnect cfg)
                     addr remote key (h, cs_disk st)) (\<lambda>(e, (h', d')).
            let st2 = st1\<lparr>cs_kh := Some h', cs_disk := d'\<rparr> in
            Ret ((case e of
                Some err \<Rightarrow> Inl (''ssh: handshake failed: '' @ kh_err_text err)
              | None \<Rightarrow>
                  (case login user auth of
                     Some err \<Rightarrow> Inl (''ssh: handshake failed: '' @ err)
                   | None \<Rightarrow>
                       (case (if 0 < cf_KeepAliveEvery cfg then alive else None) of
                          Some err \<Rightarrow> Inl err
                        | None \<Rightarrow> Inr \<lparr>sc_addr = addr, sc_user = user, sc_hostKey = key\<rparr>))), st2)))"

definition dial_error :: "string \<Rightarrow> string \<Rightarrow> string" where
  "dial_error hostport e = ''sshConnect() errored at dial to '' @ [CHR 0x27] @ hostport @ [CHR 0x27] @ '': '' @ [CHR 0x27] @ e
     @ [CHR 0x27] @ '' ''"

definition key_error :: "string \<Rightarrow> string \<Rightarrow> string \<Rightarrow> string \<Rightarrow> string" where
  "key_error username hostport keypath e =
     ''error in SshegoConfig.SSHConnect() to '' @ [CHR 0x27] @ username @ ''@'' @ hostport @ [CHR 0x27] @ '', LoadRSAPrivateKey(keypath=''
     @ [CHR 0x27] @ keypath @ [CHR 0x27] @ '') errored with: '' @ [CHR 0x27] @ e @ [CHR 0x27]"

text \<open>The tunnels that are requested are started after the connection is up.\<close>

definition start_tunnels :: "cl_env \<Rightarrow> sshego_config \<Rightarrow> string option" where
  "start_tunnels env cfg =
     (if ah_Addr (ts_Listen (cf_RemoteToLocal cfg)) \<noteq> [] \<and> cn_listen env (cf_RemoteToLocal cfg) \<noteq> None
      then map_option ((@) ''StartupReverseListener failed: '') (cn_listen env (cf_RemoteToLocal cfg))
      else if ah_Addr (ts_Listen (cf_LocalToRemote cfg)) \<noteq> []
      then map_option ((@) ''StartupFowardListener failed: '') (cn_listen env (cf_LocalToRemote cfg))
      else None)"

definition has_tunnel_or_dials :: "sshego_config \<Rightarrow> bool" where
  "has_tunnel_or_dials cfg \<longleftrightarrow> cf_DirectTcp cfg \<or> ah_Addr (ts_Listen (cf_RemoteToLocal cfg)) \<noteq> []
     \<or> ah_Addr (ts_Listen (cf_LocalToRemote cfg)) \<noteq> []"

text \<open>
  The start of \<open>SSHConnect\<close>: the default of the keepalive interval, and the embedded server,
  which is started unless it runs already (a bad address panics).
\<close>

definition prepare_config :: "cl_env \<Rightarrow> sshego_config \<Rightarrow> cfg_err option \<times> sshego_config" where
  "prepare_config env cfg =
     (let cfg1 = (if \<not> cf_SkipKeepAlive cfg \<and> cf_KeepAliveEvery cfg \<le> 0
                  then cfg\<lparr>cf_KeepAliveEvery := 1000000000\<rparr> else cfg)
      in if ah_Addr (cf_EmbeddedSSHd cfg1) \<noteq> [] \<and> \<not> cn_esshd env
         then (fst (ParseAddr (cf_EmbeddedSSHd cfg1)), cfg1\<lparr>cf_EmbeddedSSHd := snd (ParseAddr (cf_EmbeddedSSHd cfg1))\<rparr>)
         else (None, cfg1))"

text \<open>\<open>SSHConnect\<close>: an error, or the client (None when there is nothing to connect to).\<close>

definition SSHConnect :: "cl_env \<Rightarrow> sshego_config \<Rightarrow> string \<Rightarrow> string \<Rightarrow> string \<Rightarrow> int \<Rightarrow> string \<Rightarrow> string \<Rightarrow> cl_state
    \<Rightarrow> ((string + ssh_client option) \<times> sshego_config \<times> cl_state) go" where
  "SSHConnect env cfg username keypath sshdHost sshdPort passphrase toptUrl st =
     (case cs_kh st of
        None \<Rightarrow> Panic ''h cannot be nil!''
      | Some h \<Rightarrow>
          (case prepare_config env cfg of (startErr, cfg2) \<Rightarrow>
            if startErr \<noteq> None then Panic ''panic(err)''
            else if \<not> has_tunnel_or_dials cfg2 then Ret (Inr None, cfg2, st)
            else let privkey = (if keypath = [] then None else LoadRSAPrivateKey (cn_host env) (cs_disk st) keypath);
                     hostport = host_port sshdHost sshdPort
              in if keypath \<noteq> [] \<and> privkey = None then Ret (Inl (key_error username hostport keypath (cn_keyErr env keypath)), cfg2, st)
                 else bind_go (mySSHDial env cfg2 hostport username (client_methods privkey passphrase toptUrl) h st)
                   (\<lambda>(r, st'). Ret (
                      (case r of
                         Inl e \<Rightarrow> Inl (dial_error hostport e)
                       | Inr c \<Rightarrow> (case start_tunnels env cfg2 of Some e \<Rightarrow> Inl e | None \<Rightarrow> Inr (Some c))),
                      cfg2, st'))))"

subsection \<open>DialConfig\<close>

definition DeriveNewConfig :: "cl_env \<Rightarrow> dial_config \<Rightarrow> cl_state \<Rightarrow> (kh_err + sshego_config \<times> cl_state) go" where
  "DeriveNewConfig env dc st =
     (let cfg = NewSshegoConfig\<lparr>cf_Nickname := dc_LocalNickname dc, cf_BitLenRSAkeys := 4096, cf_DirectTcp := True,
                  cf_AddIfNotKnown := dc_TofuAddIfNotKnown dc, cf_Debug := dc_Verbose dc,
                  cf_TestAllowOneshotConnect := dc_TestAllowOneshotConnect dc, cf_IdleTimeoutDur := 5000000000,
                  cf_KeepAliveEvery := (if dc_SkipKeepAlive dc then 0
                     else if dc_KeepAliveEvery dc \<le> 0 then 1000000000 else dc_KeepAliveEvery dc),
                  cf_PrivateKeyPath := dc_RsaPath dc\<rparr>
      in case cs_kh st of
           Some h \<Rightarrow> Ret (Inr (cfg, st))
         | None \<Rightarrow>
             bind_go (NewKnownHosts (cn_kh env) (dc_ClientKnownHostsPath dc) KHSsh (cs_disk st)) (\<lambda>r.
               case r of
                 Inl e \<Rightarrow> Ret (Inl e)
               | Inr h \<Rightarrow> Ret (Inr (cfg, st\<lparr>cs_kh := Some (h\<lparr>kh_NoSave := dc_DoNotUpdateSshKnownHosts dc\<rparr>)\<rparr>))))"

definition refused_text :: string where
  "refused_text = ''getsockopt: connection refused''"

text \<open>The retry loop of \<open>Dial\<close>: only a refused connection is tried again.\<close>

fun dial_loop :: "cl_env \<Rightarrow> dial_config \<Rightarrow> nat \<Rightarrow> sshego_config \<Rightarrow> cl_state
    \<Rightarrow> ((string + ssh_client option) \<times> sshego_config \<times> cl_state) go" where
  "dial_loop env dc 0 cfg st = Ret (Inr None, cfg, st)"
| "dial_loop env dc (Suc n) cfg st =
     bind_go (SSHConnect env cfg (dc_Mylogin dc) (dc_RsaPath dc) (dc_Sshdhost dc) (dc_Sshdport dc)
                (dc_Pw dc) (dc_TotpUrl dc) st) (\<lambda>(r, cfg', st').
       case r of
         Inr c \<Rightarrow> Ret (Inr c, cfg', st')
       | Inl e \<Rightarrow> if Contains e refused_text \<and> 0 < n then dial_loop env dc n cfg' st' else Ret (Inl e, cfg', st'))"

text \<open>Where the stream goes on behind the server: the port \<open>-2\<close>, a missing port and a path mean a unix-domain socket.\<close>

datatype downstream = UnixTarget string | TcpTarget string

definition downstream_target :: "string \<Rightarrow> addr_err + downstream" where
  "downstream_target hostport =
     (let hp = Trim hostport [CHR 0x0A, CHR 0x0D, CHR 0x09, CHR '' ''] in
      if HasSuffix hp '':-2'' then Inr (UnixTarget (take (length hp - 3) hp))
      else (case net_SplitHostPort hp of
          Inl MissingPort \<Rightarrow> Inr (UnixTarget hp)
        | Inl e \<Rightarrow> Inl e
        | Inr (host, _) \<Rightarrow> Inr (if host \<noteq> [] \<and> hd host = CHR ''/'' then UnixTarget host else TcpTarget hp)))"

datatype dial_err = DErrKnownHosts kh_err | DErrConnect string | DErrAddr addr_err

text \<open>\<open>Dial\<close>; the client that a nil configuration may leave nil is dereferenced for the downstream connection.\<close>

definition Dial :: "cl_env \<Rightarrow> dial_config \<Rightarrow> sshego_config option \<Rightarrow> bool \<Rightarrow> cl_state
    \<Rightarrow> ((dial_err + ssh_client option \<times> downstream option) \<times> sshego_config option \<times> cl_state) go" where
  "Dial env dc cfg0 skipDownstream st =
     bind_go (case cfg0 of Some cfg \<Rightarrow> Ret (Inr (cfg, st)) | None \<Rightarrow> DeriveNewConfig env dc st) (\<lambda>d.
       case d of
         Inl e \<Rightarrow> Ret (Inl (DErrKnownHosts e), None, st)
       | Inr (cfg, st0) \<Rightarrow>
           bind_go (dial_loop env dc 3 cfg st0) (\<lambda>(r, cfg', st').
             case r of
               Inl e \<Rightarrow> Ret (Inl (DErrConnect e), Some cfg', st')
             | Inr c \<Rightarrow>
                 if skipDownstream then Ret (Inr (c, None), Some cfg', st')
                 else (case downstream_target (dc_DownstreamHostPort dc) of
                     Inl e \<Rightarrow> Ret (Inl (DErrAddr e), Some cfg', st')
                   | Inr target \<Rightarrow>
                       if c = None then Panic ''nil pointer dereference''
                       else Ret (Inr (c, Some target), Some cfg', st'))))"

subsection \<open>Tricorder\<close>

record tricorder =
  tr_dc :: dial_config
  tr_cfg :: sshego_config
  tr_uhp :: uhp
  tr_tofu :: bool
  tr_retries :: nat
  tr_cli :: "ssh_client option"
  tr_channels :: "nat list"       \<comment> \<open>the open channels, by the number of their request\<close>
  tr_lastConnectTime :: int       \<comment> \<open>nanoseconds; set by a failed connect\<close>

datatype tri_err = TErr string | TKnownHosts kh_err | TAddr cfg_err | TShutdown

definition rerun_text :: string where
  "rerun_text = ''Re-run without -new''"

fun dial_err_text :: "dial_err \<Rightarrow> string" where
  "dial_err_text (DErrConnect e) = e"
| "dial_err_text _ = []"

text \<open>
  The loop of \<open>helperNewClientConnect\<close>: \<open>stops i\<close> says whether a stop request is seen before the
  try with \<open>i\<close> more to come.  The result is the last error, if any, and the client.
\<close>

fun connect_loop :: "cl_env \<Rightarrow> (nat \<Rightarrow> bool) \<Rightarrow> nat \<Rightarrow> tri_err option \<Rightarrow> tricorder \<Rightarrow> cl_state
    \<Rightarrow> (tri_err option \<times> ssh_client option \<times> tricorder \<times> cl_state) go" where
  "connect_loop env stops 0 err t st = Ret (err, None, t, st)"
| "connect_loop env stops (Suc n) err t st =
     (if stops n then Ret (Some TShutdown, None, t, st)
      else bind_go (Dial env (tr_dc t) (Some (tr_cfg t)) True st) (\<lambda>(r, cfg', st').
        let t1 = (case cfg' of None \<Rightarrow> t | Some c \<Rightarrow> t\<lparr>tr_cfg := c\<rparr>) in
        case r of
          Inr (None, _) \<Rightarrow> Panic ''err must not be nil if sshcli is nil''
        | Inr (Some c, _) \<Rightarrow>
            Ret (None, Some c, t1\<lparr>tr_tofu := False, tr_cfg := (tr_cfg t1)\<lparr>cf_AddIfNotKnown := False\<rparr>\<rparr>, st')
        | Inl e \<Rightarrow>
            if Contains (dial_err_text e) rerun_text
            then (if tr_tofu t1
                  then connect_loop env stops n (Some (TErr (dial_err_text e)))
                         (t1\<lparr>tr_tofu := False, tr_dc := (tr_dc t1)\<lparr>dc_TofuAddIfNotKnown := False\<rparr>,
                             tr_cfg := (tr_cfg t1)\<lparr>cf_AddIfNotKnown := False\<rparr>\<rparr>) st'
                  else Ret (Some (TErr (dial_err_text e)), None, t1, st'))
            else connect_loop env stops n (Some (TErr (dial_err_text e))) t1 st'))"

definition helperNewClientConnect :: "cl_env \<Rightarrow> (nat \<Rightarrow> bool) \<Rightarrow> int \<Rightarrow> tricorder \<Rightarrow> cl_state
    \<Rightarrow> (tri_err option \<times> tricorder \<times> cl_state) go" where
  "helperNewClientConnect env stops now t st =
     (case SplitHostPort (uh_HostPort (tr_uhp t)) of
        Inl e \<Rightarrow> Ret (Some (TAddr e), t\<lparr>tr_lastConnectTime := now\<rparr>, st)
      | Inr _ \<Rightarrow>
          if cs_kh st = None then Panic ''problem! t.cfg.KnownHosts is nil''
          else if cf_PrivateKeyPath (tr_cfg t) = [] then Panic ''problem! t.cfg.PrivateKeyPath is empty''
          else bind_go (connect_loop env stops (tr_retries t) None t st) (\<lambda>(e, c, t1, st').
            case e of
              Some err \<Rightarrow> Ret (Some err, t1\<lparr>tr_lastConnectTime := now\<rparr>, st')
            | None \<Rightarrow> (case c of
                None \<Rightarrow> Panic ''why no NcCloser()???''
              | Some cli \<Rightarrow> Ret (None, t1\<lparr>tr_cli := Some cli\<rparr>, st'))))"

definition NewTricorder :: "cl_env \<Rightarrow> (nat \<Rightarrow> bool) \<Rightarrow> int \<Rightarrow> dial_config \<Rightarrow> cl_state
    \<Rightarrow> (tri_err option \<times> tricorder option \<times> cl_state) go" where
  "NewTricorder env stops now dc st =
     bind_go (DeriveNewConfig env dc st) (\<lambda>d.
       case d of
         Inl e \<Rightarrow> Ret (Some (TKnownHosts e), None, st)
       | Inr (cfg, st0) \<Rightarrow>
           bind_go (helperNewClientConnect env stops now
               \<lparr>tr_dc = dc, tr_cfg = cfg,
                tr_uhp = \<lparr>uh_User = dc_Mylogin dc, uh_HostPort = host_port (dc_Sshdhost dc) (dc_Sshdport dc),
                          uh_Nickname = dc_DestNickname dc\<rparr>,
                tr_tofu = dc_TofuAddIfNotKnown dc, tr_retries = 10, tr_cli = None, tr_channels = [],
                tr_lastConnectTime = 0\<rparr> st0) (\<lambda>(e, t, st').
             Ret (e, (if e = None then Some t else None), st')))"

definition closeChannels :: "tricorder \<Rightarrow> tricorder" where
  "closeChannels t = t\<lparr>tr_channels := []\<rparr>"

text \<open>
  The loop's answer to a reconnect notice at time \<open>now\<close>: None ends the goroutine.  A notice
  within a second of \<open>lastConnectTime\<close> is ignored; a reconnect that fails panics.
\<close>

definition on_reconnect :: "cl_env \<Rightarrow> (nat \<Rightarrow> bool) \<Rightarrow> int \<Rightarrow> uhp \<Rightarrow> tricorder \<Rightarrow> cl_state
    \<Rightarrow> (tricorder option \<times> cl_state) go" where
  "on_reconnect env stops now u t st =
     (if uh_User u \<noteq> uh_User (tr_uhp t) \<or> uh_HostPort u \<noteq> uh_HostPort (tr_uhp t) then Panic ''yikes, bad!''
      else if now - tr_lastConnectTime t < 1000000000 then Ret (Some t, st)
      else bind_go (helperNewClientConnect env stops now ((closeChannels t)\<lparr>tr_uhp := u, tr_cli := None\<rparr>) st)
        (\<lambda>(e, t', st'). case e of
           None \<Rightarrow> Ret (Some t', st')
         | Some TShutdown \<Rightarrow> Ret (None, st')
         | Some _ \<Rightarrow> Panic ''panicOn''))"

text \<open>
  \<open>helperGetChannel\<close> for the request with number \<open>k\<close>; \<open>opens\<close> is the answer of the server to
  the channel request.
\<close>

definition helperGetChannel :: "cl_env \<Rightarrow> (nat \<Rightarrow> bool) \<Rightarrow> int \<Rightarrow> (ssh_client \<Rightarrow> string option) \<Rightarrow> nat \<Rightarrow> tricorder \<Rightarrow> cl_state
    \<Rightarrow> (tri_err option \<times> tricorder \<times> cl_state) go" where
  "helperGetChannel env stops now opens k t st =
     bind_go (case tr_cli t of Some _ \<Rightarrow> Ret (None, t, st) | None \<Rightarrow> helperNewClientConnect env stops now t st)
       (\<lambda>(e, t1, st1). case (e, tr_cli t1) of
          (Some err, _) \<Rightarrow> Ret (Some err, t1, st1)
        | (None, None) \<Rightarrow> Panic ''nil pointer dereference''
        | (None, Some c) \<Rightarrow> (case opens c of
            None \<Rightarrow> Ret (None, t1\<lparr>tr_channels := k # tr_channels t1\<rparr>, st1)
          | Some err \<Rightarrow> Ret (Some (TErr err), t1, st1)))"

end
