(* ===== verification/Client_Proofs.thy ===== *)
theory Client_Proofs
  imports Client Known_Hosts_Proofs
begin

section \<open>Correctness of the client\<close>

text \<open>
  A client that connects has checked the host key of its peer against the database, also when
  the key was learned on the way; the automatic handling of trust on first use connects at the
  second attempt; every connect makes a bounded number of attempts.
\<close>

subsection \<open>One attempt\<close>

text \<open>What a returning attempt says about its peer.\<close>

definition vouches :: "cl_state \<Rightarrow> ssh_client \<Rightarrow> bool" where
  "vouches st c \<longleftrightarrow> (\<exists>h r. cs_kh st = Some h \<and> hosts_of h (MarshalAuthorizedKey (sc_hostKey c)) = Some r
     \<and> \<not> sk_ServerBanned r \<and> sc_addr c \<in> vouched r)"

definition presented :: "cl_env \<Rightarrow> nat \<Rightarrow> ssh_client \<Rightarrow> bool" where
  "presented env n c \<longleftrightarrow> (\<exists>k remote login alive. k < n \<and> cn_net env k (sc_addr c) = Peer (sc_hostKey c) remote login alive)"

lemma mySSHDial_ok:
  assumes "mySSHDial env cfg addr user auth h st = Ret (Inr c, st')" "\<not> cf_TestAllowOneshotConnect cfg"
  shows "\<not> cf_AddIfNotKnown cfg" "sc_addr c = addr" "sc_user c = user" "vouches st' c"
    "presented env (cs_attempts st') c" "cs_attempts st' = Suc (cs_attempts st)"
proof -
  obtain key remote login alive h' d' where net: "cn_net env (cs_attempts st) addr = Peer key remote login alive"
      and cb: "hostKeyCallback (cn_kh env) (cf_AddIfNotKnown cfg) False addr remote key (h, cs_disk st) = Ret (None, (h', d'))"
      and c: "c = \<lparr>sc_addr = addr, sc_user = user, sc_hostKey = key\<rparr>"
      and st': "st' = (next_attempt st)\<lparr>cs_kh := Some h', cs_disk := d'\<rparr>"
    using assms by (auto simp: mySSHDial_def Let_def bind_go_pair_iff split: peer.split_asm option.split_asm if_split_asm)
  note callback_accepts [OF cb]
  then show "\<not> cf_AddIfNotKnown cfg" "vouches st' c" by (simp_all add: vouches_def st' c hosts_of_def)
  show "sc_addr c = addr" "sc_user c = user" by (simp_all add: c)
  show "presented env (cs_attempts st') c" using net by (auto simp: presented_def st' c next_attempt_def)
  show "cs_attempts st' = Suc (cs_attempts st)" by (simp add: st' next_attempt_def)
qed

lemma mySSHDial_attempts:
  "mySSHDial env cfg addr user auth h st = Ret (r, st') \<Longrightarrow> cs_attempts st' = Suc (cs_attempts st) \<and> cs_kh st' \<noteq> None"
  if "cs_kh st \<noteq> None"
  using that by (auto simp: mySSHDial_def next_attempt_def Let_def bind_go_pair_iff split: peer.split_asm)

lemma prepare_config_simps [simp]:
  "cf_TestAllowOneshotConnect (snd (prepare_config env cfg)) = cf_TestAllowOneshotConnect cfg"
  "cf_AddIfNotKnown (snd (prepare_config env cfg)) = cf_AddIfNotKnown cfg"
  "cf_PrivateKeyPath (snd (prepare_config env cfg)) = cf_PrivateKeyPath cfg"
  by (simp_all add: prepare_config_def Let_def)

text \<open>A returning \<open>SSHConnect\<close> made no attempt, or one.\<close>

lemma SSHConnect_cases:
  assumes "SSHConnect env cfg u kp host port pw url st = Ret (r, cfg', st')"
  obtains (none) "st' = st" "cs_kh st \<noteq> None" "cfg' = snd (prepare_config env cfg)" "\<forall>c. r \<noteq> Inr (Some c)"
  | (one) h auth q where "cs_kh st = Some h" "cfg' = snd (prepare_config env cfg)"
      "mySSHDial env cfg' (host_port host port) u auth h st = Ret (q, st')" "\<forall>c. r = Inr (Some c) \<longrightarrow> q = Inr c"
      "r \<noteq> Inr None"
proof -
  let ?key = "if kp = [] then None else LoadRSAPrivateKey (cn_host env) (cs_disk st) kp"
  let ?auth = "client_methods ?key pw url" and ?hp = "host_port host port"
  obtain h where h: "cs_kh st = Some h" using assms by (cases "cs_kh st") (simp_all add: SSHConnect_def)
  obtain e cfg2 where p: "prepare_config env cfg = (e, cfg2)" by fastforce
  have e: "e = None" using assms by (cases e) (simp_all add: SSHConnect_def h p)
  show thesis
  proof (cases "has_tunnel_or_dials cfg2 \<and> (kp = [] \<or> ?key \<noteq> None)")
    case False
    then have "st' = st" "cfg' = cfg2" "\<forall>c. r \<noteq> Inr (Some c)"
      using assms by (auto simp: SSHConnect_def h p e Let_def split: if_split_asm)
    then show thesis using none h p by simp
  next
    case True
    then have "bind_go (mySSHDial env cfg2 ?hp u ?auth h st) (\<lambda>(q, s). Ret (
          (case q of Inl e \<Rightarrow> Inl (dial_error ?hp e)
           | Inr c \<Rightarrow> (case start_tunnels env cfg2 of Some e \<Rightarrow> Inl e | None \<Rightarrow> Inr (Some c))), cfg2, s)) = Ret (r, cfg', st')"
      using assms by (auto simp: SSHConnect_def h p e Let_def)
    then obtain q where "mySSHDial env cfg2 ?hp u ?auth h st = Ret (q, st')" "cfg' = cfg2"
      "r = (case q of Inl e \<Rightarrow> Inl (dial_error ?hp e)
              | Inr c \<Rightarrow> (case start_tunnels env cfg2 of Some e \<Rightarrow> Inl e | None \<Rightarrow> Inr (Some c)))"
      by (auto simp: bind_go_pair_iff)
    then show thesis using one [of h ?auth q] h p by (auto split: sum.split_asm option.split_asm)
  qed
qed

lemma SSHConnect_frame:
  assumes "SSHConnect env cfg u kp host port pw url st = Ret (r, cfg', st')"
  shows "cf_TestAllowOneshotConnect cfg' = cf_TestAllowOneshotConnect cfg" "cf_AddIfNotKnown cfg' = cf_AddIfNotKnown cfg"
    "cf_PrivateKeyPath cfg' = cf_PrivateKeyPath cfg"
    "cs_attempts st' \<le> Suc (cs_attempts st)" "cs_kh st' \<noteq> None"
proof -
  have "cfg' = snd (prepare_config env cfg) \<and> cs_attempts st' \<le> Suc (cs_attempts st) \<and> cs_kh st' \<noteq> None"
    using assms
  proof (cases rule: SSHConnect_cases)
    case (one h auth q)
    then show ?thesis using mySSHDial_attempts [OF _ one(3)] by simp
  qed simp
  then show "cf_TestAllowOneshotConnect cfg' = cf_TestAllowOneshotConnect cfg" "cf_AddIfNotKnown cfg' = cf_AddIfNotKnown cfg"
    "cf_PrivateKeyPath cfg' = cf_PrivateKeyPath cfg"
    "cs_attempts st' \<le> Suc (cs_attempts st)" "cs_kh st' \<noteq> None" by simp_all
qed

lemma SSHConnect_ok:
  assumes "SSHConnect env cfg u kp host port pw url st = Ret (Inr (Some c), cfg', st')" "\<not> cf_TestAllowOneshotConnect cfg"
  shows "\<not> cf_AddIfNotKnown cfg \<and> sc_addr c = host_port host port \<and> sc_user c = u \<and> vouches st' c
    \<and> presented env (cs_attempts st') c"
  using assms(1)
proof (cases rule: SSHConnect_cases)
  case (one h auth q)
  then have d: "mySSHDial env cfg' (host_port host port) u auth h st = Ret (Inr c, st')" by simp
  have f: "cf_TestAllowOneshotConnect cfg' = cf_TestAllowOneshotConnect cfg" "cf_AddIfNotKnown cfg' = cf_AddIfNotKnown cfg"
    using one(2) by simp_all
  show ?thesis using mySSHDial_ok [OF d] assms(2) by (simp add: f)
qed simp

subsection \<open>Retries\<close>

lemma dial_loop_SucE:
  assumes "dial_loop env dc (Suc n) cfg st = Ret (r, cfg', st')"
  obtains q cfg1 st1 where "SSHConnect env cfg (dc_Mylogin dc) (dc_RsaPath dc) (dc_Sshdhost dc) (dc_Sshdport dc)
      (dc_Pw dc) (dc_TotpUrl dc) st = Ret (q, cfg1, st1)"
    "(r = q \<and> cfg' = cfg1 \<and> st' = st1) \<or> dial_loop env dc n cfg1 st1 = Ret (r, cfg', st')"
proof -
  obtain q cfg1 st1 where q: "SSHConnect env cfg (dc_Mylogin dc) (dc_RsaPath dc) (dc_Sshdhost dc) (dc_Sshdport dc)
      (dc_Pw dc) (dc_TotpUrl dc) st = Ret (q, cfg1, st1)"
    using assms by (auto simp: bind_go_Ret_iff)
  with assms show thesis using that [OF q] by (cases q) (auto split: if_split_asm)
qed

lemma dial_loop_frame:
  "dial_loop env dc n cfg st = Ret (r, cfg', st') \<Longrightarrow> cs_kh st \<noteq> None \<Longrightarrow>
     cf_TestAllowOneshotConnect cfg' = cf_TestAllowOneshotConnect cfg \<and> cf_AddIfNotKnown cfg' = cf_AddIfNotKnown cfg
   \<and> cs_attempts st' \<le> n + cs_attempts st \<and> cs_kh st' \<noteq> None"
proof (induction n arbitrary: cfg st)
  case (Suc n)
  from Suc.prems(1) show ?case
  proof (rule dial_loop_SucE)
    fix q cfg1 st1
    assume q: "SSHConnect env cfg (dc_Mylogin dc) (dc_RsaPath dc) (dc_Sshdhost dc) (dc_Sshdport dc)
        (dc_Pw dc) (dc_TotpUrl dc) st = Ret (q, cfg1, st1)"
      and "(r = q \<and> cfg' = cfg1 \<and> st' = st1) \<or> dial_loop env dc n cfg1 st1 = Ret (r, cfg', st')"
    with SSHConnect_frame [OF q] Suc.IH [of cfg1 st1] show ?case by auto
  qed
qed simp

lemma dial_loop_ok:
  "dial_loop env dc n cfg st = Ret (Inr (Some c), cfg', st') \<Longrightarrow> \<not> cf_TestAllowOneshotConnect cfg \<Longrightarrow>
     \<not> cf_AddIfNotKnown cfg \<and> sc_addr c = host_port (dc_Sshdhost dc) (dc_Sshdport dc) \<and> sc_user c = dc_Mylogin dc
   \<and> vouches st' c \<and> presented env (cs_attempts st') c"
proof (induction n arbitrary: cfg st)
  case (Suc n)
  from Suc.prems(1) show ?case
  proof (rule dial_loop_SucE)
    fix q cfg1 st1
    assume q: "SSHConnect env cfg (dc_Mylogin dc) (dc_RsaPath dc) (dc_Sshdhost dc) (dc_Sshdport dc)
        (dc_Pw dc) (dc_TotpUrl dc) st = Ret (q, cfg1, st1)"
      and "(Inr (Some c) = q \<and> cfg' = cfg1 \<and> st' = st1) \<or> dial_loop env dc n cfg1 st1 = Ret (Inr (Some c), cfg', st')"
    then consider (now) "q = Inr (Some c)" "st' = st1" | (later) "dial_loop env dc n cfg1 st1 = Ret (Inr (Some c), cfg', st')"
      by auto
    then show ?case
    proof cases
      case now
      then show ?thesis using SSHConnect_ok [OF q [unfolded now(1)] Suc.prems(2)] by simp
    next
      case later
      then show ?thesis using Suc.IH [OF later] SSHConnect_frame(1,2) [OF q] Suc.prems(2) by simp
    qed
  qed
qed simp

lemma Dial_skip:
  "Dial env dc (Some cfg) True st =
     bind_go (dial_loop env dc 3 cfg st) (\<lambda>(r, cfg', st').
       Ret ((case r of Inl e \<Rightarrow> Inl (DErrConnect e) | Inr c \<Rightarrow> Inr (c, None)), Some cfg', st'))"
  unfolding Dial_def by (cases "dial_loop env dc 3 cfg st") (auto split: sum.split)

text \<open>One round of the loop of \<open>helperNewClientConnect\<close>, over the result of the dial.\<close>

lemma connect_loop_round:
  assumes "connect_loop env stops (Suc n) err t st = Ret (e, c, t', st')" "\<not> stops n"
  obtains (conn) cfg1 c1 where "dial_loop env (tr_dc t) 3 (tr_cfg t) st = Ret (Inr (Some c1), cfg1, st')"
      "e = None" "c = Some c1" "t' = t\<lparr>tr_cfg := cfg1\<lparr>cf_AddIfNotKnown := False\<rparr>, tr_tofu := False\<rparr>"
  | (fail) cfg1 x where "dial_loop env (tr_dc t) 3 (tr_cfg t) st = Ret (Inl x, cfg1, st')" "e \<noteq> None" "c = None"
  | (again) cfg1 x st1 t1 where "dial_loop env (tr_dc t) 3 (tr_cfg t) st = Ret (Inl x, cfg1, st1)"
      "connect_loop env stops n (Some (TErr x)) t1 st1 = Ret (e, c, t', st')"
      "t1 = t\<lparr>tr_cfg := cfg1\<rparr> \<or>
       t1 = t\<lparr>tr_cfg := cfg1\<lparr>cf_AddIfNotKnown := False\<rparr>, tr_tofu := False, tr_dc := (tr_dc t)\<lparr>dc_TofuAddIfNotKnown := False\<rparr>\<rparr>"
proof -
  obtain r cfg1 st1 where d: "dial_loop env (tr_dc t) 3 (tr_cfg t) st = Ret (r, cfg1, st1)"
    using assms by (cases "dial_loop env (tr_dc t) 3 (tr_cfg t) st") (auto simp: Dial_skip)
  show thesis
  proof (cases r)
    case (Inl x)
    with assms d show thesis using fail [of x cfg1] again [of x cfg1 st1]
      by (auto simp: Dial_skip Let_def split: if_split_asm)
  next
    case (Inr q)
    with assms d show thesis using conn [of _ cfg1]
      by (cases q) (auto simp: Dial_skip Let_def)
  qed
qed

lemma connect_loop_ok:
  "connect_loop env stops n err t st = Ret (e, c, t', st') \<Longrightarrow> cs_kh st \<noteq> None \<Longrightarrow>
     cs_attempts st' \<le> 3 * n + cs_attempts st
   \<and> (\<not> cf_TestAllowOneshotConnect (tr_cfg t) \<longrightarrow> e = None \<longrightarrow> err = None \<and> c = None \<or>
      (\<exists>cl. c = Some cl \<and> sc_addr cl = host_port (dc_Sshdhost (tr_dc t)) (dc_Sshdport (tr_dc t))
         \<and> sc_user cl = dc_Mylogin (tr_dc t) \<and> vouches st' cl \<and> presented env (cs_attempts st') cl
         \<and> \<not> cf_AddIfNotKnown (tr_cfg t') \<and> \<not> tr_tofu t'))"
proof (induction n arbitrary: err t st)
  case (Suc n)
  show ?case
  proof (cases "stops n")
    case True
    then show ?thesis using Suc.prems by auto
  next
    case False
    from Suc.prems(1) False show ?thesis
    proof (cases rule: connect_loop_round)
      case (conn cfg1 c1)
      with dial_loop_frame [OF conn(1) Suc.prems(2)] dial_loop_ok [OF conn(1)] show ?thesis by auto
    next
      case (fail cfg1 x)
      with dial_loop_frame [OF fail(1) Suc.prems(2)] show ?thesis by auto
    next
      case (again cfg1 x st1 t1)
      with dial_loop_frame [OF again(1) Suc.prems(2)] Suc.IH [OF again(2)] show ?thesis by auto
    qed
  qed
qed simp

subsection \<open>Trust on first use\<close>

text \<open>The texts the retry loops search: the error of a new host asks for a re-run and is no refusal.\<close>

lemma Contains_append_left: "Contains s p \<Longrightarrow> Contains (a @ s) p"
  unfolding Contains_iff by (metis append.assoc)

lemma Contains_append_right: "Contains s p \<Longrightarrow> Contains (s @ b) p"
  unfolding Contains_iff by (metis append.assoc)

lemma word_in_Split: "c \<notin> set w \<Longrightarrow> w \<in> set (tl (Split c (a @ c # w @ c # b)))"
proof (induction a)
  case Nil
  then show ?case by (simp add: Split_append_sep)
next
  case (Cons x a)
  then show ?case using list.set_sel(2) [of "Split c (a @ c # w @ c # b)" w] by (auto split: list.split)
qed

definition added_text :: "string \<Rightarrow> string" where
  "added_text addr = dial_error addr (''ssh: handshake failed: '' @ kh_err_text ErrAddedNew)"

lemma added_asks_for_rerun: "Contains (added_text addr) rerun_text"
proof -
  have "kh_err_text ErrAddedNew = ''good: added previously unknown sshd host with the -new flag. '' @ rerun_text
          @ '' (or setting TofuAddIfNotKnown=false) now''"
    by (simp add: kh_err_text_def rerun_text_def)
  then have "Contains (kh_err_text ErrAddedNew) rerun_text" by (simp only: Contains_append)
  then show ?thesis unfolding added_text_def dial_error_def
    by (intro Contains_append_left Contains_append_right)
qed

lemma added_is_no_refusal:
  assumes "CHR '' '' \<notin> set addr"
  shows "\<not> Contains (added_text addr) refused_text"
proof
  assume "Contains (added_text addr) refused_text"
  then obtain a b where "added_text addr = a @ refused_text @ b" unfolding Contains_iff by blast
  then have "added_text addr = (a @ ''getsockopt:'') @ CHR '' '' # ''connection'' @ CHR '' '' # ''refused'' @ b"
    by (simp add: refused_text_def)
  then have w: "''connection'' \<in> set (tl (Split CHR '' '' (added_text addr)))"
    by (simp only:) (rule word_in_Split, simp)
  have "Split CHR '' '' (addr @ CHR 0x27 # CHR '':'' # CHR '' '' # r) = (addr @ [CHR 0x27, CHR '':'']) # Split CHR '' '' r" for r
    using Split_append_sep [of "CHR '' ''" "addr @ [CHR 0x27, CHR '':'']" r] assms by simp
  then have "''connection'' \<notin> set (tl (Split CHR '' '' (added_text addr)))"
    by (simp add: added_text_def dial_error_def kh_err_text_def)
  with w show False by simp
qed

text \<open>An attempt with a client configuration: nothing else to start, and a private key that loads.\<close>

definition plain_client :: "sshego_config \<Rightarrow> bool" where
  "plain_client cfg \<longleftrightarrow> ah_Addr (cf_EmbeddedSSHd cfg) = [] \<and> cf_DirectTcp cfg
     \<and> ah_Addr (ts_Listen (cf_RemoteToLocal cfg)) = [] \<and> ah_Addr (ts_Listen (cf_LocalToRemote cfg)) = []"

lemma plain_client_prepare [simp]:
  "plain_client cfg \<Longrightarrow> fst (prepare_config env cfg) = None"
  "plain_client cfg \<Longrightarrow> plain_client (snd (prepare_config env cfg))"
  by (simp_all add: plain_client_def prepare_config_def Let_def)

lemma SSHConnect_plain:
  assumes "cs_kh st = Some h" "plain_client cfg" "kp \<noteq> []" "LoadRSAPrivateKey (cn_host env) (cs_disk st) kp = Some k"
    and "mySSHDial env (snd (prepare_config env cfg)) (host_port host port) u (client_methods (Some k) pw url) h st = Ret (r, st')"
  shows "SSHConnect env cfg u kp host port pw url st
    = Ret ((case r of Inl e \<Rightarrow> Inl (dial_error (host_port host port) e) | Inr c \<Rightarrow> Inr (Some c)), snd (prepare_config env cfg), st')"
proof -
  obtain cfg2 where p: "prepare_config env cfg = (None, cfg2)"
    using plain_client_prepare(1) [OF assms(2), of env] by (cases "prepare_config env cfg") simp
  then have "plain_client cfg2" using plain_client_prepare(2) [OF assms(2), of env] by simp
  then have "has_tunnel_or_dials cfg2" "start_tunnels env cfg2 = None"
    by (simp_all add: plain_client_def has_tunnel_or_dials_def start_tunnels_def)
  with assms p show ?thesis by (simp add: SSHConnect_def cong: sum.case_cong)
qed

text \<open>A peer that has a host key and lets the user in, and the client it gives.\<close>

definition admits :: "peer \<Rightarrow> pub_key \<Rightarrow> bool" where
  "admits p key \<longleftrightarrow> (\<exists>remote login. p = Peer key remote login None \<and> (\<forall>u a. login u a = None))"

lemma dial_loop_admitted:
  assumes "cs_kh st = Some h" "plain_client cfg" "dc_RsaPath dc \<noteq> []"
    and "LoadRSAPrivateKey (cn_host env) (cs_disk st) (dc_RsaPath dc) \<noteq> None"
    and net: "cn_net env (cs_attempts st) addr = Peer key remote login None" "\<forall>u a. login u a = None"
    and cb: "hostKeyCallback (cn_kh env) (cf_AddIfNotKnown cfg) (cf_TestAllowOneshotConnect cfg) addr remote key (h, cs_disk st)
        = Ret (e, (h', d'))" "e = None \<or> e = Some ErrAddedNew"
    and addr: "addr = host_port (dc_Sshdhost dc) (dc_Sshdport dc)" "CHR '' '' \<notin> set addr"
  shows "dial_loop env dc (Suc n) cfg st
    = Ret ((case e of None \<Rightarrow> Inr (Some \<lparr>sc_addr = addr, sc_user = dc_Mylogin dc, sc_hostKey = key\<rparr>)
            | Some _ \<Rightarrow> Inl (added_text addr)),
           snd (prepare_config env cfg), (next_attempt st)\<lparr>cs_kh := Some h', cs_disk := d'\<rparr>)"
proof -
  obtain k where k: "LoadRSAPrivateKey (cn_host env) (cs_disk st) (dc_RsaPath dc) = Some k" using assms(4) by blast
  let ?auth = "client_methods (Some k) (dc_Pw dc) (dc_TotpUrl dc)"
  let ?r = "case e of Some err \<Rightarrow> Inl (''ssh: handshake failed: '' @ kh_err_text err)
            | None \<Rightarrow> Inr \<lparr>sc_addr = addr, sc_user = dc_Mylogin dc, sc_hostKey = key\<rparr>"
  have "mySSHDial env (snd (prepare_config env cfg)) addr (dc_Mylogin dc) ?auth h st
      = Ret (?r, (next_attempt st)\<lparr>cs_kh := Some h', cs_disk := d'\<rparr>)"
    using cb(1) net by (simp add: mySSHDial_def Let_def split: option.split)
  from SSHConnect_plain [OF assms(1-3) k this [unfolded addr(1)]] cb(2) added_is_no_refusal [OF addr(2)] show ?thesis
    by (auto simp: addr(1) added_text_def)
qed

lemma connect_loop_learned:
  "dial_loop env (tr_dc t) 3 (tr_cfg t) st = Ret (Inl x, cfg1, st1) \<Longrightarrow> Contains x rerun_text \<Longrightarrow> tr_tofu t \<Longrightarrow>
   connect_loop env (\<lambda>_. False) (Suc n) err t st = connect_loop env (\<lambda>_. False) n (Some (TErr x))
     (t\<lparr>tr_tofu := False, tr_dc := (tr_dc t)\<lparr>dc_TofuAddIfNotKnown := False\<rparr>, tr_cfg := cfg1\<lparr>cf_AddIfNotKnown := False\<rparr>\<rparr>) st1"
  by (simp add: Dial_skip Let_def)

lemma connect_loop_tofu:
  assumes kh: "cs_kh st = Some h" "hosts_of h (MarshalAuthorizedKey key) = None" "files_ok (cn_kh env)"
      "names_ok (kh_Hosts h)" "two_parts addr" "CHR '' '' \<notin> set addr"
    and addr: "addr = host_port (dc_Sshdhost (tr_dc t)) (dc_Sshdport (tr_dc t))"
    and cfg: "plain_client (tr_cfg t)" "cf_AddIfNotKnown (tr_cfg t)" "\<not> cf_TestAllowOneshotConnect (tr_cfg t)" "tr_tofu t"
    and rsa: "dc_RsaPath (tr_dc t) \<noteq> []" "\<not> HasPrefix (dc_RsaPath (tr_dc t)) (kh_FilepathPrefix h)"
      "LoadRSAPrivateKey (cn_host env) (cs_disk st) (dc_RsaPath (tr_dc t)) \<noteq> None"
    and net: "admits (cn_net env (cs_attempts st) addr) key" "admits (cn_net env (Suc (cs_attempts st)) addr) key"
  shows "\<exists>t' st'. connect_loop env (\<lambda>_. False) (Suc (Suc n)) err t st
            = Ret (None, Some \<lparr>sc_addr = addr, sc_user = dc_Mylogin (tr_dc t), sc_hostKey = key\<rparr>, t', st')
          \<and> cs_attempts st' = cs_attempts st + 2"
proof -
  let ?cfg1 = "snd (prepare_config env (tr_cfg t))"
  let ?t1 = "t\<lparr>tr_tofu := False, tr_dc := (tr_dc t)\<lparr>dc_TofuAddIfNotKnown := False\<rparr>, tr_cfg := ?cfg1\<lparr>cf_AddIfNotKnown := False\<rparr>\<rparr>"
  obtain r1 l1 r2 l2 where p1: "cn_net env (cs_attempts st) addr = Peer key r1 l1 None" "\<forall>u a. l1 u a = None"
      and p2: "cn_net env (Suc (cs_attempts st)) addr = Peer key r2 l2 None" "\<forall>u a. l2 u a = None"
    using net unfolding admits_def by blast
  obtain h1 d1 h2 where cb1: "hostKeyCallback (cn_kh env) True False addr r1 key (h, cs_disk st) = Ret (Some ErrAddedNew, (h1, d1))"
      and cb2: "hostKeyCallback (cn_kh env) False False addr r2 key (h1, d1) = Ret (None, (h2, d1))"
      and d1: "\<And>p. \<not> HasPrefix p (kh_FilepathPrefix h) \<Longrightarrow> d1 p = cs_disk st p"
    using callback_first_use [OF kh(2-5), of r1 "cs_disk st" r2] by blast
  let ?st1 = "(next_attempt st)\<lparr>cs_kh := Some h1, cs_disk := d1\<rparr>"
  let ?st2 = "(next_attempt ?st1)\<lparr>cs_kh := Some h2, cs_disk := d1\<rparr>"
  have k1: "LoadRSAPrivateKey (cn_host env) (cs_disk ?st1) (dc_RsaPath (tr_dc t)) \<noteq> None"
    using rsa(3) d1 [OF rsa(2)] by (simp add: LoadRSAPrivateKey_def)
  have one: "dial_loop env (tr_dc t) 3 (tr_cfg t) st = Ret (Inl (added_text addr), ?cfg1, ?st1)"
    using dial_loop_admitted [OF kh(1) cfg(1) rsa(1,3) p1 _ _ addr kh(6), of "Some ErrAddedNew" h1 d1 2] cb1 cfg(2,3)
    by (simp add: numeral_3_eq_3)
  have "plain_client (tr_cfg ?t1)" using plain_client_prepare(2) [OF cfg(1), of env] by (simp add: plain_client_def)
  then have two: "\<exists>cfg2. dial_loop env (tr_dc ?t1) 3 (tr_cfg ?t1) ?st1
      = Ret (Inr (Some \<lparr>sc_addr = addr, sc_user = dc_Mylogin (tr_dc t), sc_hostKey = key\<rparr>), cfg2, ?st2)"
    using dial_loop_admitted [of ?st1 h1 "tr_cfg ?t1" "tr_dc ?t1" env addr key r2 l2 None h2 d1 2] cb2 cfg(3) rsa(1) k1 p2 addr kh(6)
    by (simp add: numeral_3_eq_3 next_attempt_def)
  note connect_loop_learned [OF one added_asks_for_rerun cfg(4), of "Suc n" err]
  with two show ?thesis by (auto simp: Dial_skip Let_def next_attempt_def)
qed

definition demo_client_host :: host_env where
  "demo_client_host = \<lparr>he_dirExists = (\<lambda>_. True), he_mkdir = (\<lambda>_. True), he_open = (\<lambda>_. True), he_removeAll = (\<lambda>_. True),
     he_hostname = ''c'', he_scrypt = id, he_compare = (=), he_totp = (\<lambda>_ _. None), he_urlOk = (\<lambda>_. True),
     he_totpValid = (\<lambda>_ _. True), he_genRSA = (\<lambda>_. None), he_parsePrivate = (\<lambda>_. Some demo_key),
     he_parseAuthorized = (\<lambda>_. None), he_marshal = (\<lambda>_. None), he_json = (\<lambda>_. None), he_decode = (\<lambda>_. None)\<rparr>"

text \<open>For the witnesses, a server that answers every attempt, and a client that has never seen it.\<close>

definition demo_client_env :: cl_env where
  "demo_client_env = \<lparr>cn_kh = demo_env, cn_host = demo_client_host,
     cn_net = (\<lambda>_ _. Peer demo_key ''1.2.3.4:22'' (\<lambda>_ _. None) None),
     cn_code = (\<lambda>_. None), cn_keyErr = id, cn_listen = (\<lambda>_. None), cn_esshd = False\<rparr>"

definition demo_dc :: dial_config where
  "demo_dc = \<lparr>dc_ClientKnownHostsPath = ''kh'', dc_Mylogin = ''bob'', dc_RsaPath = ''id_rsa'', dc_TotpUrl = [], dc_Pw = ''pw'',
     dc_Sshdhost = ''h'', dc_Sshdport = 22, dc_DownstreamHostPort = [], dc_TofuAddIfNotKnown = True,
     dc_DoNotUpdateSshKnownHosts = False, dc_Verbose = False, dc_TestAllowOneshotConnect = False, dc_SkipKeepAlive = False,
     dc_KeepAliveEvery = 0, dc_LocalNickname = [], dc_DestNickname = []\<rparr>"

definition demo_cl_state :: cl_state where
  "demo_cl_state = \<lparr>cs_kh = Some (empty_known_hosts ''kh'' KHSsh), cs_disk = [''id_rsa'' \<mapsto> ''PEM''], cs_attempts = 0\<rparr>"

lemma demo_client:
  "cs_kh demo_cl_state = Some (empty_known_hosts ''kh'' KHSsh)" "cs_attempts demo_cl_state = 0"
  "host_port (dc_Sshdhost demo_dc) (dc_Sshdport demo_dc) = ''h:22''" "two_parts ''h:22''" "CHR '' '' \<notin> set ''h:22''"
  "SplitHostPort ''h:22'' = Inr (''h'', 22)" "dc_TofuAddIfNotKnown demo_dc" "\<not> dc_TestAllowOneshotConnect demo_dc"
  "dc_RsaPath demo_dc = ''id_rsa''" "dc_Mylogin demo_dc = ''bob''" "\<not> HasPrefix ''id_rsa'' (kh_FilepathPrefix (empty_known_hosts ''kh'' KHSsh))"
  "LoadRSAPrivateKey (cn_host demo_client_env) (cs_disk demo_cl_state) ''id_rsa'' = Some demo_key"
  "admits (cn_net demo_client_env n ''h:22'') demo_key" "cn_kh demo_client_env = demo_env"
proof -
  show "host_port (dc_Sshdhost demo_dc) (dc_Sshdport demo_dc) = ''h:22''" by code_simp
  show "SplitHostPort ''h:22'' = Inr (''h'', 22)"
    by (simp add: SplitHostPort_def net_SplitHostPort_def last_index_of_def Let_def ParseUint_def is_digit_def digits_val_def
        digit_val_def)
qed (simp_all add: demo_client_env_def demo_cl_state_def demo_dc_def two_parts_def demo_client_host_def HasPrefix_def
      LoadRSAPrivateKey_def admits_def empty_known_hosts_def)

definition demo_known_state :: cl_state where
  "demo_known_state = demo_cl_state\<lparr>cs_kh := Some demo_db\<rparr>"

definition demo_tri :: tricorder where
  "demo_tri = \<lparr>tr_dc = demo_dc, tr_cfg = NewSshegoConfig\<lparr>cf_DirectTcp := True, cf_PrivateKeyPath := ''id_rsa''\<rparr>,
     tr_uhp = \<lparr>uh_User = ''bob'', uh_HostPort = ''h:22'', uh_Nickname = []\<rparr>, tr_tofu = False, tr_retries = 1,
     tr_cli = None, tr_channels = [], tr_lastConnectTime = 0\<rparr>"

lemma demo_known:
  "cs_kh demo_known_state = Some demo_db" "cs_disk demo_known_state = cs_disk demo_cl_state" "cs_attempts demo_known_state = 0"
  "cn_net demo_client_env n a = Peer demo_key ''1.2.3.4:22'' (\<lambda>_ _. None) None"
  "tr_dc demo_tri = demo_dc" "tr_retries demo_tri = Suc 0" "uh_HostPort (tr_uhp demo_tri) = ''h:22''" "plain_client (tr_cfg demo_tri)"
  "\<not> cf_AddIfNotKnown (tr_cfg demo_tri)" "\<not> cf_TestAllowOneshotConnect (tr_cfg demo_tri)"
  "cf_PrivateKeyPath (tr_cfg demo_tri) = ''id_rsa''"
  by (simp_all add: demo_known_state_def demo_cl_state_def demo_client_env_def demo_tri_def plain_client_def NewSshegoConfig_def
      new_addr_def)

text \<open>
  C8: a client that connects knows its server.  With the one-shot test switch (\<^verbatim>\<open>TestAllowOneshotConnect\<close>) off, when
  \<open>helperNewClientConnect\<close> succeeds - at
  the first try or after retries, with or without trust on first use - the client talks to the
  address it was told to, the peer there presented the key of the client, the database holds
  that key, unbanned and vouching for that address (addresses that begin with \<^verbatim>\<open>localhost\<close> or \<^verbatim>\<open>127.0.0.1\<close> are no
  exception, whatever the comment in \<open>HostAlreadyKnown\<close> says), and the flags that let unknown keys in are
  off from then on.  It has made at most three times as many connection attempts as it has
  tries.
\<close>

theorem connected_means_vouched:
  assumes "helperNewClientConnect env stops now t st = Ret (None, t', st')" "\<not> cf_TestAllowOneshotConnect (tr_cfg t)"
  shows "\<exists>c. tr_cli t' = Some c \<and> sc_addr c = host_port (dc_Sshdhost (tr_dc t)) (dc_Sshdport (tr_dc t))
           \<and> sc_user c = dc_Mylogin (tr_dc t) \<and> presented env (cs_attempts st') c \<and> vouches st' c
           \<and> \<not> cf_AddIfNotKnown (tr_cfg t') \<and> \<not> tr_tofu t'
           \<and> cs_attempts st' \<le> 3 * tr_retries t + cs_attempts st"
proof -
  obtain hp where hp: "SplitHostPort (uh_HostPort (tr_uhp t)) = Inr hp"
    using assms(1) by (cases "SplitHostPort (uh_HostPort (tr_uhp t))") (simp_all add: helperNewClientConnect_def)
  have kh: "cs_kh st \<noteq> None" using assms(1) by (cases "cs_kh st") (simp_all add: helperNewClientConnect_def hp)
  have key: "cf_PrivateKeyPath (tr_cfg t) \<noteq> []" 
    using assms(1) kh by (cases "cf_PrivateKeyPath (tr_cfg t) = []") (simp_all add: helperNewClientConnect_def hp)
  obtain e c t1 st1 where loop: "connect_loop env stops (tr_retries t) None t st = Ret (e, c, t1, st1)"
    using assms(1) kh key by (auto simp: helperNewClientConnect_def hp bind_go_Ret_iff)
  then obtain cl where "e = None" "c = Some cl" "st1 = st'" and t': "t' = t1\<lparr>tr_cli := Some cl\<rparr>"
    using assms(1) kh key by (cases e; cases c) (auto simp: helperNewClientConnect_def hp)
  with connect_loop_ok [OF loop kh] assms(2) show ?thesis by (auto simp: t')
qed

theorem connected_means_vouched_witness:
  "\<exists>t' st' c. helperNewClientConnect demo_client_env (\<lambda>_. False) 0 demo_tri demo_known_state = Ret (None, t', st')
     \<and> tr_cli t' = Some c \<and> sc_addr c = ''h:22'' \<and> vouches st' c \<and> cs_attempts st' \<le> 3"
proof -
  obtain h' where cb: "hostKeyCallback demo_env False False ''h:22'' ''1.2.3.4:22'' demo_key (demo_db, cs_disk demo_cl_state)
      = Ret (None, (h', cs_disk demo_cl_state))"
    by (simp add: hostKeyCallback_def HostAlreadyKnown_def demo_db_def empty_known_hosts_def demo_record_def fresh_record_def
        new_server_pub_key_def)
  have "dial_loop demo_client_env demo_dc (Suc 2) (tr_cfg demo_tri) demo_known_state
      = Ret ((case (None :: kh_err option) of None \<Rightarrow> Inr (Some \<lparr>sc_addr = ''h:22'', sc_user = dc_Mylogin demo_dc, sc_hostKey = demo_key\<rparr>)
              | Some _ \<Rightarrow> Inl (added_text ''h:22'')),
          snd (prepare_config demo_client_env (tr_cfg demo_tri)), (next_attempt demo_known_state)\<lparr>cs_kh := Some h', cs_disk := cs_disk demo_cl_state\<rparr>)"
    by (rule dial_loop_admitted [OF demo_known(1,8) _ _ demo_known(4)])
      (simp_all only: demo_client demo_known list.distinct option.distinct cb simp_thms)
  then have "\<exists>cfg st'. dial_loop demo_client_env (tr_dc demo_tri) 3 (tr_cfg demo_tri) demo_known_state
      = Ret (Inr (Some \<lparr>sc_addr = ''h:22'', sc_user = ''bob'', sc_hostKey = demo_key\<rparr>), cfg, st')"
    by (simp only: demo_known demo_client option.case Suc_numeral semiring_norm) blast
  then obtain t' st' where run: "helperNewClientConnect demo_client_env (\<lambda>_. False) 0 demo_tri demo_known_state = Ret (None, t', st')"
    by (auto simp: helperNewClientConnect_def demo_client demo_known Dial_skip Let_def)
  from connected_means_vouched [OF run] run show ?thesis by (auto simp: demo_client demo_known)
qed

text \<open>
  Trust on first use needs no second run of the program.  A new client with the flag on
  and a server whose key it has never seen, which presents the same key and admits the user
  on the first two attempts, gets connected: the first attempt adds the key and fails, the
  second, made by the same call with the flag off, passes the check of the host key.
\<close>

lemma tofu_connects:
  assumes kh: "cs_kh st = Some h" "hosts_of h (MarshalAuthorizedKey key) = None" "files_ok (cn_kh env)" "names_ok (kh_Hosts h)"
    and addr: "addr = host_port (dc_Sshdhost dc) (dc_Sshdport dc)" "two_parts addr" "CHR '' '' \<notin> set addr"
      "SplitHostPort addr = Inr hp"
    and dc: "dc_TofuAddIfNotKnown dc" "\<not> dc_TestAllowOneshotConnect dc"
    and rsa: "dc_RsaPath dc \<noteq> []" "\<not> HasPrefix (dc_RsaPath dc) (kh_FilepathPrefix h)"
      "LoadRSAPrivateKey (cn_host env) (cs_disk st) (dc_RsaPath dc) \<noteq> None"
    and net: "admits (cn_net env (cs_attempts st) addr) key" "admits (cn_net env (Suc (cs_attempts st)) addr) key"
  shows "\<exists>t st'. NewTricorder env (\<lambda>_. False) now dc st = Ret (None, Some t, st')
           \<and> tr_cli t = Some \<lparr>sc_addr = addr, sc_user = dc_Mylogin dc, sc_hostKey = key\<rparr>
           \<and> cs_attempts st' = cs_attempts st + 2"
proof -
  obtain cfg where d: "DeriveNewConfig env dc st = Ret (Inr (cfg, st))" and p: "plain_client cfg" "cf_AddIfNotKnown cfg"
      "\<not> cf_TestAllowOneshotConnect cfg" "cf_PrivateKeyPath cfg = dc_RsaPath dc"
    using kh(1) dc by (simp add: DeriveNewConfig_def Let_def plain_client_def NewSshegoConfig_def new_addr_def)
  let ?t = "\<lparr>tr_dc = dc, tr_cfg = cfg, tr_uhp = \<lparr>uh_User = dc_Mylogin dc, uh_HostPort = addr, uh_Nickname = dc_DestNickname dc\<rparr>,
      tr_tofu = dc_TofuAddIfNotKnown dc, tr_retries = 10, tr_cli = None, tr_channels = [], tr_lastConnectTime = 0\<rparr>"
  obtain t' st' where "connect_loop env (\<lambda>_. False) (Suc (Suc 8)) None ?t st
      = Ret (None, Some \<lparr>sc_addr = addr, sc_user = dc_Mylogin dc, sc_hostKey = key\<rparr>, t', st')"
      "cs_attempts st' = cs_attempts st + 2"
    using connect_loop_tofu [OF kh addr(2,3), of ?t 8 None] addr(1) p dc rsa net by auto
  moreover have "Suc (Suc 8) = 10" by simp
  ultimately show ?thesis
    using d addr(1,4) kh(1) p(4) rsa(1) by (simp add: NewTricorder_def helperNewClientConnect_def)
qed

end
