(* ===== verification/Byte_Queue.thy ===== *)
theory Byte_Queue
  imports Go_Prelude
begin

section \<open>Interface: a queue of bytes\<close>

text \<open>
  The contract between the reader of packets and the reader of a channel: what is put in comes
  out, byte by byte and in order, however the puts and the gets are cut into pieces.  A provider
  gives the operations and the laws of one put and one get; a client may then reason about any
  sequence of them.
\<close>

datatype q_op = QPut bytes | QGet nat

fun q_puts :: "q_op list \<Rightarrow> bytes" where
  "q_puts [] = []"
| "q_puts (QPut b # ops) = b @ q_puts ops"
| "q_puts (QGet n # ops) = q_puts ops"

lemma q_puts_append [simp]: "q_puts (xs @ ys) = q_puts xs @ q_puts ys"
  by (induction xs rule: q_puts.induct) auto

locale byte_queue =
  fixes inv_q :: "'q \<Rightarrow> bool"
    and content :: "'q \<Rightarrow> bytes"
    and empty_q :: 'q
    and put_q :: "bytes \<Rightarrow> 'q \<Rightarrow> 'q"
    and get_q :: "nat \<Rightarrow> 'q \<Rightarrow> bytes \<times> 'q"
  assumes empty_law: "inv_q empty_q \<and> content empty_q = []"
    and put_law: "inv_q q \<Longrightarrow> inv_q (put_q b q) \<and> content (put_q b q) = content q @ b"
    and get_law: "inv_q q \<Longrightarrow> get_q n q = (x, q') \<Longrightarrow>
      inv_q q' \<and> x = take n (content q) \<and> content q' = drop n (content q)"
begin

fun run :: "q_op list \<Rightarrow> 'q \<Rightarrow> bytes \<times> 'q" where
  "run [] q = ([], q)"
| "run (QPut b # ops) q = run ops (put_q b q)"
| "run (QGet n # ops) q =
     (case get_q n q of (x, q1) \<Rightarrow> (case run ops q1 of (y, q2) \<Rightarrow> (x @ y, q2)))"

lemma get_split: "inv_q q \<Longrightarrow> get_q n q = (x, q') \<Longrightarrow> content q = x @ content q'"
  using get_law by (metis append_take_drop_id)

text \<open>What came out and what is still inside is what was inside and what went in.\<close>

lemma run_stream:
  "inv_q q \<Longrightarrow> run ops q = (out, q') \<Longrightarrow> inv_q q' \<and> out @ content q' = content q @ q_puts ops"
proof (induction ops q arbitrary: out rule: run.induct)
  case (2 b ops q)
  then show ?case using put_law [of q b] by simp
next
  case (3 n ops q)
  obtain x q1 where g: "get_q n q = (x, q1)" by fastforce
  obtain y q2 where r: "run ops q1 = (y, q2)" by fastforce
  have q': "q2 = q'" "out = x @ y" using 3(3) g r by auto
  have "inv_q q1" using get_law [OF 3(2) g] by blast
  then have "inv_q q' \<and> y @ content q' = content q1 @ q_puts ops" using 3(1) g r q' by auto
  then show ?case using get_split [OF 3(2) g] q' by simp
qed simp

lemma run_prefix: "run ops empty_q = (out, q') \<Longrightarrow> prefix out (q_puts ops)"
  using run_stream [of empty_q ops out q'] empty_law by (metis append_Nil prefixI)

text \<open>Two runs that drained the queue delivered the same bytes when the same bytes went in.\<close>

lemma run_schedule:
  assumes "run xs empty_q = (out, q)" "run ys empty_q = (out', q')" "content q = []" "content q' = []"
    and "q_puts xs = q_puts ys"
  shows "out = out'"
  using run_stream [of empty_q xs out q] run_stream [of empty_q ys out' q'] empty_law assms by simp

end

end
