(* ===== verification/Flow.thy ===== *)
theory Flow
  imports Wire Byte_Queue
begin

section \<open>Channels: buffers, windows, data\<close>

text \<open>
  \<^verbatim>\<open>buffer.go\<close>, the window of \<^verbatim>\<open>common.go\<close> and \<^verbatim>\<open>channel.go\<close> of the ssh library in
  \<^verbatim>\<open>xendor/github.com/glycerine/xcryptossh\<close>.

  A call that waits on a condition variable or a Go channel has the result None; it is run again
  when it is woken.  The idle timer answers every poll: \<open>Running\<close> (it sent the empty string),
  \<open>TimedOut\<close> with its text, or \<open>Stopped\<close> when its stop request is what the \<^verbatim>\<open>select\<close> sees.  The
  connection below is the list of the packets written to it and the error its writes return.
\<close>

subsection \<open>Outcomes\<close>

datatype idle_poll = Running | TimedOut string | Stopped

datatype io_err =
    EOF | ErrTimeout string | ErrParse nat | ErrWire wire_err | ErrPayloadSize | ErrPacketLength
  | ErrWroteTooMuch | ErrExtendedCode u32 | ErrInboundResponse | ErrDuplicateResponse
  | ErrMaxPacketSize u32 | ErrWindowUpdate u32 | ErrUndecided | ErrDecidedAlready
  | ErrUnexpectedReply | ErrInvalidChannel u32 | ErrConn string | ErrOpenChannel u32 string
  | ErrUnexpectedOpen nat

subsection \<open>Buffers\<close>

text \<open>The linked list from the head to the tail, which is never empty.\<close>

record buffer =
  bf_elems :: "bytes list"
  bf_closed :: bool

definition newBuffer :: buffer where
  "newBuffer = \<lparr>bf_elems = [[]], bf_closed = False\<rparr>"

definition buffer_write :: "bytes \<Rightarrow> buffer \<Rightarrow> buffer" where
  "buffer_write buf b = b\<lparr>bf_elems := bf_elems b @ [buf]\<rparr>"

definition buffer_eof :: "buffer \<Rightarrow> buffer" where
  "buffer_eof b = b\<lparr>bf_closed := True\<rparr>"

text \<open>The copying part of the loop of \<open>Read\<close>: \<open>k\<close> bytes of the caller's slice are free.\<close>

function read_loop :: "nat \<Rightarrow> bytes list \<Rightarrow> bytes \<times> bytes list" where
  "read_loop k [] = ([], [])"
| "read_loop k (e # es) =
     (if k = 0 then ([], e # es)
      else if e \<noteq> [] then
        (let r = min k (length e) in
         case read_loop (k - r) (drop r e # es) of (x, rest) \<Rightarrow> (take r e @ x, rest))
      else if es \<noteq> [] then read_loop k es
      else ([], [e]))"
  by pat_completeness auto
termination
  by (relation "measure (\<lambda>(k, es). k + length es)") (auto simp: min_def)

declare read_loop.simps [simp del]

definition buffer_take :: "nat \<Rightarrow> buffer \<Rightarrow> bytes \<times> buffer" where
  "buffer_take k b = (case read_loop k (bf_elems b) of (x, es) \<Rightarrow> (x, b\<lparr>bf_elems := es\<rparr>))"

definition buffer_Read :: "idle_poll \<Rightarrow> nat \<Rightarrow> buffer \<Rightarrow> (bytes \<times> io_err option) option \<times> buffer" where
  "buffer_Read poll k b =
     (case buffer_take k b of (x, b') \<Rightarrow>
        if k = 0 \<or> x \<noteq> [] then (Some (x, None), b')
        else if bf_closed b then (Some ([], Some EOF), b')
        else (case poll of
            TimedOut s \<Rightarrow> (Some ([], Some (ErrTimeout s)), b')
          | _ \<Rightarrow> (None, b')))"

subsection \<open>Windows\<close>

record window =
  wd_win :: u32
  wd_writeWaiters :: int
  wd_closed :: bool

definition window_add :: "u32 \<Rightarrow> window \<Rightarrow> bool \<times> window" where
  "window_add win w =
     (if win = 0 then (True, w)
      else if wd_win w + win < win then (False, w)
      else (True, w\<lparr>wd_win := wd_win w + win\<rparr>))"

definition window_close :: "window \<Rightarrow> window" where
  "window_close w = w\<lparr>wd_closed := True\<rparr>"

definition reserveShouldReturn :: "idle_poll \<Rightarrow> io_err option" where
  "reserveShouldReturn poll =
     (case poll of Running \<Rightarrow> None | TimedOut s \<Rightarrow> Some (ErrTimeout s) | Stopped \<Rightarrow> Some EOF)"

text \<open>
  \<open>reserve\<close> from its loop on: None while the window is empty and open.  A call that is woken up
  polls first and leaves the count of waiting writers as it is when it returns there.
\<close>

definition reserve_loop :: "u32 \<Rightarrow> window \<Rightarrow> (u32 \<times> io_err option) option \<times> window" where
  "reserve_loop win w =
     (if wd_win w = 0 \<and> \<not> wd_closed w then (None, w)
      else let num = (if wd_win w < win then wd_win w else win) in
        (Some (num, if wd_closed w then Some EOF else None),
         w\<lparr>wd_writeWaiters := wd_writeWaiters w - 1, wd_win := wd_win w - num\<rparr>))"

definition reserve :: "idle_poll \<Rightarrow> u32 \<Rightarrow> window \<Rightarrow> (u32 \<times> io_err option) option \<times> window" where
  "reserve poll win w =
     (case reserveShouldReturn poll of
        Some e \<Rightarrow> (Some (0, Some e), w)
      | None \<Rightarrow> reserve_loop win (w\<lparr>wd_writeWaiters := wd_writeWaiters w + 1\<rparr>))"

definition reserve_woken :: "idle_poll \<Rightarrow> u32 \<Rightarrow> window \<Rightarrow> (u32 \<times> io_err option) option \<times> window" where
  "reserve_woken poll win w =
     (case reserveShouldReturn poll of Some e \<Rightarrow> (Some (0, Some e), w) | None \<Rightarrow> reserve_loop win w)"

subsection \<open>Channels\<close>

definition channelMaxPacket :: u32 where
  "channelMaxPacket = 32768"

definition channelWindowSize :: u32 where
  "channelWindowSize = 64 * channelMaxPacket"

definition minPacketLength :: u32 where
  "minPacketLength = 9"

definition chanSize :: nat where
  "chanSize = 16"

datatype direction = channelInbound | channelOutbound

text \<open>A request of the peer; the channel it belongs to, or None for a global one.\<close>

record request =
  rq_Type :: string
  rq_WantReply :: bool
  rq_Payload :: bytes
  rq_ch :: "nat option"

record channel =
  cc_chanType :: string
  cc_extraData :: bytes
  cc_localId :: u32
  cc_remoteId :: u32
  cc_maxIncomingPayload :: u32
  cc_maxRemotePayload :: u32
  cc_decided :: bool
  cc_direction :: direction
  cc_msg :: "(nat \<times> fval list) list"        \<comment> \<open>the internal messages waiting, at most \<open>chanSize\<close>\<close>
  cc_incomingRequests :: "request list"
  cc_goClosed :: bool                        \<comment> \<open>these two Go channels are closed\<close>
  cc_sentEOF :: bool
  cc_remoteWin :: window
  cc_pending :: buffer
  cc_extPending :: buffer
  cc_myWindow :: u32
  cc_sentClose :: bool
  cc_hasClosed :: bool
  cc_halted :: bool                          \<comment> \<open>a stop was requested of the channel\<close>

definition newChannel :: "string \<Rightarrow> direction \<Rightarrow> bytes \<Rightarrow> channel" where
  "newChannel chanType dir extraData =
     \<lparr>cc_chanType = chanType, cc_extraData = extraData, cc_localId = 0, cc_remoteId = 0,
      cc_maxIncomingPayload = 0, cc_maxRemotePayload = 0, cc_decided = False, cc_direction = dir,
      cc_msg = [], cc_incomingRequests = [], cc_goClosed = False, cc_sentEOF = False,
      cc_remoteWin = \<lparr>wd_win = 0, wd_writeWaiters = 0, wd_closed = False\<rparr>,
      cc_pending = newBuffer, cc_extPending = newBuffer, cc_myWindow = channelWindowSize,
      cc_sentClose = False, cc_hasClosed = False, cc_halted = False\<rparr>"

text \<open>The packet connection below: what was written, and the error of writing.\<close>

record packet_conn =
  pc_out :: "bytes list"
  pc_fail :: "io_err option"

definition conn_write :: "bytes \<Rightarrow> packet_conn \<Rightarrow> io_err option \<times> packet_conn" where
  "conn_write p pc = (case pc_fail pc of Some e \<Rightarrow> (Some e, pc) | None \<Rightarrow> (None, pc\<lparr>pc_out := pc_out pc @ [p]\<rparr>))"

type_synonym chan_st = "channel \<times> packet_conn"

definition msgChannelClose :: char where "msgChannelClose = CHR 0x61"
definition msgChannelEOF :: char where "msgChannelEOF = CHR 0x60"
definition msgChannelData :: char where "msgChannelData = CHR 0x5E"
definition msgChannelExtendedData :: char where "msgChannelExtendedData = CHR 0x5F"

definition writePacket :: "bytes \<Rightarrow> chan_st \<Rightarrow> io_err option \<times> chan_st" where
  "writePacket packet st = (case st of (c, pc) \<Rightarrow>
     if cc_sentClose c then (Some EOF, (c, pc))
     else (case conn_write packet pc of (e, pc') \<Rightarrow> (e, (c\<lparr>cc_sentClose := hd packet = msgChannelClose\<rparr>, pc'))))"

definition put_id :: "u32 \<Rightarrow> bytes \<Rightarrow> bytes" where
  "put_id n p = take 1 p @ PutUint32 n @ drop 5 p"

definition sendMessage :: "schema \<Rightarrow> fval list \<Rightarrow> chan_st \<Rightarrow> io_err option \<times> chan_st" where
  "sendMessage s vs st = writePacket (put_id (cc_remoteId (fst st)) (Marshal s vs)) st"

subsection \<open>Writing\<close>

definition go_min :: "u32 \<Rightarrow> nat \<Rightarrow> u32" where
  "go_min a b = (if a < word_of_nat b then a else word_of_nat b)"

definition data_packet :: "u32 \<Rightarrow> u32 \<Rightarrow> bytes \<Rightarrow> bytes" where
  "data_packet extendedCode remoteId todo =
     (if 0 < extendedCode then msgChannelExtendedData else msgChannelData)
     # PutUint32 remoteId @ (if 0 < extendedCode then PutUint32 extendedCode else [])
     @ PutUint32 (word_of_nat (length todo)) @ todo"

text \<open>
  One turn of the loop of \<open>WriteExtended\<close>: window is reserved and a packet is sent.  The result is
  the number of bytes sent and the error, None while the call waits for window.
\<close>

definition write_turn :: "(u32 \<Rightarrow> window \<Rightarrow> (u32 \<times> io_err option) option \<times> window) \<Rightarrow> u32 \<Rightarrow> bytes \<Rightarrow> chan_st
    \<Rightarrow> (nat \<times> io_err option) option \<times> chan_st" where
  "write_turn res extendedCode data st = (case st of (c, pc) \<Rightarrow>
     (case res (go_min (cc_maxRemotePayload c) (length data)) (cc_remoteWin c) of (r, w) \<Rightarrow>
        let c1 = c\<lparr>cc_remoteWin := w\<rparr> in
        (case r of
           None \<Rightarrow> (None, (c1, pc))
         | Some (space, Some e) \<Rightarrow> (Some (0, Some e), (c1, pc))
         | Some (space, None) \<Rightarrow>
             let todo = take (unat space) data in
             (case writePacket (data_packet extendedCode (cc_remoteId c1) todo) (c1, pc) of
                (Some e, st') \<Rightarrow> (Some (0, Some e), st')
              | (None, st') \<Rightarrow> (Some (length todo, None), st')))))"

text \<open>
  The loop while nobody else acts on the channel and the timer runs: the bytes sent so far, and
  how it ended - with an error, at the end of the data or waiting for window.  Each turn with
  room for at least one byte sends one; \<open>fuel\<close> that runs out is a loop that never ends.
\<close>

datatype write_end = WDone | WErr io_err | WWaits

fun write_loop :: "nat \<Rightarrow> u32 \<Rightarrow> bytes \<Rightarrow> nat \<Rightarrow> chan_st \<Rightarrow> (nat \<times> write_end \<times> chan_st) go" where
  "write_loop 0 extendedCode data n st = (if data = [] then Ret (n, WDone, st) else Hang)"
| "write_loop (Suc fuel) extendedCode data n st =
     (if data = [] then Ret (n, WDone, st)
      else (case write_turn (reserve Running) extendedCode data st of
          (None, st') \<Rightarrow> Ret (n, WWaits, st')
        | (Some (k, Some e), st') \<Rightarrow> Ret (n, WErr e, st')
        | (Some (k, None), st') \<Rightarrow> write_loop fuel extendedCode (drop k data) (n + k) st'))"

definition WriteExtended :: "u32 \<Rightarrow> bytes \<Rightarrow> chan_st \<Rightarrow> (nat \<times> write_end \<times> chan_st) go" where
  "WriteExtended extendedCode data st =
     (if cc_sentEOF (fst st) then Ret (0, WErr EOF, st) else write_loop (length data) extendedCode data 0 st)"

subsection \<open>Reading\<close>

definition handleData :: "bytes \<Rightarrow> channel \<Rightarrow> io_err option \<times> channel" where
  "handleData packet c =
     (let isExtendedData = hd packet = msgChannelExtendedData;
          headerLen = (if isExtendedData then 13 else 9)
      in if length packet < headerLen then (Some (ErrParse (of_char (hd packet))), c)
         else let extended = (if isExtendedData then Uint32 (drop 5 packet) else 0);
                  len = Uint32 (drop (headerLen - 4) packet);
                  data = drop headerLen packet
           in if len = 0 then (None, c)
              else if len > cc_maxIncomingPayload c then (Some ErrPayloadSize, c)
              else if len \<noteq> word_of_nat (length data) then (Some ErrPacketLength, c)
              else if cc_myWindow c < len then (Some ErrWroteTooMuch, c)
              else let c1 = c\<lparr>cc_myWindow := cc_myWindow c - len\<rparr> in
                (None, if extended = 1 then c1\<lparr>cc_extPending := buffer_write data (cc_extPending c1)\<rparr>
                       else if 0 < extended then c1
                       else c1\<lparr>cc_pending := buffer_write data (cc_pending c1)\<rparr>))"

definition adjustWindow :: "u32 \<Rightarrow> chan_st \<Rightarrow> io_err option \<times> chan_st" where
  "adjustWindow n st = (case st of (c, pc) \<Rightarrow>
     sendMessage windowAdjustMsg [VU32 0, VU32 n] (c\<lparr>cc_myWindow := cc_myWindow c + n\<rparr>, pc))"

definition after_read :: "bytes \<times> io_err option \<Rightarrow> chan_st \<Rightarrow> (bytes \<times> io_err option) \<times> chan_st" where
  "after_read r st = (case r of (x, err) \<Rightarrow>
     if x \<noteq> [] then (case adjustWindow (word_of_nat (length x)) st of (e, st') \<Rightarrow>
       ((x, if e = Some EOF then None else e), st'))
     else ((x, err), st))"

definition ReadExtended :: "idle_poll \<Rightarrow> nat \<Rightarrow> u32 \<Rightarrow> chan_st \<Rightarrow> (bytes \<times> io_err option) option \<times> chan_st" where
  "ReadExtended poll k extended st = (case st of (c, pc) \<Rightarrow>
     if extended = 1 then
       (case buffer_Read poll k (cc_extPending c) of (r, b) \<Rightarrow>
          let st1 = (c\<lparr>cc_extPending := b\<rparr>, pc) in
          (case r of None \<Rightarrow> (None, st1) | Some q \<Rightarrow> (case after_read q st1 of (q', st') \<Rightarrow> (Some q', st'))))
     else if extended = 0 then
       (case buffer_Read poll k (cc_pending c) of (r, b) \<Rightarrow>
          let st1 = (c\<lparr>cc_pending := b\<rparr>, pc) in
          (case r of None \<Rightarrow> (None, st1) | Some q \<Rightarrow> (case after_read q st1 of (q', st') \<Rightarrow> (Some q', st'))))
     else (Some ([], Some (ErrExtendedCode extended)), st))"

end
