(* ===== verification/Mux.thy ===== *)
theory Mux
  imports Flow
begin

section \<open>Channels and the multiplexer\<close>

text \<open>
  The control half of \<^verbatim>\<open>channel.go\<close> and \<^verbatim>\<open>mux.go\<close> of the ssh library in
  \<^verbatim>\<open>xendor/github.com/glycerine/xcryptossh\<close>: the messages of a channel, opening, accepting,
  rejecting and closing channels, requests and their replies, the table of channels and the loop
  that reads packets.

  Channels are shared between the loop and their users, so they live in a store and the table
  holds references.  A send to a Go channel is a \<^verbatim>\<open>select\<close> with the stop requests; \<open>sel\<close> says
  what is ready: whether a receiver takes a value while the send waits, whether a stop is
  requested of the connection, and which case is taken when several are ready.
\<close>

subsection \<open>Fields of messages\<close>

text \<open>Field number \<open>i\<close> of a decoded message, of the kind its structure declares.\<close>

definition u32_at :: "fval list \<Rightarrow> nat \<Rightarrow> u32" where
  "u32_at vs i = (case vs ! i of VU32 n \<Rightarrow> n | _ \<Rightarrow> 0)"

definition str_at :: "fval list \<Rightarrow> nat \<Rightarrow> string" where
  "str_at vs i = (case vs ! i of VStr x \<Rightarrow> x | _ \<Rightarrow> [])"

definition bytes_at :: "fval list \<Rightarrow> nat \<Rightarrow> bytes" where
  "bytes_at vs i = (case vs ! i of VBytes x \<Rightarrow> x | _ \<Rightarrow> [])"

definition bool_at :: "fval list \<Rightarrow> nat \<Rightarrow> bool" where
  "bool_at vs i = (case vs ! i of VBool b \<Rightarrow> b | _ \<Rightarrow> False)"

subsection \<open>Sends to Go channels\<close>

record sel =
  sl_taken :: bool
  sl_stop :: bool
  sl_pick :: bool

text \<open>None: the case of the stop request was taken.\<close>

definition go_send :: "sel \<Rightarrow> bool \<Rightarrow> bool \<Rightarrow> nat \<Rightarrow> 'a \<Rightarrow> 'a list \<Rightarrow> 'a list option go" where
  "go_send sl stop closed cap x q =
     (if stop \<and> sl_pick sl then Ret None
      else if closed then Panic ''send on closed channel''
      else if length q < cap then Ret (Some (q @ [x]))
      else if sl_taken sl then Ret (Some (tl (q @ [x])))
      else if stop then Ret None
      else Hang)"

subsection \<open>Messages of a channel\<close>

definition channel_close :: "channel \<Rightarrow> channel go" where
  "channel_close c =
     (if cc_goClosed c then Panic ''close of closed channel''
      else Ret (c\<lparr>cc_pending := buffer_eof (cc_pending c), cc_extPending := buffer_eof (cc_extPending c),
                 cc_goClosed := True, cc_sentClose := True, cc_remoteWin := window_close (cc_remoteWin c),
                 cc_halted := True\<rparr>))"

definition responseMessageReceived :: "channel \<Rightarrow> io_err option \<times> channel" where
  "responseMessageReceived c =
     (if cc_direction c = channelInbound then (Some ErrInboundResponse, c)
      else if cc_decided c then (Some ErrDuplicateResponse, c)
      else (None, c\<lparr>cc_decided := True\<rparr>))"

definition send_msg :: "sel \<Rightarrow> nat \<times> fval list \<Rightarrow> channel \<Rightarrow> (io_err option \<times> channel) go" where
  "send_msg sl m c =
     bind_go (go_send sl (sl_stop sl \<or> cc_halted c) (cc_goClosed c) chanSize m (cc_msg c)) (\<lambda>q.
       Ret (case q of None \<Rightarrow> (Some EOF, c) | Some q' \<Rightarrow> (None, c\<lparr>cc_msg := q'\<rparr>)))"

definition bad_max_packet :: "u32 \<Rightarrow> bool" where
  "bad_max_packet n \<longleftrightarrow> n < minPacketLength \<or> n > push_bit 31 1"

text \<open>A decoded message; the second result is the number of a channel to be forgotten.\<close>

definition on_open_failure :: "sel \<Rightarrow> fval list \<Rightarrow> channel \<Rightarrow> (io_err option \<times> u32 option \<times> channel) go" where
  "on_open_failure sl vs c =
     (case responseMessageReceived c of
        (Some e, c1) \<Rightarrow> Ret (Some e, None, c1)
      | (None, c1) \<Rightarrow> bind_go (send_msg sl (92, vs) c1) (\<lambda>(e, c2). Ret (e, Some (u32_at vs 0), c2)))"

definition on_open_confirm :: "sel \<Rightarrow> fval list \<Rightarrow> channel \<Rightarrow> (io_err option \<times> u32 option \<times> channel) go" where
  "on_open_confirm sl vs c =
     (case responseMessageReceived c of
        (Some e, c1) \<Rightarrow> Ret (Some e, None, c1)
      | (None, c1) \<Rightarrow>
          if bad_max_packet (u32_at vs 3) then Ret (Some (ErrMaxPacketSize (u32_at vs 3)), None, c1)
          else bind_go (send_msg sl (91, vs) (c1\<lparr>cc_remoteId := u32_at vs 1, cc_maxRemotePayload := u32_at vs 3,
                                              cc_remoteWin := snd (window_add (u32_at vs 2) (cc_remoteWin c1))\<rparr>))
                 (\<lambda>(e, c2). Ret (e, None, c2)))"

definition on_window_adjust :: "fval list \<Rightarrow> channel \<Rightarrow> (io_err option \<times> u32 option \<times> channel) go" where
  "on_window_adjust vs c =
     (case window_add (u32_at vs 1) (cc_remoteWin c) of
        (ok, w) \<Rightarrow> Ret (if ok then None else Some (ErrWindowUpdate (u32_at vs 1)), None, c\<lparr>cc_remoteWin := w\<rparr>))"

definition on_channel_request :: "sel \<Rightarrow> nat \<Rightarrow> fval list \<Rightarrow> channel \<Rightarrow> (io_err option \<times> u32 option \<times> channel) go" where
  "on_channel_request sl self vs c =
     bind_go (go_send sl (sl_stop sl \<or> cc_halted c) (cc_goClosed c) chanSize
                \<lparr>rq_Type = str_at vs 1, rq_WantReply = bool_at vs 2, rq_Payload = bytes_at vs 3, rq_ch = Some self\<rparr>
                (cc_incomingRequests c)) (\<lambda>q.
       Ret (case q of None \<Rightarrow> (Some EOF, None, c) | Some q' \<Rightarrow> (None, None, c\<lparr>cc_incomingRequests := q'\<rparr>)))"

definition handle_decoded :: "sel \<Rightarrow> nat \<Rightarrow> nat \<times> fval list \<Rightarrow> channel \<Rightarrow> (io_err option \<times> u32 option \<times> channel) go" where
  "handle_decoded sl self m c =
     (case m of (t, vs) \<Rightarrow>
      if t = 92 then on_open_failure sl vs c
      else if t = 91 then on_open_confirm sl vs c
      else if t = 93 then on_window_adjust vs c
      else if t = 98 then on_channel_request sl self vs c
      else bind_go (send_msg sl m c) (\<lambda>(e, c1). Ret (e, None, c1)))"

text \<open>\<open>handlePacket\<close> of the channel with reference \<open>self\<close>.\<close>

definition handlePacket :: "sel \<Rightarrow> nat \<Rightarrow> bytes \<Rightarrow> chan_st \<Rightarrow> (io_err option \<times> u32 option \<times> chan_st) go" where
  "handlePacket sl self packet st = (case st of (c, pc) \<Rightarrow>
     if hd packet = msgChannelData \<or> hd packet = msgChannelExtendedData then
       (case handleData packet c of (e, c') \<Rightarrow> Ret (e, None, (c', pc)))
     else if hd packet = msgChannelClose then
       (case sendMessage channelCloseMsg [VU32 (cc_remoteId c)] (c, pc) of (_, (c1, pc1)) \<Rightarrow>
          bind_go (channel_close c1) (\<lambda>c2. Ret (None, Some (cc_localId c), (c2, pc1))))
     else if hd packet = msgChannelEOF then
       Ret (None, None, (c\<lparr>cc_extPending := buffer_eof (cc_extPending c), cc_pending := buffer_eof (cc_pending c)\<rparr>, pc))
     else bind_go (decode packet) (\<lambda>d.
       case d of
         Inl e \<Rightarrow> Ret (Some (ErrWire e), None, (c, pc))
       | Inr m \<Rightarrow> bind_go (handle_decoded sl self m c) (\<lambda>(e, removed, c'). Ret (e, removed, (c', pc)))))"

subsection \<open>Operations of the users of a channel\<close>

definition Accept :: "chan_st \<Rightarrow> io_err option \<times> chan_st" where
  "Accept st = (case st of (c, pc) \<Rightarrow>
     if cc_decided c then (Some ErrDecidedAlready, st)
     else let c1 = c\<lparr>cc_maxIncomingPayload := channelMaxPacket, cc_decided := True\<rparr> in
       sendMessage channelOpenConfirmMsg
         [VU32 (cc_remoteId c), VU32 (cc_localId c), VU32 (cc_myWindow c), VU32 channelMaxPacket, VBytes []] (c1, pc))"

definition Reject :: "u32 \<Rightarrow> string \<Rightarrow> chan_st \<Rightarrow> io_err option \<times> chan_st" where
  "Reject reason message st = (case st of (c, pc) \<Rightarrow>
     if cc_decided c then (Some ErrDecidedAlready, st)
     else sendMessage channelOpenFailureMsg [VU32 (cc_remoteId c), VU32 reason, VStr message, VStr ''en'']
            (c\<lparr>cc_decided := True\<rparr>, pc))"

definition channel_Read :: "idle_poll \<Rightarrow> nat \<Rightarrow> chan_st \<Rightarrow> (bytes \<times> io_err option) option \<times> chan_st" where
  "channel_Read poll k st =
     (if \<not> cc_decided (fst st) then (Some ([], Some ErrUndecided), st) else ReadExtended poll k 0 st)"

definition channel_Write :: "bytes \<Rightarrow> chan_st \<Rightarrow> (nat \<times> write_end \<times> chan_st) go" where
  "channel_Write data st =
     (if \<not> cc_decided (fst st) then Ret (0, WErr ErrUndecided, st) else WriteExtended 0 data st)"

definition CloseWrite :: "chan_st \<Rightarrow> io_err option \<times> chan_st" where
  "CloseWrite st = (case st of (c, pc) \<Rightarrow>
     if \<not> cc_decided c then (Some ErrUndecided, st)
     else sendMessage channelEOFMsg [VU32 (cc_remoteId c)] (c\<lparr>cc_sentEOF := True\<rparr>, pc))"

definition channel_Close :: "chan_st \<Rightarrow> io_err option \<times> chan_st" where
  "channel_Close st = (case st of (c, pc) \<Rightarrow>
     if cc_hasClosed c then (None, st)
     else let c1 = c\<lparr>cc_hasClosed := True, cc_halted := True\<rparr> in
       if \<not> cc_decided c then (Some ErrUndecided, (c1, pc))
       else sendMessage channelCloseMsg [VU32 (cc_remoteId c)] (c1, pc))"

text \<open>
  \<open>SendRequest\<close>: the request is sent; \<open>await_reply\<close> is the wait for the answer, None while there
  is none.  \<open>pick\<close> takes the stop case when both are ready.
\<close>

definition request_send :: "string \<Rightarrow> bool \<Rightarrow> bytes \<Rightarrow> chan_st \<Rightarrow> io_err option \<times> chan_st" where
  "request_send name wantReply payload st =
     (if \<not> cc_decided (fst st) then (Some ErrUndecided, st)
      else sendMessage channelRequestMsg
             [VU32 (cc_remoteId (fst st)), VStr name, VBool wantReply, VBytes payload] st)"

definition await_reply :: "sel \<Rightarrow> channel \<Rightarrow> (io_err + bool) option \<times> channel" where
  "await_reply sl c =
     (let stop = sl_stop sl \<or> cc_halted c in
      if stop \<and> (sl_pick sl \<or> cc_msg c = [] \<and> \<not> cc_goClosed c) then (Some (Inl EOF), c)
      else (case cc_msg c of
          [] \<Rightarrow> (if cc_goClosed c then Some (Inl EOF) else None, c)
        | (t, vs) # ms \<Rightarrow>
            (Some (if t = 100 then Inr False else if t = 99 then Inr True else Inl ErrUnexpectedReply),
             c\<lparr>cc_msg := ms\<rparr>)))"

definition ackRequest :: "bool \<Rightarrow> chan_st \<Rightarrow> io_err option \<times> chan_st" where
  "ackRequest ok st =
     (if \<not> cc_decided (fst st) then (Some ErrUndecided, st)
      else sendMessage (if ok then channelRequestSuccessMsg else channelRequestFailureMsg)
             [VU32 (cc_remoteId (fst st))] st)"

definition RejectionReason_String :: "u32 \<Rightarrow> string" where
  "RejectionReason_String r =
     (if r = 1 then ''administratively prohibited'' else if r = 2 then ''connect failed''
      else if r = 3 then ''unknown channel type'' else if r = 4 then ''resource shortage''
      else ''unknown reason '' @ show_nat (unat r))"

subsection \<open>The table of channels\<close>

record chan_list =
  cl_chans :: "nat option list"
  cl_offset :: u32

fun first_free :: "'a option list \<Rightarrow> nat option" where
  "first_free [] = None"
| "first_free (None # xs) = Some 0"
| "first_free (Some _ # xs) = map_option Suc (first_free xs)"

definition chanList_add :: "nat \<Rightarrow> chan_list \<Rightarrow> u32 \<times> chan_list" where
  "chanList_add ch l =
     (case first_free (cl_chans l) of
        Some i \<Rightarrow> (word_of_nat i + cl_offset l, l\<lparr>cl_chans := (cl_chans l)[i := Some ch]\<rparr>)
      | None \<Rightarrow> (word_of_nat (length (cl_chans l)) + cl_offset l, l\<lparr>cl_chans := cl_chans l @ [Some ch]\<rparr>))"

definition getChan :: "chan_list \<Rightarrow> u32 \<Rightarrow> nat option" where
  "getChan l n =
     (let i = n - cl_offset l in
      if i < word_of_nat (length (cl_chans l)) then cl_chans l ! unat i else None)"

definition chanList_remove :: "u32 \<Rightarrow> chan_list \<Rightarrow> chan_list" where
  "chanList_remove n l =
     (let i = n - cl_offset l in
      if i < word_of_nat (length (cl_chans l)) then l\<lparr>cl_chans := (cl_chans l)[unat i := None]\<rparr> else l)"

definition dropAll :: "chan_list \<Rightarrow> nat list \<times> chan_list" where
  "dropAll l = (List.map_filter (\<lambda>x. x) (cl_chans l), l\<lparr>cl_chans := []\<rparr>)"

subsection \<open>The multiplexer\<close>

record mux =
  mx_store :: "channel list"
  mx_chanList :: chan_list
  mx_incomingChannels :: "nat list"
  mx_globalResponses :: "(nat \<times> fval list) list"
  mx_incomingRequests :: "request list"
  mx_closed :: bool                            \<comment> \<open>the loop has ended and closed its Go channels\<close>
  mx_err :: "io_err option"
  mx_conn :: packet_conn

definition newMux :: mux where
  "newMux = \<lparr>mx_store = [], mx_chanList = \<lparr>cl_chans = [], cl_offset = 0\<rparr>, mx_incomingChannels = [],
     mx_globalResponses = [], mx_incomingRequests = [], mx_closed = False, mx_err = None,
     mx_conn = \<lparr>pc_out = [], pc_fail = None\<rparr>\<rparr>"

definition mux_newChannel :: "string \<Rightarrow> direction \<Rightarrow> bytes \<Rightarrow> mux \<Rightarrow> nat \<times> mux" where
  "mux_newChannel chanType dir extraData m =
     (let r = length (mx_store m) in
      case chanList_add r (mx_chanList m) of (n, l) \<Rightarrow>
        (r, m\<lparr>mx_store := mx_store m @ [(newChannel chanType dir extraData)\<lparr>cc_localId := n\<rparr>], mx_chanList := l\<rparr>))"

definition mux_send :: "schema \<Rightarrow> fval list \<Rightarrow> mux \<Rightarrow> io_err option \<times> mux" where
  "mux_send s vs m = (case conn_write (Marshal s vs) (mx_conn m) of (e, pc) \<Rightarrow> (e, m\<lparr>mx_conn := pc\<rparr>))"

definition on_global :: "sel \<Rightarrow> nat \<Rightarrow> fval list \<Rightarrow> mux \<Rightarrow> (io_err option \<times> mux) go" where
  "on_global sl t vs m =
     (if t = 80 then
        bind_go (go_send sl (sl_stop sl) (mx_closed m) chanSize
                   \<lparr>rq_Type = str_at vs 0, rq_WantReply = bool_at vs 1, rq_Payload = bytes_at vs 2, rq_ch = None\<rparr>
                   (mx_incomingRequests m)) (\<lambda>q.
          Ret (case q of None \<Rightarrow> (Some EOF, m) | Some q' \<Rightarrow> (None, m\<lparr>mx_incomingRequests := q'\<rparr>)))
      else if t = 81 \<or> t = 82 then
        bind_go (go_send sl (sl_stop sl) (mx_closed m) 1 (t, vs) (mx_globalResponses m)) (\<lambda>q.
          Ret (case q of None \<Rightarrow> (Some EOF, m) | Some q' \<Rightarrow> (None, m\<lparr>mx_globalResponses := q'\<rparr>)))
      else Panic ''not a global message'')"

definition handleGlobalPacket :: "sel \<Rightarrow> bytes \<Rightarrow> mux \<Rightarrow> (io_err option \<times> mux) go" where
  "handleGlobalPacket sl packet m =
     bind_go (decode packet) (\<lambda>d.
       case d of Inl e \<Rightarrow> Ret (Some (ErrWire e), m) | Inr (t, vs) \<Rightarrow> on_global sl t vs m)"

definition ConnectionFailed :: u32 where
  "ConnectionFailed = 2"

definition handleChannelOpen :: "sel \<Rightarrow> bytes \<Rightarrow> mux \<Rightarrow> (io_err option \<times> mux) go" where
  "handleChannelOpen sl packet m =
     (case Unmarshal channelOpenMsg packet of
        Inl e \<Rightarrow> Ret (Some (ErrWire e), m)
      | Inr vs \<Rightarrow>
          if bad_max_packet (u32_at vs 3)
          then Ret (mux_send channelOpenFailureMsg
                      [VU32 (u32_at vs 1), VU32 ConnectionFailed, VStr ''invalid request'', VStr ''en_US.UTF-8''] m)
          else (case mux_newChannel (str_at vs 0) channelInbound (bytes_at vs 4) m of (r, m1) \<Rightarrow>
            let c = mx_store m1 ! r;
                c1 = c\<lparr>cc_remoteId := u32_at vs 1, cc_maxRemotePayload := u32_at vs 3,
                       cc_remoteWin := snd (window_add (u32_at vs 2) (cc_remoteWin c))\<rparr>;
                m2 = m1\<lparr>mx_store := (mx_store m1)[r := c1]\<rparr>
            in bind_go (go_send sl (sl_stop sl) (mx_closed m) chanSize r (mx_incomingChannels m2)) (\<lambda>q.
                 Ret (case q of None \<Rightarrow> (Some EOF, m2) | Some q' \<Rightarrow> (None, m2\<lparr>mx_incomingChannels := q'\<rparr>)))))"

definition handle_channel_packet :: "sel \<Rightarrow> nat \<Rightarrow> bytes \<Rightarrow> mux \<Rightarrow> (io_err option \<times> mux) go" where
  "handle_channel_packet sl r packet m =
     bind_go (handlePacket sl r packet (mx_store m ! r, mx_conn m)) (\<lambda>(e, removed, (c, pc)).
       Ret (e, m\<lparr>mx_store := (mx_store m)[r := c], mx_conn := pc,
                 mx_chanList := (case removed of None \<Rightarrow> mx_chanList m | Some n \<Rightarrow> chanList_remove n (mx_chanList m))\<rparr>))"

definition onePacket :: "sel \<Rightarrow> bytes \<Rightarrow> mux \<Rightarrow> (io_err option \<times> mux) go" where
  "onePacket sl packet m =
     (if packet = [] then Panic ''index out of range''
      else let t = (of_char (hd packet) :: nat) in
        if t = 90 then handleChannelOpen sl packet m
        else if t = 80 \<or> t = 81 \<or> t = 82 then handleGlobalPacket sl packet m
        else if length packet < 5 then Ret (Some (ErrParse t), m)
        else (case getChan (mx_chanList m) (Uint32 (drop 1 packet)) of
            None \<Rightarrow> Ret (Some (ErrInvalidChannel (Uint32 (drop 1 packet))), m)
          | Some r \<Rightarrow> handle_channel_packet sl r packet m))"

fun close_channels :: "nat list \<Rightarrow> channel list \<Rightarrow> channel list go" where
  "close_channels [] st = Ret st"
| "close_channels (r # rs) st = bind_go (channel_close (st ! r)) (\<lambda>c. close_channels rs (st[r := c]))"

definition mux_shutdown :: "io_err \<Rightarrow> mux \<Rightarrow> mux go" where
  "mux_shutdown err m =
     (case dropAll (mx_chanList m) of (rs, l) \<Rightarrow>
        bind_go (close_channels rs (mx_store m)) (\<lambda>st.
          Ret (m\<lparr>mx_store := st, mx_chanList := l, mx_closed := True, mx_err := Some err\<rparr>)))"

text \<open>
  \<open>loop\<close> over what reading the connection gives, one packet or error after the other; a timeout
  is not an end.  When the list is at its end the loop waits for the next packet.
\<close>

fun is_timeout :: "io_err \<Rightarrow> bool" where
  "is_timeout (ErrTimeout _) = True"
| "is_timeout _ = False"

fun mux_loop :: "(io_err + sel \<times> bytes) list \<Rightarrow> mux \<Rightarrow> mux go" where
  "mux_loop [] m = Ret m"
| "mux_loop (Inl e # rest) m = (if is_timeout e then mux_loop rest m else mux_shutdown e m)"
| "mux_loop (Inr (sl, p) # rest) m =
     bind_go (onePacket sl p m) (\<lambda>(e, m').
       case e of
         None \<Rightarrow> mux_loop rest m'
       | Some err \<Rightarrow> if is_timeout err then mux_loop rest m' else mux_shutdown err m')"

text \<open>
  \<open>openChannel\<close>: the request, and the answer to it (None while there is none).  A reader that the
  end of the loop wakes up finds the nil message of a closed Go channel.
\<close>

definition open_request :: "string \<Rightarrow> bytes \<Rightarrow> mux \<Rightarrow> (io_err option \<times> nat) \<times> mux" where
  "open_request chanType extra m =
     (case mux_newChannel chanType channelOutbound extra m of (r, m1) \<Rightarrow>
        let c = (mx_store m1 ! r)\<lparr>cc_maxIncomingPayload := channelMaxPacket\<rparr>;
            m2 = m1\<lparr>mx_store := (mx_store m1)[r := c]\<rparr>
        in (case mux_send channelOpenMsg
               [VStr chanType, VU32 (cc_localId c), VU32 (cc_myWindow c), VU32 channelMaxPacket, VBytes extra] m2 of
              (e, m3) \<Rightarrow> ((e, r), m3)))"

definition open_answer :: "sel \<Rightarrow> channel \<Rightarrow> io_err option option \<times> channel" where
  "open_answer sl c =
     (if sl_stop sl \<and> (sl_pick sl \<or> cc_msg c = [] \<and> \<not> cc_goClosed c) then (Some (Some EOF), c)
      else (case cc_msg c of
          [] \<Rightarrow> (if cc_goClosed c then Some (Some (ErrUnexpectedOpen 0)) else None, c)
        | (t, vs) # ms \<Rightarrow>
            (Some (if t = 91 then None
                   else if t = 92 then Some (ErrOpenChannel (u32_at vs 1) (str_at vs 2))
                   else Some (ErrUnexpectedOpen t)),
             c\<lparr>cc_msg := ms\<rparr>)))"

text \<open>A global request and the wait for its reply; requests that want one are made one at a time.\<close>

definition mux_SendRequest :: "string \<Rightarrow> bool \<Rightarrow> bytes \<Rightarrow> mux \<Rightarrow> io_err option \<times> mux" where
  "mux_SendRequest name wantReply payload m =
     mux_send globalRequestMsg [VStr name, VBool wantReply, VBytes payload] m"

definition await_global :: "sel \<Rightarrow> mux \<Rightarrow> (io_err + bool \<times> bytes) option \<times> mux" where
  "await_global sl m =
     (if sl_stop sl \<and> (sl_pick sl \<or> mx_globalResponses m = [] \<and> \<not> mx_closed m) then (Some (Inl EOF), m)
      else (case mx_globalResponses m of
          [] \<Rightarrow> (if mx_closed m then Some (Inl EOF) else None, m)
        | (t, vs) # ms \<Rightarrow>
            (Some (if t = 82 then Inr (False, bytes_at vs 0) else if t = 81 then Inr (True, bytes_at vs 0)
                   else Inl ErrUnexpectedReply),
             m\<lparr>mx_globalResponses := ms\<rparr>)))"

definition mux_ackRequest :: "bool \<Rightarrow> bytes \<Rightarrow> mux \<Rightarrow> io_err option \<times> mux" where
  "mux_ackRequest ok data m = mux_send (if ok then globalRequestSuccessMsg else globalRequestFailureMsg) [VBytes data] m"

definition Reply :: "bool \<Rightarrow> bytes \<Rightarrow> request \<Rightarrow> mux \<Rightarrow> io_err option \<times> mux" where
  "Reply ok payload r m =
     (if \<not> rq_WantReply r then (None, m)
      else (case rq_ch r of
          None \<Rightarrow> mux_ackRequest ok payload m
        | Some i \<Rightarrow> (case ackRequest ok (mx_store m ! i, mx_conn m) of
            (e, (c, pc)) \<Rightarrow> (e, m\<lparr>mx_store := (mx_store m)[i := c], mx_conn := pc\<rparr>))))"

end
