(* ===== verification/Serve.thy ===== *)
theory Serve
  imports Mux
begin

section \<open>Serving channels: forwarding and sessions\<close>

text \<open>
  \<^verbatim>\<open>direct.go\<close>, \<^verbatim>\<open>ud.go\<close>, the channel handling of \<^verbatim>\<open>pty.go\<close> and the answers to global requests
  of \<^verbatim>\<open>cli.go\<close>: what the server does with an opened channel.

  Dialling the target, starting bash on a terminal and copying bytes are not modelled; what is
  dialled, accepted, rejected or handed on is.  A panic in a goroutine of a request ends the whole
  process and is the result \<open>Panic\<close> of the handler.
\<close>

subsection \<open>Direct forwarding\<close>

definition channelOpenDirectMsg :: schema where
  "channelOpenDirectMsg = \<lparr>sc_tags = [], sc_fields = [KString, KU32, KString, KU32]\<rparr>"

definition minus2_uint32 :: u32 where
  "minus2_uint32 = 0xFFFFFFFE"

text \<open>The extra data of \<open>dialDirect\<close>; a Go \<^verbatim>\<open>int\<close> is converted to 32 bits.\<close>

definition dialDirect :: "string \<Rightarrow> int \<Rightarrow> string \<Rightarrow> int \<Rightarrow> bytes" where
  "dialDirect laddr lport raddr rport =
     Marshal channelOpenDirectMsg [VStr raddr, VU32 (word_of_int rport), VStr laddr, VU32 (word_of_int lport)]"

definition DialRemoteUnixDomain :: "string \<Rightarrow> bytes" where
  "DialRemoteUnixDomain udpath = dialDirect ''0.0.0.0'' 0 udpath (- 2)"

text \<open>
  The error of \<^verbatim>\<open>Unmarshal\<close> is ignored: the fields before the first one that cannot be read are
  set, the others keep their zero values.
\<close>

fun parse_prefix :: "fkind list \<Rightarrow> bytes \<Rightarrow> fval list" where
  "parse_prefix [] data = []"
| "parse_prefix (k # ks) data =
     (case parse_field k data of Inl _ \<Rightarrow> [] | Inr (v, rest) \<Rightarrow> v # parse_prefix ks rest)"

definition direct_msg :: "bytes \<Rightarrow> string \<times> u32" where
  "direct_msg extra =
     (let vs = (if extra = [] then [] else parse_prefix (sc_fields channelOpenDirectMsg) extra) in
      (if 0 < length vs then str_at vs 0 else [], if 1 < length vs then u32_at vs 1 else 0))"

datatype direct_action = DialUnix string | DialTcp string | HandPortOne

text \<open>\<open>ca\<close>: there is a listener for port-one connections.\<close>

definition direct_target :: "bool \<Rightarrow> bytes \<Rightarrow> direct_action go" where
  "direct_target ca extra =
     (case direct_msg extra of (host, port) \<Rightarrow>
      if port = minus2_uint32 then Ret (DialUnix host)
      else if port = 1 then (if ca then Ret HandPortOne else Panic ''wat?'')
      else Ret (DialTcp (host @ '':'' @ show_nat (unat port))))"

definition handleDirectTcp :: "bool \<Rightarrow> chan_st \<Rightarrow> (direct_action \<times> chan_st) go" where
  "handleDirectTcp ca st =
     (case Accept st of
        (Some e, st') \<Rightarrow> Panic ''panicOn''
      | (None, st') \<Rightarrow> bind_go (direct_target ca (cc_extraData (fst st))) (\<lambda>a. Ret (a, st')))"

subsection \<open>Channel types\<close>

datatype serve_action = ADirect direct_action | ACustom string | AShell | ANone

text \<open>
  \<open>custom\<close>: the types that have a handler of their own.  A direct channel goes on to the custom
  handlers, and is rejected there when it has none - after it was accepted.
\<close>

definition handleChannel :: "(string \<Rightarrow> bool) \<Rightarrow> bool \<Rightarrow> chan_st \<Rightarrow> (serve_action list \<times> chan_st) go" where
  "handleChannel custom ca st =
     (let t = cc_chanType (fst st) in
      bind_go
        (if t = ''direct-tcpip'' then bind_go (handleDirectTcp ca st) (\<lambda>(a, st1). Ret ([ADirect a], st1))
         else Ret ([], st))
        (\<lambda>(acts, st1).
          if t \<noteq> ''session'' then
            (if custom t then Ret (acts @ [ACustom t], st1)
             else Ret (acts, snd (Reject 3 (''unknown channel type: '' @ t) st1)))
          else (case Accept st1 of
              (Some e, st2) \<Rightarrow> Ret (acts, st2)
            | (None, st2) \<Rightarrow> Ret (acts @ [AShell], st2))))"

subsection \<open>Requests of a session\<close>

definition parseDims :: "bytes \<Rightarrow> (u32 \<times> u32) go" where
  "parseDims b = (if length b < 8 then Panic ''index out of range'' else Ret (Uint32 b, Uint32 (drop 4 b)))"

text \<open>
  The length of the terminal name is taken from one byte, and the sum with 4 is a byte too.  The
  result says whether the request is answered, and the new size of the terminal.
\<close>

definition term_offset :: "bytes \<Rightarrow> nat" where
  "term_offset payload = unat (word_of_nat (of_char (payload ! 3)) + 4 :: 8 word)"

definition session_request :: "request \<Rightarrow> (bool \<times> (u32 \<times> u32) option) go" where
  "session_request rq =
     (let payload = rq_Payload rq in
      if rq_Type rq = ''shell'' then Ret (payload = [], None)
      else if rq_Type rq = ''pty-req'' then
        (if length payload < 4 then Panic ''index out of range''
         else if length payload < term_offset payload then Panic ''slice bounds out of range''
         else bind_go (parseDims (drop (term_offset payload) payload)) (\<lambda>d. Ret (True, Some d)))
      else if rq_Type rq = ''window-change'' then bind_go (parseDims payload) (\<lambda>d. Ret (False, Some d))
      else Ret (False, None))"

text \<open>The goroutine that serves the requests of a session, up to the one that ends the process.\<close>

fun serve_session :: "request list \<Rightarrow> mux \<Rightarrow> mux go" where
  "serve_session [] m = Ret m"
| "serve_session (rq # rqs) m =
     bind_go (session_request rq) (\<lambda>(answer, _).
       serve_session rqs (if answer then snd (Reply True [] rq m) else m))"

subsection \<open>Keepalives\<close>

definition keepalive_type :: string where
  "keepalive_type = ''keepalive@sshego.glycerine.github.com''"

text \<open>
  One request of \<open>customHandleGlobalRequests\<close>; \<open>dec\<close> and \<open>stamp\<close> are the generated code that reads
  a ping and writes it with the time of the reply.
\<close>

definition customHandleGlobalRequest :: "(bytes \<Rightarrow> 'p option) \<Rightarrow> ('p \<Rightarrow> bytes) \<Rightarrow> request \<Rightarrow> mux \<Rightarrow> io_err option \<times> mux" where
  "customHandleGlobalRequest dec stamp rq m =
     (if rq_Type rq \<noteq> keepalive_type \<or> rq_Payload rq = [] then Reply False [] rq m
      else (case dec (rq_Payload rq) of
          None \<Rightarrow> Reply False [] rq m
        | Some ping \<Rightarrow> Reply True (stamp ping) rq m))"

end
