(* ===== verification/Flow_Proofs.thy ===== *)
theory Flow_Proofs
  imports Mux Wire_Proofs
begin

section \<open>Correctness of a channel\<close>

text \<open>
  Buffers are queues of bytes; a pair of channel ends is, in each direction and for each of the
  two streams, a queue of bytes too: what was read is always a prefix of what was written, the
  receiver's checks never fail, the windows never overflow, and no byte is stuck.
\<close>

subsection \<open>Buffers\<close>

lemma read_loop_spec:
  "es \<noteq> [] \<Longrightarrow> read_loop k es = (x, r) \<Longrightarrow> x = take k (concat es) \<and> concat r = drop k (concat es) \<and> r \<noteq> []"
proof (induction k es arbitrary: x r rule: read_loop.induct)
  case (2 k e es)
  consider "k = 0" | "k \<noteq> 0" "e \<noteq> []" | "k \<noteq> 0" "e = []" "es \<noteq> []" | "k \<noteq> 0" "e = []" "es = []" by blast
  then show ?case
  proof cases
    case 2
    let ?m = "min k (length e)"
    obtain y s where r: "read_loop (k - ?m) (drop ?m e # es) = (y, s)" by fastforce
    then have "y = take (k - ?m) (drop ?m e @ concat es) \<and> concat s = drop (k - ?m) (drop ?m e @ concat es) \<and> s \<noteq> []"
      using "2.IH"(1) [OF 2 refl] by simp
    moreover have "x = take ?m e @ y" "r = s" using "2.prems"(2) 2 r by (simp_all add: read_loop.simps Let_def)
    ultimately show ?thesis by (cases "k \<le> length e") (simp_all add: min_def)
  qed (use "2.IH"(2) "2.prems" in \<open>auto simp: read_loop.simps\<close>)
qed simp

interpretation buf: byte_queue "\<lambda>b. bf_elems b \<noteq> []" "\<lambda>b. concat (bf_elems b)" newBuffer buffer_write buffer_take
proof unfold_locales
  fix q :: buffer and n x q'
  assume "bf_elems q \<noteq> []" "buffer_take n q = (x, q')"
  then show "bf_elems q' \<noteq> [] \<and> x = take n (concat (bf_elems q)) \<and> concat (bf_elems q') = drop n (concat (bf_elems q))"
    using read_loop_spec [of "bf_elems q" n] by (cases "read_loop n (bf_elems q)") (auto simp: buffer_take_def)
qed (simp_all add: newBuffer_def buffer_write_def)

subsection \<open>The packets\<close>

definition adjust_packet :: "u32 \<Rightarrow> u32 \<Rightarrow> bytes" where
  "adjust_packet rid n = CHR 0x5D # PutUint32 rid @ PutUint32 n"

lemma hd_data_packet [simp]:
  "hd (data_packet code rid todo) = (if 0 < code then msgChannelExtendedData else msgChannelData)"
  by (simp add: data_packet_def)

lemmas op_chars = msgChannelClose_def msgChannelEOF_def msgChannelData_def msgChannelExtendedData_def

lemma Uint32_put [simp]: "Uint32 (PutUint32 n) = n"
  using Uint32_PutUint32 [of n "[]"] by simp

lemma adjust_char [simp]: "char_of (93 :: nat) = CHR 0x5D"
  by code_simp

text \<open>What \<open>handleData\<close> sees of a packet that \<open>WriteExtended\<close> built.\<close>

definition stored :: "u32 \<Rightarrow> bytes \<Rightarrow> channel \<Rightarrow> channel" where
  "stored code todo c =
     (if code = 1 then c\<lparr>cc_extPending := buffer_write todo (cc_extPending c)\<rparr>
      else if code = 0 then c\<lparr>cc_pending := buffer_write todo (cc_pending c)\<rparr>
      else c)"

lemma handleData_packet:
  assumes "todo \<noteq> []" "length todo \<le> unat (cc_maxIncomingPayload c)" "length todo \<le> unat (cc_myWindow c)"
  shows "handleData (data_packet code rid todo) c
    = (None, stored code todo (c\<lparr>cc_myWindow := cc_myWindow c - word_of_nat (length todo)\<rparr>))"
proof -
  have "unat (cc_maxIncomingPayload c) < 2 ^ LENGTH(32)" by (rule unsigned_less)
  then have l: "length todo < 2 ^ 32" using assms(2) by simp
  then have u: "unat (word_of_nat (length todo) :: u32) = length todo" by (simp add: unat_of_nat_eq)
  have nz: "(word_of_nat (length todo) :: u32) \<noteq> 0" using assms(1) u by (metis length_0_conv unat_0)
  have ok: "\<not> cc_maxIncomingPayload c < word_of_nat (length todo)" "\<not> cc_myWindow c < word_of_nat (length todo)"
    using assms(2,3) u by (simp_all add: word_less_nat_alt)
  show ?thesis
  proof (cases "code = 0")
    case True
    then show ?thesis using nz ok
      by (simp add: handleData_def data_packet_def op_chars Let_def stored_def)
  next
    case False
    then have "0 < code" by (simp add: word_gt_0)
    with False nz ok show ?thesis
      by (simp add: handleData_def data_packet_def op_chars Let_def stored_def)
  qed
qed


lemma handlePacket_data:
  assumes "length todo \<le> unat (cc_maxIncomingPayload c)" "length todo \<le> unat (cc_myWindow c)"
  shows "handlePacket sl self (data_packet code rid todo) (c, pc) = Ret (None, None,
    (if todo = [] then c else stored code todo (c\<lparr>cc_myWindow := cc_myWindow c - word_of_nat (length todo)\<rparr>), pc))"
proof (cases "todo = []")
  case True
  have "0 < code" if "code \<noteq> 0" using that by (simp add: word_gt_0)
  with True have "handleData (data_packet code rid todo) c = (None, c)"
    by (cases "code = 0") (simp_all add: handleData_def data_packet_def op_chars Let_def)
  with True show ?thesis by (simp add: handlePacket_def)
next
  case False
  then show ?thesis using handleData_packet [OF False assms] by (simp add: handlePacket_def)
qed

lemma put_id_adjust: "put_id rid (Marshal windowAdjustMsg [VU32 0, VU32 n]) = adjust_packet rid n"
  by (simp add: put_id_def Marshal_def windowAdjustMsg_def marshal_field_def appendU32_def adjust_packet_def)

lemma adjustWindow_sends:
  "\<not> cc_sentClose c \<Longrightarrow> adjustWindow n (c, \<lparr>pc_out = out, pc_fail = None\<rparr>)
     = (None, (c\<lparr>cc_myWindow := cc_myWindow c + n\<rparr>, \<lparr>pc_out = out @ [adjust_packet (cc_remoteId c) n], pc_fail = None\<rparr>))"
  by (simp add: adjustWindow_def sendMessage_def put_id_adjust writePacket_def conn_write_def adjust_packet_def op_chars)

lemma decode_adjust: "decode (adjust_packet rid n) = Ret (Inr (93, [VU32 rid, VU32 n]))"
  by (simp add: decode_def adjust_packet_def schema_of_def Unmarshal_def windowAdjustMsg_def parse_field_def parseUint32_def
      Let_def)

lemma handlePacket_adjust:
  "handlePacket sl self (adjust_packet rid n) (c, pc) =
     (case window_add n (cc_remoteWin c) of
        (ok, w) \<Rightarrow> Ret (if ok then None else Some (ErrWindowUpdate n), None, (c\<lparr>cc_remoteWin := w\<rparr>, pc)))"
proof -
  have "hd (adjust_packet rid n) = CHR 0x5D" by (simp add: adjust_packet_def)
  then show ?thesis
    by (simp add: handlePacket_def decode_adjust handle_decoded_def on_window_adjust_def u32_at_def op_chars split: prod.split)
qed

lemma window_add_fits:
  assumes "unat (wd_win w) + unat n < 2 ^ 32"
  shows "window_add n w = (True, w\<lparr>wd_win := wd_win w + n\<rparr>)" "unat (wd_win w + n) = unat (wd_win w) + unat n"
proof -
  show u: "unat (wd_win w + n) = unat (wd_win w) + unat n" using assms by (simp add: unat_word_ariths)
  then have "\<not> wd_win w + n < n" by (simp add: word_less_nat_alt)
  then show "window_add n w = (True, w\<lparr>wd_win := wd_win w + n\<rparr>)" by (simp add: window_add_def)
qed

subsection \<open>Reserving window\<close>

definition reserves :: "(u32 \<Rightarrow> window \<Rightarrow> (u32 \<times> io_err option) option \<times> window) \<Rightarrow> bool" where
  "reserves res \<longleftrightarrow> (\<exists>poll. res = reserve poll \<or> res = reserve_woken poll)"

lemma reserves_cases:
  assumes "reserves res" "\<not> wd_closed w" "res win w = (r, w')"
  obtains (got) num where "r = Some (num, None)" "unat num \<le> unat win" "unat num \<le> unat (wd_win w)"
      "wd_win w' = wd_win w - num" "\<not> wd_closed w'" "win \<noteq> 0 \<Longrightarrow> num \<noteq> 0"
  | (waits) "r = None" "wd_win w = 0" "wd_win w' = 0" "\<not> wd_closed w'"
  | (fails) e where "r = Some (0, Some e)" "w' = w"
proof -
  have loop: thesis if "reserve_loop win v = (r, w')" "wd_win v = wd_win w" "\<not> wd_closed v" for v
    using that assms(2) got [of "if wd_win w < win then wd_win w else win"] waits
    by (auto simp: reserve_loop_def Let_def word_less_nat_alt split: if_split_asm)
  obtain poll where "res = reserve poll \<or> res = reserve_woken poll" using assms(1) reserves_def by blast
  then show thesis
    using assms(2,3) loop [of w] loop [of "w\<lparr>wd_writeWaiters := wd_writeWaiters w + 1\<rparr>"] fails
    by (auto simp: reserve_def reserve_woken_def split: option.split_asm)
qed

end
