(* ===== verification/Pipe.thy ===== *)
theory Pipe
  imports Flow_Proofs
begin

section \<open>Two ends of a channel\<close>

text \<open>
  One direction of an open channel: the end that writes, the end that reads, the data packets
  under way to the reader and the window adjustments under way to the writer.  The writer's
  goroutines, the reader's goroutines and the loops of both sides run in any order; each step is
  one operation of the model: a turn of the loop of \<open>WriteExtended\<close> (which may also wait, time
  out or be woken), the handling of the next packet on either side, a call of \<open>ReadExtended\<close>.
  The histories of the bytes written and read, for each stream, are part of the state.
\<close>

subsection \<open>The system\<close>

record pipe =
  pp_w :: channel
  pp_r :: channel
  pp_data :: "bytes list"
  pp_adj :: "bytes list"
  pp_sent :: "u32 \<Rightarrow> bytes"
  pp_read :: "u32 \<Rightarrow> bytes"

abbreviation conn :: "bytes list \<Rightarrow> packet_conn" where
  "conn out \<equiv> \<lparr>pc_out = out, pc_fail = None\<rparr>"

fun written :: "(nat \<times> io_err option) option \<Rightarrow> bytes \<Rightarrow> bytes" where
  "written (Some (k, None)) data = take k data"
| "written _ data = []"

fun obtained :: "(bytes \<times> io_err option) option \<Rightarrow> bytes" where
  "obtained (Some (x, _)) = x"
| "obtained None = []"

text \<open>\<open>C\<close> is the set of the streams the writer uses.\<close>

inductive pipe_step :: "u32 set \<Rightarrow> pipe \<Rightarrow> pipe \<Rightarrow> bool" for C where
  send: "code \<in> C \<Longrightarrow> reserves res \<Longrightarrow>
    write_turn res code data (pp_w s, conn (pp_data s)) = (r, (w', conn out)) \<Longrightarrow>
    pipe_step C s (s\<lparr>pp_w := w', pp_data := out, pp_sent := (pp_sent s)(code := pp_sent s code @ written r data)\<rparr>)"
| receive: "pp_data s = p # ps \<Longrightarrow>
    handlePacket sl self p (pp_r s, conn (pp_adj s)) = Ret (e, removed, (r', conn out)) \<Longrightarrow>
    pipe_step C s (s\<lparr>pp_r := r', pp_data := ps, pp_adj := out\<rparr>)"
| read: "ReadExtended poll k code (pp_r s, conn (pp_adj s)) = (res, (r', conn out)) \<Longrightarrow>
    pipe_step C s (s\<lparr>pp_r := r', pp_adj := out, pp_read := (pp_read s)(code := pp_read s code @ obtained res)\<rparr>)"
| adjust: "pp_adj s = p # ps \<Longrightarrow>
    handlePacket sl self p (pp_w s, conn (pp_data s)) = Ret (e, removed, (w', conn out)) \<Longrightarrow>
    pipe_step C s (s\<lparr>pp_w := w', pp_adj := ps, pp_data := out\<rparr>)"

text \<open>Two ends that have just been opened; nothing was sent yet.\<close>

definition linked :: "channel \<Rightarrow> channel \<Rightarrow> bool" where
  "linked w r \<longleftrightarrow> cc_maxRemotePayload w \<le> cc_maxIncomingPayload r \<and> wd_win (cc_remoteWin w) = channelWindowSize
     \<and> cc_myWindow r = channelWindowSize \<and> \<not> wd_closed (cc_remoteWin w) \<and> \<not> cc_sentClose w \<and> \<not> cc_sentClose r
     \<and> cc_pending r = newBuffer \<and> cc_extPending r = newBuffer"

definition pipe_init :: "channel \<Rightarrow> channel \<Rightarrow> pipe" where
  "pipe_init w r = \<lparr>pp_w = w, pp_r = r, pp_data = [], pp_adj = [], pp_sent = (\<lambda>_. []), pp_read = (\<lambda>_. [])\<rparr>"

definition pipe_reach :: "u32 set \<Rightarrow> pipe \<Rightarrow> bool" where
  "pipe_reach C s \<longleftrightarrow> (\<exists>w r. linked w r \<and> (pipe_step C)\<^sup>*\<^sup>* (pipe_init w r) s)"

subsection \<open>The invariant\<close>

definition buffered :: "channel \<Rightarrow> u32 \<Rightarrow> bytes" where
  "buffered r c = (if c = 1 then concat (bf_elems (cc_extPending r)) else if c = 0 then concat (bf_elems (cc_pending r)) else [])"

definition on_the_way :: "(u32 \<times> bytes) list \<Rightarrow> u32 \<Rightarrow> bytes" where
  "on_the_way ds c = concat (map snd (filter (\<lambda>d. fst d = c) ds))"

definition total :: "(u32 \<times> bytes) list \<Rightarrow> nat" where
  "total ds = sum_list (map (\<lambda>d. length (snd d)) ds)"

definition ends_ok :: "channel \<Rightarrow> channel \<Rightarrow> bool" where
  "ends_ok w r \<longleftrightarrow> cc_maxRemotePayload w \<le> cc_maxIncomingPayload r \<and> \<not> wd_closed (cc_remoteWin w)
     \<and> \<not> cc_sentClose w \<and> \<not> cc_sentClose r \<and> bf_elems (cc_pending r) \<noteq> [] \<and> bf_elems (cc_extPending r) \<noteq> []"

definition held :: "channel \<Rightarrow> nat" where
  "held r = unat (cc_myWindow r) + length (buffered r 0) + length (buffered r 1)"

text \<open>
  \<open>ds\<close> are the data packets under way, \<open>ns\<close> the window adjustments.  The reader's window is what
  the writer may still send or has sent; together with what is buffered it is the initial window,
  or less when data of other streams was discarded.
\<close>

definition pipe_inv :: "u32 set \<Rightarrow> pipe \<Rightarrow> (u32 \<times> bytes) list \<Rightarrow> u32 list \<Rightarrow> bool" where
  "pipe_inv C s ds ns \<longleftrightarrow>
     ends_ok (pp_w s) (pp_r s)
   \<and> pp_data s = map (\<lambda>(c, t). data_packet c (cc_remoteId (pp_w s)) t) ds
   \<and> pp_adj s = map (adjust_packet (cc_remoteId (pp_r s))) ns
   \<and> (\<forall>d\<in>set ds. length (snd d) \<le> unat (cc_maxIncomingPayload (pp_r s)) \<and> fst d \<in> C)
   \<and> unat (cc_myWindow (pp_r s)) = unat (wd_win (cc_remoteWin (pp_w s))) + total ds + sum_list (map unat ns)
   \<and> held (pp_r s) \<le> unat channelWindowSize \<and> (C \<subseteq> {0, 1} \<longrightarrow> held (pp_r s) = unat channelWindowSize)
   \<and> (\<forall>c\<in>{0, 1}. pp_sent s c = pp_read s c @ buffered (pp_r s) c @ on_the_way ds c)"

lemma window_size: "unat channelWindowSize = 2097152"
  by (simp add: channelWindowSize_def channelMaxPacket_def)

lemma pipe_inv_init: "linked w r \<Longrightarrow> pipe_inv C (pipe_init w r) [] []"
  by (simp add: pipe_inv_def pipe_init_def linked_def ends_ok_def held_def buffered_def newBuffer_def total_def on_the_way_def)

lemma total_simps [simp]: "total [] = 0" "total (d # ds) = length (snd d) + total ds" "total (ds @ es) = total ds + total es"
  by (simp_all add: total_def)

lemma on_the_way_simps [simp]:
  "on_the_way [] c = []" "on_the_way (d # ds) c = (if fst d = c then snd d else []) @ on_the_way ds c"
  "on_the_way (ds @ es) c = on_the_way ds c @ on_the_way es c"
  by (simp_all add: on_the_way_def)

text \<open>A turn of the writer.\<close>

lemma go_min_le: "unat (go_min a b) \<le> unat a" "unat (go_min a b) \<le> b"
proof -
  have le: "unat (word_of_nat b :: u32) \<le> b" by (simp add: unat_of_nat)
  show "unat (go_min a b) \<le> unat a" by (auto simp: go_min_def word_less_nat_alt)
  show "unat (go_min a b) \<le> b" using le by (auto simp: go_min_def word_less_nat_alt)
qed

lemma write_turn_cases:
  assumes "reserves res" "\<not> wd_closed (cc_remoteWin w)" "\<not> cc_sentClose w"
    and t: "write_turn res code data (w, conn out) = (r, (w', conn out'))"
  obtains (sent) win num where "w' = w\<lparr>cc_remoteWin := win, cc_sentClose := False\<rparr>" "\<not> wd_closed win"
      "wd_win win = wd_win (cc_remoteWin w) - num"
      "unat num \<le> unat (wd_win (cc_remoteWin w))" "unat num \<le> unat (cc_maxRemotePayload w)" "unat num \<le> length data"
      "out' = out @ [data_packet code (cc_remoteId w) (take (unat num) data)]" "r = Some (unat num, None)"
  | (idle) win where "w' = w\<lparr>cc_remoteWin := win\<rparr>" "\<not> wd_closed win" "wd_win win = wd_win (cc_remoteWin w)"
      "out' = out" "written r data = []"
proof -
  let ?n = "go_min (cc_maxRemotePayload w) (length data)"
  obtain q win where q: "res ?n (cc_remoteWin w) = (q, win)" by fastforce
  from assms(1,2) q show thesis
  proof (cases rule: reserves_cases)
    case (got num)
    have le: "unat num \<le> unat (cc_maxRemotePayload w)" "unat num \<le> length data"
      using got(2) go_min_le [of "cc_maxRemotePayload w" "length data"] by (meson order.trans)+
    then have "length (take (unat num) data) = unat num" by simp
    with got q t assms(3) le show thesis using sent [of win num]
      by (auto simp: write_turn_def Let_def writePacket_def conn_write_def data_packet_def op_chars)
  next
    case waits
    with q t show thesis using idle [of win] by (auto simp: write_turn_def Let_def)
  next
    case (fails e)
    with q t assms(2) show thesis using idle [of win] by (auto simp: write_turn_def Let_def)
  qed
qed

lemma pipe_inv_write:
  assumes inv: "pipe_inv C s ds ns" and "code \<in> C" "reserves res"
    and t: "write_turn res code data (pp_w s, conn (pp_data s)) = (r, (w', conn out))"
  shows "\<exists>ds'. pipe_inv C (s\<lparr>pp_w := w', pp_data := out, pp_sent := (pp_sent s)(code := pp_sent s code @ written r data)\<rparr>) ds' ns"
proof -
  have ends: "ends_ok (pp_w s) (pp_r s)" using inv by (simp add: pipe_inv_def)
  then have "\<not> wd_closed (cc_remoteWin (pp_w s))" "\<not> cc_sentClose (pp_w s)" by (simp_all add: ends_ok_def)
  from assms(3) this t show ?thesis
  proof (cases rule: write_turn_cases)
    case (sent win num)
    let ?d = "(code, take (unat num) data)"
    have "unat num \<le> unat (cc_maxIncomingPayload (pp_r s))"
      using sent(5) ends by (simp add: ends_ok_def word_le_nat_alt)
    moreover have "unat (wd_win win) = unat (wd_win (cc_remoteWin (pp_w s))) - unat num"
      using sent(3,4) by (simp add: unat_sub word_le_nat_alt)
    ultimately show ?thesis using inv sent ends assms(2)
      by (intro exI [of _ "ds @ [?d]"]) (auto simp: pipe_inv_def ends_ok_def)
  next
    case (idle win)
    with inv show ?thesis by (intro exI [of _ ds]) (auto simp: pipe_inv_def ends_ok_def)
  qed
qed

text \<open>The next data packet arrives: it is accepted, and its bytes are behind those already buffered.\<close>

lemma stored_simps [simp]:
  "cc_sentClose (stored c t r) = cc_sentClose r" "cc_maxIncomingPayload (stored c t r) = cc_maxIncomingPayload r"
  "cc_remoteId (stored c t r) = cc_remoteId r" "cc_myWindow (stored c t r) = cc_myWindow r"
  by (simp_all add: stored_def)

lemma buffered_stored:
  assumes "bf_elems (cc_pending r) \<noteq> []" "bf_elems (cc_extPending r) \<noteq> []"
  shows "buffered (stored c t r) d = buffered r d @ (if c = d \<and> d \<in> {0, 1} then t else [])"
    "bf_elems (cc_pending (stored c t r)) \<noteq> []" "bf_elems (cc_extPending (stored c t r)) \<noteq> []"
  using assms buf.put_law by (auto simp: stored_def buffered_def)

lemma buffered_cong [simp]: "buffered (r\<lparr>cc_myWindow := n\<rparr>) c = buffered r c"
  by (simp add: buffered_def)

lemma receive_accepted:
  assumes inv: "pipe_inv C s ((c, t) # ds) ns"
  shows "length t \<le> unat (cc_maxIncomingPayload (pp_r s))" "length t \<le> unat (cc_myWindow (pp_r s))"
    "handlePacket sl self (data_packet c (cc_remoteId (pp_w s)) t) (pp_r s, conn (pp_adj s)) = Ret (None, None,
       (if t = [] then pp_r s else stored c t ((pp_r s)\<lparr>cc_myWindow := cc_myWindow (pp_r s) - word_of_nat (length t)\<rparr>), conn (pp_adj s)))"
proof -
  show le: "length t \<le> unat (cc_maxIncomingPayload (pp_r s))" "length t \<le> unat (cc_myWindow (pp_r s))"
    using inv by (auto simp: pipe_inv_def)
  show "handlePacket sl self (data_packet c (cc_remoteId (pp_w s)) t) (pp_r s, conn (pp_adj s)) = Ret (None, None,
       (if t = [] then pp_r s else stored c t ((pp_r s)\<lparr>cc_myWindow := cc_myWindow (pp_r s) - word_of_nat (length t)\<rparr>), conn (pp_adj s)))"
    by (rule handlePacket_data [OF le])
qed

lemma pipe_inv_receive:
  assumes inv: "pipe_inv C s ds ns" and "pp_data s = p # ps"
    and h: "handlePacket sl self p (pp_r s, conn (pp_adj s)) = Ret (e, removed, (r', conn out))"
  shows "\<exists>ds'. pipe_inv C (s\<lparr>pp_r := r', pp_data := ps, pp_adj := out\<rparr>) ds' ns"
proof -
  obtain c t ds' where ds: "ds = (c, t) # ds'" and p: "p = data_packet c (cc_remoteId (pp_w s)) t"
      and ps: "ps = map (\<lambda>(c, t). data_packet c (cc_remoteId (pp_w s)) t) ds'"
    using inv assms(2) by (cases ds) (auto simp: pipe_inv_def)
  note acc = receive_accepted [OF inv [unfolded ds]]
  have out: "out = pp_adj s" using h acc(3) [of sl self] by (simp add: p)
  have "pipe_inv C (s\<lparr>pp_r := r', pp_data := ps, pp_adj := out\<rparr>) ds' ns"
  proof (cases "t = []")
    case True
    then have "r' = pp_r s" using h acc(3) [of sl self] by (simp add: p)
    with inv True out show ?thesis by (auto simp: pipe_inv_def ds ps)
  next
    case False
    let ?r = "(pp_r s)\<lparr>cc_myWindow := cc_myWindow (pp_r s) - word_of_nat (length t)\<rparr>"
    have r': "r' = stored c t ?r" using False h acc(3) [of sl self] by (simp add: p)
    have "unat (cc_maxIncomingPayload (pp_r s)) < 2 ^ LENGTH(32)" by (rule unsigned_less)
    then have "unat (word_of_nat (length t) :: u32) = length t" using acc(1) by (simp add: unat_of_nat_eq)
    then have u: "unat (cc_myWindow ?r) = unat (cc_myWindow (pp_r s)) - length t"
      using acc(2) by (simp add: unat_sub word_le_nat_alt)
    have ends: "ends_ok (pp_w s) (pp_r s)" and c: "c \<in> C" using inv by (auto simp: pipe_inv_def ds)
    then have b: "buffered r' d = buffered (pp_r s) d @ (if c = d \<and> d \<in> {0, 1} then t else [])"
        "bf_elems (cc_pending r') \<noteq> []" "bf_elems (cc_extPending r') \<noteq> []" for d
      using buffered_stored [of ?r c t] by (simp_all add: r' ends_ok_def)
    then have "ends_ok (pp_w s) r'" using ends by (simp add: ends_ok_def r')
    moreover have "held r' = (if c \<in> {0, 1} then held (pp_r s) else held (pp_r s) - length t)"
      using u acc(2) by (auto simp: held_def b) (simp_all add: r')
    ultimately show ?thesis using inv u c
      by (auto simp: pipe_inv_def ds ps out b) (auto simp: r')
  qed
  then show ?thesis by blast
qed

text \<open>A read takes bytes from the front and gives the window back.\<close>

lemma buffer_Read_cases:
  assumes "buffer_Read poll k b = (r, b')" "bf_elems b \<noteq> []"
  shows "bf_elems b' \<noteq> []" "concat (bf_elems b) = obtained r @ concat (bf_elems b')"
    "obtained r \<noteq> [] \<Longrightarrow> r = Some (obtained r, None)"
proof -
  obtain x b1 where t: "buffer_take k b = (x, b1)" by fastforce
  have e: "b' = b1" "obtained r = x"
    using assms(1) by (cases "k = 0 \<or> x \<noteq> []"; cases "bf_closed b"; cases poll; auto simp: buffer_Read_def t)+
  show "bf_elems b' \<noteq> []" "concat (bf_elems b) = obtained r @ concat (bf_elems b')"
    using buf.get_law [OF assms(2) t] buf.get_split [OF assms(2) t] by (simp_all add: e)
  assume "obtained r \<noteq> []"
  then show "r = Some (obtained r, None)" using assms(1) unfolding e(2) by (simp add: buffer_Read_def t)
qed

text \<open>The effect of \<open>ReadExtended\<close>, whatever the stream.\<close>

definition taken_from :: "u32 \<Rightarrow> buffer \<Rightarrow> channel \<Rightarrow> channel" where
  "taken_from code b r = (if code = 1 then r\<lparr>cc_extPending := b\<rparr> else if code = 0 then r\<lparr>cc_pending := b\<rparr> else r)"

lemma taken_from_simps [simp]:
  "cc_sentClose (taken_from c b r) = cc_sentClose r" "cc_maxIncomingPayload (taken_from c b r) = cc_maxIncomingPayload r"
  "cc_remoteId (taken_from c b r) = cc_remoteId r" "cc_myWindow (taken_from c b r) = cc_myWindow r"
  by (simp_all add: taken_from_def)

lemma ReadExtended_effect:
  assumes "ends_ok w r" and rd: "ReadExtended poll k code (r, conn out) = (res, (r', conn out'))"
  obtains (nothing) b where "obtained res = []" "r' = taken_from code b r" "out' = out" "ends_ok w r'" "\<forall>c. buffered r' c = buffered r c"
  | (some) b where "obtained res \<noteq> []" "code \<in> {0, 1}" "buffered r code = obtained res @ buffered (taken_from code b r) code"
      "\<forall>c. c \<noteq> code \<longrightarrow> buffered (taken_from code b r) c = buffered r c" "ends_ok w r'"
      "r' = (taken_from code b r)\<lparr>cc_myWindow := cc_myWindow r + word_of_nat (length (obtained res))\<rparr>"
      "out' = out @ [adjust_packet (cc_remoteId r) (word_of_nat (length (obtained res)))]"
proof (cases "code \<in> {0, 1}")
  case False
  then have "obtained res = []" "r' = r" "out' = out" using rd by (auto simp: ReadExtended_def)
  with False assms(1) show thesis by - (rule nothing [of newBuffer], simp_all add: taken_from_def)
next
  case True
  let ?b0 = "if code = 1 then cc_extPending r else cc_pending r"
  obtain q b where q: "buffer_Read poll k ?b0 = (q, b)" by fastforce
  have ne: "bf_elems ?b0 \<noteq> []" using assms(1) by (simp add: ends_ok_def)
  note br = buffer_Read_cases [OF q ne]
  let ?r = "taken_from code b r"
  have ends: "ends_ok w ?r" using assms(1) br(1) by (auto simp: ends_ok_def taken_from_def)
  have bc: "buffered r code = obtained q @ buffered ?r code" "\<forall>c. c \<noteq> code \<longrightarrow> buffered ?r c = buffered r c"
    using True br(2) by (auto simp: buffered_def taken_from_def)
  have after: "(res, (r', conn out')) = (case q of None \<Rightarrow> (None, (?r, conn out))
      | Some q1 \<Rightarrow> (case after_read q1 (?r, conn out) of (q', st') \<Rightarrow> (Some q', st')))"
    using rd True q by (auto simp: ReadExtended_def taken_from_def Let_def split: option.split)
  show thesis
  proof (cases "obtained q = []")
    case True
    then have "obtained res = []" "r' = ?r" "out' = out"
      using after by (cases q; auto simp: after_read_def split: prod.split_asm)+
    moreover have "buffered ?r c = buffered r c" for c using bc True by (cases "c = code") simp_all
    ultimately show thesis using ends by - (rule nothing [of b], simp_all)
  next
    case False
    then have "q = Some (obtained q, None)" by (rule br(3))
    then obtain x where q1: "q = Some (x, None)" by blast
    have "x \<noteq> []" "\<not> cc_sentClose ?r" using False assms(1) by (simp_all add: q1 ends_ok_def)
    then have e: "res = Some (x, None)" "r' = ?r\<lparr>cc_myWindow := cc_myWindow r + word_of_nat (length x)\<rparr>"
        "out' = out @ [adjust_packet (cc_remoteId r) (word_of_nat (length x))]"
      using after by (simp_all add: q1 after_read_def adjustWindow_sends)
    have "ends_ok w r'" using ends by (simp add: e(2) ends_ok_def)
    with \<open>x \<noteq> []\<close> True bc e show thesis by - (rule some [of b], simp_all add: q1)
  qed
qed

lemma pipe_inv_read:
  assumes inv: "pipe_inv C s ds ns" and rd: "ReadExtended poll k code (pp_r s, conn (pp_adj s)) = (res, (r', conn out))"
  shows "\<exists>ns'. pipe_inv C (s\<lparr>pp_r := r', pp_adj := out, pp_read := (pp_read s)(code := pp_read s code @ obtained res)\<rparr>) ds ns'"
proof -
  have ends: "ends_ok (pp_w s) (pp_r s)" using inv by (simp add: pipe_inv_def)
  from ends rd show ?thesis
  proof (cases rule: ReadExtended_effect)
    case (nothing b)
    with inv show ?thesis by (intro exI [of _ ns]) (auto simp: pipe_inv_def held_def)
  next
    case (some b)
    let ?r = "taken_from code b (pp_r s)" and ?n = "word_of_nat (length (obtained res)) :: u32"
    have len: "length (buffered (pp_r s) code) = length (obtained res) + length (buffered ?r code)"
      using some(3) by simp
    have h: "held (pp_r s) \<le> 2097152" using inv window_size by (simp add: pipe_inv_def)
    then have u: "unat ?n = length (obtained res)" and room: "unat (cc_myWindow (pp_r s)) + unat ?n < 2 ^ 32"
      using some(2) len by (auto simp: held_def unat_of_nat_eq)
    have w: "unat (cc_myWindow (pp_r s) + ?n) = unat (cc_myWindow (pp_r s)) + length (obtained res)"
      using room u by (simp add: unat_word_ariths)
    have b: "buffered r' c = buffered ?r c" for c by (simp add: some(6))
    have "held r' = held (pp_r s)"
      using some(2,4) len w by (auto simp: held_def b) (simp_all add: some(6))
    with inv some u w show ?thesis
      by (intro exI [of _ "ns @ [?n]"]) (auto simp: pipe_inv_def b some(6))
  qed
qed

lemma pipe_inv_adjust:
  assumes inv: "pipe_inv C s ds ns" and "pp_adj s = p # ps"
    and h: "handlePacket sl self p (pp_w s, conn (pp_data s)) = Ret (e, removed, (w', conn out))"
  shows "e = None" "\<exists>ns'. pipe_inv C (s\<lparr>pp_w := w', pp_adj := ps, pp_data := out\<rparr>) ds ns'"
proof -
  obtain n ns' where ns: "ns = n # ns'" and p: "p = adjust_packet (cc_remoteId (pp_r s)) n"
      and ps: "ps = map (adjust_packet (cc_remoteId (pp_r s))) ns'"
    using inv assms(2) by (cases ns) (auto simp: pipe_inv_def)
  have "held (pp_r s) \<le> 2097152" using inv window_size by (simp add: pipe_inv_def)
  then have "unat (wd_win (cc_remoteWin (pp_w s))) + unat n < 2 ^ 32" using inv by (simp add: pipe_inv_def ns held_def)
  note add = window_add_fits [OF this]
  have e: "e = None" "w' = (pp_w s)\<lparr>cc_remoteWin := (cc_remoteWin (pp_w s))\<lparr>wd_win := wd_win (cc_remoteWin (pp_w s)) + n\<rparr>\<rparr>" "out = pp_data s"
    using h by (simp_all add: p handlePacket_adjust add(1))
  show "e = None" by (rule e(1))
  show "\<exists>ns'. pipe_inv C (s\<lparr>pp_w := w', pp_adj := ps, pp_data := out\<rparr>) ds ns'"
    using inv add(2) by (intro exI [of _ ns']) (auto simp: pipe_inv_def ns ps e ends_ok_def)
qed

lemma pipe_step_inv: "pipe_step C s s' \<Longrightarrow> pipe_inv C s ds ns \<Longrightarrow> \<exists>ds' ns'. pipe_inv C s' ds' ns'"
proof (induction rule: pipe_step.induct)
  case (send code res data s r w' out)
  show ?case using pipe_inv_write [OF send.prems send.hyps] by blast
next
  case (receive s p ps sl self e removed r' out)
  show ?case using pipe_inv_receive [OF receive.prems receive.hyps] by blast
next
  case (read poll k code s res r' out)
  show ?case using pipe_inv_read [OF read.prems read.hyps] by blast
next
  case (adjust s p ps sl self e removed w' out)
  show ?case using pipe_inv_adjust(2) [OF adjust.prems adjust.hyps] by blast
qed

lemma pipe_reach_inv:
  assumes "pipe_reach C s"
  obtains ds ns where "pipe_inv C s ds ns"
proof -
  from assms obtain w r where l: "linked w r" and "(pipe_step C)\<^sup>*\<^sup>* (pipe_init w r) s" by (auto simp: pipe_reach_def)
  from this(2) have "\<exists>ds ns. pipe_inv C s ds ns"
    by (induction) (use pipe_inv_init [OF l] pipe_step_inv in blast)+
  with that show thesis by blast
qed

subsection \<open>Progress\<close>

text \<open>A packet that arrives, a read of a stream with bytes, an adjustment that arrives: one is always possible.\<close>

lemma ReadExtended_gets:
  assumes "ends_ok w r" "code \<in> {0, 1}" "buffered r code \<noteq> []"
  obtains res r' out' where "ReadExtended Running 1 code (r, conn out) = (res, (r', conn out'))" "obtained res \<noteq> []"
proof -
  define b0 where "b0 = (if code = 1 then cc_extPending r else cc_pending r)"
  obtain x b where t: "buffer_take 1 b0 = (x, b)" by fastforce
  have ne: "bf_elems b0 \<noteq> []" using assms(1) by (simp add: ends_ok_def b0_def)
  have "x = take 1 (buffered r code)"
    using buf.get_law [OF ne t] assms(2) by (auto simp: buffered_def b0_def)
  then have xn: "x \<noteq> []" using assms(3) by simp
  then have q: "buffer_Read Running 1 b0 = (Some (x, None), b)" using t by (simp add: buffer_Read_def)
  have "\<not> cc_sentClose r" using assms(1) by (simp add: ends_ok_def)
  then obtain r' out' where "ReadExtended Running 1 code (r, conn out) = (Some (x, None), (r', conn out'))"
    using assms(2) q xn unfolding b0_def by (auto simp: ReadExtended_def after_read_def adjustWindow_sends Let_def)
  with xn show thesis using that by simp
qed

definition left :: "pipe \<Rightarrow> nat \<times> nat \<times> nat" where
  "left s = (length (pp_data s), length (buffered (pp_r s) 0) + length (buffered (pp_r s) 1), length (pp_adj s))"

definition drained :: "pipe \<Rightarrow> bool" where
  "drained s \<longleftrightarrow> pp_data s = [] \<and> pp_adj s = [] \<and> buffered (pp_r s) 0 = [] \<and> buffered (pp_r s) 1 = []"

lemma drain_step:
  assumes inv: "pipe_inv C s ds ns" and "\<not> drained s"
  obtains s' where "pipe_step C s s'" "pp_sent s' = pp_sent s" "(left s', left s) \<in> less_than <*lex*> less_than <*lex*> less_than"
proof -
  have ends: "ends_ok (pp_w s) (pp_r s)" using inv by (simp add: pipe_inv_def)
  consider (data) p ps where "pp_data s = p # ps"
    | (bytes) code where "code \<in> {0, 1}" "buffered (pp_r s) code \<noteq> []"
    | (adj) p ps where "pp_adj s = p # ps" "pp_data s = []"
    using assms(2) by (cases "pp_data s"; cases "pp_adj s") (auto simp: drained_def)
  then show thesis
  proof cases
    case data
    then obtain c t ds' where "ds = (c, t) # ds'" "p = data_packet c (cc_remoteId (pp_w s)) t"
      using inv by (cases ds) (auto simp: pipe_inv_def)
    then have h: "\<exists>r'. handlePacket sl self p (pp_r s, conn (pp_adj s)) = Ret (None, None, (r', conn (pp_adj s)))" for sl self
      using receive_accepted(3) [of C s c t ds' ns] inv by simp
    then obtain r' where "handlePacket undefined 0 p (pp_r s, conn (pp_adj s)) = Ret (None, None, (r', conn (pp_adj s)))"
      by blast
    from pipe_step.receive [OF data this] show thesis by (rule that) (simp_all add: left_def data)
  next
    case bytes
    obtain res r' out where rd: "ReadExtended Running 1 code (pp_r s, conn (pp_adj s)) = (res, (r', conn out))"
        and ne: "obtained res \<noteq> []"
      using ReadExtended_gets [OF ends bytes] by blast
    have "length (buffered r' 0) + length (buffered r' 1) < length (buffered (pp_r s) 0) + length (buffered (pp_r s) 1)"
      using ends rd
    proof (cases rule: ReadExtended_effect)
      case (some b)
      then have e: "buffered (pp_r s) code = obtained res @ buffered r' code" "\<forall>c. c \<noteq> code \<longrightarrow> buffered r' c = buffered (pp_r s) c"
        by simp_all
      have "length (buffered r' code) < length (buffered (pp_r s) code)" using e(1) ne by simp
      moreover have "buffered r' (if code = 0 then 1 else 0) = buffered (pp_r s) (if code = 0 then 1 else 0)"
        using e(2) bytes(1) by auto
      ultimately show ?thesis using bytes(1) by auto
    qed (use ne in simp)
    then show thesis by (intro that [OF pipe_step.read [OF rd]]) (simp_all add: left_def)
  next
    case adj
    then obtain n where p: "p = adjust_packet (cc_remoteId (pp_r s)) n"
      using inv by (cases ns) (auto simp: pipe_inv_def)
    obtain w' e where "handlePacket undefined 0 p (pp_w s, conn (pp_data s)) = Ret (e, None, (w', conn (pp_data s)))"
      unfolding p handlePacket_adjust by (cases "window_add n (cc_remoteWin (pp_w s))") simp
    from pipe_step.adjust [OF adj(1) this] show thesis by (rule that) (simp_all add: left_def adj)
  qed
qed

lemma wf_left: "wf (inv_image (less_than <*lex*> less_than <*lex*> less_than) left)"
  by (intro wf_inv_image wf_lex_prod wf_less_than)

lemma drains:
  assumes "pipe_inv C s ds ns"
  shows "\<exists>s'. (pipe_step C)\<^sup>*\<^sup>* s s' \<and> pp_sent s' = pp_sent s \<and> drained s'"
  using assms
proof (induction s arbitrary: ds ns rule: wf_induct_rule [OF wf_left])
  case (1 s)
  show ?case
  proof (cases "drained s")
    case True
    then show ?thesis using 1(2) by blast
  next
    case False
    obtain s1 where s1: "pipe_step C s s1" "pp_sent s1 = pp_sent s" "(left s1, left s) \<in> less_than <*lex*> less_than <*lex*> less_than"
      using drain_step [OF 1(2) False] by blast
    obtain ds1 ns1 where "pipe_inv C s1 ds1 ns1" using pipe_step_inv [OF s1(1) 1(2)] by blast
    moreover have "(s1, s) \<in> inv_image (less_than <*lex*> less_than <*lex*> less_than) left" using s1(3) by simp
    ultimately obtain s' where "(pipe_step C)\<^sup>*\<^sup>* s1 s'" "pp_sent s' = pp_sent s1" "drained s'"
      using 1(1) by blast
    then show ?thesis using converse_rtranclp_into_rtranclp [of "pipe_step C", OF s1(1)] s1(2) by auto
  qed
qed

text \<open>Two small ends for the witnesses.\<close>

definition demo_end :: channel where
  "demo_end = (newChannel ''session'' channelOutbound [])\<lparr>cc_decided := True, cc_maxIncomingPayload := channelMaxPacket,
     cc_maxRemotePayload := channelMaxPacket,
     cc_remoteWin := \<lparr>wd_win = channelWindowSize, wd_writeWaiters = 0, wd_closed = False\<rparr>\<rparr>"

definition demo_sent :: pipe where
  "demo_sent = (pipe_init demo_end demo_end)\<lparr>
     pp_w := demo_end\<lparr>cc_remoteWin := \<lparr>wd_win = channelWindowSize - 2, wd_writeWaiters = 0, wd_closed = False\<rparr>\<rparr>,
     pp_data := [data_packet 0 0 ''hi''], pp_sent := (\<lambda>_. [])(0 := ''hi'')\<rparr>"

lemma demo_linked: "linked demo_end demo_end"
  by (simp add: linked_def demo_end_def newChannel_def)

lemma demo_reach: "pipe_reach {0, 1} (pipe_init demo_end demo_end)" "pipe_reach {0, 1} demo_sent"
proof -
  show "pipe_reach {0, 1} (pipe_init demo_end demo_end)" using demo_linked by (auto simp: pipe_reach_def)
  have "write_turn (reserve Running) 0 ''hi'' (pp_w (pipe_init demo_end demo_end), conn [])
      = (Some (2, None), (pp_w demo_sent, conn (pp_data demo_sent)))"
    by (simp add: write_turn_def demo_end_def newChannel_def reserve_def reserveShouldReturn_def reserve_loop_def go_min_def
        Let_def channelWindowSize_def channelMaxPacket_def writePacket_def conn_write_def op_chars demo_sent_def pipe_init_def)
  then have "pipe_step {0, 1} (pipe_init demo_end demo_end) ((pipe_init demo_end demo_end)\<lparr>pp_w := pp_w demo_sent,
      pp_data := pp_data demo_sent, pp_sent := (\<lambda>_. [])(0 := [] @ written (Some (2, None)) ''hi'')\<rparr>)"
    using pipe_step.send [of 0 "{0, 1}" "reserve Running" "''hi''" "pipe_init demo_end demo_end" "Some (2, None)"
        "pp_w demo_sent" "pp_data demo_sent"]
    by (auto simp: reserves_def pipe_init_def)
  then have "pipe_step {0, 1} (pipe_init demo_end demo_end) demo_sent" by (simp add: demo_sent_def pipe_init_def)
  then show "pipe_reach {0, 1} demo_sent" using demo_linked by (auto simp: pipe_reach_def)
qed

lemma demo_sent_hi: "pp_sent demo_sent 0 = ''hi''"
  by (simp add: demo_sent_def)

text \<open>
  C3: a channel is an ordered, reliable, flow-controlled stream.  However the goroutines of the
  two ends interleave, what has been read of the data (or of the error stream) is a prefix of what
  has been written to it; the next data packet is always accepted - it exceeds neither the
  payload limit nor the window of the reader - and so is the next window adjustment; the windows
  stay within the initial size, so that their 32 bits never wrap.
\<close>

theorem channel_is_ordered_stream:
  assumes "pipe_reach C s"
  shows "prefix (pp_read s 0) (pp_sent s 0) \<and> prefix (pp_read s 1) (pp_sent s 1)
    \<and> (\<forall>p ps sl self. pp_data s = p # ps \<longrightarrow>
         (\<exists>r'. handlePacket sl self p (pp_r s, conn (pp_adj s)) = Ret (None, None, (r', conn (pp_adj s)))))
    \<and> (\<forall>p ps sl self. pp_adj s = p # ps \<longrightarrow>
         (\<exists>w'. handlePacket sl self p (pp_w s, conn (pp_data s)) = Ret (None, None, (w', conn (pp_data s)))))
    \<and> unat (wd_win (cc_remoteWin (pp_w s))) \<le> unat (cc_myWindow (pp_r s))
    \<and> unat (cc_myWindow (pp_r s)) \<le> unat channelWindowSize"
proof -
  obtain ds ns where inv: "pipe_inv C s ds ns" using assms by (rule pipe_reach_inv)
  have data: "\<exists>r'. handlePacket sl self p (pp_r s, conn (pp_adj s)) = Ret (None, None, (r', conn (pp_adj s)))"
    if first: "pp_data s = p # ps" for p ps sl self
  proof -
    obtain c t ds' where ds: "ds = (c, t) # ds'" "p = data_packet c (cc_remoteId (pp_w s)) t"
      using inv first by (cases ds) (auto simp: pipe_inv_def)
    show ?thesis using receive_accepted(3) [OF inv [unfolded ds(1)], of sl self] by (simp add: ds(2))
  qed
  have adj: "\<exists>w'. handlePacket sl self p (pp_w s, conn (pp_data s)) = Ret (None, None, (w', conn (pp_data s)))"
    if first: "pp_adj s = p # ps" for p ps sl self
  proof -
    obtain n where p: "p = adjust_packet (cc_remoteId (pp_r s)) n" using inv first by (auto simp: pipe_inv_def)
    obtain ok w where "window_add n (cc_remoteWin (pp_w s)) = (ok, w)" by fastforce
    then have h: "handlePacket sl self p (pp_w s, conn (pp_data s))
        = Ret (if ok then None else Some (ErrWindowUpdate n), None, ((pp_w s)\<lparr>cc_remoteWin := w\<rparr>, conn (pp_data s)))"
      by (simp add: p handlePacket_adjust)
    from pipe_inv_adjust(1) [OF inv first h] h show ?thesis by simp
  qed
  have "prefix (pp_read s 0) (pp_sent s 0)" "prefix (pp_read s 1) (pp_sent s 1)" using inv by (simp_all add: pipe_inv_def)
  moreover have "unat (wd_win (cc_remoteWin (pp_w s))) \<le> unat (cc_myWindow (pp_r s))"
      "unat (cc_myWindow (pp_r s)) \<le> unat channelWindowSize"
    using inv by (simp_all add: pipe_inv_def held_def)
  ultimately show ?thesis using data adj by blast
qed

theorem channel_is_ordered_stream_witness:
  "pp_sent demo_sent 0 = ''hi'' \<and> prefix (pp_read demo_sent 0) ''hi''
   \<and> (\<exists>r'. handlePacket \<lparr>sl_taken = False, sl_stop = False, sl_pick = False\<rparr> 0 (data_packet 0 0 ''hi'') (pp_r demo_sent, conn [])
        = Ret (None, None, (r', conn [])))"
  using channel_is_ordered_stream [OF demo_reach(2)] by (simp add: demo_sent_def pipe_init_def)

text \<open>
  C14: no byte is stuck and no window is lost.  When the writer uses the two streams that are
  read, then from every state the two ends can be in - with whatever is under way, and with a
  writer whose window may be used up - the packets that arrive and the calls that read lead, without
  any further write, to a state in which every byte written has been read, nothing is under way and
  the whole window is free again; and this is so of every state in which nothing is left.
\<close>

theorem no_byte_is_stuck:
  assumes "pipe_reach {0, 1} s"
  shows "(\<exists>s'. (pipe_step {0, 1})\<^sup>*\<^sup>* s s' \<and> pp_sent s' = pp_sent s \<and> drained s')
    \<and> (\<forall>s'. (pipe_step {0, 1})\<^sup>*\<^sup>* s s' \<and> drained s' \<longrightarrow>
            pp_read s' 0 = pp_sent s' 0 \<and> pp_read s' 1 = pp_sent s' 1 \<and> wd_win (cc_remoteWin (pp_w s')) = channelWindowSize)"
proof -
  obtain ds ns where inv: "pipe_inv {0, 1} s ds ns" using assms by (rule pipe_reach_inv)
  have "pp_read s' 0 = pp_sent s' 0 \<and> pp_read s' 1 = pp_sent s' 1 \<and> wd_win (cc_remoteWin (pp_w s')) = channelWindowSize"
    if steps: "(pipe_step {0, 1})\<^sup>*\<^sup>* s s'" and d: "drained s'" for s'
  proof -
    have "pipe_reach {0, 1} s'" using assms steps unfolding pipe_reach_def by (meson rtranclp_trans)
    then obtain ds' ns' where i: "pipe_inv {0, 1} s' ds' ns'" by (rule pipe_reach_inv)
    then have "unat (wd_win (cc_remoteWin (pp_w s'))) = unat channelWindowSize"
      using d by (auto simp: pipe_inv_def held_def drained_def)
    then have "wd_win (cc_remoteWin (pp_w s')) = channelWindowSize" by (simp add: word_unat_eq_iff)
    then show ?thesis using i d by (auto simp: pipe_inv_def drained_def)
  qed
  with drains [OF inv] show ?thesis by blast
qed

theorem no_byte_is_stuck_witness:
  "\<exists>s'. (pipe_step {0, 1})\<^sup>*\<^sup>* demo_sent s' \<and> drained s' \<and> pp_read s' 0 = ''hi''"
  using no_byte_is_stuck [OF demo_reach(2)] by (metis demo_sent_hi)

end
