(* ===== verification/Id_Table.thy ===== *)
theory Id_Table
  imports Go_Prelude
begin

section \<open>Interface: a table that gives out numbers\<close>

text \<open>
  The contract of the table of channels of a connection: adding a value finds a number that is
  free and stores the value under it, removing a number frees it, and nothing else changes.  A
  client may conclude that a number keeps its value until it is removed, whatever happens to
  other numbers.
\<close>

datatype ('i, 'v) id_op = IAdd 'v | IRemove 'i

locale id_table =
  fixes room :: "nat \<Rightarrow> 't \<Rightarrow> bool"             \<comment> \<open>room for that many more values\<close>
    and get_i :: "'t \<Rightarrow> 'i \<Rightarrow> 'v option"
    and add_i :: "'v \<Rightarrow> 't \<Rightarrow> 'i \<times> 't"
    and del_i :: "'i \<Rightarrow> 't \<Rightarrow> 't"
  assumes room_mono: "room (Suc n) t \<Longrightarrow> room n t"
    and add_law: "room (Suc n) t \<Longrightarrow> add_i v t = (i, t') \<Longrightarrow>
      room n t' \<and> get_i t i = None \<and> (\<forall>j. get_i t' j = (if j = i then Some v else get_i t j))"
    and del_law: "room n t \<Longrightarrow> room n (del_i i t) \<and> (\<forall>j. get_i (del_i i t) j = (if j = i then None else get_i t j))"
begin

fun run_ops :: "('i, 'v) id_op list \<Rightarrow> 't \<Rightarrow> 't" where
  "run_ops [] t = t"
| "run_ops (IAdd v # ops) t = run_ops ops (snd (add_i v t))"
| "run_ops (IRemove i # ops) t = run_ops ops (del_i i t)"

lemma keeps_value:
  "room (length ops) t \<Longrightarrow> get_i t i = Some v \<Longrightarrow> IRemove i \<notin> set ops \<Longrightarrow> get_i (run_ops ops t) i = Some v"
proof (induction ops t rule: run_ops.induct)
  case (2 w ops t)
  obtain j t' where a: "add_i w t = (j, t')" by fastforce
  from 2(2) have "room (Suc (length ops)) t" by simp
  note law = add_law [OF this a]
  then have "get_i t' i = Some v" using 2(3) by force
  then show ?case using 2(1,4) law by (simp add: a)
next
  case (3 j ops t)
  then show ?case using del_law [OF room_mono, of "length ops" t j] by simp
qed simp

lemma numbers_distinct:
  assumes "room (Suc (Suc n)) t" "add_i v t = (i, t')" "add_i w t' = (j, t'')"
  shows "i \<noteq> j"
  using add_law [OF assms(1,2)] add_law [of n t' w j t''] assms(3) by force

end

end
