(* ===== verification/Mux_Proofs.thy ===== *)
theory Mux_Proofs
  imports Pipe Id_Table
begin

section \<open>Correctness of the multiplexer\<close>

text \<open>
  The table of channels gives out free numbers; a well-formed multiplexer stays well-formed
  whatever the peer sends and never panics; opening a channel links its two ends.
\<close>

subsection \<open>The table of channels\<close>

lemma first_free_Some:
  "first_free xs = Some i \<Longrightarrow> i < length xs \<and> xs ! i = None"
  by (induction xs arbitrary: i rule: first_free.induct) auto

definition chan_room :: "nat \<Rightarrow> chan_list \<Rightarrow> bool" where
  "chan_room n l \<longleftrightarrow> length (cl_chans l) + n < 2 ^ 32"

lemma getChan_index:
  assumes "length (cl_chans l) < 2 ^ 32"
  shows "getChan l n = (if unat (n - cl_offset l) < length (cl_chans l) then cl_chans l ! unat (n - cl_offset l) else None)"
  using assms by (simp add: getChan_def Let_def word_less_nat_alt unat_of_nat_eq)

lemma id_index: "i < 2 ^ 32 \<Longrightarrow> unat (n - d) = i \<longleftrightarrow> n = word_of_nat i + d" for n d :: u32
proof -
  assume "i < 2 ^ 32"
  then have "unat (word_of_nat i :: u32) = i" by (simp add: unat_of_nat_eq)
  then have "unat (n - d) = i \<longleftrightarrow> n - d = word_of_nat i" by (metis word_unat_eq_iff)
  then show ?thesis by (auto simp: algebra_simps)
qed

interpretation chans: id_table chan_room getChan chanList_add chanList_remove
proof unfold_locales
  fix n t
  show "chan_room (Suc n) t \<Longrightarrow> chan_room n t" by (simp add: chan_room_def)
next
  fix n t v i t'
  assume room: "chan_room (Suc n) t" and a: "chanList_add v t = (i, t')"
  have len: "length (cl_chans t) < 2 ^ 32" using room by (simp add: chan_room_def)
  show "chan_room n t' \<and> getChan t i = None \<and> (\<forall>j. getChan t' j = (if j = i then Some v else getChan t j))"
  proof (cases "first_free (cl_chans t)")
    case (Some k)
    note k = first_free_Some [OF Some]
    have i: "i = word_of_nat k + cl_offset t" and t': "t' = t\<lparr>cl_chans := (cl_chans t)[k := Some v]\<rparr>"
      using a by (simp_all add: chanList_add_def Some)
    have eq: "unat (j - cl_offset t) = k \<longleftrightarrow> j = i" for j using id_index [of k j "cl_offset t"] k len i by simp
    have "getChan t' j = (if j = i then Some v else getChan t j)" for j
      using eq [of j] k len by (cases "unat (j - cl_offset t) = k") (simp_all add: getChan_index t')
    moreover have "getChan t i = None" using eq [of i] k len by (simp add: getChan_index)
    ultimately show ?thesis using room by (auto simp: chan_room_def t')
  next
    case None
    let ?k = "length (cl_chans t)"
    have i: "i = word_of_nat ?k + cl_offset t" and t': "t' = t\<lparr>cl_chans := cl_chans t @ [Some v]\<rparr>"
      using a by (simp_all add: chanList_add_def None)
    have eq: "unat (j - cl_offset t) = ?k \<longleftrightarrow> j = i" for j using id_index [of ?k j "cl_offset t"] len i by simp
    have len': "length (cl_chans t') < 2 ^ 32" using room by (simp add: chan_room_def t')
    have "getChan t' j = (if j = i then Some v else getChan t j)" for j
      using eq [of j] len len' by (cases "unat (j - cl_offset t) = ?k") (simp_all add: getChan_index t' nth_append)
    moreover have "getChan t i = None" using eq [of i] len by (simp add: getChan_index)
    ultimately show ?thesis using room by (auto simp: chan_room_def t')
  qed
next
  fix n t i
  assume room: "chan_room n t"
  then have len: "length (cl_chans t) < 2 ^ 32" by (simp add: chan_room_def)
  let ?t' = "chanList_remove i t" and ?k = "unat (i - cl_offset t)"
  have t': "?t' = (if ?k < length (cl_chans t) then t\<lparr>cl_chans := (cl_chans t)[?k := None]\<rparr> else t)"
    using len by (simp add: chanList_remove_def Let_def word_less_nat_alt unat_of_nat_eq)
  have eq: "unat (j - cl_offset t) = ?k \<longleftrightarrow> j = i" for j
    by (metis add.commute diff_add_cancel word_unat_eq_iff)
  have "getChan ?t' j = (if j = i then None else getChan t j)" for j
    using eq [of j] len by (cases "unat (j - cl_offset t) = ?k") (simp_all add: getChan_index t')
  moreover have "chan_room n ?t'" using room by (auto simp: chan_room_def t')
  ultimately show "chan_room n ?t' \<and> (\<forall>j. getChan ?t' j = (if j = i then None else getChan t j))" by blast
qed

subsection \<open>A peer cannot make the loop panic\<close>

definition no_panic :: "'a go \<Rightarrow> bool" where
  "no_panic m \<longleftrightarrow> (\<forall>s. m \<noteq> Panic s)"

lemma no_panic_simps [simp]: "no_panic (Ret x)" "no_panic Hang" "\<not> no_panic (Panic s)"
  by (simp_all add: no_panic_def)

lemma no_panic_bind: "no_panic m \<Longrightarrow> (\<And>x. m = Ret x \<Longrightarrow> no_panic (f x)) \<Longrightarrow> no_panic (bind_go m f)"
  by (cases m) auto

lemma no_panic_bindI: "no_panic m \<Longrightarrow> (\<And>x. no_panic (f x)) \<Longrightarrow> no_panic (bind_go m f)"
  by (cases m) auto

lemma go_send_no_panic: "\<not> closed \<Longrightarrow> no_panic (go_send sl stop closed n x q)"
  by (simp add: go_send_def)

lemma decode_no_panic: "p \<noteq> [] \<Longrightarrow> no_panic (decode p)"
  by (cases p) (simp_all add: decode_def Let_def split: option.split)

lemma send_msg_no_panic: "\<not> cc_goClosed c \<Longrightarrow> no_panic (send_msg sl m c)"
  unfolding send_msg_def by (rule no_panic_bindI) (simp_all add: go_send_no_panic)

lemma send_msg_frame:
  "send_msg sl m c = Ret (e, c') \<Longrightarrow> cc_localId c' = cc_localId c \<and> cc_goClosed c' = cc_goClosed c"
  by (auto simp: send_msg_def bind_go_Ret_iff split: option.split_asm)

lemma responseMessageReceived_frame:
  "responseMessageReceived c = (e, c') \<Longrightarrow> cc_localId c' = cc_localId c \<and> cc_goClosed c' = cc_goClosed c"
  by (auto simp: responseMessageReceived_def split: if_split_asm)

lemma sendMessage_frame:
  "sendMessage s vs (c, pc) = (e, (c', pc')) \<Longrightarrow> cc_localId c' = cc_localId c \<and> cc_goClosed c' = cc_goClosed c"
  by (auto simp: sendMessage_def writePacket_def split: if_split_asm prod.split_asm)

text \<open>A decoded message.\<close>

lemmas decoded_defs = handle_decoded_def on_open_failure_def on_open_confirm_def on_window_adjust_def on_channel_request_def

lemma handle_decoded_no_panic: "\<not> cc_goClosed c \<Longrightarrow> no_panic (handle_decoded sl self m c)"
proof -
  assume nc: "\<not> cc_goClosed c"
  obtain t vs where m: "m = (t, vs)" by fastforce
  obtain e c1 where r: "responseMessageReceived c = (e, c1)" by fastforce
  then have "\<not> cc_goClosed c1" using nc responseMessageReceived_frame by blast
  with nc show ?thesis
    by (cases e; cases "window_add (u32_at vs 1) (cc_remoteWin c)")
      (auto simp: decoded_defs m r intro!: no_panic_bindI send_msg_no_panic go_send_no_panic)
qed

lemma handle_decoded_frame:
  assumes "handle_decoded sl self (t, vs) c = Ret (e, removed, c')"
  shows "cc_localId c' = cc_localId c \<and> cc_goClosed c' = cc_goClosed c
    \<and> (removed = None \<or> t = 92 \<and> removed = Some (u32_at vs 0))"
proof -
  obtain e1 c1 where r: "responseMessageReceived c = (e1, c1)" by fastforce
  note f = responseMessageReceived_frame [OF r]
  show ?thesis using assms f
    by (cases e1; cases "window_add (u32_at vs 1) (cc_remoteWin c)")
      (auto simp: decoded_defs r bind_go_Ret_iff dest!: send_msg_frame split: if_split_asm option.split_asm)
qed

text \<open>The number in an open failure is the one the packet was addressed to.\<close>

lemma decode_failure_id:
  assumes "decode p = Ret (Inr (92, vs))"
  shows "u32_at vs 0 = Uint32 (drop 1 p)"
proof -
  obtain c q where p: "p = c # q" using assms by (cases p) (simp_all add: decode_def)
  obtain s where s: "schema_of (of_char c) = Some s" "Unmarshal s p = Inr vs" and t: "of_char c = (92 :: nat)"
    using assms by (auto simp: decode_def p Let_def split: if_split_asm option.split_asm sum.split_asm)
  then have "s = channelOpenFailureMsg" by (simp add: schema_of_def)
  with s(2) t have "\<exists>rest. parse_fields (KU32 # [KU32, KString, KString]) q = Inr (vs, rest)"
    by (auto simp: Unmarshal_def p channelOpenFailureMsg_def simp del: parse_fields.simps split: sum.split_asm if_split_asm)
  then show ?thesis
    by (auto simp: parse_field_def [of KU32 q] parseUint32_def u32_at_def p split: sum.split_asm if_split_asm)
qed

lemma handlePacket_no_panic:
  assumes "p \<noteq> []" "\<not> cc_goClosed c"
  shows "no_panic (handlePacket sl self p (c, pc))"
proof -
  obtain e c1 pc1 where s: "sendMessage channelCloseMsg [VU32 (cc_remoteId c)] (c, pc) = (e, (c1, pc1))" by (metis surj_pair)
  then have "\<not> cc_goClosed c1" using assms(2) sendMessage_frame by blast
  then have cl: "no_panic (channel_close c1)" by (simp add: channel_close_def)
  obtain e2 c2 where h: "handleData p c = (e2, c2)" by fastforce
  show ?thesis using assms cl unfolding handlePacket_def prod.case s h
    by (auto intro!: no_panic_bindI decode_no_panic handle_decoded_no_panic split: sum.split)
qed

lemma handleData_frame: "handleData p c = (e, c') \<Longrightarrow> cc_localId c' = cc_localId c \<and> cc_goClosed c' = cc_goClosed c"
  by (auto simp: handleData_def Let_def split: if_split_asm)

lemma handlePacket_frame:
  assumes "handlePacket sl self p (c, pc) = Ret (e, removed, (c', pc'))" "cc_localId c = Uint32 (drop 1 p)" "\<not> cc_goClosed c"
  shows "cc_localId c' = cc_localId c \<and> (removed = None \<and> \<not> cc_goClosed c' \<or> removed = Some (cc_localId c))"
proof -
  obtain e1 c1 pc1 where s: "sendMessage channelCloseMsg [VU32 (cc_remoteId c)] (c, pc) = (e1, (c1, pc1))" by (metis surj_pair)
  obtain e2 c2 where h: "handleData p c = (e2, c2)" by fastforce
  consider (data) "hd p = msgChannelData \<or> hd p = msgChannelExtendedData"
    | (close) "hd p \<noteq> msgChannelData" "hd p \<noteq> msgChannelExtendedData" "hd p = msgChannelClose"
    | (eof) "hd p \<noteq> msgChannelData" "hd p \<noteq> msgChannelExtendedData" "hd p \<noteq> msgChannelClose" "hd p = msgChannelEOF"
    | (other) "hd p \<noteq> msgChannelData" "hd p \<noteq> msgChannelExtendedData" "hd p \<noteq> msgChannelClose" "hd p \<noteq> msgChannelEOF"
    by blast
  then show ?thesis
  proof cases
    case data
    then show ?thesis using assms(1,3) handleData_frame [OF h] by (auto simp: handlePacket_def h)
  next
    case close
    then show ?thesis using assms(1) sendMessage_frame [OF s]
      by (auto simp: handlePacket_def s bind_go_Ret_iff channel_close_def split: if_split_asm)
  next
    case eof
    then show ?thesis using assms(1,3) by (auto simp: handlePacket_def op_chars)
  next
    case other
    then obtain d where d: "decode p = Ret d" using assms(1) by (auto simp: handlePacket_def bind_go_Ret_iff)
    show ?thesis
    proof (cases d)
      case (Inl x)
      then show ?thesis using other assms(1,3) d by (auto simp: handlePacket_def)
    next
      case (Inr m)
      obtain t vs where m: "m = (t, vs)" by fastforce
      have "handle_decoded sl self (t, vs) c = Ret (e, removed, c')"
        using other assms(1) d Inr m by (auto simp: handlePacket_def bind_go_triple_iff)
      from handle_decoded_frame [OF this] decode_failure_id [of p vs] d Inr m assms(2,3) show ?thesis by auto
    qed
  qed
qed

text \<open>
  A well-formed multiplexer has room for \<open>n\<close> more channels, and every number in its table leads to
  a channel of the store that has this number and whose Go channels are open.
\<close>

definition mux_wf :: "nat \<Rightarrow> mux \<Rightarrow> bool" where
  "mux_wf n m \<longleftrightarrow> chan_room n (mx_chanList m) \<and> \<not> mx_closed m
     \<and> (\<forall>i r. getChan (mx_chanList m) i = Some r \<longrightarrow>
          r < length (mx_store m) \<and> cc_localId (mx_store m ! r) = i \<and> \<not> cc_goClosed (mx_store m ! r))"

lemma mux_wfD:
  assumes "mux_wf n m" "getChan (mx_chanList m) i = Some r"
  shows "r < length (mx_store m)" "cc_localId (mx_store m ! r) = i" "\<not> cc_goClosed (mx_store m ! r)"
  using assms by (auto simp: mux_wf_def)

lemma mux_wfI:
  assumes "chan_room n (mx_chanList m)" "\<not> mx_closed m"
    and "\<And>i r. getChan (mx_chanList m) i = Some r \<Longrightarrow>
      r < length (mx_store m) \<and> cc_localId (mx_store m ! r) = i \<and> \<not> cc_goClosed (mx_store m ! r)"
  shows "mux_wf n m"
  using assms by (auto simp: mux_wf_def)

lemma mux_wf_new: "n < 2 ^ 32 \<Longrightarrow> mux_wf n newMux"
  by (simp add: mux_wf_def newMux_def chan_room_def getChan_def)

lemma mux_wf_mono: "mux_wf (Suc n) m \<Longrightarrow> mux_wf n m"
  by (auto simp: mux_wf_def chans.room_mono)

lemma mux_wf_cong:
  "mx_chanList m' = mx_chanList m \<Longrightarrow> mx_store m' = mx_store m \<Longrightarrow> mx_closed m' = mx_closed m \<Longrightarrow> mux_wf n m' = mux_wf n m"
  by (simp add: mux_wf_def)

lemma mux_wf_update:
  assumes "mux_wf n m" "cc_localId c = cc_localId (mx_store m ! r)" "cc_goClosed c = cc_goClosed (mx_store m ! r)"
  shows "mux_wf n (m\<lparr>mx_store := (mx_store m)[r := c]\<rparr>)"
proof (rule mux_wfI)
  fix i q
  assume "getChan (mx_chanList (m\<lparr>mx_store := (mx_store m)[r := c]\<rparr>)) i = Some q"
  then have "getChan (mx_chanList m) i = Some q" by simp
  from mux_wfD [OF assms(1) this] assms(2,3)
  show "q < length (mx_store (m\<lparr>mx_store := (mx_store m)[r := c]\<rparr>))
    \<and> cc_localId (mx_store (m\<lparr>mx_store := (mx_store m)[r := c]\<rparr>) ! q) = i
    \<and> \<not> cc_goClosed (mx_store (m\<lparr>mx_store := (mx_store m)[r := c]\<rparr>) ! q)"
    by (cases "q = r") auto
qed (use assms(1) in \<open>simp_all add: mux_wf_def\<close>)

lemma mux_newChannel_wf:
  assumes "mux_wf (Suc n) m" "mux_newChannel ty dir x m = (r, m')"
  shows "mux_wf n m'" "r = length (mx_store m)" "mx_closed m' = mx_closed m" "mx_conn m' = mx_conn m"
    "mx_incomingChannels m' = mx_incomingChannels m"
    "\<exists>i. mx_store m' = mx_store m @ [(newChannel ty dir x)\<lparr>cc_localId := i\<rparr>] \<and> getChan (mx_chanList m') i = Some r"
proof -
  obtain i l where a: "chanList_add (length (mx_store m)) (mx_chanList m) = (i, l)" by fastforce
  have "chan_room (Suc n) (mx_chanList m)" using assms(1) by (simp add: mux_wf_def)
  note law = chans.add_law [OF this a]
  have r: "r = length (mx_store m)"
    and m': "m' = m\<lparr>mx_store := mx_store m @ [(newChannel ty dir x)\<lparr>cc_localId := i\<rparr>], mx_chanList := l\<rparr>"
    using assms(2) a by (simp_all add: mux_newChannel_def Let_def)
  show "r = length (mx_store m)" "mx_closed m' = mx_closed m" "mx_conn m' = mx_conn m"
    "mx_incomingChannels m' = mx_incomingChannels m" by (simp_all add: r m')
  show "\<exists>i. mx_store m' = mx_store m @ [(newChannel ty dir x)\<lparr>cc_localId := i\<rparr>] \<and> getChan (mx_chanList m') i = Some r"
    using law by (auto simp: m' r)
  show "mux_wf n m'"
  proof (rule mux_wfI)
    show "chan_room n (mx_chanList m')" "\<not> mx_closed m'" using law assms(1) by (simp_all add: m' mux_wf_def)
    fix j q
    assume g: "getChan (mx_chanList m') j = Some q"
    have "getChan (mx_chanList m') j = (if j = i then Some (length (mx_store m)) else getChan (mx_chanList m) j)"
      using law by (simp add: m')
    with g consider "j = i" "q = length (mx_store m)" | "getChan (mx_chanList m) j = Some q"
      by (cases "j = i") auto
    then show "q < length (mx_store m') \<and> cc_localId (mx_store m' ! q) = j \<and> \<not> cc_goClosed (mx_store m' ! q)"
    proof cases
      case 2
      then show ?thesis using mux_wfD [OF assms(1) 2] by (simp add: m' nth_append)
    qed (simp add: m' newChannel_def)
  qed
qed

lemma handle_channel_packet_wf:
  assumes "mux_wf n m" "p \<noteq> []" "getChan (mx_chanList m) (Uint32 (drop 1 p)) = Some r"
  shows "no_panic (handle_channel_packet sl r p m)"
    "handle_channel_packet sl r p m = Ret (e, m') \<Longrightarrow> mux_wf n m'"
proof -
  have r: "r < length (mx_store m)" "cc_localId (mx_store m ! r) = Uint32 (drop 1 p)" "\<not> cc_goClosed (mx_store m ! r)"
    using assms(1,3) by (auto simp: mux_wf_def)
  show "no_panic (handle_channel_packet sl r p m)" unfolding handle_channel_packet_def
    using handlePacket_no_panic [OF assms(2) r(3)] by (rule no_panic_bindI) auto
  assume "handle_channel_packet sl r p m = Ret (e, m')"
  then obtain removed c pc where h: "handlePacket sl r p (mx_store m ! r, mx_conn m) = Ret (e, removed, (c, pc))"
      and m': "m' = m\<lparr>mx_store := (mx_store m)[r := c], mx_conn := pc,
        mx_chanList := (case removed of None \<Rightarrow> mx_chanList m | Some n \<Rightarrow> chanList_remove n (mx_chanList m))\<rparr>"
    by (auto simp: handle_channel_packet_def bind_go_Ret_iff)
  from handlePacket_frame [OF h r(2,3)] show "mux_wf n m'"
  proof (elim conjE disjE)
    assume "cc_localId c = cc_localId (mx_store m ! r)" "removed = None" "\<not> cc_goClosed c"
    then show ?thesis using mux_wf_update [OF assms(1), of c r] r(3) by (simp add: m' mux_wf_def)
  next
    assume c: "cc_localId c = cc_localId (mx_store m ! r)" and rem: "removed = Some (cc_localId (mx_store m ! r))"
    have "chan_room n (mx_chanList m)" using assms(1) by (simp add: mux_wf_def)
    note law = chans.del_law [OF this, of "cc_localId (mx_store m ! r)"]
    show ?thesis
    proof (rule mux_wfI)
      fix j q
      assume a: "getChan (mx_chanList m') j = Some q"
      have "getChan (mx_chanList m') j = (if j = cc_localId (mx_store m ! r) then None else getChan (mx_chanList m) j)"
        using law by (simp add: m' rem)
      with a have j: "j \<noteq> cc_localId (mx_store m ! r)" and g: "getChan (mx_chanList m) j = Some q"
        by (auto split: if_split_asm)
      from mux_wfD [OF assms(1) g] j have "q \<noteq> r" by blast
      with mux_wfD [OF assms(1) g]
      show "q < length (mx_store m') \<and> cc_localId (mx_store m' ! q) = j \<and> \<not> cc_goClosed (mx_store m' ! q)"
        by (simp add: m')
    qed (use law assms(1) in \<open>simp_all add: m' rem mux_wf_def\<close>)
  qed
qed

lemma handleChannelOpen_wf:
  assumes "mux_wf (Suc n) m"
  shows "no_panic (handleChannelOpen sl p m)" "handleChannelOpen sl p m = Ret (e, m') \<Longrightarrow> mux_wf n m'"
proof -
  have nc: "\<not> mx_closed m" using assms by (simp add: mux_wf_def)
  show "no_panic (handleChannelOpen sl p m)"
    unfolding handleChannelOpen_def Let_def
    by (auto intro!: no_panic_bindI go_send_no_panic simp: nc split: sum.split prod.split)
  assume h: "handleChannelOpen sl p m = Ret (e, m')"
  show "mux_wf n m'"
  proof (cases "Unmarshal channelOpenMsg p")
    case (Inl x)
    then show ?thesis using h mux_wf_mono [OF assms] by (simp add: handleChannelOpen_def)
  next
    case (Inr vs)
    obtain r m1 where new: "mux_newChannel (str_at vs 0) channelInbound (bytes_at vs 4) m = (r, m1)" by fastforce
    note nw = mux_newChannel_wf [OF assms new]
    let ?c = "(mx_store m1 ! r)\<lparr>cc_remoteId := u32_at vs 1, cc_maxRemotePayload := u32_at vs 3,
        cc_remoteWin := snd (window_add (u32_at vs 2) (cc_remoteWin (mx_store m1 ! r)))\<rparr>"
    have "mux_wf n (m1\<lparr>mx_store := (mx_store m1)[r := ?c]\<rparr>)" using nw(1) by (rule mux_wf_update) simp_all
    then show ?thesis using h mux_wf_mono [OF assms] Inr new
      by (auto simp: handleChannelOpen_def mux_send_def Let_def bind_go_Ret_iff mux_wf_def
          split: if_split_asm option.split_asm prod.split_asm)
  qed
qed

lemma decode_tag: "decode p = Ret (Inr (t, vs)) \<Longrightarrow> t = of_char (hd p)"
  by (cases p) (auto simp: decode_def Let_def split: if_split_asm option.split_asm sum.split_asm)

lemma handleGlobalPacket_wf:
  assumes "mux_wf n m" "p \<noteq> []" "of_char (hd p) \<in> {80, 81, 82 :: nat}"
  shows "no_panic (handleGlobalPacket sl p m)" "handleGlobalPacket sl p m = Ret (e, m') \<Longrightarrow> mux_wf n m'"
proof -
  have nc: "\<not> mx_closed m" using assms(1) by (simp add: mux_wf_def)
  have "no_panic (on_global sl t vs m)" if "t \<in> {80, 81, 82}" for t vs
    using that by (auto simp: on_global_def nc intro!: no_panic_bindI go_send_no_panic)
  then show "no_panic (handleGlobalPacket sl p m)" unfolding handleGlobalPacket_def
    using assms(3) decode_tag [of p]
    by (intro no_panic_bind [OF decode_no_panic [OF assms(2)]]) (auto split: sum.split)
  have frame: "mx_chanList m' = mx_chanList m \<and> mx_store m' = mx_store m \<and> mx_closed m' = mx_closed m"
    if "on_global sl t vs m = Ret (e, m')" for t vs
    using that by (auto simp: on_global_def bind_go_Ret_iff split: if_split_asm option.split_asm)
  assume h: "handleGlobalPacket sl p m = Ret (e, m')"
  then obtain d where "decode p = Ret d" by (auto simp: handleGlobalPacket_def bind_go_Ret_iff)
  with h frame have "mx_chanList m' = mx_chanList m \<and> mx_store m' = mx_store m \<and> mx_closed m' = mx_closed m"
    by (cases d) (auto simp: handleGlobalPacket_def)
  then show "mux_wf n m'" using assms(1) mux_wf_cong by blast
qed

lemma onePacket_wf:
  assumes "mux_wf (Suc n) m" "p \<noteq> []"
  shows "no_panic (onePacket sl p m)" "onePacket sl p m = Ret (e, m') \<Longrightarrow> mux_wf n m'"
proof -
  note wf = mux_wf_mono [OF assms(1)]
  let ?t = "of_char (hd p) :: nat" and ?g = "getChan (mx_chanList m) (Uint32 (drop 1 p))"
  consider (opn) "?t = 90" | (glob) "?t \<in> {80, 81, 82}"
    | (short) "?t \<noteq> 90" "?t \<notin> {80, 81, 82}" "length p < 5 \<or> ?g = None"
    | (chan) r where "?t \<noteq> 90" "?t \<notin> {80, 81, 82}" "\<not> length p < 5" "?g = Some r" by fastforce
  then have "no_panic (onePacket sl p m) \<and> (onePacket sl p m = Ret (e, m') \<longrightarrow> mux_wf n m')"
  proof cases
    case opn
    then show ?thesis using assms handleChannelOpen_wf [OF assms(1), of sl p] by (simp add: onePacket_def)
  next
    case glob
    then have "onePacket sl p m = handleGlobalPacket sl p m" using assms(2) by (auto simp: onePacket_def)
    then show ?thesis using handleGlobalPacket_wf [OF wf assms(2) glob, of sl] by simp
  next
    case short
    then show ?thesis using assms(2) wf by (auto simp: onePacket_def)
  next
    case (chan r)
    then have "onePacket sl p m = handle_channel_packet sl r p m" using assms(2) by (simp add: onePacket_def)
    then show ?thesis using handle_channel_packet_wf [OF wf assms(2) chan(4), of sl] by simp
  qed
  then show "no_panic (onePacket sl p m)" "onePacket sl p m = Ret (e, m') \<Longrightarrow> mux_wf n m'" by blast+
qed

text \<open>The end of the loop closes every channel of the table once.\<close>

lemma close_channels_ok:
  "distinct rs \<Longrightarrow> \<forall>r\<in>set rs. r < length st \<and> \<not> cc_goClosed (st ! r) \<Longrightarrow>
   \<exists>st'. close_channels rs st = Ret st' \<and> length st' = length st \<and> (\<forall>r\<in>set rs. channel_close (st ! r) = Ret (st' ! r))
      \<and> (\<forall>r. r \<notin> set rs \<longrightarrow> st' ! r = st ! r)"
proof (induction rs arbitrary: st)
  case (Cons r rs)
  obtain c where c: "channel_close (st ! r) = Ret c" using Cons.prems by (simp add: channel_close_def)
  have "\<forall>q\<in>set rs. q < length (st[r := c]) \<and> \<not> cc_goClosed (st[r := c] ! q)" using Cons.prems by (auto simp: nth_list_update)
  then obtain st' where "close_channels rs (st[r := c]) = Ret st'" "length st' = length st"
      "\<forall>q\<in>set rs. channel_close (st[r := c] ! q) = Ret (st' ! q)" "\<forall>q. q \<notin> set rs \<longrightarrow> st' ! q = st[r := c] ! q"
    using Cons.IH [of "st[r := c]"] Cons.prems by auto
  moreover have "st[r := c] ! q = st ! q" if "q \<in> set rs" for q using that Cons.prems(1) by (cases "q = r") auto
  ultimately show ?case using c Cons.prems by (intro exI [of _ st']) auto
qed simp

lemma set_map_filter_id: "q \<in> set (List.map_filter (\<lambda>x. x) xs) \<longleftrightarrow> Some q \<in> set xs"
  by (auto simp: List.map_filter_def image_iff)

lemma distinct_map_filter_id:
  "(\<And>j k q. j < length xs \<Longrightarrow> k < length xs \<Longrightarrow> xs ! j = Some q \<Longrightarrow> xs ! k = Some q \<Longrightarrow> j = k) \<Longrightarrow>
   distinct (List.map_filter (\<lambda>x. x) xs)"
proof (induction xs)
  case (Cons x xs)
  have "distinct (List.map_filter (\<lambda>x. x) xs)"
  proof (rule Cons.IH)
    fix j k q
    assume "j < length xs" "k < length xs" "xs ! j = Some q" "xs ! k = Some q"
    then show "j = k" using Cons.prems [of "Suc j" "Suc k" q] by simp
  qed
  moreover have "Some q \<notin> set xs" if "x = Some q" for q
    using that Cons.prems [of 0 "Suc k" q for k] by (auto simp: in_set_conv_nth)
  ultimately show ?case by (cases x) (simp_all add: List.map_filter_simps set_map_filter_id)
qed (simp add: List.map_filter_simps)

lemma dropAll_refs:
  assumes "mux_wf n m"
  shows "distinct (fst (dropAll (mx_chanList m)))"
    "r \<in> set (fst (dropAll (mx_chanList m))) \<longleftrightarrow> (\<exists>i. getChan (mx_chanList m) i = Some r)"
proof -
  let ?l = "mx_chanList m" let ?xs = "cl_chans ?l"
  have len: "length ?xs < 2 ^ 32" using assms by (simp add: mux_wf_def chan_room_def)
  have get: "getChan ?l (word_of_nat k + cl_offset ?l) = ?xs ! k" if "k < length ?xs" for k
    using that len by (simp add: getChan_index unat_of_nat_eq)
  have "distinct (List.map_filter (\<lambda>x. x) ?xs)"
  proof (rule distinct_map_filter_id)
    fix j k q
    assume a: "j < length ?xs" "k < length ?xs" "?xs ! j = Some q" "?xs ! k = Some q"
    have "word_of_nat j + cl_offset ?l = word_of_nat k + cl_offset ?l"
      using mux_wfD(2) [OF assms] get a by metis
    then have "unat (word_of_nat j :: u32) = unat (word_of_nat k :: u32)" by simp
    then show "j = k" using a(1,2) len by (simp add: unat_of_nat_eq)
  qed
  then show "distinct (fst (dropAll ?l))" by (simp add: dropAll_def)
  have "\<exists>i. getChan ?l i = Some r" if "Some r \<in> set ?xs" using that get by (metis in_set_conv_nth)
  moreover have "Some r \<in> set ?xs" if "getChan ?l i = Some r" for i
    using that len nth_mem by (fastforce simp: getChan_index split: if_split_asm)
  ultimately have "Some r \<in> set ?xs \<longleftrightarrow> (\<exists>i. getChan ?l i = Some r)" by blast
  then show "r \<in> set (fst (dropAll ?l)) \<longleftrightarrow> (\<exists>i. getChan ?l i = Some r)"
    by (simp add: dropAll_def set_map_filter_id)
qed

lemma mux_shutdown_ok:
  assumes "mux_wf n m"
  shows "\<exists>m'. mux_shutdown err m = Ret m' \<and> mx_closed m' \<and> mx_err m' = Some err \<and> (\<forall>i. getChan (mx_chanList m') i = None)
    \<and> (\<forall>i r. getChan (mx_chanList m) i = Some r \<longrightarrow> channel_close (mx_store m ! r) = Ret (mx_store m' ! r))"
proof -
  let ?rs = "fst (dropAll (mx_chanList m))"
  have "\<forall>r\<in>set ?rs. r < length (mx_store m) \<and> \<not> cc_goClosed (mx_store m ! r)"
    using dropAll_refs(2) [OF assms] mux_wfD [OF assms] by blast
  then obtain st where st: "close_channels ?rs (mx_store m) = Ret st" "\<forall>r\<in>set ?rs. channel_close (mx_store m ! r) = Ret (st ! r)"
    using close_channels_ok [OF dropAll_refs(1) [OF assms]] by blast
  let ?m' = "m\<lparr>mx_store := st, mx_chanList := snd (dropAll (mx_chanList m)), mx_closed := True, mx_err := Some err\<rparr>"
  have "mux_shutdown err m = Ret ?m'" using st(1) by (simp add: mux_shutdown_def case_prod_beta)
  moreover have "getChan (mx_chanList ?m') i = None" for i by (simp add: dropAll_def getChan_def)
  ultimately show ?thesis using st(2) dropAll_refs(2) [OF assms] by (intro exI [of _ ?m']) auto
qed

text \<open>
  The multiplexer as the loop leaves it before it shuts down: with the error that ends the loop, or none when all packets
  are read.
\<close>

fun mux_reads :: "(io_err + sel \<times> bytes) list \<Rightarrow> mux \<Rightarrow> (io_err option \<times> mux) go" where
  "mux_reads [] m = Ret (None, m)"
| "mux_reads (Inl e # rest) m = (if is_timeout e then mux_reads rest m else Ret (Some e, m))"
| "mux_reads (Inr (sl, p) # rest) m =
     bind_go (onePacket sl p m) (\<lambda>(e, m').
       case e of
         None \<Rightarrow> mux_reads rest m'
       | Some err \<Rightarrow> if is_timeout err then mux_reads rest m' else Ret (Some err, m'))"

lemma mux_loop_reads:
  "mux_loop ins m = bind_go (mux_reads ins m) (\<lambda>(e, m1). case e of None \<Rightarrow> Ret m1 | Some err \<Rightarrow> mux_shutdown err m1)"
proof (induction ins m rule: mux_loop.induct)
  case (3 sl p rest m)
  then show ?case by (cases "onePacket sl p m") (auto split: option.splits)
qed simp_all

lemma mux_wf_0: "mux_wf n m \<Longrightarrow> mux_wf 0 m"
  by (induction n) (use mux_wf_mono in blast)+

lemma mux_reads_ok:
  "mux_wf (length ins) m \<Longrightarrow> \<forall>sl p. Inr (sl, p) \<in> set ins \<longrightarrow> p \<noteq> [] \<Longrightarrow>
   no_panic (mux_reads ins m) \<and> (mux_reads ins m = Ret (e, m1) \<longrightarrow> mux_wf 0 m1)"
proof (induction ins m rule: mux_reads.induct)
  case (2 err rest m)
  then have "mux_wf (length rest) m" "mux_wf 0 m" using mux_wf_mono mux_wf_0 by simp_all
  then show ?case using 2 by auto
next
  case (3 sl p rest m)
  then have "mux_wf (Suc (length rest)) m" "p \<noteq> []" by auto
  note one = onePacket_wf [OF this, of sl]
  show ?case
  proof (cases "onePacket sl p m")
    case (Ret x)
    obtain e1 m2 where x: "x = (e1, m2)" by fastforce
    have wf: "mux_wf (length rest) m2" using one(2) Ret x by simp
    then have "mux_wf 0 m2" by (rule mux_wf_0)
    then show ?thesis using 3 wf Ret x by (cases e1) auto
  qed (use one in auto)
qed auto

text \<open>
  C15: a peer cannot make the packet loop panic.  From a well-formed multiplexer with room for
  as many channels as packets are read, no sequence of non-empty packets (the transport gives no others) - malformed ones, answers to
  channels nobody opened, closes of closed channels - makes the loop panic.  When it returns, either all packets are read and the
  multiplexer is well-formed, or an error ended it: the error is recorded, the table is empty, and every channel that was in the
  table at that moment has been closed with \<open>channel.close\<close>, which ends its reads, its requests and its window.
\<close>

theorem packets_cannot_panic:
  assumes "mux_wf (length ins) m" "\<forall>sl p. Inr (sl, p) \<in> set ins \<longrightarrow> p \<noteq> []"
  shows "(\<forall>s. mux_loop ins m \<noteq> Panic s)
    \<and> (\<forall>m'. mux_loop ins m = Ret m' \<longrightarrow>
         (\<exists>e m1. mux_reads ins m = Ret (e, m1) \<and>
            (case e of
               None \<Rightarrow> m' = m1 \<and> mux_wf 0 m'
             | Some err \<Rightarrow> mx_closed m' \<and> mx_err m' = Some err \<and> (\<forall>i. getChan (mx_chanList m') i = None)
                 \<and> (\<forall>i r. getChan (mx_chanList m1) i = Some r \<longrightarrow> channel_close (mx_store m1 ! r) = Ret (mx_store m' ! r)))))"
proof (cases "mux_reads ins m")
  case (Ret x)
  obtain e m1 where x: "x = (e, m1)" by (cases x)
  have wf: "mux_wf 0 m1" using mux_reads_ok [OF assms] Ret x by blast
  show ?thesis
  proof (cases e)
    case None
    then show ?thesis using Ret x wf by (simp add: mux_loop_reads)
  next
    case (Some err)
    then show ?thesis using Ret x mux_shutdown_ok [OF wf, of err] by (auto simp: mux_loop_reads)
  qed
qed (use mux_reads_ok [OF assms] in \<open>auto simp: mux_loop_reads no_panic_def\<close>)

definition demo_sel :: sel where
  "demo_sel = \<lparr>sl_taken = False, sl_stop = False, sl_pick = False\<rparr>"

theorem packets_cannot_panic_witness:
  "let m = snd (mux_newChannel ''session'' channelOutbound [] newMux) in
   (\<forall>s. mux_loop [Inr (demo_sel, ''a'')] m \<noteq> Panic s)
   \<and> (\<exists>m'. mux_loop [Inr (demo_sel, ''a'')] m = Ret m' \<and> mx_closed m' \<and> mx_err m' = Some (ErrParse 97)
        \<and> channel_close (mx_store m ! 0) = Ret (mx_store m' ! 0))"
proof -
  let ?m = "snd (mux_newChannel ''session'' channelOutbound [] newMux)" and ?ins = "[Inr (demo_sel, ''a'')]"
  have "mux_wf (Suc 1) newMux" by (rule mux_wf_new) simp
  then have wf: "mux_wf (length ?ins) ?m" using mux_newChannel_wf(1) by (metis One_nat_def length_Cons list.size(3) prod.collapse)
  have r: "mux_reads ?ins ?m = Ret (Some (ErrParse 97), ?m)" by (simp add: onePacket_def)
  have g: "getChan (mx_chanList ?m) 0 = Some 0"
    by (simp add: mux_newChannel_def newMux_def chanList_add_def getChan_def)
  obtain m' where m': "mux_loop ?ins ?m = Ret m'"
    using mux_shutdown_ok [OF wf, of "ErrParse 97"] r by (auto simp: mux_loop_reads)
  have "\<forall>s. mux_loop ?ins ?m \<noteq> Panic s" "mx_closed m'" "mx_err m' = Some (ErrParse 97)"
    "channel_close (mx_store ?m ! 0) = Ret (mx_store m' ! 0)"
    using packets_cannot_panic [OF wf] r g m' by auto
  then show ?thesis using m' by (auto simp: Let_def)
qed

end
