(* ===== verification/Mux_Open.thy ===== *)
theory Mux_Open
  imports Mux_Proofs
begin

section \<open>Opening a channel\<close>

text \<open>
  The four messages' way of a channel request: the opener's packet, the acceptor's table, the
  confirmation, the opener's channel.  The two ends it leaves are the initial state of the
  streams in both directions.
\<close>

definition open_fields :: "string \<Rightarrow> u32 \<Rightarrow> bytes \<Rightarrow> fval list" where
  "open_fields ty i x = [VStr ty, VU32 i, VU32 channelWindowSize, VU32 channelMaxPacket, VBytes x]"

definition confirm_fields :: "u32 \<Rightarrow> u32 \<Rightarrow> fval list" where
  "confirm_fields i j = [VU32 i, VU32 j, VU32 channelWindowSize, VU32 channelMaxPacket, VBytes []]"

lemma max_packet_ok: "\<not> bad_max_packet channelMaxPacket"
  by (simp add: bad_max_packet_def minPacketLength_def channelMaxPacket_def)

lemma window_add_new: "window_add channelWindowSize \<lparr>wd_win = 0, wd_writeWaiters = n, wd_closed = b\<rparr>
    = (True, \<lparr>wd_win = channelWindowSize, wd_writeWaiters = n, wd_closed = b\<rparr>)"
  by (simp add: window_add_def channelWindowSize_def channelMaxPacket_def)

text \<open>The opener.\<close>

lemma open_request_ok:
  assumes "mux_wf (Suc n) A" "pc_fail (mx_conn A) = None"
  obtains i A1 where "open_request ty x A = ((None, length (mx_store A)), A1)" "mux_wf n A1"
    "mx_store A1 = mx_store A @ [(newChannel ty channelOutbound x)\<lparr>cc_localId := i, cc_maxIncomingPayload := channelMaxPacket\<rparr>]"
    "getChan (mx_chanList A1) i = Some (length (mx_store A))"
    "pc_out (mx_conn A1) = pc_out (mx_conn A) @ [Marshal channelOpenMsg (open_fields ty i x)]"
proof -
  let ?r = "length (mx_store A)"
  obtain r m1 where new: "mux_newChannel ty channelOutbound x A = (r, m1)" by fastforce
  note nw = mux_newChannel_wf [OF assms(1) new]
  obtain i where st: "mx_store m1 = mx_store A @ [(newChannel ty channelOutbound x)\<lparr>cc_localId := i\<rparr>]"
      and g: "getChan (mx_chanList m1) i = Some r" using nw(6) by blast
  let ?c = "(newChannel ty channelOutbound x)\<lparr>cc_localId := i, cc_maxIncomingPayload := channelMaxPacket\<rparr>"
  let ?A1 = "m1\<lparr>mx_store := (mx_store m1)[r := ?c], mx_conn := (mx_conn A)\<lparr>pc_out := pc_out (mx_conn A)
      @ [Marshal channelOpenMsg (open_fields ty i x)]\<rparr>\<rparr>"
  have "mux_wf n (m1\<lparr>mx_store := (mx_store m1)[r := ?c]\<rparr>)"
    using nw(1) by (rule mux_wf_update) (simp_all add: st nw(2))
  then have "mux_wf n ?A1" by (simp add: mux_wf_def)
  moreover have "open_request ty x A = ((None, ?r), ?A1)"
    using assms(2) by (simp add: open_request_def new mux_send_def conn_write_def nw st Let_def open_fields_def newChannel_def)
  ultimately show thesis using g by - (rule that [of ?A1 i], simp_all add: st nw(2))
qed

text \<open>The acceptor.\<close>

lemma handle_open_ok:
  assumes "mux_wf (Suc n) B" "small (Marshal channelOpenMsg (open_fields ty i x))"
    and "\<not> sl_stop sl" "length (mx_incomingChannels B) < chanSize"
  obtains j B1 where "onePacket sl (Marshal channelOpenMsg (open_fields ty i x)) B = Ret (None, B1)"
    "mx_incomingChannels B1 = mx_incomingChannels B @ [length (mx_store B)]" "mx_conn B1 = mx_conn B"
    "mx_store B1 ! length (mx_store B) = (newChannel ty channelInbound x)\<lparr>cc_localId := j, cc_remoteId := i,
       cc_maxRemotePayload := channelMaxPacket, cc_remoteWin := \<lparr>wd_win = channelWindowSize, wd_writeWaiters = 0, wd_closed = False\<rparr>\<rparr>"
proof -
  let ?p = "Marshal channelOpenMsg (open_fields ty i x)" and ?vs = "open_fields ty i x"
  have un: "Unmarshal channelOpenMsg ?p = Inr ?vs"
    using assms(2) by (intro Unmarshal_of_Marshal)
      (simp_all add: channelOpenMsg_def open_fields_def has_kind_def tags_ok_def)
  have hd: "?p \<noteq> [] \<and> of_char (hd ?p) = (90 :: nat)"
    using marshal_fields_append [of "sc_fields channelOpenMsg" ?vs "[char_of (90 :: nat)]"]
    by (simp add: Marshal_def channelOpenMsg_def)
  obtain r m1 where new: "mux_newChannel ty channelInbound x B = (r, m1)" by fastforce
  note nw = mux_newChannel_wf [OF assms(1) new]
  obtain j where st: "mx_store m1 = mx_store B @ [(newChannel ty channelInbound x)\<lparr>cc_localId := j\<rparr>]" using nw(6) by blast
  have at: "str_at ?vs 0 = ty" "u32_at ?vs 1 = i" "u32_at ?vs 2 = channelWindowSize" "u32_at ?vs 3 = channelMaxPacket"
      "bytes_at ?vs 4 = x"
    by (simp_all add: open_fields_def str_at_def u32_at_def bytes_at_def numeral_nat)
  have "\<not> mx_closed B" using assms(1) by (simp add: mux_wf_def)
  let ?c = "(newChannel ty channelInbound x)\<lparr>cc_localId := j, cc_remoteId := i, cc_maxRemotePayload := channelMaxPacket,
      cc_remoteWin := \<lparr>wd_win = channelWindowSize, wd_writeWaiters = 0, wd_closed = False\<rparr>\<rparr>"
  let ?B1 = "m1\<lparr>mx_store := (mx_store m1)[r := ?c], mx_incomingChannels := mx_incomingChannels B @ [r]\<rparr>"
  have win: "snd (window_add channelWindowSize (cc_remoteWin (newChannel ty channelInbound x)))
      = \<lparr>wd_win = channelWindowSize, wd_writeWaiters = 0, wd_closed = False\<rparr>"
    by (simp add: newChannel_def window_add_new)
  have "handleChannelOpen sl ?p B = Ret (None, ?B1)"
    unfolding handleChannelOpen_def un sum.case at new prod.case Let_def
    using assms(3,4) \<open>\<not> mx_closed B\<close> max_packet_ok by (simp add: st nw(2,3,5) go_send_def win)
  then have "onePacket sl ?p B = Ret (None, ?B1)" using hd by (simp add: onePacket_def)
  then show thesis by - (rule that [of ?B1 j], simp_all add: st nw(2,4))
qed

text \<open>The confirmation.\<close>

lemma open_chars [simp]: "char_of (90 :: nat) = CHR 0x5A" "char_of (91 :: nat) = CHR 0x5B"
  by code_simp+

lemma confirm_bytes:
  "Marshal channelOpenConfirmMsg (confirm_fields i j)
     = CHR 0x5B # PutUint32 i @ PutUint32 j @ PutUint32 channelWindowSize @ PutUint32 channelMaxPacket"
  by (simp add: Marshal_def channelOpenConfirmMsg_def confirm_fields_def marshal_field_def appendU32_def)

lemma put_id_confirm: "put_id i (Marshal channelOpenConfirmMsg (confirm_fields i j)) = Marshal channelOpenConfirmMsg (confirm_fields i j)"
  by (simp add: put_id_def confirm_bytes)

lemma Accept_ok:
  assumes "\<not> cc_decided c" "\<not> cc_sentClose c" "cc_myWindow c = channelWindowSize" "pc_fail pc = None"
  shows "Accept (c, pc) = (None, (c\<lparr>cc_maxIncomingPayload := channelMaxPacket, cc_decided := True, cc_sentClose := False\<rparr>,
    pc\<lparr>pc_out := pc_out pc @ [Marshal channelOpenConfirmMsg (confirm_fields (cc_remoteId c) (cc_localId c))]\<rparr>))"
  using assms put_id_confirm [of "cc_remoteId c" "cc_localId c"]
  by (simp add: Accept_def Let_def sendMessage_def writePacket_def conn_write_def confirm_fields_def [symmetric] del: One_nat_def)
    (simp add: confirm_bytes op_chars)

lemma decode_confirm: "decode (Marshal channelOpenConfirmMsg (confirm_fields i j)) = Ret (Inr (91, confirm_fields i j))"
proof (rule decode_of_Marshal)
  show "schema_of 91 = Some channelOpenConfirmMsg" by (simp add: schema_of_def)
  show "fits_fields (sc_fields channelOpenConfirmMsg) (confirm_fields i j)"
    by (simp add: channelOpenConfirmMsg_def confirm_fields_def has_kind_def)
  show "small (Marshal channelOpenConfirmMsg (confirm_fields i j))" by (simp add: confirm_bytes small_def)
qed

lemma handle_confirm_ok:
  assumes "mux_wf n A" "getChan (mx_chanList A) i = Some r" "r < length (mx_store A)"
    and "mx_store A ! r = (newChannel ty channelOutbound x)\<lparr>cc_localId := i, cc_maxIncomingPayload := channelMaxPacket\<rparr>"
    and "\<not> sl_stop sl"
  obtains A1 where "onePacket sl (Marshal channelOpenConfirmMsg (confirm_fields i j)) A = Ret (None, A1)"
    "mx_store A1 ! r = (newChannel ty channelOutbound x)\<lparr>cc_localId := i, cc_remoteId := j, cc_decided := True,
       cc_maxIncomingPayload := channelMaxPacket, cc_maxRemotePayload := channelMaxPacket,
       cc_remoteWin := \<lparr>wd_win = channelWindowSize, wd_writeWaiters = 0, wd_closed = False\<rparr>,
       cc_msg := [(91, confirm_fields i j)]\<rparr>"
proof -
  let ?q = "Marshal channelOpenConfirmMsg (confirm_fields i j)" and ?c = "mx_store A ! r" and ?vs = "confirm_fields i j"
  let ?c' = "(newChannel ty channelOutbound x)\<lparr>cc_localId := i, cc_remoteId := j, cc_decided := True,
       cc_maxIncomingPayload := channelMaxPacket, cc_maxRemotePayload := channelMaxPacket,
       cc_remoteWin := \<lparr>wd_win = channelWindowSize, wd_writeWaiters = 0, wd_closed = False\<rparr>,
       cc_msg := [(91, confirm_fields i j)]\<rparr>"
  have at: "u32_at ?vs 1 = j" "u32_at ?vs 2 = channelWindowSize" "u32_at ?vs 3 = channelMaxPacket"
    by (simp_all add: confirm_fields_def u32_at_def numeral_nat)
  have "on_open_confirm sl ?vs ?c = Ret (None, None, ?c')"
    using assms(5) max_packet_ok unfolding on_open_confirm_def at assms(4)
    by (simp add: responseMessageReceived_def newChannel_def window_add_new send_msg_def go_send_def chanSize_def)
  then have "handle_decoded sl r (91, ?vs) ?c = Ret (None, None, ?c')" by (simp add: handle_decoded_def)
  moreover have "hd ?q = CHR 0x5B" by (simp add: confirm_bytes)
  ultimately have "handlePacket sl r ?q (?c, mx_conn A) = Ret (None, None, (?c', mx_conn A))"
    by (simp add: handlePacket_def decode_confirm op_chars)
  moreover have "onePacket sl ?q A = handle_channel_packet sl r ?q A"
    using assms(2) by (simp add: onePacket_def confirm_bytes)
  ultimately have "onePacket sl ?q A = Ret (None, A\<lparr>mx_store := (mx_store A)[r := ?c']\<rparr>)"
    by (simp add: handle_channel_packet_def)
  then show thesis using that assms(3) by simp
qed

lemma open_accept:
  assumes "mux_wf (Suc n) A" "mux_wf (Suc n) B" "pc_fail (mx_conn A) = None" "pc_fail (mx_conn B) = None"
    and "\<not> sl_stop sl" "length (mx_incomingChannels B) < chanSize" "length ty + length x < 2 ^ 31"
  shows "\<exists>ra p A1 rb B1 cb q pcB A2 ca.
     open_request ty x A = ((None, ra), A1) \<and> pc_out (mx_conn A1) = pc_out (mx_conn A) @ [p]
   \<and> onePacket sl p B = Ret (None, B1) \<and> mx_incomingChannels B1 = mx_incomingChannels B @ [rb]
   \<and> cc_chanType (mx_store B1 ! rb) = ty \<and> cc_extraData (mx_store B1 ! rb) = x
   \<and> Accept (mx_store B1 ! rb, mx_conn B1) = (None, (cb, pcB)) \<and> pc_out pcB = pc_out (mx_conn B) @ [q]
   \<and> onePacket sl q A1 = Ret (None, A2) \<and> open_answer sl (mx_store A2 ! ra) = (Some None, ca)
   \<and> linked ca cb \<and> linked cb ca \<and> cc_remoteId ca = cc_localId cb \<and> cc_remoteId cb = cc_localId ca"
proof -
  let ?ra = "length (mx_store A)" and ?rb = "length (mx_store B)"
  obtain i A1 where o: "open_request ty x A = ((None, ?ra), A1)" and wf1: "mux_wf n A1"
      and st: "mx_store A1 = mx_store A @ [(newChannel ty channelOutbound x)\<lparr>cc_localId := i, cc_maxIncomingPayload := channelMaxPacket\<rparr>]"
      and g: "getChan (mx_chanList A1) i = Some ?ra"
      and out: "pc_out (mx_conn A1) = pc_out (mx_conn A) @ [Marshal channelOpenMsg (open_fields ty i x)]"
    using assms(1,3) by (rule open_request_ok)
  have sm: "small (Marshal channelOpenMsg (open_fields ty i x))"
    using assms(7) by (simp add: small_def Marshal_def channelOpenMsg_def open_fields_def marshal_field_def appendU32_def appendInt_def)
  obtain j B1 where b: "onePacket sl (Marshal channelOpenMsg (open_fields ty i x)) B = Ret (None, B1)"
      "mx_incomingChannels B1 = mx_incomingChannels B @ [?rb]" "mx_conn B1 = mx_conn B"
    and cb1: "mx_store B1 ! ?rb = (newChannel ty channelInbound x)\<lparr>cc_localId := j, cc_remoteId := i,
       cc_maxRemotePayload := channelMaxPacket, cc_remoteWin := \<lparr>wd_win = channelWindowSize, wd_writeWaiters = 0, wd_closed = False\<rparr>\<rparr>"
    using assms(2) sm assms(5,6) by (rule handle_open_ok)
  let ?cb = "(mx_store B1 ! ?rb)\<lparr>cc_maxIncomingPayload := channelMaxPacket, cc_decided := True, cc_sentClose := False\<rparr>"
  let ?q = "Marshal channelOpenConfirmMsg (confirm_fields i j)"
  have acc: "Accept (mx_store B1 ! ?rb, mx_conn B1) = (None, (?cb, (mx_conn B)\<lparr>pc_out := pc_out (mx_conn B) @ [?q]\<rparr>))"
    using Accept_ok [of "mx_store B1 ! ?rb" "mx_conn B"] assms(4) by (simp add: b(3) cb1 newChannel_def)
  obtain A2 where a2: "onePacket sl ?q A1 = Ret (None, A2)"
    and ca: "mx_store A2 ! ?ra = (newChannel ty channelOutbound x)\<lparr>cc_localId := i, cc_remoteId := j, cc_decided := True,
       cc_maxIncomingPayload := channelMaxPacket, cc_maxRemotePayload := channelMaxPacket,
       cc_remoteWin := \<lparr>wd_win = channelWindowSize, wd_writeWaiters = 0, wd_closed = False\<rparr>,
       cc_msg := [(91, confirm_fields i j)]\<rparr>"
    by (rule handle_confirm_ok [OF wf1 g, where sl = sl and j = j]) (use assms(5) in \<open>simp_all add: st\<close>)
  let ?ca = "(mx_store A2 ! ?ra)\<lparr>cc_msg := []\<rparr>"
  have ans: "open_answer sl (mx_store A2 ! ?ra) = (Some None, ?ca)" using assms(5) by (simp add: open_answer_def ca)
  have l: "linked ?ca ?cb" "linked ?cb ?ca" "cc_remoteId ?ca = cc_localId ?cb" "cc_remoteId ?cb = cc_localId ?ca"
    by (simp_all add: linked_def ca cb1 newChannel_def)
  have ty: "cc_chanType (mx_store B1 ! ?rb) = ty" "cc_extraData (mx_store B1 ! ?rb) = x" by (simp_all add: cb1 newChannel_def)
  show ?thesis
    by (rule exI [of _ ?ra], rule exI [of _ "Marshal channelOpenMsg (open_fields ty i x)"], rule exI [of _ A1],
        rule exI [of _ ?rb], rule exI [of _ B1], rule exI [of _ ?cb], rule exI [of _ ?q],
        rule exI [of _ "(mx_conn B)\<lparr>pc_out := pc_out (mx_conn B) @ [?q]\<rparr>"], rule exI [of _ A2], rule exI [of _ ?ca])
      (use o out b(1,2) ty acc a2 ans l in simp)
qed

text \<open>
  C27: opening a channel links its two ends.  The opener's request reaches the acceptor as an
  incoming channel of the requested type with the same extra data; when it is accepted, the
  confirmation makes the opener's call succeed, each end knows the number of the other, and both
  ends start with full windows and empty buffers - the initial state of the ordered streams, in
  both directions.
\<close>

theorem open_links_both_ends:
  assumes "mux_wf (Suc n) A" "mux_wf (Suc n) B" "pc_fail (mx_conn A) = None" "pc_fail (mx_conn B) = None"
    and "\<not> sl_stop sl" "length (mx_incomingChannels B) < chanSize" "length ty + length x < 2 ^ 31"
  shows "\<exists>ra p A1 rb B1 cb q pcB A2 ca.
     open_request ty x A = ((None, ra), A1) \<and> pc_out (mx_conn A1) = pc_out (mx_conn A) @ [p]
   \<and> onePacket sl p B = Ret (None, B1) \<and> mx_incomingChannels B1 = mx_incomingChannels B @ [rb]
   \<and> cc_chanType (mx_store B1 ! rb) = ty \<and> cc_extraData (mx_store B1 ! rb) = x
   \<and> Accept (mx_store B1 ! rb, mx_conn B1) = (None, (cb, pcB)) \<and> pc_out pcB = pc_out (mx_conn B) @ [q]
   \<and> onePacket sl q A1 = Ret (None, A2) \<and> open_answer sl (mx_store A2 ! ra) = (Some None, ca)
   \<and> linked ca cb \<and> linked cb ca \<and> cc_remoteId ca = cc_localId cb \<and> cc_remoteId cb = cc_localId ca"
  using assms by (rule open_accept)

theorem open_links_both_ends_witness:
  "\<exists>ra p A1 rb B1 cb pcB q A2 ca. open_request ''session'' [] newMux = ((None, ra), A1) \<and> pc_out (mx_conn A1) = [p]
     \<and> onePacket demo_sel p newMux = Ret (None, B1) \<and> Accept (mx_store B1 ! rb, mx_conn B1) = (None, (cb, pcB))
     \<and> pc_out pcB = [q] \<and> onePacket demo_sel q A1 = Ret (None, A2) \<and> open_answer demo_sel (mx_store A2 ! ra) = (Some None, ca)
     \<and> linked ca cb"
proof -
  have m: "mux_wf (Suc 0) newMux" by (rule mux_wf_new) simp
  obtain ra p A1 rb B1 cb q pcB A2 ca where
      "open_request ''session'' [] newMux = ((None, ra), A1)" "pc_out (mx_conn A1) = pc_out (mx_conn newMux) @ [p]"
      "onePacket demo_sel p newMux = Ret (None, B1)" "mx_incomingChannels B1 = mx_incomingChannels newMux @ [rb]"
      "Accept (mx_store B1 ! rb, mx_conn B1) = (None, (cb, pcB))" "pc_out pcB = pc_out (mx_conn newMux) @ [q]"
      "onePacket demo_sel q A1 = Ret (None, A2)" "open_answer demo_sel (mx_store A2 ! ra) = (Some None, ca)" "linked ca cb"
    using open_links_both_ends [OF m m, of demo_sel "''session''" "[]"]
    by (auto simp: newMux_def demo_sel_def chanSize_def)
  moreover have "mx_conn newMux = conn []" "mx_incomingChannels newMux = []" by (simp_all add: newMux_def)
  ultimately show ?thesis by simp blast
qed

end
