(* ===== verification/Serve_Proofs.thy ===== *)
theory Serve_Proofs
  imports Serve Mux_Open
begin

section \<open>Correctness of serving channels\<close>

text \<open>
  A client's forwarding request reaches the server's dialler unchanged; which requests of a
  session end the server's process; which are never answered.
\<close>

subsection \<open>Direct forwarding\<close>

lemma parse_prefix_ok: "parse_fields ks data = Inr (vs, rest) \<Longrightarrow> parse_prefix ks data = vs"
  by (induction ks arbitrary: data vs) (auto split: sum.split_asm)

lemma direct_msg_dialDirect:
  assumes "length laddr + length raddr < 2 ^ 31"
  shows "direct_msg (dialDirect laddr lport raddr rport) = (raddr, word_of_int rport)"
proof -
  let ?vs = "[VStr raddr, VU32 (word_of_int rport), VStr laddr, VU32 (word_of_int lport)]"
  let ?ks = "[KString, KU32, KString, KU32]"
  have m: "dialDirect laddr lport raddr rport = marshal_fields ?ks ?vs []"
    by (simp add: dialDirect_def Marshal_def channelOpenDirectMsg_def)
  have "length (marshal_fields ?ks ?vs []) = 16 + length laddr + length raddr"
    by (simp add: marshal_field_def appendInt_def appendU32_def)
  then have "small (marshal_fields ?ks ?vs [])" "marshal_fields ?ks ?vs [] \<noteq> []" using assms by (auto simp: small_def)
  moreover have "fits_fields ?ks ?vs" by (simp add: has_kind_def)
  ultimately have "parse_prefix ?ks (marshal_fields ?ks ?vs []) = ?vs"
    using parse_enc_fields [of ?ks ?vs] parse_prefix_ok by blast
  with \<open>marshal_fields ?ks ?vs [] \<noteq> []\<close> show ?thesis unfolding m direct_msg_def channelOpenDirectMsg_def
    by (simp add: str_at_def u32_at_def Let_def)
qed

lemma direct_target_dial:
  assumes "length laddr + length raddr < 2 ^ 31" "0 \<le> rport" "rport < 65536" "rport \<noteq> 1"
  shows "direct_target ca (dialDirect laddr lport raddr rport) = Ret (DialTcp (raddr @ '':'' @ show_int rport))"
proof -
  have u: "unat (word_of_int rport :: u32) = nat rport" using assms(2,3) by (simp add: unat_eq_nat_uint uint_word_of_int)
  have "nat rport < 65536" "nat rport \<noteq> 1" using assms(2-4) by auto
  then have "(word_of_int rport :: u32) \<noteq> minus2_uint32" "(word_of_int rport :: u32) \<noteq> 1"
    using u by (auto simp: minus2_uint32_def word_unat_eq_iff)
  then show ?thesis using direct_msg_dialDirect [OF assms(1)] u assms(2) by (simp add: direct_target_def show_int_def)
qed

lemma direct_target_unix:
  "length path < 2 ^ 30 \<Longrightarrow> direct_target ca (DialRemoteUnixDomain path) = Ret (DialUnix path)"
  using direct_msg_dialDirect [of "''0.0.0.0''" path 0 "- 2"]
  by (simp add: DialRemoteUnixDomain_def direct_target_def minus2_uint32_def)

lemma direct_target_one:
  assumes "length laddr + length raddr < 2 ^ 31"
  shows "direct_target ca (dialDirect laddr lport raddr 1) = (if ca then Ret HandPortOne else Panic ''wat?'')"
  using direct_msg_dialDirect [OF assms, of lport 1] by (simp add: direct_target_def minus2_uint32_def)

text \<open>A channel that was accepted is not rejected any more.\<close>

lemma Accept_decided: "Accept st = (None, st') \<Longrightarrow> cc_decided (fst st')"
  by (cases st) (auto simp: Accept_def sendMessage_def writePacket_def Let_def split: if_split_asm prod.split_asm)

lemma Reject_decided: "cc_decided (fst st) \<Longrightarrow> Reject r text st = (Some ErrDecidedAlready, st)"
  by (cases st) (simp add: Reject_def)

lemma handleChannel_direct:
  assumes "cc_chanType (fst st) = ''direct-tcpip''" "Accept st = (None, st')"
    and "direct_target ca (cc_extraData (fst st)) = Ret a"
  shows "handleChannel (\<lambda>_. False) ca st = Ret ([ADirect a], st')"
  using assms Accept_decided [OF assms(2)] Reject_decided [of st']
  by (simp add: handleChannel_def handleDirectTcp_def Let_def)

text \<open>
  C28: a forwarding request is served as it was made.  When a client opens a direct channel for a
  host and a port, the server's handler accepts it and dials that host and port, and the two ends
  of the channel are linked; for a path it dials the unix-domain socket with that path (the port
  is \<open>-2\<close>, sent as \<open>2^32 - 2\<close>).  A request for port one is handed to the listener, and ends the
  server's process when there is none.  (No handler of the user for direct channels is installed, and there is room for the channel.)
\<close>

theorem forwarding_request_served:
  assumes "mux_wf (Suc n) A" "mux_wf (Suc n) B" "pc_fail (mx_conn A) = None" "pc_fail (mx_conn B) = None"
    and "\<not> sl_stop sl" "length (mx_incomingChannels B) < chanSize"
    and "length laddr + length raddr < 2 ^ 30" "0 \<le> rport" "rport < 65536" "rport \<noteq> 1" "length path < 2 ^ 30"
    and req: "(x, a) \<in> {(dialDirect laddr lport raddr rport, DialTcp (raddr @ '':'' @ show_int rport)),
                          (DialRemoteUnixDomain path, DialUnix path), (dialDirect laddr lport raddr 1, HandPortOne)}"
  shows "(\<exists>ra p A1 rb B1 cb q pcB A2 ca.
     open_request ''direct-tcpip'' x A = ((None, ra), A1) \<and> pc_out (mx_conn A1) = pc_out (mx_conn A) @ [p]
   \<and> onePacket sl p B = Ret (None, B1) \<and> mx_incomingChannels B1 = mx_incomingChannels B @ [rb]
   \<and> handleChannel (\<lambda>_. False) True (mx_store B1 ! rb, mx_conn B1) = Ret ([ADirect a], (cb, pcB))
   \<and> pc_out pcB = pc_out (mx_conn B) @ [q]
   \<and> onePacket sl q A1 = Ret (None, A2) \<and> open_answer sl (mx_store A2 ! ra) = (Some None, ca)
   \<and> linked ca cb \<and> linked cb ca)
   \<and> direct_target False (dialDirect laddr lport raddr 1) = Panic ''wat?''"
proof -
  have t: "direct_target True x = Ret a"
    using req assms(7-11) by (auto simp: direct_target_dial direct_target_unix direct_target_one)
  have len: "length ''direct-tcpip'' + length x < 2 ^ 31"
    using req assms(7,11) by (auto simp: DialRemoteUnixDomain_def dialDirect_def Marshal_def channelOpenDirectMsg_def
        marshal_field_def appendInt_def appendU32_def)
  from open_accept [OF assms(1-6) len] obtain ra p A1 rb B1 cb q pcB A2 ca where
      s: "open_request ''direct-tcpip'' x A = ((None, ra), A1)" "pc_out (mx_conn A1) = pc_out (mx_conn A) @ [p]"
      "onePacket sl p B = Ret (None, B1)" "mx_incomingChannels B1 = mx_incomingChannels B @ [rb]"
      and c: "cc_chanType (mx_store B1 ! rb) = ''direct-tcpip''" "cc_extraData (mx_store B1 ! rb) = x"
        "Accept (mx_store B1 ! rb, mx_conn B1) = (None, (cb, pcB))"
      and e: "pc_out pcB = pc_out (mx_conn B) @ [q]" "onePacket sl q A1 = Ret (None, A2)"
      "open_answer sl (mx_store A2 ! ra) = (Some None, ca)" "linked ca cb" "linked cb ca"
    by blast
  have h: "handleChannel (\<lambda>_. False) True (mx_store B1 ! rb, mx_conn B1) = Ret ([ADirect a], (cb, pcB))"
    by (rule handleChannel_direct) (simp_all add: c t)
  have "direct_target False (dialDirect laddr lport raddr 1) = Panic ''wat?''"
    using assms(7) by (simp add: direct_target_one)
  with s h e show ?thesis by blast
qed

theorem forwarding_request_served_witness:
  "\<exists>ra A1 p rb B1 cb pcB. open_request ''direct-tcpip'' (dialDirect [] 0 ''db'' 80) newMux = ((None, ra), A1)
     \<and> pc_out (mx_conn A1) = [p] \<and> onePacket demo_sel p newMux = Ret (None, B1)
     \<and> handleChannel (\<lambda>_. False) True (mx_store B1 ! rb, mx_conn B1)
         = Ret ([ADirect (DialTcp (''db'' @ '':'' @ show_int 80))], (cb, pcB))"
proof -
  have m: "mux_wf (Suc 0) newMux" by (rule mux_wf_new) simp
  have c: "mx_conn newMux = conn []" "mx_incomingChannels newMux = []" by (simp_all add: newMux_def)
  from forwarding_request_served [OF m m, of demo_sel "[]" "''db''" 80 "[]" "dialDirect [] 0 ''db'' 80"
      "DialTcp (''db'' @ '':'' @ show_int 80)" 0]
  show ?thesis unfolding c by (simp add: c demo_sel_def chanSize_def) blast
qed

subsection \<open>Requests of a session\<close>

lemma term_offset_mod: "term_offset p = (of_char (p ! 3) + 4) mod 256"
  by (simp add: term_offset_def unat_word_ariths unat_of_nat)

lemma parseDims_Panic: "(\<exists>s. bind_go (parseDims b) (\<lambda>d. Ret (f d)) = Panic s) \<longleftrightarrow> length b < 8"
  by (simp add: parseDims_def)

text \<open>
  C40: exactly which requests of a session end the server's process: a terminal request shorter
  than the four bytes of its length or than the dimensions behind the terminal name - whose length
  is read from one byte and added to 4 modulo 256 - and a change of the window with fewer than
  eight bytes.  Every other request is survived, and of these only a terminal request and a plain
  shell request are ever answered.
\<close>

theorem session_request_panics_iff:
  "((\<exists>s. session_request rq = Panic s) \<longleftrightarrow>
      rq_Type rq = ''pty-req'' \<and> (length (rq_Payload rq) < 4 \<or> length (rq_Payload rq) < term_offset (rq_Payload rq) + 8)
    \<or> rq_Type rq = ''window-change'' \<and> length (rq_Payload rq) < 8)
   \<and> (\<forall>dims. session_request rq = Ret (True, dims) \<longrightarrow>
        rq_Type rq = ''pty-req'' \<or> rq_Type rq = ''shell'' \<and> rq_Payload rq = [])
   \<and> term_offset (rq_Payload rq) = (of_char (rq_Payload rq ! 3) + 4) mod 256"
proof -
  have "length (drop (term_offset (rq_Payload rq)) (rq_Payload rq)) < 8 \<longleftrightarrow> length (rq_Payload rq) < term_offset (rq_Payload rq) + 8"
    if "term_offset (rq_Payload rq) \<le> length (rq_Payload rq)" using that by auto
  then show ?thesis
    by (auto simp: session_request_def Let_def parseDims_Panic term_offset_mod [symmetric] bind_go_Ret_iff
        not_less split: if_split_asm)
qed

theorem session_request_panics_iff_witness:
  "\<exists>s. session_request \<lparr>rq_Type = ''pty-req'', rq_WantReply = True, rq_Payload = [], rq_ch = Some 0\<rparr> = Panic s"
  using session_request_panics_iff [of "\<lparr>rq_Type = ''pty-req'', rq_WantReply = True, rq_Payload = [], rq_ch = Some 0\<rparr>"]
  by simp

end
