(* ===== verification/Halter.thy ===== *)
theory Halter
  imports Go_Prelude
begin

section \<open>Halters: stopping a tree of goroutines\<close>

text \<open>
  \<^verbatim>\<open>halter.go\<close> of the ssh library in \<^verbatim>\<open>xendor/github.com/glycerine/xcryptossh\<close> and the halters of
  \<^verbatim>\<open>shovel.go\<close>.  A halter is three channels that are closed once - a flag each - an error and the
  halters above and below it; halters are referred to by their index in a store.

  \<open>RequestStop\<close> holds the mutex of a halter while it tells the ones below, so that a halter that is
  reached again is locked and the call blocks for ever: \<open>held\<close> lists the locked ones.  The first
  argument of \<open>request_stop\<close> bounds the nested calls, and one more than the number of halters is
  enough, since the locked ones are distinct.  The halters below one are listed in any order, as the
  iteration over a Go map is.
\<close>

subsection \<open>State\<close>

record halter =
  ha_ready :: bool
  ha_done :: bool
  ha_reqStop :: bool
  ha_err :: "string option"
  ha_upstream :: "nat list"
  ha_downstream :: "nat list"

type_synonym halters = "halter list"

definition NewHalter :: halter where
  "NewHalter = \<lparr>ha_ready = False, ha_done = False, ha_reqStop = False, ha_err = None, ha_upstream = [], ha_downstream = []\<rparr>"

text \<open>\<open>IdemCloseChan.Close\<close>: nil the first time, the error afterwards; never closed twice.\<close>

datatype close_err = ErrAlreadyClosed

definition idem_close :: "bool \<Rightarrow> close_err option \<times> bool" where
  "idem_close closed = (if closed then Some ErrAlreadyClosed else None, True)"

definition upd :: "nat \<Rightarrow> (halter \<Rightarrow> halter) \<Rightarrow> halters \<Rightarrow> halters" where
  "upd i f hs = hs[i := f (hs ! i)]"

definition SetErr :: "string option \<Rightarrow> nat \<Rightarrow> halters \<Rightarrow> halters" where
  "SetErr e i hs = upd i (\<lambda>h. h\<lparr>ha_err := e\<rparr>) hs"

definition MarkReady :: "nat \<Rightarrow> halters \<Rightarrow> halters" where
  "MarkReady i hs = upd i (\<lambda>h. h\<lparr>ha_ready := snd (idem_close (ha_ready h))\<rparr>) hs"

subsection \<open>Links\<close>

definition addUpstream :: "nat \<Rightarrow> nat \<Rightarrow> halters \<Rightarrow> halters" where
  "addUpstream u d hs = upd d (\<lambda>h. h\<lparr>ha_upstream := List.insert u (ha_upstream h)\<rparr>) hs"

definition removeUpstream :: "nat \<Rightarrow> nat \<Rightarrow> halters \<Rightarrow> halters" where
  "removeUpstream u d hs = upd d (\<lambda>h. h\<lparr>ha_upstream := removeAll u (ha_upstream h)\<rparr>) hs"

definition AddDownstream :: "nat \<Rightarrow> nat \<Rightarrow> halters \<Rightarrow> halters" where
  "AddDownstream u d hs = addUpstream u d (upd u (\<lambda>h. h\<lparr>ha_downstream := List.insert d (ha_downstream h)\<rparr>) hs)"

definition RemoveDownstream :: "nat \<Rightarrow> nat \<Rightarrow> halters \<Rightarrow> halters" where
  "RemoveDownstream u d hs = removeUpstream u d (upd u (\<lambda>h. h\<lparr>ha_downstream := removeAll d (ha_downstream h)\<rparr>) hs)"

subsection \<open>Stopping\<close>

definition close_reqStop :: "nat \<Rightarrow> halters \<Rightarrow> halters" where
  "close_reqStop i hs = upd i (\<lambda>h. h\<lparr>ha_reqStop := snd (idem_close (ha_reqStop h))\<rparr>) hs"

fun request_stop :: "nat \<Rightarrow> nat list \<Rightarrow> nat \<Rightarrow> halters \<Rightarrow> halters go"
and stop_all :: "nat \<Rightarrow> nat list \<Rightarrow> nat list \<Rightarrow> halters \<Rightarrow> halters go" where
  "request_stop 0 held i hs = Hang"
| "request_stop (Suc n) held i hs =
     (let hs1 = close_reqStop i hs in
      if i \<in> set held then Hang
      else stop_all n (i # held) (ha_downstream (hs1 ! i)) hs1)"
| "stop_all n held [] hs = Ret hs"
| "stop_all n held (d # ds) hs = bind_go (request_stop n held d hs) (\<lambda>hs1. stop_all n held ds hs1)"

definition RequestStop :: "nat \<Rightarrow> halters \<Rightarrow> halters go" where
  "RequestStop i hs = request_stop (Suc (length hs)) [] i hs"

text \<open>The wait for the halters below; None while one of them is not done.\<close>

fun wait_downstream :: "nat \<Rightarrow> nat list \<Rightarrow> halters \<Rightarrow> halters option" where
  "wait_downstream h [] hs = Some hs"
| "wait_downstream h (d # ds) hs = (if ha_done (hs ! d) then wait_downstream h ds (removeUpstream h d hs) else None)"

definition close_done :: "nat \<Rightarrow> halters \<Rightarrow> halters" where
  "close_done i hs = upd i (\<lambda>h. h\<lparr>ha_done := snd (idem_close (ha_done h))\<rparr>) hs"

text \<open>\<open>MarkDone\<close> returns only once all the halters below are done: \<open>Ret None\<close> is a call that waits.\<close>

definition MarkDone :: "nat \<Rightarrow> halters \<Rightarrow> halters option go" where
  "MarkDone i hs =
     bind_go (RequestStop i hs) (\<lambda>hs1.
       Ret (map_option (close_done i) (wait_downstream i (ha_downstream (hs1 ! i)) hs1)))"

definition MarkDoneNoBlock :: "nat \<Rightarrow> halters \<Rightarrow> halters go" where
  "MarkDoneNoBlock i hs = bind_go (RequestStop i hs) (\<lambda>hs1. Ret (close_done i hs1))"

record run_status =
  rs_Ready :: bool
  rs_StopRequested :: bool
  rs_Done :: bool
  rs_Err :: "string option"

definition Status :: "halter \<Rightarrow> run_status" where
  "Status h = \<lparr>rs_Ready = ha_ready h, rs_StopRequested = ha_reqStop h, rs_Done = ha_done h,
     rs_Err = (if ha_done h then ha_err h else None)\<rparr>"

text \<open>
  \<open>MAD\<close>: the goroutine that ties a halter to a context.  A turn of its loop by the case the \<^verbatim>\<open>select\<close>
  takes, None when that case is not ready: the context's channel is cancelled and not yet set to
  nil, or one of the halter's two channels is closed and they are not yet set to nil.  It ends when
  it has seen both.  \<open>cancelctx\<close> says whether a cancel function was given.
\<close>

record mad =
  mad_cancelled :: bool
  mad_halt :: halter
  mad_cDone :: bool
  mad_hDone :: bool

datatype mad_case = CtxDone | HaltDone

definition MAD_turn :: "bool \<Rightarrow> mad_case \<Rightarrow> mad \<Rightarrow> mad option" where
  "MAD_turn cancelctx c m =
     (if mad_cDone m \<and> mad_hDone m then None
      else case c of
        CtxDone \<Rightarrow>
          (if mad_cancelled m \<and> \<not> mad_cDone m
           then Some (m\<lparr>mad_halt := (mad_halt m)\<lparr>ha_reqStop := True, ha_done := True\<rparr>, mad_cDone := True\<rparr>)
           else None)
      | HaltDone \<Rightarrow>
          (if (ha_reqStop (mad_halt m) \<or> ha_done (mad_halt m)) \<and> \<not> mad_hDone m
           then Some (m\<lparr>mad_cancelled := (mad_cancelled m \<or> cancelctx), mad_hDone := True\<rparr>)
           else None))"

text \<open>The halters of a pair of shovels: the pair, and the shovel of each direction below it.\<close>

definition newShovelPair :: halters where
  "newShovelPair = AddDownstream 0 2 (AddDownstream 0 1 [NewHalter, NewHalter, NewHalter])"

end
