(* ===== verification/Halter_Proofs.thy ===== *)
theory Halter_Proofs
  imports Halter
begin

section \<open>A stop request reaches exactly the halters below\<close>

text \<open>
  The links between halters as a relation, the effect of a stop request as a set of halters whose
  flag is raised, and the theorem that \<open>RequestStop\<close> has this effect whenever no cycle can be
  reached, and never returns when one can.
\<close>

subsection \<open>The specification\<close>

definition below :: "halters \<Rightarrow> (nat \<times> nat) set" where
  "below hs = {(u, d). u < length hs \<and> d \<in> set (ha_downstream (hs ! u))}"

definition halters_wf :: "halters \<Rightarrow> bool" where
  "halters_wf hs \<longleftrightarrow> (\<forall>u < length hs. \<forall>d \<in> set (ha_downstream (hs ! u)). d < length hs)"

definition raise_stop :: "nat set \<Rightarrow> halters \<Rightarrow> halters" where
  "raise_stop S hs = map (\<lambda>k. if k \<in> S then (hs ! k)\<lparr>ha_reqStop := True\<rparr> else hs ! k) [0..<length hs]"

definition cyclic_from :: "(nat \<times> nat) set \<Rightarrow> nat \<Rightarrow> bool" where
  "cyclic_from R i \<longleftrightarrow> (\<exists>k. (i, k) \<in> R\<^sup>* \<and> (k, k) \<in> R\<^sup>+)"

subsection \<open>Raising flags\<close>

lemma length_raise_stop [simp]: "length (raise_stop S hs) = length hs"
  by (simp add: raise_stop_def)

lemma nth_raise_stop:
  "k < length hs \<Longrightarrow> raise_stop S hs ! k = (if k \<in> S then (hs ! k)\<lparr>ha_reqStop := True\<rparr> else hs ! k)"
  by (simp add: raise_stop_def)

lemma raise_stop_raise_stop: "raise_stop S (raise_stop T hs) = raise_stop (S \<union> T) hs"
  by (rule nth_equalityI) (simp_all add: nth_raise_stop)

lemma raise_stop_empty [simp]: "raise_stop {} hs = hs"
  by (rule nth_equalityI) (simp_all add: nth_raise_stop)

lemma close_reqStop_raise: "i < length hs \<Longrightarrow> close_reqStop i hs = raise_stop {i} hs"
  by (rule nth_equalityI) (auto simp: close_reqStop_def upd_def idem_close_def nth_raise_stop nth_list_update)

lemma downstream_raise [simp]: "k < length hs \<Longrightarrow> ha_downstream (raise_stop S hs ! k) = ha_downstream (hs ! k)"
  by (simp add: nth_raise_stop)

lemma below_raise [simp]: "below (raise_stop S hs) = below hs"
  by (auto simp: below_def)

lemma halters_wf_raise [simp]: "halters_wf (raise_stop S hs) = halters_wf hs"
  by (simp add: halters_wf_def)

subsection \<open>The recursion\<close>

lemma belowI: "i < length hs \<Longrightarrow> d \<in> set (ha_downstream (hs ! i)) \<Longrightarrow> (i, d) \<in> below hs"
  by (simp add: below_def)

lemma reach_unfold:
  assumes "i < length hs"
  shows "(below hs)\<^sup>* `` {i} = {i} \<union> (below hs)\<^sup>* `` set (ha_downstream (hs ! i))"
  using assms by (auto simp: below_def elim: converse_rtranclE intro: converse_rtrancl_into_rtrancl)

lemma held_bound:
  assumes "distinct held" "set held \<subseteq> {..<N}"
  shows "length held \<le> N"
  using assms card_mono [of "{..<N}" "set held"] by (simp add: distinct_card)

lemma cyclic_step: "(i, d) \<in> R \<Longrightarrow> cyclic_from R d \<Longrightarrow> cyclic_from R i"
  unfolding cyclic_from_def by (meson converse_rtrancl_into_rtrancl)

definition stop_ready :: "nat \<Rightarrow> nat list \<Rightarrow> nat \<Rightarrow> halters \<Rightarrow> bool" where
  "stop_ready n held i hs \<longleftrightarrow>
     halters_wf hs \<and> i < length hs \<and> \<not> cyclic_from (below hs) i \<and>
     distinct held \<and> set held \<subseteq> {..<length hs} \<and> (\<forall>h \<in> set held. (h, i) \<in> (below hs)\<^sup>+) \<and>
     n + length held = Suc (length hs)"

lemma stop_ready_not_held: "stop_ready n held i hs \<Longrightarrow> i \<notin> set held"
  by (auto simp: stop_ready_def cyclic_from_def)

lemma stop_ready_fuel: "\<not> stop_ready 0 held i hs"
  using held_bound [of held "length hs"] by (auto simp: stop_ready_def)

lemma stop_ready_down:
  assumes "stop_ready (Suc n) held i hs" "d \<in> set (ha_downstream (hs ! i))"
  shows "stop_ready n (i # held) d hs"
proof -
  have id: "(i, d) \<in> below hs" using assms by (simp add: stop_ready_def belowI)
  moreover have "d < length hs" using assms by (auto simp: stop_ready_def halters_wf_def)
  moreover have "\<not> cyclic_from (below hs) d" using assms(1) cyclic_step [OF id] by (auto simp: stop_ready_def)
  moreover have "(h, d) \<in> (below hs)\<^sup>+" if "h \<in> set held" for h
    using assms(1) that id by (auto simp: stop_ready_def intro: trancl_into_trancl)
  ultimately show ?thesis
    using assms(1) stop_ready_not_held [OF assms(1)] by (auto simp: stop_ready_def)
qed

lemma stop_ready_raise [simp]: "stop_ready n held i (raise_stop S hs) = stop_ready n held i hs"
  by (simp add: stop_ready_def)

lemma stop_raises:
  shows "stop_ready n held i hs \<Longrightarrow>
           request_stop n held i hs = Ret (raise_stop ((below hs)\<^sup>* `` {i}) hs)"
  and "(\<forall>d \<in> set ds. stop_ready n held d hs) \<Longrightarrow>
           stop_all n held ds hs = Ret (raise_stop ((below hs)\<^sup>* `` set ds) hs)"
proof (induction n held i hs and n held ds hs rule: request_stop_stop_all.induct)
  case (2 n held i hs)
  let ?hs1 = "raise_stop {i} hs"
  have i: "i < length hs" using 2(2) by (simp add: stop_ready_def)
  have ni: "i \<notin> set held" using stop_ready_not_held [OF 2(2)] .
  have "\<forall>d \<in> set (ha_downstream (?hs1 ! i)). stop_ready n (i # held) d ?hs1"
    using stop_ready_down [OF 2(2)] i by simp
  from 2(1) [OF refl, unfolded close_reqStop_raise [OF i], OF ni this] show ?case
    using ni i reach_unfold [OF i] by (simp add: close_reqStop_raise Let_def raise_stop_raise_stop Un_commute)
next
  case (4 n held d ds hs)
  let ?hs1 = "raise_stop ((below hs)\<^sup>* `` {d}) hs"
  have "request_stop n held d hs = Ret ?hs1" using 4 by simp
  moreover have "stop_all n held ds ?hs1 = Ret (raise_stop ((below hs)\<^sup>* `` set ds) ?hs1)"
    using 4(2) [of ?hs1] 4(3) by simp
  ultimately show ?case
    by (simp add: raise_stop_raise_stop Un_commute Image_Un [symmetric])
qed (simp_all add: stop_ready_fuel)

text \<open>A call that returns has met no cycle and no locked halter, and changed no link.\<close>

definition met :: "nat list \<Rightarrow> halters \<Rightarrow> nat \<Rightarrow> bool" where
  "met held hs i \<longleftrightarrow> (\<forall>k. (i, k) \<in> (below hs)\<^sup>* \<longrightarrow> k \<notin> set held \<and> (k, k) \<notin> (below hs)\<^sup>+)"

lemma met_unfold:
  assumes "i \<notin> set held" "\<forall>d. (i, d) \<in> below hs \<longrightarrow> met (i # held) hs d"
  shows "met held hs i"
  unfolding met_def
proof (intro allI impI)
  fix k assume "(i, k) \<in> (below hs)\<^sup>*"
  then show "k \<notin> set held \<and> (k, k) \<notin> (below hs)\<^sup>+"
  proof (cases rule: converse_rtranclE)
    case base
    have "(i, i) \<notin> (below hs)\<^sup>+"
      using assms(2) by (auto simp: met_def dest!: tranclD)
    then show ?thesis using base assms(1) by simp
  next
    case (step d)
    then show ?thesis using assms(2) by (auto simp: met_def)
  qed
qed

definition same_links :: "halters \<Rightarrow> halters \<Rightarrow> bool" where
  "same_links hs hs' \<longleftrightarrow> length hs' = length hs \<and> below hs' = below hs"

lemma halters_wf_below: "halters_wf hs \<longleftrightarrow> (\<forall>(u, d) \<in> below hs. d < length hs)"
  by (auto simp: halters_wf_def below_def)

lemma same_links_wf: "same_links hs hs' \<Longrightarrow> halters_wf hs' = halters_wf hs"
  by (simp add: same_links_def halters_wf_below)

lemma same_links_met: "same_links hs hs' \<Longrightarrow> met held hs' i = met held hs i"
  by (simp add: same_links_def met_def)

lemma same_links_raise [simp]: "same_links hs (raise_stop S hs)"
  by (simp add: same_links_def)

lemma same_links_trans: "same_links a b \<Longrightarrow> same_links b c \<Longrightarrow> same_links a c"
  by (simp add: same_links_def)

lemma stop_met:
  shows "request_stop n held i hs = Ret hs' \<Longrightarrow> halters_wf hs \<Longrightarrow> i < length hs \<Longrightarrow>
           met held hs i \<and> same_links hs hs'"
  and "stop_all n held ds hs = Ret hs' \<Longrightarrow> halters_wf hs \<Longrightarrow> (\<forall>d \<in> set ds. d < length hs) \<Longrightarrow>
           (\<forall>d \<in> set ds. met held hs d) \<and> same_links hs hs'"
proof (induction n held i hs and n held ds hs arbitrary: hs' and hs' rule: request_stop_stop_all.induct)
  case (2 n held i hs)
  let ?hs1 = "raise_stop {i} hs"
  have ni: "i \<notin> set held" using 2(2) by (auto simp: Let_def)
  have r: "stop_all n (i # held) (ha_downstream (?hs1 ! i)) ?hs1 = Ret hs'"
    using 2(2,4) ni by (simp add: close_reqStop_raise)
  have "\<forall>d \<in> set (ha_downstream (?hs1 ! i)). d < length ?hs1"
    using 2(3,4) by (simp add: halters_wf_def)
  with 2(1) [OF refl, unfolded close_reqStop_raise [OF 2(4)], OF ni r] 2(3,4)
  have d: "\<forall>d \<in> set (ha_downstream (hs ! i)). met (i # held) ?hs1 d" and l: "same_links ?hs1 hs'"
    by simp_all
  have "met held hs i"
    using d by (intro met_unfold [OF ni]) (auto simp: same_links_met [OF same_links_raise] below_def)
  then show ?case using same_links_trans [OF same_links_raise l] by simp
next
  case (4 n held d ds hs)
  obtain hs1 where 1: "request_stop n held d hs = Ret hs1" and 2: "stop_all n held ds hs1 = Ret hs'"
    using 4(3) by (auto simp: bind_go_Ret_iff)
  have m: "met held hs d" and l: "same_links hs hs1" using 4(1) [OF 1] 4(4,5) by simp_all
  have "(\<forall>d \<in> set ds. met held hs1 d) \<and> same_links hs1 hs'"
    using 4(2) [OF 2] 4(4,5) l same_links_wf [OF l] by (simp add: same_links_def)
  then show ?case using m l by (auto simp: same_links_met [OF l] intro: same_links_trans)
qed (simp_all add: same_links_def)

lemma bind_go_total:
  "m = Hang \<or> (\<exists>x. m = Ret x) \<Longrightarrow> (\<And>x. m = Ret x \<Longrightarrow> f x = Hang \<or> (\<exists>y. f x = Ret y)) \<Longrightarrow>
   bind_go m f = Hang \<or> (\<exists>y. bind_go m f = Ret y)"
  by auto

lemma stop_total:
  "request_stop n held i hs = Hang \<or> (\<exists>hs'. request_stop n held i hs = Ret hs')"
  "stop_all n held ds hs = Hang \<or> (\<exists>hs'. stop_all n held ds hs = Ret hs')"
proof (induction n held i hs and n held ds hs rule: request_stop_stop_all.induct)
  case (4 n held d ds hs)
  show ?case unfolding stop_all.simps by (rule bind_go_total [OF 4(1) 4(2)])
qed (simp_all add: Let_def)

lemma RequestStop_total: "RequestStop i hs = Hang \<or> (\<exists>hs'. RequestStop i hs = Ret hs')"
  unfolding RequestStop_def by (rule stop_total)

subsection \<open>The theorem\<close>

text \<open>
  C30: A stop request on a halter raises the stop flag of that halter and of every halter below it,
  directly or through others, and changes nothing else: it returns with exactly these flags raised
  whenever the halters below it have no cycle among them.  When a cycle of links can be reached, the
  call meets a halter it has locked itself and never returns.
\<close>

theorem stop_reaches_descendants:
  assumes "halters_wf hs" and "i < length hs"
  shows "RequestStop i hs =
    (if cyclic_from (below hs) i then Hang else Ret (raise_stop ((below hs)\<^sup>* `` {i}) hs))"
proof (cases "cyclic_from (below hs) i")
  case True
  have "\<nexists>hs'. RequestStop i hs = Ret hs'"
    using stop_met(1) [OF _ assms] True
    by (auto simp only: RequestStop_def cyclic_from_def met_def)
  then show ?thesis using True RequestStop_total [of i hs] by auto
next
  case False
  have "stop_ready (Suc (length hs)) [] i hs" using False assms by (simp add: stop_ready_def)
  from stop_raises(1) [OF this] show ?thesis using False by (simp add: RequestStop_def)
qed

lemma newShovelPair_links: "below newShovelPair = {(0, 1), (0, 2)}"
proof -
  have p: "newShovelPair =
    [NewHalter\<lparr>ha_downstream := [2, 1]\<rparr>, NewHalter\<lparr>ha_upstream := [0]\<rparr>, NewHalter\<lparr>ha_upstream := [0]\<rparr>]"
    by (simp add: newShovelPair_def AddDownstream_def addUpstream_def upd_def NewHalter_def)
  show ?thesis
    unfolding p below_def by (auto simp: NewHalter_def less_Suc_eq numeral_2_eq_2)
qed

lemma newShovelPair_reach: "(below newShovelPair)\<^sup>* `` {0} = {0, 1, 2}"
  unfolding newShovelPair_links by (auto elim: rtranclE)

lemma newShovelPair_acyclic: "\<not> cyclic_from (below newShovelPair) i"
proof -
  have "below newShovelPair \<subseteq> {(a, b). a < b}" by (simp add: newShovelPair_links)
  then have "acyclic (below newShovelPair)"
    using acyclic_subset [OF wf_acyclic [OF wf_less]] by blast
  then show ?thesis by (simp add: cyclic_from_def acyclic_def)
qed

theorem stop_reaches_descendants_witness:
  "RequestStop 0 newShovelPair = Ret (raise_stop {0, 1, 2} newShovelPair) \<and>
   halters_wf newShovelPair \<and> length newShovelPair = 3"
proof -
  have l: "length newShovelPair = 3"
    by (simp add: newShovelPair_def AddDownstream_def addUpstream_def upd_def)
  have w: "halters_wf newShovelPair" by (simp add: halters_wf_below newShovelPair_links l)
  show ?thesis
    using stop_reaches_descendants [OF w, of 0] l w
    by (simp add: newShovelPair_acyclic newShovelPair_reach)
qed

subsection \<open>Waiting for the halters below, and for the context\<close>

lemma wait_downstream_done:
  "wait_downstream h ds hs = Some hs' \<Longrightarrow> d \<in> set ds \<Longrightarrow> ha_done (hs ! d)"
proof (induction h ds hs rule: wait_downstream.induct)
  case (2 h e ds hs)
  have "ha_done (removeUpstream h e hs ! d) = ha_done (hs ! d)"
    by (cases "d = e"; cases "e < length hs") (simp_all add: removeUpstream_def upd_def nth_list_update list_update_beyond)
  then show ?case using 2 by (auto split: if_splits)
qed simp

text \<open>\<open>MarkDone\<close> returns only when the halters below are done.\<close>

lemma MarkDone_waits:
  assumes "MarkDone i hs = Ret (Some hs')" and "RequestStop i hs = Ret hs1"
    and "d \<in> set (ha_downstream (hs1 ! i))"
  shows "ha_done (hs1 ! d)"
  using assms by (auto simp: MarkDone_def dest: wait_downstream_done)

text \<open>The goroutine of \<open>MAD\<close> keeps the two ends tied: what it has seen on one side holds on both.\<close>

definition mad_inv :: "bool \<Rightarrow> mad \<Rightarrow> bool" where
  "mad_inv cancelctx m \<longleftrightarrow>
     (mad_cDone m \<longrightarrow> ha_reqStop (mad_halt m) \<and> ha_done (mad_halt m)) \<and>
     (mad_hDone m \<and> cancelctx \<longrightarrow> mad_cancelled m)"

lemma MAD_turn_inv: "MAD_turn cc c m = Some m' \<Longrightarrow> mad_inv cc m \<Longrightarrow> mad_inv cc m'"
  by (auto simp: MAD_turn_def mad_inv_def split: if_splits mad_case.splits)

lemma MAD_never_stuck_half_way:
  assumes "mad_inv True m" and "mad_cDone m \<noteq> mad_hDone m"
  shows "\<exists>c m'. MAD_turn True c m = Some m' \<and> mad_cDone m' \<and> mad_hDone m'"
proof (cases "mad_cDone m")
  case True
  then show ?thesis using assms
    by (intro exI [of _ HaltDone]) (simp add: MAD_turn_def mad_inv_def)
next
  case False
  then show ?thesis using assms
    by (intro exI [of _ CtxDone]) (simp add: MAD_turn_def mad_inv_def)
qed

end
