(* ===== verification/Client_Auth.thy ===== *)
theory Client_Auth
  imports Client Server_Auth_Proofs
begin

section \<open>The login from the client's side\<close>

text \<open>
  \<^verbatim>\<open>client_auth.go\<close> of the ssh library: the authentication methods of a client and the loop
  \<^verbatim>\<open>clientAuthenticate\<close> that tries them, on the bytes of the packets; and the service request
  that opens the login on both sides.

  The connection is the list of packets still to be read (reading past the last one is an error),
  the packets written, and how many more writes will succeed (None: all).  A callback of the user
  may answer differently every time, so each gets the number of callbacks that ran before it on
  this connection.  Signing is a field of the signer, its random source is not modelled.  A list of methods is None where
  the code has the nil slice: a failure message with an empty list is not nil.
\<close>

subsection \<open>Data\<close>

record auth_conn =
  ac_in :: "bytes list"
  ac_out :: "bytes list"
  ac_room :: "nat option"
  ac_calls :: nat

datatype auth_fail =
    ReadFail | WriteFail | Malformed wire_err | Unexpected nat nat | CallbackFail string | SignFail string
  | PromptFormat | ExtraData | AnswerCount | NoMethodsRemain "string list"

record signer =
  sg_PublicKey :: pub_key
  sg_Sign :: "bytes \<Rightarrow> string + string \<times> bytes"

type_synonym challenge_callback = "nat \<Rightarrow> string \<Rightarrow> string \<Rightarrow> string list \<Rightarrow> bool list \<Rightarrow> (string + string list) go"

datatype AuthMethod =
    NoneAuth
  | PasswordCallback "nat \<Rightarrow> string + string"
  | PublicKeysCallback "nat \<Rightarrow> string + signer list"
  | KeyboardInteractive challenge_callback
  | RetryableAuthMethod AuthMethod int

type_synonym 'a attempt = "((auth_fail + 'a) \<times> auth_conn) go"
type_synonym outcome = "bool \<times> string list option"

definition Password :: "string \<Rightarrow> AuthMethod" where
  "Password secret = PasswordCallback (\<lambda>_. Inr secret)"

definition PublicKeys :: "signer list \<Rightarrow> AuthMethod" where
  "PublicKeys signers = PublicKeysCallback (\<lambda>_. Inr signers)"

primrec method_name :: "AuthMethod \<Rightarrow> string" where
  "method_name NoneAuth = ''none''"
| "method_name (PasswordCallback cb) = ''password''"
| "method_name (PublicKeysCallback cb) = ''publickey''"
| "method_name (KeyboardInteractive cb) = ''keyboard-interactive''"
| "method_name (RetryableAuthMethod m n) = method_name m"

subsection \<open>Packets\<close>

definition ac_write :: "bytes \<Rightarrow> auth_conn \<Rightarrow> auth_conn option" where
  "ac_write p c =
     (case ac_room c of
        None \<Rightarrow> Some (c\<lparr>ac_out := ac_out c @ [p]\<rparr>)
      | Some n \<Rightarrow> (if n = 0 then None else Some (c\<lparr>ac_out := ac_out c @ [p], ac_room := Some (n - 1)\<rparr>)))"

definition ac_call :: "auth_conn \<Rightarrow> auth_conn" where
  "ac_call c = c\<lparr>ac_calls := Suc (ac_calls c)\<rparr>"

definition passwordAuthMsg :: schema where
  "passwordAuthMsg = \<lparr>sc_tags = [50], sc_fields = [KString, KString, KString, KBool, KString]\<rparr>"

definition publickeyAuthMsg :: schema where
  "publickeyAuthMsg = \<lparr>sc_tags = [50], sc_fields = [KString, KString, KString, KBool, KString, KBytes, KRest]\<rparr>"

definition initiateMsg :: schema where
  "initiateMsg = \<lparr>sc_tags = [50], sc_fields = [KString, KString, KString, KString, KString]\<rparr>"

definition signatureMsg :: schema where
  "signatureMsg = \<lparr>sc_tags = [], sc_fields = [KString, KBytes]\<rparr>"

text \<open>The request that queries a key, or carries a signature with it.\<close>

definition publickey_request :: "string \<Rightarrow> bool \<Rightarrow> pub_key \<Rightarrow> bytes \<Rightarrow> bytes" where
  "publickey_request user hasSig key sig =
     Marshal publickeyAuthMsg
       [VStr user, VStr ''ssh-connection'', VStr ''publickey'', VBool hasSig, VStr (pk_Type key), VBytes (pk_Marshal key), VBytes sig]"

definition answers_message :: "string list \<Rightarrow> bytes" where
  "answers_message answers =
     fold (\<lambda>a p. appendString p a) answers (appendU32 [char_of (61 :: nat)] (word_of_nat (length answers)))"

subsection \<open>Responses\<close>

text \<open>The end of a request: a failure with the methods that remain, a success, or something else.\<close>

definition final_response :: "nat \<Rightarrow> bytes \<Rightarrow> nat \<Rightarrow> auth_fail + outcome" where
  "final_response expected packet t =
     (if t = 51 then
        (case Unmarshal userAuthFailureMsg packet of
           Inl e \<Rightarrow> Inl (Malformed e)
         | Inr vs \<Rightarrow> (case vs of VNames ms # _ \<Rightarrow> Inr (False, Some ms) | _ \<Rightarrow> Inr (False, None)))
      else if t = 52 then Inr (True, None)
      else Inl (Unexpected expected t))"

function handleAuthResponse :: "auth_conn \<Rightarrow> outcome attempt" where
  "handleAuthResponse c =
     (case ac_in c of
        [] \<Rightarrow> Ret (Inl ReadFail, c)
      | packet # later \<Rightarrow>
          (case packet of
             [] \<Rightarrow> Panic ''index out of range''
           | t # _ \<Rightarrow>
               if of_char t = (53 :: nat) then handleAuthResponse (c\<lparr>ac_in := later\<rparr>)
               else Ret (final_response 52 packet (of_char t), c\<lparr>ac_in := later\<rparr>)))"
  by pat_completeness auto
termination
  by (relation "measure (\<lambda>c. length (ac_in c))") auto

function confirmKeyAck :: "pub_key \<Rightarrow> auth_conn \<Rightarrow> bool attempt" where
  "confirmKeyAck key c =
     (case ac_in c of
        [] \<Rightarrow> Ret (Inl ReadFail, c)
      | packet # later \<Rightarrow>
          (case packet of
             [] \<Rightarrow> Panic ''index out of range''
           | t # _ \<Rightarrow>
               if of_char t = (53 :: nat) then confirmKeyAck key (c\<lparr>ac_in := later\<rparr>)
               else Ret (
                 (if of_char t = (60 :: nat) then
                    (case Unmarshal userAuthPubKeyOkMsg packet of
                       Inl e \<Rightarrow> Inl (Malformed e)
                     | Inr vs \<Rightarrow> Inr (vs = [VStr (pk_Type key), VBytes (pk_Marshal key)]))
                  else if of_char t = (51 :: nat) then Inr False
                  else Inl (Unexpected 52 (of_char t))), c\<lparr>ac_in := later\<rparr>)))"
  by pat_completeness auto
termination
  by (relation "measure (\<lambda>(key, c). length (ac_in c))") auto

declare handleAuthResponse.simps [simp del] confirmKeyAck.simps [simp del]

subsection \<open>The methods\<close>

definition none_auth :: "string \<Rightarrow> auth_conn \<Rightarrow> outcome attempt" where
  "none_auth user c =
     (case ac_write (Marshal userAuthRequestMsg [VStr user, VStr ''ssh-connection'', VStr ''none'', VBytes []]) c of
        None \<Rightarrow> Ret (Inl WriteFail, c)
      | Some c1 \<Rightarrow> handleAuthResponse c1)"

definition password_auth :: "(nat \<Rightarrow> string + string) \<Rightarrow> string \<Rightarrow> auth_conn \<Rightarrow> outcome attempt" where
  "password_auth cb user c =
     (case cb (ac_calls c) of
        Inl e \<Rightarrow> Ret (Inl (CallbackFail e), ac_call c)
      | Inr pw \<Rightarrow>
          (case ac_write (Marshal passwordAuthMsg
                  [VStr user, VStr ''ssh-connection'', VStr ''password'', VBool False, VStr pw]) (ac_call c) of
             None \<Rightarrow> Ret (Inl WriteFail, ac_call c)
           | Some c1 \<Rightarrow> handleAuthResponse c1))"

definition validateKey :: "pub_key \<Rightarrow> string \<Rightarrow> auth_conn \<Rightarrow> bool attempt" where
  "validateKey key user c =
     (case ac_write (publickey_request user False key []) c of
        None \<Rightarrow> Ret (Inl WriteFail, c)
      | Some c1 \<Rightarrow> confirmKeyAck key c1)"

definition containsMethod :: "string list option \<Rightarrow> string \<Rightarrow> bool" where
  "containsMethod methods m \<longleftrightarrow> (case methods of None \<Rightarrow> False | Some ms \<Rightarrow> m \<in> set ms)"

definition signed_request :: "bytes \<Rightarrow> string \<Rightarrow> signer \<Rightarrow> string + bytes" where
  "signed_request session user s =
     (let key = sg_PublicKey s in
      case sg_Sign s (buildDataSignedForAuth session user ''ssh-connection'' ''publickey'' (pk_Type key) (pk_Marshal key)) of
        Inl e \<Rightarrow> Inl e
      | Inr (format, blob) \<Rightarrow>
          Inr (publickey_request user True key (appendString [] (Marshal signatureMsg [VStr format, VBytes blob]))))"

fun signer_loop :: "bytes \<Rightarrow> string \<Rightarrow> signer list \<Rightarrow> string list option \<Rightarrow> auth_conn \<Rightarrow> outcome attempt" where
  "signer_loop session user [] methods c = Ret (Inr (False, methods), c)"
| "signer_loop session user (s # signers) methods c =
     bind_go (validateKey (sg_PublicKey s) user c) (\<lambda>(r, c1).
       case r of
         Inl e \<Rightarrow> Ret (Inl e, c1)
       | Inr ok \<Rightarrow>
           if \<not> ok then signer_loop session user signers methods c1
           else (case signed_request session user s of
               Inl e \<Rightarrow> Ret (Inl (SignFail e), c1)
             | Inr p \<Rightarrow>
                 (case ac_write p c1 of
                    None \<Rightarrow> Ret (Inl WriteFail, c1)
                  | Some c2 \<Rightarrow>
                      bind_go (handleAuthResponse c2) (\<lambda>(r', c3).
                        case r' of
                          Inl e \<Rightarrow> Ret (Inl e, c3)
                        | Inr (success, methods') \<Rightarrow>
                            if success \<or> \<not> containsMethod methods' ''publickey'' then Ret (Inr (success, methods'), c3)
                            else signer_loop session user signers methods' c3))))"

definition publickey_auth :: "(nat \<Rightarrow> string + signer list) \<Rightarrow> bytes \<Rightarrow> string \<Rightarrow> auth_conn \<Rightarrow> outcome attempt" where
  "publickey_auth cb session user c =
     (case cb (ac_calls c) of
        Inl e \<Rightarrow> Ret (Inl (CallbackFail e), ac_call c)
      | Inr signers \<Rightarrow> signer_loop session user signers None (ac_call c))"

text \<open>The prompts of a challenge: so many pairs of a string and a byte, and nothing after them.\<close>

fun parse_prompts :: "nat \<Rightarrow> bytes \<Rightarrow> ((string \<times> bool) list \<times> bytes) option" where
  "parse_prompts 0 rest = Some ([], rest)"
| "parse_prompts (Suc n) rest =
     (case parseString rest of
        None \<Rightarrow> None
      | Some (prompt, r) \<Rightarrow>
          (case r of
             [] \<Rightarrow> None
           | e # rest' \<Rightarrow> map_option (\<lambda>(qs, r'). ((prompt, e \<noteq> CHR 0x00) # qs, r')) (parse_prompts n rest')))"

definition challenge_of :: "bytes \<Rightarrow> auth_fail + string \<times> string \<times> (string \<times> bool) list" where
  "challenge_of packet =
     (case Unmarshal userAuthInfoRequestMsg packet of
        Inl e \<Rightarrow> Inl (Malformed e)
      | Inr vs \<Rightarrow>
          (case vs of
             [VStr user, VStr instruction, VStr _, VU32 n, VBytes prompts] \<Rightarrow>
               (case parse_prompts (unat n) prompts of
                  None \<Rightarrow> Inl PromptFormat
                | Some (qs, rest) \<Rightarrow> if rest \<noteq> [] then Inl ExtraData else Inr (user, instruction, qs))
           | _ \<Rightarrow> Inl PromptFormat))"

function challenge_loop :: "challenge_callback \<Rightarrow> auth_conn \<Rightarrow> outcome attempt" where
  "challenge_loop cb c =
     (case ac_in c of
        [] \<Rightarrow> Ret (Inl ReadFail, c)
      | packet # later \<Rightarrow>
          (case packet of
             [] \<Rightarrow> Panic ''index out of range''
           | t # _ \<Rightarrow>
               if of_char t = (53 :: nat) then challenge_loop cb (c\<lparr>ac_in := later\<rparr>)
               else if of_char t \<noteq> (60 :: nat) then Ret (final_response 60 packet (of_char t), c\<lparr>ac_in := later\<rparr>)
               else (case challenge_of packet of
                   Inl e \<Rightarrow> Ret (Inl e, c\<lparr>ac_in := later\<rparr>)
                 | Inr (user, instruction, qs) \<Rightarrow>
                     (case cb (ac_calls c) user instruction (map fst qs) (map snd qs) of
                        Panic s \<Rightarrow> Panic s
                      | Hang \<Rightarrow> Hang
                      | Ret (Inl e) \<Rightarrow> Ret (Inl (CallbackFail e), ac_call (c\<lparr>ac_in := later\<rparr>))
                      | Ret (Inr answers) \<Rightarrow>
                          if length answers \<noteq> length qs then Ret (Inl AnswerCount, ac_call (c\<lparr>ac_in := later\<rparr>))
                          else (case ac_write (answers_message answers) (ac_call (c\<lparr>ac_in := later\<rparr>)) of
                              None \<Rightarrow> Ret (Inl WriteFail, ac_call (c\<lparr>ac_in := later\<rparr>))
                            | Some c1 \<Rightarrow> challenge_loop cb c1)))))"
  by pat_completeness auto
termination
  by (relation "measure (\<lambda>(cb, c). length (ac_in c))")
     (auto simp: ac_write_def ac_call_def split: option.splits if_splits)

declare challenge_loop.simps [simp del]

definition interactive_auth :: "challenge_callback \<Rightarrow> string \<Rightarrow> auth_conn \<Rightarrow> outcome attempt" where
  "interactive_auth cb user c =
     (case ac_write (Marshal initiateMsg
             [VStr user, VStr ''ssh-connection'', VStr ''keyboard-interactive'', VStr [], VStr []]) c of
        None \<Rightarrow> Ret (Inl WriteFail, c)
      | Some c1 \<Rightarrow> challenge_loop cb c1)"

text \<open>
  The tries of \<open>RetryableAuthMethod\<close>; without a limit the loop may run for ever, so it has fuel, and
  running out of it is \<open>Hang\<close>.
\<close>

fun retry_loop :: "(auth_conn \<Rightarrow> outcome attempt) \<Rightarrow> int \<Rightarrow> nat \<Rightarrow> int \<Rightarrow> outcome \<Rightarrow> auth_conn \<Rightarrow> outcome attempt" where
  "retry_loop try maxTries fuel i prev c =
     (if \<not> (maxTries \<le> 0 \<or> i < maxTries) then Ret (Inr prev, c)
      else (case fuel of
          0 \<Rightarrow> Hang
        | Suc n \<Rightarrow>
            bind_go (try c) (\<lambda>(r, c1).
              case r of
                Inl e \<Rightarrow> Ret (Inl e, c1)
              | Inr (ok, methods) \<Rightarrow>
                  if ok then Ret (Inr (ok, methods), c1) else retry_loop try maxTries n (i + 1) (ok, methods) c1)))"

declare retry_loop.simps [simp del]

primrec auth_with :: "nat \<Rightarrow> bytes \<Rightarrow> string \<Rightarrow> AuthMethod \<Rightarrow> auth_conn \<Rightarrow> outcome attempt" where
  "auth_with fuel session user NoneAuth = none_auth user"
| "auth_with fuel session user (PasswordCallback cb) = password_auth cb user"
| "auth_with fuel session user (PublicKeysCallback cb) = publickey_auth cb session user"
| "auth_with fuel session user (KeyboardInteractive cb) = interactive_auth cb user"
| "auth_with fuel session user (RetryableAuthMethod m maxTries) =
     retry_loop (auth_with fuel session user m) maxTries fuel 0 (False, None)"

subsection \<open>The loop over the methods\<close>

definition find_next :: "string list \<Rightarrow> string list option \<Rightarrow> AuthMethod list \<Rightarrow> AuthMethod option" where
  "find_next tried methods auths = find (\<lambda>a. method_name a \<notin> set tried \<and> containsMethod methods (method_name a)) auths"

lemma filter_length_less:
  assumes "a \<in> set xs" "P a" "\<not> Q a" "\<And>x. Q x \<Longrightarrow> P x"
  shows "length (filter Q xs) < length (filter P xs)"
proof -
  have "filter Q xs = filter Q (filter P xs)" using assms(4) by (simp add: filter_filter) (metis (full_types))
  also have "length \<dots> < length (filter P xs)" using assms(1-3) by (intro length_filter_less [of a]) simp_all
  finally show ?thesis .
qed

function auth_methods :: "nat \<Rightarrow> bytes \<Rightarrow> string \<Rightarrow> AuthMethod list \<Rightarrow> AuthMethod \<Rightarrow> string list \<Rightarrow> string list option
    \<Rightarrow> auth_conn \<Rightarrow> unit attempt" where
  "auth_methods fuel session user auths auth tried lastMethods c =
     (case auth_with fuel session user auth c of
        Panic s \<Rightarrow> Panic s
      | Hang \<Rightarrow> Hang
      | Ret (Inl e, c1) \<Rightarrow> Ret (Inl e, c1)
      | Ret (Inr (ok, methods), c1) \<Rightarrow>
          if ok then Ret (Inr (), c1)
          else let tried' = List.insert (method_name auth) tried;
                   methods' = (if methods = None then lastMethods else methods) in
            (case find_next tried' methods' auths of
               None \<Rightarrow> Ret (Inl (NoMethodsRemain tried'), c1)
             | Some a \<Rightarrow> auth_methods fuel session user auths a tried' methods' c1))"
  by pat_completeness auto
termination
proof (relation "measure (\<lambda>(fuel, session, user, auths, auth, tried, lastMethods, c).
    length (filter (\<lambda>a. method_name a \<notin> set (List.insert (method_name auth) tried)) auths))", goal_cases)
  case (2 fuel session user auths auth tried lastMethods c x1 x y xa x1a x2 tried' methods' a)
  have a: "a \<in> set auths" "method_name a \<notin> set tried'" using 2 by (auto simp: find_next_def find_Some_iff)
  have "length (filter (\<lambda>b. method_name b \<notin> set (List.insert (method_name a) tried')) auths)
      < length (filter (\<lambda>b. method_name b \<notin> set tried') auths)"
    using a by (intro filter_length_less [of a]) auto
  then show ?case using 2 by simp
qed simp

declare auth_methods.simps [simp del]

definition clientAuthenticate :: "nat \<Rightarrow> bytes \<Rightarrow> string \<Rightarrow> AuthMethod list \<Rightarrow> auth_conn \<Rightarrow> unit attempt" where
  "clientAuthenticate fuel session user auths c =
     (case ac_write (Marshal serviceRequestMsg [VStr ''ssh-userauth'']) c of
        None \<Rightarrow> Ret (Inl WriteFail, c)
      | Some c1 \<Rightarrow>
          (case ac_in c1 of
             [] \<Rightarrow> Ret (Inl ReadFail, c1)
           | packet # later \<Rightarrow>
               (case Unmarshal serviceAcceptMsg packet of
                  Inl e \<Rightarrow> Ret (Inl (Malformed e), c1\<lparr>ac_in := later\<rparr>)
                | Inr _ \<Rightarrow> auth_methods fuel session user auths NoneAuth [] None (c1\<lparr>ac_in := later\<rparr>))))"

subsection \<open>The other side\<close>

text \<open>
  The end of \<open>serverHandshake\<close>: the service request is read and accepted, then the login runs; the
  packets written are part of the result.
\<close>

definition serve_login :: "auth_env \<Rightarrow> host_db \<Rightarrow> bytes list \<Rightarrow> (auth_result \<times> bytes list) go" where
  "serve_login env h packets =
     (case packets of
        [] \<Rightarrow> Ret (Refused, [])
      | packet # later \<Rightarrow>
          if Unmarshal serviceRequestMsg packet \<noteq> Inr [VStr ''ssh-userauth''] then Ret (Refused, [])
          else bind_go (serverAuthenticate env h later) (\<lambda>(r, st).
            Ret (r, Marshal serviceAcceptMsg [VStr ''ssh-userauth''] # au_out st)))"

text \<open>The methods that \<open>SSHConnect\<close> configures, as methods of the library.\<close>

definition library_method :: "(string \<Rightarrow> string option) \<Rightarrow> (pub_key \<Rightarrow> bytes \<Rightarrow> string + string \<times> bytes) \<Rightarrow> auth_method \<Rightarrow> AuthMethod" where
  "library_method code sign m =
     (case m of
        MPublicKeys k \<Rightarrow> PublicKeys [\<lparr>sg_PublicKey = k, sg_Sign = sign k\<rparr>]
      | MPassword pw \<Rightarrow> Password pw
      | MInteractive pw url \<Rightarrow>
          KeyboardInteractive (\<lambda>_ user instruction qs echos. bind_go (ki_helper code pw url qs) (\<lambda>as. Ret (Inr as))))"

end
