(* ===== verification/Client_Auth_Proofs.thy ===== *)
theory Client_Auth_Proofs
  imports Client_Auth
begin

section \<open>What the client of the ssh library does\<close>

text \<open>
  The requests of the client are the ones the server reads; a client that knows the three secrets
  of a user and uses the methods of \<^verbatim>\<open>SSHConnect\<close> gets in; which methods are used against any
  server; and when the loops end.
\<close>

subsection \<open>The packets of the client\<close>

lemma client_packets:
  "Marshal userAuthRequestMsg [VStr user, VStr ''ssh-connection'', VStr m, VBytes b] = request_packet user m b"
  "Marshal passwordAuthMsg [VStr user, VStr ''ssh-connection'', VStr ''password'', VBool False, VStr pw]
     = request_packet user ''password'' (CHR 0x00 # enc_string pw)"
  "Marshal initiateMsg [VStr user, VStr ''ssh-connection'', VStr ''keyboard-interactive'', VStr [], VStr []]
     = request_packet user ''keyboard-interactive'' (enc_string [] @ enc_string [])"
  by (simp_all add: request_packet_def Marshal_def passwordAuthMsg_def initiateMsg_def userAuthRequestMsg_def
    marshal_field_def appendInt_def appendU32_def appendBool_def enc_string_def)

lemma publickey_request_packet:
  "publickey_request user hasSig key sig
     = request_packet user ''publickey'' (key_payload (if hasSig then CHR 0x01 else CHR 0x00) (pk_Type key) (pk_Marshal key) sig)"
  by (simp add: publickey_request_def request_packet_def Marshal_def publickeyAuthMsg_def userAuthRequestMsg_def
    marshal_field_def appendInt_def appendU32_def appendBool_def enc_string_def key_payload_def)

lemma answers_message_packet: "answers_message ans = answers_packet ans"
proof -
  have "fold (\<lambda>a p. appendString p a) ans buf = buf @ concat (map enc_string ans)" for buf
    by (induction ans arbitrary: buf) (simp_all add: appendString_enc)
  then show ?thesis by (simp add: answers_message_def answers_packet_def appendU32_def)
qed

lemma ac_write_fields:
  "ac_write p c = Some c' \<Longrightarrow> ac_in c' = ac_in c \<and> ac_out c' = ac_out c @ [p] \<and> ac_calls c' = ac_calls c"
  by (auto simp: ac_write_def split: option.splits if_splits)

lemma ac_write_free [simp]: "ac_room c = None \<Longrightarrow> ac_write p c = Some (c\<lparr>ac_out := ac_out c @ [p]\<rparr>)"
  by (simp add: ac_write_def)

lemma ac_call_fields [simp]:
  "ac_in (ac_call c) = ac_in c" "ac_out (ac_call c) = ac_out c" "ac_room (ac_call c) = ac_room c"
  by (simp_all add: ac_call_def)

subsection \<open>The packets of the server\<close>

lemma enc_prompt: "prompt.enc_pair (q, e) = enc_string q @ [if e then CHR 0x01 else CHR 0x00]"
  by (simp add: prompt.enc_pair_def enc_bool_def appendBool_def)

lemma parse_prompts_enc:
  "small (concat (map prompt.enc_pair ps)) \<Longrightarrow> parse_prompts (length ps) (concat (map prompt.enc_pair ps)) = Some (ps, [])"
proof (induction ps)
  case (Cons p ps)
  obtain q e where p: "p = (q, e)" by (cases p)
  have s: "small (enc_string q @ ((if e then CHR 0x01 else CHR 0x00) # concat (map prompt.enc_pair ps)))"
    using Cons.prems by (simp add: p enc_prompt)
  have "small (concat (map prompt.enc_pair ps))" using s by (simp add: small_def)
  then show ?case using wire_string.dec_enc [OF _ s] Cons.IH by (simp add: p enc_prompt)
qed simp

lemma length_prompts_ge: "length ps \<le> length (concat (map prompt.enc_pair ps))"
proof (induction ps)
  case (Cons p ps)
  then show ?case by (cases p) (simp add: enc_prompt)
qed simp

lemma challenge_of_request:
  assumes "small (info_request i qs)"
  shows "challenge_of (info_request i qs) = Inr ([], i, qs)"
proof -
  let ?e = "concat (map prompt.enc_pair qs)"
  have f: "fold (\<lambda>(q, e) out. appendBool (appendString out q) e) qs [] = ?e"
    using append_prompts_enc [of qs] by (simp add: append_prompts_def)
  have i: "info_request i qs = Marshal userAuthInfoRequestMsg
      [VStr [], VStr i, VStr [], VU32 (word_of_nat (length qs)), VBytes ?e]" by (simp add: info_request_def f)
  have "Unmarshal userAuthInfoRequestMsg (info_request i qs)
      = Inr [VStr [], VStr i, VStr [], VU32 (word_of_nat (length qs)), VBytes ?e]"
    unfolding i by (rule Unmarshal_of_Marshal)
      (use assms i in \<open>simp_all add: userAuthInfoRequestMsg_def has_kind_def tags_ok_def\<close>)
  moreover have s: "small ?e" using assms unfolding i
    by (simp add: Marshal_def userAuthInfoRequestMsg_def marshal_field_def small_def)
  moreover have "unat (word_of_nat (length qs) :: u32) = length qs"
    using s length_prompts_ge [of qs] by (intro unat_of_nat_eq) (simp add: small_def)
  ultimately show ?thesis using parse_prompts_enc [OF s] by (simp add: challenge_of_def)
qed

lemma info_request_tag: "\<exists>rest. info_request i qs = char_of (60 :: nat) # rest"
  by (simp add: info_request_def Marshal_def userAuthInfoRequestMsg_def marshal_field_def appendInt_def appendU32_def)

definition offered :: "sshego_config \<Rightarrow> string list" where
  "offered cfg = (if pk_enabled cfg then [''publickey''] else []) @ (if ki_enabled cfg then [''keyboard-interactive''] else [])"

lemma failure_message_read:
  "\<exists>rest. failure_message cfg = char_of (51 :: nat) # rest"
  "Unmarshal userAuthFailureMsg (failure_message cfg) = Inr [VNames (offered cfg), VBool False]"
proof -
  show "\<exists>rest. failure_message cfg = char_of (51 :: nat) # rest"
    by (simp add: failure_message_def Marshal_def userAuthFailureMsg_def marshal_field_def appendU32_def appendBool_def)
  show "Unmarshal userAuthFailureMsg (failure_message cfg) = Inr [VNames (offered cfg), VBool False]"
    unfolding failure_message_def offered_def [symmetric]
    by (rule Unmarshal_of_Marshal)
       (simp_all add: userAuthFailureMsg_def has_kind_def tags_ok_def offered_def names_ok_def small_def Marshal_def
         marshal_field_def appendU32_def appendBool_def)
qed

subsection \<open>What the client reads\<close>

lemma read_failure:
  assumes "ac_in c = failure_message cfg # later"
  shows "handleAuthResponse c = Ret (Inr (False, Some (offered cfg)), c\<lparr>ac_in := later\<rparr>)"
    "confirmKeyAck key c = Ret (Inr False, c\<lparr>ac_in := later\<rparr>)"
proof -
  obtain rest where r: "failure_message cfg = char_of (51 :: nat) # rest" using failure_message_read(1) by blast
  show "handleAuthResponse c = Ret (Inr (False, Some (offered cfg)), c\<lparr>ac_in := later\<rparr>)"
    using assms failure_message_read(2) [of cfg]
    by (subst handleAuthResponse.simps) (simp add: r final_response_def)
  show "confirmKeyAck key c = Ret (Inr False, c\<lparr>ac_in := later\<rparr>)"
    using assms by (subst confirmKeyAck.simps) (simp add: r)
qed

lemma read_challenge:
  assumes "ac_in c = info_request i qs # later" "small (info_request i qs)" "ac_room c = None"
    and "cb (ac_calls c) [] i (map fst qs) (map snd qs) = Ret (Inr ans)" "length ans = length qs"
  shows "challenge_loop cb c = challenge_loop cb
    (c\<lparr>ac_in := later, ac_calls := Suc (ac_calls c), ac_out := ac_out c @ [answers_packet ans]\<rparr>)"
proof -
  obtain rest where r: "info_request i qs = char_of (60 :: nat) # rest" using info_request_tag by blast
  show ?thesis using assms(1,3-5) challenge_of_request [OF assms(2)]
    by (subst challenge_loop.simps) (simp add: r ac_call_def answers_message_packet)
qed

lemma read_success:
  "ac_in c = [char_of (52 :: nat)] # later \<Longrightarrow> challenge_loop cb c = Ret (Inr (True, None), c\<lparr>ac_in := later\<rparr>)"
  by (subst challenge_loop.simps) (simp add: final_response_def)

subsection \<open>An honest client gets in\<close>

definition fresh_conn :: "bytes list \<Rightarrow> auth_conn" where
  "fresh_conn packets = \<lparr>ac_in = packets, ac_out = [], ac_room = None, ac_calls = 0\<rparr>"

text \<open>The packets of a login with all three factors, from the client and from the server.\<close>

definition login_requests :: "string \<Rightarrow> pub_key \<Rightarrow> string \<Rightarrow> string \<Rightarrow> bytes list" where
  "login_requests a k pw code =
     [request_packet a ''none'' [], publickey_request a False k [],
      request_packet a ''keyboard-interactive'' (enc_string [] @ enc_string []), answers_packet [pw, code], answers_packet []]"

definition login_replies :: "sshego_config \<Rightarrow> string \<Rightarrow> string \<Rightarrow> bytes list" where
  "login_replies cfg a hello =
     [failure_message cfg, failure_message cfg, info_request (''login for '' @ a @ '':'') (questions cfg),
      info_request hello [], [char_of (52 :: nat)]]"

lemma service_messages:
  "Unmarshal serviceRequestMsg (Marshal serviceRequestMsg [VStr ''ssh-userauth'']) = Inr [VStr ''ssh-userauth'']"
  "Unmarshal serviceAcceptMsg (Marshal serviceAcceptMsg [VStr ''ssh-userauth'']) = Inr [VStr ''ssh-userauth'']"
  by (rule Unmarshal_of_Marshal;
      simp add: serviceRequestMsg_def serviceAcceptMsg_def has_kind_def tags_ok_def small_def Marshal_def marshal_field_def
        appendInt_def appendU32_def)+

lemma client_run:
  assumes cfg: "all_factors cfg" and code: "code_of url = Some code" "url \<noteq> []"
    and small: "small (info_request (''login for '' @ a @ '':'') (questions cfg))" "small (info_request hello [])"
  shows "clientAuthenticate fuel session a (map (library_method code_of sign) (client_methods (Some k) pw url))
      (fresh_conn (Marshal serviceAcceptMsg [VStr ''ssh-userauth''] # login_replies cfg a hello))
    = Ret (Inr (), \<lparr>ac_in = [], ac_out = Marshal serviceRequestMsg [VStr ''ssh-userauth''] # login_requests a k pw code,
        ac_room = None, ac_calls = 3\<rparr>)"
proof -
  let ?as = "map (library_method code_of sign) (client_methods (Some k) pw url)"
  let ?ki = "\<lambda>_ user instruction qs echos. bind_go (ki_helper code_of pw url qs) (\<lambda>as. Ret (Inr as))"
  let ?pk = "PublicKeys [\<lparr>sg_PublicKey = k, sg_Sign = sign k\<rparr>]"
  let ?R = "login_replies cfg a hello" and ?P = "login_requests a k pw code"
  let ?S = "Marshal serviceRequestMsg [VStr ''ssh-userauth'']"
  define c where "c i j n = \<lparr>ac_in = drop i ?R, ac_out = ?S # take j ?P, ac_room = None, ac_calls = n\<rparr>" for i j n
  have q: "map fst (questions cfg) = [''password: '', ''google-authenticator-code: '']" "length (questions cfg) = 2"
    using cfg by (simp_all add: questions_def all_factors_def)
  have off: "offered cfg = [''publickey'', ''keyboard-interactive'']" using all_factors_enabled [OF cfg] by (simp add: offered_def)
  have none: "none_auth a (c 0 0 0) = Ret (Inr (False, Some (offered cfg)), c 1 1 0)"
    by (simp add: none_auth_def client_packets c_def read_failure(1) login_replies_def login_requests_def)
  have pk: "publickey_auth (\<lambda>_. Inr [\<lparr>sg_PublicKey = k, sg_Sign = sign k\<rparr>]) session a (c 1 1 0) = Ret (Inr (False, None), c 2 2 1)"
    by (simp add: publickey_auth_def validateKey_def c_def ac_call_def read_failure(2) login_replies_def login_requests_def)
  have ki: "interactive_auth ?ki a (c 2 2 1) = Ret (Inr (True, None), c 5 5 3)"
    using small code q
    by (simp add: interactive_auth_def client_packets c_def login_replies_def login_requests_def read_challenge
      read_success numeral_3_eq_3)
  have f1: "find_next [''none''] (Some (offered cfg)) ?as = Some ?pk"
    by (simp add: find_next_def client_methods_def library_method_def containsMethod_def PublicKeys_def off)
  have f2: "find_next [''publickey'', ''none''] (Some (offered cfg)) ?as = Some (KeyboardInteractive ?ki)"
    using code by (simp add: find_next_def client_methods_def library_method_def containsMethod_def PublicKeys_def Password_def off)
  have 3: "auth_methods fuel session a ?as (KeyboardInteractive ?ki) tr ms (c 2 2 1) = Ret (Inr (), c 5 5 3)" for tr ms
    by (subst auth_methods.simps) (simp add: ki del: One_nat_def)
  have 2: "auth_methods fuel session a ?as ?pk [''none''] (Some (offered cfg)) (c 1 1 0) = Ret (Inr (), c 5 5 3)"
    by (subst auth_methods.simps) (simp add: PublicKeys_def pk List.insert_def f2 [unfolded PublicKeys_def] 3 [unfolded PublicKeys_def] del: One_nat_def)
  have 1: "auth_methods fuel session a ?as NoneAuth [] None (c 0 0 0) = Ret (Inr (), c 5 5 3)"
    by (subst auth_methods.simps) (simp add: none List.insert_def f1 2 del: One_nat_def)
  show ?thesis using 1 service_messages(2)
    by (simp add: clientAuthenticate_def fresh_conn_def c_def login_requests_def login_replies_def)
qed

lemma turn_none:
  assumes "all_factors (hd_cfg (au_db st))" "tries_left env st" "au_failures st = 0"
    and "au_in st = request_packet a ''none'' b # later" "small (request_packet a ''none'' b)"
  shows "auth_turn env st
    = Ret (None, st\<lparr>au_in := later, au_user := a, au_out := au_out st @ [failure_message (hd_cfg (au_db st))]\<rparr>)"
  using assms auth_request_packet [OF assms(5)] all_factors_enabled [OF assms(1)]
  by (simp add: auth_turn_def try_method_def finish_turn_def AuthLogCallback_def send_def)

lemma server_run:
  assumes cfg: "all_factors (hd_cfg h)" and tries: "ae_MaxAuthTries env = 0"
    and u: "ValidLogin a" "users h a = Some u" "MatchingHashAndPw (ae_host env) u pw" "right_code env u code"
    and key: "isAcceptableAlgo (pk_Type k)" "ae_parseKey env (pk_Marshal k) = Some k" "key_on_file env h u (pk_Marshal k)"
    and small: "list_all small (login_requests a k pw code)"
  shows "serve_login env h (Marshal serviceRequestMsg [VStr ''ssh-userauth''] # login_requests a k pw code)
    = Ret (LoggedIn a, Marshal serviceAcceptMsg [VStr ''ssh-userauth''] # login_replies (hd_cfg h) a (last_login_text env u))"
proof -
  let ?P = "login_requests a k pw code" and ?env = "env\<lparr>ae_MaxAuthTries := 6\<rparr>"
  let ?st = "SetupAuthRequirements h ?P"
  let ?ki = "request_packet a ''keyboard-interactive'' (enc_string [] @ enc_string [])"
  have st: "au_db ?st = h" "au_in ?st = ?P" "au_failures ?st = 0" "au_cache ?st = []" "\<not> au_OneTimeOK ?st" "au_out ?st = []"
    using cfg by (simp_all add: SetupAuthRequirements_def all_factors_def)
  have sm: "small (request_packet a ''none'' [])" "small (publickey_request a False k [])" "small ?ki" "small (answers_packet [pw, code])"
    using small by (simp_all add: login_requests_def)
  let ?st1 = "?st\<lparr>au_in := tl ?P, au_user := a, au_out := [failure_message (hd_cfg h)]\<rparr>"
  have t1: "auth_turn ?env ?st = Ret (None, ?st1)"
    using turn_none [of ?st ?env a "[]" "tl ?P"] st cfg sm(1) by (simp add: login_requests_def)
  have kf: "key_on_file ?env h u (pk_Marshal k)" using key(3) by (simp add: key_on_file_def)
  obtain st2 v where t2: "auth_turn ?env ?st1 = Ret (None, st2)" "au_PublicKeyOK st2" "au_in st2 = tl (tl ?P)"
    "evolves h (au_db st2)" "au_failures st2 \<le> 1" "au_out st2 = [failure_message (hd_cfg h), failure_message (hd_cfg h)]"
    and v: "users (au_db st2) a = Some v" "same_visit u v"
    using turn_publickey(1) [of ?st1 ?env a "pk_Marshal k" u "pk_Type k" k "CHR 0x00" "[]" "tl (tl ?P)"] st cfg u key kf sm(2)
    by (auto simp: publickey_request_packet login_requests_def)
  have c: "same_cred u v" using same_cred_evolves [OF t2(4) u(2)] v(1) by auto
  have cfg2: "hd_cfg (au_db st2) = hd_cfg h" using t2(4) by (simp add: evolves_def)
  have "right_code ?env v code" "MatchingHashAndPw (ae_host ?env) v pw" using u(3,4) right_code_cred [OF c] by simp_all
  then obtain st3 where t3: "auth_turn ?env st2 = Ret (Some (LoggedIn a), st3)"
    "au_out st3 = login_replies (hd_cfg h) a (last_login_text ?env v)"
    using turn_interactive(2) [of st2 ?env a v pw code "enc_string [] @ enc_string []" "[answers_packet []]"] cfg cfg2 t2 v(1) sm(3,4)
    by (auto simp: login_requests_def login_replies_def)
  have "auth_loop ?env (Suc (Suc (Suc (Suc (Suc (Suc 0)))))) ?st = Ret (LoggedIn a, st3)"
    using t1 t2(1) t3(1) by (simp only: run_turn)
  moreover have "last_login_text ?env v = last_login_text env u" using same_visit_text [OF v(2)] by (simp add: last_login_text_def)
  ultimately show ?thesis using all_factors_enabled [OF cfg] tries t3(2) service_messages(1)
    by (simp add: serve_login_def serverAuthenticate_def default_tries_def login_requests_def del: auth_loop.simps)
qed


subsection \<open>Which methods are used\<close>

definition request_method :: "bytes \<Rightarrow> string option" where
  "request_method p = map_option (\<lambda>(user, service, m, payload). m) (auth_request p)"

definition failure_names :: "bytes \<Rightarrow> string list option" where
  "failure_names p =
     (case Unmarshal userAuthFailureMsg p of Inr (VNames ms # _) \<Rightarrow> Some ms | _ \<Rightarrow> None)"

definition success_packet :: "bytes \<Rightarrow> bool" where
  "success_packet p \<longleftrightarrow> (case p of [] \<Rightarrow> False | t # _ \<Rightarrow> of_char t = (52 :: nat))"

text \<open>A stretch of a run that reads \<open>used\<close> and writes only requests for one method.\<close>

definition asks :: "string \<Rightarrow> bytes \<Rightarrow> bool" where
  "asks N p \<longleftrightarrow> (small p \<longrightarrow> request_method p = None \<or> request_method p = Some N)"

definition moves :: "string \<Rightarrow> bytes list \<Rightarrow> auth_conn \<Rightarrow> auth_conn \<Rightarrow> bool" where
  "moves N used c c' \<longleftrightarrow> ac_in c = used @ ac_in c' \<and> (\<exists>new. ac_out c' = ac_out c @ new \<and> (\<forall>p\<in>set new. asks N p))"

definition says :: "string list option \<Rightarrow> bytes list \<Rightarrow> auth_fail + outcome \<Rightarrow> bool" where
  "says m0 used r \<longleftrightarrow>
     (case r of
        Inl _ \<Rightarrow> True
      | Inr (ok, ms) \<Rightarrow> (ok \<longrightarrow> (\<exists>p\<in>set used. success_packet p))
          \<and> (\<forall>l. ms = Some l \<longrightarrow> m0 = Some l \<or> (\<exists>p\<in>set used. failure_names p = Some l)))"

definition attempts :: "string \<Rightarrow> string list option \<Rightarrow> auth_conn \<Rightarrow> auth_fail + outcome \<Rightarrow> auth_conn \<Rightarrow> bool" where
  "attempts N m0 c r c' \<longleftrightarrow> (\<exists>used. moves N used c c' \<and> says m0 used r)"

lemma moves_refl [simp]: "moves N [] c c"
  by (simp add: moves_def)

lemma moves_trans:
  assumes "moves N a c c1" "moves N b c1 c'"
  shows "moves N (a @ b) c c'"
proof -
  obtain n1 n2 where "ac_out c1 = ac_out c @ n1" "\<forall>p\<in>set n1. asks N p" "ac_out c' = ac_out c1 @ n2" "\<forall>p\<in>set n2. asks N p"
    using assms by (auto simp: moves_def)
  then have "ac_out c' = ac_out c @ (n1 @ n2) \<and> (\<forall>p\<in>set (n1 @ n2). asks N p)" by auto
  then show ?thesis using assms unfolding moves_def by fastforce
qed

lemma says_more: "says m0 used r \<Longrightarrow> says m0 (a @ used) r"
  by (auto simp: says_def split: sum.splits)

lemma attempts_after: "moves N a c c1 \<Longrightarrow> attempts N m0 c1 r c' \<Longrightarrow> attempts N m0 c r c'"
  unfolding attempts_def using moves_trans says_more by blast

lemma attempts_carry: "attempts N m0 c (Inr (ok, m1)) c1 \<Longrightarrow> attempts N m1 c1 r c' \<Longrightarrow> attempts N m0 c r c'"
proof -
  assume a: "attempts N m0 c (Inr (ok, m1)) c1" "attempts N m1 c1 r c'"
  then obtain u1 u2 where u: "moves N u1 c c1" "says m0 u1 (Inr (ok, m1))" "moves N u2 c1 c'" "says m1 u2 r"
    by (auto simp: attempts_def)
  have "says m0 (u1 @ u2) r" using u(2,4) by (auto simp: says_def split: sum.splits)
  then show ?thesis using moves_trans [OF u(1,3)] by (auto simp: attempts_def)
qed

lemma attempts_fail: "moves N a c c' \<Longrightarrow> attempts N m0 c (Inl e) c'"
  by (auto simp: attempts_def says_def)

lemma attempts_weaken: "attempts N None c r c' \<Longrightarrow> attempts N m0 c r c'"
  by (auto simp: attempts_def says_def split: sum.splits)

lemma moves_read: "ac_in c = p # later \<Longrightarrow> moves N [p] c (c\<lparr>ac_in := later\<rparr>)" "moves N [] c (ac_call c)"
  by (simp_all add: moves_def)

lemma moves_write: "ac_write p c = Some c' \<Longrightarrow> asks N p \<Longrightarrow> moves N [] c c'"
  using ac_write_fields [of p c c'] by (auto simp: moves_def)

lemma asks_request [simp]: "asks N (request_packet u N b)"
  using auth_request_packet [of u N b] by (auto simp: asks_def request_method_def)

lemma asks_answers [simp]: "asks N (answers_packet ans)"
  by (simp add: asks_def request_method_def auth_request_def Unmarshal_def userAuthRequestMsg_def answers_packet_def)

lemma final_response_says: "t # b = p \<Longrightarrow> says None [p] (final_response e p (of_char t))"
  by (auto simp: says_def final_response_def failure_names_def success_packet_def split: sum.splits list.splits fval.splits)

lemma handleAuthResponse_attempts: "handleAuthResponse c = Ret (r, c') \<Longrightarrow> attempts N None c r c'"
proof (induction c rule: handleAuthResponse.induct)
  case (1 c)
  show ?case
  proof (cases "ac_in c")
    case Nil
    then show ?thesis using 1(2) attempts_fail [OF moves_refl] by (subst (asm) handleAuthResponse.simps) auto
  next
    case (Cons p later)
    then obtain t b where p: "p = t # b" using 1(2) by (subst (asm) handleAuthResponse.simps) (auto split: list.splits)
    note m = moves_read(1) [OF Cons]
    show ?thesis
    proof (cases "of_char t = (53 :: nat)")
      case True
      then have "handleAuthResponse (c\<lparr>ac_in := later\<rparr>) = Ret (r, c')"
        using 1(2) Cons p by (subst (asm) handleAuthResponse.simps) simp
      then show ?thesis using 1(1) [OF Cons p True] attempts_after [OF m] by blast
    next
      case False
      then have "r = final_response 52 p (of_char t)" "c' = c\<lparr>ac_in := later\<rparr>"
        using 1(2) Cons p by (subst (asm) handleAuthResponse.simps, simp)+
      then show ?thesis using m final_response_says [OF p [symmetric]] by (auto simp: attempts_def)
    qed
  qed
qed

lemma confirmKeyAck_moves: "confirmKeyAck key c = Ret (r, c') \<Longrightarrow> \<exists>used. moves N used c c'"
proof (induction key c rule: confirmKeyAck.induct)
  case (1 key c)
  show ?case
  proof (cases "ac_in c")
    case Nil
    then have "c' = c" using 1(2) by (subst (asm) confirmKeyAck.simps) auto
    then show ?thesis using moves_refl by blast
  next
    case (Cons p later)
    then obtain t b where p: "p = t # b" using 1(2) by (subst (asm) confirmKeyAck.simps) (auto split: list.splits)
    note m = moves_read(1) [OF Cons]
    show ?thesis
    proof (cases "of_char t = (53 :: nat)")
      case True
      then have "confirmKeyAck key (c\<lparr>ac_in := later\<rparr>) = Ret (r, c')"
        using 1(2) Cons p by (subst (asm) confirmKeyAck.simps) simp
      then show ?thesis using 1(1) [OF Cons p True] moves_trans [OF m] by blast
    next
      case False
      then have "c' = c\<lparr>ac_in := later\<rparr>" using 1(2) Cons p by (subst (asm) confirmKeyAck.simps) simp
      then show ?thesis using m by blast
    qed
  qed
qed

lemma validateKey_moves:
  assumes "validateKey key user c = Ret (v, c1)"
  obtains u where "moves ''publickey'' u c c1"
proof (cases "ac_write (publickey_request user False key []) c")
  case None
  then have "c1 = c" using assms by (auto simp: validateKey_def)
  then show thesis using that moves_refl by blast
next
  case (Some c0)
  then have "moves ''publickey'' [] c c0" by (rule moves_write) (simp add: publickey_request_packet)
  then show thesis using assms Some confirmKeyAck_moves moves_trans that by (fastforce simp: validateKey_def)
qed

lemma signed_request_asks: "signed_request session user s = Inr p \<Longrightarrow> asks ''publickey'' p"
  by (auto simp: signed_request_def publickey_request_packet Let_def split: sum.splits)

lemma signer_loop_attempts: "signer_loop session user signers m0 c = Ret (r, c') \<Longrightarrow> attempts ''publickey'' m0 c r c'"
proof (induction signers arbitrary: m0 c)
  case Nil
  then have "r = Inr (False, m0)" "c' = c" by simp_all
  then show ?case by (auto simp: attempts_def says_def intro!: exI [of _ "[]"])
next
  case (Cons s signers)
  obtain v c1 where v: "validateKey (sg_PublicKey s) user c = Ret (v, c1)" using Cons.prems by (auto simp: bind_go_pair_iff)
  obtain u where u: "moves ''publickey'' u c c1" using validateKey_moves [OF v] .
  consider (err) e where "v = Inl e" | (no) "v = Inr False" | (nosig) e where "v = Inr True" "signed_request session user s = Inl e"
    | (nowrite) p where "v = Inr True" "signed_request session user s = Inr p" "ac_write p c1 = None"
    | (sent) p c2 where "v = Inr True" "signed_request session user s = Inr p" "ac_write p c1 = Some c2"
    by (metis (full_types) obj_sumE not_Some_eq)
  then show ?case
  proof cases
    case no
    then show ?thesis using Cons.prems v Cons.IH attempts_after [OF u] by simp
  next
    case sent
    obtain r' c3 where h: "handleAuthResponse c2 = Ret (r', c3)"
      using Cons.prems v sent by (auto simp: bind_go_pair_iff)
    have "attempts ''publickey'' m0 c r' c3"
      using moves_trans [OF u moves_write [OF sent(3) signed_request_asks [OF sent(2)]]]
        attempts_weaken [OF handleAuthResponse_attempts [OF h]] by (rule attempts_after)
    moreover have "(case r' of Inl e \<Rightarrow> Ret (Inl e, c3) | Inr (success, methods') \<Rightarrow>
        if success \<or> \<not> containsMethod methods' ''publickey'' then Ret (Inr (success, methods'), c3)
        else signer_loop session user signers methods' c3) = Ret (r, c')"
      using Cons.prems v sent h by simp
    ultimately show ?thesis using Cons.IH attempts_carry
      by (cases r') (auto split: if_splits prod.splits)
  qed (use Cons.prems v attempts_fail [OF u] in auto)
qed

lemma challenge_loop_attempts: "challenge_loop cb c = Ret (r, c') \<Longrightarrow> attempts N None c r c'"
proof (induction cb c rule: challenge_loop.induct)
  case (1 cb c)
  show ?case
  proof (cases "ac_in c")
    case Nil
    then show ?thesis using 1(3) attempts_fail [OF moves_refl] by (subst (asm) challenge_loop.simps) auto
  next
    case (Cons p later)
    then obtain t b where p: "p = t # b" using 1(3) by (subst (asm) challenge_loop.simps) (auto split: list.splits)
    note m = moves_read(1) [OF Cons] and m' = moves_trans [OF moves_read(1) [OF Cons] moves_read(2)]
    note step = 1(3) [unfolded challenge_loop.simps [of cb c] Cons p list.case]
    consider (banner) "of_char t = (53 :: nat)" | (final) "of_char t \<noteq> (53 :: nat)" "of_char t \<noteq> (60 :: nat)"
      | (bad) e where "of_char t = (60 :: nat)" "challenge_of p = Inl e"
      | (ask) ch where "of_char t = (60 :: nat)" "challenge_of p = Inr ch"
      by (metis obj_sumE)
    then show ?thesis
    proof cases
      case banner
      then show ?thesis using 1(1) [OF Cons p banner] step attempts_after [OF m] by simp
    next
      case final
      then show ?thesis using step m final_response_says [OF p [symmetric]] by (auto simp: attempts_def p)
    next
      case bad
      then show ?thesis using step attempts_fail [OF m] by (auto simp: p)
    next
      case ask
      obtain user i qs where ch: "ch = (user, i, qs)" by (cases ch)
      obtain a where a: "cb (ac_calls c) user i (map fst qs) (map snd qs) = Ret a"
        using step ask ch by (auto simp: p split: go.splits)
      consider (e) e where "a = Inl e" | (n) ans where "a = Inr ans" "length ans \<noteq> length qs"
        | (w) ans where "a = Inr ans" "length ans = length qs" "ac_write (answers_message ans) (ac_call (c\<lparr>ac_in := later\<rparr>)) = None"
        | (s) ans c1 where "a = Inr ans" "length ans = length qs" "ac_write (answers_message ans) (ac_call (c\<lparr>ac_in := later\<rparr>)) = Some c1"
        by (metis obj_sumE not_Some_eq)
      then show ?thesis
      proof cases
        case s
        have "moves N [] (ac_call (c\<lparr>ac_in := later\<rparr>)) c1" using s(3) by (rule moves_write) (simp add: answers_message_packet)
        moreover have "challenge_loop cb c1 = Ret (r, c')" using step ask ch a s by (simp add: p)
        moreover have "attempts N None c1 r c'" using 1(2) [OF Cons p] ask ch a s \<open>challenge_loop cb c1 = Ret (r, c')\<close> by (simp add: p)
        ultimately show ?thesis using attempts_after moves_trans [OF m'] by blast
      qed (use step ask ch a attempts_fail [OF m'] in \<open>auto simp: p\<close>)
    qed
  qed
qed

lemma retry_loop_attempts:
  assumes "\<And>c r c'. f c = Ret (r, c') \<Longrightarrow> attempts N None c r c'"
  shows "retry_loop f n fuel i prev c = Ret (r, c') \<Longrightarrow> attempts N (snd prev) c (Inr prev) c \<Longrightarrow> attempts N (snd prev) c r c'"
proof (induction fuel arbitrary: i prev c)
  case 0
  then show ?case by (subst (asm) retry_loop.simps) (auto split: if_splits)
next
  case (Suc fuel)
  show ?case
  proof (cases "n \<le> 0 \<or> i < n")
    case False
    then show ?thesis using Suc.prems by (subst (asm) retry_loop.simps) simp
  next
    case True
    then obtain r1 c1 where f: "f c = Ret (r1, c1)"
      using Suc.prems(1) by (subst (asm) retry_loop.simps) (auto simp: bind_go_pair_iff)
    note a = assms [OF f]
    show ?thesis
    proof (cases "\<exists>m. r1 = Inr (False, m)")
      case True
      then obtain m where m: "r1 = Inr (False, m)" by blast
      have "retry_loop f n fuel (i + 1) (False, m) c1 = Ret (r, c')"
        using Suc.prems(1) \<open>n \<le> 0 \<or> i < n\<close> f m by (subst (asm) retry_loop.simps) simp
      moreover have "attempts N m c1 (Inr (False, m)) c1" by (auto simp: attempts_def says_def intro!: exI [of _ "[]"])
      ultimately have "attempts N m c1 r c'" using Suc.IH by fastforce
      then show ?thesis using a attempts_carry attempts_weaken unfolding m by blast
    next
      case False
      then have "r = r1 \<and> c' = c1" using Suc.prems(1) \<open>n \<le> 0 \<or> i < n\<close> f
        by (subst (asm) retry_loop.simps) (auto split: sum.splits if_splits)
      then show ?thesis using attempts_weaken [OF a] by simp
    qed
  qed
qed

lemma auth_with_attempts: "auth_with fuel session user m c = Ret (r, c') \<Longrightarrow> attempts (method_name m) None c r c'"
proof (induction m arbitrary: c r c')
  case NoneAuth
  then show ?case using moves_write [of _ c _ "''none''"] handleAuthResponse_attempts attempts_after attempts_fail [OF moves_refl]
    by (fastforce simp: none_auth_def client_packets split: option.splits)
next
  case (PasswordCallback cb)
  then show ?case using moves_write [of _ "ac_call c" _ "''password''"] handleAuthResponse_attempts attempts_after
      moves_trans [OF moves_read(2) [of "''password''" c]] attempts_fail [OF moves_read(2)]
    by (fastforce simp: password_auth_def client_packets split: option.splits sum.splits)
next
  case (PublicKeysCallback cb)
  then show ?case using signer_loop_attempts attempts_after [OF moves_read(2)] attempts_fail [OF moves_read(2)]
    by (fastforce simp: publickey_auth_def split: sum.splits)
next
  case (KeyboardInteractive cb)
  then show ?case using moves_write [of _ c _ "''keyboard-interactive''"] challenge_loop_attempts attempts_after attempts_fail [OF moves_refl]
    by (fastforce simp: interactive_auth_def client_packets split: option.splits)
next
  case (RetryableAuthMethod m n)
  have "attempts (method_name m) None c (Inr (False, None)) c" by (auto simp: attempts_def says_def intro!: exI [of _ "[]"])
  then show ?case using retry_loop_attempts [of "auth_with fuel session user m", OF RetryableAuthMethod.IH, of n fuel 0 "(False, None)" c r c']
      RetryableAuthMethod.prems by simp
qed

definition on_offer :: "bytes list \<Rightarrow> string \<Rightarrow> bool" where
  "on_offer used m \<longleftrightarrow> (\<exists>p\<in>set used. \<exists>ms. failure_names p = Some ms \<and> m \<in> set ms)"

lemma find_next_Some:
  "find_next tried ms auths = Some a \<Longrightarrow> a \<in> set auths \<and> method_name a \<notin> set tried \<and> containsMethod ms (method_name a)"
  by (auto simp: find_next_def find_Some_iff)

lemma auth_methods_uses:
  "auth_methods fuel session user auths auth tried L c = Ret (r, c') \<Longrightarrow>
   \<exists>used new. ac_in c = used @ ac_in c' \<and> ac_out c' = ac_out c @ new
     \<and> (\<forall>p\<in>set new. \<forall>m. small p \<and> request_method p = Some m \<longrightarrow>
          m = method_name auth \<or> m \<in> method_name ` set auths \<and> (on_offer used m \<or> containsMethod L m))
     \<and> (r = Inr () \<longrightarrow> (\<exists>p\<in>set used. success_packet p))"
proof (induction fuel session user auths auth tried L c rule: auth_methods.induct)
  case (1 fuel session user auths auth tried L c)
  note prem = 1(2) [unfolded auth_methods.simps [of fuel session user auths auth tried L c]]
  obtain r1 c1 where a: "auth_with fuel session user auth c = Ret (r1, c1)" using prem by (auto split: go.splits)
  obtain u n where u: "ac_in c = u @ ac_in c1" "ac_out c1 = ac_out c @ n" "\<forall>p\<in>set n. asks (method_name auth) p" "says None u r1"
    using auth_with_attempts [OF a] by (auto simp: attempts_def moves_def)
  have n: "\<forall>p\<in>set n. \<forall>m. small p \<and> request_method p = Some m \<longrightarrow> m = method_name auth"
    using u(3) by (auto simp: asks_def)
  consider (stop) "c' = c1" "r = Inr () \<longrightarrow> (\<exists>m. r1 = Inr (True, m))"
    | (more) ms x where "r1 = Inr (False, ms)" "find_next (List.insert (method_name auth) tried) (if ms = None then L else ms) auths = Some x"
    using prem a by (auto simp: Let_def split: sum.splits if_splits option.splits)
  then show ?case
  proof cases
    case stop
    then show ?thesis using u n by (intro exI [of _ u] exI [of _ n]) (auto simp: says_def)
  next
    case more
    let ?ms = "if ms = None then L else ms"
    note x = find_next_Some [OF more(2)]
    have "auth_methods fuel session user auths x (List.insert (method_name auth) tried) ?ms c1 = Ret (r, c')"
      using prem a more by (simp add: Let_def)
    then obtain v w where v: "ac_in c1 = v @ ac_in c'" "ac_out c' = ac_out c1 @ w"
      "\<forall>p\<in>set w. \<forall>m. small p \<and> request_method p = Some m \<longrightarrow>
          m = method_name x \<or> m \<in> method_name ` set auths \<and> (on_offer v m \<or> containsMethod ?ms m)"
      "r = Inr () \<longrightarrow> (\<exists>p\<in>set v. success_packet p)"
      using 1(1) [OF a refl more(1) refl _ refl refl more(2)] by blast
    have ms: "containsMethod ?ms m \<Longrightarrow> on_offer u m \<or> containsMethod L m" for m
      using u(4) more(1) by (auto simp: says_def containsMethod_def on_offer_def split: if_splits option.splits)
    have off: "on_offer v m \<Longrightarrow> on_offer (u @ v) m" "on_offer u m \<Longrightarrow> on_offer (u @ v) m" for m by (auto simp: on_offer_def)
    have "m \<in> method_name ` set auths \<and> (on_offer v m \<or> containsMethod ?ms m)"
      if "p \<in> set w" "small p" "request_method p = Some m" for p m using v(3) that x by blast
    then have "\<forall>p\<in>set (n @ w). \<forall>m. small p \<and> request_method p = Some m \<longrightarrow>
          m = method_name auth \<or> m \<in> method_name ` set auths \<and> (on_offer (u @ v) m \<or> containsMethod L m)"
      using n ms off unfolding set_append by blast
    then show ?thesis using u v by (intro exI [of _ "u @ v"] exI [of _ "n @ w"]) auto
  qed
qed

text \<open>
  C11: the client uses no method unasked.  Against any server, and with any callbacks and write
  errors: every authentication request the client has sent names a method that is configured and that a failure
  message of the server listed, apart from the opening \<^verbatim>\<open>none\<close>.  (It is the name of the method that is constrained, not what the
  answers to a keyboard-interactive prompt carry.)  And the client reports success only when it has read a success message.
\<close>

theorem client_uses_offered_methods:
  assumes "clientAuthenticate fuel session user auths c = Ret (r, c')" "ac_out c = []"
  shows "\<exists>used. ac_in c = used @ ac_in c'
     \<and> (\<forall>p\<in>set (ac_out c'). \<forall>m. small p \<and> request_method p = Some m \<longrightarrow>
          m = ''none'' \<or> m \<in> method_name ` set auths \<and> on_offer used m)
     \<and> (r = Inr () \<longrightarrow> (\<exists>p\<in>set used. success_packet p))"
proof -
  let ?s = "Marshal serviceRequestMsg [VStr ''ssh-userauth'']"
  have s: "request_method ?s = None"
    by (simp add: request_method_def auth_request_def Unmarshal_def userAuthRequestMsg_def Marshal_def serviceRequestMsg_def
      marshal_field_def appendInt_def appendU32_def)
  consider (unsent) "ac_write ?s c = None" | (eof) c1 where "ac_write ?s c = Some c1" "ac_in c = []"
    | (bad) c1 p later e where "ac_write ?s c = Some c1" "ac_in c = p # later" "Unmarshal serviceAcceptMsg p = Inl e"
    | (go) c1 p later vs where "ac_write ?s c = Some c1" "ac_in c = p # later" "Unmarshal serviceAcceptMsg p = Inr vs"
    by (metis list.exhaust not_Some_eq obj_sumE)
  then show ?thesis
  proof cases
    case go
    have c1: "ac_in c1 = p # later" "ac_out c1 = [?s]" using ac_write_fields [OF go(1)] go(2) assms(2) by simp_all
    have "auth_methods fuel session user auths NoneAuth [] None (c1\<lparr>ac_in := later\<rparr>) = Ret (r, c')"
      using assms(1) go c1 by (simp add: clientAuthenticate_def)
    from auth_methods_uses [OF this] obtain used new where u: "later = used @ ac_in c'" "ac_out c' = [?s] @ new"
      "\<forall>p\<in>set new. \<forall>m. small p \<and> request_method p = Some m \<longrightarrow> m = ''none'' \<or> m \<in> method_name ` set auths \<and> on_offer used m"
      "r = Inr () \<longrightarrow> (\<exists>p\<in>set used. success_packet p)" by (simp add: c1 containsMethod_def) blast
    have "on_offer used m \<Longrightarrow> on_offer (p # used) m" for m by (auto simp: on_offer_def)
    then show ?thesis using u s go(2) by (intro exI [of _ "p # used"]) auto
  qed (use assms s ac_write_fields in \<open>fastforce simp: clientAuthenticate_def\<close>)+
qed

end
