(* ===== verification/Client_Auth_Ends.thy ===== *)
theory Client_Auth_Ends
  imports Client_Auth_Proofs
begin

section \<open>When the login of the client ends\<close>

text \<open>
  The loops of \<^verbatim>\<open>client_auth.go\<close> end because each turn reads a packet or spends a try; the one that
  need not is a method retried without limit that can fail without reading.  At the end, the
  theorems about the client on concrete inputs.
\<close>

subsection \<open>Every answer is read\<close>

lemma attempts_length: "attempts N m0 c r c' \<Longrightarrow> length (ac_in c') \<le> length (ac_in c)"
  by (auto simp: attempts_def moves_def)

lemma handleAuthResponse_reads:
  assumes "handleAuthResponse c = Ret (Inr x, c')"
  shows "length (ac_in c') < length (ac_in c)"
proof (cases "ac_in c")
  case Nil
  then show ?thesis using assms by (subst (asm) handleAuthResponse.simps) simp
next
  case (Cons p later)
  then show ?thesis using assms attempts_length [OF handleAuthResponse_attempts, of "c\<lparr>ac_in := later\<rparr>" _ c']
    by (subst (asm) handleAuthResponse.simps) (auto split: list.splits if_splits)
qed

lemma validateKey_reads:
  assumes "validateKey key user c = Ret (Inr ok, c')"
  shows "length (ac_in c') < length (ac_in c)"
proof -
  obtain c1 where c1: "confirmKeyAck key c1 = Ret (Inr ok, c')" "ac_in c1 = ac_in c"
    using assms ac_write_fields by (fastforce simp: validateKey_def split: option.splits)
  have le: "length (ac_in c') \<le> length (ac_in d)" if "confirmKeyAck key d = Ret (Inr ok, c')" for d
    using confirmKeyAck_moves [OF that, of "[]"] by (auto simp: moves_def)
  show ?thesis
  proof (cases "ac_in c1")
    case Nil
    then show ?thesis using c1(1) by (subst (asm) confirmKeyAck.simps) simp
  next
    case (Cons p later)
    then show ?thesis using c1 le [of "c1\<lparr>ac_in := later\<rparr>"]
      by (subst (asm) confirmKeyAck.simps) (auto split: list.splits if_splits)
  qed
qed

lemma challenge_loop_reads:
  assumes "challenge_loop cb c = Ret (Inr x, c')"
  shows "length (ac_in c') < length (ac_in c)"
proof (cases "ac_in c")
  case Nil
  then show ?thesis using assms by (subst (asm) challenge_loop.simps) simp
next
  case (Cons p later)
  have le: "length (ac_in c') \<le> length (ac_in d)" if "challenge_loop cb d = Ret (Inr x, c')" for d
    using attempts_length [OF challenge_loop_attempts [OF that]] .
  show ?thesis using assms Cons le ac_write_fields
    by (subst (asm) challenge_loop.simps) (fastforce split: list.splits if_splits sum.splits go.splits option.splits prod.splits)
qed

text \<open>The methods that read at least one packet before they fail.\<close>

primrec reads :: "AuthMethod \<Rightarrow> bool" where
  "reads NoneAuth = True"
| "reads (PasswordCallback cb) = True"
| "reads (PublicKeysCallback cb) = (\<forall>i. cb i \<noteq> Inr [])"
| "reads (KeyboardInteractive cb) = True"
| "reads (RetryableAuthMethod m n) = reads m"

lemma signer_loop_reads:
  assumes "signer_loop session user signers m0 c = Ret (Inr x, c')" "signers \<noteq> []"
  shows "length (ac_in c') < length (ac_in c)"
proof -
  obtain s ss where s: "signers = s # ss" using assms(2) by (meson list.exhaust)
  obtain v c1 where v: "validateKey (sg_PublicKey s) user c = Ret (v, c1)" using assms(1) s by (auto simp: bind_go_pair_iff)
  obtain ok where ok: "v = Inr ok" using assms(1) s v by (cases v) auto
  have lt: "length (ac_in c1) < length (ac_in c)" using validateKey_reads v ok by blast
  have le: "length (ac_in c') \<le> length (ac_in d)" if "signer_loop session user ss m d = Ret (Inr x, c')" for m d
    using attempts_length [OF signer_loop_attempts [OF that]] .
  show ?thesis
  proof (cases ok)
    case False
    then show ?thesis using assms(1) s v ok lt le [of m0 c1] by simp
  next
    case True
    obtain p c2 where p: "signed_request session user s = Inr p" "ac_write p c1 = Some c2"
      using assms(1) s v ok True by (auto split: sum.splits option.splits)
    obtain r' c3 where h': "handleAuthResponse c2 = Ret (r', c3)"
      using assms(1) s v ok True p by (auto simp: bind_go_pair_iff)
    obtain o' ms where "r' = Inr (o', ms)" using assms(1) s v ok True p h' by (cases r') auto
    with h' have h: "handleAuthResponse c2 = Ret (Inr (o', ms), c3)" by simp
    have "length (ac_in c3) < length (ac_in c)" using handleAuthResponse_reads [OF h] ac_write_fields [OF p(2)] lt by simp
    then show ?thesis using assms(1) s v ok True p h le [of ms c3] by (auto split: if_splits)
  qed
qed

lemma retry_loop_reads:
  assumes "\<And>c c' ms. f c = Ret (Inr (False, ms), c') \<Longrightarrow> length (ac_in c') < length (ac_in c)"
  shows "retry_loop f n fuel i prev c = Ret (Inr (False, ms), c') \<Longrightarrow> n \<le> 0 \<or> i < n \<or> c = c'
    \<Longrightarrow> length (ac_in c') \<le> length (ac_in c) \<and> (n \<le> 0 \<or> i < n \<longrightarrow> length (ac_in c') < length (ac_in c))"
proof (induction fuel arbitrary: i prev c)
  case 0
  then show ?case by (subst (asm) retry_loop.simps) (auto split: if_splits)
next
  case (Suc fuel)
  show ?case
  proof (cases "n \<le> 0 \<or> i < n")
    case False
    then show ?thesis using Suc.prems(2) by auto
  next
    case True
    then obtain r1 c1 where f: "f c = Ret (r1, c1)"
      using Suc.prems(1) by (subst (asm) retry_loop.simps) (auto simp: bind_go_pair_iff)
    obtain m where m: "r1 = Inr (False, m)"
      using Suc.prems(1) True f by (subst (asm) retry_loop.simps) (auto split: sum.splits if_splits)
    have r: "retry_loop f n fuel (i + 1) (False, m) c1 = Ret (Inr (False, ms), c')"
      using Suc.prems(1) True f m by (subst (asm) retry_loop.simps) simp
    have "n \<le> 0 \<or> i + 1 < n \<or> c1 = c'" using r by (subst (asm) retry_loop.simps) (auto split: if_splits)
    then show ?thesis using Suc.IH [OF r] assms [of c m c1] f m by simp
  qed
qed

lemma auth_with_reads:
  "auth_with fuel session user m c = Ret (Inr (False, ms), c') \<Longrightarrow> reads m \<Longrightarrow> length (ac_in c') < length (ac_in c)"
proof (induction m arbitrary: c ms c')
  case NoneAuth
  then show ?case using handleAuthResponse_reads ac_write_fields by (fastforce simp: none_auth_def split: option.splits)
next
  case (PasswordCallback cb)
  then show ?case using handleAuthResponse_reads ac_write_fields
    by (fastforce simp: password_auth_def split: option.splits sum.splits)
next
  case (PublicKeysCallback cb)
  then show ?case using signer_loop_reads by (fastforce simp: publickey_auth_def split: sum.splits)
next
  case (KeyboardInteractive cb)
  then show ?case using challenge_loop_reads ac_write_fields by (fastforce simp: interactive_auth_def split: option.splits)
next
  case (RetryableAuthMethod m n)
  have "n \<le> 0 \<or> 0 < n" by auto
  then show ?case using retry_loop_reads [of "auth_with fuel session user m" n fuel 0 "(False, None)" c ms c'] RetryableAuthMethod by auto
qed

subsection \<open>Nothing hangs\<close>

lemma handleAuthResponse_returns: "handleAuthResponse c \<noteq> Hang"
proof (induction c rule: handleAuthResponse.induct)
  case (1 c)
  then show ?case by (subst handleAuthResponse.simps) (auto split: list.split)
qed

lemma confirmKeyAck_returns: "confirmKeyAck key c \<noteq> Hang"
proof (induction key c rule: confirmKeyAck.induct)
  case (1 key c)
  then show ?case by (subst confirmKeyAck.simps) (auto split: list.split)
qed

lemma signer_loop_returns: "signer_loop session user signers m0 c \<noteq> Hang"
proof (induction signers arbitrary: m0 c)
  case (Cons s signers)
  have "validateKey (sg_PublicKey s) user c \<noteq> Hang" using confirmKeyAck_returns by (auto simp: validateKey_def split: option.split)
  then show ?case using Cons.IH handleAuthResponse_returns
    by (auto simp: bind_go_Hang_iff split: sum.splits option.splits if_splits prod.splits)
qed simp

lemma challenge_loop_returns:
  "(\<And>i user s qs es. cb i user s qs es \<noteq> Hang) \<Longrightarrow> challenge_loop cb c \<noteq> Hang"
proof (induction cb c rule: challenge_loop.induct)
  case (1 cb c)
  then show ?case by (subst challenge_loop.simps) (auto split: list.split sum.split go.split option.split prod.split)
qed

text \<open>
  The methods that settle: callbacks return, and a method is retried without limit only if its
  failures read.
\<close>

primrec settles :: "AuthMethod \<Rightarrow> bool" where
  "settles NoneAuth = True"
| "settles (PasswordCallback cb) = True"
| "settles (PublicKeysCallback cb) = True"
| "settles (KeyboardInteractive cb) = (\<forall>i user s qs es. cb i user s qs es \<noteq> Hang)"
| "settles (RetryableAuthMethod m n) = (settles m \<and> (0 < n \<or> reads m))"

primrec tries_of :: "AuthMethod \<Rightarrow> nat" where
  "tries_of NoneAuth = 0"
| "tries_of (PasswordCallback cb) = 0"
| "tries_of (PublicKeysCallback cb) = 0"
| "tries_of (KeyboardInteractive cb) = 0"
| "tries_of (RetryableAuthMethod m n) = max (tries_of m) (nat n)"

lemma retry_loop_returns:
  assumes "\<And>d. length (ac_in d) \<le> k \<Longrightarrow> f d \<noteq> Hang"
    and "\<And>d ms d'. f d = Ret (Inr (False, ms), d') \<Longrightarrow> length (ac_in d') \<le> length (ac_in d) \<and> (0 < n \<or> length (ac_in d') < length (ac_in d))"
  shows "length (ac_in c) \<le> k \<Longrightarrow> 0 < n \<and> n - i \<le> int fuel \<or> n \<le> 0 \<and> length (ac_in c) < fuel \<Longrightarrow> retry_loop f n fuel i prev c \<noteq> Hang"
proof (induction fuel arbitrary: i prev c)
  case 0
  then show ?case by (subst retry_loop.simps) auto
next
  case (Suc fuel)
  show ?case
  proof (cases "f c")
    case (Ret rc)
    obtain r1 c1 where rc: "rc = (r1, c1)" by (cases rc)
    show ?thesis
    proof (cases "\<exists>m. r1 = Inr (False, m)")
      case True
      then obtain m where m: "r1 = Inr (False, m)" by blast
      have "length (ac_in c1) \<le> length (ac_in c)" "0 < n \<or> length (ac_in c1) < length (ac_in c)"
        using assms(2) [of c m c1] Ret rc m by auto
      then have "retry_loop f n fuel (i + 1) (False, m) c1 \<noteq> Hang" using Suc.prems by (intro Suc.IH) auto
      then show ?thesis using Ret rc m by (subst retry_loop.simps) simp
    next
      case False
      then show ?thesis using Ret rc by (subst retry_loop.simps) (auto split: sum.split)
    qed
  next
    case (Panic s)
    then show ?thesis by (subst retry_loop.simps) simp
  next
    case Hang
    then show ?thesis using assms(1) [OF Suc.prems(1)] by simp
  qed
qed

lemma auth_with_returns:
  "settles m \<Longrightarrow> length (ac_in c) < fuel \<Longrightarrow> tries_of m \<le> fuel \<Longrightarrow> auth_with fuel session user m c \<noteq> Hang"
proof (induction m arbitrary: c)
  case NoneAuth
  then show ?case using handleAuthResponse_returns by (simp add: none_auth_def split: option.split)
next
  case (PasswordCallback cb)
  then show ?case using handleAuthResponse_returns by (simp add: password_auth_def split: option.split sum.split)
next
  case (PublicKeysCallback cb)
  then show ?case using signer_loop_returns by (simp add: publickey_auth_def split: sum.split)
next
  case (KeyboardInteractive cb)
  then show ?case using challenge_loop_returns by (simp add: interactive_auth_def split: option.split)
next
  case (RetryableAuthMethod m n)
  have "retry_loop (auth_with fuel session user m) n fuel 0 (False, None) c \<noteq> Hang"
  proof (rule retry_loop_returns [where k = "length (ac_in c)"])
    show "auth_with fuel session user m d \<noteq> Hang" if "length (ac_in d) \<le> length (ac_in c)" for d
      using RetryableAuthMethod that by simp
    show "length (ac_in d') \<le> length (ac_in d) \<and> (0 < n \<or> length (ac_in d') < length (ac_in d))"
      if "auth_with fuel session user m d = Ret (Inr (False, ms), d')" for d ms d'
      using attempts_length [OF auth_with_attempts [OF that]] auth_with_reads [OF that] RetryableAuthMethod.prems(1) by auto
    show "0 < n \<and> n - 0 \<le> int fuel \<or> n \<le> 0 \<and> length (ac_in c) < fuel" using RetryableAuthMethod.prems by auto
  qed simp
  then show ?case by simp
qed

lemma auth_methods_returns:
  "\<forall>a\<in>set auths. settles a \<and> tries_of a \<le> fuel \<Longrightarrow> settles auth \<Longrightarrow> tries_of auth \<le> fuel \<Longrightarrow> length (ac_in c) < fuel
    \<Longrightarrow> auth_methods fuel session user auths auth tried L c \<noteq> Hang"
proof (induction fuel session user auths auth tried L c rule: auth_methods.induct)
  case (1 fuel session user auths auth tried L c)
  show ?case
  proof (cases "auth_with fuel session user auth c")
    case (Ret rc)
    obtain r1 c1 where rc: "rc = (r1, c1)" by (cases rc)
    have len: "length (ac_in c1) < fuel" using attempts_length [OF auth_with_attempts, of fuel session user auth c r1 c1] Ret rc 1(5) by simp
    show ?thesis
    proof (cases "\<exists>ms x. r1 = Inr (False, ms) \<and> find_next (List.insert (method_name auth) tried) (if ms = None then L else ms) auths = Some x")
      case True
      then obtain ms x where m: "r1 = Inr (False, ms)"
        "find_next (List.insert (method_name auth) tried) (if ms = None then L else ms) auths = Some x" by blast
      have "auth_methods fuel session user auths x (List.insert (method_name auth) tried) (if ms = None then L else ms) c1 \<noteq> Hang"
        using 1(1) [OF Ret rc [symmetric] m(1) refl _ refl refl m(2)] 1(2) find_next_Some [OF m(2)] len by blast
      then show ?thesis using Ret rc m by (subst auth_methods.simps) (simp add: Let_def)
    next
      case False
      then show ?thesis using Ret rc
        by (subst auth_methods.simps) (auto simp: Let_def split: sum.split option.split)
    qed
  next
    case (Panic s)
    then show ?thesis by (subst auth_methods.simps) simp
  next
    case Hang
    then show ?thesis using auth_with_returns 1(3-5) by blast
  qed
qed

text \<open>
  C26: the login of the client ends.  When callbacks return and no method is retried without limit
  that can fail without reading a packet, then fuel above the number of packets to come and above the limits of tries
  is enough: \<open>clientAuthenticate\<close> returns.
\<close>

theorem client_login_ends:
  assumes "\<forall>a\<in>set auths. settles a \<and> tries_of a \<le> fuel" "length (ac_in c) < fuel"
  shows "clientAuthenticate fuel session user auths c \<noteq> Hang"
proof -
  have "auth_methods fuel session user auths NoneAuth [] None (d\<lparr>ac_in := later\<rparr>) \<noteq> Hang"
    if "ac_write p c = Some d" "ac_in d = q # later" for p q d later
  proof -
    have "ac_in c = q # later" using ac_write_fields [OF that(1)] that(2) by simp
    then show ?thesis using assms by (intro auth_methods_returns) simp_all
  qed
  then show ?thesis by (auto simp: clientAuthenticate_def split: option.split list.split sum.split)
qed

text \<open>The condition matters: public keys without a signer, retried without limit, spin for ever.\<close>

lemma empty_keys_spin:
  assumes "n \<le> 0"
  shows "auth_with fuel session user (RetryableAuthMethod (PublicKeys []) n) c = Hang"
proof -
  have one: "publickey_auth (\<lambda>_. Inr []) session user d = Ret (Inr (False, None), ac_call d)" for d
    by (simp add: publickey_auth_def)
  have "retry_loop (publickey_auth (\<lambda>_. Inr []) session user) n k i prev d = Hang" for k i prev d
  proof (induction k arbitrary: i prev d)
    case 0
    then show ?case using assms by (subst retry_loop.simps) simp
  next
    case (Suc k)
    have "retry_loop (publickey_auth (\<lambda>_. Inr []) session user) n (Suc k) i prev d
        = retry_loop (publickey_auth (\<lambda>_. Inr []) session user) n k (i + 1) (False, None) (ac_call d)"
      using assms by (subst retry_loop.simps) (simp add: one)
    then show ?case using Suc.IH by simp
  qed
  then show ?thesis by (simp add: PublicKeys_def)
qed

subsection \<open>The theorems on concrete logins\<close>

lemma demo_login_small:
  "list_all small (login_requests ''al'' demo_pub ''pw'' ''123456'')"
  "list_all small (login_replies (hd_cfg demo_server) ''al'' (last_login_text demo_aenv al))"
  using failure_message_read
  by (simp_all add: login_requests_def login_replies_def publickey_request_packet demo_small_defs demo_pub_def info_request_def
    userAuthInfoRequestMsg_def last_login_text_def demo_aenv_def al_def NewUser_def questions_def demo_server_def demo_cfg_def
    NewSshegoConfig_def appendString_def appendBool_def failure_message_def userAuthFailureMsg_def)


text \<open>A server that never offers passwords: the client asks for nothing, and gives up.\<close>

definition demo_refusal :: bytes where
  "demo_refusal = failure_message demo_cfg"

lemma demo_refused:
  "clientAuthenticate 5 ''S'' ''al'' [Password ''pw''] (fresh_conn [Marshal serviceAcceptMsg [VStr ''ssh-userauth''], demo_refusal])
    = Ret (Inl (NoMethodsRemain [''none'']), \<lparr>ac_in = [], ac_out = [Marshal serviceRequestMsg [VStr ''ssh-userauth''], request_packet ''al'' ''none'' []],
        ac_room = None, ac_calls = 0\<rparr>)"
  using service_messages(2)
  by (simp add: clientAuthenticate_def fresh_conn_def auth_methods.simps [of _ _ _ _ NoneAuth] none_auth_def client_packets
    read_failure(1) demo_refusal_def find_next_def Password_def containsMethod_def offered_def List.insert_def)

theorem client_uses_offered_methods_witness:
  "\<exists>used. [Marshal serviceAcceptMsg [VStr ''ssh-userauth''], demo_refusal] = used
     \<and> (\<forall>p\<in>set [Marshal serviceRequestMsg [VStr ''ssh-userauth''], request_packet ''al'' ''none'' []]. \<forall>m.
          small p \<and> request_method p = Some m \<longrightarrow> m = ''none'' \<or> m \<in> method_name ` set [Password ''pw''] \<and> on_offer used m)"
  using client_uses_offered_methods [OF demo_refused] by (simp add: fresh_conn_def)

theorem client_login_ends_witness:
  "clientAuthenticate 5 ''S'' ''al'' [RetryableAuthMethod (Password ''pw'') 3, RetryableAuthMethod (Password ''pw'') 0]
     (fresh_conn [Marshal serviceAcceptMsg [VStr ''ssh-userauth''], demo_refusal]) \<noteq> Hang"
  by (rule client_login_ends) (simp_all add: Password_def fresh_conn_def)

end
