(* ===== verification/Idle_Timer.thy ===== *)
theory Idle_Timer
  imports Go_Prelude
begin

section \<open>Idle timers and deadlines\<close>

text \<open>
  \<^verbatim>\<open>idle.go\<close> of the ssh library and the deadlines of \<^verbatim>\<open>channel.go\<close> that are built on it.  The state of a
  timer is what its goroutine keeps (the duration, whether a ticker runs, the raised timeout, the
  callbacks) and the variables shared with the readers (start and end of the last attempt, the
  copy of the duration, the oneshot flag, the halter).

  Each operation, and each tick of the ticker, is one step of the goroutine with the caller that it
  answers; a step that needs the clock gets the reading of the monotonic clock.  A callback is a
  number, or None for the nil function; those started are recorded in \<open>it_fired\<close>.  The text of a raised timeout is the
  constant prefix of the format, which is what makes it not empty.  Times are unbounded: the
  monotonic clock of 64 bits starts near 0 and does not wrap within 292 years.
\<close>

subsection \<open>State\<close>

record idle_timer =
  it_dur :: int
  it_atomicdur :: int
  it_heart :: bool
  it_lastStart :: int
  it_lastOK :: int
  it_raised :: string
  it_callbacks :: "nat option list"
  it_fired :: "nat list"
  it_oneshot :: bool
  it_stop :: bool

definition factor :: int where
  "factor = 10"

text \<open>\<^verbatim>\<open>time.NewTicker\<close> panics when the interval is not positive.\<close>

definition start_ticker :: "int \<Rightarrow> idle_timer \<Rightarrow> idle_timer go" where
  "start_ticker dur t =
     (if dur div factor \<le> 0 then Panic ''non-positive interval for NewTicker'' else Ret (t\<lparr>it_heart := True\<rparr>))"

definition NewIdleTimer :: "nat option \<Rightarrow> int \<Rightarrow> idle_timer go" where
  "NewIdleTimer callback dur =
     (let t = \<lparr>it_dur = dur, it_atomicdur = dur, it_heart = False, it_lastStart = 0, it_lastOK = 0, it_raised = [],
               it_callbacks = (case callback of None \<Rightarrow> [] | Some f \<Rightarrow> [Some f]), it_fired = [], it_oneshot = False, it_stop = False\<rparr> in
      if 0 < dur then start_ticker dur t else Ret t)"

subsection \<open>Attempts\<close>

definition BeginAttempt :: "int \<Rightarrow> idle_timer \<Rightarrow> idle_timer" where
  "BeginAttempt now t = t\<lparr>it_lastStart := now\<rparr>"

text \<open>A oneshot timer is stopped instead; the goroutine answers the stop, so the wait for it ends.\<close>

definition AttemptOK :: "int \<Rightarrow> idle_timer \<Rightarrow> idle_timer" where
  "AttemptOK now t = (if it_oneshot t then t\<lparr>it_stop := True\<rparr> else t\<lparr>it_lastOK := now\<rparr>)"

definition IdleStatus :: "int \<Rightarrow> idle_timer \<Rightarrow> bool" where
  "IdleStatus now t =
     (if it_atomicdur t \<le> 0 \<or> it_lastStart t \<le> 0 \<or> it_lastStart t \<le> it_lastOK t then False
      else it_atomicdur t < now - it_lastStart t)"

subsection \<open>The goroutine\<close>

definition set_duration :: "int \<Rightarrow> idle_timer \<Rightarrow> idle_timer" where
  "set_duration d t = t\<lparr>it_dur := d, it_atomicdur := d\<rparr>"

definition on_set :: "int \<Rightarrow> idle_timer \<Rightarrow> idle_timer go" where
  "on_set newdur t =
     (let t1 = t\<lparr>it_raised := [], it_lastStart := -1\<rparr> in
      if 0 < it_dur t1 then
        (if newdur = it_dur t1 then Ret t1
         else if newdur \<le> 0 then Ret ((set_duration newdur t1)\<lparr>it_heart := False\<rparr>)
         else start_ticker newdur ((set_duration newdur t1)\<lparr>it_heart := False\<rparr>))
      else if newdur \<le> 0 then Ret (set_duration 0 t1)
      else start_ticker newdur (set_duration newdur t1))"

fun start_all :: "nat option list \<Rightarrow> nat list \<Rightarrow> nat list go" where
  "start_all [] fired = Ret fired"
| "start_all (None # fs) fired = Panic ''nil function''"
| "start_all (Some f # fs) fired = start_all fs (fired @ [f])"

definition on_tick :: "int \<Rightarrow> idle_timer \<Rightarrow> idle_timer go" where
  "on_tick now t =
     (if it_dur t = 0 then Panic ''should be impossible to get heartbeat.C on dur == 0''
      else if \<not> IdleStatus now t then Ret t
      else if it_callbacks t = [] then Panic ''IdleTimer.timeoutCallback was never set!''
      else bind_go (start_all (it_callbacks t) (it_fired t))
        (\<lambda>fired. Ret (t\<lparr>it_raised := ''timing out'', it_heart := False, it_fired := fired\<rparr>)))"

datatype idle_event =
    EvBegin int | EvOK int | EvSet int | EvOneshot int | EvAdd "nat option" | EvCallback "nat option" | EvTick int | EvStop

text \<open>
  One step.  A stopped timer answers nothing; without a ticker there is no tick.  The setters return
  in every case.
\<close>

definition idle_step :: "idle_event \<Rightarrow> idle_timer \<Rightarrow> idle_timer go" where
  "idle_step e t =
     (case e of
        EvBegin now \<Rightarrow> Ret (BeginAttempt now t)
      | EvOK now \<Rightarrow> Ret (AttemptOK now t)
      | EvSet d \<Rightarrow> if it_stop t then Ret t else on_set d t
      | EvOneshot d \<Rightarrow> let t1 = t\<lparr>it_oneshot := True\<rparr> in if it_stop t1 then Ret t1 else on_set d t1
      | EvAdd f \<Rightarrow>
          if f = None then Panic ''cannot call addTimeoutCallback with nil function!''
          else if it_stop t then Ret t else Ret (t\<lparr>it_callbacks := it_callbacks t @ [f]\<rparr>)
      | EvCallback f \<Rightarrow> if it_stop t then Ret t else Ret (t\<lparr>it_callbacks := [f]\<rparr>)
      | EvTick now \<Rightarrow> if it_heart t \<and> \<not> it_stop t then on_tick now t else Ret t
      | EvStop \<Rightarrow> Ret (t\<lparr>it_stop := True\<rparr>))"

fun idle_run :: "idle_event list \<Rightarrow> idle_timer \<Rightarrow> idle_timer go" where
  "idle_run [] t = Ret t"
| "idle_run (e # es) t = bind_go (idle_step e t) (idle_run es)"

definition GetIdleTimeout :: "idle_timer \<Rightarrow> int" where
  "GetIdleTimeout t = (if it_stop t then 0 else it_dur t)"

subsection \<open>Deadlines\<close>

text \<open>
  \<open>setDeadline\<close> of a channel, as the operation on one of its timers: None is the zero time, else the nanoseconds
  from now to the deadline.
\<close>

definition setDeadline :: "int option \<Rightarrow> idle_event" where
  "setDeadline t = (case t of None \<Rightarrow> EvOneshot 0 | Some until \<Rightarrow> if until \<le> 0 then EvOneshot 1 else EvOneshot until)"

subsection \<open>The invariant\<close>

definition timer_ok :: "idle_timer \<Rightarrow> bool" where
  "timer_ok t \<longleftrightarrow> it_atomicdur t = it_dur t \<and> (0 < it_dur t \<longrightarrow> factor \<le> it_dur t)
     \<and> (it_heart t \<longrightarrow> 0 < it_dur t \<and> it_raised t = [])"

lemma timer_ok_updates [simp]:
  "timer_ok (t\<lparr>it_oneshot := b\<rparr>) = timer_ok t" "timer_ok (t\<lparr>it_stop := b\<rparr>) = timer_ok t"
  "timer_ok (t\<lparr>it_callbacks := fs\<rparr>) = timer_ok t" "timer_ok (BeginAttempt n t) = timer_ok t" "timer_ok (AttemptOK n t) = timer_ok t"
  by (simp_all add: timer_ok_def BeginAttempt_def AttemptOK_def)

lemma start_ticker_Ret: "start_ticker d t = Ret t' \<longleftrightarrow> factor \<le> d \<and> t' = t\<lparr>it_heart := True\<rparr>"
  by (auto simp: start_ticker_def factor_def)

lemma NewIdleTimer_ok: "NewIdleTimer f d = Ret t \<Longrightarrow> timer_ok t"
  by (auto simp: NewIdleTimer_def start_ticker_Ret timer_ok_def Let_def split: if_splits)

lemma on_set_ok: "on_set d t = Ret t' \<Longrightarrow> timer_ok t \<Longrightarrow> timer_ok t'"
  by (auto simp: on_set_def start_ticker_Ret timer_ok_def set_duration_def factor_def Let_def split: if_splits)

lemma on_tick_cases:
  assumes "on_tick now t = Ret t'"
  obtains "t' = t" "\<not> IdleStatus now t"
    | fired where "IdleStatus now t" "start_all (it_callbacks t) (it_fired t) = Ret fired"
        "t' = t\<lparr>it_raised := ''timing out'', it_heart := False, it_fired := fired\<rparr>"
  using assms by (auto simp: on_tick_def bind_go_Ret_iff split: if_splits)

lemma on_tick_ok: "on_tick now t = Ret t' \<Longrightarrow> timer_ok t \<Longrightarrow> timer_ok t'"
  by (erule on_tick_cases) (simp_all add: timer_ok_def)

lemma idle_step_ok: "idle_step e t = Ret t' \<Longrightarrow> timer_ok t \<Longrightarrow> timer_ok t'"
  by (cases e) (auto simp: idle_step_def Let_def dest: on_set_ok on_tick_ok split: if_splits)

lemma idle_run_ok: "idle_run es t = Ret t' \<Longrightarrow> timer_ok t \<Longrightarrow> timer_ok t'"
  by (induction es arbitrary: t) (auto simp: bind_go_Ret_iff dest: idle_step_ok)

lemma idle_run_append: "idle_run (a @ b) t = bind_go (idle_run a t) (idle_run b)"
  by (induction a arbitrary: t) (auto simp: bind_go_def split: go.split)

subsection \<open>A raised timeout is a stalled attempt\<close>

fun reading :: "idle_event \<Rightarrow> int list" where
  "reading (EvBegin n) = [n]"
| "reading (EvOK n) = [n]"
| "reading (EvTick n) = [n]"
| "reading _ = []"

fun is_set :: "idle_event \<Rightarrow> bool" where
  "is_set (EvSet d) = True"
| "is_set (EvOneshot d) = True"
| "is_set _ = False"

text \<open>An attempt was begun and neither ended nor replaced, and a tick came more than \<open>d\<close> after it.\<close>

definition stalled :: "int \<Rightarrow> idle_event list \<Rightarrow> bool" where
  "stalled d es \<longleftrightarrow> (\<exists>a s b n c. es = a @ EvBegin s # b @ EvTick n # c \<and> 0 < d \<and> d < n - s
     \<and> (\<forall>e\<in>set b. \<not> is_set e \<and> (\<forall>m. e \<noteq> EvBegin m \<and> e \<noteq> EvOK m)))"

lemma stalled_append: "stalled d es \<Longrightarrow> stalled d (es @ fs)"
  unfolding stalled_def by (metis append.assoc append_Cons)

text \<open>The last attempt began at \<open>s\<close>, and since then only attempts with a reading up to \<open>k\<close> have ended.\<close>

definition begun :: "idle_event list \<Rightarrow> int \<Rightarrow> int \<Rightarrow> bool" where
  "begun es s k \<longleftrightarrow> (\<exists>a b. es = a @ EvBegin s # b \<and> (\<forall>e\<in>set b. \<not> is_set e \<and> (\<forall>m. e \<noteq> EvBegin m))
     \<and> (\<forall>m. EvOK m \<in> set b \<longrightarrow> m \<le> k))"

lemma begun_now: "begun (es @ [EvBegin s]) s k"
  unfolding begun_def by (intro exI [of _ es] exI [of _ "[]"]) simp

lemma begun_more:
  assumes "begun es s k" "\<not> is_set e" "\<And>n. e \<noteq> EvBegin n" "\<And>n. e = EvOK n \<Longrightarrow> n \<le> k'" "k \<le> k'"
  shows "begun (es @ [e]) s k'"
proof -
  obtain a b where b: "es = a @ EvBegin s # b" "\<forall>e\<in>set b. \<not> is_set e \<and> (\<forall>m. e \<noteq> EvBegin m)" "\<forall>m. EvOK m \<in> set b \<longrightarrow> m \<le> k"
    using assms(1) by (auto simp: begun_def)
  have "m \<le> k'" if "EvOK m \<in> set (b @ [e])" for m using b(3) that assms(4,5) by fastforce
  then show ?thesis unfolding begun_def using b(1,2) assms(2,3) by (intro exI [of _ a] exI [of _ "b @ [e]"]) auto
qed

definition follows :: "idle_event list \<Rightarrow> idle_timer \<Rightarrow> bool" where
  "follows es t \<longleftrightarrow> (\<not> it_stop t \<and> 0 < it_lastStart t \<longrightarrow> begun es (it_lastStart t) (it_lastOK t))
     \<and> (it_raised t \<noteq> [] \<longrightarrow> stalled (it_dur t) es)"

lemma on_set_fields:
  assumes "on_set d t = Ret t'"
  shows "it_raised t' = [] \<and> it_lastStart t' = -1 \<and> it_fired t' = it_fired t \<and> it_callbacks t' = it_callbacks t
    \<and> it_stop t' = it_stop t \<and> it_lastOK t' = it_lastOK t"
  using assms by (auto simp: on_set_def start_ticker_Ret set_duration_def Let_def split: if_splits)

lemma follows_open:
  assumes "follows es t" "\<not> is_set e" "\<And>n. e \<noteq> EvBegin n" "\<And>n. e = EvOK n \<Longrightarrow> n \<le> it_lastOK t'" "it_lastOK t \<le> it_lastOK t'"
    and "it_stop t \<longrightarrow> it_stop t'" "it_lastStart t' = it_lastStart t" "it_raised t' = it_raised t" "it_dur t' = it_dur t"
  shows "follows (es @ [e]) t'"
  using assms begun_more [OF _ assms(2-5)] stalled_append [of _ es "[e]"] by (auto simp: follows_def)

lemma follows_tick:
  assumes f: "follows es t" and ok: "timer_ok t" and st: "\<not> it_stop t" and s: "IdleStatus n t"
    and clock: "sorted (concat (map reading es))"
    and t': "t' = t\<lparr>it_raised := ''timing out'', it_heart := False, it_fired := fired\<rparr>"
  shows "follows (es @ [EvTick n]) t'"
proof -
  have i: "0 < it_dur t" "0 < it_lastStart t" "it_lastOK t < it_lastStart t" "it_dur t < n - it_lastStart t"
    using s ok by (auto simp: IdleStatus_def timer_ok_def split: if_splits)
  obtain a b where b: "es = a @ EvBegin (it_lastStart t) # b" "\<forall>e\<in>set b. \<not> is_set e \<and> (\<forall>m. e \<noteq> EvBegin m)"
    "\<forall>m. EvOK m \<in> set b \<longrightarrow> m \<le> it_lastOK t" using f st i(2) by (auto simp: follows_def begun_def)
  have "EvOK m \<notin> set b" for m
  proof
    assume m: "EvOK m \<in> set b"
    then have "m \<in> set (concat (map reading b))" by force
    then have "it_lastStart t \<le> m" using clock b(1) by (auto simp: sorted_append)
    then show False using b(3) m i(3) by force
  qed
  then have "stalled (it_dur t) (es @ [EvTick n])" unfolding stalled_def using b i
    by (intro exI [of _ a] exI [of _ "it_lastStart t"] exI [of _ b] exI [of _ n] exI [of _ "[]"]) auto
  moreover have "begun (es @ [EvTick n]) (it_lastStart t) (it_lastOK t)"
    using f \<open>\<not> it_stop t\<close> i(2) by (intro begun_more) (auto simp: follows_def)
  ultimately show ?thesis using t' by (simp add: follows_def)
qed

lemma follows_step:
  assumes f: "follows es t" and ok: "timer_ok t" and step: "idle_step e t = Ret t'"
    and clock: "sorted (concat (map reading (es @ [e])))" and past: "it_lastOK t \<in> insert 0 (set (concat (map reading es)))"
    and start: "\<forall>n\<in>set (concat (map reading (es @ [e]))). 0 \<le> n"
  shows "follows (es @ [e]) t'"
proof (cases e)
  case (EvBegin n)
  then have "t' = BeginAttempt n t" using step by (simp add: idle_step_def)
  then show ?thesis using f EvBegin stalled_append [of _ es] begun_now by (auto simp: follows_def BeginAttempt_def)
next
  case (EvOK n)
  have "it_lastOK t \<le> n" using past clock start EvOK by (auto simp: sorted_append)
  moreover have "t' = AttemptOK n t" using step EvOK by (simp add: idle_step_def)
  ultimately show ?thesis using EvOK f
    by (cases "it_oneshot t") (auto simp: AttemptOK_def follows_def stalled_append intro: begun_more)
next
  case (EvTick n)
  consider "t' = t" | fired where "\<not> it_stop t" "IdleStatus n t" "t' = t\<lparr>it_raised := ''timing out'', it_heart := False, it_fired := fired\<rparr>"
  proof (cases "it_heart t \<and> \<not> it_stop t")
    case True
    then have "on_tick n t = Ret t'" using step EvTick by (simp add: idle_step_def)
    then show thesis by (rule on_tick_cases) (use True that in blast)+
  next
    case False
    then show thesis using step EvTick that(1) by (auto simp: idle_step_def)
  qed
  then show ?thesis
  proof cases
    case 1
    then show ?thesis using EvTick by (intro follows_open [OF f]) simp_all
  next
    case 2
    then show ?thesis using follows_tick [OF f ok] clock EvTick by (simp add: sorted_append)
  qed
next
  case (EvSet d)
  then show ?thesis using step f stalled_append on_set_fields [of d t t']
    by (auto simp: idle_step_def follows_def split: if_splits)
next
  case (EvOneshot d)
  then show ?thesis using step f stalled_append on_set_fields [of d "t\<lparr>it_oneshot := True\<rparr>" t']
    by (auto simp: idle_step_def follows_def Let_def split: if_splits)
next
  case (EvAdd g)
  then show ?thesis using step by (intro follows_open [OF f]) (auto simp: idle_step_def split: if_splits)
next
  case (EvCallback g)
  then show ?thesis using step by (intro follows_open [OF f]) (auto simp: idle_step_def split: if_splits)
next
  case EvStop
  then show ?thesis using step by (intro follows_open [OF f]) (auto simp: idle_step_def)
qed

lemma idle_step_lastOK:
  assumes "idle_step e t = Ret t'" "it_lastOK t \<in> insert 0 A"
  shows "it_lastOK t' \<in> insert 0 (A \<union> set (reading e))"
  using assms by (cases e) (auto simp: idle_step_def BeginAttempt_def AttemptOK_def Let_def elim: on_tick_cases split: if_splits
    dest!: on_set_fields)

lemma follows_run:
  assumes "NewIdleTimer g d = Ret t0" "sorted (concat (map reading es))" "\<forall>n\<in>set (concat (map reading es)). 0 \<le> n"
    and "idle_run es t0 = Ret t"
  shows "follows es t \<and> timer_ok t \<and> it_lastOK t \<in> insert 0 (set (concat (map reading es)))"
  using assms(2-4)
proof (induction es arbitrary: t rule: rev_induct)
  case Nil
  then have "t = t0" by simp
  then show ?case using assms(1) NewIdleTimer_ok [OF assms(1)]
    by (auto simp: NewIdleTimer_def Let_def follows_def start_ticker_Ret split: if_splits)
next
  case (snoc e es)
  obtain u where u: "idle_run es t0 = Ret u" "idle_step e u = Ret t"
    using snoc.prems(3) by (auto simp: idle_run_append bind_go_Ret_iff)
  have "sorted (concat (map reading es))" "\<forall>n\<in>set (concat (map reading es)). 0 \<le> n"
    using snoc.prems(1,2) by (simp_all add: sorted_append)
  then have "follows es u" "timer_ok u" "it_lastOK u \<in> insert 0 (set (concat (map reading es)))" using snoc.IH u(1) by blast+
  then show ?case using follows_step [OF _ _ u(2) snoc.prems(1) _ snoc.prems(2)] idle_step_ok [OF u(2)]
      idle_step_lastOK [OF u(2), of "set (concat (map reading es))"] by simp
qed

text \<open>
  C29: a timeout is raised only for an attempt without a success.  Whatever was done with a timer since it was made, if the
  clock never went back and a timeout is raised now, then with the duration that is set now there was an
  attempt after whose beginning no success was recorded (\<open>AttemptOK\<close>), no other attempt began and no new duration was set until, more than that
  duration later, the ticker fired; and that duration is positive.  The attempt need not be under way any more: a
  read that returned with an error records nothing, so that the timer can fire for it, as the comment of \<open>IdleStatus\<close> says.
\<close>

theorem timeout_means_stalled:
  assumes "NewIdleTimer g d = Ret t0" "sorted (concat (map reading es))" "\<forall>n\<in>set (concat (map reading es)). 0 \<le> n"
    and "idle_run es t0 = Ret t" "it_raised t \<noteq> []"
  shows "\<exists>a s b n c. es = a @ EvBegin s # b @ EvTick n # c \<and> 0 < it_dur t \<and> it_dur t < n - s
    \<and> (\<forall>e\<in>set b. \<not> is_set e \<and> (\<forall>m. e \<noteq> EvBegin m \<and> e \<noteq> EvOK m))"
  using follows_run [OF assms(1-4)] assms(5) by (auto simp: follows_def stalled_def)

subsection \<open>A stalled attempt is noticed\<close>

lemma start_all_Some: "list_all (\<lambda>f. f \<noteq> None) fs \<Longrightarrow> start_all fs fired = Ret (fired @ map the fs)"
  by (induction fs arbitrary: fired) auto

lemma ticks_notice:
  assumes "it_heart t" "\<not> it_stop t" "it_callbacks t \<noteq> []" "list_all (\<lambda>f. f \<noteq> None) (it_callbacks t)" "timer_ok t"
    and "0 < it_lastStart t" "it_lastOK t < it_lastStart t" "it_dur t < n - it_lastStart t" "n \<in> set ns"
  shows "idle_run (map EvTick ns) t
    = Ret (t\<lparr>it_raised := ''timing out'', it_heart := False, it_fired := it_fired t @ map the (it_callbacks t)\<rparr>)"
  using assms(9)
proof (induction ns)
  case (Cons k ns)
  have d: "0 < it_dur t" "it_atomicdur t = it_dur t" using assms(1,5) by (auto simp: timer_ok_def)
  show ?case
  proof (cases "IdleStatus k t")
    case True
    let ?u = "t\<lparr>it_raised := ''timing out'', it_heart := False, it_fired := it_fired t @ map the (it_callbacks t)\<rparr>"
    have "idle_step (EvTick k) t = Ret ?u" using True assms(1-4) d by (simp add: idle_step_def on_tick_def start_all_Some)
    moreover have "idle_run (map EvTick ms) ?u = Ret ?u" for ms by (induction ms) (simp_all add: idle_step_def)
    ultimately show ?thesis by simp
  next
    case False
    then have "k \<noteq> n" using assms(6-8) d by (auto simp: IdleStatus_def)
    moreover have "idle_step (EvTick k) t = Ret t" using False assms(1,2) d by (simp add: idle_step_def on_tick_def)
    ultimately show ?thesis using Cons by simp
  qed
qed simp

lemma stall_is_noticed:
  assumes "it_heart t" "\<not> it_stop t" "it_callbacks t \<noteq> []" "list_all (\<lambda>f. f \<noteq> None) (it_callbacks t)" "timer_ok t"
    and "0 < s" "it_lastOK t < s" "it_dur t < n - s" "n \<in> set ns"
  shows "\<exists>t'. idle_run (EvBegin s # map EvTick ns) t = Ret t' \<and> it_raised t' \<noteq> [] \<and> it_fired t' = it_fired t @ map the (it_callbacks t)"
  using ticks_notice [of "BeginAttempt s t" n ns] assms by (simp add: idle_step_def BeginAttempt_def timer_ok_def)

subsection \<open>What goes wrong\<close>

text \<open>
  A timer that has fired is not armed again by setting the same duration.  \<open>SetIdleTimeout\<close> clears the raised
  timeout and returns without starting a ticker, so that whatever attempts are made and however long
  they stall, no timeout is raised and no callback runs until another duration is set.
\<close>

lemma same_duration_never_rearms:
  assumes "NewIdleTimer g d = Ret t0" "idle_run es t0 = Ret t" "it_raised t \<noteq> []" "\<not> it_stop t"
    and "idle_run (EvSet (it_dur t) # fs) t = Ret t'" "\<forall>e\<in>set fs. is_set e \<longrightarrow> e = EvSet (it_dur t)"
  shows "0 < it_dur t \<longrightarrow> it_raised t' = [] \<and> it_fired t' = it_fired t"
proof
  assume d: "0 < it_dur t"
  have ok: "timer_ok t" using assms(1,2) NewIdleTimer_ok idle_run_ok by blast
  define quiet where "quiet u \<longleftrightarrow> it_dur u = it_dur t \<and> \<not> it_heart u \<and> it_raised u = [] \<and> it_fired u = it_fired t" for u :: idle_timer
  have q1: "quiet v" if "on_set (it_dur t) u = Ret v" "it_dur u = it_dur t" "\<not> it_heart u" "it_fired u = it_fired t" for u v
    using that d by (auto simp: on_set_def quiet_def Let_def)
  have q2: "quiet v" if "quiet u" "idle_step e u = Ret v" "is_set e \<longrightarrow> e = EvSet (it_dur t)" for e u v
    using that q1 [of u v]
    by (cases e) (auto simp: idle_step_def quiet_def BeginAttempt_def AttemptOK_def split: if_splits)
  have q3: "quiet v" if "idle_run fs u = Ret v" "quiet u" "\<forall>e\<in>set fs. is_set e \<longrightarrow> e = EvSet (it_dur t)" for fs u v
    using that by (induction fs arbitrary: u) (auto simp: bind_go_Ret_iff intro: q2)
  obtain u where u: "on_set (it_dur t) t = Ret u" "idle_run fs u = Ret t'"
    using assms(4,5) by (auto simp: bind_go_Ret_iff idle_step_def)
  have "quiet u" using u(1) ok assms(3) by (intro q1 [of t]) (auto simp: timer_ok_def)
  then show "it_raised t' = [] \<and> it_fired t' = it_fired t" using q3 [OF u(2) _ assms(6)] by (simp add: quiet_def)
qed

text \<open>
  C37: a deadline that has passed crashes the program.  Setting a read or write deadline that is less than ten
  nanoseconds away, or in the past, panics in the goroutine of the timer (the interval of its ticker is a tenth,
  which is 0), in every state of a timer that has not been stopped; a later deadline never does.
\<close>

theorem near_deadline_panics_iff:
  assumes "NewIdleTimer g d = Ret t0" "idle_run es t0 = Ret t" "\<not> it_stop t"
  shows "(\<exists>e. idle_step (setDeadline (Some until)) t = Panic e) \<longleftrightarrow> until < 10"
proof -
  have "timer_ok t" using assms(1,2) NewIdleTimer_ok idle_run_ok by blast
  then show ?thesis using assms(3)
    by (auto simp: setDeadline_def idle_step_def on_set_def start_ticker_def factor_def timer_ok_def set_duration_def Let_def)
qed

text \<open>A read that succeeds under a deadline stops the timer for good: later deadlines and timeouts have no effect.\<close>

lemma deadline_works_once:
  assumes "idle_step (setDeadline u) t = Ret t1"
  shows "idle_run (EvOK n # es) t1 = Ret t' \<Longrightarrow> it_stop t' \<and> it_raised t' = it_raised t1 \<and> it_fired t' = it_fired t1"
proof -
  have "it_oneshot t1"
    using assms by (auto simp: setDeadline_def idle_step_def on_set_def start_ticker_Ret set_duration_def Let_def split: option.splits if_splits)
  then have s: "idle_step (EvOK n) t1 = Ret (t1\<lparr>it_stop := True\<rparr>)" by (simp add: idle_step_def AttemptOK_def)
  have "it_stop v \<and> it_raised v = it_raised u \<and> it_fired v = it_fired u" if "idle_run es u = Ret v" "it_stop u" for es u v
    using that by (induction es arbitrary: u)
      (auto simp: bind_go_Ret_iff idle_step_def BeginAttempt_def AttemptOK_def Let_def split: idle_event.splits if_splits)
  then show "idle_run (EvOK n # es) t1 = Ret t' \<Longrightarrow> it_stop t' \<and> it_raised t' = it_raised t1 \<and> it_fired t' = it_fired t1"
    using s by fastforce
qed

subsection \<open>The theorems on a concrete timer\<close>

definition demo_events :: "idle_event list" where
  "demo_events = [EvSet 1000, EvBegin 5, EvTick 105, EvTick 1105]"

definition demo_idle :: idle_timer where
  "demo_idle = \<lparr>it_dur = 1000, it_atomicdur = 1000, it_heart = False, it_lastStart = 5, it_lastOK = 0, it_raised = ''timing out'',
     it_callbacks = [Some 7], it_fired = [7], it_oneshot = False, it_stop = False\<rparr>"

lemma demo_timer: "NewIdleTimer (Some 7) 0 = Ret
    \<lparr>it_dur = 0, it_atomicdur = 0, it_heart = False, it_lastStart = 0, it_lastOK = 0, it_raised = [],
     it_callbacks = [Some 7], it_fired = [], it_oneshot = False, it_stop = False\<rparr>"
  by (simp add: NewIdleTimer_def)

lemma demo_idle_run: "idle_run demo_events \<lparr>it_dur = 0, it_atomicdur = 0, it_heart = False, it_lastStart = 0, it_lastOK = 0, it_raised = [],
     it_callbacks = [Some 7], it_fired = [], it_oneshot = False, it_stop = False\<rparr> = Ret demo_idle"
  by (simp add: demo_events_def demo_idle_def idle_step_def on_set_def start_ticker_def factor_def set_duration_def BeginAttempt_def
    on_tick_def IdleStatus_def Let_def)

theorem timeout_means_stalled_witness:
  "\<exists>a s b n c. demo_events = a @ EvBegin s # b @ EvTick n # c \<and> 1000 < n - s"
  using timeout_means_stalled [OF demo_timer _ _ demo_idle_run] by (simp add: demo_events_def demo_idle_def) blast

theorem near_deadline_panics_iff_witness: "\<exists>e. idle_step (setDeadline (Some 0)) demo_idle = Panic e"
  using near_deadline_panics_iff [OF demo_timer demo_idle_run, of 0] by (simp add: demo_idle_def)

end
