(* ===== verification/Forwards.thy ===== *)
theory Forwards
  imports Wire "HOL-Library.Multiset"
begin

section \<open>Remote port forwarding\<close>

text \<open>
  \<^verbatim>\<open>tcpip.go\<close> and \<^verbatim>\<open>streamlocal.go\<close> of the ssh library and the dispatch of \<^verbatim>\<open>client.go\<close>: a client asks
  the server to listen, registers the address in its \<^verbatim>\<open>ForwardList\<close>, and hands the channels that the
  server opens to the listener of their address; and the reverse listener of \<^verbatim>\<open>sshutil.go\<close>.

  The Go channel of a listener has room for one forward; the channels are kept in a store and
  referred to by index.  The dispatcher \<open>HandleChannelOpens\<close> takes the channels from the multiplexer and puts each into the queue
  of the handler of its type; two goroutines run \<open>HandleChannels\<close>, one for each kind of channel.
  \<open>Forward\<close> waits for room in the channel of the listener while it holds the lock of the list: such a
  goroutine is \<open>HSending\<close>, and nothing else that needs the lock has a step.

  The parser of IP addresses is a parameter, which gives the canonical text of an address.
\<close>

subsection \<open>Addresses\<close>

datatype net_addr = TCPAddr "string option" int | UnixAddr string

fun Network :: "net_addr \<Rightarrow> string" where
  "Network (TCPAddr ip port) = ''tcp''"
| "Network (UnixAddr name) = ''unix''"

definition JoinHostPort :: "string \<Rightarrow> string \<Rightarrow> string" where
  "JoinHostPort host port =
     (if CHR '':'' \<in> set host then ''['' @ host @ '']:'' @ port else host @ '':'' @ port)"

text \<open>The text of an address: no IP is the empty host.\<close>

fun addr_String :: "net_addr \<Rightarrow> string" where
  "addr_String (TCPAddr ip port) = JoinHostPort (case ip of None \<Rightarrow> [] | Some s \<Rightarrow> s) (show_int port)"
| "addr_String (UnixAddr name) = name"

text \<open>\<^verbatim>\<open>IP.String\<close>.\<close>

definition ip_String :: "string option \<Rightarrow> string" where
  "ip_String ip = (case ip of None \<Rightarrow> ''<nil>'' | Some s \<Rightarrow> s)"

definition same_addr :: "net_addr \<Rightarrow> net_addr \<Rightarrow> bool" where
  "same_addr a b \<longleftrightarrow> Network a = Network b \<and> addr_String a = addr_String b"

subsection \<open>The list of forwards\<close>

record new_channel =
  nc_id :: nat
  nc_type :: string
  nc_extra :: bytes

type_synonym forward = "new_channel \<times> net_addr"

record fwd_chan =
  fc_laddr :: net_addr
  fc_buf :: "forward list"
  fc_closed :: bool

record forward_list =
  fl_entries :: "(net_addr \<times> nat) list"
  fl_chans :: "fwd_chan list"

definition fl_add :: "net_addr \<Rightarrow> forward_list \<Rightarrow> nat \<times> forward_list" where
  "fl_add addr l =
     (length (fl_chans l),
      \<lparr>fl_entries = fl_entries l @ [(addr, length (fl_chans l))],
       fl_chans = fl_chans l @ [\<lparr>fc_laddr = addr, fc_buf = [], fc_closed = False\<rparr>]\<rparr>)"

definition close_chan :: "nat \<Rightarrow> fwd_chan list \<Rightarrow> fwd_chan list go" where
  "close_chan i cs = (if fc_closed (cs ! i) then Panic ''close of closed channel'' else Ret (cs[i := (cs ! i)\<lparr>fc_closed := True\<rparr>]))"

fun split_entry :: "net_addr \<Rightarrow> (net_addr \<times> nat) list \<Rightarrow> (nat \<times> (net_addr \<times> nat) list) option" where
  "split_entry addr [] = None"
| "split_entry addr ((a, i) # es) =
     (if same_addr addr a then Some (i, es) else map_option (\<lambda>(j, es'). (j, (a, i) # es')) (split_entry addr es))"

definition Remove :: "net_addr \<Rightarrow> forward_list \<Rightarrow> forward_list go" where
  "Remove addr l =
     (case split_entry addr (fl_entries l) of
        None \<Rightarrow> Ret l
      | Some (i, es) \<Rightarrow> bind_go (close_chan i (fl_chans l)) (\<lambda>cs. Ret \<lparr>fl_entries = es, fl_chans = cs\<rparr>))"

fun close_each :: "(net_addr \<times> nat) list \<Rightarrow> fwd_chan list \<Rightarrow> fwd_chan list go" where
  "close_each [] cs = Ret cs"
| "close_each ((a, i) # es) cs = bind_go (close_chan i cs) (close_each es)"

definition CloseAll :: "forward_list \<Rightarrow> forward_list go" where
  "CloseAll l = bind_go (close_each (fl_entries l) (fl_chans l)) (\<lambda>cs. Ret \<lparr>fl_entries = [], fl_chans = cs\<rparr>)"

text \<open>The channel a forward goes to: the one of the first entry with the address.\<close>

definition find_entry :: "net_addr \<Rightarrow> forward_list \<Rightarrow> nat option" where
  "find_entry addr l = map_option fst (split_entry addr (fl_entries l))"

text \<open>The send of \<open>Forward\<close>: None while the buffer is full.\<close>

definition chan_send :: "nat \<Rightarrow> forward \<Rightarrow> forward_list \<Rightarrow> forward_list option go" where
  "chan_send i f l =
     (let c = fl_chans l ! i in
      if fc_closed c then Panic ''send on closed channel''
      else if fc_buf c \<noteq> [] then Ret None
      else Ret (Some (l\<lparr>fl_chans := (fl_chans l)[i := c\<lparr>fc_buf := [f]\<rparr>]\<rparr>)))"

subsection \<open>Channels opened by the server\<close>

definition forwardedTCPPayload :: schema where
  "forwardedTCPPayload = \<lparr>sc_tags = [], sc_fields = [KString, KU32, KString, KU32]\<rparr>"

definition forwardedStreamLocalPayload :: schema where
  "forwardedStreamLocalPayload = \<lparr>sc_tags = [], sc_fields = [KString, KString]\<rparr>"

definition parseTCPAddr :: "(string \<Rightarrow> string option) \<Rightarrow> string \<Rightarrow> u32 \<Rightarrow> string + net_addr" where
  "parseTCPAddr parseIP addr port =
     (if port = 0 \<or> 65535 < port then Inl (''ssh: port number out of range: '' @ show_nat (unat port))
      else (case parseIP addr of
          None \<Rightarrow> Inl (''ssh: cannot parse IP address '' @ addr)
        | Some ip \<Rightarrow> Inr (TCPAddr (Some ip) (int (unat port)))))"

definition forward_target :: "(string \<Rightarrow> string option) \<Rightarrow> new_channel \<Rightarrow> (string + net_addr \<times> net_addr) go" where
  "forward_target parseIP ch =
     (if nc_type ch = ''forwarded-tcpip'' then
        Ret (case Unmarshal forwardedTCPPayload (nc_extra ch) of
            Inr [VStr addr, VU32 port, VStr oaddr, VU32 oport] \<Rightarrow>
              (case parseTCPAddr parseIP addr port of
                 Inl e \<Rightarrow> Inl e
               | Inr laddr \<Rightarrow> (case parseTCPAddr parseIP oaddr oport of Inl e \<Rightarrow> Inl e | Inr raddr \<Rightarrow> Inr (laddr, raddr)))
          | _ \<Rightarrow> Inl ''could not parse forwarded-tcpip payload: '')
      else if nc_type ch = ''forwarded-streamlocal@openssh.com'' then
        Ret (case Unmarshal forwardedStreamLocalPayload (nc_extra ch) of
            Inr [VStr path, VStr _] \<Rightarrow> Inr (UnixAddr path, UnixAddr ''@'')
          | _ \<Rightarrow> Inl ''could not parse forwarded-streamlocal@openssh.com payload: '')
      else Panic ''ssh: unknown channel type'')"

subsection \<open>The goroutines\<close>

text \<open>
  \<open>HandleChannelOpen\<close> makes the queue of a type, which has room for \<open>handler_chanSize\<close> channels: a map that is gone gives a
  closed Go channel, a type that is handled already gives nil.
\<close>

definition handler_chanSize :: nat where
  "handler_chanSize = 16"

datatype handler_chan = ClosedChan | NilChan | QueueOf string

definition HandleChannelOpen :: "string \<Rightarrow> (string \<rightharpoonup> new_channel list) option
    \<Rightarrow> handler_chan \<times> (string \<rightharpoonup> new_channel list) option" where
  "HandleChannelOpen channelType handlers =
     (case handlers of
        None \<Rightarrow> (ClosedChan, None)
      | Some hs \<Rightarrow> if hs channelType \<noteq> None then (NilChan, handlers) else (QueueOf channelType, Some (hs(channelType \<mapsto> []))))"

text \<open>
  A goroutine that runs \<open>HandleChannels\<close> waits for a channel, has taken one (and may wait for the lock of the list), or is
  in the send of \<open>Forward\<close> with the lock held.  The dispatcher \<open>HandleChannelOpens\<close> waits, or holds a channel until there is
  room in the queue of its type.
\<close>

datatype handler_pc = HIdle | HTaken new_channel | HSending nat forward | HGone

datatype dispatcher_pc = DIdle | DHolding new_channel | DGone

text \<open>
  The state with its histories: the channels that came (were taken from the multiplexer), those
  refused with the reason, those a listener took, and those dropped by a goroutine that saw the end of
  the connection with a channel in its hand.
\<close>

record fwd_sys =
  fs_list :: forward_list
  fs_handlers :: "(string \<rightharpoonup> new_channel list) option"
  fs_disp :: dispatcher_pc
  fs_pc :: "string \<Rightarrow> handler_pc"
  fs_came :: "new_channel list"
  fs_refused :: "(new_channel \<times> nat) list"
  fs_taken :: "(nat \<times> forward) list"
  fs_dropped :: "new_channel list"

definition handled_types :: "string list" where
  "handled_types = [''forwarded-tcpip'', ''forwarded-streamlocal@openssh.com'']"

definition fs_locked :: "fwd_sys \<Rightarrow> bool" where
  "fs_locked s \<longleftrightarrow> list_ex (\<lambda>k. case fs_pc s k of HSending i f \<Rightarrow> True | _ \<Rightarrow> False) handled_types"

definition refuse :: "new_channel \<Rightarrow> nat \<Rightarrow> fwd_sys \<Rightarrow> fwd_sys" where
  "refuse ch reason s = s\<lparr>fs_refused := fs_refused s @ [(ch, reason)]\<rparr>"

definition set_pc :: "string \<Rightarrow> handler_pc \<Rightarrow> fwd_sys \<Rightarrow> fwd_sys" where
  "set_pc k pc s = s\<lparr>fs_pc := (fs_pc s)(k := pc)\<rparr>"

text \<open>The queue of a type; a lookup in a map that is gone finds nothing.\<close>

definition handler_of :: "fwd_sys \<Rightarrow> string \<Rightarrow> new_channel list option" where
  "handler_of s k = (case fs_handlers s of None \<Rightarrow> None | Some hs \<Rightarrow> hs k)"

definition set_queue :: "string \<Rightarrow> new_channel list \<Rightarrow> fwd_sys \<Rightarrow> fwd_sys" where
  "set_queue k q s = s\<lparr>fs_handlers := map_option (\<lambda>hs. hs(k \<mapsto> q)) (fs_handlers s)\<rparr>"

text \<open>
  A turn of \<open>HandleChannels\<close> for the channel it took: refused as not parsed (2), for which no lock is
  needed; then, with the lock, refused as prohibited (1), or on the way into the channel of its listener.
\<close>

definition handle_channel :: "(string \<Rightarrow> string option) \<Rightarrow> string \<Rightarrow> new_channel \<Rightarrow> fwd_sys \<Rightarrow> fwd_sys go option" where
  "handle_channel parseIP k ch s =
     (case forward_target parseIP ch of
        Panic x \<Rightarrow> Some (Panic x)
      | Hang \<Rightarrow> None
      | Ret (Inl e) \<Rightarrow> Some (Ret (set_pc k HIdle (refuse ch 2 s)))
      | Ret (Inr (laddr, raddr)) \<Rightarrow>
          if fs_locked s then None
          else (case find_entry laddr (fs_list s) of
              None \<Rightarrow> Some (Ret (set_pc k HIdle (refuse ch 1 s)))
            | Some i \<Rightarrow> Some (Ret (set_pc k (HSending i (ch, raddr)) s))))"

text \<open>
  The dispatcher.  A channel whose type has no handler is refused with reason 3; a handler is looked up once, and then the
  channel waits in the hand of the dispatcher for room in its queue.
\<close>

definition dispatch_open :: "new_channel \<Rightarrow> fwd_sys \<Rightarrow> fwd_sys" where
  "dispatch_open ch s =
     (let s1 = s\<lparr>fs_came := fs_came s @ [ch]\<rparr> in
      case handler_of s (nc_type ch) of None \<Rightarrow> refuse ch 3 s1 | Some q \<Rightarrow> s1\<lparr>fs_disp := DHolding ch\<rparr>)"

definition dispatch_queue :: "new_channel \<Rightarrow> fwd_sys \<Rightarrow> fwd_sys option" where
  "dispatch_queue ch s =
     (case handler_of s (nc_type ch) of
        None \<Rightarrow> None
      | Some q \<Rightarrow> if length q < handler_chanSize then Some (set_queue (nc_type ch) (q @ [ch]) (s\<lparr>fs_disp := DIdle\<rparr>)) else None)"

text \<open>
  What can happen.  \<open>FRegister\<close> is a call of \<open>HandleChannelOpen\<close> by \<open>NewClient\<close>, which starts the dispatcher before; \<open>FOpen\<close> is
  the dispatcher taking a channel from the multiplexer, \<open>FQueue\<close> its send to the handler, \<open>FDispatchStop\<close> its end; \<open>FTake\<close> and
  \<open>FHandle\<close> are a handler that takes a channel and deals with it, \<open>FSend\<close> is the send of \<open>Forward\<close>, possible when
  there is room, \<open>FStop\<close> the end of the connection as a handler sees it, in its own select or in that of \<open>Forward\<close>; \<open>FAccept\<close>
  takes from the channel of a listener.  None: not possible now.
\<close>

datatype fwd_event = FListen net_addr | FRegister string | FOpen new_channel | FQueue | FDispatchStop | FTake string | FHandle string
  | FSend string | FStop string | FAccept nat | FClose net_addr | FCloseAll

definition fwd_step :: "(string \<Rightarrow> string option) \<Rightarrow> fwd_event \<Rightarrow> fwd_sys \<Rightarrow> fwd_sys go option" where
  "fwd_step parseIP e s =
     (case e of
        FListen addr \<Rightarrow> if fs_locked s then None else Some (Ret (s\<lparr>fs_list := snd (fl_add addr (fs_list s))\<rparr>))
      | FRegister k \<Rightarrow>
          if k \<notin> set handled_types then None
          else (case HandleChannelOpen k (fs_handlers s) of (QueueOf _, hs) \<Rightarrow> Some (Ret (s\<lparr>fs_handlers := hs\<rparr>)) | _ \<Rightarrow> None)
      | FOpen ch \<Rightarrow> if fs_disp s = DIdle then Some (Ret (dispatch_open ch s)) else None
      | FQueue \<Rightarrow> (case fs_disp s of DHolding ch \<Rightarrow> map_option Ret (dispatch_queue ch s) | _ \<Rightarrow> None)
      | FDispatchStop \<Rightarrow>
          (case fs_disp s of
             DHolding ch \<Rightarrow> Some (Ret (s\<lparr>fs_disp := DGone, fs_dropped := fs_dropped s @ [ch]\<rparr>))
           | _ \<Rightarrow> Some (Ret (s\<lparr>fs_disp := DGone\<rparr>)))
      | FTake k \<Rightarrow>
          (case (fs_pc s k, handler_of s k) of
             (HIdle, Some (ch # q)) \<Rightarrow> Some (Ret (set_pc k (HTaken ch) (set_queue k q s)))
           | _ \<Rightarrow> None)
      | FHandle k \<Rightarrow> (case fs_pc s k of HTaken ch \<Rightarrow> handle_channel parseIP k ch s | _ \<Rightarrow> None)
      | FSend k \<Rightarrow>
          (case fs_pc s k of
             HSending i f \<Rightarrow>
               (case chan_send i f (fs_list s) of
                  Ret None \<Rightarrow> None
                | Ret (Some l) \<Rightarrow> Some (Ret (set_pc k HIdle (s\<lparr>fs_list := l\<rparr>)))
                | Panic x \<Rightarrow> Some (Panic x)
                | Hang \<Rightarrow> None)
           | _ \<Rightarrow> None)
      | FStop k \<Rightarrow>
          (case fs_pc s k of
             HIdle \<Rightarrow> Some (Ret (set_pc k HGone s))
           | HSending i f \<Rightarrow> Some (Ret (set_pc k HGone (s\<lparr>fs_dropped := fs_dropped s @ [fst f]\<rparr>)))
           | _ \<Rightarrow> None)
      | FAccept i \<Rightarrow>
          if length (fl_chans (fs_list s)) \<le> i then None
          else (case fc_buf (fl_chans (fs_list s) ! i) of
              [] \<Rightarrow> None
            | f # fs \<Rightarrow> Some (Ret (s\<lparr>fs_list := (fs_list s)\<lparr>fl_chans := (fl_chans (fs_list s))[i := (fl_chans (fs_list s) ! i)\<lparr>fc_buf := fs\<rparr>]\<rparr>,
                fs_taken := fs_taken s @ [(i, f)]\<rparr>)))
      | FClose addr \<Rightarrow> if fs_locked s then None else Some (bind_go (Remove addr (fs_list s)) (\<lambda>l. Ret (s\<lparr>fs_list := l\<rparr>)))
      | FCloseAll \<Rightarrow> if fs_locked s then None else Some (bind_go (CloseAll (fs_list s)) (\<lambda>l. Ret (s\<lparr>fs_list := l\<rparr>))))"

definition fwd_start :: fwd_sys where
  "fwd_start = \<lparr>fs_list = \<lparr>fl_entries = [], fl_chans = []\<rparr>, fs_handlers = Some Map.empty, fs_disp = DIdle, fs_pc = (\<lambda>_. HIdle),
     fs_came = [], fs_refused = [], fs_taken = [], fs_dropped = []\<rparr>"

fun fwd_run :: "(string \<Rightarrow> string option) \<Rightarrow> fwd_event list \<Rightarrow> fwd_sys \<Rightarrow> fwd_sys go option" where
  "fwd_run parseIP [] s = Some (Ret s)"
| "fwd_run parseIP (e # es) s =
     (case fwd_step parseIP e s of Some (Ret s') \<Rightarrow> fwd_run parseIP es s' | r \<Rightarrow> r)"

inductive fwd_reachable :: "(string \<Rightarrow> string option) \<Rightarrow> fwd_sys \<Rightarrow> bool" for parseIP where
  start: "fwd_reachable parseIP fwd_start"
| step: "fwd_reachable parseIP s \<Longrightarrow> fwd_step parseIP e s = Some (Ret s') \<Longrightarrow> fwd_reachable parseIP s'"

subsection \<open>Listening\<close>

definition openSSHPrefix :: string where
  "openSSHPrefix = ''OpenSSH_''"

fun string_Index :: "string \<Rightarrow> string \<Rightarrow> nat option" where
  "string_Index [] sub = (if sub = [] then Some 0 else None)"
| "string_Index (c # s) sub = (if HasPrefix (c # s) sub then Some 0 else map_option Suc (string_Index s sub))"

definition isBrokenOpenSSHVersion :: "string \<Rightarrow> bool" where
  "isBrokenOpenSSHVersion v =
     (case string_Index v openSSHPrefix of
        None \<Rightarrow> False
      | Some i \<Rightarrow> fst (Atoi (takeWhile is_digit (drop (i + length openSSHPrefix) v))) < 6)"

text \<open>The client as far as listeners are concerned: its list, what the server will answer to requests, what was asked.\<close>

datatype answer = AnswerErr string | Answer bool bytes

record fwd_client =
  fk_list :: forward_list
  fk_version :: string
  fk_TmpCtx :: bool
  fk_answers :: "answer list"
  fk_asked :: "(string \<times> bytes) list"

record tcp_listener =
  tl_laddr :: net_addr
  tl_in :: nat
  tl_TmpCtx :: bool

definition send_request :: "string \<Rightarrow> bytes \<Rightarrow> fwd_client \<Rightarrow> answer \<times> fwd_client" where
  "send_request name payload c =
     (let c1 = c\<lparr>fk_asked := fk_asked c @ [(name, payload)]\<rparr> in
      case fk_answers c of [] \<Rightarrow> (AnswerErr ''EOF'', c1) | a # as \<Rightarrow> (a, c1\<lparr>fk_answers := as\<rparr>))"

definition channelForwardMsg :: schema where
  "channelForwardMsg = \<lparr>sc_tags = [], sc_fields = [KString, KU32]\<rparr>"

definition portMsg :: schema where
  "portMsg = \<lparr>sc_tags = [], sc_fields = [KU32]\<rparr>"

text \<open>The rest of \<open>ListenTCP\<close> once the server has agreed: the port it chose, and the entry.\<close>

definition register_listener :: "string option \<Rightarrow> int \<Rightarrow> bytes \<Rightarrow> fwd_client \<Rightarrow> (string + tcp_listener) \<times> fwd_client" where
  "register_listener ip port resp c =
     (let enter = (\<lambda>p. case fl_add (TCPAddr ip p) (fk_list c) of
            (i, l) \<Rightarrow> (Inr \<lparr>tl_laddr = TCPAddr ip p, tl_in = i, tl_TmpCtx = fk_TmpCtx c\<rparr>, c\<lparr>fk_list := l\<rparr>)) in
      if port = 0 then
        (case Unmarshal portMsg resp of Inr [VU32 p] \<Rightarrow> enter (int (unat p)) | _ \<Rightarrow> (Inl ''ssh: parse error'', c))
      else enter port)"

definition listen_on :: "string option \<Rightarrow> int \<Rightarrow> fwd_client \<Rightarrow> (string + tcp_listener) \<times> fwd_client" where
  "listen_on ip port c =
     (case send_request ''tcpip-forward'' (Marshal channelForwardMsg [VStr (ip_String ip), VU32 (word_of_int port)]) c of
        (AnswerErr e, c1) \<Rightarrow> (Inl e, c1)
      | (Answer ok resp, c1) \<Rightarrow>
          if \<not> ok then (Inl ''ssh: tcpip-forward request denied by peer'', c1) else register_listener ip port resp c1)"

text \<open>\<open>autoPortListenWorkaround\<close>; \<open>ports\<close> are the numbers the random source gives, below 60000.\<close>

fun try_ports :: "string option \<Rightarrow> nat list \<Rightarrow> string \<Rightarrow> fwd_client \<Rightarrow> (string + tcp_listener) \<times> fwd_client" where
  "try_ports ip [] err c = (Inl (''ssh: listen on random port failed after 10 tries: '' @ err), c)"
| "try_ports ip (r # rs) err c =
     (case listen_on ip (1024 + int r) c of (Inr l, c1) \<Rightarrow> (Inr l, c1) | (Inl e, c1) \<Rightarrow> try_ports ip rs e c1)"

definition ListenTCP :: "(nat \<Rightarrow> nat) \<Rightarrow> string option \<Rightarrow> int \<Rightarrow> fwd_client \<Rightarrow> (string + tcp_listener) \<times> fwd_client" where
  "ListenTCP rand ip port c =
     (if port = 0 \<and> isBrokenOpenSSHVersion (fk_version c) then try_ports ip (map rand [0..<10]) [] c
      else listen_on ip port c)"

text \<open>
  \<open>Accept\<close> of a listener for tcp: the select evaluates the channel of its context before it waits; \<open>connDone\<close> and
  \<open>ctxDone\<close> say that it saw the end of the connection or of the context.
\<close>

datatype accept_res = AcceptEOF | AcceptWait | Accepted forward

definition listener_Accept :: "bool \<Rightarrow> bool \<Rightarrow> tcp_listener \<Rightarrow> forward_list \<Rightarrow> (accept_res \<times> forward_list) go" where
  "listener_Accept connDone ctxDone ln l =
     (if \<not> tl_TmpCtx ln then Panic ''nil pointer dereference''
      else if connDone \<or> ctxDone then Ret (AcceptEOF, l)
      else let c = fl_chans l ! tl_in ln in
        (case fc_buf c of
           f # fs \<Rightarrow> Ret (Accepted f, l\<lparr>fl_chans := (fl_chans l)[tl_in ln := c\<lparr>fc_buf := fs\<rparr>]\<rparr>)
         | [] \<Rightarrow> Ret (if fc_closed c then AcceptEOF else AcceptWait, l)))"

definition listener_Close :: "tcp_listener \<Rightarrow> fwd_client \<Rightarrow> (string option \<times> fwd_client) go" where
  "listener_Close ln c =
     bind_go (Remove (tl_laddr ln) (fk_list c)) (\<lambda>l.
       case tl_laddr ln of
         TCPAddr ip port \<Rightarrow>
           (case send_request ''cancel-tcpip-forward'' (Marshal channelForwardMsg [VStr (ip_String ip), VU32 (word_of_int port)]) (c\<lparr>fk_list := l\<rparr>) of
              (AnswerErr e, c1) \<Rightarrow> Ret (Some e, c1)
            | (Answer ok _, c1) \<Rightarrow> Ret (if ok then None else Some ''ssh: cancel-tcpip-forward failed'', c1))
       | UnixAddr name \<Rightarrow> Ret (None, c\<lparr>fk_list := l\<rparr>))"

text \<open>\<open>NewClient\<close> leaves the context unset.\<close>

definition NewClient :: "string \<Rightarrow> answer list \<Rightarrow> fwd_client" where
  "NewClient version answers =
     \<lparr>fk_list = \<lparr>fl_entries = [], fl_chans = []\<rparr>, fk_version = version, fk_TmpCtx = False, fk_answers = answers, fk_asked = []\<rparr>"

text \<open>
  \<open>StartupReverseListener\<close> up to the first turn of its goroutine: an error of listening is returned,
  the end of the listener is a panic.
\<close>

definition StartupReverseListener :: "(nat \<Rightarrow> nat) \<Rightarrow> string option \<Rightarrow> int \<Rightarrow> bool \<Rightarrow> fwd_client \<Rightarrow> (string option \<times> fwd_client) go" where
  "StartupReverseListener rand ip port connDone c =
     (case ListenTCP rand ip port c of
        (Inl e, c1) \<Rightarrow> Ret (Some e, c1)
      | (Inr ln, c1) \<Rightarrow>
          bind_go (listener_Accept connDone False ln (fk_list c1)) (\<lambda>(r, l).
            case r of AcceptEOF \<Rightarrow> Panic ''EOF'' | _ \<Rightarrow> Ret (None, c1\<lparr>fk_list := l\<rparr>)))"

end
