(* ===== verification/Forwards_Proofs.thy ===== *)
theory Forwards_Proofs
  imports Forwards Wire_Proofs
begin

section \<open>Forwarded channels reach their listener\<close>

text \<open>
  The invariant of the list of forwards under every interleaving: no channel of a listener is closed
  twice or sent to after its close, no incoming channel is lost or handed out twice, and a listener
  gets the channels for its address only.  Then the way from a request to listen to a forwarded
  connection, and what happens to the reverse listener of the program.
\<close>

subsection \<open>Bookkeeping\<close>

lemma mset_concat_update:
  "i < length cs \<Longrightarrow> mset (concat (map g (cs[i := c]))) + mset (g (cs ! i)) = mset (concat (map g cs)) + mset (g c)"
proof (induction cs arbitrary: i)
  case (Cons x cs)
  then show ?case by (cases i) (auto simp: ac_simps)
qed simp

lemma split_entry_Some:
  "split_entry a es = Some (i, es') \<Longrightarrow> \<exists>b. (b, i) \<in> set es \<and> same_addr a b \<and> mset es = add_mset (b, i) (mset es')"
proof (induction es arbitrary: es')
  case (Cons e es)
  obtain b j where e: "e = (b, j)" by (cases e)
  show ?case
  proof (cases "same_addr a b")
    case True
    then show ?thesis using Cons.prems e by auto
  next
    case False
    then obtain es2 where "split_entry a es = Some (i, es2)" "es' = e # es2" using Cons.prems e by auto
    then show ?thesis using Cons.IH [of es2] by auto
  qed
qed simp

lemma find_entry_Some: "find_entry a l = Some i \<Longrightarrow> \<exists>b. (b, i) \<in> set (fl_entries l) \<and> same_addr a b"
  using split_entry_Some by (fastforce simp: find_entry_def)

definition list_ok :: "forward_list \<Rightarrow> bool" where
  "list_ok l \<longleftrightarrow> distinct (map snd (fl_entries l))
     \<and> (\<forall>(a, i)\<in>set (fl_entries l). i < length (fl_chans l) \<and> \<not> fc_closed (fl_chans l ! i) \<and> fc_laddr (fl_chans l ! i) = a)"

lemma list_ok_entry:
  "list_ok l \<Longrightarrow> (a, i) \<in> set (fl_entries l) \<Longrightarrow> i < length (fl_chans l) \<and> \<not> fc_closed (fl_chans l ! i) \<and> fc_laddr (fl_chans l ! i) = a"
  by (auto simp: list_ok_def)

lemma fl_add_ok: "list_ok l \<Longrightarrow> list_ok (snd (fl_add a l))"
  by (auto simp: list_ok_def fl_add_def nth_append)

text \<open>Storing a forward, or taking one, changes a buffer only.\<close>

definition put_buf :: "nat \<Rightarrow> forward list \<Rightarrow> forward_list \<Rightarrow> forward_list" where
  "put_buf i b l = l\<lparr>fl_chans := (fl_chans l)[i := (fl_chans l ! i)\<lparr>fc_buf := b\<rparr>]\<rparr>"

lemma put_buf_simps [simp]:
  "fl_entries (put_buf i b l) = fl_entries l" "length (fl_chans (put_buf i b l)) = length (fl_chans l)"
  by (simp_all add: put_buf_def)

lemma put_buf_nth:
  "fc_closed (fl_chans (put_buf i b l) ! j) = fc_closed (fl_chans l ! j)" "fc_laddr (fl_chans (put_buf i b l) ! j) = fc_laddr (fl_chans l ! j)"
  "j < length (fl_chans l) \<Longrightarrow> fc_buf (fl_chans (put_buf i b l) ! j) = (if j = i then b else fc_buf (fl_chans l ! j))"
proof -
  have "fl_chans (put_buf i b l) ! j = (if j = i \<and> i < length (fl_chans l) then (fl_chans l ! i)\<lparr>fc_buf := b\<rparr> else fl_chans l ! j)"
    by (cases "i < length (fl_chans l)") (auto simp: put_buf_def nth_list_update list_update_beyond)
  then show "fc_closed (fl_chans (put_buf i b l) ! j) = fc_closed (fl_chans l ! j)"
    "fc_laddr (fl_chans (put_buf i b l) ! j) = fc_laddr (fl_chans l ! j)"
    "j < length (fl_chans l) \<Longrightarrow> fc_buf (fl_chans (put_buf i b l) ! j) = (if j = i then b else fc_buf (fl_chans l ! j))" by auto
qed

lemma put_buf_ok: "list_ok (put_buf i b l) = list_ok l"
  by (simp add: list_ok_def put_buf_nth)

lemma chan_send_cases:
  assumes "list_ok l" "(a, i) \<in> set (fl_entries l)"
  shows "chan_send i f l = (if fc_buf (fl_chans l ! i) \<noteq> [] then Ret None else Ret (Some (put_buf i [f] l)))"
  using list_ok_entry [OF assms] by (simp add: chan_send_def put_buf_def Let_def)

definition waiting :: "forward_list \<Rightarrow> forward list" where
  "waiting l = concat (map fc_buf (fl_chans l))"

lemma waiting_put:
  assumes "i < length (fl_chans l)"
  shows "mset (waiting (put_buf i b l)) + mset (fc_buf (fl_chans l ! i)) = mset (waiting l) + mset b"
  using mset_concat_update [OF assms, of fc_buf "(fl_chans l ! i)\<lparr>fc_buf := b\<rparr>"] by (simp add: waiting_def put_buf_def)

subsection \<open>Closing\<close>

text \<open>The same channels with some more of them closed.\<close>

definition closes :: "nat set \<Rightarrow> fwd_chan list \<Rightarrow> fwd_chan list \<Rightarrow> bool" where
  "closes A cs cs' \<longleftrightarrow> length cs' = length cs \<and> (\<forall>j<length cs. fc_laddr (cs' ! j) = fc_laddr (cs ! j) \<and> fc_buf (cs' ! j) = fc_buf (cs ! j)
     \<and> (j \<notin> A \<longrightarrow> fc_closed (cs' ! j) = fc_closed (cs ! j)))"

lemma closes_bufs: "closes A cs cs' \<Longrightarrow> map fc_buf cs' = map fc_buf cs"
  by (auto simp: closes_def intro: nth_equalityI)

lemma close_chan_closes:
  assumes "i < length cs" "\<not> fc_closed (cs ! i)"
  obtains cs' where "close_chan i cs = Ret cs'" "closes {i} cs cs'"
  using assms by (auto simp: close_chan_def closes_def nth_list_update)

lemma closes_trans: "closes A cs cs1 \<Longrightarrow> closes B cs1 cs2 \<Longrightarrow> closes (A \<union> B) cs cs2"
  by (auto simp: closes_def)

lemma close_each_closes:
  "distinct (map snd es) \<Longrightarrow> \<forall>(a, i)\<in>set es. i < length cs \<and> \<not> fc_closed (cs ! i) \<Longrightarrow>
    \<exists>cs'. close_each es cs = Ret cs' \<and> closes (snd ` set es) cs cs'"
proof (induction es arbitrary: cs)
  case Nil
  then show ?case by (auto simp: closes_def)
next
  case (Cons e es)
  obtain a i where e: "e = (a, i)" by (cases e)
  obtain c1 where c1: "close_chan i cs = Ret c1" "closes {i} cs c1" using close_chan_closes [of i cs] Cons.prems e by auto
  have "\<forall>(b, j)\<in>set es. j < length c1 \<and> \<not> fc_closed (c1 ! j)" using Cons.prems e c1(2) by (force simp: closes_def)
  then obtain c2 where "close_each es c1 = Ret c2" "closes (snd ` set es) c1 c2" using Cons.IH [of c1] Cons.prems(1) by auto
  then show ?case using e c1 closes_trans [OF c1(2)] by auto
qed

lemma Remove_ok:
  assumes "list_ok l"
  shows "\<exists>l' A. Remove a l = Ret l' \<and> list_ok l' \<and> closes A (fl_chans l) (fl_chans l')"
proof (cases "split_entry a (fl_entries l)")
  case None
  then show ?thesis using assms by (auto simp: Remove_def closes_def)
next
  case (Some p)
  obtain i es where p: "p = (i, es)" by (cases p)
  obtain b where b: "(b, i) \<in> set (fl_entries l)" "mset (fl_entries l) = add_mset (b, i) (mset es)"
    using split_entry_Some [of a "fl_entries l" i es] Some p by auto
  obtain cs where cs: "close_chan i (fl_chans l) = Ret cs" "closes {i} (fl_chans l) cs"
    using close_chan_closes list_ok_entry [OF assms b(1)] by metis
  have "mset (map snd (fl_entries l)) = mset (i # map snd es)" using b(2) by (simp add: mset_map)
  from mset_eq_imp_distinct_iff [OF this] have d: "distinct (i # map snd es)" using assms by (simp add: list_ok_def)
  have sub: "set es \<subseteq> set (fl_entries l)" using arg_cong [OF b(2), of set_mset] by auto
  have "j < length cs \<and> \<not> fc_closed (cs ! j) \<and> fc_laddr (cs ! j) = e" if e: "(e, j) \<in> set es" for e j
  proof -
    have "j \<in> set (map snd es)" using e by force
    then have "j \<noteq> i" using d by auto
    moreover have "(e, j) \<in> set (fl_entries l)" using e sub by blast
    ultimately show ?thesis using list_ok_entry [OF assms] cs(2) by (auto simp: closes_def)
  qed
  then have "list_ok \<lparr>fl_entries = es, fl_chans = cs\<rparr>" using d by (auto simp: list_ok_def)
  then show ?thesis using Some p cs by (auto simp: Remove_def)
qed

lemma CloseAll_ok:
  assumes "list_ok l"
  shows "\<exists>l' A. CloseAll l = Ret l' \<and> list_ok l' \<and> closes A (fl_chans l) (fl_chans l')"
proof -
  obtain cs where "close_each (fl_entries l) (fl_chans l) = Ret cs" "closes (snd ` set (fl_entries l)) (fl_chans l) cs"
    using close_each_closes [of "fl_entries l" "fl_chans l"] assms by (auto simp: list_ok_def)
  then show ?thesis by (auto simp: CloseAll_def list_ok_def)
qed

subsection \<open>The invariant\<close>

text \<open>A forward is for an address; the channels that a goroutine holds.\<close>

definition meant_for :: "(string \<Rightarrow> string option) \<Rightarrow> forward \<Rightarrow> net_addr \<Rightarrow> bool" where
  "meant_for parseIP f a \<longleftrightarrow> (\<exists>l. forward_target parseIP (fst f) = Ret (Inr (l, snd f)) \<and> same_addr l a)"

fun held :: "handler_pc \<Rightarrow> new_channel list" where
  "held (HTaken ch) = [ch]"
| "held (HSending i f) = [fst f]"
| "held _ = []"

definition all_held :: "fwd_sys \<Rightarrow> new_channel list" where
  "all_held s = concat (map (\<lambda>k. held (fs_pc s k)) handled_types)"

definition handler_queue :: "fwd_sys \<Rightarrow> string \<Rightarrow> new_channel list" where
  "handler_queue s k = (case handler_of s k of None \<Rightarrow> [] | Some q \<Rightarrow> q)"

definition all_queued :: "fwd_sys \<Rightarrow> new_channel list" where
  "all_queued s = concat (map (handler_queue s) handled_types)"

fun disp_held :: "dispatcher_pc \<Rightarrow> new_channel list" where
  "disp_held (DHolding ch) = [ch]"
| "disp_held _ = []"

definition accounted :: "fwd_sys \<Rightarrow> bool" where
  "accounted s \<longleftrightarrow> mset (fs_came s) = mset (map fst (fs_refused s)) + mset (map (fst \<circ> snd) (fs_taken s))
     + mset (map fst (waiting (fs_list s))) + mset (all_held s) + mset (all_queued s) + mset (disp_held (fs_disp s)) + mset (fs_dropped s)"

definition queues_ok :: "fwd_sys \<Rightarrow> bool" where
  "queues_ok s \<longleftrightarrow>
     (\<forall>k q. handler_of s k = Some q \<longrightarrow> k \<in> set handled_types \<and> length q \<le> handler_chanSize \<and> (\<forall>ch\<in>set q. nc_type ch = k))
   \<and> (\<forall>k ch. fs_pc s k = HTaken ch \<longrightarrow> k \<in> set handled_types \<and> nc_type ch = k)"

definition addressed :: "(string \<Rightarrow> string option) \<Rightarrow> fwd_sys \<Rightarrow> bool" where
  "addressed parseIP s \<longleftrightarrow>
     (\<forall>i<length (fl_chans (fs_list s)). \<forall>f\<in>set (fc_buf (fl_chans (fs_list s) ! i)). meant_for parseIP f (fc_laddr (fl_chans (fs_list s) ! i)))
   \<and> (\<forall>(i, f)\<in>set (fs_taken s). i < length (fl_chans (fs_list s)) \<and> meant_for parseIP f (fc_laddr (fl_chans (fs_list s) ! i)))"

definition senders_ok :: "(string \<Rightarrow> string option) \<Rightarrow> fwd_sys \<Rightarrow> bool" where
  "senders_ok parseIP s \<longleftrightarrow> (\<forall>k i f. fs_pc s k = HSending i f \<longrightarrow> k \<in> set handled_types
     \<and> (\<exists>a. (a, i) \<in> set (fl_entries (fs_list s)) \<and> meant_for parseIP f a))"

definition fwd_inv :: "(string \<Rightarrow> string option) \<Rightarrow> fwd_sys \<Rightarrow> bool" where
  "fwd_inv parseIP s \<longleftrightarrow> list_ok (fs_list s) \<and> accounted s \<and> addressed parseIP s \<and> senders_ok parseIP s \<and> queues_ok s"

lemmas fwd_inv_defs = fwd_inv_def accounted_def addressed_def senders_ok_def queues_ok_def

lemma held_types: "handled_types = [''forwarded-tcpip'', ''forwarded-streamlocal@openssh.com'']" "''forwarded-tcpip'' \<noteq> ''forwarded-streamlocal@openssh.com''"
  by (simp_all add: handled_types_def)

lemma unlocked:
  assumes "\<not> fs_locked s" "senders_ok parseIP s"
  shows "fs_pc s k \<noteq> HSending i f"
proof
  assume h: "fs_pc s k = HSending i f"
  then have "k \<in> set handled_types" using assms(2) unfolding senders_ok_def by blast
  then have "fs_locked s" unfolding fs_locked_def list_ex_iff by (rule bexI [rotated]) (simp add: h)
  then show False using assms(1) by contradiction
qed

lemma all_held_set:
  assumes "k \<in> set handled_types"
  shows "mset (all_held (set_pc k pc s)) + mset (held (fs_pc s k)) = mset (all_held s) + mset (held pc)"
  using assms held_types(2) by (auto simp: all_held_def held_types(1) set_pc_def)

lemma handler_of_set: "handler_of s k \<noteq> None \<Longrightarrow> handler_of (set_queue k q s) j = (if j = k then Some q else handler_of s j)"
  by (auto simp: handler_of_def set_queue_def split: option.splits)

lemma all_queued_set:
  assumes "k \<in> set handled_types" and "handler_of s k = Some q0"
  shows "mset (all_queued (set_queue k q s)) + mset q0 = mset (all_queued s) + mset q"
  using assms held_types(2) by (auto simp: all_queued_def held_types(1) handler_queue_def handler_of_set)

text \<open>What the parts of the invariant do not look at.\<close>

lemma sys_frames [simp]:
  "fs_list (set_pc k pc s) = fs_list s" "fs_list (set_queue k q s) = fs_list s" "fs_list (refuse ch n s) = fs_list s"
  "fs_pc (set_pc k pc s) = (fs_pc s)(k := pc)" "fs_pc (set_queue k q s) = fs_pc s" "fs_pc (refuse ch n s) = fs_pc s"
  "fs_disp (set_pc k pc s) = fs_disp s" "fs_disp (set_queue k q s) = fs_disp s" "fs_disp (refuse ch n s) = fs_disp s"
  "fs_came (set_pc k pc s) = fs_came s" "fs_came (set_queue k q s) = fs_came s" "fs_came (refuse ch n s) = fs_came s"
  "fs_refused (set_pc k pc s) = fs_refused s" "fs_refused (set_queue k q s) = fs_refused s"
  "fs_refused (refuse ch n s) = fs_refused s @ [(ch, n)]"
  "fs_taken (set_pc k pc s) = fs_taken s" "fs_taken (set_queue k q s) = fs_taken s" "fs_taken (refuse ch n s) = fs_taken s"
  "fs_dropped (set_pc k pc s) = fs_dropped s" "fs_dropped (set_queue k q s) = fs_dropped s" "fs_dropped (refuse ch n s) = fs_dropped s"
  "handler_of (set_pc k pc s) j = handler_of s j" "handler_of (refuse ch n s) j = handler_of s j"
  "handler_of (s\<lparr>fs_list := l\<rparr>) j = handler_of s j" "handler_of (s\<lparr>fs_disp := d\<rparr>) j = handler_of s j"
  "handler_of (s\<lparr>fs_came := ca\<rparr>) j = handler_of s j" "handler_of (s\<lparr>fs_taken := t\<rparr>) j = handler_of s j"
  "handler_of (s\<lparr>fs_dropped := dr\<rparr>) j = handler_of s j"
  by (simp_all add: set_pc_def set_queue_def refuse_def handler_of_def)

lemma held_frames [simp]:
  "all_held (s\<lparr>fs_list := l\<rparr>) = all_held s" "all_held (s\<lparr>fs_disp := d\<rparr>) = all_held s" "all_held (s\<lparr>fs_came := ca\<rparr>) = all_held s"
  "all_held (s\<lparr>fs_taken := t\<rparr>) = all_held s" "all_held (s\<lparr>fs_dropped := dr\<rparr>) = all_held s" "all_held (s\<lparr>fs_handlers := h\<rparr>) = all_held s"
  "all_held (set_queue k q s) = all_held s" "all_held (refuse ch n s) = all_held s"
  "all_queued (s\<lparr>fs_list := l\<rparr>) = all_queued s" "all_queued (s\<lparr>fs_disp := d\<rparr>) = all_queued s" "all_queued (s\<lparr>fs_came := ca\<rparr>) = all_queued s"
  "all_queued (s\<lparr>fs_taken := t\<rparr>) = all_queued s" "all_queued (s\<lparr>fs_dropped := dr\<rparr>) = all_queued s"
  "all_queued (set_pc k pc s) = all_queued s" "all_queued (refuse ch n s) = all_queued s"
  by (simp_all add: all_held_def all_queued_def handler_queue_def cong: map_cong)

text \<open>The list changes by closing some channels, or by an empty channel more, while nothing waits for room.\<close>

lemma inv_list_change:
  assumes inv: "fwd_inv parseIP s" and ok: "list_ok l'" and free: "\<not> fs_locked s"
    and len: "length (fl_chans (fs_list s)) \<le> length (fl_chans l')"
    and old: "\<And>j. j < length (fl_chans (fs_list s)) \<Longrightarrow> fc_laddr (fl_chans l' ! j) = fc_laddr (fl_chans (fs_list s) ! j)
      \<and> fc_buf (fl_chans l' ! j) = fc_buf (fl_chans (fs_list s) ! j)"
    and new: "\<And>j. length (fl_chans (fs_list s)) \<le> j \<Longrightarrow> j < length (fl_chans l') \<Longrightarrow> fc_buf (fl_chans l' ! j) = []"
    and w: "mset (waiting l') = mset (waiting (fs_list s))"
  shows "fwd_inv parseIP (s\<lparr>fs_list := l'\<rparr>)"
proof -
  have "fs_pc s k \<noteq> HSending i f" for k i f using unlocked [OF free] inv unfolding fwd_inv_def by blast
  then have "senders_ok parseIP (s\<lparr>fs_list := l'\<rparr>)" by (simp add: senders_ok_def)
  moreover have "accounted (s\<lparr>fs_list := l'\<rparr>)" using inv w by (simp add: fwd_inv_def accounted_def mset_map)
  moreover have "queues_ok (s\<lparr>fs_list := l'\<rparr>)" using inv by (simp add: fwd_inv_def queues_ok_def)
  moreover have "addressed parseIP (s\<lparr>fs_list := l'\<rparr>)"
  proof -
    have "meant_for parseIP f (fc_laddr (fl_chans l' ! i))" if "i < length (fl_chans l')" "f \<in> set (fc_buf (fl_chans l' ! i))" for i f
      using that inv old [of i] new [of i] by (cases "i < length (fl_chans (fs_list s))") (auto simp: fwd_inv_def addressed_def)
    moreover have "i < length (fl_chans l') \<and> meant_for parseIP f (fc_laddr (fl_chans l' ! i))" if "(i, f) \<in> set (fs_taken s)" for i f
      using that inv old [of i] len by (auto simp: fwd_inv_def addressed_def)
    ultimately show ?thesis by (auto simp: addressed_def)
  qed
  ultimately show ?thesis using ok by (simp add: fwd_inv_def)
qed

lemma inv_closed:
  assumes "fwd_inv parseIP s" "list_ok l'" "\<not> fs_locked s" "closes A (fl_chans (fs_list s)) (fl_chans l')"
  shows "fwd_inv parseIP (s\<lparr>fs_list := l'\<rparr>)"
  using assms closes_bufs [OF assms(4)] by (intro inv_list_change) (auto simp: closes_def waiting_def)

lemma inv_listen:
  assumes "fwd_inv parseIP s" "\<not> fs_locked s"
  shows "fwd_inv parseIP (s\<lparr>fs_list := snd (fl_add a (fs_list s))\<rparr>)"
proof (rule inv_list_change [OF assms(1) _ assms(2)])
  show "list_ok (snd (fl_add a (fs_list s)))" using assms(1) by (simp add: fl_add_ok fwd_inv_def)
qed (auto simp: fl_add_def nth_append waiting_def less_Suc_eq_le not_less)

text \<open>A forward for an address is put into the empty buffer of that address.\<close>

lemma inv_put:
  assumes ok: "list_ok (fs_list s)" and ad: "addressed parseIP s" and a: "(a, i) \<in> set (fl_entries (fs_list s))" "meant_for parseIP f a"
    and b: "fc_buf (fl_chans (fs_list s) ! i) = []"
  shows "addressed parseIP (s\<lparr>fs_list := put_buf i [f] (fs_list s)\<rparr>)"
    "mset (waiting (put_buf i [f] (fs_list s))) = add_mset f (mset (waiting (fs_list s)))"
proof -
  have i: "i < length (fl_chans (fs_list s))" "fc_laddr (fl_chans (fs_list s) ! i) = a" using list_ok_entry [OF ok a(1)] by auto
  show "addressed parseIP (s\<lparr>fs_list := put_buf i [f] (fs_list s)\<rparr>)"
    using ad a(2) i by (auto simp: addressed_def put_buf_nth)
  show "mset (waiting (put_buf i [f] (fs_list s))) = add_mset f (mset (waiting (fs_list s)))"
    using waiting_put [OF i(1), of "[f]"] b by simp
qed

subsection \<open>Every step keeps it\<close>

lemma forward_target_returns: "nc_type ch \<in> set handled_types \<Longrightarrow> \<exists>r. forward_target parseIP ch = Ret r"
  by (auto simp: forward_target_def handled_types_def)

lemma inv_parts:
  assumes "fwd_inv parseIP s"
  shows "list_ok (fs_list s)" "accounted s" "addressed parseIP s" "senders_ok parseIP s" "queues_ok s"
  using assms by (simp_all add: fwd_inv_def)

text \<open>The dispatcher and the queues.\<close>

lemma inv_open: "fwd_inv parseIP s \<Longrightarrow> fs_disp s = DIdle \<Longrightarrow> fwd_inv parseIP (dispatch_open ch s)"
  by (auto simp: dispatch_open_def fwd_inv_defs Let_def split: option.split)

lemma inv_queue:
  assumes inv: "fwd_inv parseIP s" and d: "fs_disp s = DHolding ch" and q: "dispatch_queue ch s = Some s'"
  shows "fwd_inv parseIP s'"
proof -
  let ?k = "nc_type ch"
  obtain q0 where q0: "handler_of s ?k = Some q0" "length q0 < handler_chanSize"
    and s': "s' = set_queue ?k (q0 @ [ch]) (s\<lparr>fs_disp := DIdle\<rparr>)"
    using q by (auto simp: dispatch_queue_def split: option.split_asm if_split_asm)
  note p = inv_parts [OF inv]
  have kt: "?k \<in> set handled_types" using p(5) q0(1) unfolding queues_ok_def by blast
  have "mset (all_queued s') = add_mset ch (mset (all_queued s))"
    using all_queued_set [OF kt, of "s\<lparr>fs_disp := DIdle\<rparr>" q0 "q0 @ [ch]"] q0(1) s' by simp
  then have "accounted s'" using p(2) d by (simp add: accounted_def s')
  moreover have "queues_ok s'" using p(5) q0 by (auto simp: queues_ok_def s' handler_of_set)
  ultimately show ?thesis using p by (simp add: s' fwd_inv_def addressed_def senders_ok_def)
qed

lemma inv_register:
  assumes inv: "fwd_inv parseIP s" and k: "k \<in> set handled_types" and o: "HandleChannelOpen k (fs_handlers s) = (QueueOf t, hs)"
  shows "fwd_inv parseIP (s\<lparr>fs_handlers := hs\<rparr>)"
proof -
  let ?s = "s\<lparr>fs_handlers := hs\<rparr>"
  have "handler_of s k = None" and n: "handler_of ?s j = (if j = k then Some [] else handler_of s j)" for j
    using o by (auto simp: HandleChannelOpen_def handler_of_def split: option.split_asm if_split_asm)
  then have "handler_queue ?s = handler_queue s" by (auto simp: handler_queue_def)
  then show ?thesis using inv k n by (simp add: fwd_inv_defs all_queued_def)
qed

lemma inv_disp_stop:
  "fwd_inv parseIP s \<Longrightarrow> fwd_inv parseIP (s\<lparr>fs_disp := DGone, fs_dropped := fs_dropped s @ disp_held (fs_disp s)\<rparr>)"
  by (simp add: fwd_inv_defs)

text \<open>The handlers.\<close>

lemma inv_take:
  assumes inv: "fwd_inv parseIP s" and k: "fs_pc s k = HIdle" "handler_of s k = Some (ch # q)"
  shows "fwd_inv parseIP (set_pc k (HTaken ch) (set_queue k q s))"
proof -
  note p = inv_parts [OF inv]
  have kt: "k \<in> set handled_types" "nc_type ch = k" "length q \<le> handler_chanSize"
    using p(5) [unfolded queues_ok_def, THEN conjunct1, rule_format, OF k(2)] by auto
  have "mset (all_held (set_pc k (HTaken ch) (set_queue k q s))) = add_mset ch (mset (all_held s))"
    using all_held_set [OF kt(1), of "HTaken ch" "set_queue k q s"] k(1) by simp
  moreover have "add_mset ch (mset (all_queued (set_queue k q s))) = mset (all_queued s)"
    using all_queued_set [OF kt(1) k(2), of q] by simp
  ultimately have "accounted (set_pc k (HTaken ch) (set_queue k q s))"
    using p(2) unfolding accounted_def by (simp add: ac_simps)
  moreover have "queues_ok (set_pc k (HTaken ch) (set_queue k q s))"
    using p(5) k(2) kt by (auto simp: queues_ok_def handler_of_set)
  ultimately show ?thesis using p by (simp add: fwd_inv_def addressed_def senders_ok_def)
qed

lemma held_cleared:
  assumes "k \<in> set handled_types" "held (fs_pc s k) = [ch]" "held pc = []"
  shows "mset (all_held s) = add_mset ch (mset (all_held (set_pc k pc s)))"
  using all_held_set [OF assms(1), of pc s] assms(2,3) by simp

lemma inv_refused:
  assumes inv: "fwd_inv parseIP s" and k: "fs_pc s k = HTaken ch"
  shows "fwd_inv parseIP (set_pc k HIdle (refuse ch n s))"
proof -
  note p = inv_parts [OF inv]
  have "k \<in> set handled_types" using p(5) k unfolding queues_ok_def by blast
  then have "mset (all_held s) = add_mset ch (mset (all_held (set_pc k HIdle (refuse ch n s))))"
    using held_cleared [of k "refuse ch n s" ch HIdle] k by simp
  then have "accounted (set_pc k HIdle (refuse ch n s))" using p(2) by (simp add: accounted_def)
  then show ?thesis using p by (simp add: fwd_inv_def addressed_def senders_ok_def queues_ok_def)
qed

lemma senders_set:
  assumes "senders_ok parseIP s" "k \<in> set handled_types" "(a, i) \<in> set (fl_entries (fs_list s))" "meant_for parseIP f a"
  shows "senders_ok parseIP (set_pc k (HSending i f) s)"
  unfolding senders_ok_def
proof (intro allI impI)
  fix k' i' f' assume h: "fs_pc (set_pc k (HSending i f) s) k' = HSending i' f'"
  show "k' \<in> set handled_types \<and> (\<exists>a. (a, i') \<in> set (fl_entries (fs_list (set_pc k (HSending i f) s))) \<and> meant_for parseIP f' a)"
  proof (cases "k' = k")
    case True
    then show ?thesis using h assms(2-4) by auto
  next
    case False
    then have "fs_pc s k' = HSending i' f'" using h by simp
    then show ?thesis using assms(1) [unfolded senders_ok_def, rule_format, of k' i' f'] by simp
  qed
qed

lemma inv_found:
  assumes inv: "fwd_inv parseIP s" and k: "fs_pc s k = HTaken ch"
    and a: "(a, i) \<in> set (fl_entries (fs_list s))" "meant_for parseIP (ch, ra) a"
  shows "fwd_inv parseIP (set_pc k (HSending i (ch, ra)) s)"
proof -
  note p = inv_parts [OF inv]
  have kt: "k \<in> set handled_types" using p(5) k unfolding queues_ok_def by blast
  have "mset (all_held (set_pc k (HSending i (ch, ra)) s)) = mset (all_held s)"
    using all_held_set [OF kt, of "HSending i (ch, ra)" s] k by simp
  then have "accounted (set_pc k (HSending i (ch, ra)) s)" using p(2) by (simp add: accounted_def)
  then show ?thesis using p senders_set [OF p(4) kt a] by (simp add: fwd_inv_def addressed_def queues_ok_def)
qed

lemma handle_channel_inv:
  assumes inv: "fwd_inv parseIP s" and k: "fs_pc s k = HTaken ch" and h: "handle_channel parseIP k ch s = Some r"
  shows "\<exists>s'. r = Ret s' \<and> fwd_inv parseIP s'"
proof -
  have "nc_type ch \<in> set handled_types" using inv_parts(5) [OF inv] k unfolding queues_ok_def by blast
  then obtain t where t: "forward_target parseIP ch = Ret t" using forward_target_returns by blast
  show ?thesis
  proof (cases t)
    case (Inl e)
    then show ?thesis using h t inv_refused [OF inv k] by (auto simp: handle_channel_def)
  next
    case (Inr p)
    obtain la ra where p: "p = (la, ra)" by (cases p)
    show ?thesis
    proof (cases "find_entry la (fs_list s)")
      case None
      then show ?thesis using h t Inr p inv_refused [OF inv k] by (auto simp: handle_channel_def split: if_split_asm)
    next
      case (Some i)
      obtain a where a: "(a, i) \<in> set (fl_entries (fs_list s))" "same_addr la a" using find_entry_Some [OF Some] by blast
      then have "meant_for parseIP (ch, ra) a" using t Inr p by (auto simp: meant_for_def)
      then show ?thesis using h t Inr p Some inv_found [OF inv k a(1)] by (auto simp: handle_channel_def split: if_split_asm)
    qed
  qed
qed

lemma inv_sent:
  assumes inv: "fwd_inv parseIP s" and k: "fs_pc s k = HSending i f" and b: "fc_buf (fl_chans (fs_list s) ! i) = []"
  shows "fwd_inv parseIP (set_pc k HIdle (s\<lparr>fs_list := put_buf i [f] (fs_list s)\<rparr>))"
proof -
  let ?s = "set_pc k HIdle (s\<lparr>fs_list := put_buf i [f] (fs_list s)\<rparr>)"
  note p = inv_parts [OF inv]
  obtain a where kt: "k \<in> set handled_types" and a: "(a, i) \<in> set (fl_entries (fs_list s))" "meant_for parseIP f a"
    using p(4) k unfolding senders_ok_def by blast
  note q = inv_put [OF p(1,3) a b]
  have "mset (all_held s) = add_mset (fst f) (mset (all_held ?s))"
    using held_cleared [of k "s\<lparr>fs_list := put_buf i [f] (fs_list s)\<rparr>" "fst f" HIdle] kt k by simp
  then have "accounted ?s" using p(2) q(2) by (simp add: accounted_def mset_map)
  moreover have "addressed parseIP ?s" using q(1) by (simp add: addressed_def)
  ultimately show ?thesis using p(1,4,5) by (simp add: fwd_inv_def put_buf_ok senders_ok_def queues_ok_def)
qed

lemma inv_stop:
  assumes inv: "fwd_inv parseIP s"
  shows "fs_pc s k = HSending i f \<Longrightarrow> fwd_inv parseIP (set_pc k HGone (s\<lparr>fs_dropped := fs_dropped s @ [fst f]\<rparr>))"
    and "fs_pc s k = HIdle \<Longrightarrow> fwd_inv parseIP (set_pc k HGone s)"
proof -
  note p = inv_parts [OF inv]
  show "fwd_inv parseIP (set_pc k HGone (s\<lparr>fs_dropped := fs_dropped s @ [fst f]\<rparr>))" if k: "fs_pc s k = HSending i f"
  proof -
    have kt: "k \<in> set handled_types" using p(4) k unfolding senders_ok_def by blast
    have "mset (all_held s) = add_mset (fst f) (mset (all_held (set_pc k HGone (s\<lparr>fs_dropped := fs_dropped s @ [fst f]\<rparr>))))"
      using held_cleared [of k "s\<lparr>fs_dropped := fs_dropped s @ [fst f]\<rparr>" "fst f" HGone] kt k by simp
    then show ?thesis using p by (simp add: fwd_inv_def accounted_def addressed_def senders_ok_def queues_ok_def)
  qed
  show "fwd_inv parseIP (set_pc k HGone s)" if k: "fs_pc s k = HIdle"
  proof -
    have "all_held (set_pc k HGone s) = all_held s" using k by (simp add: all_held_def handled_types_def)
    then show ?thesis using p by (simp add: fwd_inv_def accounted_def addressed_def senders_ok_def queues_ok_def)
  qed
qed

lemma inv_accept:
  assumes inv: "fwd_inv parseIP s" and i: "i < length (fl_chans (fs_list s))" and b: "fc_buf (fl_chans (fs_list s) ! i) = f # fs"
  shows "fwd_inv parseIP (s\<lparr>fs_list := put_buf i fs (fs_list s), fs_taken := fs_taken s @ [(i, f)]\<rparr>)"
proof -
  let ?s = "s\<lparr>fs_list := put_buf i fs (fs_list s), fs_taken := fs_taken s @ [(i, f)]\<rparr>"
  note p = inv_parts [OF inv]
  have "add_mset f (mset (waiting (put_buf i fs (fs_list s)))) = mset (waiting (fs_list s))"
    using waiting_put [OF i, of fs] b by simp
  then have "add_mset (fst f) (mset (map fst (waiting (put_buf i fs (fs_list s))))) = mset (map fst (waiting (fs_list s)))"
    by (metis image_mset_add_mset mset_map)
  then have "accounted ?s" using p(2) by (simp add: accounted_def)
  moreover have "addressed parseIP ?s" using p(3) i b by (auto simp: addressed_def put_buf_nth split: if_splits)
  ultimately show ?thesis using p(1,4,5) by (simp add: fwd_inv_def put_buf_ok senders_ok_def queues_ok_def)
qed

lemma fwd_step_inv:
  assumes inv: "fwd_inv parseIP s" and step: "fwd_step parseIP e s = Some r"
  shows "\<exists>s'. r = Ret s' \<and> fwd_inv parseIP s'"
proof (cases e)
  case (FListen a)
  then show ?thesis using step inv_listen [OF inv] by (auto simp: fwd_step_def split: if_splits)
next
  case (FRegister k)
  then show ?thesis using step inv_register [OF inv]
    by (auto simp: fwd_step_def split: if_splits prod.splits handler_chan.splits)
next
  case (FOpen ch)
  then show ?thesis using step inv_open [OF inv] by (auto simp: fwd_step_def split: if_splits)
next
  case FQueue
  then show ?thesis using step inv_queue [OF inv] by (auto simp: fwd_step_def split: dispatcher_pc.splits)
next
  case FDispatchStop
  then show ?thesis using step inv_disp_stop [OF inv] by (auto simp: fwd_step_def split: dispatcher_pc.splits)
next
  case (FTake k)
  then show ?thesis using step inv_take [OF inv] by (auto simp: fwd_step_def split: handler_pc.splits option.splits list.splits)
next
  case (FHandle k)
  then show ?thesis using step handle_channel_inv [OF inv] by (auto simp: fwd_step_def split: handler_pc.splits)
next
  case (FSend k)
  obtain i f where k: "fs_pc s k = HSending i f" using step FSend by (auto simp: fwd_step_def split: handler_pc.splits)
  obtain a where a: "(a, i) \<in> set (fl_entries (fs_list s))" using inv k unfolding fwd_inv_def senders_ok_def by blast
  note send = chan_send_cases [OF inv_parts(1) [OF inv] a, of f]
  show ?thesis using step FSend k inv_sent [OF inv k] by (auto simp: fwd_step_def send split: if_splits)
next
  case (FStop k)
  then show ?thesis using step inv_stop [OF inv] by (auto simp: fwd_step_def split: handler_pc.splits)
next
  case (FAccept i)
  then show ?thesis using step inv_accept [OF inv, of i]
    by (auto simp: fwd_step_def put_buf_def [symmetric] split: if_splits list.splits)
next
  case (FClose a)
  then show ?thesis using step Remove_ok [of "fs_list s" a] inv_closed [OF inv] inv_parts(1) [OF inv]
    by (auto simp: fwd_step_def split: if_splits)
next
  case FCloseAll
  then show ?thesis using step CloseAll_ok [of "fs_list s"] inv_closed [OF inv] inv_parts(1) [OF inv]
    by (auto simp: fwd_step_def split: if_splits)
qed

lemma fwd_start_inv: "fwd_inv parseIP fwd_start"
  by (simp add: fwd_inv_defs fwd_start_def list_ok_def waiting_def all_held_def all_queued_def handler_queue_def handler_of_def)

lemma fwd_reachable_inv: "fwd_reachable parseIP s \<Longrightarrow> fwd_inv parseIP s"
  by (induction rule: fwd_reachable.induct) (use fwd_start_inv fwd_step_inv in blast)+

lemma fwd_run_reachable: "fwd_reachable parseIP s \<Longrightarrow> fwd_run parseIP es s = Some (Ret s') \<Longrightarrow> fwd_reachable parseIP s'"
proof (induction es arbitrary: s)
  case (Cons e es)
  then show ?case by (auto split: option.split_asm go.split_asm intro: fwd_reachable.step)
qed simp

text \<open>
  C24: forwarded channels under any interleaving of registering, dispatching, listening, accepting and closing.  Every
  channel that the dispatcher of the client took from the multiplexer is in exactly one place: refused, in the hand of the
  dispatcher that waits for room in a queue, in the queue of the handler of its type (never more than 16), in the hand of
  a handler, in the buffer of one listener, taken by one listener, or dropped by a goroutine that saw
  the end of the connection; a listener gets only channels whose payload names its address; and no step panics (no Go channel is closed
  twice, or sent to after it was closed).
\<close>

theorem forwards_reach_their_listener:
  assumes "fwd_reachable parseIP s"
  shows "mset (fs_came s) = mset (map fst (fs_refused s)) + mset (map (fst \<circ> snd) (fs_taken s))
      + mset (map fst (concat (map fc_buf (fl_chans (fs_list s))))) + mset (all_held s)
      + mset (all_queued s) + mset (disp_held (fs_disp s)) + mset (fs_dropped s)
    \<and> length (handler_queue s k) \<le> 16
    \<and> (\<forall>(i, ch, raddr)\<in>set (fs_taken s). \<exists>laddr. forward_target parseIP ch = Ret (Inr (laddr, raddr))
         \<and> same_addr laddr (fc_laddr (fl_chans (fs_list s) ! i)))
    \<and> fwd_step parseIP e s \<noteq> Some (Panic x)"
proof -
  note inv = fwd_reachable_inv [OF assms]
  have "mset (fs_came s) = mset (map fst (fs_refused s)) + mset (map (fst \<circ> snd) (fs_taken s))
      + mset (map fst (concat (map fc_buf (fl_chans (fs_list s))))) + mset (all_held s)
      + mset (all_queued s) + mset (disp_held (fs_disp s)) + mset (fs_dropped s)"
    using inv by (simp add: fwd_inv_def accounted_def waiting_def)
  moreover have "length (handler_queue s k) \<le> 16"
    using inv by (auto simp: fwd_inv_def queues_ok_def handler_queue_def handler_chanSize_def split: option.split)
  moreover have "\<exists>laddr. forward_target parseIP ch = Ret (Inr (laddr, raddr)) \<and> same_addr laddr (fc_laddr (fl_chans (fs_list s) ! i))"
    if "(i, ch, raddr) \<in> set (fs_taken s)" for i ch raddr
    using inv that by (force simp: fwd_inv_def addressed_def meant_for_def)
  moreover have "fwd_step parseIP e s \<noteq> Some (Panic x)" using fwd_step_inv [OF inv] by blast
  ultimately show ?thesis by blast
qed

subsection \<open>From the request to the listener\<close>

lemma split_entry_last:
  "\<not> list_ex (\<lambda>(b, j). same_addr a b) es \<Longrightarrow> split_entry a (es @ [(b, i)]) = (if same_addr a b then Some (i, es) else None)"
  by (induction es) auto

lemma register_listener_adds:
  assumes "register_listener ip port resp c = (Inr ln, c')"
  shows "tl_TmpCtx ln = fk_TmpCtx c \<and> (\<exists>p. tl_laddr ln = TCPAddr ip p) \<and> (tl_in ln, fk_list c') = fl_add (tl_laddr ln) (fk_list c)"
  using assms by (auto simp: register_listener_def fl_add_def Let_def split: if_splits sum.splits list.splits fval.splits)

lemma listen_on_adds:
  assumes "listen_on ip port c = (Inr ln, c')"
  shows "tl_TmpCtx ln = fk_TmpCtx c \<and> (\<exists>p. tl_laddr ln = TCPAddr ip p) \<and> (tl_in ln, fk_list c') = fl_add (tl_laddr ln) (fk_list c)"
  using assms register_listener_adds [of ip port _ _ ln c']
  by (fastforce simp: listen_on_def send_request_def Let_def split: list.splits answer.splits if_splits)

lemma listen_on_fails:
  assumes "listen_on ip port c = (Inl e, c')"
  shows "fk_list c' = fk_list c \<and> fk_TmpCtx c' = fk_TmpCtx c"
  using assms
  by (auto simp: listen_on_def send_request_def register_listener_def fl_add_def Let_def
    split: list.splits answer.splits if_splits sum.splits fval.splits)

lemma try_ports_adds:
  "try_ports ip rs err c = (Inr ln, c') \<Longrightarrow> tl_TmpCtx ln = fk_TmpCtx c \<and> (\<exists>p. tl_laddr ln = TCPAddr ip p)
     \<and> (tl_in ln, fk_list c') = fl_add (tl_laddr ln) (fk_list c)"
proof (induction rs arbitrary: err c)
  case (Cons r rs)
  show ?case
  proof (cases "listen_on ip (1024 + int r) c")
    case (Pair res c1)
    then show ?thesis using Cons listen_on_adds [of ip "1024 + int r" c ln c'] listen_on_fails [of ip "1024 + int r" c _ c1]
      by (cases res) auto
  qed
qed simp

lemma ListenTCP_adds:
  "ListenTCP rand ip port c = (Inr ln, c') \<Longrightarrow> tl_TmpCtx ln = fk_TmpCtx c \<and> (\<exists>p. tl_laddr ln = TCPAddr ip p)
     \<and> (tl_in ln, fk_list c') = fl_add (tl_laddr ln) (fk_list c)"
  using try_ports_adds listen_on_adds by (auto simp: ListenTCP_def split: if_splits)

lemma payload_read:
  assumes "small (Marshal forwardedTCPPayload [VStr a, VU32 p, VStr b, VU32 q])"
  shows "Unmarshal forwardedTCPPayload (Marshal forwardedTCPPayload [VStr a, VU32 p, VStr b, VU32 q]) = Inr [VStr a, VU32 p, VStr b, VU32 q]"
  using assms by (intro Unmarshal_untagged)
    (simp_all add: forwardedTCPPayload_def has_kind_def Marshal_def marshal_field_def appendInt_def appendU32_def PutUint32_def)

text \<open>
  A port the server agreed to listen on is served.  After \<open>ListenTCP\<close> has returned a listener on an address that
  no other listener has, a channel that the server opens for that address and the port it chose passes the dispatcher, the empty queue and
  the handler, and reaches that listener: the next
  \<open>Accept\<close> returns it with the address of its originator.  The parser of IP addresses gives back the canonical text it
  made (\<open>canonical\<close>).
\<close>

lemma listened_port_is_served:
  assumes listen: "ListenTCP rand (Some ip) port c = (Inr ln, c')" "tl_laddr ln = TCPAddr (Some ip) p" "1 \<le> p" "p \<le> 65535"
    and alone: "\<not> list_ex (\<lambda>(b, j). same_addr (tl_laddr ln) b) (fl_entries (fk_list c))"
    and ctx: "fk_TmpCtx c"
    and canonical: "parseIP ip = Some ip" "parseIP oip = Some oip"
    and opened: "nc_type ch = ''forwarded-tcpip''"
      "nc_extra ch = Marshal forwardedTCPPayload [VStr ip, VU32 (word_of_int p), VStr oip, VU32 oport]" "small (nc_extra ch)"
      "0 < oport" "oport \<le> 65535"
    and sys: "fs_list s = fk_list c'" "\<not> fs_locked s" "fs_pc s ''forwarded-tcpip'' = HIdle" "fs_disp s = DIdle"
      "handler_of s ''forwarded-tcpip'' = Some []"
  shows "\<exists>s' l. fwd_run parseIP [FOpen ch, FQueue, FTake ''forwarded-tcpip'', FHandle ''forwarded-tcpip'', FSend ''forwarded-tcpip''] s
      = Some (Ret s')
    \<and> listener_Accept False False ln (fs_list s') = Ret (Accepted (ch, TCPAddr (Some oip) (int (unat oport))), l)"
proof -
  have ln: "tl_TmpCtx ln" "fk_list c' = snd (fl_add (TCPAddr (Some ip) p) (fk_list c))" "tl_in ln = length (fl_chans (fk_list c))"
    using ListenTCP_adds [OF listen(1)] ctx listen(2) by (auto simp: fl_add_def prod_eq_iff)
  have w: "unat (word_of_int p :: u32) = nat p" using listen(3,4) by (simp add: unat_eq_nat_uint uint_word_of_int take_bit_int_eq_self)
  then have "word_of_int p \<noteq> (0 :: u32)" "\<not> 65535 < (word_of_int p :: u32)" using listen(3,4) by (auto simp: unat_eq_zero [symmetric] word_less_nat_alt)
  then have t: "forward_target parseIP ch = Ret (Inr (TCPAddr (Some ip) p, TCPAddr (Some oip) (int (unat oport))))"
    using opened canonical w listen(3) payload_read [of ip "word_of_int p" oip oport]
    by (auto simp: forward_target_def parseTCPAddr_def)
  have "find_entry (TCPAddr (Some ip) p) (fs_list s) = Some (tl_in ln)"
    using split_entry_last [OF alone] ln(2,3) listen(2) by (simp add: find_entry_def sys(1) fl_add_def same_addr_def)
  moreover have "fs_locked (set_pc k (HTaken ch) (set_queue k q s1)) \<longleftrightarrow> False"
    if "fs_pc s1 = fs_pc s" for k q s1
    using sys(2) that by (simp add: fs_locked_def handled_types_def)
  ultimately show ?thesis using opened(1) sys ln t
    by (simp add: fwd_step_def dispatch_open_def dispatch_queue_def handler_of_set handler_chanSize_def handle_channel_def chan_send_def
        fl_add_def Let_def listener_Accept_def nth_append)
qed

text \<open>
  C36: the reverse tunnel of the program never gets to serve a connection.  The client that \<^verbatim>\<open>SSHConnect\<close> has just made
  has no context, the listener copies that, and its first \<open>Accept\<close> dereferences it: \<open>StartupReverseListener\<close> either
  fails to listen or crashes the program, whatever the server answers.
\<close>

theorem reverse_listener_crashes:
  "(\<exists>e c. StartupReverseListener rand ip port connDone (NewClient version answers) = Ret (Some e, c))
   \<or> StartupReverseListener rand ip port connDone (NewClient version answers) = Panic ''nil pointer dereference''"
proof (cases "ListenTCP rand ip port (NewClient version answers)")
  case (Pair r c1)
  show ?thesis
  proof (cases r)
    case (Inl e)
    then show ?thesis using Pair by (simp add: StartupReverseListener_def)
  next
    case (Inr ln)
    then have "\<not> tl_TmpCtx ln" using ListenTCP_adds Pair by (fastforce simp: NewClient_def)
    then show ?thesis using Pair Inr by (simp add: StartupReverseListener_def listener_Accept_def)
  qed
qed

subsection \<open>The theorems on a concrete client\<close>

definition demo_channel :: new_channel where
  "demo_channel = \<lparr>nc_id = 1, nc_type = ''forwarded-tcpip'',
     nc_extra = Marshal forwardedTCPPayload [VStr ''127.0.0.1'', VU32 8080, VStr ''10.0.0.7'', VU32 4000]\<rparr>"

definition demo_fwd_client :: fwd_client where
  "demo_fwd_client = (NewClient ''SSH-2.0-x'' [Answer True [CHR 0x00, CHR 0x00, CHR 0x1F, CHR 0x90]])\<lparr>fk_TmpCtx := True\<rparr>"

lemma demo_listen:
  "ListenTCP id (Some ''127.0.0.1'') 8080 demo_fwd_client =
    (Inr \<lparr>tl_laddr = TCPAddr (Some ''127.0.0.1'') 8080, tl_in = 0, tl_TmpCtx = True\<rparr>,
     demo_fwd_client\<lparr>fk_answers := [], fk_asked := [(''tcpip-forward'', Marshal channelForwardMsg [VStr ''127.0.0.1'', VU32 8080])],
       fk_list := snd (fl_add (TCPAddr (Some ''127.0.0.1'') 8080) \<lparr>fl_entries = [], fl_chans = []\<rparr>)\<rparr>)"
  by (simp add: ListenTCP_def listen_on_def send_request_def register_listener_def demo_fwd_client_def NewClient_def fl_add_def ip_String_def Let_def)

lemma demo_payload_small: "small (nc_extra demo_channel)"
  by (simp add: demo_channel_def Marshal_def forwardedTCPPayload_def marshal_field_def appendInt_def appendU32_def small_def)

definition demo_fwd_events :: "fwd_event list" where
  "demo_fwd_events =
     [FRegister ''forwarded-tcpip'', FListen (TCPAddr (Some ''127.0.0.1'') 8080), FOpen demo_channel, FQueue,
      FTake ''forwarded-tcpip'', FOpen (demo_channel\<lparr>nc_id := 2\<rparr>), FQueue, FHandle ''forwarded-tcpip'', FSend ''forwarded-tcpip'',
      FAccept 0, FOpen (demo_channel\<lparr>nc_id := 3, nc_type := ''x11''\<rparr>), FOpen (demo_channel\<lparr>nc_id := 4\<rparr>)]"

theorem forwards_reach_their_listener_witness:
  "\<exists>s. fwd_run Some demo_fwd_events fwd_start = Some (Ret s)
     \<and> map nc_id (fs_came s) = [1, 2, 3, 4] \<and> map (nc_id \<circ> fst \<circ> snd) (fs_taken s) = [1] \<and> map nc_id (all_queued s) = [2]
     \<and> map (nc_id \<circ> fst) (fs_refused s) = [3] \<and> map nc_id (disp_held (fs_disp s)) = [4]
     \<and> (\<forall>(i, ch, raddr)\<in>set (fs_taken s). \<exists>laddr. forward_target Some ch = Ret (Inr (laddr, raddr))
         \<and> same_addr laddr (fc_laddr (fl_chans (fs_list s) ! i)))
     \<and> (\<forall>x. fwd_step Some FQueue s \<noteq> Some (Panic x))"
proof -
  have t: "forward_target Some demo_channel
      = Ret (Inr (TCPAddr (Some ''127.0.0.1'') 8080, TCPAddr (Some ''10.0.0.7'') 4000))"
    using payload_read [OF demo_payload_small [unfolded demo_channel_def, simplified]]
    by (simp add: forward_target_def demo_channel_def parseTCPAddr_def)
  have n: "nc_type demo_channel = ''forwarded-tcpip''" "nc_id demo_channel = 1" by (simp_all add: demo_channel_def)
  obtain s where r: "fwd_run Some demo_fwd_events fwd_start = Some (Ret s)"
    and v: "map nc_id (fs_came s) = [1, 2, 3, 4]" "map (nc_id \<circ> fst \<circ> snd) (fs_taken s) = [1]" "map nc_id (all_queued s) = [2]"
      "map (nc_id \<circ> fst) (fs_refused s) = [3]" "map nc_id (disp_held (fs_disp s)) = [4]"
    by (simp add: demo_fwd_events_def fwd_start_def fwd_step_def handled_types_def HandleChannelOpen_def handler_of_def dispatch_open_def
        dispatch_queue_def set_queue_def set_pc_def refuse_def fs_locked_def handle_channel_def chan_send_def find_entry_def fl_add_def
        same_addr_def handler_chanSize_def all_queued_def handler_queue_def t n Let_def)
  note at = forwards_reach_their_listener [OF fwd_run_reachable [OF fwd_reachable.start r]]
  have "\<forall>x. fwd_step Some FQueue s \<noteq> Some (Panic x)" using at by simp
  then show ?thesis by (intro exI [of _ s] conjI r v at [THEN conjunct2, THEN conjunct2, THEN conjunct1])
qed

end
