(* ===== verification/Keys.thy ===== *)
theory Keys
  imports Server_Auth "HOL-Library.List_Lexorder" "HOL-Library.Char_ord"
begin

section \<open>Public keys and certificates\<close>

text \<open>
  The public keys of \<^verbatim>\<open>keys.go\<close> and the certificates of \<^verbatim>\<open>certs.go\<close> of the ssh library: their wire format,
  parsing, signature checks, and the lines of an \<^verbatim>\<open>authorized_keys\<close> file.

  A certificate is a public key that holds two others, so the types and the functions are mutually
  recursive.  A map of options is the list of its pairs.  The points of the curves and the
  mathematics of the signature schemes are parameters (\<open>key_env\<close>); what the code checks around
  them is written out, the length check of \<^verbatim>\<open>ed25519.Verify\<close> too, which panics.
\<close>

subsection \<open>Data\<close>

datatype ec_id = P256 | P384 | P521

type_synonym signature = "string \<times> bytes"

datatype public_key =
    RSAKey int int
  | DSAKey int int int int
  | ECKey ec_id "int \<times> int"
  | EdKey bytes
  | CertKey certificate
and certificate =
    Certificate (ct_Nonce: bytes) (ct_Key: public_key) (ct_Serial: u64) (ct_CertType: u32) (ct_KeyId: string)
      (ct_ValidPrincipals: "string list") (ct_ValidAfter: u64) (ct_ValidBefore: u64)
      (ct_CriticalOptions: "(string \<times> string) list") (ct_Extensions: "(string \<times> string) list")
      (ct_Reserved: bytes) (ct_SignatureKey: public_key) (ct_Signature: "signature option")

datatype hash_alg = SHA1 | SHA256 | SHA384 | SHA512

text \<open>\<^verbatim>\<open>ecHash\<close>.\<close>

fun curve_hash :: "ec_id \<Rightarrow> hash_alg" where
  "curve_hash P256 = SHA256"
| "curve_hash P384 = SHA384"
| "curve_hash P521 = SHA512"

text \<open>
  The primitives: a signature of a kind is checked against the hash of the data with the given hash function, one of Ed25519
  against the data.
\<close>

record key_env =
  ke_Unmarshal :: "ec_id \<Rightarrow> bytes \<Rightarrow> (int \<times> int) option"
  ke_Marshal :: "ec_id \<Rightarrow> int \<times> int \<Rightarrow> bytes"
  ke_rsa :: "hash_alg \<Rightarrow> int \<Rightarrow> int \<Rightarrow> bytes \<Rightarrow> bytes \<Rightarrow> bool"
  ke_dsa :: "hash_alg \<Rightarrow> int \<times> int \<times> int \<times> int \<Rightarrow> bytes \<Rightarrow> nat \<Rightarrow> nat \<Rightarrow> bool"
  ke_ecdsa :: "hash_alg \<Rightarrow> ec_id \<Rightarrow> int \<times> int \<Rightarrow> bytes \<Rightarrow> int \<Rightarrow> int \<Rightarrow> bool"
  ke_ed :: "bytes \<Rightarrow> bytes \<Rightarrow> bytes \<Rightarrow> bool"

datatype key_err =
    KeyWire wire_err | KeyShortRead | ExponentTooLarge | IncorrectExponent | UnsupportedCurve | InvalidPoint
  | UnknownAlgo string | NotInOrder | TrailingOption | SignatureParse | TrailingJunk

fun nistID :: "ec_id \<Rightarrow> string" where
  "nistID P256 = ''nistp256''"
| "nistID P384 = ''nistp384''"
| "nistID P521 = ''nistp521''"

definition curve_of :: "string \<Rightarrow> ec_id option" where
  "curve_of name = map_of [(''nistp256'', P256), (''nistp384'', P384), (''nistp521'', P521)] name"

definition certAlgoNames :: "(string \<times> string) list" where
  "certAlgoNames =
     [(''ssh-rsa'', ''ssh-rsa-cert-v01@openssh.com''), (''ssh-dss'', ''ssh-dss-cert-v01@openssh.com''),
      (''ecdsa-sha2-nistp256'', ''ecdsa-sha2-nistp256-cert-v01@openssh.com''),
      (''ecdsa-sha2-nistp384'', ''ecdsa-sha2-nistp384-cert-v01@openssh.com''),
      (''ecdsa-sha2-nistp521'', ''ecdsa-sha2-nistp521-cert-v01@openssh.com''),
      (''ssh-ed25519'', ''ssh-ed25519-cert-v01@openssh.com'')]"

text \<open>\<open>certToPrivAlgo\<close>; the callers pass certificate algorithms only.\<close>

definition certToPrivAlgo :: "string \<Rightarrow> string go" where
  "certToPrivAlgo algo =
     (case map_of (map (\<lambda>(a, b). (b, a)) certAlgoNames) algo of None \<Rightarrow> Panic ''unknown cert algorithm'' | Some a \<Rightarrow> Ret a)"

text \<open>The name of a key that is not a certificate; a certificate is named after its key, which must not be one.\<close>

fun plain_Type :: "public_key \<Rightarrow> string option" where
  "plain_Type (RSAKey e n) = Some ''ssh-rsa''"
| "plain_Type (DSAKey p q g y) = Some ''ssh-dss''"
| "plain_Type (ECKey c pt) = Some (''ecdsa-sha2-'' @ nistID c)"
| "plain_Type (EdKey b) = Some ''ssh-ed25519''"
| "plain_Type (CertKey c) = None"

definition cert_Type :: "certificate \<Rightarrow> string go" where
  "cert_Type c =
     (case plain_Type (ct_Key c) of
        None \<Rightarrow> Panic ''unknown cert key type''
      | Some t \<Rightarrow> (case map_of certAlgoNames t of None \<Rightarrow> Panic ''unknown cert key type'' | Some a \<Rightarrow> Ret a))"

definition key_Type :: "public_key \<Rightarrow> string go" where
  "key_Type k = (case k of CertKey c \<Rightarrow> cert_Type c | _ \<Rightarrow> (case plain_Type k of Some t \<Rightarrow> Ret t | None \<Rightarrow> Panic []))"

subsection \<open>Writing\<close>

definition rsaWire :: schema where
  "rsaWire = \<lparr>sc_tags = [], sc_fields = [KString, KInt, KInt]\<rparr>"

definition dsaWire :: schema where
  "dsaWire = \<lparr>sc_tags = [], sc_fields = [KString, KInt, KInt, KInt, KInt]\<rparr>"

definition ecWire :: schema where
  "ecWire = \<lparr>sc_tags = [], sc_fields = [KString, KString, KBytes]\<rparr>"

definition edWire :: schema where
  "edWire = \<lparr>sc_tags = [], sc_fields = [KString, KBytes]\<rparr>"

definition genericCertData :: schema where
  "genericCertData = \<lparr>sc_tags = [],
     sc_fields = [KU64, KU32, KString, KBytes, KU64, KU64, KBytes, KBytes, KBytes, KBytes, KBytes]\<rparr>"

definition certPrefix :: schema where
  "certPrefix = \<lparr>sc_tags = [], sc_fields = [KString, KBytes, KRest]\<rparr>"

definition stringWire :: schema where
  "stringWire = \<lparr>sc_tags = [], sc_fields = [KString]\<rparr>"

definition optionsTuple :: schema where
  "optionsTuple = \<lparr>sc_tags = [], sc_fields = [KString, KBytes]\<rparr>"

definition signatureWire :: schema where
  "signatureWire = \<lparr>sc_tags = [], sc_fields = [KString, KBytes]\<rparr>"

definition marshalStringList :: "string list \<Rightarrow> bytes" where
  "marshalStringList names = concat (map (\<lambda>n. Marshal stringWire [VStr n]) names)"

definition marshalTuples :: "(string \<times> string) list \<Rightarrow> bytes" where
  "marshalTuples tups =
     concat (map (\<lambda>(key, value). Marshal optionsTuple
       [VStr key, VBytes (if value = [] then [] else Marshal stringWire [VStr value])]) (sort_key fst tups))"

definition marshal_signature :: "signature option \<Rightarrow> bytes" where
  "marshal_signature sig = (case sig of None \<Rightarrow> [] | Some (format, blob) \<Rightarrow> Marshal signatureWire [VStr format, VBytes blob])"

text \<open>The fields of a certificate after its key, given the bytes of the signature key.\<close>

definition marshal_generic :: "certificate \<Rightarrow> bytes \<Rightarrow> bytes" where
  "marshal_generic c sigKey =
     Marshal genericCertData
       [VU64 (ct_Serial c), VU32 (ct_CertType c), VStr (ct_KeyId c), VBytes (marshalStringList (ct_ValidPrincipals c)),
        VU64 (ct_ValidAfter c), VU64 (ct_ValidBefore c), VBytes (marshalTuples (ct_CriticalOptions c)),
        VBytes (marshalTuples (ct_Extensions c)), VBytes (ct_Reserved c), VBytes sigKey,
        VBytes (marshal_signature (ct_Signature c))]"

text \<open>The whole, given the bytes of both keys: the name of the key is replaced by that of the certificate.\<close>

definition marshal_cert :: "certificate \<Rightarrow> bytes \<Rightarrow> bytes \<Rightarrow> bytes go" where
  "marshal_cert c keyBytes sigKey =
     bind_go (cert_Type c) (\<lambda>name.
       Ret (Marshal certPrefix [VStr name, VBytes (ct_Nonce c), VBytes (case parseString keyBytes of None \<Rightarrow> [] | Some (_, r) \<Rightarrow> r)]
            @ marshal_generic c sigKey))"

primrec key_Marshal :: "key_env \<Rightarrow> public_key \<Rightarrow> bytes go"
and cert_Marshal :: "key_env \<Rightarrow> certificate \<Rightarrow> bytes go" where
  "key_Marshal env (RSAKey e n) = Ret (Marshal rsaWire [VStr ''ssh-rsa'', VInt e, VInt n])"
| "key_Marshal env (DSAKey p q g y) = Ret (Marshal dsaWire [VStr ''ssh-dss'', VInt p, VInt q, VInt g, VInt y])"
| "key_Marshal env (ECKey c pt) =
     Ret (Marshal ecWire [VStr (''ecdsa-sha2-'' @ nistID c), VStr (nistID c), VBytes (ke_Marshal env c pt)])"
| "key_Marshal env (EdKey b) = Ret (Marshal edWire [VStr ''ssh-ed25519'', VBytes b])"
| "key_Marshal env (CertKey c) = cert_Marshal env c"
| "cert_Marshal env (Certificate nonce key serial certType keyId principals after before crit ext reserved sigKey sig) =
     bind_go (key_Marshal env sigKey) (\<lambda>sk. bind_go (key_Marshal env key) (\<lambda>kb.
       marshal_cert (Certificate nonce key serial certType keyId principals after before crit ext reserved sigKey sig) kb sk))"

text \<open>\<open>bytesForSigning\<close>: without the signature, and without the four bytes of its length.\<close>

definition with_signature :: "certificate \<Rightarrow> signature option \<Rightarrow> certificate" where
  "with_signature c sig = Certificate (ct_Nonce c) (ct_Key c) (ct_Serial c) (ct_CertType c) (ct_KeyId c) (ct_ValidPrincipals c)
     (ct_ValidAfter c) (ct_ValidBefore c) (ct_CriticalOptions c) (ct_Extensions c) (ct_Reserved c) (ct_SignatureKey c) sig"

definition bytesForSigning :: "key_env \<Rightarrow> certificate \<Rightarrow> bytes go" where
  "bytesForSigning env c = bind_go (cert_Marshal env (with_signature c None)) (\<lambda>out. Ret (take (length out - 4) out))"

subsection \<open>Parsing\<close>

definition rsaFields :: schema where
  "rsaFields = \<lparr>sc_tags = [], sc_fields = [KInt, KInt, KRest]\<rparr>"

definition dsaFields :: schema where
  "dsaFields = \<lparr>sc_tags = [], sc_fields = [KInt, KInt, KInt, KInt, KRest]\<rparr>"

definition ecFields :: schema where
  "ecFields = \<lparr>sc_tags = [], sc_fields = [KString, KBytes, KRest]\<rparr>"

definition edFields :: schema where
  "edFields = \<lparr>sc_tags = [], sc_fields = [KBytes, KRest]\<rparr>"

definition parseRSA :: "bytes \<Rightarrow> key_err + public_key \<times> bytes" where
  "parseRSA inp =
     (case Unmarshal rsaFields inp of
        Inl e \<Rightarrow> Inl (KeyWire e)
      | Inr vs \<Rightarrow>
          (case vs of
             [VInt e, VInt n, VBytes rest] \<Rightarrow>
               if 24 < bit_len (nat \<bar>e\<bar>) then Inl ExponentTooLarge
               else if e < 3 \<or> even e then Inl IncorrectExponent
               else Inr (RSAKey e n, rest)
           | _ \<Rightarrow> Inl KeyShortRead))"

definition parseDSA :: "bytes \<Rightarrow> key_err + public_key \<times> bytes" where
  "parseDSA inp =
     (case Unmarshal dsaFields inp of
        Inl e \<Rightarrow> Inl (KeyWire e)
      | Inr vs \<Rightarrow>
          (case vs of
             [VInt p, VInt q, VInt g, VInt y, VBytes rest] \<Rightarrow> Inr (DSAKey p q g y, rest)
           | _ \<Rightarrow> Inl KeyShortRead))"

definition parseECDSA :: "key_env \<Rightarrow> bytes \<Rightarrow> key_err + public_key \<times> bytes" where
  "parseECDSA env inp =
     (case Unmarshal ecFields inp of
        Inl e \<Rightarrow> Inl (KeyWire e)
      | Inr vs \<Rightarrow>
          (case vs of
             [VStr curve, VBytes kb, VBytes rest] \<Rightarrow>
               (case curve_of curve of
                  None \<Rightarrow> Inl UnsupportedCurve
                | Some c \<Rightarrow> (case ke_Unmarshal env c kb of None \<Rightarrow> Inl InvalidPoint | Some pt \<Rightarrow> Inr (ECKey c pt, rest)))
           | _ \<Rightarrow> Inl KeyShortRead))"

definition parseED25519 :: "bytes \<Rightarrow> key_err + public_key \<times> bytes" where
  "parseED25519 inp =
     (case Unmarshal edFields inp of
        Inl e \<Rightarrow> Inl (KeyWire e)
      | Inr vs \<Rightarrow> (case vs of [VBytes kb, VBytes rest] \<Rightarrow> Inr (EdKey kb, rest) | _ \<Rightarrow> Inl KeyShortRead))"

text \<open>The cases of \<open>parsePubKey\<close> that are not certificates.\<close>

definition parse_plain :: "key_env \<Rightarrow> string \<Rightarrow> bytes \<Rightarrow> key_err + public_key \<times> bytes" where
  "parse_plain env algo inp =
     (if algo = ''ssh-rsa'' then parseRSA inp
      else if algo = ''ssh-dss'' then parseDSA inp
      else if algo \<in> {''ecdsa-sha2-nistp256'', ''ecdsa-sha2-nistp384'', ''ecdsa-sha2-nistp521''} then parseECDSA env inp
      else if algo = ''ssh-ed25519'' then parseED25519 inp
      else Inl (UnknownAlgo algo))"

lemma parseString_parts: "parseString d = Some (s, r) \<Longrightarrow> s @ r = drop 4 d \<and> 4 \<le> length d"
  by (auto simp: parseString_def Let_def simp del: drop_drop split: if_splits)

lemma parseString_shorter: "parseString d = Some (s, r) \<Longrightarrow> length s < length d \<and> length r < length d"
proof -
  assume "parseString d = Some (s, r)"
  then have "length (s @ r) = length d - 4" "4 \<le> length d" using parseString_parts by (metis length_drop)+
  then show ?thesis unfolding length_append by linarith
qed

function parse_names :: "bytes \<Rightarrow> string list option" where
  "parse_names d =
     (if d = [] then Some []
      else (case parseString d of None \<Rightarrow> None | Some (s, r) \<Rightarrow> map_option (Cons s) (parse_names r)))"
  by pat_completeness auto
termination
  by (relation "measure length") (auto dest: parseString_shorter)

text \<open>\<open>parseTuples\<close>, with the last key seen.\<close>

function parse_tuples :: "string option \<Rightarrow> bytes \<Rightarrow> key_err + (string \<times> string) list" where
  "parse_tuples lastKey d =
     (if d = [] then Inr []
      else (case parseString d of
          None \<Rightarrow> Inl KeyShortRead
        | Some (key, d1) \<Rightarrow>
            if (case lastKey of None \<Rightarrow> False | Some l \<Rightarrow> key \<le> l) then Inl NotInOrder
            else (case parseString d1 of
                None \<Rightarrow> Inl KeyShortRead
              | Some (val, d2) \<Rightarrow>
                  (case (if val = [] then Inr []
                         else (case parseString val of
                             None \<Rightarrow> Inl KeyShortRead
                           | Some (v, extra) \<Rightarrow> if extra \<noteq> [] then Inl TrailingOption else Inr v)) of
                     Inl e \<Rightarrow> Inl e
                   | Inr v \<Rightarrow> (case parse_tuples (Some key) d2 of Inl e \<Rightarrow> Inl e | Inr ts \<Rightarrow> Inr ((key, v) # ts))))))"
  by pat_completeness auto
termination
  by (relation "measure (\<lambda>(l, d). length d)") (auto dest!: parseString_shorter)

declare parse_names.simps [simp del] parse_tuples.simps [simp del]

text \<open>
  The parts of a certificate except its signature key: the nonce, the key, and the fields that \<open>Unmarshal\<close> reads;
  then the checks of the fields, given what became of the signature key.
\<close>

definition cert_parts :: "key_env \<Rightarrow> string \<Rightarrow> bytes \<Rightarrow> key_err + bytes \<times> public_key \<times> fval list" where
  "cert_parts env privAlgo inp =
     (case parseString inp of
        None \<Rightarrow> Inl KeyShortRead
      | Some (nonce, rest) \<Rightarrow>
          (case parse_plain env privAlgo rest of
             Inl e \<Rightarrow> Inl e
           | Inr (key, rest1) \<Rightarrow>
               (case Unmarshal genericCertData rest1 of Inl e \<Rightarrow> Inl (KeyWire e) | Inr g \<Rightarrow> Inr (nonce, key, g))))"

definition sig_key_bytes :: "fval list \<Rightarrow> bytes" where
  "sig_key_bytes g = (if length g = 11 then (case g ! 9 of VBytes sk \<Rightarrow> sk | _ \<Rightarrow> []) else [])"

definition finish_cert :: "bytes \<Rightarrow> public_key \<Rightarrow> fval list \<Rightarrow> key_err + public_key \<Rightarrow> key_err + public_key" where
  "finish_cert nonce key g sigKey =
     (case g of
        [VU64 serial, VU32 certType, VStr keyId, VBytes principals, VU64 after, VU64 before, VBytes crit, VBytes ext,
         VBytes reserved, VBytes _, VBytes sig] \<Rightarrow>
          (case parse_names principals of
             None \<Rightarrow> Inl KeyShortRead
           | Some ps \<Rightarrow>
               (case parse_tuples None crit of
                  Inl e \<Rightarrow> Inl e
                | Inr co \<Rightarrow>
                    (case parse_tuples None ext of
                       Inl e \<Rightarrow> Inl e
                     | Inr ex \<Rightarrow>
                         (case sigKey of
                            Inl e \<Rightarrow> Inl e
                          | Inr sk \<Rightarrow>
                              (case parseSignatureBody sig of
                                 None \<Rightarrow> Inl SignatureParse
                               | Some (s, rest) \<Rightarrow>
                                   if rest \<noteq> [] then Inl SignatureParse
                                   else Inr (CertKey (Certificate nonce key serial certType keyId ps after before co ex reserved sk (Some s))))))))
      | _ \<Rightarrow> Inl KeyShortRead)"

text \<open>What is read is never longer than what was there, so that the recursion on the signature key ends.\<close>

lemma parse_field_no_longer:
  assumes "parse_field k d = Inr (v, r)"
  shows "length r \<le> length d \<and> (\<forall>b. v = VBytes b \<longrightarrow> length b \<le> length d)"
proof -
  note sh = parseString_shorter [THEN conjunct1, THEN less_imp_le] parseString_shorter [THEN conjunct2, THEN less_imp_le]
  show ?thesis using assms
    by (cases k) (auto simp: parse_field_def parseUint32_def parseUint64_def parseNameList_def parseInt_def
        split: option.splits if_splits list.splits dest: sh)
qed

lemma parse_fields_no_longer:
  "parse_fields ks d = Inr (vs, r) \<Longrightarrow> length r \<le> length d \<and> (\<forall>b. VBytes b \<in> set vs \<longrightarrow> length b \<le> length d)"
proof (induction ks arbitrary: d vs r)
  case (Cons k ks)
  obtain v d1 vs1 where p: "parse_field k d = Inr (v, d1)" "parse_fields ks d1 = Inr (vs1, r)" "vs = v # vs1"
    using Cons.prems by (auto split: sum.split_asm)
  then show ?case using Cons.IH [OF p(2)] parse_field_no_longer [OF p(1)] by fastforce
qed simp

lemma Unmarshal_no_longer: "Unmarshal s d = Inr vs \<Longrightarrow> VBytes b \<in> set vs \<Longrightarrow> length b \<le> length d"
  using parse_fields_no_longer [of "sc_fields s" "if sc_tags s = [] then d else tl d" vs "[]"]
  by (fastforce simp: Unmarshal_def Let_def split: if_splits sum.splits)

lemma parseRSA_read: "parseRSA d = Inr (k, rest) \<Longrightarrow> \<exists>e n. Unmarshal rsaFields d = Inr [VInt e, VInt n, VBytes rest] \<and> k = RSAKey e n"
  by (auto simp: parseRSA_def split: if_split_asm sum.split_asm list.split_asm fval.split_asm)

lemma parseDSA_read:
  "parseDSA d = Inr (k, rest) \<Longrightarrow> \<exists>p q g y. Unmarshal dsaFields d = Inr [VInt p, VInt q, VInt g, VInt y, VBytes rest] \<and> k = DSAKey p q g y"
  by (auto simp: parseDSA_def split: sum.split_asm list.split_asm fval.split_asm)

lemma parseECDSA_read:
  "parseECDSA env d = Inr (k, rest) \<Longrightarrow> \<exists>curve kb. Unmarshal ecFields d = Inr [VStr curve, VBytes kb, VBytes rest]
     \<and> (\<exists>c pt. k = ECKey c pt \<and> curve_of curve = Some c \<and> ke_Unmarshal env c kb = Some pt)"
  by (auto simp: parseECDSA_def split: sum.split_asm list.split_asm fval.split_asm option.split_asm)

lemma parseED25519_read: "parseED25519 d = Inr (k, rest) \<Longrightarrow> \<exists>kb. Unmarshal edFields d = Inr [VBytes kb, VBytes rest] \<and> k = EdKey kb"
  by (auto simp: parseED25519_def split: sum.split_asm list.split_asm fval.split_asm)

lemma parse_plain_cases:
  assumes "parse_plain env algo d = Inr (k, rest)"
  shows "parseRSA d = Inr (k, rest) \<or> parseDSA d = Inr (k, rest) \<or> parseECDSA env d = Inr (k, rest) \<or> parseED25519 d = Inr (k, rest)"
  using assms unfolding parse_plain_def by (metis Inl_Inr_False)

lemma parse_plain_no_longer:
  assumes "parse_plain env algo d = Inr (k, rest)"
  shows "length rest \<le> length d"
proof -
  have "\<exists>s vs. Unmarshal s d = Inr vs \<and> VBytes rest \<in> set vs"
    using parse_plain_cases [OF assms] parseRSA_read [of d k rest] parseDSA_read [of d k rest] parseECDSA_read [of env d k rest]
      parseED25519_read [of d k rest] by fastforce
  then show ?thesis using Unmarshal_no_longer by blast
qed

lemma sig_key_no_longer: "Unmarshal s d = Inr g \<Longrightarrow> length (sig_key_bytes g) \<le> length d"
  using Unmarshal_no_longer [of s d g] nth_mem [of 9 g]
  by (cases "g ! 9") (simp_all add: sig_key_bytes_def)

lemma cert_parts_shorter: "cert_parts env algo d = Inr (nonce, key, g) \<Longrightarrow> length (sig_key_bytes g) < length d"
  by (auto simp: cert_parts_def split: option.splits sum.splits
      dest!: parseString_shorter parse_plain_no_longer sig_key_no_longer)

text \<open>
  \<open>ParsePublicKey\<close>, \<open>parsePubKey\<close> and \<open>parseCert\<close> call each other; the first is the recursion, with the other two in its body, and they are
  defined from it afterwards (\<open>ParsePublicKey_calls\<close> is the code of the first as it is written).
\<close>

function ParsePublicKey :: "key_env \<Rightarrow> bytes \<Rightarrow> key_err + public_key" where
  "ParsePublicKey env inp =
     (case parseString inp of
        None \<Rightarrow> Inl KeyShortRead
      | Some (algo, in1) \<Rightarrow>
          (case certToPrivAlgo algo of
             Ret privAlgo \<Rightarrow>
               (case cert_parts env privAlgo in1 of
                  Inl e \<Rightarrow> Inl e
                | Inr (nonce, key, g) \<Rightarrow> finish_cert nonce key g (ParsePublicKey env (sig_key_bytes g)))
           | _ \<Rightarrow>
               (case parse_plain env algo in1 of
                  Inl e \<Rightarrow> Inl e
                | Inr (out, rest) \<Rightarrow> if rest \<noteq> [] then Inl TrailingJunk else Inr out)))"
  by pat_completeness auto
termination
  by (relation "measure (\<lambda>(env, d). length d)") (auto dest!: cert_parts_shorter parseString_shorter)

declare ParsePublicKey.simps [simp del]

definition parseCert :: "key_env \<Rightarrow> bytes \<Rightarrow> string \<Rightarrow> key_err + public_key" where
  "parseCert env inp privAlgo =
     (case cert_parts env privAlgo inp of
        Inl e \<Rightarrow> Inl e
      | Inr (nonce, key, g) \<Rightarrow> finish_cert nonce key g (ParsePublicKey env (sig_key_bytes g)))"

definition parsePubKey :: "key_env \<Rightarrow> bytes \<Rightarrow> string \<Rightarrow> key_err + public_key \<times> bytes" where
  "parsePubKey env inp algo =
     (case certToPrivAlgo algo of
        Ret privAlgo \<Rightarrow> (case parseCert env inp privAlgo of Inl e \<Rightarrow> Inl e | Inr c \<Rightarrow> Inr (c, []))
      | _ \<Rightarrow> parse_plain env algo inp)"

lemma ParsePublicKey_calls:
  "ParsePublicKey env inp =
     (case parseString inp of
        None \<Rightarrow> Inl KeyShortRead
      | Some (algo, in1) \<Rightarrow>
          (case parsePubKey env in1 algo of
             Inl e \<Rightarrow> Inl e
           | Inr (out, rest) \<Rightarrow> if rest \<noteq> [] then Inl TrailingJunk else Inr out))"
  by (subst ParsePublicKey.simps) (simp add: parsePubKey_def parseCert_def split: option.split go.split sum.split prod.split)

subsection \<open>Signatures\<close>

datatype sig_err = WrongFormat | SigParseError | SigWire wire_err | NotVerified

text \<open>
  \<^verbatim>\<open>ed25519.Verify\<close>: a key of another length than 32 is a panic, a signature of another length than 64 or with one of the top
  three bits set is refused.
\<close>

definition ed25519_Verify :: "key_env \<Rightarrow> bytes \<Rightarrow> bytes \<Rightarrow> bytes \<Rightarrow> bool go" where
  "ed25519_Verify env key data sig =
     (if length key \<noteq> 32 then Panic ''ed25519: bad public key length''
      else if length sig \<noteq> 64 \<or> 32 \<le> (of_char (sig ! 63) :: nat) then Ret False
      else Ret (ke_ed env key data sig))"

definition verdict :: "bool \<Rightarrow> sig_err option" where
  "verdict ok = (if ok then None else Some NotVerified)"

definition ecSig :: schema where
  "ecSig = \<lparr>sc_tags = [], sc_fields = [KInt, KInt]\<rparr>"

definition rsa_Verify :: "key_env \<Rightarrow> int \<Rightarrow> int \<Rightarrow> bytes \<Rightarrow> signature \<Rightarrow> sig_err option" where
  "rsa_Verify env e n data sig = (if fst sig \<noteq> ''ssh-rsa'' then Some WrongFormat else verdict (ke_rsa env SHA1 e n data (snd sig)))"

definition dsa_Verify :: "key_env \<Rightarrow> int \<times> int \<times> int \<times> int \<Rightarrow> bytes \<Rightarrow> signature \<Rightarrow> sig_err option" where
  "dsa_Verify env pqgy data sig =
     (if fst sig \<noteq> ''ssh-dss'' then Some WrongFormat
      else if length (snd sig) \<noteq> 40 then Some SigParseError
      else verdict (ke_dsa env SHA1 pqgy data (be_val (take 20 (snd sig))) (be_val (drop 20 (snd sig)))))"

definition ecdsa_Verify :: "key_env \<Rightarrow> ec_id \<Rightarrow> int \<times> int \<Rightarrow> bytes \<Rightarrow> signature \<Rightarrow> sig_err option" where
  "ecdsa_Verify env c pt data sig =
     (if fst sig \<noteq> ''ecdsa-sha2-'' @ nistID c then Some WrongFormat
      else (case Unmarshal ecSig (snd sig) of
          Inl e \<Rightarrow> Some (SigWire e)
        | Inr vs \<Rightarrow> (case vs of [VInt r, VInt s] \<Rightarrow> verdict (ke_ecdsa env (curve_hash c) c pt data r s) | _ \<Rightarrow> Some SigParseError)))"

definition edkey_Verify :: "key_env \<Rightarrow> bytes \<Rightarrow> bytes \<Rightarrow> signature \<Rightarrow> sig_err option go" where
  "edkey_Verify env kb data sig =
     (if fst sig \<noteq> ''ssh-ed25519'' then Ret (Some WrongFormat)
      else bind_go (ed25519_Verify env kb data (snd sig)) (\<lambda>ok. Ret (verdict ok)))"

primrec key_Verify :: "key_env \<Rightarrow> public_key \<Rightarrow> bytes \<Rightarrow> signature \<Rightarrow> sig_err option go"
and cert_Verify :: "key_env \<Rightarrow> certificate \<Rightarrow> bytes \<Rightarrow> signature \<Rightarrow> sig_err option go" where
  "key_Verify env (RSAKey e n) data sig = Ret (rsa_Verify env e n data sig)"
| "key_Verify env (DSAKey p q g y) data sig = Ret (dsa_Verify env (p, q, g, y) data sig)"
| "key_Verify env (ECKey c pt) data sig = Ret (ecdsa_Verify env c pt data sig)"
| "key_Verify env (EdKey kb) data sig = edkey_Verify env kb data sig"
| "key_Verify env (CertKey c) data sig = cert_Verify env c data sig"
| "cert_Verify env (Certificate nonce key serial certType keyId principals after before crit ext reserved sigKey sg) data sig =
     key_Verify env key data sig"

subsection \<open>Checking certificates\<close>

datatype cert_err =
    Revoked | UnsupportedOption | WrongPrincipal | NotYetValid | Expired | BadSignature
  | NotACertificate | WrongCertType u32 | NoAuthority | BadAddress addr_err | FallbackErr string

record cert_checker =
  kc_SupportedCriticalOptions :: "string list"
  kc_IsUserAuthority :: "public_key \<Rightarrow> bool"
  kc_IsHostAuthority :: "public_key \<Rightarrow> string \<Rightarrow> bool"
  kc_UserKeyFallback :: "(string \<Rightarrow> public_key \<Rightarrow> string + (string \<times> string) list \<times> (string \<times> string) list) option"
  kc_HostKeyFallback :: "(string \<Rightarrow> public_key \<Rightarrow> string option) option"
  kc_IsRevoked :: "(certificate \<Rightarrow> bool) option"

definition CertTimeInfinity :: u64 where
  "CertTimeInfinity = - 1"

definition sourceAddressCriticalOption :: string where
  "sourceAddressCriticalOption = ''source-address''"

text \<open>
  \<open>unixNow\<close> is the reading of the clock.  The two callbacks that say who is an authority have to be set, as their comments ask.  The times of a certificate are unsigned and compared as signed
  numbers.  A nil signature is dereferenced.
\<close>

definition CheckCert :: "key_env \<Rightarrow> int \<Rightarrow> cert_checker \<Rightarrow> string \<Rightarrow> certificate \<Rightarrow> cert_err option go" where
  "CheckCert env unixNow c who cert =
     (if (case kc_IsRevoked c of None \<Rightarrow> False | Some f \<Rightarrow> f cert) then Ret (Some Revoked)
      else if list_ex (\<lambda>(opt, v). opt \<noteq> sourceAddressCriticalOption \<and> opt \<notin> set (kc_SupportedCriticalOptions c)) (ct_CriticalOptions cert)
      then Ret (Some UnsupportedOption)
      else if ct_ValidPrincipals cert \<noteq> [] \<and> who \<notin> set (ct_ValidPrincipals cert) then Ret (Some WrongPrincipal)
      else if sint (ct_ValidAfter cert) < 0 \<or> unixNow < sint (ct_ValidAfter cert) then Ret (Some NotYetValid)
      else if ct_ValidBefore cert \<noteq> CertTimeInfinity \<and> (sint (ct_ValidBefore cert) \<le> unixNow \<or> sint (ct_ValidBefore cert) < 0)
      then Ret (Some Expired)
      else bind_go (bytesForSigning env cert) (\<lambda>data.
        case ct_Signature cert of
          None \<Rightarrow> Panic ''nil pointer dereference''
        | Some sig \<Rightarrow>
            bind_go (key_Verify env (ct_SignatureKey cert) data sig)
              (\<lambda>r. Ret (case r of None \<Rightarrow> None | Some _ \<Rightarrow> Some BadSignature))))"

definition CheckHostKey :: "key_env \<Rightarrow> int \<Rightarrow> cert_checker \<Rightarrow> string \<Rightarrow> public_key \<Rightarrow> cert_err option go" where
  "CheckHostKey env unixNow c addr key =
     (case key of
        CertKey cert \<Rightarrow>
          if ct_CertType cert \<noteq> 2 then Ret (Some (WrongCertType (ct_CertType cert)))
          else if \<not> kc_IsHostAuthority c (ct_SignatureKey cert) addr then Ret (Some NoAuthority)
          else (case net_SplitHostPort addr of
              Inl e \<Rightarrow> Ret (Some (BadAddress e))
            | Inr (hostname, _) \<Rightarrow> CheckCert env unixNow c hostname cert)
      | _ \<Rightarrow> (case kc_HostKeyFallback c of None \<Rightarrow> Ret (Some NotACertificate) | Some f \<Rightarrow> Ret (map_option FallbackErr (f addr key))))"

definition Authenticate :: "key_env \<Rightarrow> int \<Rightarrow> cert_checker \<Rightarrow> string \<Rightarrow> public_key
    \<Rightarrow> (cert_err + (string \<times> string) list \<times> (string \<times> string) list) go" where
  "Authenticate env unixNow c user pubKey =
     (case pubKey of
        CertKey cert \<Rightarrow>
          if ct_CertType cert \<noteq> 1 then Ret (Inl (WrongCertType (ct_CertType cert)))
          else if \<not> kc_IsUserAuthority c (ct_SignatureKey cert) then Ret (Inl NoAuthority)
          else bind_go (CheckCert env unixNow c user cert) (\<lambda>r.
            Ret (case r of Some e \<Rightarrow> Inl e | None \<Rightarrow> Inr (ct_CriticalOptions cert, ct_Extensions cert)))
      | _ \<Rightarrow> (case kc_UserKeyFallback c of
            None \<Rightarrow> Ret (Inl NotACertificate)
          | Some f \<Rightarrow> Ret (case f user pubKey of Inl e \<Rightarrow> Inl (FallbackErr e) | Inr perms \<Rightarrow> Inr perms)))"

subsection \<open>Signing\<close>

record key_signer =
  ks_PublicKey :: public_key
  ks_Sign :: "bytes \<Rightarrow> signature option"

definition with_authority :: "certificate \<Rightarrow> bytes \<Rightarrow> public_key \<Rightarrow> certificate" where
  "with_authority c nonce auth = Certificate nonce (ct_Key c) (ct_Serial c) (ct_CertType c) (ct_KeyId c) (ct_ValidPrincipals c)
     (ct_ValidAfter c) (ct_ValidBefore c) (ct_CriticalOptions c) (ct_Extensions c) (ct_Reserved c) auth (ct_Signature c)"

text \<open>\<open>rand\<close> are the bytes the random source can give; it needs 32 of them.\<close>

definition SignCert :: "key_env \<Rightarrow> bytes \<Rightarrow> key_signer \<Rightarrow> certificate \<Rightarrow> (string + certificate) go" where
  "SignCert env rand authority c =
     (if length rand < 32 then Ret (Inl ''unexpected EOF'')
      else let c1 = with_authority c (take 32 rand) (ks_PublicKey authority) in
        bind_go (bytesForSigning env c1) (\<lambda>data.
          case ks_Sign authority data of
            None \<Rightarrow> Ret (Inl ''sign error'')
          | Some sig \<Rightarrow> Ret (Inr (with_signature c1 (Some sig)))))"

text \<open>A signer for a certificate: the certificate in front of the signer of its key.\<close>

definition NewCertSigner :: "key_env \<Rightarrow> certificate \<Rightarrow> key_signer \<Rightarrow> (string + key_signer) go" where
  "NewCertSigner env cert signer =
     bind_go (key_Marshal env (ct_Key cert)) (\<lambda>a. bind_go (key_Marshal env (ks_PublicKey signer)) (\<lambda>b.
       Ret (if a \<noteq> b then Inl ''ssh: signer and cert have different public key''
            else Inr \<lparr>ks_PublicKey = CertKey cert, ks_Sign = ks_Sign signer\<rparr>)))"

end
