(* ===== verification/Keys_Proofs.thy ===== *)
theory Keys_Proofs
  imports Keys Wire_Proofs
begin

section \<open>Public keys and certificates: proofs\<close>

text \<open>
  What is written is read back, for keys and certificates of any nesting; the bytes that are signed determine the certificate; what a
  checker accepts is what an authority issued; which keys make the check of a signature panic.
\<close>

subsection \<open>Lists of names and of options\<close>

lemma small_parts: "small (a @ b) \<longleftrightarrow> length a + length b < 2 ^ 32"
  by (simp add: small_def)

lemma Marshal_fields: "sc_tags s = [] \<Longrightarrow> Marshal s vs = marshal_fields (sc_fields s) vs []"
  by (simp add: Marshal_def)

lemma marshal_fields_Cons: "marshal_fields (k # ks) (v # vs) [] = enc_field k v @ marshal_fields ks vs []"
  using marshal_fields_append [of ks vs "enc_field k v"] by simp

lemma marshal_fields_Nil: "marshal_fields [] vs [] = []"
  by simp

lemmas marshal_eqs = Marshal_fields marshal_fields_Cons marshal_fields_Nil enc_field_simps

lemma Marshal_keys:
  "Marshal rsaWire [VStr s, VInt e, VInt n] = enc_string s @ marshalInt e @ marshalInt n"
  "Marshal dsaWire [VStr s, VInt p, VInt q, VInt g, VInt y] = enc_string s @ marshalInt p @ marshalInt q @ marshalInt g @ marshalInt y"
  "Marshal ecWire [VStr s, VStr t, VBytes b] = enc_string s @ enc_string t @ enc_string b"
  "Marshal edWire [VStr s, VBytes b] = enc_string s @ enc_string b"
  "Marshal certPrefix [VStr s, VBytes b, VBytes r] = enc_string s @ enc_string b @ r"
  "Marshal stringWire [VStr s] = enc_string s"
  "Marshal optionsTuple [VStr s, VBytes b] = enc_string s @ enc_string b"
  "Marshal signatureWire [VStr s, VBytes b] = enc_string s @ enc_string b"
  by (simp_all add: marshal_eqs rsaWire_def dsaWire_def ecWire_def edWire_def certPrefix_def stringWire_def optionsTuple_def
      signatureWire_def del: marshal_fields.simps)

lemma enc_string_not_Nil [simp]: "enc_string s \<noteq> []" "length (enc_string s) = 4 + length s"
  by (simp_all add: enc_string_def PutUint32_def)

lemma read_string: "small (enc_string s @ r) \<Longrightarrow> parseString (enc_string s @ r) = Some (s, r)"
  by (rule wire_string.dec_enc) simp_all

lemma parse_names_marshal: "small (marshalStringList ns) \<Longrightarrow> parse_names (marshalStringList ns) = Some ns"
proof (induction ns)
  case Nil
  then show ?case by (simp add: marshalStringList_def parse_names.simps)
next
  case (Cons n ns)
  have e: "marshalStringList (n # ns) = enc_string n @ marshalStringList ns"
    by (simp add: marshalStringList_def Marshal_keys)
  then show ?case using Cons read_string [of n "marshalStringList ns"] small_append [of "enc_string n"]
    by (subst parse_names.simps) simp
qed

definition opts_ok :: "(string \<times> string) list \<Rightarrow> bool" where
  "opts_ok ts \<longleftrightarrow> sorted_wrt (<) (map fst ts)"

definition enc_tuple :: "string \<times> string \<Rightarrow> bytes" where
  "enc_tuple t = enc_string (fst t) @ enc_string (if snd t = [] then [] else enc_string (snd t))"

lemma marshalTuples_sorted: "opts_ok ts \<Longrightarrow> marshalTuples ts = concat (map enc_tuple ts)"
proof -
  assume "opts_ok ts"
  then have "sort_key fst ts = ts" unfolding opts_ok_def
    by (intro sort_key_id_if_sorted) (simp add: strict_sorted_imp_sorted)
  then show ?thesis by (simp add: marshalTuples_def enc_tuple_def [abs_def] Marshal_keys case_prod_unfold cong: if_cong)
qed

lemma parse_tuples_concat:
  "small (concat (map enc_tuple ts)) \<Longrightarrow> sorted_wrt (<) (map fst ts) \<Longrightarrow> (\<forall>l t. lastKey = Some l \<longrightarrow> t \<in> set ts \<longrightarrow> l < fst t) \<Longrightarrow>
   parse_tuples lastKey (concat (map enc_tuple ts)) = Inr ts"
proof (induction ts arbitrary: lastKey)
  case Nil
  then show ?case by (simp add: parse_tuples.simps)
next
  case (Cons t ts)
  obtain k v where t: "t = (k, v)" by fastforce
  let ?v = "if v = [] then [] else enc_string v" and ?r = "concat (map enc_tuple ts)"
  have e: "concat (map enc_tuple (t # ts)) = enc_string k @ enc_string ?v @ ?r" by (simp add: enc_tuple_def t)
  then have s: "small (enc_string k @ enc_string ?v @ ?r)" using Cons.prems(1) by simp
  then have "parseString (enc_string k @ enc_string ?v @ ?r) = Some (k, enc_string ?v @ ?r)" by (rule read_string)
  moreover have "parseString (enc_string ?v @ ?r) = Some (?v, ?r)" using s by (intro read_string) (simp add: small_def)
  moreover have "parseString (enc_string v) = Some (v, [])" using s read_string [of v "[]"] by (simp add: small_def split: if_splits)
  moreover have "parse_tuples (Some k) ?r = Inr ts"
    using Cons.prems s by (intro Cons.IH) (auto simp: small_def t)
  moreover have "\<not> (case lastKey of None \<Rightarrow> False | Some l \<Rightarrow> k \<le> l)"
    using Cons.prems(3) [rule_format, of _ t] by (auto simp: t not_le split: option.split)
  ultimately show ?case unfolding e by (subst parse_tuples.simps) (simp add: t)
qed

lemma parse_tuples_marshal: "opts_ok ts \<Longrightarrow> small (marshalTuples ts) \<Longrightarrow> parse_tuples None (marshalTuples ts) = Inr ts"
  using parse_tuples_concat [of ts None] by (simp add: marshalTuples_sorted) (simp add: opts_ok_def)

subsection \<open>Keys that are not certificates\<close>

primrec key_ok :: "key_env \<Rightarrow> public_key \<Rightarrow> bool"
and cert_ok :: "key_env \<Rightarrow> certificate \<Rightarrow> bool" where
  "key_ok env (RSAKey e n) \<longleftrightarrow> 3 \<le> e \<and> odd e \<and> bit_len (nat e) \<le> 24"
| "key_ok env (DSAKey p q g y) \<longleftrightarrow> True"
| "key_ok env (ECKey c pt) \<longleftrightarrow> ke_Unmarshal env c (ke_Marshal env c pt) = Some pt"
| "key_ok env (EdKey b) \<longleftrightarrow> True"
| "key_ok env (CertKey c) \<longleftrightarrow> cert_ok env c \<and> ct_Signature c \<noteq> None"
| "cert_ok env (Certificate nonce key serial certType keyId principals after before crit ext reserved sigKey sig) \<longleftrightarrow>
     plain_Type key \<noteq> None \<and> key_ok env key \<and> key_ok env sigKey \<and> opts_ok crit \<and> opts_ok ext"

text \<open>The bytes of a certified key are short enough for their length to be a 32-bit number.\<close>

primrec sizes_ok :: "key_env \<Rightarrow> public_key \<Rightarrow> bool"
and cert_sizes :: "key_env \<Rightarrow> certificate \<Rightarrow> bool" where
  "sizes_ok env (RSAKey e n) \<longleftrightarrow> True"
| "sizes_ok env (DSAKey p q g y) \<longleftrightarrow> True"
| "sizes_ok env (ECKey c pt) \<longleftrightarrow> True"
| "sizes_ok env (EdKey b) \<longleftrightarrow> True"
| "sizes_ok env (CertKey c) \<longleftrightarrow> cert_sizes env c"
| "cert_sizes env (Certificate nonce key serial certType keyId principals after before crit ext reserved sigKey sig) \<longleftrightarrow>
     (case key_Marshal env key of Ret kb \<Rightarrow> small kb | _ \<Rightarrow> False) \<and> sizes_ok env sigKey"

fun plain_body :: "key_env \<Rightarrow> public_key \<Rightarrow> bytes" where
  "plain_body env (RSAKey e n) = marshalInt e @ marshalInt n"
| "plain_body env (DSAKey p q g y) = marshalInt p @ marshalInt q @ marshalInt g @ marshalInt y"
| "plain_body env (ECKey c pt) = enc_string (nistID c) @ enc_string (ke_Marshal env c pt)"
| "plain_body env (EdKey b) = enc_string b"
| "plain_body env (CertKey c) = []"

lemma plain_Marshal: "plain_Type k = Some ty \<Longrightarrow> key_Marshal env k = Ret (enc_string ty @ plain_body env k)"
  by (cases k) (auto simp: Marshal_keys)

lemma marshalInt_not_Nil [simp]: "marshalInt n \<noteq> []"
  by (simp add: marshalInt_def PutUint32_def)

lemma plain_body_not_Nil: "plain_Type k \<noteq> None \<Longrightarrow> plain_body env k \<noteq> []"
  by (cases k) auto

lemma plain_Type_EC: "''ecdsa-sha2-'' @ nistID c \<in> {''ecdsa-sha2-nistp256'', ''ecdsa-sha2-nistp384'', ''ecdsa-sha2-nistp521''}"
  by (cases c) simp_all

lemma curve_of_nistID [simp]: "curve_of (nistID c) = Some c"
  by (cases c) (simp_all add: curve_of_def)

lemma parse_plain_EC:
  "ty \<in> {''ecdsa-sha2-nistp256'', ''ecdsa-sha2-nistp384'', ''ecdsa-sha2-nistp521''} \<Longrightarrow> parse_plain env ty d = parseECDSA env d"
  by (elim insertE emptyE) (simp_all add: parse_plain_def)

lemma parse_plain_body:
  assumes "plain_Type k = Some ty" "key_ok env k" "small (plain_body env k @ r)"
  shows "parse_plain env ty (plain_body env k @ r) = Inr (k, r)"
proof (cases k)
  case (RSAKey e n)
  have "Unmarshal rsaFields (Marshal rsaFields [VInt e, VInt n, VBytes r]) = Inr [VInt e, VInt n, VBytes r]"
    using assms(3) by (intro Unmarshal_untagged) (simp_all add: RSAKey rsaFields_def marshal_eqs has_kind_def del: marshal_fields.simps)
  moreover have "ty = ''ssh-rsa''" using assms(1) RSAKey by auto
  ultimately show ?thesis using assms(2) RSAKey
    by (simp add: parse_plain_def parseRSA_def rsaFields_def marshal_eqs del: marshal_fields.simps)
next
  case (DSAKey p q g y)
  let ?vs = "[VInt p, VInt q, VInt g, VInt y, VBytes r]"
  have "Unmarshal dsaFields (Marshal dsaFields ?vs) = Inr ?vs"
    using assms(3) by (intro Unmarshal_untagged) (simp_all add: DSAKey dsaFields_def marshal_eqs has_kind_def del: marshal_fields.simps)
  moreover have "ty = ''ssh-dss''" using assms(1) DSAKey by auto
  ultimately show ?thesis using assms(2) DSAKey
    by (simp add: parse_plain_def parseDSA_def dsaFields_def marshal_eqs del: marshal_fields.simps)
next
  case (ECKey c pt)
  let ?vs = "[VStr (nistID c), VBytes (ke_Marshal env c pt), VBytes r]"
  have "Unmarshal ecFields (Marshal ecFields ?vs) = Inr ?vs"
    using assms(3) by (intro Unmarshal_untagged) (simp_all add: ECKey ecFields_def marshal_eqs has_kind_def del: marshal_fields.simps)
  then have "parseECDSA env (plain_body env k @ r) = Inr (k, r)" using assms(2) ECKey
    by (simp add: parseECDSA_def ecFields_def marshal_eqs del: marshal_fields.simps)
  moreover have "ty \<in> {''ecdsa-sha2-nistp256'', ''ecdsa-sha2-nistp384'', ''ecdsa-sha2-nistp521''}"
    using plain_Type_EC [of c] assms(1) unfolding ECKey plain_Type.simps option.inject by (rule subst [rotated])
  ultimately show ?thesis using parse_plain_EC [of ty env "plain_body env k @ r"] by argo
next
  case (EdKey b)
  have "Unmarshal edFields (Marshal edFields [VBytes b, VBytes r]) = Inr [VBytes b, VBytes r]"
    using assms(3) by (intro Unmarshal_untagged) (simp_all add: EdKey edFields_def marshal_eqs has_kind_def del: marshal_fields.simps)
  moreover have "ty = ''ssh-ed25519''" using assms(1) EdKey by auto
  ultimately show ?thesis using assms(2) EdKey
    by (simp add: parse_plain_def parseED25519_def edFields_def marshal_eqs del: marshal_fields.simps)
next
  case (CertKey c)
  then show ?thesis using assms(1) by simp
qed

lemma plain_not_cert: "plain_Type k = Some ty \<Longrightarrow> \<exists>s. certToPrivAlgo ty = Panic s"
proof (cases k)
  case (ECKey c pt)
  moreover assume "plain_Type k = Some ty"
  ultimately show ?thesis by (cases c) (auto simp: certToPrivAlgo_def certAlgoNames_def)
qed (auto simp: certToPrivAlgo_def certAlgoNames_def)

lemma cert_name:
  assumes "plain_Type (ct_Key c) = Some ty"
  obtains name where "cert_Type c = Ret name" "certToPrivAlgo name = Ret ty"
proof -
  have "\<exists>name. map_of certAlgoNames ty = Some name \<and> certToPrivAlgo name = Ret ty"
  proof (cases "ct_Key c")
    case (ECKey e pt)
    then show ?thesis using assms by (cases e) (auto simp: certToPrivAlgo_def certAlgoNames_def)
  qed (use assms in \<open>auto simp: certToPrivAlgo_def certAlgoNames_def\<close>)
  then show thesis using that assms by (auto simp: cert_Type_def)
qed

subsection \<open>Certificates\<close>

text \<open>The bytes of a certificate up to its signature, given its name and the bytes of its keys.\<close>

definition cert_bytes :: "string \<Rightarrow> certificate \<Rightarrow> bytes \<Rightarrow> bytes \<Rightarrow> bytes" where
  "cert_bytes name c body sk = enc_string name @ enc_string (ct_Nonce c) @ body @ PutUint64 (ct_Serial c) @ PutUint32 (ct_CertType c)
     @ enc_string (ct_KeyId c) @ enc_string (marshalStringList (ct_ValidPrincipals c)) @ PutUint64 (ct_ValidAfter c)
     @ PutUint64 (ct_ValidBefore c) @ enc_string (marshalTuples (ct_CriticalOptions c)) @ enc_string (marshalTuples (ct_Extensions c))
     @ enc_string (ct_Reserved c) @ enc_string sk"

lemma marshal_generic_bytes:
  "marshal_generic c sk = PutUint64 (ct_Serial c) @ PutUint32 (ct_CertType c)
     @ enc_string (ct_KeyId c) @ enc_string (marshalStringList (ct_ValidPrincipals c)) @ PutUint64 (ct_ValidAfter c)
     @ PutUint64 (ct_ValidBefore c) @ enc_string (marshalTuples (ct_CriticalOptions c)) @ enc_string (marshalTuples (ct_Extensions c))
     @ enc_string (ct_Reserved c) @ enc_string sk @ enc_string (marshal_signature (ct_Signature c))"
  by (simp add: marshal_generic_def marshal_eqs genericCertData_def del: marshal_fields.simps)

lemma cert_Marshal_bytes:
  assumes "plain_Type (ct_Key c) = Some ty" "cert_Type c = Ret name" "key_Marshal env (ct_SignatureKey c) = Ret sk"
    and "small (enc_string ty @ plain_body env (ct_Key c))"
  shows "cert_Marshal env c = Ret (cert_bytes name c (plain_body env (ct_Key c)) sk @ enc_string (marshal_signature (ct_Signature c)))"
proof -
  obtain nonce key serial certType keyId principals after before crit ext reserved sigKey sig
    where c: "c = Certificate nonce key serial certType keyId principals after before crit ext reserved sigKey sig"
    by (cases c)
  then show ?thesis using assms plain_Marshal [of key ty env] read_string [of ty "plain_body env key"]
    by (simp add: marshal_cert_def Marshal_keys cert_bytes_def marshal_generic_bytes)
qed

lemma read_signature:
  assumes "sig = Some s" "small (marshal_signature sig)"
  shows "parseSignatureBody (marshal_signature sig) = Some (s, [])"
proof -
  have m: "marshal_signature sig = enc_string (fst s) @ enc_string (snd s)"
    by (simp add: marshal_signature_def assms(1) Marshal_keys split: prod.split)
  then have "parseString (marshal_signature sig) = Some (fst s, enc_string (snd s))"
    using assms(2) by (simp add: read_string)
  moreover have "parseString (enc_string (snd s)) = Some (snd s, [])"
    using assms(2) m read_string [of "snd s" "[]"] small_append [of "enc_string (fst s)" "enc_string (snd s)"] by simp
  ultimately show ?thesis by (simp add: parseSignatureBody_def)
qed

lemma read_generic:
  assumes "small (marshal_generic c sk)"
  shows "Unmarshal genericCertData (marshal_generic c sk) = Inr
     [VU64 (ct_Serial c), VU32 (ct_CertType c), VStr (ct_KeyId c), VBytes (marshalStringList (ct_ValidPrincipals c)),
        VU64 (ct_ValidAfter c), VU64 (ct_ValidBefore c), VBytes (marshalTuples (ct_CriticalOptions c)),
        VBytes (marshalTuples (ct_Extensions c)), VBytes (ct_Reserved c), VBytes sk,
        VBytes (marshal_signature (ct_Signature c))]"
proof -
  have ne: "marshal_generic c sk \<noteq> []" by (simp add: marshal_generic_bytes)
  then show ?thesis using assms unfolding marshal_generic_def
    by (intro Unmarshal_untagged) (simp_all add: genericCertData_def has_kind_def)
qed

lemma cert_ok_parts:
  "cert_ok env c \<longleftrightarrow> plain_Type (ct_Key c) \<noteq> None \<and> key_ok env (ct_Key c) \<and> key_ok env (ct_SignatureKey c)
     \<and> opts_ok (ct_CriticalOptions c) \<and> opts_ok (ct_Extensions c)"
  by (cases c) simp

lemma finish_cert_read:
  assumes "cert_ok env c" "ct_Signature c = Some s" "small (marshal_generic c sk)"
    and "g = [VU64 (ct_Serial c), VU32 (ct_CertType c), VStr (ct_KeyId c), VBytes (marshalStringList (ct_ValidPrincipals c)),
        VU64 (ct_ValidAfter c), VU64 (ct_ValidBefore c), VBytes (marshalTuples (ct_CriticalOptions c)),
        VBytes (marshalTuples (ct_Extensions c)), VBytes (ct_Reserved c), VBytes sk,
        VBytes (marshal_signature (ct_Signature c))]"
  shows "finish_cert (ct_Nonce c) (ct_Key c) g (Inr (ct_SignatureKey c)) = Inr (CertKey c)"
proof -
  have "small (marshalStringList (ct_ValidPrincipals c))" "small (marshalTuples (ct_CriticalOptions c))"
      "small (marshalTuples (ct_Extensions c))" "small (marshal_signature (ct_Signature c))"
    using assms(3) by (simp_all add: marshal_generic_bytes small_def)
  then show ?thesis using assms(1,2) read_signature [OF assms(2)]
    by (cases c) (simp add: finish_cert_def assms(4) parse_names_marshal parse_tuples_marshal)
qed

lemma ParsePublicKey_cert:
  assumes "cert_ok env c" "ct_Signature c = Some s" "key_Marshal env (ct_SignatureKey c) = Ret sk"
    and "cert_Marshal env c = Ret b" "small b" "ParsePublicKey env sk = Inr (ct_SignatureKey c)"
    and sm: "small (enc_string ty @ plain_body env (ct_Key c))" "plain_Type (ct_Key c) = Some ty"
  shows "ParsePublicKey env b = Inr (CertKey c)"
proof -
  obtain name where name: "cert_Type c = Ret name" "certToPrivAlgo name = Ret ty" using cert_name sm(2) by blast
  let ?g = "marshal_generic c sk"
  have b: "b = enc_string name @ enc_string (ct_Nonce c) @ plain_body env (ct_Key c) @ ?g"
    using cert_Marshal_bytes [OF sm(2) name(1) assms(3) sm(1)] assms(4) by (simp add: cert_bytes_def marshal_generic_bytes)
  then have s: "small (enc_string name @ enc_string (ct_Nonce c) @ plain_body env (ct_Key c) @ ?g)" using assms(5) by simp
  then have s1: "small (enc_string (ct_Nonce c) @ plain_body env (ct_Key c) @ ?g)" "small (plain_body env (ct_Key c) @ ?g)" "small ?g"
    by (simp_all add: small_def)
  have p: "parse_plain env ty (plain_body env (ct_Key c) @ ?g) = Inr (ct_Key c, ?g)"
    using assms(1) sm(2) s1(2) by (intro parse_plain_body) (simp_all add: cert_ok_parts)
  have "parseCert env (enc_string (ct_Nonce c) @ plain_body env (ct_Key c) @ ?g) ty = Inr (CertKey c)"
    using read_string [OF s1(1)] p read_generic [OF s1(3)] finish_cert_read [OF assms(1,2) s1(3) refl] assms(6)
    by (subst parseCert_def) (simp add: cert_parts_def sig_key_bytes_def)
  then show ?thesis unfolding b
    by (subst ParsePublicKey_calls) (simp add: read_string [OF s] parsePubKey_def name(2))
qed

lemma cert_sizes_parts:
  "cert_sizes env c \<longleftrightarrow> (case key_Marshal env (ct_Key c) of Ret kb \<Rightarrow> small kb | _ \<Rightarrow> False) \<and> sizes_ok env (ct_SignatureKey c)"
  by (cases c) simp

lemma ParsePublicKey_plain:
  assumes "plain_Type k = Some ty" "key_ok env k" "key_Marshal env k = Ret b" "small b"
  shows "ParsePublicKey env b = Inr k"
proof -
  have b: "b = enc_string ty @ plain_body env k" using plain_Marshal [OF assms(1), of env] assms(3) by simp
  obtain p where "certToPrivAlgo ty = Panic p" using plain_not_cert [OF assms(1)] by blast
  then show ?thesis using assms(4) parse_plain_body [OF assms(1,2), of "[]"] small_append [of "enc_string ty"]
    unfolding b by (subst ParsePublicKey_calls) (simp add: read_string parsePubKey_def)
qed

lemma Marshal_returns:
  shows "key_ok env k \<Longrightarrow> sizes_ok env k \<Longrightarrow> \<exists>b. key_Marshal env k = Ret b"
    and "cert_ok env c \<Longrightarrow> cert_sizes env c \<Longrightarrow> \<exists>b. cert_Marshal env c = Ret b"
proof (induction k and c)
  case (Certificate nonce key serial certType keyId principals after before crit ext reserved sigKey sig)
  let ?c = "Certificate nonce key serial certType keyId principals after before crit ext reserved sigKey sig"
  obtain ty where ty: "plain_Type key = Some ty" using Certificate.prems(1) by auto
  then obtain name where "cert_Type ?c = Ret name" using cert_name [of ?c ty] by auto
  moreover obtain sk where "key_Marshal env sigKey = Ret sk" using Certificate by auto
  ultimately show ?case using cert_Marshal_bytes [of ?c ty name env sk] ty Certificate.prems(2) plain_Marshal [OF ty, of env] by simp
qed simp_all

lemma Parse_Marshal:
  shows "key_ok env k \<Longrightarrow> sizes_ok env k \<Longrightarrow> key_Marshal env k = Ret b \<Longrightarrow> small b \<Longrightarrow> ParsePublicKey env b = Inr k"
    and "cert_ok env c \<Longrightarrow> cert_sizes env c \<Longrightarrow> ct_Signature c \<noteq> None \<Longrightarrow> cert_Marshal env c = Ret b \<Longrightarrow> small b
      \<Longrightarrow> ParsePublicKey env b = Inr (CertKey c)"
proof (induction k and c arbitrary: b and b)
  case (CertKey c)
  then show ?case by auto
next
  case (Certificate nonce key serial certType keyId principals after before crit ext reserved sigKey sig)
  let ?c = "Certificate nonce key serial certType keyId principals after before crit ext reserved sigKey sig"
  obtain ty where ty: "plain_Type key = Some ty" using Certificate.prems(1) by auto
  then obtain name where name: "cert_Type ?c = Ret name" using cert_name [of ?c ty] by auto
  obtain sk where sk: "key_Marshal env sigKey = Ret sk" using Certificate.prems(1,2) Marshal_returns(1) by auto
  obtain s where s: "sig = Some s" using Certificate.prems(3) by auto
  have sm: "small (enc_string ty @ plain_body env key)" using Certificate.prems(2) plain_Marshal [OF ty, of env] by simp
  then have "b = cert_bytes name ?c (plain_body env key) sk @ enc_string (marshal_signature sig)"
    using cert_Marshal_bytes [of ?c ty name env sk] ty name sk Certificate.prems(4) by simp
  then have "small sk" using Certificate.prems(5) by (simp add: cert_bytes_def small_def)
  then have "ParsePublicKey env sk = Inr sigKey" using Certificate sk by simp
  then show ?case using ParsePublicKey_cert [of env ?c s sk b ty] Certificate.prems ty s sk sm by simp
qed (rule ParsePublicKey_plain; simp)+

text \<open>
  C19: public keys survive the wire.  Every key of the five kinds, a certificate that is signed by a certificate that is
  signed by a certificate included, is written without a panic, and if the bytes are fewer than \<open>2^32\<close> then \<open>ParsePublicKey\<close>
  gives the key back.  The conditions are those the reader checks: the exponent of an RSA key, the order of
  the options, a signature, a certified key that is no certificate; the point of a curve survives its own
  encoding (\<open>key_ok\<close>); the bytes of a certified key are below \<open>2^32\<close> as well (\<open>sizes_ok\<close>).
\<close>

theorem public_key_round_trip:
  assumes "key_ok env k" "sizes_ok env k"
  shows "\<exists>b. key_Marshal env k = Ret b \<and> (small b \<longrightarrow> ParsePublicKey env b = Inr k)"
  using Marshal_returns(1) [OF assms] Parse_Marshal(1) [OF assms] by blast

subsection \<open>What is signed\<close>

lemma with_signature_simps [simp]:
  "ct_Key (with_signature c s) = ct_Key c" "ct_SignatureKey (with_signature c s) = ct_SignatureKey c"
  "ct_Signature (with_signature c s) = s" "with_signature (with_signature c s) t = with_signature c t"
  "cert_ok env (with_signature c s) = cert_ok env c" "cert_sizes env (with_signature c s) = cert_sizes env c"
  "cert_Type (with_signature c s) = cert_Type c"
  "cert_bytes name (with_signature c s) body sk = cert_bytes name c body sk"
  by (simp_all add: with_signature_def cert_ok_parts cert_sizes_parts cert_Type_def cert_bytes_def)

lemma with_signature_fields [simp]:
  "ct_CertType (with_signature c s) = ct_CertType c" "ct_ValidPrincipals (with_signature c s) = ct_ValidPrincipals c"
  "ct_ValidAfter (with_signature c s) = ct_ValidAfter c" "ct_ValidBefore (with_signature c s) = ct_ValidBefore c"
  "ct_CriticalOptions (with_signature c s) = ct_CriticalOptions c" "ct_Extensions (with_signature c s) = ct_Extensions c"
  by (simp_all add: with_signature_def)

lemma bytesForSigning_bytes:
  assumes "plain_Type (ct_Key c) = Some ty" "cert_Type c = Ret name" "key_Marshal env (ct_SignatureKey c) = Ret sk"
    and "small (enc_string ty @ plain_body env (ct_Key c))"
  shows "bytesForSigning env c = Ret (cert_bytes name c (plain_body env (ct_Key c)) sk)"
  using cert_Marshal_bytes [of "with_signature c None" ty name env sk] assms by (simp add: bytesForSigning_def marshal_signature_def)

lemma signed_bytes:
  assumes "cert_ok env c" "cert_sizes env c"
  obtains d where "bytesForSigning env c = Ret d"
    "\<And>s. cert_Marshal env (with_signature c s) = Ret (d @ enc_string (marshal_signature s))"
proof -
  obtain ty where ty: "plain_Type (ct_Key c) = Some ty" using assms(1) by (auto simp: cert_ok_parts)
  then obtain name where name: "cert_Type c = Ret name" using cert_name by blast
  obtain sk where sk: "key_Marshal env (ct_SignatureKey c) = Ret sk"
    using assms Marshal_returns(1) by (auto simp: cert_ok_parts cert_sizes_parts)
  have "small (enc_string ty @ plain_body env (ct_Key c))" using assms(2) plain_Marshal [OF ty, of env] by (simp add: cert_sizes_parts)
  then have "cert_Marshal env (with_signature c s) = Ret (cert_bytes name c (plain_body env (ct_Key c)) sk @ enc_string (marshal_signature s))"
      "bytesForSigning env c = Ret (cert_bytes name c (plain_body env (ct_Key c)) sk)" for s
    using cert_Marshal_bytes [of "with_signature c s" ty name env sk] bytesForSigning_bytes [OF ty name sk] ty name sk by simp_all
  then show thesis using that by blast
qed

lemma signature_binds:
  assumes "cert_ok env c1" "cert_sizes env c1" "cert_ok env c2" "cert_sizes env c2"
    and "bytesForSigning env c1 = Ret d" "bytesForSigning env c2 = Ret d" "length d + 12 < 2 ^ 32"
  shows "with_signature c1 s = with_signature c2 s"
proof -
  let ?s = "Some ([], [])"
  let ?b = "d @ enc_string (marshal_signature ?s)"
  have m: "cert_Marshal env (with_signature c1 ?s) = Ret ?b" "cert_Marshal env (with_signature c2 ?s) = Ret ?b"
    using signed_bytes [OF assms(1,2)] signed_bytes [OF assms(3,4)] assms(5,6) by (metis go.inject(1))+
  have "small ?b" using assms(7) by (simp add: small_def marshal_signature_def Marshal_keys)
  then have "ParsePublicKey env ?b = Inr (CertKey (with_signature c1 ?s))" "ParsePublicKey env ?b = Inr (CertKey (with_signature c2 ?s))"
    using assms(1-4) m by (simp_all add: Parse_Marshal(2))
  then have "with_signature c1 ?s = with_signature c2 ?s" by simp
  then show ?thesis by (metis with_signature_simps(4))
qed

subsection \<open>What a parsed key is like\<close>

definition points_ok :: "key_env \<Rightarrow> bool" where
  "points_ok env \<longleftrightarrow> (\<forall>c b pt. ke_Unmarshal env c b = Some pt \<longrightarrow> ke_Unmarshal env c (ke_Marshal env c pt) = Some pt)"

lemma parse_tuples_sorted:
  "parse_tuples lastKey d = Inr ts \<Longrightarrow> sorted_wrt (<) (map fst ts) \<and> (\<forall>l. lastKey = Some l \<longrightarrow> (\<forall>t\<in>set ts. l < fst t))"
proof (induction lastKey d arbitrary: ts rule: parse_tuples.induct)
  case (1 lastKey d)
  show ?case
  proof (cases "d = []")
    case True
    then show ?thesis using "1.prems" by (simp add: parse_tuples.simps)
  next
    case False
    then obtain key d1 val d2 v ts' where p: "parseString d = Some (key, d1)"
        "\<not> (case lastKey of None \<Rightarrow> False | Some l \<Rightarrow> key \<le> l)" "parseString d1 = Some (val, d2)"
        "(if val = [] then Inr [] else (case parseString val of None \<Rightarrow> Inl KeyShortRead
            | Some (v, extra) \<Rightarrow> if extra \<noteq> [] then Inl TrailingOption else Inr v)) = Inr v"
        "parse_tuples (Some key) d2 = Inr ts'" "ts = (key, v) # ts'"
      using "1.prems" by (subst (asm) parse_tuples.simps) (auto split: option.split_asm if_split_asm sum.split_asm)
    have "sorted_wrt (<) (map fst ts') \<and> (\<forall>t\<in>set ts'. key < fst t)"
      using "1.IH" [OF False p(1) refl p(2) p(3) refl p(4) p(5)] by simp
    moreover have "l < key" if "lastKey = Some l" for l using p(2) that by (simp add: not_le)
    ultimately show ?thesis using p(6) by (auto intro: less_trans)
  qed
qed

lemma parse_plain_ok:
  assumes "parse_plain env algo d = Inr (k, rest)" "points_ok env"
  shows "key_ok env k \<and> plain_Type k \<noteq> None"
  using parse_plain_cases [OF assms(1)]
proof (elim disjE)
  assume "parseRSA d = Inr (k, rest)"
  then show ?thesis by (auto simp: parseRSA_def split: if_split_asm sum.split_asm list.split_asm fval.split_asm)
next
  assume "parseDSA d = Inr (k, rest)"
  then show ?thesis using parseDSA_read by fastforce
next
  assume "parseECDSA env d = Inr (k, rest)"
  then show ?thesis using parseECDSA_read assms(2) by (fastforce simp: points_ok_def)
next
  assume "parseED25519 d = Inr (k, rest)"
  then show ?thesis using parseED25519_read by fastforce
qed

lemma finish_cert_Inr:
  assumes "finish_cert nonce key g r = Inr k"
  obtains sk c where "r = Inr sk" "k = CertKey c" "ct_Key c = key" "ct_SignatureKey c = sk" "ct_Signature c \<noteq> None"
    "opts_ok (ct_CriticalOptions c)" "opts_ok (ct_Extensions c)"
  using assms unfolding finish_cert_def
  by (auto split: list.split_asm fval.split_asm option.split_asm sum.split_asm if_split_asm
      dest!: parse_tuples_sorted simp: opts_ok_def)

lemma ParsePublicKey_cases:
  assumes "ParsePublicKey env b = Inr k"
  obtains (plain) algo d where "parseString b = Some (algo, d)" "parse_plain env algo d = Inr (k, [])"
    | (cert) algo d privAlgo nonce key g where "parseString b = Some (algo, d)" "cert_parts env privAlgo d = Inr (nonce, key, g)"
        "finish_cert nonce key g (ParsePublicKey env (sig_key_bytes g)) = Inr k"
proof -
  obtain algo d where p: "parseString b = Some (algo, d)" "parsePubKey env d algo = Inr (k, [])"
    using assms by (subst (asm) ParsePublicKey_calls) (auto split: option.split_asm sum.split_asm if_split_asm)
  show thesis
  proof (cases "certToPrivAlgo algo")
    case (Ret privAlgo)
    then have "parseCert env d privAlgo = Inr k" using p(2) by (simp add: parsePubKey_def split: sum.split_asm)
    then show thesis using cert p(1) by (subst (asm) parseCert_def) (auto split: sum.split_asm)
  qed (use p plain in \<open>simp_all add: parsePubKey_def\<close>)
qed

lemma ParsePublicKey_ok: "ParsePublicKey env b = Inr k \<Longrightarrow> points_ok env \<Longrightarrow> key_ok env k"
proof (induction "length b" arbitrary: b k rule: less_induct)
  case less
  from less.prems(1) show ?case
  proof (cases rule: ParsePublicKey_cases)
    case (plain algo d)
    then show ?thesis using parse_plain_ok less.prems(2) by blast
  next
    case (cert algo d privAlgo nonce key g)
    from cert(3) obtain sk c where f: "ParsePublicKey env (sig_key_bytes g) = Inr sk" "k = CertKey c" "ct_Key c = key"
        "ct_SignatureKey c = sk" "ct_Signature c \<noteq> None" "opts_ok (ct_CriticalOptions c)" "opts_ok (ct_Extensions c)"
      by (rule finish_cert_Inr)
    have "length (sig_key_bytes g) < length b"
      using cert_parts_shorter [OF cert(2)] parseString_shorter [OF cert(1)] by simp
    then have "key_ok env sk" using less f(1) by blast
    moreover have "key_ok env key \<and> plain_Type key \<noteq> None"
      using cert(2) parse_plain_ok less.prems(2) by (auto simp: cert_parts_def split: option.split_asm sum.split_asm)
    ultimately show ?thesis using f by (simp add: cert_ok_parts)
  qed
qed

subsection \<open>Checking\<close>

lemma sint_u64: "sint (w :: 64 word) = (if uint w < 2 ^ 63 then uint w else uint w - 2 ^ 64)"
proof -
  have b: "0 \<le> uint w" "uint w < 2 ^ 64" using uint_lt2p [of w] by simp_all
  have s: "sint w = uint w - 2 ^ 64 * of_bool (bit (uint w) 63)"
    using take_bit_int_eq_self [OF b] by (simp add: sint_uint signed_take_bit_eq_take_bit_minus)
  have "bit (uint w) 63 \<longleftrightarrow> \<not> uint w < 2 ^ 63"
  proof (cases "uint w < 2 ^ 63")
    case True
    then have "uint w div 2 ^ 63 = 0" using b by simp
    then show ?thesis using True by (simp add: bit_iff_odd)
  next
    case False
    then have "uint w div 2 ^ 63 = 1" using b by (intro div_pos_geq [THEN trans] ) (simp_all)
    then show ?thesis using False by (simp add: bit_iff_odd)
  qed
  then show ?thesis using s by simp
qed

lemma refused_iff: "(if P then Ret (Some e) else x) = Ret None \<longleftrightarrow> \<not> P \<and> x = Ret None"
  by simp

lemma CheckCert_iff:
  assumes "bytesForSigning env cert = Ret data"
  shows "CheckCert env unixNow c who cert = Ret None \<longleftrightarrow>
    (case kc_IsRevoked c of None \<Rightarrow> True | Some f \<Rightarrow> \<not> f cert)
    \<and> (\<forall>(opt, v)\<in>set (ct_CriticalOptions cert). opt = sourceAddressCriticalOption \<or> opt \<in> set (kc_SupportedCriticalOptions c))
    \<and> (ct_ValidPrincipals cert = [] \<or> who \<in> set (ct_ValidPrincipals cert))
    \<and> (uint (ct_ValidAfter cert) < 2 ^ 63 \<and> uint (ct_ValidAfter cert) \<le> unixNow)
    \<and> (ct_ValidBefore cert = CertTimeInfinity \<or> uint (ct_ValidBefore cert) < 2 ^ 63 \<and> unixNow < uint (ct_ValidBefore cert))
    \<and> (\<exists>sig. ct_Signature cert = Some sig \<and> key_Verify env (ct_SignatureKey cert) data sig = Ret None)"
proof -
  let ?a = "ct_ValidAfter cert" and ?b = "ct_ValidBefore cert"
  have u: "0 \<le> uint ?a" "uint ?a < 2 ^ 64" "0 \<le> uint ?b" "uint ?b < 2 ^ 64"
    using uint_lt2p [of ?a] uint_lt2p [of ?b] by simp_all
  have A: "\<not> (case kc_IsRevoked c of None \<Rightarrow> False | Some f \<Rightarrow> f cert) \<longleftrightarrow> (case kc_IsRevoked c of None \<Rightarrow> True | Some f \<Rightarrow> \<not> f cert)"
    by (simp split: option.split)
  have B: "\<not> list_ex (\<lambda>(opt, v). opt \<noteq> sourceAddressCriticalOption \<and> opt \<notin> set (kc_SupportedCriticalOptions c)) (ct_CriticalOptions cert)
      \<longleftrightarrow> (\<forall>(opt, v)\<in>set (ct_CriticalOptions cert). opt = sourceAddressCriticalOption \<or> opt \<in> set (kc_SupportedCriticalOptions c))"
    by (auto simp: list_ex_iff)
  have D: "\<not> (sint ?a < 0 \<or> unixNow < sint ?a) \<longleftrightarrow> uint ?a < 2 ^ 63 \<and> uint ?a \<le> unixNow"
    using u by (simp add: sint_u64) linarith
  have E: "\<not> (?b \<noteq> CertTimeInfinity \<and> (sint ?b \<le> unixNow \<or> sint ?b < 0))
      \<longleftrightarrow> ?b = CertTimeInfinity \<or> uint ?b < 2 ^ 63 \<and> unixNow < uint ?b"
    using u by (simp add: sint_u64) linarith
  have F: "bind_go (bytesForSigning env cert) (\<lambda>data.
        case ct_Signature cert of
          None \<Rightarrow> Panic ''nil pointer dereference''
        | Some sig \<Rightarrow>
            bind_go (key_Verify env (ct_SignatureKey cert) data sig)
              (\<lambda>r. Ret (case r of None \<Rightarrow> None | Some _ \<Rightarrow> Some BadSignature))) = Ret None
      \<longleftrightarrow> (\<exists>sig. ct_Signature cert = Some sig \<and> key_Verify env (ct_SignatureKey cert) data sig = Ret None)"
    using assms by (auto simp: bind_go_Ret_iff split: option.split_asm option.split)
  show ?thesis unfolding CheckCert_def refused_iff A B D E F by blast
qed

lemma Authenticate_iff:
  assumes "bytesForSigning env cert = Ret data"
  shows "Authenticate env unixNow c user (CertKey cert) = Ret (Inr perms) \<longleftrightarrow>
    ct_CertType cert = 1 \<and> kc_IsUserAuthority c (ct_SignatureKey cert) \<and> CheckCert env unixNow c user cert = Ret None
    \<and> perms = (ct_CriticalOptions cert, ct_Extensions cert)"
  by (auto simp: Authenticate_def bind_go_Ret_iff split: option.split_asm if_split_asm)

text \<open>
  C18: a user certificate that the checker accepts was issued, as it stands.  Take a certificate that came off the wire and
  passed \<open>Authenticate\<close>, and suppose signatures that verify under its signature key were made by that authority, which signs
  certificates only.  Then one of the certificates it signed has the same fields, whatever signature is attached; and that
  certificate is a user certificate of a recognised authority, names the user (or everybody), is valid at the time, has
  no critical option the server does not know, and its permissions are those that are granted.
\<close>

theorem accepted_certificate_was_issued:
  assumes wire: "ParsePublicKey env blob = Inr (CertKey cert)" "points_ok env" "cert_sizes env cert"
    and accepted: "Authenticate env unixNow c user (CertKey cert) = Ret (Inr perms)"
    and unforgeable: "\<forall>data sig. key_Verify env (ct_SignatureKey cert) data sig = Ret None \<longrightarrow> (\<exists>ic\<in>issued. bytesForSigning env ic = Ret data)"
    and wellformed: "\<forall>ic\<in>issued. cert_ok env ic \<and> cert_sizes env ic"
    and short: "\<forall>ic\<in>issued. \<forall>d. bytesForSigning env ic = Ret d \<longrightarrow> length d + 12 < 2 ^ 32"
  shows "\<exists>ic\<in>issued. with_signature ic (ct_Signature cert) = cert \<and> ct_CertType ic = 1 \<and> kc_IsUserAuthority c (ct_SignatureKey ic)
    \<and> (ct_ValidPrincipals ic = [] \<or> user \<in> set (ct_ValidPrincipals ic))
    \<and> uint (ct_ValidAfter ic) \<le> unixNow \<and> (ct_ValidBefore ic = CertTimeInfinity \<or> unixNow < uint (ct_ValidBefore ic))
    \<and> (\<forall>(opt, v)\<in>set (ct_CriticalOptions ic). opt = sourceAddressCriticalOption \<or> opt \<in> set (kc_SupportedCriticalOptions c))
    \<and> perms = (ct_CriticalOptions ic, ct_Extensions ic)"
proof -
  have ok: "cert_ok env cert" using ParsePublicKey_ok [OF wire(1,2)] by simp
  obtain data where data: "bytesForSigning env cert = Ret data" using signed_bytes [OF ok wire(3)] by blast
  note a = accepted [unfolded Authenticate_iff [OF data] CheckCert_iff [OF data]]
  then obtain ic where ic: "ic \<in> issued" "bytesForSigning env ic = Ret data" using unforgeable by blast
  then have "with_signature ic (ct_Signature cert) = with_signature cert (ct_Signature cert)"
    using signature_binds [OF _ _ ok wire(3) _ data] wellformed short by blast
  then have w: "with_signature ic (ct_Signature cert) = cert" by (cases cert) (simp add: with_signature_def)
  then have "ct_CertType ic = ct_CertType cert" "ct_SignatureKey ic = ct_SignatureKey cert" "ct_ValidPrincipals ic = ct_ValidPrincipals cert"
      "ct_ValidAfter ic = ct_ValidAfter cert" "ct_ValidBefore ic = ct_ValidBefore cert"
      "ct_CriticalOptions ic = ct_CriticalOptions cert" "ct_Extensions ic = ct_Extensions cert"
    by (metis with_signature_fields with_signature_simps(2))+
  moreover have "ct_ValidBefore cert = CertTimeInfinity \<or> unixNow < uint (ct_ValidBefore cert)" using a by blast
  ultimately show ?thesis using ic(1) w a by (intro bexI [of _ ic]) simp_all
qed

lemma SignCert_Inr:
  assumes "SignCert env rand authority c0 = Ret (Inr cert)"
  obtains nonce data sig where "nonce = take 32 rand" "bytesForSigning env (with_authority c0 nonce (ks_PublicKey authority)) = Ret data"
    "ks_Sign authority data = Some sig" "cert = with_signature (with_authority c0 nonce (ks_PublicKey authority)) (Some sig)"
  using assms by (auto simp: SignCert_def Let_def bind_go_Ret_iff split: option.split_asm if_split_asm)

lemma bytesForSigning_with [simp]: "bytesForSigning env (with_signature c s) = bytesForSigning env c"
  by (simp add: bytesForSigning_def)

text \<open>
  An authority's certificate is accepted.  What \<open>SignCert\<close> returns is written, read and accepted by \<open>Authenticate\<close> with its own
  permissions, for a user it names, at every time within its validity, if the checker recognises the authority
  and knows the critical options, and the certificate was not revoked.
\<close>

lemma signed_certificate_accepted:
  assumes signed: "SignCert env rand authority c0 = Ret (Inr cert)" "\<forall>data sig. ks_Sign authority data = Some sig \<longrightarrow>
      key_Verify env (ks_PublicKey authority) data sig = Ret None"
    and ok: "cert_ok env cert" "cert_sizes env cert"
    and checker: "kc_IsUserAuthority c (ks_PublicKey authority)" "(case kc_IsRevoked c of None \<Rightarrow> True | Some f \<Rightarrow> \<not> f cert)"
      "\<forall>(opt, v)\<in>set (ct_CriticalOptions cert). opt = sourceAddressCriticalOption \<or> opt \<in> set (kc_SupportedCriticalOptions c)"
    and valid: "ct_CertType cert = 1" "ct_ValidPrincipals cert = [] \<or> user \<in> set (ct_ValidPrincipals cert)"
      "uint (ct_ValidAfter cert) \<le> unixNow" "unixNow < 2 ^ 63"
      "ct_ValidBefore cert = CertTimeInfinity \<or> uint (ct_ValidBefore cert) < 2 ^ 63 \<and> unixNow < uint (ct_ValidBefore cert)"
  shows "\<exists>b. cert_Marshal env cert = Ret b \<and> (small b \<longrightarrow> ParsePublicKey env b = Inr (CertKey cert))
    \<and> Authenticate env unixNow c user (CertKey cert) = Ret (Inr (ct_CriticalOptions cert, ct_Extensions cert))"
proof -
  obtain nonce data sig where s: "nonce = take 32 rand" "bytesForSigning env (with_authority c0 nonce (ks_PublicKey authority)) = Ret data"
      "ks_Sign authority data = Some sig" "cert = with_signature (with_authority c0 nonce (ks_PublicKey authority)) (Some sig)"
    using signed(1) by (rule SignCert_Inr)
  then have c: "bytesForSigning env cert = Ret data" "ct_Signature cert = Some sig" "ct_SignatureKey cert = ks_PublicKey authority"
    by (simp_all add: with_authority_def)
  obtain b where b: "cert_Marshal env cert = Ret b" using Marshal_returns(2) [OF ok] by blast
  have "uint (ct_ValidAfter cert) < 2 ^ 63" using valid(3,4) by linarith
  moreover have "\<exists>sig. ct_Signature cert = Some sig \<and> key_Verify env (ct_SignatureKey cert) data sig = Ret None"
    using signed(2) [rule_format, OF s(3)] c(2,3) by simp
  ultimately have "CheckCert env unixNow c user cert = Ret None"
    unfolding CheckCert_iff [OF c(1)] using checker(2,3) valid(2,3,5) by blast
  then have "Authenticate env unixNow c user (CertKey cert) = Ret (Inr (ct_CriticalOptions cert, ct_Extensions cert))"
    using checker(1) valid(1) c(3) by (subst Authenticate_iff [OF c(1)]) simp
  then show ?thesis using b Parse_Marshal(2) [OF ok _ b] c(2) by blast
qed

subsection \<open>Keys that crash\<close>

primrec innermost :: "public_key \<Rightarrow> public_key" and cert_innermost :: "certificate \<Rightarrow> public_key" where
  "innermost (RSAKey e n) = RSAKey e n"
| "innermost (DSAKey p q g y) = DSAKey p q g y"
| "innermost (ECKey c pt) = ECKey c pt"
| "innermost (EdKey b) = EdKey b"
| "innermost (CertKey c) = cert_innermost c"
| "cert_innermost (Certificate nonce key serial certType keyId principals after before crit ext reserved sigKey sig) = innermost key"

lemma ed25519_Verify_Panic: "(\<exists>e. ed25519_Verify env kb data sig = Panic e) \<longleftrightarrow> length kb \<noteq> 32"
  by (simp add: ed25519_Verify_def)

lemma bind_Panic_iff: "(\<exists>e. bind_go m (\<lambda>x. Ret (f x)) = Panic e) \<longleftrightarrow> (\<exists>e. m = Panic e)"
  by (cases m) simp_all

lemma Verify_Panic:
  shows "(\<exists>e. key_Verify env k data sig = Panic e) \<longleftrightarrow> fst sig = ''ssh-ed25519'' \<and> (\<exists>kb. innermost k = EdKey kb \<and> length kb \<noteq> 32)"
    and "(\<exists>e. cert_Verify env c data sig = Panic e) \<longleftrightarrow> fst sig = ''ssh-ed25519'' \<and> (\<exists>kb. cert_innermost c = EdKey kb \<and> length kb \<noteq> 32)"
proof (induction k and c)
  case (EdKey kb)
  then show ?case by (simp add: edkey_Verify_def bind_Panic_iff ed25519_Verify_Panic)
qed simp_all

text \<open>
  C38: which keys make the check of a signature panic.  A signature check panics exactly for an ed25519 key, or a certificate
  of one, that has not 32 bytes, when the signature claims that format; the parser accepts such keys, the empty one for example.
\<close>

theorem verify_panics_iff:
  "((\<exists>e. key_Verify env k data sig = Panic e)
     \<longleftrightarrow> fst sig = ''ssh-ed25519'' \<and> (\<exists>kb. innermost k = EdKey kb \<and> length kb \<noteq> 32))
   \<and> ParsePublicKey env (enc_string ''ssh-ed25519'' @ enc_string []) = Inr (EdKey [])"
  using Verify_Panic(1) ParsePublicKey_plain [of "EdKey []" "''ssh-ed25519''" env "enc_string ''ssh-ed25519'' @ enc_string []"]
  by (simp add: Marshal_keys small_def)

subsection \<open>The theorems on a concrete certificate\<close>

definition demo_authority_key :: public_key where
  "demo_authority_key = EdKey (replicate 32 CHR ''a'')"

definition demo_signature :: signature where
  "demo_signature = (''ssh-ed25519'', replicate 64 CHR 0x00)"

definition demo_cert :: certificate where
  "demo_cert = Certificate (replicate 32 CHR ''n'') (EdKey (replicate 32 CHR ''k'')) 7 1 ''laptop'' [''bob''] 10 20 []
     [(''permit-pty'', [])] [] demo_authority_key (Some demo_signature)"

definition demo_signed :: bytes where
  "demo_signed = cert_bytes ''ssh-ed25519-cert-v01@openssh.com'' demo_cert (enc_string (replicate 32 CHR ''k''))
     (enc_string ''ssh-ed25519'' @ enc_string (replicate 32 CHR ''a''))"

text \<open>A world in which the only message that was ever signed is that of the certificate.\<close>

definition demo_kenv :: key_env where
  "demo_kenv = \<lparr>ke_Unmarshal = (\<lambda>_ _. None), ke_Marshal = (\<lambda>_ _. []), ke_rsa = (\<lambda>_ _ _ _ _. False), ke_dsa = (\<lambda>_ _ _ _ _. False),
     ke_ecdsa = (\<lambda>_ _ _ _ _ _. False), ke_ed = (\<lambda>key data sig. data = demo_signed)\<rparr>"

definition demo_authority :: key_signer where
  "demo_authority = \<lparr>ks_PublicKey = demo_authority_key, ks_Sign = (\<lambda>data. if data = demo_signed then Some demo_signature else None)\<rparr>"

definition demo_checker :: cert_checker where
  "demo_checker = \<lparr>kc_SupportedCriticalOptions = [], kc_IsUserAuthority = (\<lambda>k. k = demo_authority_key), kc_IsHostAuthority = (\<lambda>_ _. False),
     kc_UserKeyFallback = None, kc_HostKeyFallback = None, kc_IsRevoked = None\<rparr>"

lemma demo_cert_ok: "cert_ok demo_kenv demo_cert" "cert_sizes demo_kenv demo_cert" "ct_Signature demo_cert \<noteq> None" "points_ok demo_kenv"
  by (simp_all add: demo_cert_def demo_authority_key_def opts_ok_def Marshal_keys small_def points_ok_def demo_kenv_def)

lemma demo_cert_signed: "bytesForSigning demo_kenv demo_cert = Ret demo_signed"
  unfolding demo_signed_def
  by (subst bytesForSigning_bytes [where ty = "''ssh-ed25519''" and name = "''ssh-ed25519-cert-v01@openssh.com''"
        and sk = "enc_string ''ssh-ed25519'' @ enc_string (replicate 32 CHR ''a'')"])
    (simp_all add: demo_cert_def demo_authority_key_def cert_Type_def certAlgoNames_def Marshal_keys small_def)

lemma demo_verify: "key_Verify demo_kenv demo_authority_key data sig = Ret None \<longleftrightarrow> fst sig = ''ssh-ed25519'' \<and> length (snd sig) = 64
    \<and> (of_char (snd sig ! 63) :: nat) < 32 \<and> data = demo_signed"
  by (auto simp: demo_authority_key_def edkey_Verify_def ed25519_Verify_def demo_kenv_def verdict_def split: if_split_asm)

lemma demo_lengths: "length demo_signed < 1000"
  by (simp add: demo_signed_def cert_bytes_def demo_cert_def marshalStringList_def marshalTuples_def Marshal_keys PutUint64_def PutUint32_def)

theorem public_key_round_trip_witness:
  "\<exists>b. key_Marshal demo_kenv (CertKey demo_cert) = Ret b \<and> (small b \<longrightarrow> ParsePublicKey demo_kenv b = Inr (CertKey demo_cert))"
  using demo_cert_ok by (intro public_key_round_trip) simp_all

lemma demo_cert_parsed: "\<exists>b. ParsePublicKey demo_kenv b = Inr (CertKey demo_cert)"
proof -
  obtain d where d: "bytesForSigning demo_kenv demo_cert = Ret d"
      "\<And>s. cert_Marshal demo_kenv (with_signature demo_cert s) = Ret (d @ enc_string (marshal_signature s))"
    using signed_bytes [OF demo_cert_ok(1,2)] by blast
  let ?s = "Some demo_signature"
  have w: "with_signature demo_cert ?s = demo_cert" by (simp add: with_signature_def demo_cert_def)
  then have m: "cert_Marshal demo_kenv demo_cert = Ret (demo_signed @ enc_string (marshal_signature ?s))"
    using d(1) d(2) [of ?s] demo_cert_signed by simp
  have "small (demo_signed @ enc_string (marshal_signature ?s))"
    using demo_lengths by (simp add: small_def marshal_signature_def demo_signature_def Marshal_keys)
  then show ?thesis using Parse_Marshal(2) [OF demo_cert_ok(1-3) m] by blast
qed

lemma demo_cert_accepted:
  "Authenticate demo_kenv 15 demo_checker ''bob'' (CertKey demo_cert) = Ret (Inr ([], [(''permit-pty'', [])]))"
proof -
  have "key_Verify demo_kenv demo_authority_key demo_signed demo_signature = Ret None"
    unfolding demo_verify by (simp add: demo_signature_def)
  then have "CheckCert demo_kenv 15 demo_checker ''bob'' demo_cert = Ret None"
    unfolding CheckCert_iff [OF demo_cert_signed] by (simp add: demo_cert_def demo_checker_def)
  then show ?thesis unfolding Authenticate_iff [OF demo_cert_signed] by (simp add: demo_cert_def demo_checker_def)
qed

theorem accepted_certificate_was_issued_witness:
  "\<exists>ic\<in>{demo_cert}. with_signature ic (ct_Signature demo_cert) = demo_cert \<and> ct_CertType ic = 1
    \<and> kc_IsUserAuthority demo_checker (ct_SignatureKey ic)
    \<and> (ct_ValidPrincipals ic = [] \<or> ''bob'' \<in> set (ct_ValidPrincipals ic))
    \<and> uint (ct_ValidAfter ic) \<le> 15 \<and> (ct_ValidBefore ic = CertTimeInfinity \<or> 15 < uint (ct_ValidBefore ic))
    \<and> (\<forall>(opt, v)\<in>set (ct_CriticalOptions ic). opt = sourceAddressCriticalOption \<or> opt \<in> set (kc_SupportedCriticalOptions demo_checker))
    \<and> ([], [(''permit-pty'', [])]) = (ct_CriticalOptions ic, ct_Extensions ic)"
proof -
  obtain b where b: "ParsePublicKey demo_kenv b = Inr (CertKey demo_cert)" using demo_cert_parsed by blast
  have k: "ct_SignatureKey demo_cert = demo_authority_key" by (simp add: demo_cert_def)
  show ?thesis
  proof (rule accepted_certificate_was_issued [OF b demo_cert_ok(4,2) demo_cert_accepted])
    show "\<forall>data sig. key_Verify demo_kenv (ct_SignatureKey demo_cert) data sig = Ret None
        \<longrightarrow> (\<exists>ic\<in>{demo_cert}. bytesForSigning demo_kenv ic = Ret data)"
      unfolding k demo_verify using demo_cert_signed by simp
  qed (use demo_cert_ok demo_cert_signed demo_lengths in simp_all)
qed

end
