(* ===== verification/Authorized_Keys.thy ===== *)
theory Authorized_Keys
  imports Keys_Proofs
begin

section \<open>Lines of an authorized-keys file\<close>

text \<open>
  \<^verbatim>\<open>ParseAuthorizedKey\<close> of \<^verbatim>\<open>keys.go\<close>, the reader of the files that \<^verbatim>\<open>MarshalAuthorizedKey\<close> writes: comments, empty lines, an optional field of
  options with quotes, the key and a comment; and its round trip.
\<close>

subsection \<open>White space\<close>

text \<open>
  The encodings of the characters \<^verbatim>\<open>unicode.IsSpace\<close> accepts; none is a part of another, so that cutting them off as texts is the same
  as decoding from either end.
\<close>

definition space_runes :: "string list" where
  "space_runes =
     map (\<lambda>c. [c]) [CHR 0x09, CHR 0x0A, CHR 0x0B, CHR 0x0C, CHR 0x0D, CHR 0x20]
     @ [[CHR 0xC2, CHR 0x85], [CHR 0xC2, CHR 0xA0], [CHR 0xE1, CHR 0x9A, CHR 0x80]]
     @ map (\<lambda>n. [CHR 0xE2, CHR 0x80, char_of n]) ([128..<139] @ [168, 169, 175 :: nat])
     @ [[CHR 0xE2, CHR 0x81, CHR 0x9F], [CHR 0xE3, CHR 0x80, CHR 0x80]]"

function trim_front :: "string list \<Rightarrow> string \<Rightarrow> string" where
  "trim_front rs s =
     (case find (\<lambda>r. r \<noteq> [] \<and> HasPrefix s r) rs of None \<Rightarrow> s | Some r \<Rightarrow> trim_front rs (drop (length r) s))"
  by pat_completeness auto
termination
  by (relation "measure (\<lambda>(rs, s). length s)") (auto simp: find_Some_iff HasPrefix_iff)

declare trim_front.simps [simp del]

definition TrimSpace :: "string \<Rightarrow> string" where
  "TrimSpace s = rev (trim_front (map rev space_runes) (rev (trim_front space_runes s)))"

subsection \<open>Lines\<close>

definition blank :: "char \<Rightarrow> bool" where
  "blank c \<longleftrightarrow> c = CHR '' '' \<or> c = CHR 0x09"

definition parseAuthorizedKey :: "key_env \<Rightarrow> bytes \<Rightarrow> (public_key \<times> string) option" where
  "parseAuthorizedKey env inp =
     (let inp1 = TrimSpace inp; base64Key = takeWhile (Not \<circ> blank) inp1 in
      case b64_decode base64Key of
        None \<Rightarrow> None
      | Some key \<Rightarrow>
          (case ParsePublicKey env key of
             Inl e \<Rightarrow> None
           | Inr out \<Rightarrow> Some (out, TrimSpace (dropWhile (Not \<circ> blank) inp1))))"

text \<open>
  The scan of the options: the byte before, whether it is inside quotes, the option so far, the options found.  It returns the
  options and the text from the byte at which it stopped, which is the last byte when there was no end.
\<close>

fun scan_options :: "char option \<Rightarrow> bool \<Rightarrow> string \<Rightarrow> string list \<Rightarrow> bytes \<Rightarrow> string list \<times> bytes" where
  "scan_options prev inQuote cur opts [] = (opts, case prev of None \<Rightarrow> [] | Some c \<Rightarrow> [c])"
| "scan_options prev inQuote cur opts (b # s) =
     (let isEnd = \<not> inQuote \<and> blank b;
          sep = b = CHR '','' \<and> \<not> inQuote \<or> isEnd;
          opts1 = (if sep \<and> cur \<noteq> [] then opts @ [cur] else opts)
      in if isEnd then (opts1, b # s)
         else scan_options (Some b) (if b = CHR 0x22 \<and> prev \<noteq> Some (CHR 0x5C) then \<not> inQuote else inQuote)
           (if sep then [] else cur @ [b]) opts1 s)"

definition auth_line :: "key_env \<Rightarrow> bytes \<Rightarrow> (public_key \<times> string \<times> string list) option" where
  "auth_line env line =
     (if line = [] \<or> hd line = CHR ''#'' \<or> \<not> list_ex blank line then None
      else (case parseAuthorizedKey env (dropWhile (Not \<circ> blank) line) of
          Some (out, comment) \<Rightarrow> Some (out, comment, [])
        | None \<Rightarrow>
            (case scan_options None False [] [] line of
               (options, stopped) \<Rightarrow>
                 let line1 = dropWhile blank stopped in
                 if \<not> list_ex blank line1 then None
                 else (case parseAuthorizedKey env (dropWhile (Not \<circ> blank) line1) of
                     Some (out, comment) \<Rightarrow> Some (out, comment, options)
                   | None \<Rightarrow> None))))"

definition cut_line :: "bytes \<Rightarrow> bytes \<times> bytes" where
  "cut_line inp =
     (let l = takeWhile (\<lambda>c. c \<noteq> CHR 0x0A) inp in
      (TrimSpace (takeWhile (\<lambda>c. c \<noteq> CHR 0x0D) l), drop (Suc (length l)) inp))"

function ParseAuthorizedKey :: "key_env \<Rightarrow> bytes \<Rightarrow> (public_key \<times> string \<times> string list \<times> bytes) option" where
  "ParseAuthorizedKey env inp =
     (if inp = [] then None
      else (case cut_line inp of
          (line, rest) \<Rightarrow>
            (case auth_line env line of
               Some (out, comment, options) \<Rightarrow> Some (out, comment, options, rest)
             | None \<Rightarrow> ParseAuthorizedKey env rest)))"
  by pat_completeness auto
termination
  by (relation "measure (\<lambda>(env, inp). length inp)") (auto simp: cut_line_def Let_def)

declare ParseAuthorizedKey.simps [simp del]

subsection \<open>Text without white space\<close>

definition printable :: "char \<Rightarrow> bool" where
  "printable c \<longleftrightarrow> 32 < (of_char c :: nat) \<and> (of_char c :: nat) < 127"

lemma printable_not_blank: "printable c \<Longrightarrow> \<not> blank c \<and> c \<noteq> CHR 0x0A \<and> c \<noteq> CHR 0x0D"
  by (auto simp: printable_def blank_def)

lemma space_runes_ends: "r \<in> set space_runes \<Longrightarrow> \<not> printable (hd r) \<and> \<not> printable (last r)"
  by (auto simp: space_runes_def printable_def)

lemma trim_front_id:
  assumes "s = [] \<or> (\<forall>r\<in>set rs. hd s \<noteq> hd r)"
  shows "trim_front rs s = s"
proof -
  have "find (\<lambda>r. r \<noteq> [] \<and> HasPrefix s r) rs = None"
    using assms by (auto simp: find_None_iff HasPrefix_iff)
  then show ?thesis by (subst trim_front.simps) simp
qed

lemma TrimSpace_Nil [simp]: "TrimSpace [] = []"
  by (simp add: TrimSpace_def trim_front_id)

lemma TrimSpace_id:
  assumes "s \<noteq> []" "printable (hd s)" "printable (last s)"
  shows "TrimSpace s = s"
proof -
  have "trim_front space_runes s = s" using assms(2) space_runes_ends by (intro trim_front_id) auto
  moreover have "trim_front (map rev space_runes) (rev s) = rev s"
    using assms(1,3) space_runes_ends by (intro trim_front_id) (auto simp: hd_rev)
  ultimately show ?thesis by (simp add: TrimSpace_def)
qed

lemma TrimSpace_lead: "blank c \<Longrightarrow> TrimSpace (c # s) = TrimSpace s"
proof -
  assume "blank c"
  moreover have "find (\<lambda>r. r \<noteq> [] \<and> HasPrefix (CHR '' '' # s) r) space_runes = Some [CHR '' '']"
    "find (\<lambda>r. r \<noteq> [] \<and> HasPrefix (CHR 0x09 # s) r) space_runes = Some [CHR 0x09]"
    by (simp_all add: space_runes_def HasPrefix_def)
  ultimately have "find (\<lambda>r. r \<noteq> [] \<and> HasPrefix (c # s) r) space_runes = Some [c]"
    unfolding blank_def by (elim disjE) simp_all
  then have "trim_front space_runes (c # s) = trim_front space_runes s"
    by (subst trim_front.simps) simp
  then show ?thesis by (simp add: TrimSpace_def)
qed

lemma TrimSpace_blanks: "TrimSpace s = TrimSpace (dropWhile blank s)"
  by (induction s) (simp_all add: TrimSpace_lead)

text \<open>Text of printable characters and blanks; the blanks before it are cut off.\<close>

definition texty :: "char \<Rightarrow> bool" where
  "texty c \<longleftrightarrow> printable c \<or> blank c"

lemma TrimSpace_text:
  assumes "list_all texty s" "dropWhile blank s \<noteq> []" "printable (last s)"
  shows "TrimSpace s = dropWhile blank s"
proof -
  let ?d = "dropWhile blank s"
  have "hd ?d \<in> set s" "\<not> blank (hd ?d)" using hd_dropWhile [OF assms(2)] set_dropWhileD [OF hd_in_set [OF assms(2)]] by auto
  then have "printable (hd ?d)" using assms(1) by (auto simp: list_all_iff texty_def)
  moreover have "last ?d = last s" using assms(2) by (metis last_append takeWhile_dropWhile_id)
  ultimately show ?thesis using TrimSpace_id [OF assms(2)] assms(3) TrimSpace_blanks [of s] by simp
qed

lemma blank_space [simp]: "blank CHR '' ''"
  by (simp add: blank_def)

subsection \<open>The key\<close>

lemma b64_printable: "c \<in> set (b64_encode s) \<Longrightarrow> printable c"
  using set_b64_encode [of c s] by (auto simp: printable_def b64_val_def Let_def split: if_split_asm)

lemma no_blanks: "list_all printable s \<Longrightarrow> takeWhile (Not \<circ> blank) (s @ r) = s @ takeWhile (Not \<circ> blank) r
    \<and> dropWhile (Not \<circ> blank) (s @ r) = dropWhile (Not \<circ> blank) r"
  by (induction s) (auto dest: printable_not_blank)

lemma cut_at_blank:
  assumes "list_all printable s"
  shows "takeWhile (Not \<circ> blank) s = s" "dropWhile (Not \<circ> blank) s = []"
    "takeWhile (Not \<circ> blank) (s @ CHR '' '' # r) = s" "dropWhile (Not \<circ> blank) (s @ CHR '' '' # r) = CHR '' '' # r"
  using no_blanks [OF assms, of "[]"] no_blanks [OF assms, of "CHR '' '' # r"] by (simp_all add: blank_def)

lemma b64_encode_printable: "list_all printable (b64_encode b)"
  using b64_printable by (simp add: list_all_iff)

lemma parseAuthorizedKey_field:
  assumes "ParsePublicKey env b = Inr k" "b \<noteq> []"
  shows "parseAuthorizedKey env (CHR '' '' # b64_encode b) = Some (k, [])"
proof -
  have "TrimSpace (CHR '' '' # b64_encode b) = b64_encode b"
    using assms(2) b64_printable [OF hd_in_set, of b] b64_printable [OF last_in_set, of b] by (simp add: TrimSpace_lead TrimSpace_id)
  then show ?thesis using assms(1)
    by (simp add: parseAuthorizedKey_def Let_def cut_at_blank b64_encode_printable b64_decode_encode)
qed

lemma b64_quanta_chars: "b64_quanta s = Some b \<Longrightarrow> c \<in> set s \<Longrightarrow> c = CHR ''='' \<or> b64_val c \<noteq> None"
  by (induction s arbitrary: b rule: b64_quanta.induct) (auto split: option.split_asm if_split_asm)

lemma hyphen_no_base64: "CHR ''-'' \<in> set s \<Longrightarrow> b64_decode s = None"
  using b64_quanta_chars [of "filter (\<lambda>c. c \<noteq> CHR 0x0D \<and> c \<noteq> CHR 0x0A) s" _ "CHR ''-''"]
  by (cases "b64_decode s") (auto simp: b64_decode_def b64_val_def)

definition type_names :: "string list" where
  "type_names = map fst certAlgoNames @ map snd certAlgoNames"

lemma plain_Type_name: "plain_Type k = Some ty \<Longrightarrow> ty \<in> set (map fst certAlgoNames)"
proof (cases k)
  case (ECKey c pt)
  moreover assume "plain_Type k = Some ty"
  ultimately show ?thesis by (cases c) (auto simp: certAlgoNames_def)
qed (auto simp: certAlgoNames_def)

lemma key_Type_name: "key_Type k = Ret ty \<Longrightarrow> ty \<in> set type_names"
  using plain_Type_name [of k ty]
  by (cases k) (auto simp: key_Type_def cert_Type_def type_names_def split: option.split_asm dest!: map_of_SomeD intro: rev_image_eqI)

lemma type_names_shape: "ty \<in> set type_names \<Longrightarrow> list_all printable ty \<and> ty \<noteq> [] \<and> CHR ''-'' \<in> set ty \<and> hd ty \<noteq> CHR ''#''"
  by (auto simp: type_names_def certAlgoNames_def printable_def)

subsection \<open>Options\<close>

text \<open>
  An option is a name, or a name with a value in quotes; a quote in the value has a backslash before it.  The value may hold
  blanks and commas, but may not end in a backslash, which would hide the closing quote.
\<close>

datatype auth_option = Flag string | Setting string string

fun escape :: "string \<Rightarrow> string" where
  "escape [] = []"
| "escape (c # v) = (if c = CHR 0x22 then CHR 0x5C # CHR 0x22 # escape v else c # escape v)"

fun opt_text :: "auth_option \<Rightarrow> string" where
  "opt_text (Flag n) = n"
| "opt_text (Setting n v) = n @ ''='' @ [CHR 0x22] @ escape v @ [CHR 0x22]"

definition name_ok :: "string \<Rightarrow> bool" where
  "name_ok n \<longleftrightarrow> n \<noteq> [] \<and> hd n \<noteq> CHR ''#'' \<and> list_all (\<lambda>c. printable c \<and> c \<noteq> CHR '','' \<and> c \<noteq> CHR 0x22) n"

fun opt_ok :: "auth_option \<Rightarrow> bool" where
  "opt_ok (Flag n) = name_ok n"
| "opt_ok (Setting n v) = (name_ok n \<and> list_all texty v \<and> (v \<noteq> [] \<longrightarrow> last v \<noteq> CHR 0x5C))"

definition option_field :: "string list \<Rightarrow> string" where
  "option_field opts = (if opts = [] then [] else Join '','' opts @ '' '')"

lemma scan_plain:
  "list_all (\<lambda>c. printable c \<and> c \<noteq> CHR '','' \<and> c \<noteq> CHR 0x22) s \<Longrightarrow>
   \<exists>prev'. scan_options prev False cur opts (s @ r) = scan_options prev' False (cur @ s) opts r"
proof (induction s arbitrary: prev cur)
  case Nil
  then show ?case by auto
next
  case (Cons c s)
  then obtain prev' where "scan_options (Some c) False (cur @ [c]) opts (s @ r) = scan_options prev' False (cur @ c # s) opts r"
    by (metis (no_types, lifting) append.assoc append_Cons append_Nil list.pred_inject(2))
  then show ?case using Cons.prems printable_not_blank [of c] by (intro exI [of _ prev']) (simp add: Let_def)
qed

text \<open>Inside quotes nothing but a quote without a backslash before it ends the value.\<close>

lemma scan_quoted:
  "if v = [] then prev \<noteq> Some (CHR 0x5C) else last v \<noteq> CHR 0x5C \<Longrightarrow>
   scan_options prev True cur opts (escape v @ CHR 0x22 # r) = scan_options (Some (CHR 0x22)) False (cur @ escape v @ [CHR 0x22]) opts r"
proof (induction v arbitrary: prev cur)
  case (Cons c v)
  have h: "scan_options (Some c) True cur' opts (escape v @ CHR 0x22 # r)
      = scan_options (Some (CHR 0x22)) False (cur' @ escape v @ [CHR 0x22]) opts r" for cur'
    using Cons.prems by (intro Cons.IH) (auto split: if_split_asm)
  show ?case
  proof (cases "c = CHR 0x22")
    case True
    then show ?thesis using h [of "cur @ [CHR 0x5C, CHR 0x22]"] by (simp add: Let_def)
  next
    case False
    then show ?thesis using h [of "cur @ [c]"] by (simp add: Let_def)
  qed
qed (simp add: Let_def)

lemma scan_option:
  assumes "opt_ok x"
  shows "\<exists>prev'. scan_options prev False cur opts (opt_text x @ r) = scan_options prev' False (cur @ opt_text x) opts r"
proof (cases x)
  case (Flag n)
  then show ?thesis using scan_plain assms by (simp add: name_ok_def)
next
  case (Setting n v)
  let ?r = "escape v @ CHR 0x22 # r"
  obtain prev' where p: "scan_options prev False cur opts (n @ CHR ''='' # CHR 0x22 # ?r)
      = scan_options prev' False (cur @ n) opts (CHR ''='' # CHR 0x22 # ?r)"
    using scan_plain assms Setting by (fastforce simp: name_ok_def)
  have "scan_options prev' False (cur @ n) opts (CHR ''='' # CHR 0x22 # ?r)
      = scan_options (Some (CHR 0x22)) True (cur @ n @ ''='' @ [CHR 0x22]) opts ?r"
    by (simp add: Let_def blank_def)
  also have "\<dots> = scan_options (Some (CHR 0x22)) False ((cur @ n @ ''='' @ [CHR 0x22]) @ escape v @ [CHR 0x22]) opts r"
    using assms Setting by (intro scan_quoted) auto
  finally show ?thesis using p Setting by auto
qed

lemma opt_text_Nil [simp]: "opt_ok x \<Longrightarrow> opt_text x \<noteq> []"
  by (cases x) (auto simp: name_ok_def)

lemma scan_joined:
  "list_all opt_ok os \<Longrightarrow> os \<noteq> [] \<Longrightarrow>
   scan_options prev False [] opts (Join '','' (map opt_text os) @ CHR '' '' # r) = (opts @ map opt_text os, CHR '' '' # r)"
proof (induction os arbitrary: prev opts rule: induct_list012)
  case (2 x)
  then obtain prev' where "scan_options prev False [] opts (opt_text x @ CHR '' '' # r) = scan_options prev' False (opt_text x) opts (CHR '' '' # r)"
    using scan_option [of x prev "[]" opts "CHR '' '' # r"] by auto
  then show ?case using 2 by (simp add: Let_def)
next
  case (3 x y zs)
  let ?t = "Join '','' (map opt_text (y # zs)) @ CHR '' '' # r"
  obtain prev' where "scan_options prev False [] opts (opt_text x @ CHR '','' # ?t) = scan_options prev' False (opt_text x) opts (CHR '','' # ?t)"
    using scan_option [of x prev "[]" opts "CHR '','' # ?t"] 3(3) by auto
  moreover have "scan_options prev' False (opt_text x) opts (CHR '','' # ?t) = scan_options (Some (CHR '','')) False [] (opts @ [opt_text x]) ?t"
    using 3(3) by (simp add: blank_def Let_def)
  ultimately show ?case using "3.IH"(2) 3(3) by simp
qed simp

lemma printable_marks: "printable CHR '',''" "printable CHR ''#''" "printable CHR ''=''" "printable CHR 0x22" "printable CHR 0x5C"
  by (simp_all add: printable_def)

lemma escape_text: "list_all texty v \<Longrightarrow> list_all texty (escape v)"
  by (induction v) (auto simp: texty_def printable_marks)

lemma name_text: "name_ok n \<Longrightarrow> list_all texty n \<and> printable (hd n) \<and> printable (last n)"
  by (auto simp: name_ok_def list_all_iff texty_def)

lemma opt_text_shape: "opt_ok x \<Longrightarrow> list_all texty (opt_text x) \<and> printable (hd (opt_text x)) \<and> printable (last (opt_text x)) \<and> hd (opt_text x) \<noteq> CHR ''#''"
  by (cases x) (auto simp: name_text escape_text printable_marks texty_def name_ok_def)

lemma Join_shape:
  "list_all opt_ok os \<Longrightarrow> os \<noteq> [] \<Longrightarrow>
   (let t = Join '','' (map opt_text os) in list_all texty t \<and> t \<noteq> [] \<and> printable (hd t) \<and> printable (last t) \<and> hd t \<noteq> CHR ''#'')"
proof (induction os rule: induct_list012)
  case (2 x)
  then show ?case using opt_text_shape by (simp add: Let_def)
next
  case (3 x y zs)
  then show ?case using opt_text_shape [of x] printable_marks(1) by (auto simp: hd_append Let_def texty_def [of "CHR '',''"])
qed simp

subsection \<open>A line\<close>

lemma cut_line_read:
  assumes "list_all texty l" "l \<noteq> []" "printable (hd l)" "printable (last l)"
  shows "cut_line (l @ CHR 0x0A # following) = (l, following)"
proof -
  have n: "\<forall>c\<in>set l. c \<noteq> CHR 0x0A \<and> c \<noteq> CHR 0x0D" using assms(1) printable_not_blank by (auto simp: list_all_iff texty_def blank_def)
  then have t: "takeWhile (\<lambda>c. c \<noteq> CHR 0x0A) (l @ CHR 0x0A # following) = l" by (simp add: takeWhile_append2)
  have u: "takeWhile (\<lambda>c. c \<noteq> CHR 0x0D) l = l" using n by (simp add: takeWhile_eq_all_conv)
  show ?thesis unfolding cut_line_def Let_def t u TrimSpace_id [OF assms(2-4)] by simp
qed

lemma auth_line_plain:
  assumes "ParsePublicKey env b = Inr k" "b \<noteq> []" "ty \<in> set type_names"
  shows "auth_line env (ty @ CHR '' '' # b64_encode b) = Some (k, [], [])"
  using parseAuthorizedKey_field [OF assms(1,2)] type_names_shape [OF assms(3)]
  by (simp add: auth_line_def cut_at_blank)

text \<open>
  The reader first takes what follows the first blank of the line for a key.  The word that it looks at when the line begins with
  a text of options, and when it is no key.
\<close>

definition second_word :: "string \<Rightarrow> string" where
  "second_word t = takeWhile (Not \<circ> blank) (dropWhile blank (dropWhile (Not \<circ> blank) t))"

definition no_key :: "key_env \<Rightarrow> string \<Rightarrow> bool" where
  "no_key env w \<longleftrightarrow> (case b64_decode w of None \<Rightarrow> True | Some kb \<Rightarrow> (case ParsePublicKey env kb of Inl e \<Rightarrow> True | Inr k \<Rightarrow> False))"

lemma hyphen_no_key: "CHR ''-'' \<in> set w \<Longrightarrow> no_key env w"
  by (simp add: no_key_def hyphen_no_base64)

lemma parseAuthorizedKey_no_key:
  assumes "no_key env (takeWhile (Not \<circ> blank) (TrimSpace s))"
  shows "parseAuthorizedKey env s = None"
  using assms by (auto simp: parseAuthorizedKey_def no_key_def Let_def split: option.split_asm sum.split_asm)

lemma dropWhile_append_blank:
  "dropWhile P a \<noteq> [] \<Longrightarrow> dropWhile P (a @ b) = dropWhile P a @ b"
  by (induction a) auto

lemma takeWhile_to_blank: "takeWhile (Not \<circ> blank) (a @ CHR '' '' # b) = takeWhile (Not \<circ> blank) a"
  by (induction a) auto

lemma first_attempt:
  assumes t: "list_all texty t" "printable (last t)" "no_key env (second_word t)"
    and u: "list_all texty u" "u \<noteq> []" "printable (hd u)" "printable (last u)" "CHR ''-'' \<in> set (takeWhile (Not \<circ> blank) u)"
  shows "parseAuthorizedKey env (dropWhile (Not \<circ> blank) (t @ CHR '' '' # u)) = None"
proof (rule parseAuthorizedKey_no_key)
  let ?s = "dropWhile (Not \<circ> blank) (t @ CHR '' '' # u)"
  have lu: "last ?s = last u" "?s \<noteq> []" "list_all texty ?s"
  proof -
    have e: "t @ CHR '' '' # u = takeWhile (Not \<circ> blank) (t @ CHR '' '' # u) @ ?s" by (simp only: takeWhile_dropWhile_id)
    show "?s \<noteq> []" by (auto simp: dropWhile_eq_Nil_conv)
    then have "last (t @ CHR '' '' # u) = last ?s" using e by (metis last_appendR)
    then show "last ?s = last u" using u(2) by simp
    show "list_all texty ?s" using t(1) u(1) by (auto simp: list_all_iff texty_def dest!: set_dropWhileD)
  qed
  have hu: "dropWhile blank u = u" using u(2,3) printable_not_blank by (cases u) auto
  show "no_key env (takeWhile (Not \<circ> blank) (TrimSpace ?s))"
  proof (cases "list_ex blank t")
    case False
    then have "?s = CHR '' '' # u" by (auto simp: list_ex_iff dropWhile_append2)
    then have "TrimSpace ?s = u" using TrimSpace_text [of ?s] lu hu u(2,4) by simp
    then show ?thesis using u(5) hyphen_no_key by simp
  next
    case True
    let ?a = "dropWhile (Not \<circ> blank) t" and ?w = "dropWhile blank (dropWhile (Not \<circ> blank) t)"
    have a: "?a \<noteq> []" using True by (auto simp: list_ex_iff dropWhile_eq_Nil_conv)
    then have s: "?s = ?a @ CHR '' '' # u" by (rule dropWhile_append_blank)
    have la: "last ?a = last t" using a by (metis last_append takeWhile_dropWhile_id)
    then have "last t \<in> set ?a" using a last_in_set by metis
    then have w: "?w \<noteq> []" using t(2) printable_not_blank by (auto simp: dropWhile_eq_Nil_conv)
    then have d: "dropWhile blank ?s = ?w @ CHR '' '' # u" unfolding s by (rule dropWhile_append_blank)
    then have "TrimSpace ?s = ?w @ CHR '' '' # u" using TrimSpace_text [of ?s] lu u(4) by simp
    moreover have "takeWhile (Not \<circ> blank) (?w @ CHR '' '' # u) = second_word t"
      unfolding second_word_def by (rule takeWhile_to_blank)
    ultimately show ?thesis using t(3) by simp
  qed
qed

lemma auth_line_options:
  assumes "ParsePublicKey env b = Inr k" "b \<noteq> []" "ty \<in> set type_names" "list_all opt_ok opts" "opts \<noteq> []"
    and "no_key env (second_word (Join '','' (map opt_text opts)))"
  shows "auth_line env (Join '','' (map opt_text opts) @ CHR '' '' # ty @ CHR '' '' # b64_encode b) = Some (k, [], map opt_text opts)"
proof -
  let ?e = "b64_encode b" and ?o = "Join '','' (map opt_text opts)"
  let ?line = "?o @ CHR '' '' # ty @ CHR '' '' # ?e"
  note ty = type_names_shape [OF assms(3)] and jo = Join_shape [OF assms(4,5), unfolded Let_def]
  have "list_all texty (ty @ CHR '' '' # ?e)" using ty b64_encode_printable [of b] by (auto simp: list_all_iff texty_def)
  moreover have "printable (hd (ty @ CHR '' '' # ?e))" "printable (last (ty @ CHR '' '' # ?e))"
    using ty assms(2) b64_printable [OF last_in_set, of b] by (auto simp: list_all_iff)
  moreover have "takeWhile (Not \<circ> blank) (ty @ CHR '' '' # ?e) = ty" using cut_at_blank(3) ty by blast
  ultimately have first: "parseAuthorizedKey env (dropWhile (Not \<circ> blank) ?line) = None"
    using first_attempt [OF _ _ assms(6), of "ty @ CHR '' '' # ?e"] jo ty by simp
  have d: "dropWhile blank (CHR '' '' # ty @ CHR '' '' # ?e) = ty @ CHR '' '' # ?e"
    using ty printable_not_blank [of "hd ty"] by (cases ty) auto
  have "scan_options None False [] [] ?line = (map opt_text opts, CHR '' '' # ty @ CHR '' '' # ?e)"
    using scan_joined [OF assms(4,5)] by simp
  moreover have "dropWhile (Not \<circ> blank) (ty @ CHR '' '' # ?e) = CHR '' '' # ?e" using cut_at_blank(4) ty by blast
  ultimately show ?thesis using jo first d parseAuthorizedKey_field [OF assms(1,2)]
    by (simp add: auth_line_def Let_def)
qed

lemma key_Marshal_not_Nil: "key_Marshal env k = Ret b \<Longrightarrow> small b \<Longrightarrow> ParsePublicKey env b = Inr k \<Longrightarrow> b \<noteq> []"
  by (auto simp: ParsePublicKey_calls parseString_def)

text \<open>
  A word inside the quotes of an option that is a key itself, after the first blank of the line, is taken for the key of the line: the options, the key at
  the end of the line and whatever the options restrict are lost in the comment.
\<close>

lemma key_in_quotes_taken:
  assumes "ParsePublicKey env b = Inr k" "b \<noteq> []" "list_all texty t" "t \<noteq> []" "printable (hd t)" "printable (last t)"
    and "list_all printable n" "n \<noteq> []" "hd n \<noteq> CHR ''#''"
  shows "auth_line env (n @ CHR '' '' # b64_encode b @ CHR '' '' # t) = Some (k, t, [])"
proof -
  let ?r = "b64_encode b @ CHR '' '' # t"
  have x: "list_all texty (CHR '' '' # ?r)" using b64_encode_printable [of b] assms(3) by (auto simp: list_all_iff texty_def)
  have "\<not> blank (hd ?r)" "?r \<noteq> []"
    using assms(2) b64_printable [OF hd_in_set, of b] printable_not_blank [of "hd (b64_encode b)"] by auto
  then have "dropWhile blank (CHR '' '' # ?r) = ?r" by (cases ?r) auto
  then have "TrimSpace (CHR '' '' # ?r) = ?r" using TrimSpace_text [OF x] assms(4,6) by simp
  moreover have "TrimSpace (CHR '' '' # t) = t" using TrimSpace_id [OF assms(4-6)] by (simp add: TrimSpace_lead)
  ultimately have "parseAuthorizedKey env (CHR '' '' # ?r) = Some (k, t)"
    using assms(1) by (simp add: parseAuthorizedKey_def Let_def cut_at_blank b64_encode_printable b64_decode_encode)
  then show ?thesis using assms(7-9) by (simp add: auth_line_def cut_at_blank)
qed

text \<open>
  C31: a line of an authorized-keys file is read back.  For every well-formed key, certificates included, the line that
  \<open>MarshalAuthorizedKey\<close> writes, with or without a field of options before it, is read by \<open>ParseAuthorizedKey\<close> as that key with exactly those
  options, and what follows the line is left; lines of comments and empty lines before it do not matter.  An option is a name of printable characters
  without commas and quotes, not beginning with \<open>#\<close>, or such a name with a value in quotes, which may hold blanks, commas and quotes (each with a backslash before it) and
  does not end in a backslash.  It is assumed that the second word of the text of the options, which is inside quotes if there is one, is not itself the text of a key: the reader would
  take it for the key of the line.
\<close>

theorem authorized_key_read_back:
  assumes "key_ok env k" "sizes_ok env k" "key_Marshal env k = Ret b" "small b" "key_Type k = Ret ty" "list_all opt_ok opts"
    and "no_key env (second_word (Join '','' (map opt_text opts)))"
    and "\<forall>c\<in>set comments. c = [] \<or> (hd c = CHR ''#'' \<and> printable (last c) \<and> list_all texty c)"
  shows "ParseAuthorizedKey env (concat (map (\<lambda>c. c @ [CHR 0x0A]) comments)
      @ option_field (map opt_text opts) @ MarshalAuthorizedKey \<lparr>pk_Type = ty, pk_Marshal = b\<rparr> @ following)
    = Some (k, [], map opt_text opts, following)"
  using assms(8)
proof (induction comments)
  case Nil
  have k: "ParsePublicKey env b = Inr k" using assms(1-4) by (rule Parse_Marshal(1))
  then have b: "b \<noteq> []" by (rule key_Marshal_not_Nil [OF assms(3,4)])
  note ty = key_Type_name [OF assms(5)]
  let ?l = "option_field (map opt_text opts) @ ty @ CHR '' '' # b64_encode b"
  have "auth_line env ?l = Some (k, [], map opt_text opts)"
    using auth_line_plain [OF k b ty] auth_line_options [OF k b ty assms(6) _ assms(7)] by (simp add: option_field_def)
  moreover have "cut_line (?l @ CHR 0x0A # following) = (?l, following)"
    using type_names_shape [OF ty] Join_shape [OF assms(6)] b64_encode_printable [of b] b
    by (intro cut_line_read) (auto simp: option_field_def list_all_iff Let_def texty_def)
  ultimately show ?case by (subst ParseAuthorizedKey.simps) (simp add: MarshalAuthorizedKey_def)
next
  case (Cons c comments)
  let ?rest = "concat (map (\<lambda>c. c @ [CHR 0x0A]) comments) @ option_field (map opt_text opts) @ MarshalAuthorizedKey \<lparr>pk_Type = ty, pk_Marshal = b\<rparr> @ following"
  have "cut_line (c @ CHR 0x0A # ?rest) = (c, ?rest)"
  proof (cases "c = []")
    case True
    then show ?thesis by (simp add: cut_line_def)
  next
    case False
    then show ?thesis using Cons.prems printable_marks by (intro cut_line_read) auto
  qed
  moreover have "auth_line env c = None" using Cons.prems by (auto simp: auth_line_def)
  ultimately show ?case using Cons by (subst ParseAuthorizedKey.simps) simp
qed

subsection \<open>The parser that the known-hosts database relies on\<close>

text \<open>
  \<open>Known_Hosts\<close> has the parser of keys as a parameter, of which the round trip of the text file asks that it gives back the keys that
  are in the database.  The parser of the library does, for well-formed keys.
\<close>

definition library_parser :: "key_env \<Rightarrow> bytes \<Rightarrow> pub_key option" where
  "library_parser env b =
     (case ParsePublicKey env b of
        Inl e \<Rightarrow> None
      | Inr k \<Rightarrow> (case (key_Type k, key_Marshal env k) of (Ret ty, Ret m) \<Rightarrow> Some \<lparr>pk_Type = ty, pk_Marshal = m\<rparr> | _ \<Rightarrow> None))"

lemma library_parser_fits:
  assumes "key_ok env k" "sizes_ok env k" "key_Marshal env k = Ret b" "small b" "key_Type k = Ret ty" "ke_parse_key kenv = library_parser env"
  shows "ke_parse_key kenv (pk_Marshal \<lparr>pk_Type = ty, pk_Marshal = b\<rparr>) = Some \<lparr>pk_Type = ty, pk_Marshal = b\<rparr>"
  using Parse_Marshal(1) [OF assms(1-4)] assms(3,5,6) by (simp add: library_parser_def)

definition demo_options :: "auth_option list" where
  "demo_options = [Setting ''command'' (''echo '' @ [CHR 0x22] @ ''a, b'' @ [CHR 0x22] @ '' now''), Flag ''no-pty'', Setting ''from'' ''10.0.0.*'']"

theorem authorized_key_read_back_witness:
  "ParseAuthorizedKey demo_kenv (concat (map (\<lambda>c. c @ [CHR 0x0A]) [''# my keys'', []]) @ option_field (map opt_text demo_options)
      @ MarshalAuthorizedKey \<lparr>pk_Type = ''ssh-ed25519'', pk_Marshal = enc_string ''ssh-ed25519'' @ enc_string (replicate 32 CHR ''k'')\<rparr>
      @ ''rest'') = Some (EdKey (replicate 32 CHR ''k''), [], map opt_text demo_options, ''rest'')"
proof -
  have ok: "list_all opt_ok demo_options" by (simp add: demo_options_def name_ok_def printable_def texty_def blank_def)
  have "second_word (Join '','' (map opt_text demo_options)) = [CHR 0x5C, CHR 0x22] @ ''a,''"
    by (simp add: second_word_def demo_options_def blank_def)
  moreover have "b64_decode ([CHR 0x5C, CHR 0x22] @ ''a,'') = None" by (simp add: b64_decode_def b64_val_def)
  ultimately have nk: "no_key demo_kenv (second_word (Join '','' (map opt_text demo_options)))" by (simp add: no_key_def)
  show ?thesis
    by (rule authorized_key_read_back [OF _ _ _ _ _ ok nk])
      (simp_all add: Marshal_keys small_def key_Type_def printable_def texty_def blank_def)
qed

end
