(* ===== verification/Private_Keys.thy ===== *)
theory Private_Keys
  imports Keys_Proofs
begin

section \<open>Private keys and signers\<close>

text \<open>
  The signers of \<^verbatim>\<open>keys.go\<close>, which turn what the standard library signs into signatures of the ssh format, and the readers of private
  keys.  What the standard library does - signing, ASN.1, PEM, the formats of \<^verbatim>\<open>crypto/x509\<close> and the consistency check of an RSA key - are parameters.
\<close>

subsection \<open>Signers\<close>

text \<open>A \<^verbatim>\<open>crypto.Signer\<close>: its public key, and what it makes of a hash function (None: the data themselves) and the data.\<close>

record crypto_signer =
  cs_Public :: public_key
  cs_Sign :: "hash_alg option \<Rightarrow> bytes \<Rightarrow> string + bytes"

fun sign_hash :: "public_key \<Rightarrow> hash_alg option option" where
  "sign_hash (RSAKey e n) = Some (Some SHA1)"
| "sign_hash (DSAKey p q g y) = Some (Some SHA1)"
| "sign_hash (ECKey c pt) = Some (Some (curve_hash c))"
| "sign_hash (EdKey b) = Some None"
| "sign_hash (CertKey c) = None"

text \<open>
  The 40 bytes of a DSA signature: first \<open>r\<close>, then \<open>s\<close>, each copied to end at its place.  A slice that begins before the array is
  a panic; an \<open>s\<close> of more than 20 bytes runs over \<open>r\<close>.
\<close>

definition dsa_blob :: "int \<Rightarrow> int \<Rightarrow> bytes go" where
  "dsa_blob r s =
     (let rb = be_bytes (nat \<bar>r\<bar>); sb = be_bytes (nat \<bar>s\<bar>); sig0 = replicate 40 CHR 0x00 in
      if 20 < length rb then Panic ''slice bounds out of range''
      else let sig1 = take (20 - length rb) sig0 @ rb @ drop 20 sig0 in
        if 40 < length sb then Panic ''slice bounds out of range''
        else Ret (take (40 - length sb) sig1 @ sb))"

definition wrapped_Sign :: "(bytes \<Rightarrow> (int \<times> int) option) \<Rightarrow> crypto_signer \<Rightarrow> bytes \<Rightarrow> (string + signature) go" where
  "wrapped_Sign asn1 s data =
     (case sign_hash (cs_Public s) of
        None \<Rightarrow> Ret (Inl ''ssh: unsupported key type'')
      | Some h \<Rightarrow>
          (case cs_Sign s h data of
             Inl e \<Rightarrow> Ret (Inl e)
           | Inr raw \<Rightarrow>
               bind_go (key_Type (cs_Public s)) (\<lambda>format.
                 case cs_Public s of
                   ECKey c pt \<Rightarrow>
                     (case asn1 raw of
                        None \<Rightarrow> Ret (Inl ''asn1'')
                      | Some (r, t) \<Rightarrow> Ret (Inr (format, Marshal ecSig [VInt r, VInt t])))
                 | DSAKey p q g y \<Rightarrow>
                     (case asn1 raw of
                        None \<Rightarrow> Ret (Inl ''asn1'')
                      | Some (r, t) \<Rightarrow> bind_go (dsa_blob r t) (\<lambda>blob. Ret (Inr (format, blob))))
                 | _ \<Rightarrow> Ret (Inr (format, raw)))))"

text \<open>A DSA key that is no \<^verbatim>\<open>crypto.Signer\<close> signs by itself.\<close>

definition dsa_Sign :: "(bytes \<Rightarrow> string + int \<times> int) \<Rightarrow> bytes \<Rightarrow> (string + signature) go" where
  "dsa_Sign sign data =
     (case sign data of
        Inl e \<Rightarrow> Ret (Inl e)
      | Inr (r, s) \<Rightarrow> bind_go (dsa_blob r s) (\<lambda>blob. Ret (Inr (''ssh-dss'', blob))))"

subsection \<open>Files\<close>

datatype private_key =
    RSAPrivate int int int "int list"
  | DSAPrivate "int \<times> int \<times> int \<times> int" int
  | ECPrivate ec_id int
  | EdPrivate bytes

record pem_block =
  pb_Type :: string
  pb_ProcType :: string
  pb_Bytes :: bytes

record pem_env =
  pe_Decode :: "bytes \<Rightarrow> pem_block option"
  pe_PKCS1 :: "bytes \<Rightarrow> string + private_key"
  pe_EC :: "bytes \<Rightarrow> string + private_key"
  pe_DSA :: "bytes \<Rightarrow> ((int \<times> int \<times> int \<times> int \<times> int \<times> int) \<times> bytes) option"
  pe_Validate :: "private_key \<Rightarrow> bool"
  pe_Decrypt :: "pem_block \<Rightarrow> bytes \<Rightarrow> (string + bytes) option"

datatype pem_err =
    NoKeyFound | IsEncrypted | UnsupportedType | LibraryErr string | DSAGarbage | BadMagic | PrivWire wire_err
  | CheckMismatch | BadPadding | BadLength | UnhandledType | Inconsistent

definition openssh_magic :: bytes where
  "openssh_magic = ''openssh-key-v1'' @ [CHR 0x00]"

definition opensshWire :: schema where
  "opensshWire = \<lparr>sc_tags = [], sc_fields = [KString, KString, KString, KU32, KBytes, KBytes]\<rparr>"

definition pk1Wire :: schema where
  "pk1Wire = \<lparr>sc_tags = [], sc_fields = [KU32, KU32, KString, KRest]\<rparr>"

definition rsaPrivWire :: schema where
  "rsaPrivWire = \<lparr>sc_tags = [], sc_fields = [KInt, KInt, KInt, KInt, KInt, KInt, KString, KRest]\<rparr>"

definition edPrivWire :: schema where
  "edPrivWire = \<lparr>sc_tags = [], sc_fields = [KBytes, KBytes, KString, KRest]\<rparr>"

text \<open>The padding counts from one; a byte is compared with an integer, so that padding of more than 255 bytes is refused.\<close>

definition padding_ok :: "bytes \<Rightarrow> bool" where
  "padding_ok pad \<longleftrightarrow> list_all (\<lambda>(i, b). (of_char b :: nat) = i + 1) (zip [0..<length pad] pad)"

definition parse_rsa_private :: "pem_env \<Rightarrow> bytes \<Rightarrow> pem_err + private_key" where
  "parse_rsa_private env rest =
     (case Unmarshal rsaPrivWire rest of
        Inl e \<Rightarrow> Inl (PrivWire e)
      | Inr vs \<Rightarrow>
          (case vs of
             [VInt n, VInt e, VInt d, VInt iqmp, VInt p, VInt q, VStr comment, VBytes pad] \<Rightarrow>
               if \<not> padding_ok pad then Inl BadPadding
               else let k = RSAPrivate n (signed_take_bit 63 e) d [p, q] in
                 if pe_Validate env k then Inr k else Inl Inconsistent
           | _ \<Rightarrow> Inl BadLength))"

definition parse_ed_private :: "bytes \<Rightarrow> pem_err + private_key" where
  "parse_ed_private rest =
     (case Unmarshal edPrivWire rest of
        Inl e \<Rightarrow> Inl (PrivWire e)
      | Inr vs \<Rightarrow>
          (case vs of
             [VBytes pub, VBytes priv, VStr comment, VBytes pad] \<Rightarrow>
               if length priv \<noteq> 64 then Inl BadLength
               else if \<not> padding_ok pad then Inl BadPadding
               else Inr (EdPrivate priv)
           | _ \<Rightarrow> Inl BadLength))"

definition parse_private_block :: "pem_env \<Rightarrow> bytes \<Rightarrow> pem_err + private_key" where
  "parse_private_block env block =
     (case Unmarshal pk1Wire block of
        Inl e \<Rightarrow> Inl (PrivWire e)
      | Inr vs \<Rightarrow>
          (case vs of
             [VU32 check1, VU32 check2, VStr keytype, VBytes rest] \<Rightarrow>
               if check1 \<noteq> check2 then Inl CheckMismatch
               else if keytype = ''ssh-rsa'' then parse_rsa_private env rest
               else if keytype = ''ssh-ed25519'' then parse_ed_private rest
               else Inl UnhandledType
           | _ \<Rightarrow> Inl BadLength))"

text \<open>The first fifteen bytes are sliced before the length is known.\<close>

definition parseOpenSSHPrivateKey :: "pem_env \<Rightarrow> bytes \<Rightarrow> (pem_err + private_key) go" where
  "parseOpenSSHPrivateKey env key =
     (if length key < length openssh_magic then Panic ''slice bounds out of range''
      else if take (length openssh_magic) key \<noteq> openssh_magic then Ret (Inl BadMagic)
      else (case Unmarshal opensshWire (drop (length openssh_magic) key) of
          Inl e \<Rightarrow> Ret (Inl (PrivWire e))
        | Inr vs \<Rightarrow>
            (case vs of
               [VStr cipherName, VStr kdfName, VStr kdfOpts, VU32 numKeys, VBytes pubKey, VBytes block] \<Rightarrow>
                 if kdfName \<noteq> ''none'' \<or> cipherName \<noteq> ''none'' then Ret (Inl IsEncrypted)
                 else Ret (parse_private_block env block)
             | _ \<Rightarrow> Ret (Inl BadLength))))"

definition ParseDSAPrivateKey :: "pem_env \<Rightarrow> bytes \<Rightarrow> pem_err + private_key" where
  "ParseDSAPrivateKey env der =
     (case pe_DSA env der of
        None \<Rightarrow> Inl (LibraryErr ''ssh: failed to parse DSA key'')
      | Some ((version, p, q, g, y, x), rest) \<Rightarrow> if rest \<noteq> [] then Inl DSAGarbage else Inr (DSAPrivate (p, q, g, y) x))"

definition encryptedBlock :: "pem_block \<Rightarrow> bool" where
  "encryptedBlock block = Contains (pb_ProcType block) ''ENCRYPTED''"

definition library_result :: "string + private_key \<Rightarrow> pem_err + private_key" where
  "library_result r = (case r of Inl e \<Rightarrow> Inl (LibraryErr e) | Inr k \<Rightarrow> Inr k)"

text \<open>The switch over the type of the block that both readers have.\<close>

definition parse_block :: "pem_env \<Rightarrow> string \<Rightarrow> bytes \<Rightarrow> (pem_err + private_key) go" where
  "parse_block env type buf =
     (if type = ''RSA PRIVATE KEY'' then Ret (library_result (pe_PKCS1 env buf))
      else if type = ''EC PRIVATE KEY'' then Ret (library_result (pe_EC env buf))
      else if type = ''DSA PRIVATE KEY'' then Ret (ParseDSAPrivateKey env buf)
      else if type = ''OPENSSH PRIVATE KEY'' then parseOpenSSHPrivateKey env buf
      else Ret (Inl UnsupportedType))"

definition ParseRawPrivateKey :: "pem_env \<Rightarrow> bytes \<Rightarrow> (pem_err + private_key) go" where
  "ParseRawPrivateKey env pemBytes =
     (case pe_Decode env pemBytes of
        None \<Rightarrow> Ret (Inl NoKeyFound)
      | Some block \<Rightarrow> if encryptedBlock block then Ret (Inl IsEncrypted) else parse_block env (pb_Type block) (pb_Bytes block))"

text \<open>\<open>pe_Decrypt\<close> is None for a block that \<^verbatim>\<open>IsEncryptedPEMBlock\<close> does not accept.\<close>

definition ParseRawPrivateKeyWithPassphrase :: "pem_env \<Rightarrow> bytes \<Rightarrow> bytes \<Rightarrow> (pem_err + private_key) go" where
  "ParseRawPrivateKeyWithPassphrase env pemBytes passPhrase =
     (case pe_Decode env pemBytes of
        None \<Rightarrow> Ret (Inl NoKeyFound)
      | Some block \<Rightarrow>
          (case (if encryptedBlock block then pe_Decrypt env block passPhrase else None) of
             None \<Rightarrow> parse_block env (pb_Type block) (pb_Bytes block)
           | Some (Inl e) \<Rightarrow> Ret (Inl (LibraryErr e))
           | Some (Inr buf) \<Rightarrow> parse_block env (pb_Type block) buf))"

subsection \<open>The bytes of a DSA signature\<close>

lemma be_bytes_length: "length (be_bytes n) \<le> k \<longleftrightarrow> n < 256 ^ k"
proof (induction k arbitrary: n)
  case (Suc k)
  show ?case
  proof (cases "n = 0")
    case False
    then have "length (be_bytes n) = Suc (length (be_bytes (n div 256)))" by (subst be_bytes.simps) simp
    moreover have "n div 256 < 256 ^ k \<longleftrightarrow> n < 256 ^ Suc k" by (simp add: div_less_iff_less_mult mult.commute)
    ultimately show ?thesis using Suc [of "n div 256"] by simp
  qed (simp add: be_bytes.simps)
qed simp

lemma be_val_pad: "be_val (replicate k CHR 0x00 @ b) = be_val b"
  by (induction k) (simp_all add: be_val_Cons)

lemma dsa_blob_Panic: "(\<exists>e. dsa_blob r s = Panic e) \<longleftrightarrow> 2 ^ 160 \<le> \<bar>r\<bar> \<or> 2 ^ 320 \<le> \<bar>s\<bar>"
proof -
  have "20 < length (be_bytes (nat \<bar>r\<bar>)) \<longleftrightarrow> \<not> nat \<bar>r\<bar> < 256 ^ 20" "40 < length (be_bytes (nat \<bar>s\<bar>)) \<longleftrightarrow> \<not> nat \<bar>s\<bar> < 256 ^ 40"
    using be_bytes_length [of "nat \<bar>r\<bar>" 20] be_bytes_length [of "nat \<bar>s\<bar>" 40] by linarith+
  moreover have "\<not> nat \<bar>r\<bar> < 256 ^ 20 \<longleftrightarrow> 2 ^ 160 \<le> \<bar>r\<bar>" "\<not> nat \<bar>s\<bar> < 256 ^ 40 \<longleftrightarrow> 2 ^ 320 \<le> \<bar>s\<bar>"
    by (simp_all add: nat_less_iff not_less)
  ultimately show ?thesis by (auto simp: dsa_blob_def Let_def)
qed

lemma two_fields:
  assumes "length a \<le> k" "length b \<le> k"
  shows "take (2 * k - length b) (take (k - length a) (replicate (2 * k) z) @ a @ drop k (replicate (2 * k) z)) @ b
    = (replicate (k - length a) z @ a) @ replicate (k - length b) z @ b"
proof -
  have t: "take (k - length a) (replicate (2 * k) z) = replicate (k - length a) z" "drop k (replicate (2 * k) z) = replicate k z"
    by (simp_all add: take_replicate min_absorb1)
  have e: "2 * k - length b - (k - length a) - length a = k - length b" using assms by linarith
  have "take (2 * k - length b) (replicate (k - length a) z) = replicate (k - length a) z" "take (2 * k - length b - (k - length a)) a = a"
     "take (k - length b) (replicate k z) = replicate (k - length b) z"
    using assms by (simp_all add: take_replicate min_def) linarith
  then show ?thesis unfolding t take_append length_replicate e by simp
qed

lemma dsa_blob_read:
  assumes "0 \<le> r" "r < 2 ^ 160" "0 \<le> s" "s < 2 ^ 160"
  obtains blob where "dsa_blob r s = Ret blob" "length blob = 40" "be_val (take 20 blob) = nat r" "be_val (drop 20 blob) = nat s"
proof -
  let ?r = "be_bytes (nat r)" and ?s = "be_bytes (nat s)"
  have l: "length ?r \<le> 20" "length ?s \<le> 20" using assms by (simp_all add: be_bytes_length nat_less_iff)
  let ?b = "(replicate (20 - length ?r) CHR 0x00 @ ?r) @ replicate (20 - length ?s) CHR 0x00 @ ?s"
  have "dsa_blob r s = Ret ?b"
    unfolding dsa_blob_def Let_def abs_of_nonneg [OF assms(1)] abs_of_nonneg [OF assms(3)]
    using l two_fields [OF l, of "CHR 0x00", simplified] by simp
  moreover have "take 20 ?b = replicate (20 - length ?r) CHR 0x00 @ ?r" "drop 20 ?b = replicate (20 - length ?s) CHR 0x00 @ ?s"
    using l by simp_all
  ultimately show thesis using that [of ?b] l by (simp add: be_val_pad)
qed

subsection \<open>Signatures verify\<close>

text \<open>
  What the standard library documents of a signer: what it returns for some data and a hash function verifies for these data and this
  hash function.  It says nothing of a hash function that does not fit the kind of key (none for RSA, DSA and the curves, one for Ed25519).
\<close>

fun raw_verifies :: "key_env \<Rightarrow> (bytes \<Rightarrow> (int \<times> int) option) \<Rightarrow> public_key \<Rightarrow> hash_alg option \<Rightarrow> bytes \<Rightarrow> bytes \<Rightarrow> bool" where
  "raw_verifies env asn1 (RSAKey e n) (Some h) data raw \<longleftrightarrow> ke_rsa env h e n data raw"
| "raw_verifies env asn1 (DSAKey p q g y) (Some h) data raw \<longleftrightarrow>
     (case asn1 raw of None \<Rightarrow> False
      | Some (r, s) \<Rightarrow> 0 \<le> r \<and> r < 2 ^ 160 \<and> 0 \<le> s \<and> s < 2 ^ 160 \<and> ke_dsa env h (p, q, g, y) data (nat r) (nat s))"
| "raw_verifies env asn1 (ECKey c pt) (Some h) data raw \<longleftrightarrow>
     (case asn1 raw of None \<Rightarrow> False
      | Some (r, s) \<Rightarrow> 0 \<le> r \<and> r < 2 ^ 528 \<and> 0 \<le> s \<and> s < 2 ^ 528 \<and> ke_ecdsa env h c pt data r s)"
| "raw_verifies env asn1 (EdKey kb) None data raw \<longleftrightarrow>
     length kb = 32 \<and> length raw = 64 \<and> (of_char (raw ! 63) :: nat) < 32 \<and> ke_ed env kb data raw"
| "raw_verifies env asn1 _ _ data raw \<longleftrightarrow> True"

lemma int_contents_length: "0 \<le> n \<Longrightarrow> n < 2 ^ 528 \<Longrightarrow> length (int_contents n) \<le> 67"
  using be_bytes_length [of "nat n" 66] by (simp add: int_contents_def Let_def nat_less_iff)

lemma ecSig_read:
  assumes "0 \<le> r" "r < 2 ^ 528" "0 \<le> s" "s < 2 ^ 528"
  shows "Unmarshal ecSig (Marshal ecSig [VInt r, VInt s]) = Inr [VInt r, VInt s]"
  using int_contents_length [OF assms(1,2)] int_contents_length [OF assms(3,4)]
  by (intro Unmarshal_untagged)
    (simp_all add: ecSig_def has_kind_def marshal_eqs small_def marshalInt_def PutUint32_def del: marshal_fields.simps)

lemma wrapped_Sign_verifies:
  assumes "wrapped_Sign asn1 s data = Ret (Inr sig)" "\<forall>h raw. cs_Sign s h data = Inr raw \<longrightarrow> raw_verifies env asn1 (cs_Public s) h data raw"
  shows "key_Verify env (cs_Public s) data sig = Ret None"
proof -
  obtain h raw format where h: "sign_hash (cs_Public s) = Some h" "cs_Sign s h data = Inr raw" "key_Type (cs_Public s) = Ret format"
    using assms(1) by (auto simp: wrapped_Sign_def bind_go_Ret_iff split: option.split_asm sum.split_asm)
  then have v: "raw_verifies env asn1 (cs_Public s) h data raw" using assms(2) by blast
  show ?thesis
  proof (cases "cs_Public s")
    case (RSAKey e n)
    then show ?thesis using assms(1) h v by (auto simp: wrapped_Sign_def key_Type_def rsa_Verify_def verdict_def)
  next
    case (DSAKey p q g y)
    then obtain r t where a: "asn1 raw = Some (r, t)" "0 \<le> r" "r < 2 ^ 160" "0 \<le> t" "t < 2 ^ 160" "ke_dsa env SHA1 (p, q, g, y) data (nat r) (nat t)"
      using v h(1) by (auto split: option.split_asm)
    obtain blob where "dsa_blob r t = Ret blob" "length blob = 40" "be_val (take 20 blob) = nat r" "be_val (drop 20 blob) = nat t"
      using a(2-5) by (rule dsa_blob_read)
    then show ?thesis using assms(1) h a DSAKey by (auto simp: wrapped_Sign_def key_Type_def dsa_Verify_def verdict_def)
  next
    case (ECKey c pt)
    then obtain r t where a: "asn1 raw = Some (r, t)" "0 \<le> r" "r < 2 ^ 528" "0 \<le> t" "t < 2 ^ 528" "ke_ecdsa env (curve_hash c) c pt data r t"
      using v h(1) by (auto split: option.split_asm)
    then show ?thesis using assms(1) h ECKey ecSig_read [OF a(2-5)] by (auto simp: wrapped_Sign_def key_Type_def ecdsa_Verify_def verdict_def)
  next
    case (EdKey kb)
    then show ?thesis using assms(1) h v
      by (auto simp: wrapped_Sign_def key_Type_def edkey_Verify_def ed25519_Verify_def verdict_def)
  next
    case (CertKey c)
    then show ?thesis using h(1) by simp
  qed
qed

text \<open>
  C32: what a signer signs, its public key verifies.  If the signer of the standard library keeps its promise - what it returns for
  a hash function verifies with that same hash function, the numbers of a DSA signature are below \<open>2^160\<close>, those of a curve below
  \<open>2^528\<close> - then, for every kind of key, the signature the ssh library makes of it - with the hash function it chooses for the key, decoded from
  ASN.1, padded to 40 bytes or written as two integers - passes \<open>Verify\<close> of the key, which chooses its hash function by itself.
\<close>

theorem signer_verifies:
  assumes "wrapped_Sign asn1 s data = Ret (Inr sig)" "\<forall>h raw. cs_Sign s h data = Inr raw \<longrightarrow> raw_verifies env asn1 (cs_Public s) h data raw"
  shows "key_Verify env (cs_Public s) data sig = Ret None"
  using assms by (rule wrapped_Sign_verifies)

text \<open>So an authority whose key is in such a signer issues certificates that are accepted.\<close>

definition signer_of :: "(bytes \<Rightarrow> (int \<times> int) option) \<Rightarrow> crypto_signer \<Rightarrow> key_signer" where
  "signer_of asn1 s = \<lparr>ks_PublicKey = cs_Public s,
     ks_Sign = (\<lambda>data. case wrapped_Sign asn1 s data of Ret (Inr sig) \<Rightarrow> Some sig | _ \<Rightarrow> None)\<rparr>"

lemma signer_of_verifies:
  assumes "\<forall>data h raw. cs_Sign s h data = Inr raw \<longrightarrow> raw_verifies env asn1 (cs_Public s) h data raw"
    and "ks_Sign (signer_of asn1 s) data = Some sig"
  shows "key_Verify env (ks_PublicKey (signer_of asn1 s)) data sig = Ret None"
proof -
  have "wrapped_Sign asn1 s data = Ret (Inr sig)" using assms(2) by (auto simp: signer_of_def split: go.split_asm sum.split_asm)
  then show ?thesis using wrapped_Sign_verifies assms(1) by (simp add: signer_of_def)
qed

subsection \<open>Reading private keys\<close>

lemma parseOpenSSH_Panic: "(\<exists>e. parseOpenSSHPrivateKey env key = Panic e) \<longleftrightarrow> length key < 15"
proof -
  have "length openssh_magic = 15" by (simp add: openssh_magic_def)
  then show ?thesis by (auto simp: parseOpenSSHPrivateKey_def split: sum.split_asm list.split_asm fval.split_asm if_split_asm)
qed

text \<open>
  Which files make the reader of private keys panic.  \<open>ParseRawPrivateKey\<close> panics exactly for a PEM block of the OpenSSH type, not marked as encrypted,
  with fewer than fifteen bytes; every other file gives a key or an error.
\<close>

lemma private_key_file_panics_iff:
  "(\<exists>e. ParseRawPrivateKey env pemBytes = Panic e) \<longleftrightarrow>
     (\<exists>block. pe_Decode env pemBytes = Some block \<and> \<not> encryptedBlock block \<and> pb_Type block = ''OPENSSH PRIVATE KEY'' \<and> length (pb_Bytes block) < 15)"
proof (cases "pe_Decode env pemBytes")
  case (Some block)
  have "(\<exists>e. parse_block env (pb_Type block) (pb_Bytes block) = Panic e)
      \<longleftrightarrow> pb_Type block = ''OPENSSH PRIVATE KEY'' \<and> length (pb_Bytes block) < 15"
    using parseOpenSSH_Panic [of env "pb_Bytes block"] by (cases "pb_Type block = ''OPENSSH PRIVATE KEY''") (simp_all add: parse_block_def)
  then show ?thesis using Some by (simp add: ParseRawPrivateKey_def)
qed (simp add: ParseRawPrivateKey_def)

text \<open>The file as \<^verbatim>\<open>PROTOCOL.key\<close> lays it out: the magic, the fields without encryption, the block with its checks and its padding.\<close>

definition openssh_file :: "bytes \<Rightarrow> u32 \<Rightarrow> string \<Rightarrow> bytes \<Rightarrow> bytes" where
  "openssh_file pub check keytype body = openssh_magic @ Marshal opensshWire
     [VStr ''none'', VStr ''none'', VStr [], VU32 1, VBytes pub, VBytes (Marshal pk1Wire [VU32 check, VU32 check, VStr keytype, VBytes body])]"

definition padding :: "nat \<Rightarrow> bytes" where
  "padding n = map (\<lambda>i. char_of (i + 1)) [0..<n]"

lemma padding_read: "n < 256 \<Longrightarrow> padding_ok (padding n)"
  by (auto simp: padding_ok_def padding_def list_all_iff in_set_zip)

lemma openssh_file_block:
  assumes "small (openssh_file pub check keytype body)"
  shows "parseOpenSSHPrivateKey env (openssh_file pub check keytype body)
    = Ret (if keytype = ''ssh-rsa'' then parse_rsa_private env body
           else if keytype = ''ssh-ed25519'' then parse_ed_private body else Inl UnhandledType)"
proof -
  let ?block = "Marshal pk1Wire [VU32 check, VU32 check, VStr keytype, VBytes body]"
  let ?vs = "[VStr ''none'', VStr ''none'', VStr [], VU32 1, VBytes pub, VBytes ?block]"
  have s: "small (Marshal opensshWire ?vs)" using assms by (simp add: openssh_file_def small_def)
  then have "Unmarshal opensshWire (Marshal opensshWire ?vs) = Inr ?vs"
    by (intro Unmarshal_untagged) (simp_all add: opensshWire_def has_kind_def marshal_eqs del: marshal_fields.simps)
  moreover have "small ?block" using s by (simp add: small_def opensshWire_def marshal_eqs del: marshal_fields.simps)
  then have "Unmarshal pk1Wire ?block = Inr [VU32 check, VU32 check, VStr keytype, VBytes body]"
    by (intro Unmarshal_untagged) (simp_all add: pk1Wire_def has_kind_def marshal_eqs PutUint32_def del: marshal_fields.simps)
  ultimately show ?thesis by (simp add: parseOpenSSHPrivateKey_def openssh_file_def parse_private_block_def)
qed

text \<open>Unencrypted keys in the format of OpenSSH are read back.\<close>

lemma openssh_ed25519_read:
  assumes "length priv = 64" "n < 256"
    and body: "body = Marshal edPrivWire [VBytes pub, VBytes priv, VStr comment, VBytes (padding n)]"
    and "small (openssh_file pub check ''ssh-ed25519'' body)"
  shows "parseOpenSSHPrivateKey env (openssh_file pub check ''ssh-ed25519'' body) = Ret (Inr (EdPrivate priv))"
proof -
  have "small body" using assms(4)
    by (simp add: openssh_file_def small_def opensshWire_def pk1Wire_def marshal_eqs del: marshal_fields.simps)
  then have "Unmarshal edPrivWire body = Inr [VBytes pub, VBytes priv, VStr comment, VBytes (padding n)]"
    unfolding body by (intro Unmarshal_untagged) (simp_all add: edPrivWire_def has_kind_def marshal_eqs del: marshal_fields.simps)
  then have "parse_ed_private body = Inr (EdPrivate priv)"
    using assms(1) padding_read [OF assms(2)] by (simp add: parse_ed_private_def)
  then show ?thesis using openssh_file_block [OF assms(4)] by simp
qed

lemma openssh_rsa_read:
  assumes "signed_take_bit 63 e = e" "pe_Validate env (RSAPrivate n e d [p, q])" "m < 256"
    and body: "body = Marshal rsaPrivWire [VInt n, VInt e, VInt d, VInt iqmp, VInt p, VInt q, VStr comment, VBytes (padding m)]"
    and "small (openssh_file pub check ''ssh-rsa'' body)"
  shows "parseOpenSSHPrivateKey env (openssh_file pub check ''ssh-rsa'' body) = Ret (Inr (RSAPrivate n e d [p, q]))"
proof -
  have "small body" using assms(5)
    by (simp add: openssh_file_def small_def opensshWire_def pk1Wire_def marshal_eqs del: marshal_fields.simps)
  then have "Unmarshal rsaPrivWire body = Inr [VInt n, VInt e, VInt d, VInt iqmp, VInt p, VInt q, VStr comment, VBytes (padding m)]"
    unfolding body by (intro Unmarshal_untagged) (simp_all add: rsaPrivWire_def has_kind_def marshal_eqs del: marshal_fields.simps)
  then have "parse_rsa_private env body = Inr (RSAPrivate n e d [p, q])"
    using assms(1,2) padding_read [OF assms(3)] by (simp add: parse_rsa_private_def)
  then show ?thesis using openssh_file_block [OF assms(5)] by simp
qed

subsection \<open>The theorem on a concrete signer\<close>

fun demo_tag :: "hash_alg \<Rightarrow> nat" where
  "demo_tag SHA1 = 1"
| "demo_tag SHA256 = 2"
| "demo_tag SHA384 = 3"
| "demo_tag SHA512 = 4"

definition demo_dsa_env :: key_env where
  "demo_dsa_env = \<lparr>ke_Unmarshal = (\<lambda>_ _. None), ke_Marshal = (\<lambda>_ _. []), ke_rsa = (\<lambda>_ _ _ _ _. False),
     ke_dsa = (\<lambda>h key data r s. r = 5 \<and> s = length data + demo_tag h), ke_ecdsa = (\<lambda>_ _ _ _ _ _. False), ke_ed = (\<lambda>_ _ _. False)\<rparr>"

definition demo_dsa_signer :: crypto_signer where
  "demo_dsa_signer = \<lparr>cs_Public = DSAKey 7 3 2 4,
     cs_Sign = (\<lambda>h data. case h of None \<Rightarrow> Inl ''no hash'' | Some a \<Rightarrow> Inr (data @ replicate (demo_tag a) CHR 0x00))\<rparr>"

definition demo_asn1 :: "bytes \<Rightarrow> (int \<times> int) option" where
  "demo_asn1 raw = Some (5, int (length raw))"

theorem signer_verifies_witness:
  "\<exists>sig. wrapped_Sign demo_asn1 demo_dsa_signer ''message'' = Ret (Inr sig)
    \<and> key_Verify demo_dsa_env (cs_Public demo_dsa_signer) ''message'' sig = Ret None"
proof -
  obtain blob where "dsa_blob 5 8 = Ret blob" using dsa_blob_read [of 5 8] by auto
  then have w: "wrapped_Sign demo_asn1 demo_dsa_signer ''message'' = Ret (Inr (''ssh-dss'', blob))"
    by (simp add: wrapped_Sign_def demo_asn1_def demo_dsa_signer_def key_Type_def)
  have "demo_tag h < 1461501637330902918203684832716283019655932542969" for h by (cases h) simp_all
  then have "\<forall>h raw. cs_Sign demo_dsa_signer h ''message'' = Inr raw
      \<longrightarrow> raw_verifies demo_dsa_env demo_asn1 (cs_Public demo_dsa_signer) h ''message'' raw"
    by (auto simp: demo_asn1_def demo_dsa_env_def demo_dsa_signer_def nat_add_distrib split: option.split)
  from signer_verifies [OF w this] w show ?thesis by blast
qed

end
