(* ===== verification/Packet_Cipher.thy ===== *)
theory Packet_Cipher
  imports Go_Stdlib
begin

section \<open>Packets on the wire: ciphers and authentication codes\<close>

text \<open>
  \<^verbatim>\<open>cipher.go\<close> and \<^verbatim>\<open>mac.go\<close> of the ssh library in \<^verbatim>\<open>xendor/github.com/glycerine/xcryptossh\<close>: the three
  ways a packet is put on the wire and taken from it - a stream cipher with an authentication code
  over the plain or over the encrypted packet, AES-GCM, and a block cipher in CBC mode.

  The primitives are parameters: a key stream (a byte for every position), an authentication code
  (a function of the bytes written to it since it was reset), an authenticated cipher, a block
  cipher.  Their modes of use - the xor with the key stream, the chaining of blocks, the counter in
  the nonce - are written out.  A reader is the bytes that arrive on the connection before it ends;
  the random padding is taken from a list of random bytes.  Buffers that are reused between packets
  carry no information and are left out.  Slices beyond 4 GB are a panic where the code's uint32
  lengths wrap and its slice expressions fail.
\<close>

unbundle bit_operations_syntax

subsection \<open>Sizes\<close>

definition packetSizeMultiple :: nat where "packetSizeMultiple = 16"
definition maxPacket :: nat where "maxPacket = 256 * 1024"
definition prefixLen :: nat where "prefixLen = 5"
definition gcmTagSize :: nat where "gcmTagSize = 16"
definition cbcMinPacketSizeMultiple :: nat where "cbcMinPacketSizeMultiple = 8"
definition cbcMinPacketSize :: nat where "cbcMinPacketSize = 16"
definition cbcMinPaddingSize :: nat where "cbcMinPaddingSize = 4"

datatype cipher_err =
    ErrUnexpectedEOF
  | ErrPacketTooSmall
  | ErrPacketTooLarge
  | ErrMACFailure
  | ErrAuthentication
  | ErrIllegalPadding nat
  | ErrPaddingTooLarge nat
  | ErrLengthMultiple
  | ErrInvalidLength

text \<open>\<open>io.ReadFull\<close>: \<open>n\<close> bytes, or an error when the connection ends before.\<close>

definition ReadFull :: "nat \<Rightarrow> bytes \<Rightarrow> (bytes \<times> bytes) option" where
  "ReadFull n r = (if length r < n then None else Some (take n r, drop n r))"

subsection \<open>Primitives\<close>

definition xor_byte :: "char \<Rightarrow> char \<Rightarrow> char" where
  "xor_byte a b = char_of ((of_char a :: nat) XOR of_char b)"

definition xor_bytes :: "bytes \<Rightarrow> bytes \<Rightarrow> bytes" where
  "xor_bytes xs ys = map2 xor_byte xs ys"

record key_stream =
  ks_byte :: "nat \<Rightarrow> char"
  ks_pos :: nat

definition XORKeyStream :: "bytes \<Rightarrow> key_stream \<Rightarrow> bytes \<times> key_stream" where
  "XORKeyStream src k =
     (xor_bytes src (map (ks_byte k) [ks_pos k ..< ks_pos k + length src]), k\<lparr>ks_pos := ks_pos k + length src\<rparr>)"

definition noneCipher :: key_stream where
  "noneCipher = \<lparr>ks_byte = (\<lambda>_. CHR 0x00), ks_pos = 0\<rparr>"

record mac_hash =
  mh_Sum :: "bytes \<Rightarrow> bytes"
  mh_Size :: nat

definition truncatingMAC :: "nat \<Rightarrow> mac_hash \<Rightarrow> mac_hash" where
  "truncatingMAC n m = \<lparr>mh_Sum = (\<lambda>x. take n (mh_Sum m x)), mh_Size = n\<rparr>"

definition mac_size :: "mac_hash option \<Rightarrow> nat" where
  "mac_size m = (case m of None \<Rightarrow> 0 | Some h \<Rightarrow> mh_Size h)"

definition mac_of :: "mac_hash option \<Rightarrow> bytes \<Rightarrow> bytes" where
  "mac_of m x = (case m of None \<Rightarrow> [] | Some h \<Rightarrow> mh_Sum h x)"

subsection \<open>Stream ciphers\<close>

record streamPacketCipher =
  sp_mac :: "mac_hash option"
  sp_cipher :: key_stream
  sp_etm :: bool

definition encrypt_then_mac :: "streamPacketCipher \<Rightarrow> bool" where
  "encrypt_then_mac s \<longleftrightarrow> sp_mac s \<noteq> None \<and> sp_etm s"

definition stream_padding :: "bool \<Rightarrow> nat \<Rightarrow> nat" where
  "stream_padding etm n =
     (let aadlen = (if etm then 4 else 0);
          p = packetSizeMultiple - (prefixLen + n - aadlen) mod packetSizeMultiple
      in if p < 4 then p + packetSizeMultiple else p)"

text \<open>The prefix of five bytes under the key stream: all of it, or the last byte only.\<close>

definition crypt_prefix :: "bool \<Rightarrow> bytes \<Rightarrow> key_stream \<Rightarrow> bytes \<times> key_stream" where
  "crypt_prefix etm p k =
     (if etm then (case XORKeyStream (drop 4 p) k of (x, k') \<Rightarrow> (take 4 p @ x, k')) else XORKeyStream p k)"

definition stream_writePacket :: "u32 \<Rightarrow> bytes \<Rightarrow> bytes \<Rightarrow> streamPacketCipher
    \<Rightarrow> cipher_err option \<times> bytes \<times> bytes \<times> streamPacketCipher" where
  "stream_writePacket seqNum rand packet s =
     (if maxPacket < length packet then (Some ErrPacketTooLarge, [], rand, s)
      else let etm = encrypt_then_mac s;
               paddingLength = stream_padding etm (length packet);
               len = length packet + 1 + paddingLength;
               pre = PutUint32 (word_of_nat len) @ [char_of paddingLength]
        in case ReadFull paddingLength rand of
             None \<Rightarrow> (Some ErrUnexpectedEOF, [], [], s)
           | Some (padding, rand') \<Rightarrow>
               (case crypt_prefix etm pre (sp_cipher s) of (cprefix, k1) \<Rightarrow>
                case XORKeyStream packet k1 of (cpacket, k2) \<Rightarrow>
                case XORKeyStream padding k2 of (cpadding, k3) \<Rightarrow>
                let tag = mac_of (sp_mac s) (PutUint32 seqNum @
                            (if etm then cprefix @ cpacket @ cpadding else pre @ packet @ padding))
                in (None, cprefix @ cpacket @ cpadding @ tag, rand', s\<lparr>sp_cipher := k3\<rparr>)))"

definition stream_readPacket :: "u32 \<Rightarrow> bytes \<Rightarrow> streamPacketCipher
    \<Rightarrow> (cipher_err + bytes) \<times> bytes \<times> streamPacketCipher" where
  "stream_readPacket seqNum r s =
     (case ReadFull prefixLen r of
        None \<Rightarrow> (Inl ErrUnexpectedEOF, [], s)
      | Some (cprefix, r1) \<Rightarrow>
          let etm = encrypt_then_mac s in
          (case crypt_prefix etm cprefix (sp_cipher s) of (pre, k1) \<Rightarrow>
           let len = Uint32 pre; paddingLength = (of_char (pre ! 4) :: u32); s1 = s\<lparr>sp_cipher := k1\<rparr>
           in if len \<le> paddingLength + 1 then (Inl ErrPacketTooSmall, r1, s1)
              else if unat len > maxPacket then (Inl ErrPacketTooLarge, r1, s1)
              else (case ReadFull (unat (len - 1) + mac_size (sp_mac s)) r1 of
                  None \<Rightarrow> (Inl ErrUnexpectedEOF, [], s1)
                | Some (packetData, r2) \<Rightarrow>
                    let mac = drop (unat (len - 1)) packetData; cdata = take (unat (len - 1)) packetData in
                    (case XORKeyStream cdata k1 of (data, k2) \<Rightarrow>
                     let s2 = s\<lparr>sp_cipher := k2\<rparr>;
                         tag = mac_of (sp_mac s) (PutUint32 seqNum @ (if etm then cprefix @ cdata else pre @ data))
                     in if sp_mac s \<noteq> None \<and> tag \<noteq> mac then (Inl ErrMACFailure, r2, s2)
                        else (Inr (take (unat (len - paddingLength - 1)) data), r2, s2)))))"

subsection \<open>AES-GCM\<close>

record aead =
  ae_Seal :: "bytes \<Rightarrow> bytes \<Rightarrow> bytes \<Rightarrow> bytes"
  ae_Open :: "bytes \<Rightarrow> bytes \<Rightarrow> bytes \<Rightarrow> bytes option"

record gcmCipher =
  gc_aead :: aead
  gc_iv :: bytes

definition inc_byte :: "char \<Rightarrow> char" where
  "inc_byte c = char_of ((of_char c :: nat) + 1)"

text \<open>The counter in the last eight of the twelve bytes of the nonce.\<close>

fun inc_loop :: "nat \<Rightarrow> bytes \<Rightarrow> bytes" where
  "inc_loop 0 iv = iv"
| "inc_loop (Suc n) iv =
     (let iv1 = iv[4 + n := inc_byte (iv ! (4 + n))] in
      if iv1 ! (4 + n) \<noteq> CHR 0x00 then iv1 else inc_loop n iv1)"

definition incIV :: "gcmCipher \<Rightarrow> gcmCipher" where
  "incIV c = c\<lparr>gc_iv := inc_loop 8 (gc_iv c)\<rparr>"

definition gcm_padding :: "nat \<Rightarrow> nat" where
  "gcm_padding n = (let p = packetSizeMultiple - (1 + n) mod packetSizeMultiple in
     if p < 4 then p + packetSizeMultiple else p)"

definition gcm_writePacket :: "u32 \<Rightarrow> bytes \<Rightarrow> bytes \<Rightarrow> gcmCipher
    \<Rightarrow> (cipher_err option \<times> bytes \<times> bytes \<times> gcmCipher) go" where
  "gcm_writePacket seqNum rand packet c =
     (let padding = gcm_padding (length packet);
          len = length packet + padding + 1;
          pre = PutUint32 (word_of_nat len)
      in if 2 ^ 32 \<le> len then Panic ''slice bounds out of range''
         else case ReadFull padding rand of
             None \<Rightarrow> Ret (Some ErrUnexpectedEOF, pre, [], c)
           | Some (pad, rand') \<Rightarrow>
               Ret (None, pre @ ae_Seal (gc_aead c) (gc_iv c) (char_of padding # packet @ pad) pre, rand', incIV c))"

text \<open>The test of the padding adds one to a byte, which wraps; the end of the slice is a uint32.\<close>

definition gcm_readPacket :: "u32 \<Rightarrow> bytes \<Rightarrow> gcmCipher \<Rightarrow> ((cipher_err + bytes) \<times> bytes \<times> gcmCipher) go" where
  "gcm_readPacket seqNum r c =
     (case ReadFull 4 r of
        None \<Rightarrow> Ret (Inl ErrUnexpectedEOF, [], c)
      | Some (pre, r1) \<Rightarrow>
          let len = Uint32 pre in
          if unat len > maxPacket then Ret (Inl ErrPacketTooLarge, r1, c)
          else (case ReadFull (unat len + gcmTagSize) r1 of
              None \<Rightarrow> Ret (Inl ErrUnexpectedEOF, [], c)
            | Some (buf, r2) \<Rightarrow>
                (case ae_Open (gc_aead c) (gc_iv c) buf pre of
                   None \<Rightarrow> Ret (Inl ErrAuthentication, r2, c)
                 | Some plain \<Rightarrow>
                     let c1 = incIV c in
                     if plain = [] then Panic ''index out of range''
                     else let padding = (of_char (hd plain) :: nat) in
                       if padding < 4 then Ret (Inl (ErrIllegalPadding padding), r2, c1)
                       else if length plain \<le> (padding + 1) mod 256
                       then Ret (Inl (ErrPaddingTooLarge padding), r2, c1)
                       else let hi = unat (len - word_of_nat padding) in
                         if hi < 1 \<or> length plain < hi then Panic ''slice bounds out of range''
                         else Ret (Inr (drop 1 (take hi plain)), r2, c1))))"

subsection \<open>Block ciphers in CBC mode\<close>

record block_cipher =
  bc_Size :: nat
  bc_Encrypt :: "bytes \<Rightarrow> bytes"
  bc_Decrypt :: "bytes \<Rightarrow> bytes"

text \<open>\<open>CryptBlocks\<close> of both directions: the result and the block the next call is chained to.\<close>

function encrypt_blocks :: "block_cipher \<Rightarrow> bytes \<Rightarrow> bytes \<Rightarrow> bytes \<times> bytes" where
  "encrypt_blocks b iv src =
     (if bc_Size b = 0 \<or> src = [] then ([], iv)
      else let c = bc_Encrypt b (xor_bytes (take (bc_Size b) src) iv) in
        (case encrypt_blocks b c (drop (bc_Size b) src) of (cs, iv') \<Rightarrow> (c @ cs, iv')))"
  by pat_completeness auto
termination
  by (relation "measure (\<lambda>(b, iv, src). length src)") (auto simp: length_greater_0_conv [symmetric] simp del: length_greater_0_conv)

function decrypt_blocks :: "block_cipher \<Rightarrow> bytes \<Rightarrow> bytes \<Rightarrow> bytes \<times> bytes" where
  "decrypt_blocks b iv src =
     (if bc_Size b = 0 \<or> src = [] then ([], iv)
      else let c = take (bc_Size b) src in
        (case decrypt_blocks b c (drop (bc_Size b) src) of
           (ps, iv') \<Rightarrow> (xor_bytes (bc_Decrypt b c) iv @ ps, iv')))"
  by pat_completeness auto
termination
  by (relation "measure (\<lambda>(b, iv, src). length src)") (auto simp: length_greater_0_conv [symmetric] simp del: length_greater_0_conv)

declare encrypt_blocks.simps [simp del] decrypt_blocks.simps [simp del]

record cbcCipher =
  cb_mac :: "mac_hash option"
  cb_block :: block_cipher
  cb_decrypter :: bytes
  cb_encrypter :: bytes

definition newCBCCipher :: "mac_hash option \<Rightarrow> block_cipher \<Rightarrow> bytes \<Rightarrow> cbcCipher" where
  "newCBCCipher m b iv = \<lparr>cb_mac = m, cb_block = b, cb_decrypter = iv, cb_encrypter = iv\<rparr>"

definition cbc_enc_length :: "nat \<Rightarrow> nat \<Rightarrow> nat" where
  "cbc_enc_length blockSize n =
     (let eff = max cbcMinPacketSizeMultiple blockSize;
          enc = max (prefixLen + n + cbcMinPaddingSize) cbcMinPaddingSize
      in (enc + eff - 1) div eff * eff)"

definition cbc_writePacket :: "u32 \<Rightarrow> bytes \<Rightarrow> bytes \<Rightarrow> cbcCipher
    \<Rightarrow> (cipher_err option \<times> bytes \<times> bytes \<times> cbcCipher) go" where
  "cbc_writePacket seqNum rand packet c =
     (let encLength = cbc_enc_length (bc_Size (cb_block c)) (length packet);
          len = encLength - 4;
          paddingLength = len - (1 + length packet)
      in if 2 ^ 32 \<le> encLength then Panic ''slice bounds out of range''
         else case ReadFull paddingLength rand of
             None \<Rightarrow> Ret (Some ErrUnexpectedEOF, [], [], c)
           | Some (padding, rand') \<Rightarrow>
               let plain = PutUint32 (word_of_nat len) @ [char_of paddingLength] @ packet @ padding;
                   tag = mac_of (cb_mac c) (PutUint32 seqNum @ plain)
               in (case encrypt_blocks (cb_block c) (cb_encrypter c) plain of (ct, iv') \<Rightarrow>
                     Ret (None, ct @ tag, rand', c\<lparr>cb_encrypter := iv'\<rparr>)))"

text \<open>
  \<open>readPacketLeaky\<close>; the second result is the number of bytes that \<open>readPacket\<close> still reads after
  a verification error, so that the errors cannot be told apart (0 for the other outcomes).
\<close>

definition cbc_first_block :: "nat \<Rightarrow> nat" where
  "cbc_first_block blockSize = (prefixLen + blockSize - 1) div blockSize * blockSize"

definition cbc_bad_header :: "nat \<Rightarrow> nat \<Rightarrow> nat \<Rightarrow> cipher_err option" where
  "cbc_bad_header blockSize len paddingLength =
     (if maxPacket < len then Some ErrPacketTooLarge
      else if len + 4 < max cbcMinPacketSize blockSize then Some ErrPacketTooSmall
      else if (len + 4) mod max cbcMinPacketSizeMultiple blockSize \<noteq> 0 then Some ErrLengthMultiple
      else if paddingLength < cbcMinPaddingSize \<or> len \<le> paddingLength + 1 then Some ErrInvalidLength
      else None)"

definition cbc_readPacketLeaky :: "u32 \<Rightarrow> bytes \<Rightarrow> cbcCipher
    \<Rightarrow> (cipher_err + bytes) \<times> nat \<times> bytes \<times> cbcCipher" where
  "cbc_readPacketLeaky seqNum r c =
     (let blockSize = bc_Size (cb_block c); first = cbc_first_block blockSize; macSize = mac_size (cb_mac c) in
      case ReadFull first r of
        None \<Rightarrow> (Inl ErrUnexpectedEOF, 0, [], c)
      | Some (b1, r1) \<Rightarrow>
          let oracleCamouflage = maxPacket + 4 + macSize - first in
          (case decrypt_blocks (cb_block c) (cb_decrypter c) b1 of (firstBlock, iv1) \<Rightarrow>
           let len = unat (Uint32 firstBlock); paddingLength = (of_char (firstBlock ! 4) :: nat);
               c1 = c\<lparr>cb_decrypter := iv1\<rparr>
           in case cbc_bad_header blockSize len paddingLength of
                Some e \<Rightarrow> (Inl e, oracleCamouflage, r1, c1)
              | None \<Rightarrow>
                  let macStart = 4 + len; n = macStart + macSize - first in
                  (case ReadFull n r1 of
                     None \<Rightarrow> (Inl ErrUnexpectedEOF, 0, [], c1)
                   | Some (later, r2) \<Rightarrow>
                       (case decrypt_blocks (cb_block c) iv1 (take (macStart - first) later) of (remaining, iv2) \<Rightarrow>
                        let c2 = c\<lparr>cb_decrypter := iv2\<rparr>; plain = firstBlock @ remaining;
                            mac = drop (macStart - first) later
                        in if cb_mac c \<noteq> None \<and> mac_of (cb_mac c) (PutUint32 seqNum @ plain) \<noteq> mac
                           then (Inl ErrMACFailure, oracleCamouflage - n, r2, c2)
                           else (Inr (drop prefixLen (take (macStart - paddingLength) plain)), 0, r2, c2)))))"

definition cbc_readPacket :: "u32 \<Rightarrow> bytes \<Rightarrow> cbcCipher \<Rightarrow> (cipher_err + bytes) \<times> bytes \<times> cbcCipher" where
  "cbc_readPacket seqNum r c =
     (case cbc_readPacketLeaky seqNum r c of (res, camouflage, r', c') \<Rightarrow> (res, drop camouflage r', c'))"

subsection \<open>The ciphers of a connection\<close>

datatype packetCipher = PStream streamPacketCipher | PGCM gcmCipher | PCBC cbcCipher

fun cipher_writePacket :: "u32 \<Rightarrow> bytes \<Rightarrow> bytes \<Rightarrow> packetCipher
    \<Rightarrow> (cipher_err option \<times> bytes \<times> bytes \<times> packetCipher) go" where
  "cipher_writePacket n rand p (PStream s) =
     (case stream_writePacket n rand p s of (e, out, rand', s') \<Rightarrow> Ret (e, out, rand', PStream s'))"
| "cipher_writePacket n rand p (PGCM c) =
     bind_go (gcm_writePacket n rand p c) (\<lambda>(e, out, rand', c'). Ret (e, out, rand', PGCM c'))"
| "cipher_writePacket n rand p (PCBC c) =
     bind_go (cbc_writePacket n rand p c) (\<lambda>(e, out, rand', c'). Ret (e, out, rand', PCBC c'))"

fun cipher_readPacket :: "u32 \<Rightarrow> bytes \<Rightarrow> packetCipher \<Rightarrow> ((cipher_err + bytes) \<times> bytes \<times> packetCipher) go" where
  "cipher_readPacket n r (PStream s) = (case stream_readPacket n r s of (res, r', s') \<Rightarrow> Ret (res, r', PStream s'))"
| "cipher_readPacket n r (PGCM c) = bind_go (gcm_readPacket n r c) (\<lambda>(res, r', c'). Ret (res, r', PGCM c'))"
| "cipher_readPacket n r (PCBC c) = (case cbc_readPacket n r c of (res, r', c') \<Rightarrow> Ret (res, r', PCBC c'))"

end
