(* ===== verification/Negotiate.thy ===== *)
theory Negotiate
  imports Go_Prelude "HOL-Library.Word"
begin

section \<open>Agreeing on algorithms\<close>

text \<open>
  The negotiation part of \<^verbatim>\<open>common.go\<close> and the message of \<open>sendKexInit\<close> in \<^verbatim>\<open>handshake.go\<close> of the ssh
  library in \<^verbatim>\<open>xendor/github.com/glycerine/xcryptossh\<close>.  A slice that is nil is None where the code asks
  for nil.
\<close>

subsection \<open>The supported algorithms\<close>

definition supportedCiphers :: "string list" where
  "supportedCiphers = [''aes128-ctr'', ''aes192-ctr'', ''aes256-ctr'', ''aes128-gcm@openssh.com'', ''arcfour256'', ''arcfour128'']"

definition supportedKexAlgos :: "string list" where
  "supportedKexAlgos = [''curve25519-sha256@libssh.org'', ''ecdh-sha2-nistp256'', ''ecdh-sha2-nistp384'',
     ''ecdh-sha2-nistp521'', ''diffie-hellman-group14-sha1'', ''diffie-hellman-group1-sha1'']"

definition supportedHostKeyAlgos :: "string list" where
  "supportedHostKeyAlgos = [''ssh-rsa-cert-v01@openssh.com'', ''ssh-dss-cert-v01@openssh.com'',
     ''ecdsa-sha2-nistp256-cert-v01@openssh.com'', ''ecdsa-sha2-nistp384-cert-v01@openssh.com'',
     ''ecdsa-sha2-nistp521-cert-v01@openssh.com'', ''ssh-ed25519-cert-v01@openssh.com'',
     ''ecdsa-sha2-nistp256'', ''ecdsa-sha2-nistp384'', ''ecdsa-sha2-nistp521'', ''ssh-rsa'', ''ssh-dss'', ''ssh-ed25519'']"

definition supportedMACs :: "string list" where
  "supportedMACs = [''hmac-sha2-256-etm@openssh.com'', ''hmac-sha2-256'', ''hmac-sha1'', ''hmac-sha1-96'']"

definition supportedCompressions :: "string list" where
  "supportedCompressions = [''none'']"

text \<open>The keys of \<open>cipherModes\<close>.\<close>

definition gcmCipherID :: string where "gcmCipherID = ''aes128-gcm@openssh.com''"
definition aes128cbcID :: string where "aes128cbcID = ''aes128-cbc''"
definition tripledescbcID :: string where "tripledescbcID = ''3des-cbc''"

definition known_ciphers :: "string list" where
  "known_ciphers = [''aes128-ctr'', ''aes192-ctr'', ''aes256-ctr'', ''arcfour128'', ''arcfour256'', ''arcfour'',
     gcmCipherID, aes128cbcID, tripledescbcID]"

subsection \<open>Configuration\<close>

record ssh_config =
  sg_RekeyThreshold :: u64
  sg_KeyExchanges :: "string list option"
  sg_Ciphers :: "string list option"
  sg_MACs :: "string list option"

definition minRekeyThreshold :: u64 where "minRekeyThreshold = 256"
definition max_int64 :: u64 where "max_int64 = 0x7FFFFFFFFFFFFFFF"

definition nil_if_empty :: "'a list \<Rightarrow> 'a list option" where
  "nil_if_empty xs = (if xs = [] then None else Some xs)"

definition SetDefaults :: "ssh_config \<Rightarrow> ssh_config" where
  "SetDefaults c =
     (let ciphers = (case sg_Ciphers c of None \<Rightarrow> supportedCiphers | Some xs \<Rightarrow> xs) in
      c\<lparr>sg_Ciphers := nil_if_empty (filter (\<lambda>x. x \<in> set known_ciphers) ciphers),
        sg_KeyExchanges := (case sg_KeyExchanges c of None \<Rightarrow> Some supportedKexAlgos | k \<Rightarrow> k),
        sg_MACs := (case sg_MACs c of None \<Rightarrow> Some supportedMACs | m \<Rightarrow> m),
        sg_RekeyThreshold := (let r = sg_RekeyThreshold c in
           if r = 0 then r else if r < minRekeyThreshold then minRekeyThreshold
           else if r \<ge> max_int64 then max_int64 else r)\<rparr>)"

subsection \<open>Negotiation\<close>

datatype neg_err = NoCommon string "string list" "string list"

fun has_common :: "string \<Rightarrow> string list \<Rightarrow> bool" where
  "has_common c [] = False"
| "has_common c (s # ss) = (if c = s then True else has_common c ss)"

fun find_loop :: "string list \<Rightarrow> string list \<Rightarrow> string option" where
  "find_loop [] server = None"
| "find_loop (c # cs) server = (if has_common c server then Some c else find_loop cs server)"

definition findCommon :: "string \<Rightarrow> string list \<Rightarrow> string list \<Rightarrow> neg_err + string" where
  "findCommon what client server =
     (case find_loop client server of Some c \<Rightarrow> Inr c | None \<Rightarrow> Inl (NoCommon what client server))"

record directionAlgorithms =
  da_Cipher :: string
  da_MAC :: string
  da_Compression :: string

definition rekeyBytes :: "directionAlgorithms \<Rightarrow> int" where
  "rekeyBytes a =
     (if da_Cipher a \<in> {''aes128-ctr'', ''aes192-ctr'', ''aes256-ctr'', gcmCipherID, aes128cbcID}
      then 16 * 2 ^ 32 else 2 ^ 30)"

record algorithms =
  ag_kex :: string
  ag_hostKey :: string
  ag_w :: directionAlgorithms
  ag_r :: directionAlgorithms

record kex_init =
  ki_KexAlgos :: "string list"
  ki_ServerHostKeyAlgos :: "string list"
  ki_CiphersClientServer :: "string list"
  ki_CiphersServerClient :: "string list"
  ki_MACsClientServer :: "string list"
  ki_MACsServerClient :: "string list"
  ki_CompressionClientServer :: "string list"
  ki_CompressionServerClient :: "string list"
  ki_FirstKexFollows :: bool

definition bind_err :: "'e + 'a \<Rightarrow> ('a \<Rightarrow> 'e + 'b) \<Rightarrow> 'e + 'b" where
  "bind_err r f = (case r of Inl e \<Rightarrow> Inl e | Inr x \<Rightarrow> f x)"

definition findAgreedAlgorithms :: "kex_init \<Rightarrow> kex_init \<Rightarrow> neg_err + algorithms" where
  "findAgreedAlgorithms c s =
     bind_err (findCommon ''key exchange'' (ki_KexAlgos c) (ki_KexAlgos s)) (\<lambda>kex.
     bind_err (findCommon ''host key'' (ki_ServerHostKeyAlgos c) (ki_ServerHostKeyAlgos s)) (\<lambda>hostKey.
     bind_err (findCommon ''client to server cipher'' (ki_CiphersClientServer c) (ki_CiphersClientServer s)) (\<lambda>wc.
     bind_err (findCommon ''server to client cipher'' (ki_CiphersServerClient c) (ki_CiphersServerClient s)) (\<lambda>rc.
     bind_err (findCommon ''client to server MAC'' (ki_MACsClientServer c) (ki_MACsClientServer s)) (\<lambda>wm.
     bind_err (findCommon ''server to client MAC'' (ki_MACsServerClient c) (ki_MACsServerClient s)) (\<lambda>rm.
     bind_err (findCommon ''client to server compression'' (ki_CompressionClientServer c) (ki_CompressionClientServer s)) (\<lambda>wz.
     bind_err (findCommon ''server to client compression'' (ki_CompressionServerClient c) (ki_CompressionServerClient s)) (\<lambda>rz.
       Inr \<lparr>ag_kex = kex, ag_hostKey = hostKey,
            ag_w = \<lparr>da_Cipher = wc, da_MAC = wm, da_Compression = wz\<rparr>,
            ag_r = \<lparr>da_Cipher = rc, da_MAC = rm, da_Compression = rz\<rparr>\<rparr>))))))))"

subsection \<open>The message of each side, and what each side makes of the two\<close>

text \<open>\<open>hostKeyAlgos\<close>: the types of the server's keys, or the types the client accepts.\<close>

definition kex_init_of :: "ssh_config \<Rightarrow> string list \<Rightarrow> kex_init" where
  "kex_init_of cfg hostKeyAlgos =
     (let l = (\<lambda>x. case x of None \<Rightarrow> [] | Some xs \<Rightarrow> xs) in
      \<lparr>ki_KexAlgos = l (sg_KeyExchanges cfg), ki_ServerHostKeyAlgos = hostKeyAlgos,
       ki_CiphersClientServer = l (sg_Ciphers cfg), ki_CiphersServerClient = l (sg_Ciphers cfg),
       ki_MACsClientServer = l (sg_MACs cfg), ki_MACsServerClient = l (sg_MACs cfg),
       ki_CompressionClientServer = supportedCompressions, ki_CompressionServerClient = supportedCompressions,
       ki_FirstKexFollows = False\<rparr>)"

text \<open>\<open>enterKeyExchange\<close>: the side without host keys is the client.\<close>

definition agree :: "bool \<Rightarrow> kex_init \<Rightarrow> kex_init \<Rightarrow> neg_err + algorithms" where
  "agree isClient mine other =
     (if isClient then findAgreedAlgorithms mine other else findAgreedAlgorithms other mine)"

text \<open>A guessed key-exchange packet of the other side that has to be read and dropped.\<close>

definition wrong_guess :: "kex_init \<Rightarrow> kex_init \<Rightarrow> kex_init \<Rightarrow> bool" where
  "wrong_guess other c s \<longleftrightarrow> ki_FirstKexFollows other \<and>
     (hd (ki_KexAlgos c) \<noteq> hd (ki_KexAlgos s) \<or> hd (ki_ServerHostKeyAlgos c) \<noteq> hd (ki_ServerHostKeyAlgos s))"

subsection \<open>Lemmas\<close>

lemma has_common_iff [simp]: "has_common c server \<longleftrightarrow> c \<in> set server"
  by (induction server) auto

text \<open>The result is the first algorithm of the client that the server offers.\<close>

lemma find_loop_find: "find_loop client server = List.find (\<lambda>c. c \<in> set server) client"
  by (induction client) auto

lemma find_loop_here: "a \<in> set server \<Longrightarrow> set before \<inter> set server = {} \<Longrightarrow> find_loop (before @ a # after) server = Some a"
  by (induction before) auto

lemma find_loop_Some:
  "find_loop client server = Some a \<Longrightarrow>
   \<exists>before after. client = before @ a # after \<and> a \<in> set server \<and> set before \<inter> set server = {}"
proof (induction client)
  case (Cons c cs)
  show ?case
  proof (cases "c \<in> set server")
    case True
    then show ?thesis using Cons.prems by (rule_tac x = "[]" in exI) auto
  next
    case False
    then obtain before after where "cs = before @ a # after" "a \<in> set server" "set before \<inter> set server = {}"
      using Cons by auto
    then show ?thesis using False by (rule_tac x = "c # before" in exI) auto
  qed
qed simp

lemma findCommon_Inr:
  "findCommon what client server = Inr a \<longleftrightarrow>
     (\<exists>before after. client = before @ a # after \<and> a \<in> set server \<and> set before \<inter> set server = {})"
  using find_loop_Some [of client server a] find_loop_here [of a server]
  by (auto simp: findCommon_def split: option.split)

lemma findCommon_Inl: "(\<exists>e. findCommon what client server = Inl e) \<longleftrightarrow> set client \<inter> set server = {}"
proof -
  have "find_loop client server = None \<longleftrightarrow> set client \<inter> set server = {}" by (induction client) auto
  then show ?thesis by (auto simp: findCommon_def split: option.split)
qed

lemma bind_err_Inr: "bind_err r f = Inr y \<longleftrightarrow> (\<exists>x. r = Inr x \<and> f x = Inr y)"
  by (cases r) (simp_all add: bind_err_def)

lemma findAgreed_Inr:
  "findAgreedAlgorithms c s = Inr a \<longleftrightarrow>
     (\<exists>w1. findCommon w1 (ki_KexAlgos c) (ki_KexAlgos s) = Inr (ag_kex a))
   \<and> (\<exists>w1. findCommon w1 (ki_ServerHostKeyAlgos c) (ki_ServerHostKeyAlgos s) = Inr (ag_hostKey a))
   \<and> (\<exists>w1. findCommon w1 (ki_CiphersClientServer c) (ki_CiphersClientServer s) = Inr (da_Cipher (ag_w a)))
   \<and> (\<exists>w1. findCommon w1 (ki_CiphersServerClient c) (ki_CiphersServerClient s) = Inr (da_Cipher (ag_r a)))
   \<and> (\<exists>w1. findCommon w1 (ki_MACsClientServer c) (ki_MACsClientServer s) = Inr (da_MAC (ag_w a)))
   \<and> (\<exists>w1. findCommon w1 (ki_MACsServerClient c) (ki_MACsServerClient s) = Inr (da_MAC (ag_r a)))
   \<and> (\<exists>w1. findCommon w1 (ki_CompressionClientServer c) (ki_CompressionClientServer s) = Inr (da_Compression (ag_w a)))
   \<and> (\<exists>w1. findCommon w1 (ki_CompressionServerClient c) (ki_CompressionServerClient s) = Inr (da_Compression (ag_r a)))"
proof -
  have any: "(\<exists>w1. findCommon w1 xs ys = Inr z) \<longleftrightarrow> findCommon w xs ys = Inr z" for w xs ys z
    by (simp add: findCommon_Inr)
  show ?thesis
    unfolding findAgreedAlgorithms_def bind_err_Inr any [of _ _ _ "''key exchange''"] 
    by (cases a; cases "ag_w a"; cases "ag_r a") (auto simp: findCommon_Inr)
qed

end
