(* ===== verification/Transport.thy ===== *)
theory Transport
  imports Packet_Cipher Negotiate Wire
begin

section \<open>The transport: keys, sequence numbers and versions\<close>

text \<open>
  \<^verbatim>\<open>transport.go\<close>, the construction of the ciphers in \<^verbatim>\<open>cipher.go\<close> and the table of \<^verbatim>\<open>mac.go\<close>.  The
  cryptographic primitives are a record of functions of their keys; hashing is a function of the
  bytes written.  A key change waits in a Go channel with room for one cipher.
\<close>

subsection \<open>Primitives by key\<close>

record primitives =
  pr_AESCTR :: "bytes \<Rightarrow> bytes \<Rightarrow> nat \<Rightarrow> char"
  pr_RC4 :: "bytes \<Rightarrow> nat \<Rightarrow> char"
  pr_AESGCM :: "bytes \<Rightarrow> aead"
  pr_AES :: "bytes \<Rightarrow> block_cipher"
  pr_TripleDES :: "bytes \<Rightarrow> block_cipher"
  pr_HMACSHA256 :: "bytes \<Rightarrow> mac_hash"
  pr_HMACSHA1 :: "bytes \<Rightarrow> mac_hash"

datatype stream_kind = AESCTR | RC4 | NoStream

record streamCipherMode =
  sm_keySize :: nat
  sm_ivSize :: nat
  sm_skip :: nat
  sm_create :: stream_kind

definition cipher_mode :: "nat \<Rightarrow> nat \<Rightarrow> nat \<Rightarrow> stream_kind \<Rightarrow> streamCipherMode" where
  "cipher_mode k i s c = \<lparr>sm_keySize = k, sm_ivSize = i, sm_skip = s, sm_create = c\<rparr>"

definition cipherModes :: "string \<Rightarrow> streamCipherMode option" where
  "cipherModes = map_of [(''aes128-ctr'', cipher_mode 16 16 0 AESCTR), (''aes192-ctr'', cipher_mode 24 16 0 AESCTR),
     (''aes256-ctr'', cipher_mode 32 16 0 AESCTR), (''arcfour128'', cipher_mode 16 0 1536 RC4),
     (''arcfour256'', cipher_mode 32 0 1536 RC4), (''arcfour'', cipher_mode 16 0 0 RC4),
     (gcmCipherID, cipher_mode 16 12 0 NoStream), (aes128cbcID, cipher_mode 16 16 0 NoStream),
     (tripledescbcID, cipher_mode 24 8 0 NoStream)]"

record macMode =
  mm_keySize :: nat
  mm_etm :: bool
  mm_new :: "primitives \<Rightarrow> bytes \<Rightarrow> mac_hash"

definition macModes :: "string \<Rightarrow> macMode option" where
  "macModes = map_of [
     (''hmac-sha2-256-etm@openssh.com'', \<lparr>mm_keySize = 32, mm_etm = True, mm_new = pr_HMACSHA256\<rparr>),
     (''hmac-sha2-256'', \<lparr>mm_keySize = 32, mm_etm = False, mm_new = pr_HMACSHA256\<rparr>),
     (''hmac-sha1'', \<lparr>mm_keySize = 20, mm_etm = False, mm_new = pr_HMACSHA1\<rparr>),
     (''hmac-sha1-96'', \<lparr>mm_keySize = 20, mm_etm = False, mm_new = (\<lambda>pr k. truncatingMAC 12 (pr_HMACSHA1 pr k))\<rparr>)]"

text \<open>The first bytes of some key streams are thrown away, 512 at a time.\<close>

function dump_loop :: "nat \<Rightarrow> key_stream \<Rightarrow> key_stream" where
  "dump_loop remaining k =
     (if remaining = 0 then k
      else let n = min remaining 512 in dump_loop (remaining - n) (snd (XORKeyStream (replicate n CHR 0x00) k)))"
  by pat_completeness auto
termination
  by (relation "measure fst") auto

declare dump_loop.simps [simp del]

definition createStream :: "primitives \<Rightarrow> streamCipherMode \<Rightarrow> bytes \<Rightarrow> bytes \<Rightarrow> key_stream go" where
  "createStream pr m key iv =
     (if length key < sm_keySize m then Panic ''ssh: key length too small for cipher''
      else if length iv < sm_ivSize m then Panic ''ssh: iv too small for cipher''
      else let k = take (sm_keySize m) key; i = take (sm_ivSize m) iv in
        case sm_create m of
          AESCTR \<Rightarrow> Ret (dump_loop (sm_skip m) \<lparr>ks_byte = pr_AESCTR pr k i, ks_pos = 0\<rparr>)
        | RC4 \<Rightarrow> Ret (dump_loop (sm_skip m) \<lparr>ks_byte = pr_RC4 pr k, ks_pos = 0\<rparr>)
        | NoStream \<Rightarrow> Panic ''nil function'')"

subsection \<open>Keys from the key exchange\<close>

record kexResult =
  kr_H :: bytes
  kr_K :: bytes
  kr_HostKey :: bytes
  kr_Signature :: bytes
  kr_SessionID :: bytes
  kr_Hash :: "bytes \<Rightarrow> bytes"

text \<open>
  The loop fills \<open>n\<close> bytes, a digest in each turn; the first argument bounds the turns, and \<open>n\<close> are
  enough for digests that are not empty.
\<close>

fun key_loop :: "nat \<Rightarrow> nat \<Rightarrow> bytes \<Rightarrow> bytes \<Rightarrow> kexResult \<Rightarrow> bytes go" where
  "key_loop fuel 0 tag digestsSoFar r = Ret []"
| "key_loop 0 (Suc n) tag digestsSoFar r = Hang"
| "key_loop (Suc fuel) (Suc n) tag digestsSoFar r =
     (let digest = kr_Hash r (kr_K r @ kr_H r @ (if digestsSoFar = [] then tag @ kr_SessionID r else digestsSoFar)) in
      bind_go (key_loop fuel (Suc n - length digest) tag (digestsSoFar @ digest) r) (\<lambda>more.
        Ret (take (Suc n) digest @ more)))"

definition generateKeyMaterial :: "nat \<Rightarrow> bytes \<Rightarrow> kexResult \<Rightarrow> bytes go" where
  "generateKeyMaterial n tag r = key_loop n n tag [] r"

record direction_tags =
  dt_ivTag :: bytes
  dt_keyTag :: bytes
  dt_macKeyTag :: bytes

definition serverKeys :: direction_tags where
  "serverKeys = \<lparr>dt_ivTag = ''B'', dt_keyTag = ''D'', dt_macKeyTag = ''F''\<rparr>"

definition clientKeys :: direction_tags where
  "clientKeys = \<lparr>dt_ivTag = ''A'', dt_keyTag = ''C'', dt_macKeyTag = ''E''\<rparr>"

definition generateKeys :: "direction_tags \<Rightarrow> directionAlgorithms \<Rightarrow> kexResult \<Rightarrow> (bytes \<times> bytes \<times> bytes) go" where
  "generateKeys d algs kex =
     (case (cipherModes (da_Cipher algs), macModes (da_MAC algs)) of
        (Some cm, Some mm) \<Rightarrow>
          bind_go (generateKeyMaterial (sm_ivSize cm) (dt_ivTag d) kex) (\<lambda>iv.
          bind_go (generateKeyMaterial (sm_keySize cm) (dt_keyTag d) kex) (\<lambda>key.
          bind_go (generateKeyMaterial (mm_keySize mm) (dt_macKeyTag d) kex) (\<lambda>macKey.
            Ret (iv, key, macKey))))
      | _ \<Rightarrow> Panic ''nil pointer dereference'')"

definition newPacketCipher :: "primitives \<Rightarrow> direction_tags \<Rightarrow> directionAlgorithms \<Rightarrow> kexResult \<Rightarrow> packetCipher go" where
  "newPacketCipher pr d algs kex =
     bind_go (generateKeys d algs kex) (\<lambda>(iv, key, macKey).
       (case (cipherModes (da_Cipher algs), macModes (da_MAC algs)) of
          (Some cm, Some mm) \<Rightarrow>
            if da_Cipher algs = gcmCipherID then Ret (PGCM \<lparr>gc_aead = pr_AESGCM pr key, gc_iv = iv\<rparr>)
            else if da_Cipher algs = aes128cbcID
            then Ret (PCBC (newCBCCipher (Some (mm_new mm pr macKey)) (pr_AES pr key) iv))
            else if da_Cipher algs = tripledescbcID
            then Ret (PCBC (newCBCCipher (Some (mm_new mm pr macKey)) (pr_TripleDES pr key) iv))
            else bind_go (createStream pr cm key iv) (\<lambda>k.
              Ret (PStream \<lparr>sp_mac = Some (mm_new mm pr macKey), sp_cipher = k, sp_etm = mm_etm mm\<rparr>))
        | _ \<Rightarrow> Panic ''nil pointer dereference''))"

subsection \<open>One direction of a connection\<close>

record connectionState =
  co_cipher :: packetCipher
  co_seqNum :: u32
  co_dir :: direction_tags
  co_pendingKeyChange :: "packetCipher option"

datatype conn_err =
    CErr cipher_err
  | ErrZeroLength
  | ErrBogusNewKeys
  | ErrDisconnect "fval list"
  | ErrDisconnectParse wire_err
  | ErrFlush

definition msgDisconnect :: nat where "msgDisconnect = 1"
definition msgIgnore :: nat where "msgIgnore = 2"
definition msgDebug :: nat where "msgDebug = 4"
definition msgNewKeys :: nat where "msgNewKeys = 21"

definition msg_type :: "bytes \<Rightarrow> nat option" where
  "msg_type p = (case p of [] \<Rightarrow> None | c # _ \<Rightarrow> Some (of_char c))"

text \<open>\<open>connectionState.readPacket\<close>: what the packet means, once the cipher has given it.\<close>

definition conn_received :: "cipher_err + bytes \<Rightarrow> connectionState \<Rightarrow> (conn_err + bytes) \<times> connectionState" where
  "conn_received res s =
     (case res of
        Inl e \<Rightarrow> (Inl (CErr e), s)
      | Inr p \<Rightarrow>
          (if p = [] then (Inl ErrZeroLength, s)
           else if msg_type p = Some msgNewKeys then
             (case co_pendingKeyChange s of
                Some c \<Rightarrow> (Inr p, s\<lparr>co_cipher := c, co_pendingKeyChange := None\<rparr>)
              | None \<Rightarrow> (Inl ErrBogusNewKeys, s))
           else if msg_type p = Some msgDisconnect then
             (case Unmarshal disconnectMsg p of
                Inl e \<Rightarrow> (Inl (ErrDisconnectParse e), s)
              | Inr vs \<Rightarrow> (Inl (ErrDisconnect vs), s))
           else (Inr p, s)))"

definition conn_readPacket :: "bytes \<Rightarrow> connectionState \<Rightarrow> ((conn_err + bytes) \<times> bytes \<times> connectionState) go" where
  "conn_readPacket r s =
     bind_go (cipher_readPacket (co_seqNum s) r (co_cipher s)) (\<lambda>(res, r', c).
       (case conn_received res (s\<lparr>co_cipher := c, co_seqNum := co_seqNum s + 1\<rparr>) of (res', s') \<Rightarrow> Ret (res', r', s')))"

text \<open>\<open>connectionState.writePacket\<close>; \<open>flushed\<close> says whether the buffered bytes reached the connection.\<close>

definition conn_writePacket :: "bool \<Rightarrow> bytes \<Rightarrow> bytes \<Rightarrow> connectionState
    \<Rightarrow> (conn_err option \<times> bytes \<times> bytes \<times> connectionState) go" where
  "conn_writePacket flushed rand packet s =
     bind_go (cipher_writePacket (co_seqNum s) rand packet (co_cipher s)) (\<lambda>(e, out, rand', c).
       let s1 = s\<lparr>co_cipher := c\<rparr> in
       case e of
         Some err \<Rightarrow> Ret (Some (CErr err), out, rand', s1)
       | None \<Rightarrow>
           if \<not> flushed then Ret (Some ErrFlush, [], rand', s1)
           else let s2 = s1\<lparr>co_seqNum := co_seqNum s + 1\<rparr> in
             if msg_type packet = Some msgNewKeys then
               (case co_pendingKeyChange s of
                  Some c' \<Rightarrow> Ret (None, out, rand', s2\<lparr>co_cipher := c', co_pendingKeyChange := None\<rparr>)
                | None \<Rightarrow> Panic ''ssh: no key material for msgNewKeys'')
             else Ret (None, out, rand', s2))"

subsection \<open>The transport\<close>

record transport =
  tp_reader :: connectionState
  tp_writer :: connectionState
  tp_isClient :: bool

definition plain_state :: "direction_tags \<Rightarrow> connectionState" where
  "plain_state d = \<lparr>co_cipher = PStream \<lparr>sp_mac = None, sp_cipher = noneCipher, sp_etm = False\<rparr>,
     co_seqNum = 0, co_dir = d, co_pendingKeyChange = None\<rparr>"

definition newTransport :: "bool \<Rightarrow> transport" where
  "newTransport isClient =
     \<lparr>tp_reader = plain_state (if isClient then serverKeys else clientKeys),
      tp_writer = plain_state (if isClient then clientKeys else serverKeys), tp_isClient = isClient\<rparr>"

text \<open>A send to the channel of a key change that is still full waits: Hang when nobody takes it.\<close>

definition put_pending :: "packetCipher \<Rightarrow> connectionState \<Rightarrow> connectionState go" where
  "put_pending c s = (if co_pendingKeyChange s = None then Ret (s\<lparr>co_pendingKeyChange := Some c\<rparr>) else Hang)"

definition prepareKeyChange :: "primitives \<Rightarrow> algorithms \<Rightarrow> kexResult \<Rightarrow> transport \<Rightarrow> transport go" where
  "prepareKeyChange pr algs kex t =
     bind_go (newPacketCipher pr (co_dir (tp_reader t)) (ag_r algs) kex) (\<lambda>cr.
     bind_go (put_pending cr (tp_reader t)) (\<lambda>r.
     bind_go (newPacketCipher pr (co_dir (tp_writer t)) (ag_w algs) kex) (\<lambda>cw.
     bind_go (put_pending cw (tp_writer t)) (\<lambda>w.
       Ret (t\<lparr>tp_reader := r, tp_writer := w\<rparr>)))))"

text \<open>
  \<open>transport.readPacket\<close> passes over ignored and debug messages.  Every packet takes at least one
  byte from the connection, so that one more turn than bytes is enough.
\<close>

fun skip_loop :: "nat \<Rightarrow> bytes \<Rightarrow> connectionState \<Rightarrow> ((conn_err + bytes) \<times> bytes \<times> connectionState) go" where
  "skip_loop 0 r s = Hang"
| "skip_loop (Suc n) r s =
     bind_go (conn_readPacket r s) (\<lambda>(res, r', s').
       case res of
         Inl e \<Rightarrow> Ret (Inl e, r', s')
       | Inr p \<Rightarrow> if msg_type p = Some msgIgnore \<or> msg_type p = Some msgDebug then skip_loop n r' s'
                  else Ret (Inr p, r', s'))"

definition transport_readPacket :: "bytes \<Rightarrow> transport \<Rightarrow> ((conn_err + bytes) \<times> bytes \<times> transport) go" where
  "transport_readPacket r t =
     bind_go (skip_loop (Suc (length r)) r (tp_reader t)) (\<lambda>(res, r', s). Ret (res, r', t\<lparr>tp_reader := s\<rparr>))"

definition transport_writePacket :: "bool \<Rightarrow> bytes \<Rightarrow> bytes \<Rightarrow> transport
    \<Rightarrow> (conn_err option \<times> bytes \<times> bytes \<times> transport) go" where
  "transport_writePacket flushed rand p t =
     bind_go (conn_writePacket flushed rand p (tp_writer t)) (\<lambda>(e, out, rand', s). Ret (e, out, rand', t\<lparr>tp_writer := s\<rparr>))"

subsection \<open>Versions\<close>

definition maxVersionStringBytes :: nat where "maxVersionStringBytes = 255"

datatype version_err = ErrJunkCharacter | ErrVersionEOF | ErrVersionOverflow | ErrVersionWrite

text \<open>The loop over single bytes, with the bytes read so far; \<open>n\<close> is the room left.\<close>

fun version_loop :: "nat \<Rightarrow> bytes \<Rightarrow> bytes \<Rightarrow> (version_err + bytes) \<times> bytes" where
  "version_loop 0 acc r = (Inl ErrVersionOverflow, r)"
| "version_loop (Suc n) acc [] = (Inl ErrVersionEOF, [])"
| "version_loop (Suc n) acc (c # r) = (if c = CHR 0x0A then (Inr acc, r) else version_loop n (acc @ [c]) r)"

definition readVersion :: "bytes \<Rightarrow> (version_err + bytes) \<times> bytes" where
  "readVersion r =
     (case version_loop maxVersionStringBytes [] r of
        (Inl e, r') \<Rightarrow> (Inl e, r')
      | (Inr v, r') \<Rightarrow> (Inr (if v \<noteq> [] \<and> last v = CHR 0x0D then butlast v else v), r'))"

definition exchangeVersions :: "bool \<Rightarrow> bytes \<Rightarrow> bytes \<Rightarrow> (version_err + bytes) \<times> bytes \<times> bytes" where
  "exchangeVersions written versionLine r =
     (if \<exists>c \<in> set versionLine. of_char c < (32 :: nat) then (Inl ErrJunkCharacter, [], r)
      else if \<not> written then (Inl ErrVersionWrite, [], r)
      else (case readVersion r of (res, r') \<Rightarrow> (res, versionLine @ [CHR 0x0D, CHR 0x0A], r')))"

end
