(* ===== verification/Packet_Link.thy ===== *)
theory Packet_Link
  imports Packet_Cipher
begin

section \<open>Interface: a cipher of packets\<close>

text \<open>
  The contract between the two ends of one direction of a connection, for any way of putting a
  packet on the wire: when the writer's and the reader's cipher are in step, a packet that is
  written is the packet that is read, the bytes behind it are untouched, and the two are in step
  again.  The lemmas of the locale carry this over to any sequence of packets, with the sequence
  numbers the two ends count for themselves, modulo \<open>2^32\<close>.
\<close>

locale packet_link =
  fixes wr :: "u32 \<Rightarrow> bytes \<Rightarrow> bytes \<Rightarrow> 'c \<Rightarrow> (cipher_err option \<times> bytes \<times> bytes \<times> 'c) go"
    and rd :: "u32 \<Rightarrow> bytes \<Rightarrow> 'c \<Rightarrow> ((cipher_err + bytes) \<times> bytes \<times> 'c) go"
    and in_step :: "'c \<Rightarrow> 'c \<Rightarrow> bool"
    and fits :: "'c \<Rightarrow> bytes \<Rightarrow> bool"
  assumes link_law: "in_step w r \<Longrightarrow> fits w p \<Longrightarrow> wr n rand p w = Ret (None, out, rand', w') \<Longrightarrow>
      \<exists>r'. in_step w' r' \<and> (\<forall>later. rd n (out @ later) r = Ret (Inr p, later, r'))"
    and progress_law: "in_step w r \<Longrightarrow> fits w p \<Longrightarrow> 19 \<le> length rand \<Longrightarrow>
      \<exists>k out w'. wr n rand p w = Ret (None, out, drop k rand, w') \<and> k \<le> 19"
    and fits_law: "fits w p \<Longrightarrow> wr n rand p w = Ret (None, out, rand', w') \<Longrightarrow> fits w' q = fits w q"
begin

fun write_all :: "u32 \<Rightarrow> bytes \<Rightarrow> bytes list \<Rightarrow> 'c \<Rightarrow> (bytes \<times> 'c) option" where
  "write_all n rand [] w = Some ([], w)"
| "write_all n rand (p # ps) w =
     (case wr n rand p w of
        Ret (None, out, rand', w') \<Rightarrow>
          (case write_all (n + 1) rand' ps w' of Some (outs, w'') \<Rightarrow> Some (out @ outs, w'') | None \<Rightarrow> None)
      | _ \<Rightarrow> None)"

fun read_all :: "nat \<Rightarrow> u32 \<Rightarrow> bytes \<Rightarrow> 'c \<Rightarrow> (bytes list \<times> bytes \<times> 'c) option" where
  "read_all 0 n r c = Some ([], r, c)"
| "read_all (Suc k) n r c =
     (case rd n r c of
        Ret (Inr p, r', c') \<Rightarrow>
          (case read_all k (n + 1) r' c' of Some (ps, r'', c'') \<Rightarrow> Some (p # ps, r'', c'') | None \<Rightarrow> None)
      | _ \<Rightarrow> None)"

lemma all_delivered:
  "in_step w r \<Longrightarrow> (\<forall>p \<in> set ps. fits w p) \<Longrightarrow> write_all n rand ps w = Some (out, w') \<Longrightarrow>
   \<exists>r'. read_all (length ps) n (out @ later) r = Some (ps, later, r') \<and> in_step w' r'"
proof (induction ps arbitrary: n rand w r out)
  case (Cons p ps)
  obtain o1 rand1 w1 outs where w1: "wr n rand p w = Ret (None, o1, rand1, w1)"
      and w2: "write_all (n + 1) rand1 ps w1 = Some (outs, w')" and out: "out = o1 @ outs"
    using Cons.prems(3) by (auto split: go.split_asm option.split_asm prod.split_asm)
  have f: "fits w p" "\<forall>q \<in> set ps. fits w1 q"
    using Cons.prems(2) fits_law [OF _ w1] by simp_all
  obtain r1 where r1: "rd n (o1 @ outs @ later) r = Ret (Inr p, outs @ later, r1)" "in_step w1 r1"
    using link_law [OF Cons.prems(1) f(1) w1] by blast
  obtain r' where "read_all (length ps) (n + 1) (outs @ later) r1 = Some (ps, later, r')" "in_step w' r'"
    using Cons.IH [OF r1(2) f(2) w2] by blast
  with r1(1) show ?case by (auto simp: out)
qed simp

text \<open>With enough random bytes for the padding, the writer never fails on packets that fit.\<close>

lemma all_written:
  "in_step w r \<Longrightarrow> (\<forall>p \<in> set ps. fits w p) \<Longrightarrow> 19 * length ps \<le> length rand \<Longrightarrow>
   \<exists>out w'. write_all n rand ps w = Some (out, w')"
proof (induction ps arbitrary: n rand w r)
  case (Cons p ps)
  obtain o1 k w1 where w1: "wr n rand p w = Ret (None, o1, drop k rand, w1)" "k \<le> 19"
    using progress_law [OF Cons.prems(1), of p rand n] Cons.prems(2,3) by auto
  obtain r1 where "in_step w1 r1" using link_law [OF Cons.prems(1) _ w1(1)] Cons.prems(2) by auto
  moreover have "\<forall>q \<in> set ps. fits w1 q" using Cons.prems(2) fits_law [OF _ w1(1)] by simp
  ultimately obtain out w' where "write_all (n + 1) (drop k rand) ps w1 = Some (out, w')"
    using Cons.IH [of w1 r1 "drop k rand" "n + 1"] Cons.prems(3) w1(2) by fastforce
  then show ?case using w1(1) by simp
qed simp

text \<open>Cutting the bytes anywhere: a reader that has consumed some packets goes on with the rest.\<close>

lemma read_all_add:
  "read_all (j + k) n r c =
     (case read_all j n r c of
        None \<Rightarrow> None
      | Some (ps, r', c') \<Rightarrow>
          (case read_all k (n + word_of_nat j) r' c' of
             None \<Rightarrow> None | Some (qs, r'', c'') \<Rightarrow> Some (ps @ qs, r'', c'')))"
proof (induction j arbitrary: n r c)
  case (Suc j)
  show ?case
    by (auto simp: Suc ac_simps split: go.split option.split prod.split sum.split)
qed (auto split: option.split)

end

end
