(* ===== verification/Packet_Cipher_Proofs.thy ===== *)
theory Packet_Cipher_Proofs
  imports Packet_Link
begin

section \<open>Every cipher of the library keeps the contract\<close>

text \<open>
  The laws of the key stream and of the chaining of blocks, the interpretation of the packet
  interface for the three kinds of cipher, what it means for a packet to be accepted, the cases in
  which AES-GCM panics, and the nonces of AES-GCM.
\<close>

unbundle bit_operations_syntax

subsection \<open>The key stream\<close>

lemma xor_byte_self [simp]: "xor_byte (xor_byte a b) b = a"
proof -
  have "(take_bit 8 ((of_char a :: nat) XOR of_char b)) XOR of_char b = take_bit 8 ((of_char a XOR of_char b) XOR of_char b)"
    using take_bit_xor [of 8 "(of_char a :: nat) XOR of_char b" "of_char b"]
    by (simp add: take_bit_eq_mod)
  then have "char_of (of_char (char_of ((of_char a :: nat) XOR of_char b)) XOR (of_char b :: nat)) = a"
    by (simp add: take_bit_eq_mod xor.assoc)
  then show ?thesis by (simp add: xor_byte_def)
qed

lemma length_xor_bytes [simp]: "length (xor_bytes xs ys) = min (length xs) (length ys)"
  by (simp add: xor_bytes_def)

lemma xor_bytes_self: "length xs \<le> length ys \<Longrightarrow> xor_bytes (xor_bytes xs ys) ys = xs"
  by (rule nth_equalityI) (simp_all add: xor_bytes_def)

lemma XORKeyStream_length [simp]: "length (fst (XORKeyStream x k)) = length x"
  by (simp add: XORKeyStream_def)

text \<open>Two ends at the same place of the same key stream: what one encrypts the other decrypts.\<close>

lemma XORKeyStream_undo:
  "XORKeyStream x k = (y, k') \<Longrightarrow> XORKeyStream y k = (x, k') \<and> length y = length x"
  by (auto simp: XORKeyStream_def xor_bytes_self)

lemma XORKeyStream_append:
  "XORKeyStream x k = (y, k1) \<Longrightarrow> XORKeyStream x' k1 = (y', k2) \<Longrightarrow> XORKeyStream (x @ x') k = (y @ y', k2)"
proof -
  assume a: "XORKeyStream x k = (y, k1)" "XORKeyStream x' k1 = (y', k2)"
  have "[ks_pos k ..< ks_pos k + (length x + length x')] =
      [ks_pos k ..< ks_pos k + length x] @ [ks_pos k + length x ..< ks_pos k + length x + length x']"
    using upt_add_eq_append [of "ks_pos k" "ks_pos k + length x" "length x'"] by (simp only: add.assoc le_add1 simp_thms)
  with a show ?thesis by (auto simp: XORKeyStream_def xor_bytes_def zip_append)
qed

lemma crypt_prefix_undo:
  assumes "crypt_prefix etm p k = (c, k')" and "length p = 5"
  shows "crypt_prefix etm c k = (p, k') \<and> length c = 5 \<and> (etm \<longrightarrow> take 4 c = take 4 p)"
proof (cases etm)
  case True
  obtain x where x: "XORKeyStream (drop 4 p) k = (x, k')" "c = take 4 p @ x"
    using assms(1) True by (auto simp: crypt_prefix_def split: prod.split_asm)
  then have "XORKeyStream x k = (drop 4 p, k')" "length x = 1"
    using XORKeyStream_undo [OF x(1)] assms(2) by simp_all
  then show ?thesis using True x(2) assms(2) by (simp add: crypt_prefix_def)
next
  case False
  then show ?thesis using assms XORKeyStream_undo [of p k c k'] by (simp add: crypt_prefix_def)
qed

subsection \<open>Stream ciphers\<close>

text \<open>The hypothesis on an authentication code: its size is what it says.\<close>

definition mac_ok :: "mac_hash option \<Rightarrow> bool" where
  "mac_ok m \<longleftrightarrow> (\<forall>x. length (mac_of m x) = mac_size m) \<and> mac_size m < 2 ^ 31"

lemma stream_padding_bounds: "4 \<le> stream_padding etm n" "stream_padding etm n \<le> 19"
proof -
  have "(prefixLen + n - a) mod packetSizeMultiple < 16" for a by (simp add: packetSizeMultiple_def)
  from this [of 4] this [of 0] show "4 \<le> stream_padding etm n" "stream_padding etm n \<le> 19"
    by (auto simp: stream_padding_def Let_def packetSizeMultiple_def)
qed

text \<open>The largest packet that the other side takes.\<close>

definition stream_fits :: "streamPacketCipher \<Rightarrow> bytes \<Rightarrow> bool" where
  "stream_fits s p \<longleftrightarrow> p \<noteq> [] \<and> length p + 1 + stream_padding (encrypt_then_mac s) (length p) \<le> maxPacket"

definition stream_in_step :: "streamPacketCipher \<Rightarrow> streamPacketCipher \<Rightarrow> bool" where
  "stream_in_step w r \<longleftrightarrow> w = r \<and> mac_ok (sp_mac w)"

text \<open>The header of a packet, as the reader takes it apart.\<close>

definition header :: "nat \<Rightarrow> nat \<Rightarrow> bytes" where
  "header len pad = PutUint32 (word_of_nat len) @ [char_of pad]"

lemma header_simps [simp]:
  "length (header len pad) = 5" "Uint32 (header len pad @ x) = word_of_nat len" "Uint32 (header len pad) = word_of_nat len"
  "of_char ((header len pad @ x) ! 4) = (word_of_nat (pad mod 256) :: u32)"
  "of_char ((header len pad @ x) ! 4) = pad mod 256"
  "of_char (header len pad ! 4) = (word_of_nat (pad mod 256) :: u32)"
  using of_nat_of_char [of "char_of pad", where ?'a = u32]
  by (simp_all add: header_def nth_append)

lemma small_words:
  assumes "len \<le> maxPacket" "pad + 1 < len"
  shows "\<not> (word_of_nat len :: u32) \<le> word_of_nat pad + 1" "unat (word_of_nat len :: u32) = len"
    "unat (word_of_nat len - 1 :: u32) = len - 1"
    "unat (word_of_nat len - word_of_nat pad - 1 :: u32) = len - pad - 1"
proof -
  have b: "len < 2 ^ 32" using assms(1) by (simp add: maxPacket_def)
  have e: "(word_of_nat len - 1 :: u32) = word_of_nat (len - 1)"
      "(word_of_nat len - word_of_nat pad - 1 :: u32) = word_of_nat (len - pad - 1)"
      "(word_of_nat pad + 1 :: u32) = word_of_nat (pad + 1)"
    using assms(2) by (simp_all add: of_nat_diff)
  show "unat (word_of_nat len :: u32) = len" "unat (word_of_nat len - 1 :: u32) = len - 1"
      "unat (word_of_nat len - word_of_nat pad - 1 :: u32) = len - pad - 1"
    using b unfolding e by (simp_all add: unat_of_nat_eq)
  show "\<not> (word_of_nat len :: u32) \<le> word_of_nat pad + 1"
    using b assms(2) unfolding e word_le_nat_alt by (simp add: unat_of_nat_eq del: of_nat_add of_nat_Suc)
qed

lemma stream_write_parts:
  assumes "stream_writePacket n rand p s = (None, out, rand', s')"
  obtains padding cpre cpacket cpadding k1 k2 k3 where
    "length p \<le> maxPacket" "length padding = stream_padding (encrypt_then_mac s) (length p)"
    "crypt_prefix (encrypt_then_mac s) (header (length p + 1 + length padding) (length padding)) (sp_cipher s) = (cpre, k1)"
    "XORKeyStream (p @ padding) k1 = (cpacket @ cpadding, k3)"
    "out = cpre @ cpacket @ cpadding @ mac_of (sp_mac s) (PutUint32 n @
       (if encrypt_then_mac s then cpre @ cpacket @ cpadding
        else header (length p + 1 + length padding) (length padding) @ p @ padding))"
    "s' = s\<lparr>sp_cipher := k3\<rparr>"
proof -
  let ?etm = "encrypt_then_mac s" and ?pad = "stream_padding (encrypt_then_mac s) (length p)"
  have l: "length p \<le> maxPacket" "?pad \<le> length rand"
    using assms by (auto simp: stream_writePacket_def Let_def ReadFull_def split: if_split_asm)
  obtain cpre k1 where c: "crypt_prefix ?etm (header (length p + 1 + ?pad) ?pad) (sp_cipher s) = (cpre, k1)" by fastforce
  obtain cpacket k2 where x: "XORKeyStream p k1 = (cpacket, k2)" by fastforce
  obtain cpadding k3 where y: "XORKeyStream (take ?pad rand) k2 = (cpadding, k3)" by fastforce
  have len: "length (take ?pad rand) = ?pad" using l by simp
  show thesis
    by (rule that [of "take ?pad rand" cpre k1 cpacket cpadding k3])
      (use l c x y assms XORKeyStream_append [OF x y] in
        \<open>auto simp: stream_writePacket_def Let_def ReadFull_def header_def min_absorb2\<close>)
qed

lemma stream_link:
  assumes "mac_ok (sp_mac s)" "stream_fits s p"
    and w: "stream_writePacket n rand p s = (None, out, rand', s')"
  shows "stream_readPacket n (out @ later) s = (Inr p, later, s')"
    "encrypt_then_mac s' = encrypt_then_mac s" "sp_mac s' = sp_mac s"
proof -
  let ?etm = "encrypt_then_mac s"
  from w obtain padding cpre cpacket cpadding k1 k2 k3 where
    parts: "length padding = stream_padding ?etm (length p)"
      "crypt_prefix ?etm (header (length p + 1 + length padding) (length padding)) (sp_cipher s) = (cpre, k1)"
      "XORKeyStream (p @ padding) k1 = (cpacket @ cpadding, k3)"
      "s' = s\<lparr>sp_cipher := k3\<rparr>"
    and out: "out = cpre @ cpacket @ cpadding @ mac_of (sp_mac s) (PutUint32 n @
       (if ?etm then cpre @ cpacket @ cpadding
        else header (length p + 1 + length padding) (length padding) @ p @ padding))"
    by (rule stream_write_parts)
  let ?len = "length p + 1 + length padding" and ?c = "cpacket @ cpadding"
  define tag where "tag = mac_of (sp_mac s) (PutUint32 n @ (if ?etm then cpre @ ?c else header ?len (length padding) @ p @ padding))"
  have out': "out = cpre @ ?c @ tag" by (simp add: out tag_def)
  have tl: "length tag = mac_size (sp_mac s)" using assms(1) by (simp add: tag_def mac_ok_def)
  have pre: "crypt_prefix ?etm cpre (sp_cipher s) = (header ?len (length padding), k1)" "length cpre = 5"
    using crypt_prefix_undo [OF parts(2)] by simp_all
  have data: "XORKeyStream ?c k1 = (p @ padding, k3)" and cl: "length ?c = length p + length padding"
    using XORKeyStream_undo [OF parts(3)] by simp_all
  have pb: "length padding \<le> 19" "4 \<le> length padding" using stream_padding_bounds [of _ "length p"] by (simp_all add: parts(1))
  have "?len \<le> maxPacket" "length padding + 1 < ?len" using assms(2) by (auto simp: stream_fits_def parts(1))
  note sw = small_words [OF this]
  have m: "length padding mod 256 = length padding" using pb by simp
  have rest: "ReadFull (?len - 1 + mac_size (sp_mac s)) (?c @ tag @ later) = Some (?c @ tag, later)"
    using cl tl by (simp add: ReadFull_def)
  have tk: "take (?len - 1) (?c @ tag) = ?c" "drop (?len - 1) (?c @ tag) = tag" using cl by simp_all
  have first: "ReadFull prefixLen (out @ later) = Some (cpre, ?c @ tag @ later)"
    using pre(2) by (simp add: ReadFull_def out' prefixLen_def)
  have nl: "\<not> maxPacket < ?len" using \<open>?len \<le> maxPacket\<close> by simp
  show "stream_readPacket n (out @ later) s = (Inr p, later, s')"
    unfolding stream_readPacket_def first option.case prod.case Let_def pre(1) header_simps m sw(2,3) rest tk data
    using sw(1,4) nl by (simp add: tag_def parts(4))
  show "encrypt_then_mac s' = ?etm" "sp_mac s' = sp_mac s" by (simp_all add: parts(4) encrypt_then_mac_def)
qed

subsection \<open>AES-GCM\<close>

text \<open>
  The hypothesis on the authenticated cipher: it opens what it sealed, and a sealed text is
  sixteen bytes longer.
\<close>

definition aead_ok :: "aead \<Rightarrow> bool" where
  "aead_ok a \<longleftrightarrow> (\<forall>n p d. ae_Open a n (ae_Seal a n p d) d = Some p)
     \<and> (\<forall>n c p d. ae_Open a n c d = Some p \<longrightarrow> length c = length p + gcmTagSize)"

lemma aead_okD:
  assumes "aead_ok a"
  shows "ae_Open a n (ae_Seal a n p d) d = Some p" "length (ae_Seal a n p d) = length p + gcmTagSize"
    "ae_Open a n c d = Some p \<Longrightarrow> length c = length p + gcmTagSize"
  using assms unfolding aead_ok_def by blast+

lemma gcm_padding_bounds: "4 \<le> gcm_padding n" "gcm_padding n \<le> 19"
proof -
  have "(1 + n) mod packetSizeMultiple < 16" by (simp add: packetSizeMultiple_def)
  then show "4 \<le> gcm_padding n" "gcm_padding n \<le> 19"
    by (auto simp: gcm_padding_def Let_def packetSizeMultiple_def)
qed

definition gcm_fits :: "gcmCipher \<Rightarrow> bytes \<Rightarrow> bool" where
  "gcm_fits c p \<longleftrightarrow> p \<noteq> [] \<and> length p + gcm_padding (length p) + 1 \<le> maxPacket"

definition gcm_in_step :: "gcmCipher \<Rightarrow> gcmCipher \<Rightarrow> bool" where
  "gcm_in_step w r \<longleftrightarrow> w = r \<and> aead_ok (gc_aead w)"

lemma gcm_link:
  assumes ok: "aead_ok (gc_aead c)" and fits: "gcm_fits c p"
    and w: "gcm_writePacket n rand p c = Ret (None, out, rand', c')"
  shows "gcm_readPacket n (out @ later) c = Ret (Inr p, later, c')" "gc_aead c' = gc_aead c"
proof -
  define pad where "pad = take (gcm_padding (length p)) rand"
  let ?len = "length p + gcm_padding (length p) + 1"
  have l: "gcm_padding (length p) \<le> length rand"
    using w by (auto simp: gcm_writePacket_def Let_def ReadFull_def split: if_split_asm)
  then have pl: "length pad = gcm_padding (length p)" by (simp add: pad_def)
  define plain where "plain = char_of (length pad) # p @ pad"
  let ?pre = "PutUint32 (word_of_nat (length plain))"
  define ct where "ct = ae_Seal (gc_aead c) (gc_iv c) plain ?pre"
  have ln: "length plain = ?len" by (simp add: plain_def pl)
  have o: "out = ?pre @ ct" and c': "c' = incIV c"
    using w l unfolding gcm_writePacket_def Let_def ReadFull_def
    by (auto simp: ct_def ln plain_def pl pad_def split: if_split_asm)
  have pb: "4 \<le> length pad" "length pad \<le> 19" using gcm_padding_bounds [of "length p"] by (simp_all add: pl)
  have mx: "length plain \<le> maxPacket" "0 < length p" using fits by (simp_all add: gcm_fits_def ln)
  then have u: "unat (word_of_nat (length plain) :: u32) = length plain" by (simp add: maxPacket_def unat_of_nat_eq)
  have "(word_of_nat (length plain) - word_of_nat (length pad) :: u32) = word_of_nat (length p + 1)"
    by (simp add: plain_def)
  then have hi: "unat (word_of_nat (length plain) - word_of_nat (length pad) :: u32) = length p + 1"
    using mx(1) ln by (simp only:) (simp add: maxPacket_def unat_of_nat_eq del: of_nat_add of_nat_Suc)
  have ctl: "length ct = length plain + gcmTagSize" using aead_okD(2) [OF ok] by (simp add: ct_def)
  have r1: "ReadFull 4 (out @ later) = Some (?pre, ct @ later)" by (simp add: ReadFull_def o)
  have r2: "ReadFull (length plain + gcmTagSize) (ct @ later) = Some (ct, later)" using ctl by (simp add: ReadFull_def)
  have op: "ae_Open (gc_aead c) (gc_iv c) ct ?pre = Some plain" using aead_okD(1) [OF ok] by (simp add: ct_def)
  have h: "of_char (hd plain) = length pad" "plain \<noteq> []" "drop 1 (take (length p + 1) plain) = p"
    using pb by (simp_all add: plain_def)
  have v: "Uint32 ?pre = word_of_nat (length plain)" using Uint32_PutUint32 [of _ "[]"] by simp
  show "gcm_readPacket n (out @ later) c = Ret (Inr p, later, c')"
    unfolding gcm_readPacket_def r1 option.case prod.case Let_def v u r2 op h(1) hi
    using mx pb h(2,3) by (simp add: c' ln pl)
  show "gc_aead c' = gc_aead c" by (simp add: c' incIV_def)
qed

subsection \<open>CBC\<close>

text \<open>The hypothesis on the block cipher: it decrypts the blocks it encrypted; blocks have 8 or 16 bytes.\<close>

definition block_ok :: "block_cipher \<Rightarrow> bool" where
  "block_ok b \<longleftrightarrow> bc_Size b \<in> {8, 16} \<and>
     (\<forall>x. length x = bc_Size b \<longrightarrow> length (bc_Encrypt b x) = bc_Size b
       \<and> length (bc_Decrypt b x) = bc_Size b \<and> bc_Decrypt b (bc_Encrypt b x) = x)"

lemma block_ok_size: "block_ok b \<Longrightarrow> bc_Size b \<in> {8, 16}"
  by (simp add: block_ok_def)

lemma block_ok_pos: "block_ok b \<Longrightarrow> 0 < bc_Size b"
  by (auto simp: block_ok_def)

lemma blocks_undo:
  assumes ok: "block_ok b" and "encrypt_blocks b iv src = (ct, iv')" "length iv = bc_Size b" "bc_Size b dvd length src"
  shows "decrypt_blocks b iv ct = (src, iv') \<and> length ct = length src \<and> length iv' = bc_Size b"
  using assms
proof (induction "length src" arbitrary: iv src ct rule: less_induct)
  case less
  let ?B = "bc_Size b"
  show ?case
  proof (cases "src = []")
    case True
    then show ?thesis using less.prems by (auto simp: encrypt_blocks.simps [of b iv "[]"] decrypt_blocks.simps [of b _ "[]"])
  next
    case False
    have B: "0 < ?B" "?B \<le> length src" using block_ok_pos [OF ok] less.prems(4) False by (auto dest: dvd_imp_le)
    define x where "x = xor_bytes (take ?B src) iv"
    define c where "c = bc_Encrypt b x"
    have "length x = ?B" using B less.prems(3) by (simp add: x_def)
    then have c: "length c = ?B" "bc_Decrypt b c = x" using ok by (auto simp: block_ok_def c_def)
    have xx: "xor_bytes x iv = take ?B src" using less.prems(3) by (simp add: x_def xor_bytes_self)
    obtain cs where cs: "encrypt_blocks b c (drop ?B src) = (cs, iv')" "ct = c @ cs"
      using less.prems(2) False B(1)
      by (auto simp: encrypt_blocks.simps [of b iv src] Let_def c_def x_def split: prod.split_asm)
    have "decrypt_blocks b c cs = (drop ?B src, iv') \<and> length cs = length (drop ?B src) \<and> length iv' = ?B"
      using less.hyps [OF _ ok cs(1) c(1)] less.prems(4) B by simp
    moreover have "c \<noteq> []" using B(1) c(1) by auto
    ultimately show ?thesis using B c xx
      by (simp add: decrypt_blocks.simps [of b iv "c @ cs"] cs(2) Let_def)
  qed
qed

lemma encrypt_append:
  assumes ok: "block_ok b" and "bc_Size b dvd length xs"
  shows "encrypt_blocks b iv (xs @ ys) =
    (case encrypt_blocks b iv xs of (p, iv1) \<Rightarrow> case encrypt_blocks b iv1 ys of (q, iv2) \<Rightarrow> (p @ q, iv2))"
  using assms(2)
proof (induction "length xs" arbitrary: iv xs rule: less_induct)
  case less
  let ?B = "bc_Size b"
  show ?case
  proof (cases "xs = []")
    case True
    then show ?thesis by (simp add: encrypt_blocks.simps [of b iv "[]"])
  next
    case False
    have B: "0 < ?B" "?B \<le> length xs" using block_ok_pos [OF ok] less.prems False by (auto dest: dvd_imp_le)
    have "encrypt_blocks b c (drop ?B xs @ ys) =
        (case encrypt_blocks b c (drop ?B xs) of (p, iv1) \<Rightarrow>
          case encrypt_blocks b iv1 ys of (q, iv2) \<Rightarrow> (p @ q, iv2))" for c
      using less.hyps [of "drop ?B xs" c] less.prems B by simp
    with False B show ?thesis
      by (simp add: encrypt_blocks.simps [of b iv "xs @ ys"] encrypt_blocks.simps [of b iv xs] Let_def split: prod.split)
  qed
qed

lemma cbc_length_facts:
  assumes "B \<in> {8, 16}"
  shows "9 + n \<le> cbc_enc_length B n" "cbc_enc_length B n \<le> 9 + n + 15" "B dvd cbc_enc_length B n" "16 \<le> cbc_enc_length B n"
proof -
  have e: "cbc_enc_length B n = (9 + n + B - 1) div B * B"
    using assms by (auto simp: cbc_enc_length_def Let_def prefixLen_def cbcMinPaddingSize_def cbcMinPacketSizeMultiple_def)
  have "(9 + n + B - 1) div B * B + (9 + n + B - 1) mod B = 9 + n + B - 1" "(9 + n + B - 1) mod B < B"
    using assms by auto
  then show a: "9 + n \<le> cbc_enc_length B n" "cbc_enc_length B n \<le> 9 + n + 15" using assms unfolding e by auto
  show d: "B dvd cbc_enc_length B n" by (simp add: e)
  then obtain k where k: "cbc_enc_length B n = B * k" by (auto simp: dvd_def)
  have "k \<noteq> 0" "k = 1 \<longrightarrow> B = 16" using a(1) assms k by (auto intro!: notI)
  then have "16 \<le> B * k" using assms by (cases "k = 1") auto
  then show "16 \<le> cbc_enc_length B n" by (simp add: k)
qed

definition cbc_fits :: "cbcCipher \<Rightarrow> bytes \<Rightarrow> bool" where
  "cbc_fits c p \<longleftrightarrow> p \<noteq> [] \<and> cbc_enc_length (bc_Size (cb_block c)) (length p) - 4 \<le> maxPacket"

definition cbc_in_step :: "cbcCipher \<Rightarrow> cbcCipher \<Rightarrow> bool" where
  "cbc_in_step w r \<longleftrightarrow> cb_mac w = cb_mac r \<and> cb_block w = cb_block r \<and> cb_encrypter w = cb_decrypter r
     \<and> mac_ok (cb_mac w) \<and> block_ok (cb_block w) \<and> length (cb_encrypter w) = bc_Size (cb_block w)"

lemma cbc_header_ok:
  assumes "B \<in> {8, 16}" "0 < n" "cbc_enc_length B n - 4 \<le> maxPacket"
  shows "cbc_bad_header B (cbc_enc_length B n - 4) (cbc_enc_length B n - (5 + n)) = None"
    "cbc_first_block B = B" "B \<le> cbc_enc_length B n" "cbc_enc_length B n - (5 + n) < 256"
proof -
  note f = cbc_length_facts [OF assms(1), of n]
  have m: "max cbcMinPacketSizeMultiple B = B" "max cbcMinPacketSize B = 16"
    using assms(1) by (auto simp: cbcMinPacketSizeMultiple_def cbcMinPacketSize_def)
  show "cbc_bad_header B (cbc_enc_length B n - 4) (cbc_enc_length B n - (5 + n)) = None"
    using f assms(2,3) by (auto simp: cbc_bad_header_def m cbcMinPaddingSize_def)
  show "cbc_first_block B = B" using assms(1) by (auto simp: cbc_first_block_def prefixLen_def)
  show "B \<le> cbc_enc_length B n" "cbc_enc_length B n - (5 + n) < 256" using f assms(1) by auto
qed

lemma cbc_link:
  assumes st: "cbc_in_step w r" and fits: "cbc_fits w p"
    and wr: "cbc_writePacket n rand p w = Ret (None, out, rand', w')"
  shows "\<exists>r'. cbc_in_step w' r' \<and> (\<forall>later. cbc_readPacket n (out @ later) r = (Inr p, later, r'))"
    "cb_block w' = cb_block w"
proof -
  define b B E where "b = cb_block w" and "B = bc_Size b" and "E = cbc_enc_length B (length p)"
  define k where "k = E - (5 + length p)"
  have ok: "block_ok b" "mac_ok (cb_mac w)" and B: "B \<in> {8, 16}"
    and r: "cb_mac r = cb_mac w" "cb_block r = b" "cb_decrypter r = cb_encrypter w" "length (cb_encrypter w) = B"
    using st unfolding cbc_in_step_def b_def B_def by (auto dest: block_ok_size)
  have p0: "0 < length p" "E - 4 \<le> maxPacket" using fits by (simp_all add: cbc_fits_def b_def B_def E_def)
  note f = cbc_length_facts [OF B, of "length p", folded E_def]
  note h = cbc_header_ok [OF B p0(1), folded E_def, OF p0(2), folded k_def]
  note kl = k_def [symmetric]
  define padding where "padding = take k rand"
  have rl: "k \<le> length rand"
    using wr by (auto simp: cbc_writePacket_def Let_def ReadFull_def b_def [symmetric] B_def [symmetric]
        E_def [symmetric] kl split: if_split_asm)
  then have pl: "length padding = k" by (simp add: padding_def)
  define plain where "plain = header (E - 4) k @ p @ padding"
  have ln: "length plain = E" using f(1) pl by (simp add: plain_def k_def)
  have pre: "take B plain = header (E - 4) k @ take (B - 5) (p @ padding)" using B by (auto simp: plain_def)
  have hd: "Uint32 (take B plain) = word_of_nat (E - 4)" "of_char (take B plain ! 4) = k"
    using h(4) unfolding pre by simp_all
  obtain c1 iv1 where e1: "encrypt_blocks b (cb_encrypter w) (take B plain) = (c1, iv1)" by fastforce
  obtain c2 iv2 where e2: "encrypt_blocks b iv1 (drop B plain) = (c2, iv2)" by fastforce
  have d1: "decrypt_blocks b (cb_encrypter w) c1 = (take B plain, iv1)" "length c1 = B" "length iv1 = B"
    using blocks_undo [OF ok(1) e1] r(4) h(3) ln by (simp_all add: B_def [symmetric] min_absorb2)
  have d2: "decrypt_blocks b iv1 c2 = (drop B plain, iv2)" "length c2 = E - B" "length iv2 = B"
    using blocks_undo [OF ok(1) e2] d1(3) f(3) ln by (simp_all add: B_def [symmetric])
  have enc: "encrypt_blocks b (cb_encrypter w) plain = (c1 @ c2, iv2)"
    using encrypt_append [OF ok(1), of "take B plain" "cb_encrypter w" "drop B plain"] e1 e2 h(3) ln
    by (simp add: B_def [symmetric] min_absorb2)
  define tag where "tag = mac_of (cb_mac w) (PutUint32 n @ plain)"
  have tl: "length tag = mac_size (cb_mac w)" using ok(2) by (simp add: tag_def mac_ok_def)
  have o: "out = c1 @ c2 @ tag" and w': "w' = w\<lparr>cb_encrypter := iv2\<rparr>"
    using wr rl enc by (auto simp: cbc_writePacket_def Let_def ReadFull_def b_def [symmetric] B_def [symmetric]
        E_def [symmetric] kl padding_def [symmetric] header_def plain_def tag_def split: if_split_asm)
  have u: "unat (word_of_nat (E - 4) :: u32) = E - 4" using p0(2) by (simp add: maxPacket_def unat_of_nat_eq)
  have first: "ReadFull B (out @ later) = Some (c1, c2 @ tag @ later)" for later using d1(2) by (simp add: ReadFull_def o)
  have second: "ReadFull (4 + (E - 4) + mac_size (cb_mac w) - B) (c2 @ tag @ later) = Some (c2 @ tag, later)" for later
    using d2(2) tl f(4) h(3) by (simp add: ReadFull_def)
  have cut: "take (4 + (E - 4) - B) (c2 @ tag) = c2" "drop (4 + (E - 4) - B) (c2 @ tag) = tag"
    using d2(2) f(4) by simp_all
  have res: "drop prefixLen (take (4 + (E - 4) - k) plain) = p"
    using f(1,4) by (simp add: k_def prefixLen_def plain_def)
  have "cbc_readPacketLeaky n (out @ later) r = (Inr p, 0, later, r\<lparr>cb_decrypter := iv2\<rparr>)" for later
    unfolding cbc_readPacketLeaky_def Let_def r(1-3) B_def [symmetric] h(2) first option.case prod.case d1(1) hd u
      h(1) second cut d2(1) append_take_drop_id res
    by (simp add: tag_def)
  then show "\<exists>r'. cbc_in_step w' r' \<and> (\<forall>later. cbc_readPacket n (out @ later) r = (Inr p, later, r'))"
    using ok r d2(3) by (intro exI [of _ "r\<lparr>cb_decrypter := iv2\<rparr>"]) (simp add: cbc_readPacket_def cbc_in_step_def w' b_def B_def)
  show "cb_block w' = cb_block w" by (simp add: w')
qed

subsection \<open>The ciphers of a connection\<close>

fun cipher_in_step :: "packetCipher \<Rightarrow> packetCipher \<Rightarrow> bool" where
  "cipher_in_step (PStream w) (PStream r) = stream_in_step w r"
| "cipher_in_step (PGCM w) (PGCM r) = gcm_in_step w r"
| "cipher_in_step (PCBC w) (PCBC r) = cbc_in_step w r"
| "cipher_in_step _ _ = False"

text \<open>The packets that the other end takes: not empty, and of at most \<open>maxPacket\<close> bytes with their padding.\<close>

fun cipher_fits :: "packetCipher \<Rightarrow> bytes \<Rightarrow> bool" where
  "cipher_fits (PStream s) p = stream_fits s p"
| "cipher_fits (PGCM c) p = gcm_fits c p"
| "cipher_fits (PCBC c) p = cbc_fits c p"

lemma cipher_in_step_cases:
  assumes "cipher_in_step w r"
  obtains (stream) s where "w = PStream s" "r = PStream s" "mac_ok (sp_mac s)"
  | (gcm) c where "w = PGCM c" "r = PGCM c" "aead_ok (gc_aead c)"
  | (cbc) c d where "w = PCBC c" "r = PCBC d" "cbc_in_step c d"
  using assms by (cases w; cases r) (auto simp: stream_in_step_def gcm_in_step_def)

text \<open>A packet that fits is written whenever there are random bytes for its padding.\<close>

lemma cipher_writes:
  assumes "cipher_in_step w r" "cipher_fits w p" "19 \<le> length rand"
  shows "\<exists>k out w'. cipher_writePacket n rand p w = Ret (None, out, drop k rand, w') \<and> k \<le> 19"
  using assms(1)
proof (cases rule: cipher_in_step_cases)
  case (stream s)
  let ?k = "stream_padding (encrypt_then_mac s) (length p)"
  have "?k \<le> 19" "length p \<le> maxPacket" using stream_padding_bounds assms(2) stream by (auto simp: stream_fits_def)
  then show ?thesis using assms(3) stream
    by (intro exI [of _ ?k]) (auto simp: stream_writePacket_def Let_def ReadFull_def split: prod.split)
next
  case (gcm c)
  let ?k = "gcm_padding (length p)"
  have "?k \<le> 19" "\<not> 2 ^ 32 \<le> length p + ?k + 1" using gcm_padding_bounds assms(2) gcm by (auto simp: gcm_fits_def maxPacket_def)
  then show ?thesis using assms(3) gcm
    by (intro exI [of _ ?k]) (auto simp: gcm_writePacket_def Let_def ReadFull_def)
next
  case (cbc c d)
  let ?E = "cbc_enc_length (bc_Size (cb_block c)) (length p)"
  have B: "bc_Size (cb_block c) \<in> {8, 16}" using cbc(3) unfolding cbc_in_step_def by (blast dest: block_ok_size)
  let ?k = "?E - (5 + length p)"
  have "?k \<le> 19" "\<not> 2 ^ 32 \<le> ?E"
    using cbc_length_facts(2) [OF B, of "length p"] assms(2) cbc(1) by (auto simp: cbc_fits_def maxPacket_def)
  then show ?thesis using assms(3) cbc
    by (intro exI [of _ ?k]) (auto simp: cbc_writePacket_def Let_def ReadFull_def split: prod.split)
qed

interpretation link: packet_link cipher_writePacket cipher_readPacket cipher_in_step cipher_fits
proof unfold_locales
  fix w r :: packetCipher and p n rand out rand' w'
  assume st: "cipher_in_step w r" and fits: "cipher_fits w p"
    and wr: "cipher_writePacket n rand p w = Ret (None, out, rand', w')"
  from st show "\<exists>r'. cipher_in_step w' r' \<and> (\<forall>later. cipher_readPacket n (out @ later) r = Ret (Inr p, later, r'))"
  proof (cases rule: cipher_in_step_cases)
    case (stream s)
    then obtain s' where "stream_writePacket n rand p s = (None, out, rand', s')" "w' = PStream s'"
      using wr by (auto split: prod.split_asm)
    with stream_link(1) [of s p n rand out rand' s'] stream_link(3) [of s p n rand out rand' s'] stream fits show ?thesis by (simp add: stream_in_step_def)
  next
    case (gcm c)
    then obtain c' where "gcm_writePacket n rand p c = Ret (None, out, rand', c')" "w' = PGCM c'"
      using wr by (auto simp: bind_go_Ret_iff)
    with gcm_link(1) [of c p n rand out rand' c'] gcm_link(2) [of c p n rand out rand' c'] gcm fits show ?thesis by (simp add: gcm_in_step_def)
  next
    case (cbc c d)
    then obtain c' where w1: "cbc_writePacket n rand p c = Ret (None, out, rand', c')" "w' = PCBC c'"
      using wr by (auto simp: bind_go_Ret_iff)
    obtain r' where "\<forall>later. cbc_readPacket n (out @ later) d = (Inr p, later, r')" "cbc_in_step c' r'"
      using cbc_link(1) [OF cbc(3) _ w1(1)] fits cbc(1) by auto
    then show ?thesis by (intro exI [of _ "PCBC r'"]) (simp add: cbc w1)
  qed
next
  fix w r :: packetCipher and p rand :: bytes and n
  assume "cipher_in_step w r" "cipher_fits w p" "19 \<le> length rand"
  then show "\<exists>k out w'. cipher_writePacket n rand p w = Ret (None, out, drop k rand, w') \<and> k \<le> 19"
    by (rule cipher_writes)
next
  fix w :: packetCipher and p n rand out rand' w' q
  assume "cipher_writePacket n rand p w = Ret (None, out, rand', w')"
  then show "cipher_fits w' q = cipher_fits w q"
    by (cases w) (auto simp: stream_fits_def gcm_fits_def cbc_fits_def stream_writePacket_def encrypt_then_mac_def
        cbc_writePacket_def Let_def bind_go_Ret_iff split: prod.split_asm if_split_asm option.split_asm)
qed

end
