(* ===== verification/Packet_Safety.thy ===== *)
theory Packet_Safety
  imports Packet_Cipher_Proofs
begin

section \<open>What a reader accepts\<close>

text \<open>
  The converse of the round trip: whatever bytes arrive, a packet is accepted only when they are
  an encoding of it that carries its authentication code.  Then the cases in which AES-GCM panics
  on bytes that a peer with the session key can send, and the nonces AES-GCM uses.
\<close>

subsection \<open>Accepted packets\<close>

lemma header_of_bytes:
  assumes "5 \<le> length p"
  shows "header (unat (Uint32 p)) (of_char (p ! 4)) = take 5 p"
proof -
  have "take 5 p = take 4 p @ [p ! 4]" using assms take_Suc_conv_app_nth [of 4 p] by simp
  then show ?thesis using PutUint32_Uint32 [of p] assms by (simp add: header_def)
qed

text \<open>The bytes on the wire that vouch for a packet with a given number, under a given cipher.\<close>

fun vouches :: "u32 \<Rightarrow> packetCipher \<Rightarrow> bytes \<Rightarrow> bytes \<Rightarrow> bool" where
  "vouches n (PStream s) wire p \<longleftrightarrow>
     (\<exists>padding cpre ct k1 k2. crypt_prefix (encrypt_then_mac s) (header (length p + 1 + length padding) (length padding)) (sp_cipher s) = (cpre, k1)
       \<and> XORKeyStream (p @ padding) k1 = (ct, k2)
       \<and> wire = cpre @ ct @ mac_of (sp_mac s) (PutUint32 n @
           (if encrypt_then_mac s then cpre @ ct else header (length p + 1 + length padding) (length padding) @ p @ padding)))"
| "vouches n (PGCM c) wire p \<longleftrightarrow>
     (\<exists>padding sealed. 4 \<le> length padding
       \<and> wire = PutUint32 (word_of_nat (length p + 1 + length padding)) @ sealed
       \<and> ae_Open (gc_aead c) (gc_iv c) sealed (PutUint32 (word_of_nat (length p + 1 + length padding)))
           = Some (char_of (length padding) # p @ padding))"
| "vouches n (PCBC c) wire p \<longleftrightarrow>
     (\<exists>padding ct ct' iv1 iv2 x y. header (length p + 1 + length padding) (length padding) @ p @ padding = x @ y
       \<and> decrypt_blocks (cb_block c) (cb_decrypter c) ct = (x, iv1) \<and> decrypt_blocks (cb_block c) iv1 ct' = (y, iv2)
       \<and> wire = ct @ ct' @ mac_of (cb_mac c) (PutUint32 n @ header (length p + 1 + length padding) (length padding) @ p @ padding))"

declare vouches.simps [simp del]

lemma ReadFull_Some: "ReadFull n r = Some (a, b) \<longleftrightarrow> r = a @ b \<and> length a = n"
  by (auto simp: ReadFull_def)

lemma stream_accepts:
  assumes rd: "stream_readPacket n r s = (Inr p, r', s')" and ok: "mac_ok (sp_mac s)"
  shows "\<exists>wire. r = wire @ r' \<and> vouches n (PStream s) wire p"
proof -
  let ?etm = "encrypt_then_mac s"
  obtain cpre r1 where 1: "ReadFull prefixLen r = Some (cpre, r1)" using rd by (auto simp: stream_readPacket_def split: option.split_asm)
  obtain pre k1 where 2: "crypt_prefix ?etm cpre (sp_cipher s) = (pre, k1)" by fastforce
  have cl: "length cpre = 5" and r: "r = cpre @ r1" using 1 by (simp_all add: ReadFull_Some prefixLen_def)
  note pre = crypt_prefix_undo [OF 2 cl]
  define len pad where "len = unat (Uint32 pre)" and "pad = (of_char (pre ! 4) :: nat)"
  have w: "Uint32 pre = word_of_nat len" "(of_char (pre ! 4) :: u32) = word_of_nat pad"
    using of_nat_of_char [of "pre ! 4", where ?'a = u32] by (simp_all add: len_def pad_def)
  have h: "header len pad = pre" using header_of_bytes [of pre] pre by (simp add: len_def pad_def)
  have pb: "pad < 256" by (simp add: pad_def)
  show ?thesis
  proof (cases "Uint32 pre \<le> of_char (pre ! 4) + 1 \<or> maxPacket < len")
    case True
    then have False using rd by (auto simp: stream_readPacket_def 1 2 Let_def len_def split: if_split_asm)
    then show ?thesis ..
  next
    case False
    then have le: "len \<le> maxPacket" by simp
    have "unat (word_of_nat (pad + 1) :: u32) = pad + 1" using pb by (intro unat_of_nat_eq) simp
    then have "unat (word_of_nat pad + 1 :: u32) = pad + 1" unfolding of_nat_add of_nat_1 .
    then have gt: "pad + 1 < len" using False by (simp add: w(2) word_le_nat_alt len_def [symmetric] not_le)
    note sw = small_words [OF le gt]
    obtain pd r2 where 3: "ReadFull (len - 1 + mac_size (sp_mac s)) r1 = Some (pd, r2)"
      using rd False sw by (auto simp: stream_readPacket_def 1 2 Let_def w split: option.split_asm if_split_asm)
    define ct tag where "ct = take (len - 1) pd" and "tag = drop (len - 1) pd"
    obtain data k2 where 4: "XORKeyStream ct k1 = (data, k2)" by fastforce
    have pd: "pd = ct @ tag" "length ct = len - 1" "length tag = mac_size (sp_mac s)" "r1 = ct @ tag @ r2"
      using 3 by (simp_all add: ct_def tag_def ReadFull_Some)
    have u: "XORKeyStream data k1 = (ct, k2)" "length data = len - 1"
      using XORKeyStream_undo [OF 4] pd(2) by simp_all
    have "stream_readPacket n r s =
        (if sp_mac s \<noteq> None \<and> mac_of (sp_mac s) (PutUint32 n @ (if ?etm then cpre @ ct else pre @ data)) \<noteq> tag
         then (Inl ErrMACFailure, r2, s\<lparr>sp_cipher := k2\<rparr>)
         else (Inr (take (len - pad - 1) data), r2, s\<lparr>sp_cipher := k2\<rparr>))"
      unfolding stream_readPacket_def 1 option.case prod.case Let_def 2 w sw(2-4) 3 ct_def [symmetric] tag_def [symmetric] 4
      using sw(1) le by simp
    then have res: "p = take (len - pad - 1) data" "r' = r2"
      and m: "sp_mac s \<noteq> None \<longrightarrow> mac_of (sp_mac s) (PutUint32 n @ (if ?etm then cpre @ ct else pre @ data)) = tag"
      using rd by (auto split: if_split_asm)
    have t: "mac_of (sp_mac s) (PutUint32 n @ (if ?etm then cpre @ ct else pre @ data)) = tag"
      using m pd(3) by (cases "sp_mac s") (simp_all add: mac_of_def mac_size_def)
    define padding where "padding = drop (len - pad - 1) data"
    have d: "data = p @ padding" "length padding = pad" "length p + 1 + pad = len"
      using gt u(2) by (simp_all add: padding_def res)
    show ?thesis
      by (rule exI [of _ "cpre @ ct @ tag"], intro conjI, simp add: r pd(4) res(2), unfold vouches.simps,
          rule exI [of _ padding], rule exI [of _ cpre], rule exI [of _ ct], rule exI [of _ k1], rule exI [of _ k2],
          unfold d(2) d(3) d(1) [symmetric] h)
        (use pre u(1) t in simp)
  qed
qed

text \<open>AES-GCM: where the opened text is cut, and when cutting it panics.\<close>

lemma gcm_cut:
  fixes len :: u32
  assumes "plain \<noteq> []" "length plain = unat len" "pad = (of_char (hd plain) :: nat)" "4 \<le> pad" "(pad + 1) mod 256 < length plain"
  shows "unat (len - word_of_nat pad) < 1 \<or> length plain < unat (len - word_of_nat pad) \<longleftrightarrow> pad = 255 \<and> length plain \<le> 255"
    "pad < length plain \<Longrightarrow> unat (len - word_of_nat pad) = length plain - pad"
proof -
  have "pad < 256" by (simp add: assms(3))
  then have pb: "pad \<le> 255" by simp
  have pu: "unat (word_of_nat pad :: u32) = pad" using pb by (simp add: unat_of_nat_eq)
  show d: "unat (len - word_of_nat pad) = length plain - pad" if "pad < length plain"
  proof -
    have "(word_of_nat pad :: u32) \<le> len" using that assms(2) pu by (simp add: word_le_nat_alt)
    from unat_sub [OF this] show ?thesis using assms(2) pu by (simp only:)
  qed
  show "unat (len - word_of_nat pad) < 1 \<or> length plain < unat (len - word_of_nat pad) \<longleftrightarrow> pad = 255 \<and> length plain \<le> 255"
  proof (cases "pad < length plain")
    case True
    then show ?thesis using d pb by auto
  next
    case False
    then have p: "pad = 255" "length plain \<le> 255" using assms(5) pb by (cases "pad = 255"; simp)+
    have l: "unat len \<le> 255" "unat (255 :: u32) = 255" using p(2) assms(2) by simp_all
    have "unat (len - 255) < 1 \<or> unat len < unat (len - 255)"
    proof (cases "len = 255")
      case False
      then have "len < 255" using l by (simp add: word_less_nat_alt word_unat_eq_iff)
      then have "unat (len - 255) = 2 ^ 32 + unat len - 255" using l by (simp add: unat_sub_if' word_le_nat_alt word_less_nat_alt)
      then show ?thesis by simp
    qed simp
    then show ?thesis using p assms(2) by simp
  qed
qed

lemma gcm_accepts:
  assumes rd: "gcm_readPacket n r c = Ret (Inr p, r', c')" and ok: "aead_ok (gc_aead c)"
  shows "\<exists>wire. r = wire @ r' \<and> vouches n (PGCM c) wire p"
proof -
  obtain pre r1 where 1: "ReadFull 4 r = Some (pre, r1)" using rd by (auto simp: gcm_readPacket_def split: option.split_asm)
  obtain buf r2 where 2: "ReadFull (unat (Uint32 pre) + gcmTagSize) r1 = Some (buf, r2)"
    using rd by (auto simp: gcm_readPacket_def 1 Let_def split: option.split_asm if_split_asm)
  obtain plain where 3: "ae_Open (gc_aead c) (gc_iv c) buf pre = Some plain"
    using rd by (auto simp: gcm_readPacket_def 1 2 Let_def split: option.split_asm if_split_asm)
  define pad where "pad = (of_char (hd plain) :: nat)"
  have pl: "length plain = unat (Uint32 pre)" using aead_okD(3) [OF ok 3] 2 by (simp add: ReadFull_Some)
  have c: "plain \<noteq> []" "4 \<le> pad" "(pad + 1) mod 256 < length plain"
      "\<not> (unat (Uint32 pre - word_of_nat pad) < 1 \<or> length plain < unat (Uint32 pre - word_of_nat pad))"
    and res: "p = drop 1 (take (unat (Uint32 pre - word_of_nat pad)) plain)" "r' = r2"
    using rd by (simp_all add: gcm_readPacket_def 1 2 3 Let_def pad_def not_less not_le split: if_split_asm)
  note cut = gcm_cut [OF c(1) pl pad_def c(2,3)]
  have "pad < 256" by (simp add: pad_def)
  then have pb: "pad \<le> 255" by simp
  have lt: "pad < length plain" using c(3,4) cut(1) pb by (cases "pad = 255") auto
  define padding where "padding = drop (length plain - pad) plain"
  have pd: "length padding = pad" "length p = length plain - pad - 1" "p = drop 1 (take (length plain - pad) plain)"
    using lt by (simp_all add: padding_def res cut(2))
  have "plain = hd plain # drop 1 plain" using c(1) by (cases plain) simp_all
  also have "drop 1 plain = p @ padding"
    using lt drop_append [of 1 "take (length plain - pad) plain" padding]
    by (simp add: pd(3) padding_def)
  finally have eq: "plain = char_of pad # p @ padding" by (simp add: pad_def)
  have len: "length p + 1 + length padding = length plain" using lt pd by simp
  have pre: "PutUint32 (word_of_nat (length plain)) = pre"
    using 1 PutUint32_Uint32 [of pre] by (simp add: pl ReadFull_Some)
  show ?thesis
    by (rule exI [of _ "pre @ buf"], intro conjI, use 1 2 res(2) in \<open>simp add: ReadFull_Some\<close>, unfold vouches.simps,
        rule exI [of _ padding], rule exI [of _ buf], unfold len pre)
      (use 3 c(2) in \<open>simp add: pd(1) eq [symmetric]\<close>)
qed

lemma decrypt_length:
  assumes ok: "block_ok b" and "decrypt_blocks b iv src = (p, iv')" "length iv = bc_Size b" "bc_Size b dvd length src"
  shows "length p = length src \<and> length iv' = bc_Size b"
  using assms
proof (induction "length src" arbitrary: iv src p rule: less_induct)
  case less
  let ?B = "bc_Size b"
  show ?case
  proof (cases "src = []")
    case True
    then show ?thesis using less.prems by (auto simp: decrypt_blocks.simps [of b iv "[]"])
  next
    case False
    have B: "0 < ?B" "?B \<le> length src" using block_ok_pos [OF ok] less.prems(4) False by (auto dest: dvd_imp_le)
    obtain ps where ps: "decrypt_blocks b (take ?B src) (drop ?B src) = (ps, iv')" "p = xor_bytes (bc_Decrypt b (take ?B src)) iv @ ps"
      using less.prems(2) False B(1)
      by (auto simp: decrypt_blocks.simps [of b iv src] Let_def split: prod.split_asm)
    have "length (bc_Decrypt b (take ?B src)) = ?B" using ok B(2) by (simp add: block_ok_def)
    moreover have "length ps = length src - ?B \<and> length iv' = ?B"
      using less.hyps [OF _ ok ps(1)] less.prems(4) B by simp
    ultimately show ?thesis using B less.prems(3) by (simp add: ps(2))
  qed
qed

lemma cbc_accepts:
  assumes rd: "cbc_readPacket n r c = (Inr p, r', c')" and ok: "block_ok (cb_block c)" "mac_ok (cb_mac c)"
    and iv: "length (cb_decrypter c) = bc_Size (cb_block c)"
  shows "\<exists>wire. r = wire @ r' \<and> vouches n (PCBC c) wire p"
proof -
  define b B m where "b = cb_block c" and "B = bc_Size b" and "m = mac_size (cb_mac c)"
  note defs = b_def [symmetric] B_def [symmetric] m_def [symmetric]
  have B: "B \<in> {8, 16}" "cbc_first_block B = B"
    using block_ok_size [OF ok(1)] by (auto simp: B_def b_def cbc_first_block_def prefixLen_def)
  obtain cam where lk: "cbc_readPacketLeaky n r c = (Inr p, cam, r', c') \<or>
      (\<exists>r1. cbc_readPacketLeaky n r c = (Inr p, cam, r1, c') \<and> r' = drop cam r1)"
    using rd by (auto simp: cbc_readPacket_def split: prod.split_asm)
  then obtain r0 where lk: "cbc_readPacketLeaky n r c = (Inr p, cam, r0, c')" "r' = r0 \<or> r' = drop cam r0" by blast
  obtain b1 r1 where 1: "ReadFull B r = Some (b1, r1)"
    using lk(1) by (auto simp: cbc_readPacketLeaky_def Let_def defs B(2) split: option.split_asm)
  obtain fb iv1 where 2: "decrypt_blocks b (cb_decrypter c) b1 = (fb, iv1)" by fastforce
  define len pad where "len = unat (Uint32 fb)" and "pad = (of_char (fb ! 4) :: nat)"
  have good: "cbc_bad_header B len pad = None"
    using lk(1) by (auto simp: cbc_readPacketLeaky_def Let_def defs B(2) 1 2 len_def pad_def split: option.split_asm)
  have h: "len + 4 \<ge> 16" "(len + 4) mod B = 0" "pad + 1 < len" "pad < 256"
    using good B(1) by (auto simp: cbc_bad_header_def cbcMinPacketSize_def cbcMinPacketSizeMultiple_def pad_def split: if_split_asm)
  obtain later r2 where 3: "ReadFull (4 + len + m - B) r1 = Some (later, r2)"
    using lk(1) good by (auto simp: cbc_readPacketLeaky_def Let_def defs B(2) 1 2 len_def pad_def split: option.split_asm)
  define ct' tag where "ct' = take (4 + len - B) later" and "tag = drop (4 + len - B) later"
  obtain re iv2 where 4: "decrypt_blocks b iv1 ct' = (re, iv2)" by fastforce
  have "cbc_readPacketLeaky n r c =
      (if cb_mac c \<noteq> None \<and> mac_of (cb_mac c) (PutUint32 n @ fb @ re) \<noteq> tag
       then (Inl ErrMACFailure, maxPacket + 4 + m - B - (4 + len + m - B), r2, c\<lparr>cb_decrypter := iv2\<rparr>)
       else (Inr (drop prefixLen (take (4 + len - pad) (fb @ re))), 0, r2, c\<lparr>cb_decrypter := iv2\<rparr>))"
    unfolding cbc_readPacketLeaky_def Let_def defs B(2) 1 option.case prod.case 2 len_def [symmetric] pad_def [symmetric]
      good 3 ct'_def [symmetric] tag_def [symmetric] 4 ..
  then have res: "p = drop prefixLen (take (4 + len - pad) (fb @ re))" "r' = r2"
    and mt: "cb_mac c \<noteq> None \<longrightarrow> mac_of (cb_mac c) (PutUint32 n @ fb @ re) = tag"
    using lk by (auto split: if_split_asm)
  have ge: "B \<le> 4 + len" using h(1) B(1) by auto
  have l: "length b1 = B" "length later = 4 + len + m - B" "r = b1 @ r1" "r1 = later @ r2"
    using 1 3 by (auto simp: ReadFull_Some)
  have ctl: "length ct' = 4 + len - B" "length tag = m" "later = ct' @ tag" using l(2) ge by (simp_all add: ct'_def tag_def)
  have fl: "length fb = B" "length iv1 = B"
    using decrypt_length [OF ok(1) [folded b_def] 2] iv l(1) by (simp_all add: defs)
  have "B dvd 4 + len" using h(2) by (simp add: add.commute dvd_eq_mod_eq_0)
  then have rl: "length re = 4 + len - B"
    using decrypt_length [OF ok(1) [folded b_def] 4] fl(2) ctl(1) by (simp add: defs)
  have t: "mac_of (cb_mac c) (PutUint32 n @ fb @ re) = tag"
    using mt ctl(2) by (cases "cb_mac c") (simp_all add: mac_of_def mac_size_def m_def)
  have hd: "header len pad = take 5 fb"
    using header_of_bytes [of fb] fl(1) B(1) by (auto simp: len_def pad_def)
  define plain where "plain = fb @ re"
  define padding where "padding = drop (4 + len - pad) plain"
  have tot: "length plain = 4 + len" using fl(1) rl ge by (simp add: plain_def)
  have p: "p = drop 5 (take (4 + len - pad) plain)" by (simp add: res(1) prefixLen_def plain_def)
  have pl: "length padding = pad" "length p + 1 + pad = len" using tot h(3) by (simp_all add: padding_def p)
  have "take (4 + len - pad) plain @ padding = plain" by (simp add: padding_def)
  then have "drop 5 plain = p @ padding"
    using tot h(3) drop_append [of 5 "take (4 + len - pad) plain" padding] by (simp add: p)
  then have eq: "header len pad @ p @ padding = fb @ re"
    using append_take_drop_id [of 5 plain] fl(1) B(1) by (auto simp: hd plain_def)
  show ?thesis
    by (rule exI [of _ "b1 @ ct' @ tag"], intro conjI, use l(3,4) ctl(3) res(2) in simp, unfold vouches.simps,
        rule exI [of _ padding], rule exI [of _ b1], rule exI [of _ ct'], rule exI [of _ iv1], rule exI [of _ iv2],
        rule exI [of _ fb], rule exI [of _ re], unfold pl eq)
      (use 2 4 t in \<open>simp add: b_def\<close>)
qed

subsection \<open>Properties\<close>

text \<open>Toy primitives for the witnesses: no encryption, a tag of sixteen bytes, a block of eight.\<close>

definition demo_mac :: mac_hash where
  "demo_mac = \<lparr>mh_Sum = (\<lambda>x. take 16 (x @ replicate 16 CHR 0x00)), mh_Size = 16\<rparr>"

definition demo_stream :: packetCipher where
  "demo_stream = PStream \<lparr>sp_mac = Some demo_mac, sp_cipher = noneCipher, sp_etm = False\<rparr>"

definition demo_aead :: aead where
  "demo_aead = \<lparr>ae_Seal = (\<lambda>n p d. p @ replicate 16 CHR 0x00),
     ae_Open = (\<lambda>n c d. if length c < 16 then None else Some (take (length c - 16) c))\<rparr>"

definition demo_gcm :: gcmCipher where
  "demo_gcm = \<lparr>gc_aead = demo_aead, gc_iv = replicate 12 CHR 0x00\<rparr>"

lemma demo_ok: "mac_ok (Some demo_mac)" "aead_ok demo_aead"
  by (auto simp: mac_ok_def mac_of_def mac_size_def demo_mac_def aead_ok_def demo_aead_def gcmTagSize_def split: if_split_asm)

text \<open>
  C7: a packet is accepted only when its bytes vouch for it.  Whatever arrives on the connection,
  when a reader accepts a packet under the sequence number it expects, then the bytes it consumed
  are an encoding of exactly that packet: they carry the authentication code of the sequence
  number, the lengths, the packet and its padding (or of their encryption under the current place
  of the key stream), or they open under the current nonce to the packet and its padding.  A packet
  that was altered, cut, extended, replayed under another number or moved to another place is
  accepted only if a code for exactly that content is on the wire.
\<close>

theorem accepted_is_vouched:
  assumes "cipher_in_step w c" and "cipher_readPacket n r c = Ret (Inr p, r', c')"
  shows "\<exists>wire. r = wire @ r' \<and> vouches n c wire p"
  using assms(1)
proof (cases rule: cipher_in_step_cases)
  case (stream s)
  then show ?thesis using assms(2) stream_accepts [of n r s p r'] by (auto split: prod.split_asm)
next
  case (gcm g)
  then show ?thesis using assms(2) gcm_accepts [of n r g p r'] by (auto simp: bind_go_Ret_iff)
next
  case (cbc d e)
  have ok: "block_ok (cb_block e)" "mac_ok (cb_mac e)" "length (cb_decrypter e) = bc_Size (cb_block e)"
    using cbc(3) unfolding cbc_in_step_def by metis+
  obtain c1 where "cbc_readPacket n r e = (Inr p, r', c1)" using assms(2) cbc(2) by (auto split: prod.split_asm)
  from cbc_accepts [OF this ok] show ?thesis by (simp add: cbc(2))
qed

definition gcm_bad :: "bytes \<Rightarrow> bool" where
  "gcm_bad plain \<longleftrightarrow> plain = [] \<or> hd plain = CHR 0xFF \<and> length plain \<le> 255"

lemma gcm_opened_panics:
  assumes ok: "aead_ok (gc_aead c)" and 1: "ReadFull 4 r = Some (pre, r1)"
    and 2: "ReadFull (unat (Uint32 pre) + gcmTagSize) r1 = Some (buf, r2)"
    and m: "unat (Uint32 pre) \<le> maxPacket" and 3: "ae_Open (gc_aead c) (gc_iv c) buf pre = Some plain"
  shows "(\<exists>s. gcm_readPacket n r c = Panic s) \<longleftrightarrow> gcm_bad plain"
proof (cases "plain = []")
  case True
  then show ?thesis using 1 2 3 m by (simp add: gcm_readPacket_def gcm_bad_def)
next
  case False
  define pad where "pad = (of_char (hd plain) :: nat)"
  have pl: "length plain = unat (Uint32 pre)" using aead_okD(3) [OF ok 3] 2 by (simp add: ReadFull_Some)
  have ff: "hd plain = CHR 0xFF \<longleftrightarrow> pad = 255"
    using of_char_eq_iff [of "hd plain" "CHR 0xFF", where ?'a = nat] by (simp add: pad_def)
  have "gcm_readPacket n r c =
      (if pad < 4 then Ret (Inl (ErrIllegalPadding pad), r2, incIV c)
       else if length plain \<le> (pad + 1) mod 256 then Ret (Inl (ErrPaddingTooLarge pad), r2, incIV c)
       else if unat (Uint32 pre - word_of_nat pad) < 1 \<or> length plain < unat (Uint32 pre - word_of_nat pad)
       then Panic ''slice bounds out of range''
       else Ret (Inr (drop 1 (take (unat (Uint32 pre - word_of_nat pad)) plain)), r2, incIV c))"
    unfolding gcm_readPacket_def 1 option.case prod.case Let_def 2 3 pad_def [symmetric] using m False by simp
  then show ?thesis
    using gcm_cut(1) [OF False pl pad_def] False by (auto simp: gcm_bad_def ff not_less not_le)
qed

text \<open>Before a panic the whole packet was read and opened.\<close>

lemma gcm_panic_opened:
  assumes "gcm_readPacket n r c = Panic s"
  obtains pre r1 buf r2 plain where "ReadFull 4 r = Some (pre, r1)" "ReadFull (unat (Uint32 pre) + gcmTagSize) r1 = Some (buf, r2)"
    "unat (Uint32 pre) \<le> maxPacket" "ae_Open (gc_aead c) (gc_iv c) buf pre = Some plain"
  using assms by (auto simp: gcm_readPacket_def Let_def not_less split: option.split_asm if_split_asm)

text \<open>
  C39: exactly which packets make an AES-GCM reader panic: those that authenticate under the
  session key and whose opened text is empty, or begins with the padding length 255 while being at
  most 255 bytes long (one is added to the padding length in a byte, which wraps to zero and
  passes the test).  The keys are exchanged before the login, so that any client can send them.
\<close>

theorem gcm_read_panics_iff:
  assumes "aead_ok (gc_aead c)"
  shows "(\<exists>s. gcm_readPacket n r c = Panic s) \<longleftrightarrow>
    (\<exists>pre sealed later plain. r = pre @ sealed @ later \<and> length pre = 4
       \<and> length sealed = unat (Uint32 pre) + 16 \<and> unat (Uint32 pre) \<le> maxPacket
       \<and> ae_Open (gc_aead c) (gc_iv c) sealed pre = Some plain
       \<and> (plain = [] \<or> hd plain = CHR 0xFF \<and> length plain \<le> 255))" (is "_ \<longleftrightarrow> ?R")
proof
  assume p: "\<exists>s. gcm_readPacket n r c = Panic s"
  then obtain pre r1 buf r2 plain where o: "ReadFull 4 r = Some (pre, r1)" "ReadFull (unat (Uint32 pre) + gcmTagSize) r1 = Some (buf, r2)"
      "unat (Uint32 pre) \<le> maxPacket" "ae_Open (gc_aead c) (gc_iv c) buf pre = Some plain"
    by (blast elim: gcm_panic_opened)
  then have "gcm_bad plain" using gcm_opened_panics [OF assms o] p by simp
  with o show ?R by (auto simp: ReadFull_Some gcmTagSize_def gcm_bad_def)
next
  assume ?R
  then obtain pre sealed later plain where "ReadFull 4 r = Some (pre, sealed @ later)"
      "ReadFull (unat (Uint32 pre) + gcmTagSize) (sealed @ later) = Some (sealed, later)"
      "unat (Uint32 pre) \<le> maxPacket" "ae_Open (gc_aead c) (gc_iv c) sealed pre = Some plain" "gcm_bad plain"
    by (auto simp: ReadFull_Some gcmTagSize_def gcm_bad_def)
  then show "\<exists>s. gcm_readPacket n r c = Panic s" using gcm_opened_panics [OF assms] by blast
qed

theorem gcm_read_panics_iff_witness:
  "\<exists>s. gcm_readPacket 3 (PutUint32 0 @ replicate 16 CHR 0x00) demo_gcm = Panic s"
proof -
  have ok: "aead_ok (gc_aead demo_gcm)" using demo_ok by (simp add: demo_gcm_def)
  have "Uint32 (PutUint32 0) = 0" using Uint32_PutUint32 [of 0 "[]"] by simp
  then show ?thesis
    by (subst gcm_read_panics_iff [OF ok],
        intro exI [of _ "PutUint32 0"] exI [of _ "replicate 16 CHR 0x00"] exI [of _ "[]"])
      (simp add: demo_gcm_def demo_aead_def)
qed

theorem accepted_is_vouched_witness:
  "\<exists>out r'. cipher_readPacket 7 (out @ ''later'') demo_stream = Ret (Inr ''hello'', ''later'', r')
     \<and> (\<exists>wire. out @ ''later'' = wire @ ''later'' \<and> vouches 7 demo_stream wire ''hello'')"
proof -
  have st: "cipher_in_step demo_stream demo_stream" using demo_ok by (simp add: demo_stream_def stream_in_step_def)
  have fit: "cipher_fits demo_stream ''hello''"
    by (simp add: demo_stream_def stream_fits_def maxPacket_def encrypt_then_mac_def stream_padding_def packetSizeMultiple_def prefixLen_def)
  obtain out k w' where "cipher_writePacket 7 (replicate 99 CHR 0x00) ''hello'' demo_stream = Ret (None, out, drop k (replicate 99 CHR 0x00), w')"
    using cipher_writes [OF st fit, of "replicate 99 CHR 0x00" 7] by auto
  from link.link_law [OF st fit this] obtain r' where
    r': "cipher_readPacket 7 (out @ ''later'') demo_stream = Ret (Inr ''hello'', ''later'', r')" by blast
  from accepted_is_vouched [OF st this] r' show ?thesis by blast
qed

subsection \<open>Nonces\<close>

text \<open>The number that the counter bytes of a nonce stand for.\<close>

fun counter :: "nat \<Rightarrow> bytes \<Rightarrow> nat" where
  "counter 0 iv = 0"
| "counter (Suc n) iv = 256 * counter n iv + of_char (iv ! (4 + n))"

lemma counter_beyond: "n \<le> j \<Longrightarrow> counter n (iv[4 + j := x]) = counter n iv"
  by (induction n) simp_all

lemma counter_less: "counter n iv < 256 ^ n"
proof (induction n)
  case (Suc n)
  define b where "b = (of_char (iv ! (4 + n)) :: nat)"
  have "b < 256" by (simp add: b_def)
  then show ?case using Suc by (simp add: b_def [symmetric])
qed simp

lemma inc_loop_keeps: "n \<le> j \<Longrightarrow> inc_loop n iv ! (4 + j) = iv ! (4 + j)" "length (inc_loop n iv) = length iv"
  by (induction n arbitrary: iv) (simp_all add: Let_def)

lemma inc_loop_counter:
  "4 + n \<le> length iv \<Longrightarrow> counter n (inc_loop n iv) = (counter n iv + 1) mod 256 ^ n"
proof (induction n arbitrary: iv)
  case (Suc n)
  let ?b = "of_char (iv ! (4 + n)) :: nat" and ?iv = "iv[4 + n := inc_byte (iv ! (4 + n))]"
  have b: "?b < 256" by simp
  have v: "?iv ! (4 + n) = char_of (?b + 1)" using Suc.prems by (simp add: inc_byte_def)
  show ?case
  proof (cases "?b = 255")
    case True
    moreover have "char_of (256 :: nat) = CHR 0x00" by code_simp
    ultimately have z: "?iv ! (4 + n) = CHR 0x00" using v by simp
    have "counter (Suc n) (inc_loop (Suc n) iv) = 256 * ((counter n iv + 1) mod 256 ^ n)"
      using z Suc.IH [of ?iv] Suc.prems inc_loop_keeps(1) [of n n ?iv] by (simp add: Let_def counter_beyond)
    also have "\<dots> = (256 * (counter n iv + 1)) mod (256 * 256 ^ n)" by (simp add: mult_mod_right)
    finally show ?thesis using True by simp
  next
    case False
    have lt: "?b + 1 < 256" using b False by linarith
    have vb: "of_char (?iv ! (4 + n)) = ?b + 1" unfolding v of_char_of using mod_less [OF lt] .
    have nz: "?iv ! (4 + n) \<noteq> CHR 0x00"
    proof
      assume "?iv ! (4 + n) = CHR 0x00"
      with vb show False by simp
    qed
    have "256 * counter n iv + (?b + 1) < 256 * 256 ^ n" using counter_less [of n iv] lt by linarith
    moreover have "counter (Suc n) (inc_loop (Suc n) iv) = 256 * counter n iv + (?b + 1)"
      using nz vb by (simp add: Let_def counter_beyond)
    ultimately show ?thesis by simp
  qed
qed simp

lemma incIV_iterate:
  assumes "length (gc_iv c) = 12"
  shows "length (gc_iv ((incIV ^^ k) c)) = 12 \<and> counter 8 (gc_iv ((incIV ^^ k) c)) = (counter 8 (gc_iv c) + k) mod 2 ^ 64"
proof (induction k)
  case 0
  then show ?case using assms counter_less [of 8 "gc_iv c"] by simp
next
  case (Suc k)
  define d where "d = (incIV ^^ k) c"
  have "counter 8 (inc_loop 8 (gc_iv d)) = (counter 8 (gc_iv d) + 1) mod 256 ^ 8"
    using inc_loop_counter [of 8 "gc_iv d"] Suc by (simp add: d_def)
  moreover have "gc_iv ((incIV ^^ Suc k) c) = inc_loop 8 (gc_iv d)" by (simp add: d_def incIV_def)
  ultimately show ?case using Suc by (simp add: d_def [symmetric] inc_loop_keeps mod_Suc_eq)
qed

lemma iterates_differ:
  assumes "length (gc_iv c) = 12" and "i < j" and "j - i < 2 ^ 64"
  shows "gc_iv ((incIV ^^ i) c) \<noteq> gc_iv ((incIV ^^ j) c)"
proof
  assume "gc_iv ((incIV ^^ i) c) = gc_iv ((incIV ^^ j) c)"
  then have "(counter 8 (gc_iv c) + i) mod 2 ^ 64 = (counter 8 (gc_iv c) + j) mod 2 ^ 64"
    using incIV_iterate [OF assms(1), of i] incIV_iterate [OF assms(1), of j] by simp
  then have "2 ^ 64 dvd (counter 8 (gc_iv c) + j) - (counter 8 (gc_iv c) + i)"
    using assms(2) by (subst mod_eq_dvd_iff_nat [symmetric]) simp_all
  then have "2 ^ 64 dvd j - i" by simp
  then show False using assms(2,3) by (auto dest: dvd_imp_le)
qed

text \<open>
  A cipher in use: packets are written one after the other with the state that the last write left.
  The result has every packet that was sealed with what was put on the wire; a write that found no
  random bytes sealed nothing.
\<close>

fun gcm_writes :: "(u32 \<times> bytes \<times> bytes) list \<Rightarrow> gcmCipher \<Rightarrow> ((bytes \<times> bytes) list \<times> gcmCipher) go" where
  "gcm_writes [] c = Ret ([], c)"
| "gcm_writes ((seqNum, rand, packet) # ws) c =
     bind_go (gcm_writePacket seqNum rand packet c) (\<lambda>(e, out, rand', c1).
     bind_go (gcm_writes ws c1) (\<lambda>(outs, c2).
       Ret (if e = None then (packet, out) # outs else outs, c2)))"

definition sealed_with :: "aead \<Rightarrow> bytes \<Rightarrow> bytes \<times> bytes \<Rightarrow> bool" where
  "sealed_with a nonce = (\<lambda>(packet, out).
     \<exists>pad. let pre = PutUint32 (word_of_nat (length packet + length pad + 1))
           in out = pre @ ae_Seal a nonce (char_of (length pad) # packet @ pad) pre)"

lemma gcm_writePacket_seals:
  assumes "gcm_writePacket seqNum rand packet c = Ret (e, out, rand', c')"
  shows "(e = None \<and> sealed_with (gc_aead c) (gc_iv c) (packet, out) \<and> c' = incIV c) \<or> (e \<noteq> None \<and> c' = c)"
proof (cases "ReadFull (gcm_padding (length packet)) rand")
  case (Some r)
  obtain pad rest where r: "r = (pad, rest)" by (cases r)
  then have "length pad = gcm_padding (length packet)" using Some by (auto simp: ReadFull_def split: if_split_asm)
  then show ?thesis using assms Some r
    by (auto simp: gcm_writePacket_def sealed_with_def Let_def split: if_split_asm intro!: exI [of _ pad])
qed (use assms in \<open>auto simp: gcm_writePacket_def Let_def split: if_split_asm\<close>)

lemma incIV_aead: "gc_aead (incIV c) = gc_aead c"
  by (simp add: incIV_def)

lemma gcm_writes_nonces:
  "gcm_writes ws c = Ret (outs, c') \<Longrightarrow>
     list_all2 (sealed_with (gc_aead c)) (map (\<lambda>i. gc_iv ((incIV ^^ i) c)) [0..<length outs]) outs"
proof (induction ws c arbitrary: outs c' rule: gcm_writes.induct)
  case (2 seqNum rand packet ws c)
  obtain e out rand' c1 where w: "gcm_writePacket seqNum rand packet c = Ret (e, out, rand', c1)"
    using 2(2) by (auto simp: bind_go_def split: go.split_asm)
  obtain outs1 where r: "gcm_writes ws c1 = Ret (outs1, c')" and o: "outs = (if e = None then (packet, out) # outs1 else outs1)"
    using 2(2) w by (auto simp: bind_go_def split: go.split_asm prod.split_asm)
  have ih: "list_all2 (sealed_with (gc_aead c1)) (map (\<lambda>i. gc_iv ((incIV ^^ i) c1)) [0..<length outs1]) outs1"
    using 2(1) r by simp
  have m: "map (\<lambda>i. gc_iv ((incIV ^^ i) c)) [0..<Suc n] = gc_iv c # map (\<lambda>i. gc_iv ((incIV ^^ i) (incIV c))) [0..<n]" for n
    by (simp add: upt_conv_Cons map_Suc_upt [symmetric] funpow_swap1 del: upt_Suc)
  show ?case using gcm_writePacket_seals [OF w] ih by (auto simp: o m incIV_aead simp del: upt_Suc)
qed simp

text \<open>
  C23: no nonce of AES-GCM is used twice under one key.  Whatever packets \<open>gcmCipher.writePacket\<close>
  is given, one after the other, since the key was set (with a nonce of 12 bytes, and at most
  \<open>2 ^ 64\<close> of them), each is put on the wire as its length followed by the sealing of its padding
  length, itself and its padding under a nonce, and these nonces are pairwise different.
\<close>

theorem nonces_never_repeat:
  assumes "gcm_writes ws c = Ret (outs, c')" and "length (gc_iv c) = 12" and "length outs \<le> 2 ^ 64"
  shows "\<exists>nonces. distinct nonces \<and> list_all2 (sealed_with (gc_aead c)) nonces outs"
proof -
  let ?f = "\<lambda>i. gc_iv ((incIV ^^ i) c)"
  have "inj_on ?f {0..<length outs}"
  proof (rule linorder_inj_onI)
    fix i j assume "i < j" "i \<in> {0..<length outs}" "j \<in> {0..<length outs}"
    moreover then have "j - i < 2 ^ 64" using assms(3) by simp
    ultimately show "?f i \<noteq> ?f j" using iterates_differ [OF assms(2)] by blast
  qed auto
  then have "distinct (map ?f [0..<length outs])" by (simp add: distinct_map)
  then show ?thesis using gcm_writes_nonces [OF assms(1)] by blast
qed

theorem nonces_never_repeat_witness:
  "\<exists>outs c' nonces. gcm_writes [(0, replicate 15 CHR 0x07, ''hello''), (1, [], ''lost''), (2, replicate 15 CHR 0x08, ''again'')] demo_gcm
       = Ret (outs, c') \<and> map fst outs = [''hello'', ''again'']
     \<and> distinct nonces \<and> list_all2 (sealed_with (gc_aead demo_gcm)) nonces outs"
proof -
  let ?ws = "[(0, replicate 15 CHR 0x07, ''hello''), (1, [], ''lost''), (2, replicate 15 CHR 0x08, ''again'')] :: (u32 \<times> bytes \<times> bytes) list"
  have iv: "length (gc_iv demo_gcm) = 12" by (simp add: demo_gcm_def)
  obtain outs c' where w: "gcm_writes ?ws demo_gcm = Ret (outs, c')" and f: "map fst outs = [''hello'', ''again'']"
    by (simp add: gcm_writePacket_def gcm_padding_def packetSizeMultiple_def ReadFull_def Let_def)
  from f have "length outs \<le> 2 ^ 64" using length_map [of fst outs] by simp
  then obtain nonces where "distinct nonces" "list_all2 (sealed_with (gc_aead demo_gcm)) nonces outs"
    using nonces_never_repeat [OF w iv] by auto
  with w f show ?thesis by (intro exI conjI)
qed

end
