(* ===== verification/Transport_Proofs.thy ===== *)
theory Transport_Proofs
  imports Transport Packet_Safety
begin

section \<open>The transport delivers, across key changes\<close>

text \<open>
  One direction of a connection over any sequence of packets and key changes, the progress of the
  loop that passes over ignored messages, the derivation of keys, and what negotiation and key
  derivation give the two ends.
\<close>

subsection \<open>Two ends in step\<close>

definition conn_in_step :: "connectionState \<Rightarrow> connectionState \<Rightarrow> bool" where
  "conn_in_step w r \<longleftrightarrow> cipher_in_step (co_cipher w) (co_cipher r) \<and> co_seqNum w = co_seqNum r
     \<and> co_pendingKeyChange w = None \<and> co_pendingKeyChange r = None"

text \<open>Packets that every cipher takes.\<close>

definition sendable :: "bytes \<Rightarrow> bool" where
  "sendable p \<longleftrightarrow> p \<noteq> [] \<and> length p + 20 \<le> maxPacket"

lemma sendable_fits:
  assumes "cipher_in_step c d" "sendable p"
  shows "cipher_fits c p"
  using assms(1)
proof (cases rule: cipher_in_step_cases)
  case (stream s)
  then show ?thesis using assms(2) stream_padding_bounds(2) [of "encrypt_then_mac s" "length p"]
    by (simp add: sendable_def stream_fits_def)
next
  case (gcm g)
  then show ?thesis using assms(2) gcm_padding_bounds(2) [of "length p"] by (simp add: sendable_def gcm_fits_def)
next
  case (cbc x y)
  have "bc_Size (cb_block x) \<in> {8, 16}" using cbc(3) unfolding cbc_in_step_def by (blast dest: block_ok_size)
  then show ?thesis using assms(2) cbc(1) cbc_length_facts(2) [of "bc_Size (cb_block x)" "length p"]
    by (auto simp: sendable_def cbc_fits_def)
qed

text \<open>
  The two ends of one direction run through the same sequence: before some packets a key change is
  prepared, with the cipher of the writer and the cipher of the reader; the packet is then the
  message that switches to it.
\<close>

type_synonym item = "(packetCipher \<times> packetCipher) option \<times> bytes"

definition item_ok :: "item \<Rightarrow> bool" where
  "item_ok it \<longleftrightarrow> sendable (snd it) \<and> msg_type (snd it) \<noteq> Some msgDisconnect \<and>
     (case fst it of
        None \<Rightarrow> msg_type (snd it) \<noteq> Some msgNewKeys
      | Some (cw, cr) \<Rightarrow> cipher_in_step cw cr \<and> msg_type (snd it) = Some msgNewKeys)"

fun writer_run :: "item list \<Rightarrow> bytes \<Rightarrow> connectionState \<Rightarrow> (conn_err option \<times> bytes \<times> connectionState) go" where
  "writer_run [] rand s = Ret (None, [], s)"
| "writer_run ((k, p) # its) rand s =
     bind_go (case k of None \<Rightarrow> Ret s | Some (cw, _) \<Rightarrow> put_pending cw s) (\<lambda>s1.
     bind_go (conn_writePacket True rand p s1) (\<lambda>(e, out, rand', s2).
       case e of
         Some err \<Rightarrow> Ret (Some err, out, s2)
       | None \<Rightarrow> bind_go (writer_run its rand' s2) (\<lambda>(e', out', s'). Ret (e', out @ out', s'))))"

fun reader_run :: "(packetCipher \<times> packetCipher) option list \<Rightarrow> bytes \<Rightarrow> connectionState
    \<Rightarrow> (conn_err option \<times> bytes list \<times> bytes \<times> connectionState) go" where
  "reader_run [] r s = Ret (None, [], r, s)"
| "reader_run (k # ks) r s =
     bind_go (case k of None \<Rightarrow> Ret s | Some (_, cr) \<Rightarrow> put_pending cr s) (\<lambda>s1.
     bind_go (conn_readPacket r s1) (\<lambda>(res, r', s2).
       case res of
         Inl err \<Rightarrow> Ret (Some err, [], r', s2)
       | Inr p \<Rightarrow> bind_go (reader_run ks r' s2) (\<lambda>(e', ps, r'', s'). Ret (e', p # ps, r'', s'))))"

lemma put_pending_None: "co_pendingKeyChange s = None \<Longrightarrow> put_pending c s = Ret (s\<lparr>co_pendingKeyChange := Some c\<rparr>)"
  by (simp add: put_pending_def)

lemma one_item:
  assumes st: "conn_in_step w r" and ok: "item_ok (k, p)" and rand: "19 \<le> length rand"
  obtains w1 r1 out n w2 r2 where
    "(case k of None \<Rightarrow> Ret w | Some (cw, _) \<Rightarrow> put_pending cw w) = Ret w1"
    "(case k of None \<Rightarrow> Ret r | Some (_, cr) \<Rightarrow> put_pending cr r) = Ret r1"
    "conn_writePacket True rand p w1 = Ret (None, out, drop n rand, w2)" "n \<le> 19"
    "\<And>later. conn_readPacket (out @ later) r1 = Ret (Inr p, later, r2)" "conn_in_step w2 r2"
proof -
  have c: "cipher_in_step (co_cipher w) (co_cipher r)" "co_seqNum r = co_seqNum w"
      "co_pendingKeyChange w = None" "co_pendingKeyChange r = None"
    using st by (simp_all add: conn_in_step_def)
  have p: "sendable p" "msg_type p \<noteq> Some msgDisconnect" "p \<noteq> []" using ok by (auto simp: item_ok_def sendable_def)
  have f: "cipher_fits (co_cipher w) p" using sendable_fits [OF c(1) p(1)] .
  obtain n out cw where wr: "cipher_writePacket (co_seqNum w) rand p (co_cipher w) = Ret (None, out, drop n rand, cw)" "n \<le> 19"
    using cipher_writes [OF c(1) f rand] by blast
  obtain cr where rd: "cipher_in_step cw cr" "\<And>later. cipher_readPacket (co_seqNum w) (out @ later) (co_cipher r) = Ret (Inr p, later, cr)"
    using link.link_law [OF c(1) f wr(1)] by blast
  show thesis
  proof (cases k)
    case None
    then have t: "msg_type p \<noteq> Some msgNewKeys" using ok by (simp add: item_ok_def)
    show thesis
      by (rule that [of w r out n "w\<lparr>co_cipher := cw, co_seqNum := co_seqNum w + 1\<rparr>" "r\<lparr>co_cipher := cr, co_seqNum := co_seqNum r + 1\<rparr>"])
        (use None t p wr rd c in \<open>simp_all add: conn_writePacket_def conn_readPacket_def conn_received_def Let_def conn_in_step_def\<close>)
  next
    case (Some kk)
    obtain kw kr where kk: "kk = (kw, kr)" by fastforce
    have t: "cipher_in_step kw kr" "msg_type p = Some msgNewKeys" "msg_type p \<noteq> Some msgDisconnect"
      using ok Some kk p(2) by (simp_all add: item_ok_def)
    show thesis
      by (rule that [of "w\<lparr>co_pendingKeyChange := Some kw\<rparr>" "r\<lparr>co_pendingKeyChange := Some kr\<rparr>" out n
            "w\<lparr>co_cipher := kw, co_seqNum := co_seqNum w + 1, co_pendingKeyChange := None\<rparr>"
            "r\<lparr>co_cipher := kr, co_seqNum := co_seqNum r + 1, co_pendingKeyChange := None\<rparr>"])
        (use Some kk t p(3) wr rd c in \<open>simp_all add: put_pending_None conn_writePacket_def conn_readPacket_def
            conn_received_def Let_def conn_in_step_def\<close>)
  qed
qed

lemma items_delivered:
  assumes "conn_in_step w r" "\<forall>it \<in> set its. item_ok it" "19 * length its \<le> length rand"
  shows "\<exists>out w' r'. writer_run its rand w = Ret (None, out, w')
    \<and> (\<forall>later. reader_run (map fst its) (out @ later) r = Ret (None, map snd its, later, r')) \<and> conn_in_step w' r'"
  using assms
proof (induction its arbitrary: rand w r)
  case (Cons it its)
  obtain k p where it: "it = (k, p)" by fastforce
  have ok: "item_ok (k, p)" "19 \<le> length rand" using Cons.prems it by auto
  obtain w1 r1 out n w2 r2 where one:
    "(case k of None \<Rightarrow> Ret w | Some (cw, _) \<Rightarrow> put_pending cw w) = Ret w1"
    "(case k of None \<Rightarrow> Ret r | Some (_, cr) \<Rightarrow> put_pending cr r) = Ret r1"
    "conn_writePacket True rand p w1 = Ret (None, out, drop n rand, w2)" "n \<le> 19"
    "\<And>later. conn_readPacket (out @ later) r1 = Ret (Inr p, later, r2)" "conn_in_step w2 r2"
    using one_item [OF Cons.prems(1) ok] by blast
  have l: "19 * length its \<le> length (drop n rand)" using Cons.prems(3) one(4) by simp
  have oks: "\<forall>it \<in> set its. item_ok it" using Cons.prems(2) by simp
  from Cons.IH [OF one(6) oks l] obtain out' w' r' where
    "writer_run its (drop n rand) w2 = Ret (None, out', w')"
    "\<forall>later. reader_run (map fst its) (out' @ later) r2 = Ret (None, map snd its, later, r')" "conn_in_step w' r'"
    by blast
  then show ?case using one by (simp add: it)
qed simp

subsection \<open>Ignored messages\<close>

lemma ReadFull_shorter: "ReadFull n r = Some (a, b) \<Longrightarrow> length b + n = length r"
  by (auto simp: ReadFull_Some)

lemma stream_consumes: "stream_readPacket n r s = (Inr p, r', s') \<Longrightarrow> length r' < length r"
  by (auto simp: stream_readPacket_def Let_def prefixLen_def dest!: ReadFull_shorter split: option.split_asm prod.split_asm if_split_asm)

lemma gcm_consumes: "gcm_readPacket n r c = Ret (Inr p, r', c') \<Longrightarrow> length r' < length r"
  by (auto simp: gcm_readPacket_def Let_def dest!: ReadFull_shorter split: option.split_asm prod.split_asm if_split_asm)

lemma cbc_consumes: "cbc_readPacket n r c = (Inr p, r', c') \<Longrightarrow> length r' < length r"
proof -
  assume "cbc_readPacket n r c = (Inr p, r', c')"
  then obtain cam r1 where l: "cbc_readPacketLeaky n r c = (Inr p, cam, r1, c')" "r' = drop cam r1"
    by (auto simp: cbc_readPacket_def split: prod.split_asm)
  have "length r1 < length r"
    using l(1) by (auto simp: cbc_readPacketLeaky_def Let_def cbc_bad_header_def cbcMinPacketSize_def
        dest!: ReadFull_shorter split: option.split_asm prod.split_asm if_split_asm)
  then show ?thesis by (simp add: l(2))
qed

lemma cipher_consumes: "cipher_readPacket n r c = Ret (Inr p, r', c') \<Longrightarrow> length r' < length r"
  by (cases c) (auto simp: bind_go_Ret_iff dest: stream_consumes gcm_consumes cbc_consumes split: prod.split_asm)

lemma conn_received_Inr: "conn_received res s = (Inr p, s') \<Longrightarrow> res = Inr p"
  by (cases res) (auto simp: conn_received_def split: option.split_asm if_split_asm sum.split_asm)

lemma conn_consumes: "conn_readPacket r s = Ret (Inr p, r', s') \<Longrightarrow> length r' < length r"
proof -
  assume "conn_readPacket r s = Ret (Inr p, r', s')"
  then obtain res r1 c where 1: "cipher_readPacket (co_seqNum s) r (co_cipher s) = Ret (res, r1, c)"
      and 2: "(case conn_received res (s\<lparr>co_cipher := c, co_seqNum := co_seqNum s + 1\<rparr>) of (res', s') \<Rightarrow> Ret (res', r1, s'))
        = Ret (Inr p, r', s')"
    by (auto simp: conn_readPacket_def bind_go_Ret_iff)
  from 2 have "res = Inr p" "r1 = r'"
    by (cases "conn_received res (s\<lparr>co_cipher := c, co_seqNum := co_seqNum s + 1\<rparr>)"; simp add: conn_received_Inr)+
  then show ?thesis using 1 cipher_consumes by blast
qed

lemma cipher_read_no_hang: "cipher_readPacket n r c \<noteq> Hang"
  by (cases c) (auto simp: gcm_readPacket_def Let_def bind_go_def split: go.split option.split prod.split)

text \<open>The loop always ends: with a packet that is neither ignored nor a debug message, or an error.\<close>

lemma skip_loop_ends: "length r < n \<Longrightarrow> skip_loop n r s \<noteq> Hang"
proof (induction n arbitrary: r s)
  case (Suc n)
  have nh: "conn_readPacket r s \<noteq> Hang"
    using cipher_read_no_hang [of "co_seqNum s" r "co_cipher s"]
    by (cases "cipher_readPacket (co_seqNum s) r (co_cipher s)") (auto simp: conn_readPacket_def split: prod.split)
  show ?case
  proof (cases "conn_readPacket r s")
    case (Ret x)
    obtain res r' s' where x: "x = (res, r', s')" by (cases x) auto
    have "skip_loop n r' s' \<noteq> Hang" if "res = Inr p" for p
      using Suc.IH [of r' s'] conn_consumes [of r s p r' s'] Suc.prems Ret x that by simp
    then show ?thesis using Ret x by (cases res) auto
  qed (use nh in auto)
qed simp

subsection \<open>Keys\<close>

definition hash_ok :: "kexResult \<Rightarrow> bool" where
  "hash_ok r \<longleftrightarrow> (\<forall>x. kr_Hash r x \<noteq> [])"

lemma key_loop_returns:
  "hash_ok r \<Longrightarrow> n \<le> fuel \<Longrightarrow> \<exists>ks. key_loop fuel n tag ds r = Ret ks \<and> length ks = n"
proof (induction fuel n tag ds r rule: key_loop.induct)
  case (3 fuel n tag ds r)
  define d where "d = kr_Hash r (kr_K r @ kr_H r @ (if ds = [] then tag @ kr_SessionID r else ds))"
  have "0 < length d" using 3(2) by (simp add: hash_ok_def d_def)
  then have "Suc n - length d \<le> fuel" using 3(3) by linarith
  from 3(1) [OF d_def 3(2) this] obtain ks where
    "key_loop fuel (Suc n - length d) tag (ds @ d) r = Ret ks" "length ks = Suc n - length d" by blast
  then show ?case by (simp add: d_def [symmetric] Let_def)
qed simp_all

lemma generateKeyMaterial_returns:
  assumes "hash_ok r"
  obtains ks where "generateKeyMaterial n tag r = Ret ks" "length ks = n"
  using key_loop_returns [OF assms, of n n] by (auto simp: generateKeyMaterial_def)

text \<open>The hypothesis on the primitives, for every key.\<close>

definition primitives_ok :: "primitives \<Rightarrow> bool" where
  "primitives_ok pr \<longleftrightarrow>
     (\<forall>k. aead_ok (pr_AESGCM pr k)) \<and> (\<forall>k. block_ok (pr_AES pr k) \<and> bc_Size (pr_AES pr k) = 16)
   \<and> (\<forall>k. block_ok (pr_TripleDES pr k) \<and> bc_Size (pr_TripleDES pr k) = 8)
   \<and> (\<forall>k. mh_Size (pr_HMACSHA256 pr k) = 32 \<and> (\<forall>x. length (mh_Sum (pr_HMACSHA256 pr k) x) = 32))
   \<and> (\<forall>k. mh_Size (pr_HMACSHA1 pr k) = 20 \<and> (\<forall>x. length (mh_Sum (pr_HMACSHA1 pr k) x) = 20))"

lemma macModes_ok: "primitives_ok pr \<Longrightarrow> macModes m = Some mm \<Longrightarrow> mac_ok (Some (mm_new mm pr k))"
  by (auto simp: primitives_ok_def macModes_def mac_ok_def mac_of_def mac_size_def truncatingMAC_def split: if_split_asm)

definition known_algs :: "directionAlgorithms \<Rightarrow> bool" where
  "known_algs a \<longleftrightarrow> cipherModes (da_Cipher a) \<noteq> None \<and> macModes (da_MAC a) \<noteq> None"

lemma cipherModes_cases:
  assumes "cipherModes c = Some cm"
  obtains "c = gcmCipherID" "sm_ivSize cm = 12" | "c = aes128cbcID" "sm_ivSize cm = 16" | "c = tripledescbcID" "sm_ivSize cm = 8"
  | "c \<noteq> gcmCipherID" "c \<noteq> aes128cbcID" "c \<noteq> tripledescbcID" "sm_create cm \<noteq> NoStream"
  using assms by (auto simp: cipherModes_def cipher_mode_def gcmCipherID_def aes128cbcID_def tripledescbcID_def split: if_split_asm)

text \<open>Two ends that derive a cipher from the same secrets, tags and algorithms have ciphers in step.\<close>

lemma newPacketCipher_ok:
  assumes pr: "primitives_ok pr" and h: "hash_ok kex" and k: "known_algs algs"
  obtains c where "newPacketCipher pr d algs kex = Ret c" "cipher_in_step c c"
    "(\<exists>g. c = PGCM g) \<longleftrightarrow> da_Cipher algs = gcmCipherID"
proof -
  obtain cm mm where m: "cipherModes (da_Cipher algs) = Some cm" "macModes (da_MAC algs) = Some mm"
    using k by (auto simp: known_algs_def)
  obtain iv where iv: "generateKeyMaterial (sm_ivSize cm) (dt_ivTag d) kex = Ret iv" "length iv = sm_ivSize cm"
    using generateKeyMaterial_returns [OF h] by blast
  obtain key where key: "generateKeyMaterial (sm_keySize cm) (dt_keyTag d) kex = Ret key" "length key = sm_keySize cm"
    using generateKeyMaterial_returns [OF h] by blast
  obtain mk where mk: "generateKeyMaterial (mm_keySize mm) (dt_macKeyTag d) kex = Ret mk"
    using generateKeyMaterial_returns [OF h] by blast
  have g: "generateKeys d algs kex = Ret (iv, key, mk)" by (simp add: generateKeys_def m iv key mk)
  have n: "newPacketCipher pr d algs kex =
      (if da_Cipher algs = gcmCipherID then Ret (PGCM \<lparr>gc_aead = pr_AESGCM pr key, gc_iv = iv\<rparr>)
       else if da_Cipher algs = aes128cbcID then Ret (PCBC (newCBCCipher (Some (mm_new mm pr mk)) (pr_AES pr key) iv))
       else if da_Cipher algs = tripledescbcID then Ret (PCBC (newCBCCipher (Some (mm_new mm pr mk)) (pr_TripleDES pr key) iv))
       else bind_go (createStream pr cm key iv) (\<lambda>k.
              Ret (PStream \<lparr>sp_mac = Some (mm_new mm pr mk), sp_cipher = k, sp_etm = mm_etm mm\<rparr>)))"
    by (simp add: newPacketCipher_def g m)
  have mo: "mac_ok (Some (mm_new mm pr mk))" using macModes_ok [OF pr m(2)] .
  from m(1) show thesis
  proof (cases rule: cipherModes_cases)
    case 1
    then show thesis using pr by (intro that [of "PGCM \<lparr>gc_aead = pr_AESGCM pr key, gc_iv = iv\<rparr>"])
      (simp_all add: n gcm_in_step_def primitives_ok_def)
  next
    case 2
    then show thesis using pr mo iv(2)
      by (intro that [of "PCBC (newCBCCipher (Some (mm_new mm pr mk)) (pr_AES pr key) iv)"])
        (simp_all add: n newCBCCipher_def cbc_in_step_def primitives_ok_def gcmCipherID_def aes128cbcID_def)
  next
    case 3
    then show thesis using pr mo iv(2)
      by (intro that [of "PCBC (newCBCCipher (Some (mm_new mm pr mk)) (pr_TripleDES pr key) iv)"])
        (simp_all add: n newCBCCipher_def cbc_in_step_def primitives_ok_def gcmCipherID_def aes128cbcID_def tripledescbcID_def)
  next
    case 4
    obtain ks where "createStream pr cm key iv = Ret ks"
      using 4(4) iv(2) key(2) by (cases "sm_create cm") (simp_all add: createStream_def Let_def)
    then show thesis using 4 mo
      by (intro that [of "PStream \<lparr>sp_mac = Some (mm_new mm pr mk), sp_cipher = ks, sp_etm = mm_etm mm\<rparr>"])
        (simp_all add: n stream_in_step_def)
  qed
qed

end
