(* ===== verification/Transport_Keys.thy ===== *)
theory Transport_Keys
  imports Transport_Proofs
begin

section \<open>From negotiation to delivery\<close>

text \<open>
  What the two ends get from the negotiation and the derivation of keys, the delivery of packets
  across key changes, and the exchange of version lines.
\<close>

subsection \<open>Negotiated algorithms\<close>

definition macs_known :: "ssh_config \<Rightarrow> bool" where
  "macs_known cfg \<longleftrightarrow> (case sg_MACs cfg of None \<Rightarrow> True | Some ms \<Rightarrow> \<forall>m \<in> set ms. macModes m \<noteq> None)"

lemma known_ciphers_modes: "c \<in> set known_ciphers \<Longrightarrow> cipherModes c \<noteq> None"
  by (auto simp: known_ciphers_def cipherModes_def)

lemma supported_macs_modes: "m \<in> set supportedMACs \<Longrightarrow> macModes m \<noteq> None"
  by (auto simp: supportedMACs_def macModes_def)

lemma findCommon_member: "findCommon w xs ys = Inr a \<Longrightarrow> a \<in> set xs"
  by (auto simp: findCommon_Inr)

lemma findCommon_same: "findCommon w xs ys = Inr a \<Longrightarrow> findCommon w' xs ys = Inr b \<Longrightarrow> a = b"
  by (auto simp: findCommon_def split: option.split_asm)

lemma negotiated_directions:
  "findAgreedAlgorithms (kex_init_of c ch) (kex_init_of s sh) = Inr a \<Longrightarrow> ag_w a = ag_r a"
proof -
  assume f: "findAgreedAlgorithms (kex_init_of c ch) (kex_init_of s sh) = Inr a"
  have "da_Cipher (ag_w a) = da_Cipher (ag_r a)" "da_MAC (ag_w a) = da_MAC (ag_r a)"
      "da_Compression (ag_w a) = da_Compression (ag_r a)"
    using f unfolding findAgreed_Inr by (auto simp: kex_init_of_def Let_def dest: findCommon_same)
  then show ?thesis by simp
qed

lemma negotiated_known:
  assumes f: "findAgreedAlgorithms (kex_init_of (SetDefaults c) ch) s = Inr a" and m: "macs_known c"
  shows "known_algs (ag_w a)" "known_algs (ag_r a)"
proof -
  have k: "cipherModes x \<noteq> None" if "x \<in> set (ki_CiphersClientServer (kex_init_of (SetDefaults c) ch))" for x
    using that known_ciphers_modes [of x]
    by (auto simp: kex_init_of_def SetDefaults_def Let_def nil_if_empty_def split: option.split_asm if_split_asm)
  have l: "macModes x \<noteq> None" if "x \<in> set (ki_MACsClientServer (kex_init_of (SetDefaults c) ch))" for x
    using that m supported_macs_modes [of x]
    by (auto simp: kex_init_of_def SetDefaults_def Let_def macs_known_def split: option.split_asm)
  have e: "ki_CiphersServerClient (kex_init_of (SetDefaults c) ch) = ki_CiphersClientServer (kex_init_of (SetDefaults c) ch)"
      "ki_MACsServerClient (kex_init_of (SetDefaults c) ch) = ki_MACsClientServer (kex_init_of (SetDefaults c) ch)"
    by (simp_all add: kex_init_of_def Let_def)
  show "known_algs (ag_w a)" "known_algs (ag_r a)"
    using f k l unfolding findAgreed_Inr e known_algs_def by (metis findCommon_member)+
qed

subsection \<open>Keys of the two ends\<close>

lemma prepareKeyChange_newTransport:
  assumes "newPacketCipher pr (if b then serverKeys else clientKeys) (ag_r a) kex = Ret cr"
    "newPacketCipher pr (if b then clientKeys else serverKeys) (ag_w a) kex = Ret cw"
  shows "prepareKeyChange pr a kex (newTransport b) =
    Ret (newTransport b\<lparr>tp_reader := plain_state (if b then serverKeys else clientKeys)\<lparr>co_pendingKeyChange := Some cr\<rparr>,
                       tp_writer := plain_state (if b then clientKeys else serverKeys)\<lparr>co_pendingKeyChange := Some cw\<rparr>\<rparr>)"
  using assms by (cases b) (simp_all add: prepareKeyChange_def newTransport_def plain_state_def put_pending_def)

text \<open>Primitives for the witnesses.\<close>

definition demo_primitives :: primitives where
  "demo_primitives = \<lparr>pr_AESCTR = (\<lambda>k i n. CHR 0x00), pr_RC4 = (\<lambda>k n. CHR 0x00), pr_AESGCM = (\<lambda>k. demo_aead),
     pr_AES = (\<lambda>k. \<lparr>bc_Size = 16, bc_Encrypt = (\<lambda>x. x), bc_Decrypt = (\<lambda>x. x)\<rparr>),
     pr_TripleDES = (\<lambda>k. \<lparr>bc_Size = 8, bc_Encrypt = (\<lambda>x. x), bc_Decrypt = (\<lambda>x. x)\<rparr>),
     pr_HMACSHA256 = (\<lambda>k. \<lparr>mh_Sum = (\<lambda>x. replicate 32 CHR 0x01), mh_Size = 32\<rparr>),
     pr_HMACSHA1 = (\<lambda>k. \<lparr>mh_Sum = (\<lambda>x. replicate 20 CHR 0x01), mh_Size = 20\<rparr>)\<rparr>"

definition demo_kex :: kexResult where
  "demo_kex = \<lparr>kr_H = ''h'', kr_K = ''k'', kr_HostKey = [], kr_Signature = [], kr_SessionID = ''s'', kr_Hash = (\<lambda>x. replicate 32 CHR 0x02)\<rparr>"

definition demo_config :: ssh_config where
  "demo_config = \<lparr>sg_RekeyThreshold = 0, sg_KeyExchanges = None, sg_Ciphers = None, sg_MACs = None\<rparr>"

lemma demo_primitives_ok: "primitives_ok demo_primitives" "hash_ok demo_kex"
  using demo_ok by (auto simp: primitives_ok_def demo_primitives_def block_ok_def hash_ok_def demo_kex_def)

text \<open>
  C16: a client and a server that built their offers from their configurations, agreed, and hold
  the same result of the key exchange, prepare ciphers that fit together in both directions: what
  the client will write with after the switch is in step with what the server will read with, and
  the other way round.  Neither end panics or waits, whatever ciphers, key exchanges and lists were
  configured, as long as every configured MAC of the client is a known one.
\<close>

theorem keys_of_both_ends_fit:
  assumes "agree True (kex_init_of (SetDefaults cc) ch) (kex_init_of sc sh) = Inr a"
    and "macs_known cc" and "primitives_ok pr" and "hash_ok kex"
  shows "agree False (kex_init_of sc sh) (kex_init_of (SetDefaults cc) ch) = Inr a \<and>
    (\<exists>tc ts cw cr sw sr. prepareKeyChange pr a kex (newTransport True) = Ret tc
       \<and> prepareKeyChange pr a kex (newTransport False) = Ret ts
       \<and> co_pendingKeyChange (tp_writer tc) = Some cw \<and> co_pendingKeyChange (tp_reader ts) = Some sr \<and> cipher_in_step cw sr
       \<and> co_pendingKeyChange (tp_writer ts) = Some sw \<and> co_pendingKeyChange (tp_reader tc) = Some cr \<and> cipher_in_step sw cr)"
proof
  have f: "findAgreedAlgorithms (kex_init_of (SetDefaults cc) ch) (kex_init_of sc sh) = Inr a"
    using assms(1) by (simp add: agree_def)
  then show "agree False (kex_init_of sc sh) (kex_init_of (SetDefaults cc) ch) = Inr a" by (simp add: agree_def)
  have same: "ag_w a = ag_r a" using negotiated_directions [OF f] .
  have known: "known_algs (ag_r a)" using negotiated_known(2) [OF f assms(2)] .
  obtain c where c: "newPacketCipher pr clientKeys (ag_r a) kex = Ret c" "cipher_in_step c c"
    using newPacketCipher_ok [OF assms(3,4) known] by blast
  obtain s where s: "newPacketCipher pr serverKeys (ag_r a) kex = Ret s" "cipher_in_step s s"
    using newPacketCipher_ok [OF assms(3,4) known] by blast
  show "\<exists>tc ts cw cr sw sr. prepareKeyChange pr a kex (newTransport True) = Ret tc
       \<and> prepareKeyChange pr a kex (newTransport False) = Ret ts
       \<and> co_pendingKeyChange (tp_writer tc) = Some cw \<and> co_pendingKeyChange (tp_reader ts) = Some sr \<and> cipher_in_step cw sr
       \<and> co_pendingKeyChange (tp_writer ts) = Some sw \<and> co_pendingKeyChange (tp_reader tc) = Some cr \<and> cipher_in_step sw cr"
    using prepareKeyChange_newTransport [of pr True a kex s c] prepareKeyChange_newTransport [of pr False a kex c s] c s same
    by simp
qed

theorem keys_of_both_ends_fit_witness:
  "\<exists>a. agree True (kex_init_of (SetDefaults demo_config) [''ssh-rsa'']) (kex_init_of (SetDefaults demo_config) [''ssh-rsa'']) = Inr a
    \<and> agree False (kex_init_of (SetDefaults demo_config) [''ssh-rsa'']) (kex_init_of (SetDefaults demo_config) [''ssh-rsa'']) = Inr a
    \<and> (\<exists>tc ts. prepareKeyChange demo_primitives a demo_kex (newTransport True) = Ret tc
       \<and> prepareKeyChange demo_primitives a demo_kex (newTransport False) = Ret ts)"
proof -
  let ?i = "kex_init_of (SetDefaults demo_config) [''ssh-rsa'']"
  have "\<not> isl (agree True ?i ?i)" by code_simp
  then obtain a where a: "agree True ?i ?i = Inr a" by (cases "agree True ?i ?i") simp_all
  have m: "macs_known demo_config" by (simp add: macs_known_def demo_config_def)
  from keys_of_both_ends_fit [OF a m demo_primitives_ok] a show ?thesis by blast
qed

text \<open>
  The algorithms of the two directions are not swapped on the server.  When the agreement has
  AES-GCM from the client to the server and another known cipher from the server to the client,
  which a peer may offer, then the client writes with AES-GCM and the server reads with the cipher of
  the other direction, and the server writes with AES-GCM what the client reads with the other
  cipher.
\<close>

lemma server_mixes_directions:
  assumes "primitives_ok pr" and "hash_ok kex" and "known_algs (ag_w a)" and "known_algs (ag_r a)"
    and "da_Cipher (ag_w a) = gcmCipherID" and "da_Cipher (ag_r a) \<noteq> gcmCipherID"
  shows "\<exists>tc ts cw cr sw sr. prepareKeyChange pr a kex (newTransport True) = Ret tc
       \<and> prepareKeyChange pr a kex (newTransport False) = Ret ts
       \<and> co_pendingKeyChange (tp_writer tc) = Some (PGCM cw) \<and> co_pendingKeyChange (tp_reader ts) = Some sr \<and> sr \<notin> range PGCM
       \<and> co_pendingKeyChange (tp_writer ts) = Some (PGCM sw) \<and> co_pendingKeyChange (tp_reader tc) = Some cr \<and> cr \<notin> range PGCM"
proof -
  obtain cw where cw: "newPacketCipher pr clientKeys (ag_w a) kex = Ret (PGCM cw)"
    using newPacketCipher_ok [OF assms(1,2,3), of clientKeys] assms(5) by blast
  obtain sw where sw: "newPacketCipher pr serverKeys (ag_w a) kex = Ret (PGCM sw)"
    using newPacketCipher_ok [OF assms(1,2,3), of serverKeys] assms(5) by blast
  obtain cr where cr: "newPacketCipher pr serverKeys (ag_r a) kex = Ret cr" "cr \<notin> range PGCM"
    using newPacketCipher_ok [OF assms(1,2,4), of serverKeys] assms(6) by blast
  obtain sr where sr: "newPacketCipher pr clientKeys (ag_r a) kex = Ret sr" "sr \<notin> range PGCM"
    using newPacketCipher_ok [OF assms(1,2,4), of clientKeys] assms(6) by blast
  show ?thesis
    using prepareKeyChange_newTransport [of pr True a kex cr "PGCM cw"] prepareKeyChange_newTransport [of pr False a kex sr "PGCM sw"]
      cw sw cr sr by simp
qed

subsection \<open>Delivery across key changes\<close>

text \<open>
  C6: one direction of a connection delivers.  From two ends in step, over any sequence of the packets described below
  and of key changes in which every switch carries fitting ciphers, the writer succeeds on every
  packet and the reader gets exactly the packets, in order and unchanged, whatever the ciphers, the
  padding and the bytes that follow; the ends are in step afterwards, with equal sequence numbers.
  The packets are not empty and at least 20 bytes shorter than \<open>maxPacket\<close> (larger ones are written, but with their padding
  exceed what the reader accepts); none is a disconnect message, which the reader turns into an error; the message that switches
  the keys comes exactly where a key change is pending; and the random source gives 19 bytes for each packet.
\<close>

theorem transport_delivers:
  assumes "conn_in_step w r" and "\<forall>it \<in> set its. item_ok it" and "19 * length its \<le> length rand"
  shows "\<exists>out w' r'. writer_run its rand w = Ret (None, out, w')
    \<and> (\<forall>later. reader_run (map fst its) (out @ later) r = Ret (None, map snd its, later, r')) \<and> conn_in_step w' r'"
  using assms by (rule items_delivered)

definition demo_items :: "item list" where
  "demo_items = [(None, ''hello''), (Some (PGCM demo_gcm, PGCM demo_gcm), [CHR 0x15]), (None, ''secret'')]"

theorem transport_delivers_witness:
  "\<exists>out w'. writer_run demo_items (replicate 60 CHR 0x00) (plain_state clientKeys) = Ret (None, out, w')
    \<and> (\<exists>r'. reader_run (map fst demo_items) out (plain_state clientKeys) = Ret (None, [''hello'', [CHR 0x15], ''secret''], [], r'))"
proof -
  have st: "conn_in_step (plain_state clientKeys) (plain_state clientKeys)"
    by (simp add: conn_in_step_def plain_state_def stream_in_step_def mac_ok_def mac_of_def mac_size_def)
  have ok: "\<forall>it \<in> set demo_items. item_ok it"
    using demo_ok by (simp add: demo_items_def item_ok_def sendable_def maxPacket_def msg_type_def msgDisconnect_def
        msgNewKeys_def gcm_in_step_def demo_gcm_def)
  have "19 * length demo_items \<le> length (replicate 60 CHR 0x00)" by (simp add: demo_items_def)
  from transport_delivers [OF st ok this] obtain out w' r' where
    "writer_run demo_items (replicate 60 CHR 0x00) (plain_state clientKeys) = Ret (None, out, w')"
    "\<forall>later. reader_run (map fst demo_items) (out @ later) (plain_state clientKeys) = Ret (None, map snd demo_items, later, r')"
    by blast
  moreover from this(2) have "reader_run (map fst demo_items) (out @ []) (plain_state clientKeys) = Ret (None, map snd demo_items, [], r')"
    by blast
  ultimately show ?thesis by (simp add: demo_items_def)
qed

subsection \<open>Version lines\<close>

lemma version_loop_line:
  "CHR 0x0A \<notin> set v \<Longrightarrow> version_loop n acc (v @ CHR 0x0A # later) =
     (if length v < n then (Inr (acc @ v), later) else (Inl ErrVersionOverflow, drop n (v @ CHR 0x0A # later)))"
proof (induction v arbitrary: n acc)
  case Nil
  then show ?case by (cases n) simp_all
next
  case (Cons c v)
  then show ?case by (cases n) auto
qed

text \<open>
  A version line that one end sends is read by the other exactly, and the bytes after it are
  left alone, as long as it has at most 253 bytes; a longer line is sent all the same, and the
  other end gives up with an overflow.
\<close>

lemma versions_round_trip:
  assumes "exchangeVersions True v r = (res, sent, r')" and "\<forall>c \<in> set v. 32 \<le> (of_char c :: nat)"
  shows "sent = v @ [CHR 0x0D, CHR 0x0A] \<and>
    (if length v \<le> 253 then readVersion (sent @ later) = (Inr v, later)
     else \<exists>rest. readVersion (sent @ later) = (Inl ErrVersionOverflow, rest))"
proof -
  have nj: "\<not> (\<exists>c \<in> set v. of_char c < (32 :: nat))" using assms(2) by force
  then have s: "sent = v @ [CHR 0x0D, CHR 0x0A]"
    using assms(1) by (auto simp: exchangeVersions_def split: prod.split_asm)
  have "CHR 0x0A \<notin> set (v @ [CHR 0x0D])" using assms(2) by auto
  from version_loop_line [OF this, of maxVersionStringBytes "[]" later] show ?thesis
    by (simp add: s readVersion_def maxVersionStringBytes_def)
qed

end
