(* ===== verification/Kex.thy ===== *)
theory Kex
  imports Transport
begin

section \<open>Key exchange\<close>

text \<open>
  \<^verbatim>\<open>kex.go\<close> of the ssh library in \<^verbatim>\<open>xendor/github.com/glycerine/xcryptossh\<close>: Diffie-Hellman over the
  integers modulo a prime, over the curves of \<^verbatim>\<open>crypto/elliptic\<close> and over curve25519.  The groups of
  integers are computed here; the curves, the hash functions and the signature of the host key are
  parameters.

  The client sends one packet and reads one, the server reads one and sends one.  The outcome of the
  write and what the read gives are arguments; the packets that went out are the first part of the
  result.  The random source is the list of numbers that \<^verbatim>\<open>rand.Int\<close> gives and the bytes that are read
  from it.
\<close>

subsection \<open>Data\<close>

record handshakeMagics =
  hm_clientVersion :: bytes
  hm_serverVersion :: bytes
  hm_clientKexInit :: bytes
  hm_serverKexInit :: bytes

definition writeString :: "bytes \<Rightarrow> bytes" where
  "writeString s = PutUint32 (word_of_nat (length s)) @ s"

definition writeInt :: "int \<Rightarrow> bytes" where
  "writeInt n = marshalInt n"

definition magics_write :: "handshakeMagics \<Rightarrow> bytes" where
  "magics_write m = writeString (hm_clientVersion m) @ writeString (hm_serverVersion m)
     @ writeString (hm_clientKexInit m) @ writeString (hm_serverKexInit m)"

record dhGroup =
  dh_g :: int
  dh_p :: int
  dh_pMinus1 :: int

record ec_curve =
  ec_P :: int
  ec_BitSize :: nat
  ec_IsOnCurve :: "int \<Rightarrow> int \<Rightarrow> bool"
  ec_ScalarMult :: "int \<Rightarrow> int \<Rightarrow> bytes \<Rightarrow> int \<times> int"
  ec_Marshal :: "int \<Rightarrow> int \<Rightarrow> bytes"
  ec_Unmarshal :: "bytes \<Rightarrow> (int \<times> int) option"
  ec_GenerateKey :: "bytes \<Rightarrow> (bytes \<times> int \<times> int) option"

record kex_prims =
  kp_SHA1 :: "bytes \<Rightarrow> bytes"
  kp_SHA256 :: "bytes \<Rightarrow> bytes"
  kp_SHA384 :: "bytes \<Rightarrow> bytes"
  kp_SHA512 :: "bytes \<Rightarrow> bytes"
  kp_P256 :: ec_curve
  kp_P384 :: ec_curve
  kp_P521 :: ec_curve
  kp_ScalarBaseMult :: "bytes \<Rightarrow> bytes"
  kp_ScalarMult :: "bytes \<Rightarrow> bytes \<Rightarrow> bytes"

record signer =
  sn_Type :: string
  sn_PublicKey :: bytes
  sn_Sign :: "bytes \<Rightarrow> (string \<times> bytes) option"

record randoms =
  rn_Ints :: "nat list"
  rn_Bytes :: bytes

datatype kex_err =
    KexConn conn_err
  | KexWire wire_err
  | ErrRand
  | ErrDHBounds
  | ErrECUnmarshal
  | ErrNotOnCurve
  | ErrKeyLength
  | ErrKeyOrder
  | ErrSign

definition signature_schema :: schema where
  "signature_schema = \<lparr>sc_tags = [], sc_fields = [KString, KBytes]\<rparr>"

definition signAndMarshal :: "signer \<Rightarrow> bytes \<Rightarrow> kex_err + bytes" where
  "signAndMarshal k data =
     (case sn_Sign k data of
        None \<Rightarrow> Inl ErrSign
      | Some (format, blob) \<Rightarrow> Inr (Marshal signature_schema [VStr format, VBytes blob]))"

text \<open>What the two ends hash: everything they saw, and the secret.\<close>

definition dh_transcript :: "handshakeMagics \<Rightarrow> bytes \<Rightarrow> int \<Rightarrow> int \<Rightarrow> int \<Rightarrow> bytes" where
  "dh_transcript m hostKey X Y k = magics_write m @ writeString hostKey @ writeInt X @ writeInt Y @ marshalInt k"

definition ec_transcript :: "handshakeMagics \<Rightarrow> bytes \<Rightarrow> bytes \<Rightarrow> bytes \<Rightarrow> int \<Rightarrow> bytes" where
  "ec_transcript m hostKey cpub spub k =
     magics_write m @ writeString hostKey @ writeString cpub @ writeString spub @ marshalInt k"

definition kex_result :: "(bytes \<Rightarrow> bytes) \<Rightarrow> bytes \<Rightarrow> int \<Rightarrow> bytes \<Rightarrow> bytes \<Rightarrow> kexResult" where
  "kex_result hash transcript k hostKey sig =
     \<lparr>kr_H = hash transcript, kr_K = marshalInt k, kr_HostKey = hostKey, kr_Signature = sig, kr_SessionID = [], kr_Hash = hash\<rparr>"

text \<open>The packet that is sent, when the write succeeds.\<close>

definition sent :: "conn_err option \<Rightarrow> bytes \<Rightarrow> bytes list" where
  "sent wr p = (if wr = None then [p] else [])"

definition read_msg :: "schema \<Rightarrow> conn_err + bytes \<Rightarrow> kex_err + fval list" where
  "read_msg s rd =
     (case rd of
        Inl e \<Rightarrow> Inl (KexConn e)
      | Inr packet \<Rightarrow> (case Unmarshal s packet of Inl e \<Rightarrow> Inl (KexWire e) | Inr vs \<Rightarrow> Inr vs))"

subsection \<open>Integers modulo a prime\<close>

definition Exp :: "int \<Rightarrow> nat \<Rightarrow> int \<Rightarrow> int" where
  "Exp a n p = a ^ n mod p"

definition diffieHellman :: "dhGroup \<Rightarrow> int \<Rightarrow> nat \<Rightarrow> kex_err + int" where
  "diffieHellman grp theirPublic myPrivate =
     (if theirPublic \<le> 1 \<or> theirPublic \<ge> dh_pMinus1 grp then Inl ErrDHBounds
      else Inr (Exp theirPublic myPrivate (dh_p grp)))"

fun draw_loop :: "nat list \<Rightarrow> kex_err + nat" where
  "draw_loop [] = Inl ErrRand"
| "draw_loop (x # xs) = (if 0 < x then Inr x else draw_loop xs)"

definition dh_Client :: "kex_prims \<Rightarrow> dhGroup \<Rightarrow> randoms \<Rightarrow> handshakeMagics \<Rightarrow> conn_err option \<Rightarrow> conn_err + bytes
    \<Rightarrow> bytes list \<times> (kex_err + kexResult)" where
  "dh_Client pr grp rn m wr rd =
     (case draw_loop (rn_Ints rn) of
        Inl e \<Rightarrow> ([], Inl e)
      | Inr x \<Rightarrow>
          let X = Exp (dh_g grp) x (dh_p grp) in
          (sent wr (Marshal kexDHInitMsg [VInt X]),
           case wr of
             Some e \<Rightarrow> Inl (KexConn e)
           | None \<Rightarrow>
               bind_err (read_msg kexDHReplyMsg rd) (\<lambda>vs.
                 case vs of
                   [VBytes hostKey, VInt Y, VBytes sig] \<Rightarrow>
                     bind_err (diffieHellman grp Y x) (\<lambda>kInt.
                       Inr (kex_result (kp_SHA1 pr) (dh_transcript m hostKey X Y kInt) kInt hostKey sig))
                 | _ \<Rightarrow> Inl (KexWire FieldError))))"

text \<open>The server does not look at the error of its write.\<close>

definition dh_Server :: "kex_prims \<Rightarrow> dhGroup \<Rightarrow> randoms \<Rightarrow> handshakeMagics \<Rightarrow> signer \<Rightarrow> conn_err + bytes \<Rightarrow> conn_err option
    \<Rightarrow> bytes list \<times> (kex_err + kexResult)" where
  "dh_Server pr grp rn m priv rd wr =
     (case bind_err (read_msg kexDHInitMsg rd) (\<lambda>vs.
             case vs of
               [VInt X] \<Rightarrow>
                 bind_err (draw_loop (rn_Ints rn)) (\<lambda>y.
                 let Y = Exp (dh_g grp) y (dh_p grp) in
                 bind_err (diffieHellman grp X y) (\<lambda>kInt.
                 let hostKeyBytes = sn_PublicKey priv; t = dh_transcript m hostKeyBytes X Y kInt in
                 bind_err (signAndMarshal priv (kp_SHA1 pr t)) (\<lambda>sig.
                   Inr (Marshal kexDHReplyMsg [VBytes hostKeyBytes, VInt Y, VBytes sig],
                        kex_result (kp_SHA1 pr) t kInt hostKeyBytes sig))))
             | _ \<Rightarrow> Inl (KexWire FieldError)) of
        Inl e \<Rightarrow> ([], Inl e)
      | Inr (reply, result) \<Rightarrow> (sent wr reply, Inr result))"

subsection \<open>Elliptic curves\<close>

definition ecHash :: "kex_prims \<Rightarrow> ec_curve \<Rightarrow> bytes \<Rightarrow> bytes" where
  "ecHash pr c = (if ec_BitSize c \<le> 256 then kp_SHA256 pr else if ec_BitSize c \<le> 384 then kp_SHA384 pr else kp_SHA512 pr)"

definition validateECPublicKey :: "ec_curve \<Rightarrow> int \<Rightarrow> int \<Rightarrow> bool" where
  "validateECPublicKey c x y =
     (if x = 0 \<and> y = 0 then False
      else if x \<ge> ec_P c then False
      else if y \<ge> ec_P c then False
      else ec_IsOnCurve c x y)"

definition unmarshalECKey :: "ec_curve \<Rightarrow> bytes \<Rightarrow> kex_err + int \<times> int" where
  "unmarshalECKey c pubkey =
     (case ec_Unmarshal c pubkey of
        None \<Rightarrow> Inl ErrECUnmarshal
      | Some (x, y) \<Rightarrow> if validateECPublicKey c x y then Inr (x, y) else Inl ErrNotOnCurve)"

definition ec_Client :: "kex_prims \<Rightarrow> ec_curve \<Rightarrow> randoms \<Rightarrow> handshakeMagics \<Rightarrow> conn_err option \<Rightarrow> conn_err + bytes
    \<Rightarrow> bytes list \<times> (kex_err + kexResult)" where
  "ec_Client pr c rn m wr rd =
     (case ec_GenerateKey c (rn_Bytes rn) of
        None \<Rightarrow> ([], Inl ErrRand)
      | Some (d, px, py) \<Rightarrow>
          let cpub = ec_Marshal c px py in
          (sent wr (Marshal kexECDHInitMsg [VBytes cpub]),
           case wr of
             Some e \<Rightarrow> Inl (KexConn e)
           | None \<Rightarrow>
               bind_err (read_msg kexECDHReplyMsg rd) (\<lambda>vs.
                 case vs of
                   [VBytes hostKey, VBytes spub, VBytes sig] \<Rightarrow>
                     bind_err (unmarshalECKey c spub) (\<lambda>(x, y).
                     let secret = fst (ec_ScalarMult c x y d) in
                       Inr (kex_result (ecHash pr c) (ec_transcript m hostKey cpub spub secret) secret hostKey sig))
                 | _ \<Rightarrow> Inl (KexWire FieldError))))"

text \<open>The end of both elliptic servers: the write has to succeed.\<close>

definition ec_reply :: "conn_err option \<Rightarrow> kex_err + bytes \<times> kexResult \<Rightarrow> bytes list \<times> (kex_err + kexResult)" where
  "ec_reply wr r =
     (case r of
        Inl e \<Rightarrow> ([], Inl e)
      | Inr (reply, result) \<Rightarrow> (sent wr reply, case wr of Some e \<Rightarrow> Inl (KexConn e) | None \<Rightarrow> Inr result))"

definition ec_Server :: "kex_prims \<Rightarrow> ec_curve \<Rightarrow> randoms \<Rightarrow> handshakeMagics \<Rightarrow> signer \<Rightarrow> conn_err + bytes \<Rightarrow> conn_err option
    \<Rightarrow> bytes list \<times> (kex_err + kexResult)" where
  "ec_Server pr c rn m priv rd wr =
     ec_reply wr (bind_err (read_msg kexECDHInitMsg rd) (\<lambda>vs.
       case vs of
         [VBytes cpub] \<Rightarrow>
           bind_err (unmarshalECKey c cpub) (\<lambda>(cx, cy).
             case ec_GenerateKey c (rn_Bytes rn) of
               None \<Rightarrow> Inl ErrRand
             | Some (d, px, py) \<Rightarrow>
                 let hostKeyBytes = sn_PublicKey priv; spub = ec_Marshal c px py;
                     secret = fst (ec_ScalarMult c cx cy d); t = ec_transcript m hostKeyBytes cpub spub secret
                 in bind_err (signAndMarshal priv (ecHash pr c t)) (\<lambda>sig.
                      Inr (Marshal kexECDHReplyMsg [VBytes hostKeyBytes, VBytes spub, VBytes sig],
                           kex_result (ecHash pr c) t secret hostKeyBytes sig)))
       | _ \<Rightarrow> Inl (KexWire FieldError)))"

subsection \<open>Curve25519\<close>

definition curve25519Zeros :: bytes where
  "curve25519Zeros = replicate 32 CHR 0x00"

definition generate :: "kex_prims \<Rightarrow> randoms \<Rightarrow> (bytes \<times> bytes) option" where
  "generate pr rn =
     (if length (rn_Bytes rn) < 32 then None
      else let priv = take 32 (rn_Bytes rn) in Some (priv, kp_ScalarBaseMult pr priv))"

definition curve_Client :: "kex_prims \<Rightarrow> randoms \<Rightarrow> handshakeMagics \<Rightarrow> conn_err option \<Rightarrow> conn_err + bytes
    \<Rightarrow> bytes list \<times> (kex_err + kexResult)" where
  "curve_Client pr rn m wr rd =
     (case generate pr rn of
        None \<Rightarrow> ([], Inl ErrRand)
      | Some (priv, pub) \<Rightarrow>
          (sent wr (Marshal kexECDHInitMsg [VBytes pub]),
           case wr of
             Some e \<Rightarrow> Inl (KexConn e)
           | None \<Rightarrow>
               bind_err (read_msg kexECDHReplyMsg rd) (\<lambda>vs.
                 case vs of
                   [VBytes hostKey, VBytes spub, VBytes sig] \<Rightarrow>
                     if length spub \<noteq> 32 then Inl ErrKeyLength
                     else let secret = kp_ScalarMult pr priv spub in
                       if secret = curve25519Zeros then Inl ErrKeyOrder
                       else let kInt = int (be_val secret) in
                         Inr (kex_result (kp_SHA256 pr) (ec_transcript m hostKey pub spub kInt) kInt hostKey sig)
                 | _ \<Rightarrow> Inl (KexWire FieldError))))"

definition curve_Server :: "kex_prims \<Rightarrow> randoms \<Rightarrow> handshakeMagics \<Rightarrow> signer \<Rightarrow> conn_err + bytes \<Rightarrow> conn_err option
    \<Rightarrow> bytes list \<times> (kex_err + kexResult)" where
  "curve_Server pr rn m priv rd wr =
     ec_reply wr (bind_err (read_msg kexECDHInitMsg rd) (\<lambda>vs.
       case vs of
         [VBytes cpub] \<Rightarrow>
           if length cpub \<noteq> 32 then Inl ErrKeyLength
           else (case generate pr rn of
               None \<Rightarrow> Inl ErrRand
             | Some (sk, pub) \<Rightarrow>
                 let secret = kp_ScalarMult pr sk cpub in
                 if secret = curve25519Zeros then Inl ErrKeyOrder
                 else let hostKeyBytes = sn_PublicKey priv; kInt = int (be_val secret);
                          t = ec_transcript m hostKeyBytes cpub pub kInt
                   in bind_err (signAndMarshal priv (kp_SHA256 pr t)) (\<lambda>sig.
                        Inr (Marshal kexECDHReplyMsg [VBytes hostKeyBytes, VBytes pub, VBytes sig],
                             kex_result (kp_SHA256 pr) t kInt hostKeyBytes sig)))
       | _ \<Rightarrow> Inl (KexWire FieldError)))"

subsection \<open>The algorithms by name\<close>

datatype kexAlgorithm = DHGroup dhGroup | ECDH ec_curve | Curve25519SHA256

definition oakley2 :: int where
  "oakley2 = 0xFFFFFFFFFFFFFFFFC90FDAA22168C234C4C6628B80DC1CD129024E088A67CC74020BBEA63B139B22514A08798E3404DDEF9519B3CD3A431B302B0A6DF25F14374FE1356D6D51C245E485B576625E7EC6F44C42E9A637ED6B0BFF5CB6F406B7EDEE386BFB5A899FA5AE9F24117C4B1FE649286651ECE65381FFFFFFFFFFFFFFFF"

definition oakley14 :: int where
  "oakley14 = 0xFFFFFFFFFFFFFFFFC90FDAA22168C234C4C6628B80DC1CD129024E088A67CC74020BBEA63B139B22514A08798E3404DDEF9519B3CD3A431B302B0A6DF25F14374FE1356D6D51C245E485B576625E7EC6F44C42E9A637ED6B0BFF5CB6F406B7EDEE386BFB5A899FA5AE9F24117C4B1FE649286651ECE45B3DC2007CB8A163BF0598DA48361C55D39A69163FA8FD24CF5F83655D23DCA3AD961C62F356208552BB9ED529077096966D670C354E4ABC9804F1746C08CA18217C32905E462E36CE3BE39E772C180E86039B2783A2EC07A28FB5C55DF06F4C52C9DE2BCBF6955817183995497CEA956AE515D2261898FA051015728E5A8AACAA68FFFFFFFFFFFFFFFF"

definition oakley :: "int \<Rightarrow> dhGroup" where
  "oakley p = \<lparr>dh_g = 2, dh_p = p, dh_pMinus1 = p - 1\<rparr>"

definition kexAlgoMap :: "kex_prims \<Rightarrow> string \<Rightarrow> kexAlgorithm option" where
  "kexAlgoMap pr = map_of [
     (''diffie-hellman-group1-sha1'', DHGroup (oakley oakley2)),
     (''diffie-hellman-group14-sha1'', DHGroup (oakley oakley14)),
     (''ecdh-sha2-nistp521'', ECDH (kp_P521 pr)), (''ecdh-sha2-nistp384'', ECDH (kp_P384 pr)),
     (''ecdh-sha2-nistp256'', ECDH (kp_P256 pr)), (''curve25519-sha256@libssh.org'', Curve25519SHA256)]"

fun kex_Client :: "kex_prims \<Rightarrow> kexAlgorithm \<Rightarrow> randoms \<Rightarrow> handshakeMagics \<Rightarrow> conn_err option \<Rightarrow> conn_err + bytes
    \<Rightarrow> bytes list \<times> (kex_err + kexResult)" where
  "kex_Client pr (DHGroup g) rn m wr rd = dh_Client pr g rn m wr rd"
| "kex_Client pr (ECDH c) rn m wr rd = ec_Client pr c rn m wr rd"
| "kex_Client pr Curve25519SHA256 rn m wr rd = curve_Client pr rn m wr rd"

fun kex_Server :: "kex_prims \<Rightarrow> kexAlgorithm \<Rightarrow> randoms \<Rightarrow> handshakeMagics \<Rightarrow> signer \<Rightarrow> conn_err + bytes \<Rightarrow> conn_err option
    \<Rightarrow> bytes list \<times> (kex_err + kexResult)" where
  "kex_Server pr (DHGroup g) rn m s rd wr = dh_Server pr g rn m s rd wr"
| "kex_Server pr (ECDH c) rn m s rd wr = ec_Server pr c rn m s rd wr"
| "kex_Server pr Curve25519SHA256 rn m s rd wr = curve_Server pr rn m s rd wr"

end
