(* ===== verification/Handshake.thy ===== *)
theory Handshake
  imports Kex Server_Auth
begin

section \<open>The handshake transport: key exchanges under running traffic\<close>

text \<open>
  \<^verbatim>\<open>handshake.go\<close> of the ssh library in \<^verbatim>\<open>xendor/github.com/glycerine/xcryptossh\<close>: the state of a
  \<open>handshakeTransport\<close>, the calls of its users, and its two goroutines, the read loop and the loop
  that runs key exchanges.

  The connection below is an interface (\<open>keyingTransport\<close>): the outcome of each of its calls is an
  argument, and what was handed to it successfully is the history \<open>ht_out\<close>, each packet with the
  place that sent it.  A Go channel with room is a list or an option; \<open>ht_mu\<close> says that the mutex was
  left locked.  The counters of bytes are int64 and never wrap, since they are reduced only while
  they are positive.
\<close>

subsection \<open>State\<close>

datatype hs_err =
    HConn conn_err
  | HWire wire_err
  | HNegotiate neg_err
  | HKex kex_err
  | ErrUnexpectedKex string
  | ErrHostKeyParse
  | ErrSignatureParse
  | ErrSignature
  | ErrCallback string
  | ErrFirstPacket
  | ErrFirstNotNewKeys
  | ErrUnexpectedMessage nat nat
  | ErrOnlyKexInit
  | ErrOnlyNewKeys
  | ErrEOF

datatype out_event = OutInit bytes | OutKex bytes | OutNewKeys | OutData bytes

record handshakeTransport =
  ht_config :: ssh_config
  ht_serverVersion :: bytes
  ht_clientVersion :: bytes
  ht_hostKeys :: "signer list"
  ht_hostKeyAlgorithms :: "string list"
  ht_incoming :: "bytes list"
  ht_incomingClosed :: bool
  ht_readError :: "hs_err option"
  ht_mu :: bool
  ht_writeError :: "hs_err option"
  ht_sentInit :: "(bytes \<times> kex_init) option"
  ht_pendingPackets :: "bytes list"
  ht_requestKex :: bool
  ht_startKex :: "bytes option"
  ht_startClosed :: bool
  ht_done :: "hs_err option option"
  ht_algorithms :: "algorithms option"
  ht_readPacketsLeft :: u32
  ht_readBytesLeft :: int
  ht_writePacketsLeft :: u32
  ht_writeBytesLeft :: int
  ht_sessionID :: "bytes option"
  ht_out :: "out_event list"

definition hs_chanSize :: nat where "hs_chanSize = 16"
definition packetRekeyThreshold :: u32 where "packetRekeyThreshold = push_bit 31 1"
definition msgKexInit :: nat where "msgKexInit = 20"

subsection \<open>Small operations\<close>

definition recordWriteError :: "hs_err option \<Rightarrow> handshakeTransport \<Rightarrow> handshakeTransport" where
  "recordWriteError err t = (if ht_writeError t = None \<and> err \<noteq> None then t\<lparr>ht_writeError := err\<rparr> else t)"

definition requestKeyExchange :: "handshakeTransport \<Rightarrow> handshakeTransport" where
  "requestKeyExchange t = t\<lparr>ht_requestKex := True\<rparr>"

definition bytes_threshold :: "ssh_config \<Rightarrow> directionAlgorithms option \<Rightarrow> int" where
  "bytes_threshold cfg a =
     (if sg_RekeyThreshold cfg > 0 then sint (sg_RekeyThreshold cfg)
      else case a of Some d \<Rightarrow> rekeyBytes d | None \<Rightarrow> 2 ^ 30)"

definition resetWriteThresholds :: "handshakeTransport \<Rightarrow> handshakeTransport" where
  "resetWriteThresholds t =
     t\<lparr>ht_writePacketsLeft := packetRekeyThreshold,
       ht_writeBytesLeft := bytes_threshold (ht_config t) (map_option ag_w (ht_algorithms t))\<rparr>"

definition resetReadThresholds :: "handshakeTransport \<Rightarrow> handshakeTransport" where
  "resetReadThresholds t =
     t\<lparr>ht_readPacketsLeft := packetRekeyThreshold,
       ht_readBytesLeft := bytes_threshold (ht_config t) (map_option ag_r (ht_algorithms t))\<rparr>"

definition newHandshakeTransport :: "ssh_config \<Rightarrow> bytes \<Rightarrow> bytes \<Rightarrow> handshakeTransport" where
  "newHandshakeTransport cfg clientVersion serverVersion =
     resetWriteThresholds (resetReadThresholds
       \<lparr>ht_config = cfg, ht_serverVersion = serverVersion, ht_clientVersion = clientVersion, ht_hostKeys = [],
        ht_hostKeyAlgorithms = [], ht_incoming = [], ht_incomingClosed = False, ht_readError = None, ht_mu = False,
        ht_writeError = None, ht_sentInit = None, ht_pendingPackets = [], ht_requestKex = True, ht_startKex = None,
        ht_startClosed = False, ht_done = None, ht_algorithms = None, ht_readPacketsLeft = 0, ht_readBytesLeft = 0,
        ht_writePacketsLeft = 0, ht_writeBytesLeft = 0, ht_sessionID = None, ht_out = []\<rparr>)"

definition newClientTransport :: "ssh_config \<Rightarrow> bytes \<Rightarrow> bytes \<Rightarrow> string list option \<Rightarrow> handshakeTransport" where
  "newClientTransport cfg cv sv algos =
     (newHandshakeTransport cfg cv sv)\<lparr>ht_hostKeyAlgorithms := (case algos of Some as \<Rightarrow> as | None \<Rightarrow> supportedHostKeyAlgos)\<rparr>"

definition newServerTransport :: "ssh_config \<Rightarrow> bytes \<Rightarrow> bytes \<Rightarrow> signer list \<Rightarrow> handshakeTransport" where
  "newServerTransport cfg cv sv hostKeys = (newHandshakeTransport cfg cv sv)\<lparr>ht_hostKeys := hostKeys\<rparr>"

text \<open>\<open>pushPacket\<close>: the packet is on the connection when the write succeeds.\<close>

definition push :: "conn_err option \<Rightarrow> out_event \<Rightarrow> handshakeTransport \<Rightarrow> hs_err option \<times> handshakeTransport" where
  "push wr e t = (case wr of None \<Rightarrow> (None, t\<lparr>ht_out := ht_out t @ [e]\<rparr>) | Some err \<Rightarrow> (Some (HConn err), t))"

subsection \<open>Writing\<close>

text \<open>A packet while the connection is not exchanging keys: counted, and pushed.\<close>

definition count_write :: "nat \<Rightarrow> handshakeTransport \<Rightarrow> handshakeTransport" where
  "count_write n t =
     (let t1 = (if ht_writeBytesLeft t > 0 then t\<lparr>ht_writeBytesLeft := ht_writeBytesLeft t - int n\<rparr> else requestKeyExchange t)
      in if ht_writePacketsLeft t1 > 0 then t1\<lparr>ht_writePacketsLeft := ht_writePacketsLeft t1 - 1\<rparr> else requestKeyExchange t1)"

definition hs_writePacket :: "conn_err option \<Rightarrow> bytes \<Rightarrow> handshakeTransport \<Rightarrow> (hs_err option \<times> handshakeTransport) go" where
  "hs_writePacket wr p t =
     (case msg_type p of
        None \<Rightarrow> Panic ''index out of range''
      | Some ty \<Rightarrow>
          if ty = msgKexInit then Ret (Some ErrOnlyKexInit, t)
          else if ty = msgNewKeys then Ret (Some ErrOnlyNewKeys, t)
          else if ht_mu t then Hang
          else (case ht_writeError t of
              Some e \<Rightarrow> Ret (Some e, t)
            | None \<Rightarrow>
                if ht_sentInit t \<noteq> None then Ret (None, t\<lparr>ht_pendingPackets := ht_pendingPackets t @ [p]\<rparr>)
                else (case push wr (OutData p) (count_write (length p) t) of
                    (None, t2) \<Rightarrow> Ret (None, t2)
                  | (Some err, t2) \<Rightarrow> Ret (None, t2\<lparr>ht_writeError := Some err\<rparr>))))"

definition hs_kex_init :: "handshakeTransport \<Rightarrow> kex_init" where
  "hs_kex_init t =
     kex_init_of (ht_config t) (if ht_hostKeys t \<noteq> [] then map sn_Type (ht_hostKeys t) else ht_hostKeyAlgorithms t)"

definition init_fields :: "bytes \<Rightarrow> kex_init \<Rightarrow> fval list" where
  "init_fields cookie k =
     VArray cookie # map VNames [ki_KexAlgos k, ki_ServerHostKeyAlgos k, ki_CiphersClientServer k, ki_CiphersServerClient k,
       ki_MACsClientServer k, ki_MACsServerClient k, ki_CompressionClientServer k, ki_CompressionServerClient k, [], []]
       @ [VBool (ki_FirstKexFollows k), VU32 0]"

text \<open>The fields of a message that was read have the kinds of the structure.\<close>

definition names_at :: "fval list \<Rightarrow> nat \<Rightarrow> string list" where
  "names_at vs i = (case vs ! i of VNames ns \<Rightarrow> ns | _ \<Rightarrow> [])"

definition init_of_fields :: "fval list \<Rightarrow> kex_init" where
  "init_of_fields vs =
     \<lparr>ki_KexAlgos = names_at vs 1, ki_ServerHostKeyAlgos = names_at vs 2, ki_CiphersClientServer = names_at vs 3,
      ki_CiphersServerClient = names_at vs 4, ki_MACsClientServer = names_at vs 5, ki_MACsServerClient = names_at vs 6,
      ki_CompressionClientServer = names_at vs 7, ki_CompressionServerClient = names_at vs 8,
      ki_FirstKexFollows = (case vs ! 11 of VBool b \<Rightarrow> b | _ \<Rightarrow> False)\<rparr>"

definition sendKexInit :: "conn_err option \<Rightarrow> bytes \<Rightarrow> handshakeTransport \<Rightarrow> hs_err option \<times> handshakeTransport" where
  "sendKexInit wr cookie t =
     (if ht_sentInit t \<noteq> None then (None, t)
      else let msg = hs_kex_init t; packet = Marshal kexInitMsg (init_fields cookie msg) in
        (case push wr (OutInit packet) t of
           (Some e, t1) \<Rightarrow> (Some e, t1)
         | (None, t1) \<Rightarrow> (None, t1\<lparr>ht_sentInit := Some (packet, msg)\<rparr>)))"

subsection \<open>One key exchange\<close>

text \<open>What the connection, the cryptography and the check of the host key answer during an exchange.\<close>

record exchange_env =
  xe_prims :: kex_prims
  xe_randoms :: randoms
  xe_guess :: "conn_err + bytes"
  xe_kexRead :: "conn_err + bytes"
  xe_kexWrite :: "conn_err option"
  xe_prepare :: "hs_err option"
  xe_newKeysWrite :: "conn_err option"
  xe_newKeysRead :: "conn_err + bytes"
  xe_parseKey :: "bytes \<Rightarrow> pub_key option"
  xe_verify :: "pub_key \<Rightarrow> bytes \<Rightarrow> string \<times> bytes \<Rightarrow> bool"
  xe_callback :: "pub_key \<Rightarrow> string option"

definition verifyHostKeySignature :: "exchange_env \<Rightarrow> pub_key \<Rightarrow> kexResult \<Rightarrow> hs_err option" where
  "verifyHostKeySignature x hostKey result =
     (case parseSignatureBody (kr_Signature result) of
        None \<Rightarrow> Some ErrSignatureParse
      | Some (sig, rest) \<Rightarrow>
          if rest \<noteq> [] then Some ErrSignatureParse
          else if xe_verify x hostKey (kr_H result) sig then None else Some ErrSignature)"

definition hs_client :: "exchange_env \<Rightarrow> kexAlgorithm \<Rightarrow> handshakeMagics \<Rightarrow> bytes list \<times> (hs_err + kexResult)" where
  "hs_client x kex m =
     (case kex_Client (xe_prims x) kex (xe_randoms x) m (xe_kexWrite x) (xe_kexRead x) of
        (out, Inl e) \<Rightarrow> (out, Inl (HKex e))
      | (out, Inr result) \<Rightarrow>
          (out, case xe_parseKey x (kr_HostKey result) of
             None \<Rightarrow> Inl ErrHostKeyParse
           | Some hostKey \<Rightarrow>
               (case verifyHostKeySignature x hostKey result of
                  Some e \<Rightarrow> Inl e
                | None \<Rightarrow> (case xe_callback x hostKey of Some e \<Rightarrow> Inl (ErrCallback e) | None \<Rightarrow> Inr result))))"

text \<open>The last key of the wanted type; without one the nil signer is used, which panics.\<close>

fun pick_key :: "string \<Rightarrow> signer list \<Rightarrow> signer option \<Rightarrow> signer option" where
  "pick_key algo [] acc = acc"
| "pick_key algo (k # ks) acc = pick_key algo ks (if algo = sn_Type k then Some k else acc)"

definition hs_server :: "exchange_env \<Rightarrow> kexAlgorithm \<Rightarrow> handshakeMagics \<Rightarrow> signer option \<Rightarrow> (bytes list \<times> (hs_err + kexResult)) go" where
  "hs_server x kex m hostKey =
     (case hostKey of
        None \<Rightarrow> Panic ''nil pointer dereference''
      | Some k \<Rightarrow>
          (case kex_Server (xe_prims x) kex (xe_randoms x) m k (xe_kexRead x) (xe_kexWrite x) of
             (out, Inl e) \<Rightarrow> Ret (out, Inl (HKex e))
           | (out, Inr r) \<Rightarrow> Ret (out, Inr r)))"

definition other_init :: "bytes \<Rightarrow> hs_err + kex_init" where
  "other_init packet =
     (case Unmarshal kexInitMsg packet of Inl e \<Rightarrow> Inl (HWire e) | Inr vs \<Rightarrow> Inr (init_of_fields vs))"

text \<open>The end of an exchange: the session identifier, the new keys, and the messages that switch to them.\<close>

definition switch_keys :: "exchange_env \<Rightarrow> kexResult \<Rightarrow> handshakeTransport \<Rightarrow> (hs_err option \<times> handshakeTransport) go" where
  "switch_keys x result t =
     (let t1 = (if ht_sessionID t = None then t\<lparr>ht_sessionID := Some (kr_H result)\<rparr> else t) in
      case xe_prepare x of
        Some e \<Rightarrow> Ret (Some e, t1)
      | None \<Rightarrow>
          (case push (xe_newKeysWrite x) OutNewKeys t1 of
             (Some e, t2) \<Rightarrow> Ret (Some e, t2)
           | (None, t2) \<Rightarrow>
               (case xe_newKeysRead x of
                  Inl e \<Rightarrow> Ret (Some (HConn e), t2)
                | Inr packet \<Rightarrow>
                    (case msg_type packet of
                       None \<Rightarrow> Panic ''index out of range''
                     | Some ty \<Rightarrow> Ret (if ty = msgNewKeys then None else Some (ErrUnexpectedMessage msgNewKeys ty), t2)))))"

definition run_kex :: "exchange_env \<Rightarrow> kexAlgorithm \<Rightarrow> handshakeMagics \<Rightarrow> algorithms \<Rightarrow> handshakeTransport
    \<Rightarrow> (hs_err option \<times> handshakeTransport) go" where
  "run_kex x kex magics algs t =
     bind_go (if ht_hostKeys t \<noteq> [] then hs_server x kex magics (pick_key (ag_hostKey algs) (ht_hostKeys t) None)
              else Ret (hs_client x kex magics)) (\<lambda>(out, res).
       let t1 = t\<lparr>ht_out := ht_out t @ map OutKex out\<rparr> in
       case res of Inl e \<Rightarrow> Ret (Some e, t1) | Inr result \<Rightarrow> switch_keys x result t1)"

definition enterKeyExchange :: "exchange_env \<Rightarrow> bytes \<Rightarrow> handshakeTransport \<Rightarrow> (hs_err option \<times> handshakeTransport) go" where
  "enterKeyExchange x otherInitPacket t =
     (case (other_init otherInitPacket, ht_sentInit t) of
        (Inl e, _) \<Rightarrow> Ret (Some e, t)
      | (Inr other, None) \<Rightarrow> Panic ''nil pointer dereference''
      | (Inr other, Some (sentPacket, mine)) \<Rightarrow>
          let isClient = (ht_hostKeys t = []);
              magics = \<lparr>hm_clientVersion = ht_clientVersion t, hm_serverVersion = ht_serverVersion t,
                        hm_clientKexInit = (if isClient then sentPacket else otherInitPacket),
                        hm_serverKexInit = (if isClient then otherInitPacket else sentPacket)\<rparr>
          in (case agree isClient mine other of
                Inl e \<Rightarrow> Ret (Some (HNegotiate e), t\<lparr>ht_algorithms := None\<rparr>)
              | Inr algs \<Rightarrow>
                  let t1 = t\<lparr>ht_algorithms := Some algs\<rparr>;
                      go_on = (case kexAlgoMap (xe_prims x) (ag_kex algs) of
                                 None \<Rightarrow> Ret (Some (ErrUnexpectedKex (ag_kex algs)), t1)
                               | Some kex \<Rightarrow> run_kex x kex magics algs t1)
                  in if wrong_guess other (if isClient then mine else other) (if isClient then other else mine)
                     then (case xe_guess x of Inl e \<Rightarrow> Ret (Some (HConn e), t1) | Inr _ \<Rightarrow> go_on)
                     else go_on))"

subsection \<open>The loop of key exchanges\<close>

datatype kex_pc =
    KWait "bytes option" bool
  | KEnter bytes
  | KDrain
  | KGone

text \<open>The head of the outer loop.\<close>

definition kex_top :: "handshakeTransport \<Rightarrow> kex_pc" where
  "kex_top t = (if ht_writeError t = None then KWait None False else KDrain)"

text \<open>The rest of a turn of the inner loop, after something was received, up to the exchange.\<close>

definition kex_turn :: "conn_err option \<Rightarrow> bytes \<Rightarrow> bytes option \<Rightarrow> bool \<Rightarrow> handshakeTransport \<Rightarrow> kex_pc \<times> handshakeTransport" where
  "kex_turn wr cookie request was_sent t =
     (let (failed, t1) = (if was_sent then (False, t)
                          else case sendKexInit wr cookie t of
                              (Some e, t') \<Rightarrow> (True, recordWriteError (Some e) t')
                            | (None, t') \<Rightarrow> (False, t'))
      in if \<not> failed \<and> request = None then (KWait None True, t1)
         else (case ht_writeError t1 of
             Some err \<Rightarrow> (KDrain, if request = None then t1 else t1\<lparr>ht_done := Some (Some err)\<rparr>)
           | None \<Rightarrow> (case request of Some r \<Rightarrow> (KEnter r, t1) | None \<Rightarrow> (KWait None True, t1))))"

text \<open>Pushing the packets that waited: every push overwrites the error.\<close>

fun push_pending :: "conn_err option list \<Rightarrow> bytes list \<Rightarrow> handshakeTransport \<Rightarrow> handshakeTransport" where
  "push_pending wrs [] t = t"
| "push_pending wrs (p # ps) t =
     (case push (case wrs of [] \<Rightarrow> None | w # _ \<Rightarrow> w) (OutData p) t of
        (None, t1) \<Rightarrow> push_pending (tl wrs) ps (t1\<lparr>ht_writeError := None\<rparr>)
      | (Some e, t1) \<Rightarrow> t1\<lparr>ht_writeError := Some e\<rparr>)"

definition kex_finish :: "conn_err option list \<Rightarrow> hs_err option \<Rightarrow> handshakeTransport \<Rightarrow> handshakeTransport" where
  "kex_finish wrs err t =
     (let t1 = resetWriteThresholds (t\<lparr>ht_writeError := err, ht_sentInit := None\<rparr>);
          t2 = t1\<lparr>ht_requestKex := False, ht_done := Some err\<rparr>
      in (push_pending wrs (ht_pendingPackets t2) t2)\<lparr>ht_pendingPackets := []\<rparr>)"

text \<open>The same, when the loop is told to stop where it hands the result over: it returns with the mutex locked.\<close>

definition kex_abandon :: "hs_err option \<Rightarrow> handshakeTransport \<Rightarrow> handshakeTransport" where
  "kex_abandon err t = (resetWriteThresholds (t\<lparr>ht_writeError := err, ht_sentInit := None\<rparr>))\<lparr>ht_requestKex := False, ht_mu := True\<rparr>"

subsection \<open>The read loop\<close>

datatype read_pc = RRead bool | RStart bytes bool | RWait bool | RPush bytes | RGone

definition count_read :: "nat \<Rightarrow> handshakeTransport \<Rightarrow> handshakeTransport" where
  "count_read n t =
     (let t1 = (if ht_readPacketsLeft t > 0 then t\<lparr>ht_readPacketsLeft := ht_readPacketsLeft t - 1\<rparr> else requestKeyExchange t)
      in if ht_readBytesLeft t1 > 0 then t1\<lparr>ht_readBytesLeft := ht_readBytesLeft t1 - int n\<rparr> else requestKeyExchange t1)"

text \<open>The end of the loop after an error; the mutex is taken to record the error.\<close>

definition read_end :: "hs_err \<Rightarrow> handshakeTransport \<Rightarrow> read_pc \<times> handshakeTransport" where
  "read_end e t =
     (let t1 = t\<lparr>ht_readError := Some e, ht_incomingClosed := True\<rparr> in
      (RGone, if ht_mu t then t1 else (recordWriteError (Some e) t1)\<lparr>ht_startClosed := True\<rparr>))"

text \<open>What the loop does with a packet for its users: ignored and debug messages are dropped.\<close>

definition read_deliver :: "bytes \<Rightarrow> read_pc" where
  "read_deliver p = (if msg_type p = Some msgIgnore \<or> msg_type p = Some msgDebug then RRead False else RPush p)"

definition read_one :: "bool \<Rightarrow> conn_err + bytes \<Rightarrow> handshakeTransport \<Rightarrow> (read_pc \<times> handshakeTransport) go" where
  "read_one first rd t =
     (case rd of
        Inl e \<Rightarrow> Ret (read_end (HConn e) t)
      | Inr p \<Rightarrow>
          let t1 = count_read (length p) t in
          case msg_type p of
            None \<Rightarrow> Panic ''index out of range''
          | Some ty \<Rightarrow>
              Ret (if first \<and> ty \<noteq> msgKexInit then read_end ErrFirstPacket t1
                   else if ty \<noteq> msgKexInit then (read_deliver p, t1)
                   else (RStart p (ht_sessionID t1 = None), t1)))"

definition read_done :: "bool \<Rightarrow> hs_err option \<Rightarrow> handshakeTransport \<Rightarrow> read_pc \<times> handshakeTransport" where
  "read_done firstKex err t =
     (case err of
        Some e \<Rightarrow> read_end e t
      | None \<Rightarrow> (read_deliver [char_of (if firstKex then msgNewKeys else msgIgnore)], resetReadThresholds t))"

subsection \<open>The users' side of reading\<close>

text \<open>\<open>readPacket\<close>: None while it waits; \<open>stopped\<close> when the select takes the stop of the halter or the context.\<close>

definition hs_readPacket :: "bool \<Rightarrow> handshakeTransport \<Rightarrow> ((hs_err + bytes) \<times> handshakeTransport) option" where
  "hs_readPacket stopped t =
     (if stopped then Some (Inl ErrEOF, t)
      else case ht_incoming t of
        p # ps \<Rightarrow> Some (Inr p, t\<lparr>ht_incoming := ps\<rparr>)
      | [] \<Rightarrow> if ht_incomingClosed t then Some (Inl (case ht_readError t of Some e \<Rightarrow> e | None \<Rightarrow> ErrEOF), t) else None)"

definition waitSession :: "bool \<Rightarrow> handshakeTransport \<Rightarrow> (hs_err option \<times> handshakeTransport) option" where
  "waitSession stopped t =
     (case hs_readPacket stopped t of
        None \<Rightarrow> None
      | Some (Inl e, t1) \<Rightarrow> Some (Some e, t1)
      | Some (Inr p, t1) \<Rightarrow> Some (if msg_type p \<noteq> Some msgNewKeys then Some ErrFirstNotNewKeys else None, t1))"

subsection \<open>The goroutines together\<close>

text \<open>
  A running transport: its state, the places of its two goroutines, and a history: whether the
  session was waited for, which packets \<open>writePacket\<close> accepted, whether an exchange has failed.
  The users of the transport wait for the session before they write, as the two handshakes of the
  library do.
\<close>

record sys =
  sy_t :: handshakeTransport
  sy_kex :: kex_pc
  sy_read :: read_pc
  sy_session :: bool
  sy_accepted :: "bytes list"
  sy_failed :: bool

definition sys_start :: "handshakeTransport \<Rightarrow> sys" where
  "sys_start t = \<lparr>sy_t = t, sy_kex = kex_top t, sy_read = RRead True, sy_session = False, sy_accepted = [], sy_failed = False\<rparr>"

inductive hs_step :: "sys \<Rightarrow> sys \<Rightarrow> bool" where
  app_wait: "\<not> sy_session s \<Longrightarrow> waitSession stopped (sy_t s) = Some (res, t') \<Longrightarrow>
     hs_step s (s\<lparr>sy_t := t', sy_session := (res = None)\<rparr>)"
| app_write: "sy_session s \<Longrightarrow> hs_writePacket wr p (sy_t s) = Ret (res, t') \<Longrightarrow>
     hs_step s (s\<lparr>sy_t := t', sy_accepted := (if res = None then sy_accepted s @ [p] else sy_accepted s)\<rparr>)"
| app_read: "sy_session s \<Longrightarrow> hs_readPacket stopped (sy_t s) = Some (res, t') \<Longrightarrow> hs_step s (s\<lparr>sy_t := t'\<rparr>)"
| kex_start: "sy_kex s = KWait q b \<Longrightarrow> ht_startKex (sy_t s) = Some r \<Longrightarrow>
     kex_turn wr cookie (Some r) b ((sy_t s)\<lparr>ht_startKex := None\<rparr>) = (pc, t') \<Longrightarrow> hs_step s (s\<lparr>sy_t := t', sy_kex := pc\<rparr>)"
| kex_request: "sy_kex s = KWait q b \<Longrightarrow> ht_requestKex (sy_t s) \<Longrightarrow>
     kex_turn wr cookie q b ((sy_t s)\<lparr>ht_requestKex := False\<rparr>) = (pc, t') \<Longrightarrow> hs_step s (s\<lparr>sy_t := t', sy_kex := pc\<rparr>)"
| kex_closed: "sy_kex s = KWait q b \<Longrightarrow> ht_startKex (sy_t s) = None \<Longrightarrow> ht_startClosed (sy_t s) \<Longrightarrow>
     hs_step s (s\<lparr>sy_kex := KDrain\<rparr>)"
| kex_stop: "sy_kex s = KWait q b \<or> sy_kex s = KDrain \<Longrightarrow> hs_step s (s\<lparr>sy_kex := KGone\<rparr>)"
| kex_enter: "sy_kex s = KEnter r \<Longrightarrow> enterKeyExchange x r (sy_t s) = Ret (err, t1) \<Longrightarrow> t' = kex_finish wrs err t1 \<Longrightarrow>
     hs_step s (s\<lparr>sy_t := t', sy_kex := kex_top t', sy_failed := (sy_failed s \<or> err \<noteq> None)\<rparr>)"
| kex_stop_reply: "sy_kex s = KEnter r \<Longrightarrow> enterKeyExchange x r (sy_t s) = Ret (err, t1) \<Longrightarrow>
     hs_step s (s\<lparr>sy_t := kex_abandon err t1, sy_kex := KGone, sy_failed := (sy_failed s \<or> err \<noteq> None)\<rparr>)"
| kex_drain: "sy_kex s = KDrain \<Longrightarrow> ht_startKex (sy_t s) = Some r \<Longrightarrow>
     hs_step s (s\<lparr>sy_t := (sy_t s)\<lparr>ht_startKex := None, ht_done := Some (ht_writeError (sy_t s))\<rparr>\<rparr>)"
| read_conn: "sy_read s = RRead first \<Longrightarrow> read_one first rd (sy_t s) = Ret (pc, t') \<Longrightarrow> hs_step s (s\<lparr>sy_t := t', sy_read := pc\<rparr>)"
| read_start: "sy_read s = RStart p fk \<Longrightarrow> ht_startKex (sy_t s) = None \<Longrightarrow>
     hs_step s (s\<lparr>sy_t := (sy_t s)\<lparr>ht_startKex := Some p, ht_done := None\<rparr>, sy_read := RWait fk\<rparr>)"
| read_wait: "sy_read s = RWait fk \<Longrightarrow> ht_done (sy_t s) = Some err \<Longrightarrow>
     read_done fk err ((sy_t s)\<lparr>ht_done := None\<rparr>) = (pc, t') \<Longrightarrow> hs_step s (s\<lparr>sy_t := t', sy_read := pc\<rparr>)"
| read_push: "sy_read s = RPush p \<Longrightarrow> length (ht_incoming (sy_t s)) < hs_chanSize \<Longrightarrow>
     hs_step s (s\<lparr>sy_t := (sy_t s)\<lparr>ht_incoming := ht_incoming (sy_t s) @ [p]\<rparr>, sy_read := RRead False\<rparr>)"
| read_stop: "sy_read s = RPush p \<Longrightarrow> hs_step s (s\<lparr>sy_read := RGone\<rparr>)"
| read_halt: "sy_read s = RStart p fk \<or> sy_read s = RWait fk \<Longrightarrow> read_end ErrEOF (sy_t s) = (pc, t') \<Longrightarrow>
     hs_step s (s\<lparr>sy_t := t', sy_read := pc\<rparr>)"

inductive hs_reachable :: "handshakeTransport \<Rightarrow> sys \<Rightarrow> bool" for t0 where
  start: "hs_reachable t0 (sys_start t0)"
| step: "hs_reachable t0 s \<Longrightarrow> hs_step s s' \<Longrightarrow> hs_reachable t0 s'"

end
