(* ===== verification/Handshake_Proofs.thy ===== *)
theory Handshake_Proofs
  imports Handshake
begin

section \<open>Traffic and key exchanges do not mix\<close>

text \<open>
  What each operation changes; the invariants that tie the two goroutines together; that packets go
  out in the order in which they were accepted, and never between the two messages that bracket a
  key exchange.
\<close>

subsection \<open>What the operations change\<close>

lemma count_write_form:
  "\<exists>a b c. count_write n t = t\<lparr>ht_writeBytesLeft := a, ht_writePacketsLeft := b, ht_requestKex := c\<rparr>"
proof -
  have "count_write n t = t\<lparr>ht_writeBytesLeft := ht_writeBytesLeft (count_write n t),
      ht_writePacketsLeft := ht_writePacketsLeft (count_write n t), ht_requestKex := ht_requestKex (count_write n t)\<rparr>"
    by (simp add: count_write_def requestKeyExchange_def Let_def)
  then show ?thesis by blast
qed

lemma count_read_form:
  "\<exists>a b c. count_read n t = t\<lparr>ht_readBytesLeft := a, ht_readPacketsLeft := b, ht_requestKex := c\<rparr>"
proof -
  have "count_read n t = t\<lparr>ht_readBytesLeft := ht_readBytesLeft (count_read n t),
      ht_readPacketsLeft := ht_readPacketsLeft (count_read n t), ht_requestKex := ht_requestKex (count_read n t)\<rparr>"
    by (simp add: count_read_def requestKeyExchange_def Let_def)
  then show ?thesis by blast
qed

text \<open>The four ways a write can go.\<close>

lemma writePacket_cases:
  assumes "hs_writePacket wr p t = Ret (res, t')"
  obtains (refused) "res \<noteq> None" "t' = t"
  | (queued) "res = None" "ht_writeError t = None" "ht_sentInit t \<noteq> None" "t' = t\<lparr>ht_pendingPackets := ht_pendingPackets t @ [p]\<rparr>"
  | (pushed) a b c where "res = None" "ht_writeError t = None" "ht_sentInit t = None" "\<not> ht_mu t"
      "t' = t\<lparr>ht_writeBytesLeft := a, ht_writePacketsLeft := b, ht_requestKex := c, ht_out := ht_out t @ [OutData p]\<rparr>"
  | (broken) a b c e where "res = None" "ht_writeError t = None" "ht_sentInit t = None" "\<not> ht_mu t"
      "t' = t\<lparr>ht_writeBytesLeft := a, ht_writePacketsLeft := b, ht_requestKex := c, ht_writeError := Some e\<rparr>"
proof -
  obtain a b c where cw: "count_write (length p) t = t\<lparr>ht_writeBytesLeft := a, ht_writePacketsLeft := b, ht_requestKex := c\<rparr>"
    using count_write_form by blast
  obtain ty where ty: "msg_type p = Some ty" using assms by (cases "msg_type p") (simp_all add: hs_writePacket_def)
  show thesis
  proof (cases "ty = msgKexInit \<or> ty = msgNewKeys \<or> ht_writeError t \<noteq> None")
    case True
    then have "res \<noteq> None \<and> t' = t"
      using assms unfolding hs_writePacket_def ty option.case
      by (cases "ht_writeError t"; cases "ht_mu t"; cases "ty = msgKexInit"; cases "ty = msgNewKeys") auto
    then show thesis using refused by blast
  next
    case False
    then have ty': "ty \<noteq> msgKexInit" "ty \<noteq> msgNewKeys" and we: "ht_writeError t = None" by blast+
    have mu: "\<not> ht_mu t" using assms unfolding hs_writePacket_def ty option.case if_not_P [OF ty'(1)] if_not_P [OF ty'(2)] by (cases "ht_mu t") simp_all
    have h: "(if ht_sentInit t \<noteq> None then Ret (None, t\<lparr>ht_pendingPackets := ht_pendingPackets t @ [p]\<rparr>)
         else (case push wr (OutData p) (count_write (length p) t) of
             (None, t2) \<Rightarrow> Ret (None, t2)
           | (Some err, t2) \<Rightarrow> Ret (None, t2\<lparr>ht_writeError := Some err\<rparr>))) = Ret (res, t')"
      using assms unfolding hs_writePacket_def ty option.case if_not_P [OF ty'(1)] if_not_P [OF ty'(2)] if_not_P [OF mu] we .
    show thesis
    proof (cases "ht_sentInit t")
      case (Some i)
      then have "res = None \<and> t' = t\<lparr>ht_pendingPackets := ht_pendingPackets t @ [p]\<rparr>" using h by simp
      then show thesis using queued we Some by blast
    next
      case None
      note h' = h [unfolded None cw push_def, simplified]
      show thesis
      proof (cases wr)
        case n: None
        show thesis by (rule pushed [OF _ we None mu]) (use h' [unfolded n] in auto)
      next
        case (Some e)
        show thesis by (rule broken [OF _ we None mu]) (use h' [unfolded Some] in auto)
      qed
    qed
  qed
qed

lemma sendKexInit_cases:
  assumes "sendKexInit wr cookie t = (res, t')"
  obtains (already) "res = None" "t' = t" "ht_sentInit t \<noteq> None"
  | (fresh) p m where "res = None" "ht_sentInit t = None" "t' = t\<lparr>ht_out := ht_out t @ [OutInit p], ht_sentInit := Some (p, m)\<rparr>"
  | (broken) e where "res = Some e" "t' = t"
proof (cases "ht_sentInit t")
  case (Some i)
  then show thesis using assms already by (simp add: sendKexInit_def)
next
  case n: None
  note h = assms [unfolded sendKexInit_def n push_def Let_def, simplified]
  show thesis
  proof (cases wr)
    case None
    show thesis
      by (rule fresh [OF _ n, of "Marshal kexInitMsg (init_fields cookie (hs_kex_init t))" "hs_kex_init t"])
        (use h [unfolded None] in auto)
  next
    case (Some e)
    show thesis by (rule broken) (use h [unfolded Some] in auto)
  qed
qed

text \<open>An exchange: what it hands to the connection, and nothing else that the other goroutines see.\<close>

lemma switch_keys_form:
  assumes "switch_keys x result t = Ret (err, t')"
  shows "\<exists>sid es. t' = t\<lparr>ht_sessionID := sid, ht_out := ht_out t @ es\<rparr> \<and> (es = [] \<and> err \<noteq> None \<or> es = [OutNewKeys])"
proof -
  define sid where "sid = (if ht_sessionID t = None then Some (kr_H result) else ht_sessionID t)"
  define t1 where "t1 = t\<lparr>ht_sessionID := sid\<rparr>"
  have t1: "(if ht_sessionID t = None then t\<lparr>ht_sessionID := Some (kr_H result)\<rparr> else t) = t1"
    by (cases "ht_sessionID t") (simp_all add: t1_def sid_def)
  note h = assms [unfolded switch_keys_def Let_def t1 push_def]
  have "t' = t1 \<and> err \<noteq> None \<or> t' = t1\<lparr>ht_out := ht_out t1 @ [OutNewKeys]\<rparr>"
  proof (cases "xe_prepare x")
    case p: None
    show ?thesis
    proof (cases "xe_newKeysWrite x")
      case w: None
      note h' = h [unfolded p w option.case prod.case]
      show ?thesis
        using h' by (cases "xe_newKeysRead x") (simp, auto simp only: sum.case go.distinct go.inject prod.inject split: option.split_asm)
    next
      case (Some e)
      then show ?thesis using h p by auto
    qed
  next
    case (Some e)
    then have "err = Some e" "t' = t1" using h by auto
    then show ?thesis by simp
  qed
  then show ?thesis
  proof
    assume "t' = t1 \<and> err \<noteq> None"
    then show ?thesis by (intro exI [of _ sid] exI [of _ "[]"]) (simp add: t1_def)
  next
    assume "t' = t1\<lparr>ht_out := ht_out t1 @ [OutNewKeys]\<rparr>"
    then show ?thesis by (intro exI [of _ sid] exI [of _ "[OutNewKeys]"]) (simp add: t1_def)
  qed
qed

lemma run_kex_form:
  assumes "run_kex x kex m algs t = Ret (err, t')"
  shows "\<exists>sid ps es. t' = t\<lparr>ht_sessionID := sid, ht_out := ht_out t @ map OutKex ps @ es\<rparr> \<and> (es = [] \<and> err \<noteq> None \<or> es = [OutNewKeys])"
proof -
  from assms obtain out res where
    h: "(case res of Inl e \<Rightarrow> Ret (Some e, t\<lparr>ht_out := ht_out t @ map OutKex out\<rparr>)
         | Inr result \<Rightarrow> switch_keys x result (t\<lparr>ht_out := ht_out t @ map OutKex out\<rparr>)) = Ret (err, t')"
    unfolding run_kex_def bind_go_Ret_iff Let_def by (auto simp only: split: prod.split_asm)
  show ?thesis
  proof (cases res)
    case (Inl e)
    show ?thesis
      by (rule exI [of _ "ht_sessionID t"], rule exI [of _ out], rule exI [of _ "[]"]) (use h [unfolded Inl] in auto)
  next
    case (Inr result)
    from switch_keys_form [OF h [unfolded Inr sum.case]] obtain sid es where
      "t' = t\<lparr>ht_out := ht_out t @ map OutKex out, ht_sessionID := sid, ht_out := (ht_out t @ map OutKex out) @ es\<rparr>"
      "es = [] \<and> err \<noteq> None \<or> es = [OutNewKeys]" by auto
    then show ?thesis by (intro exI [of _ sid] exI [of _ out] exI [of _ es]) simp
  qed
qed

definition exchange_effect :: "handshakeTransport \<Rightarrow> hs_err option \<Rightarrow> handshakeTransport \<Rightarrow> bool" where
  "exchange_effect t err t' \<longleftrightarrow>
     (\<exists>a sid ps es. t' = t\<lparr>ht_algorithms := a, ht_sessionID := sid, ht_out := ht_out t @ map OutKex ps @ es\<rparr>
        \<and> (es = [] \<and> err \<noteq> None \<or> es = [OutNewKeys]))"

lemma exchange_effect_err: "exchange_effect t (Some e) (t\<lparr>ht_algorithms := b\<rparr>)" "exchange_effect t (Some e) t"
proof -
  show 1: "exchange_effect t (Some e) (t\<lparr>ht_algorithms := b\<rparr>)" for b
    unfolding exchange_effect_def
    by (rule exI [of _ b], rule exI [of _ "ht_sessionID t"], rule exI [of _ "[]"], rule exI [of _ "[]"]) simp
  show "exchange_effect t (Some e) t" using 1 [of "ht_algorithms t"] by simp
qed

lemma run_effect:
  assumes "(case kexAlgoMap pr n of None \<Rightarrow> Ret (Some z, t\<lparr>ht_algorithms := b\<rparr>) | Some kex \<Rightarrow> run_kex x kex m algs (t\<lparr>ht_algorithms := b\<rparr>))
      = Ret (err, t')"
  shows "exchange_effect t err t'"
proof (cases "kexAlgoMap pr n")
  case None
  then have "err = Some z" "t' = t\<lparr>ht_algorithms := b\<rparr>" using assms by auto
  then show ?thesis by (simp add: exchange_effect_err)
next
  case (Some kex)
  from run_kex_form [of x kex m algs "t\<lparr>ht_algorithms := b\<rparr>" err t'] assms Some obtain sid ps es where
    "t' = t\<lparr>ht_algorithms := b, ht_sessionID := sid, ht_out := ht_out t @ map OutKex ps @ es\<rparr>"
    "es = [] \<and> err \<noteq> None \<or> es = [OutNewKeys]" by auto
  then show ?thesis unfolding exchange_effect_def by blast
qed

lemma enterKeyExchange_effect:
  assumes "enterKeyExchange x r t = Ret (err, t')"
  shows "exchange_effect t err t'"
proof (cases "other_init r")
  case (Inl e)
  then have "err = Some e" "t' = t" using assms by (auto simp: enterKeyExchange_def)
  then show ?thesis by (simp add: exchange_effect_err)
next
  case (Inr other)
  note h = assms [unfolded enterKeyExchange_def Inr prod.case sum.case]
  obtain sp mine where i: "ht_sentInit t = Some (sp, mine)" using h by (cases "ht_sentInit t") auto
  note h2 = h [unfolded i option.case prod.case Let_def]
  show ?thesis
  proof (cases "agree (ht_hostKeys t = []) mine other")
    case (Inl e)
    then have "err = Some (HNegotiate e)" "t' = t\<lparr>ht_algorithms := None\<rparr>" using h2 by auto
    then show ?thesis by (simp add: exchange_effect_err)
  next
    case (Inr algs)
    note h3 = h2 [unfolded Inr sum.case]
    show ?thesis
    proof (cases "wrong_guess other (if ht_hostKeys t = [] then mine else other) (if ht_hostKeys t = [] then other else mine)")
      case True
      note h4 = h3 [unfolded if_P [OF True]]
      show ?thesis
      proof (cases "xe_guess x")
        case (Inl e)
        then have "err = Some (HConn e)" "t' = t\<lparr>ht_algorithms := Some algs\<rparr>" using h4 by auto
        then show ?thesis by (simp add: exchange_effect_err)
      next
        case (Inr g)
        show ?thesis using run_effect [OF h4 [unfolded Inr sum.case]] .
      qed
    next
      case False
      show ?thesis using run_effect [OF h3 [unfolded if_not_P [OF False]]] .
    qed
  qed
qed

text \<open>The packets that waited go out in order, up to the first that fails.\<close>

lemma push_pending_form:
  "\<exists>n we. push_pending wrs ps t = t\<lparr>ht_out := ht_out t @ map OutData (take n ps), ht_writeError := we\<rparr>
     \<and> (we = None \<longrightarrow> n = length ps) \<and> (ps = [] \<longrightarrow> we = ht_writeError t)"
proof (induction ps arbitrary: wrs t)
  case Nil
  show ?case by (rule exI [of _ 0], rule exI [of _ "ht_writeError t"]) simp
next
  case (Cons p ps)
  define w where "w = (case wrs of [] \<Rightarrow> None | w # _ \<Rightarrow> w)"
  show ?case
  proof (cases w)
    case None
    obtain n we where *: "push_pending (tl wrs) ps (t\<lparr>ht_out := ht_out t @ [OutData p], ht_writeError := None\<rparr>)
        = t\<lparr>ht_out := (ht_out t @ [OutData p]) @ map OutData (take n ps), ht_writeError := we\<rparr>" "we = None \<longrightarrow> n = length ps"
      using Cons [of "tl wrs" "t\<lparr>ht_out := ht_out t @ [OutData p], ht_writeError := None\<rparr>"] by auto
    show ?thesis
      by (rule exI [of _ "Suc n"], rule exI [of _ we]) (use * in \<open>simp add: w_def [symmetric] None push_def\<close>)
  next
    case (Some e)
    show ?thesis
      by (rule exI [of _ 0], rule exI [of _ "Some (HConn e)"]) (simp add: w_def [symmetric] Some push_def)
  qed
qed

lemma kex_finish_form:
  "\<exists>a b n we. kex_finish wrs err t = t\<lparr>ht_writePacketsLeft := a, ht_writeBytesLeft := b, ht_sentInit := None, ht_requestKex := False,
       ht_done := Some err, ht_out := ht_out t @ map OutData (take n (ht_pendingPackets t)), ht_writeError := we, ht_pendingPackets := []\<rparr>
     \<and> (we = None \<longrightarrow> n = length (ht_pendingPackets t)) \<and> (ht_pendingPackets t = [] \<longrightarrow> we = err)"
proof -
  define t2 where "t2 = (resetWriteThresholds (t\<lparr>ht_writeError := err, ht_sentInit := None\<rparr>))\<lparr>ht_requestKex := False, ht_done := Some err\<rparr>"
  obtain n we where pp: "push_pending wrs (ht_pendingPackets t2) t2
      = t2\<lparr>ht_out := ht_out t2 @ map OutData (take n (ht_pendingPackets t2)), ht_writeError := we\<rparr>"
      "we = None \<longrightarrow> n = length (ht_pendingPackets t2)" "ht_pendingPackets t2 = [] \<longrightarrow> we = ht_writeError t2"
    using push_pending_form by blast
  have "kex_finish wrs err t = t2\<lparr>ht_out := ht_out t2 @ map OutData (take n (ht_pendingPackets t2)), ht_writeError := we, ht_pendingPackets := []\<rparr>"
    unfolding kex_finish_def Let_def t2_def [symmetric] pp(1) by simp
  then show ?thesis using pp(2,3)
    by (intro exI [of _ "ht_writePacketsLeft t2"] exI [of _ "ht_writeBytesLeft t2"])
      (rule exI [of _ n], rule exI [of _ we], simp add: t2_def resetWriteThresholds_def)
qed

text \<open>The parts of the state that the goroutines share, and what a turn of each leaves of it.\<close>

definition init_sent :: "handshakeTransport \<Rightarrow> handshakeTransport \<Rightarrow> bool" where
  "init_sent t t' \<longleftrightarrow> ht_sentInit t' = ht_sentInit t \<and> ht_out t' = ht_out t
     \<or> ht_sentInit t = None \<and> ht_sentInit t' \<noteq> None \<and> (\<exists>p. ht_out t' = ht_out t @ [OutInit p])"

definition same_queues :: "handshakeTransport \<Rightarrow> handshakeTransport \<Rightarrow> bool" where
  "same_queues t t' \<longleftrightarrow> ht_mu t' = ht_mu t \<and> ht_pendingPackets t' = ht_pendingPackets t \<and> ht_startKex t' = ht_startKex t
     \<and> ht_incoming t' = ht_incoming t"

lemma kex_turn_cases:
  assumes "kex_turn wr cookie rq b t = (pc, t')" and "b \<longrightarrow> ht_sentInit t \<noteq> None"
  obtains (wait) "pc = KWait None True" "rq = None" "ht_sentInit t' \<noteq> None" "ht_writeError t' = ht_writeError t" "ht_done t' = ht_done t"
      "ht_startClosed t' = ht_startClosed t" "init_sent t t'" "same_queues t t'"
  | (enter) r where "pc = KEnter r" "rq = Some r" "ht_sentInit t' \<noteq> None" "ht_writeError t = None" "ht_writeError t' = None" "ht_done t' = ht_done t"
      "ht_startClosed t' = ht_startClosed t" "init_sent t t'" "same_queues t t'"
  | (drain) e where "pc = KDrain" "ht_writeError t' \<noteq> None" "ht_done t' = ht_done t \<or> rq \<noteq> None \<and> ht_done t' = Some (Some e)"
      "ht_startClosed t' = ht_startClosed t" "init_sent t t'" "same_queues t t'"
proof (cases "b \<or> fst (sendKexInit wr cookie t) = None")
  case True
  define t1 where "t1 = (if b then t else snd (sendKexInit wr cookie t))"
  have ff: "ht_sentInit t1 \<noteq> None \<and> ht_writeError t1 = ht_writeError t \<and> ht_done t1 = ht_done t
      \<and> ht_startClosed t1 = ht_startClosed t \<and> init_sent t t1 \<and> same_queues t t1"
  proof (cases b)
    case True
    then show ?thesis
      using assms(2) by (simp add: t1_def init_sent_def same_queues_def)
  next
    case False
    then have "sendKexInit wr cookie t = (None, t1)" using True by (cases "sendKexInit wr cookie t") (simp add: t1_def)
    then show ?thesis
      by (cases rule: sendKexInit_cases) (simp_all add: init_sent_def same_queues_def)
  qed
  then have f: "ht_sentInit t1 \<noteq> None" "ht_writeError t1 = ht_writeError t" "ht_done t1 = ht_done t"
      "ht_startClosed t1 = ht_startClosed t" "init_sent t t1" "same_queues t t1" by blast+
  have k: "kex_turn wr cookie rq b t =
      (if rq = None then (KWait None True, t1)
       else case ht_writeError t1 of
           Some err \<Rightarrow> (KDrain, if rq = None then t1 else t1\<lparr>ht_done := Some (Some err)\<rparr>)
         | None \<Rightarrow> (case rq of Some r \<Rightarrow> (KEnter r, t1) | None \<Rightarrow> (KWait None True, t1)))"
  proof -
    have "(if b then (False, t) else case sendKexInit wr cookie t of
        (Some e, t') \<Rightarrow> (True, recordWriteError (Some e) t') | (None, t') \<Rightarrow> (False, t')) = (False, t1)"
      using True by (cases b; cases "sendKexInit wr cookie t") (auto simp: t1_def)
    then show ?thesis by (simp add: kex_turn_def)
  qed
  show thesis
  proof (cases rq)
    case None
    then have "pc = KWait None True" "t' = t1" using assms(1) k by simp_all
    then show thesis using wait None f by simp
  next
    case (Some r)
    show thesis
    proof (cases "ht_writeError t1")
      case n: None
      then have "pc = KEnter r" "t' = t1" using assms(1) k Some by simp_all
      then show thesis using enter Some f n by simp
    next
      case (Some e)
      then have "pc = KDrain" "t' = t1\<lparr>ht_done := Some (Some e)\<rparr>" using assms(1) k \<open>rq = Some r\<close> by simp_all
      moreover have "init_sent t t'" "same_queues t t'"
        using f(5,6) calculation(2) by (simp_all add: init_sent_def same_queues_def)
      moreover have "ht_writeError t' \<noteq> None" "rq \<noteq> None \<and> ht_done t' = Some (Some e)" "ht_startClosed t' = ht_startClosed t"
        using calculation(2) Some f(4) \<open>rq = Some r\<close> by simp_all
      ultimately show thesis using drain [of e] by blast
    qed
  qed
next
  case False
  then obtain e where e: "sendKexInit wr cookie t = (Some e, t)"
    by (cases "sendKexInit wr cookie t") (metis fst_conv option.distinct(1) sendKexInit_cases)
  define t1 where "t1 = recordWriteError (Some e) t"
  have w: "ht_writeError t1 \<noteq> None" by (simp add: t1_def recordWriteError_def)
  then obtain e1 where e1: "ht_writeError t1 = Some e1" by blast
  have "kex_turn wr cookie rq b t = (KDrain, if rq = None then t1 else t1\<lparr>ht_done := Some (Some e1)\<rparr>)"
    using False e e1 by (simp add: kex_turn_def t1_def)
  then have "pc = KDrain" "t' = (if rq = None then t1 else t1\<lparr>ht_done := Some (Some e1)\<rparr>)" using assms(1) by simp_all
  then show thesis using drain [of e1] w
    by (simp add: t1_def recordWriteError_def init_sent_def same_queues_def)
qed

end
