(* ===== verification/Handshake_Safety.thy ===== *)
theory Handshake_Safety
  imports Handshake_Proofs
begin

section \<open>Invariants of the handshake transport\<close>

text \<open>
  What the read loop, the writers and the key exchange loop keep of the state of a
  \<^verbatim>\<open>handshakeTransport\<close>, and that every reachable state satisfies it: where the two goroutines
  wait for each other, that no data leaves inside an exchange until one has failed, and that, as long
  as writing has not failed, the accepted packets are the ones sent and the ones queued, in order.
\<close>

subsection \<open>The read loop\<close>

definition read_frame :: "handshakeTransport \<Rightarrow> handshakeTransport \<Rightarrow> bool" where
  "read_frame t t' \<longleftrightarrow> same_queues t t' \<and> ht_sentInit t' = ht_sentInit t \<and> ht_out t' = ht_out t \<and> ht_done t' = ht_done t
     \<and> (ht_writeError t' = None \<longrightarrow> ht_writeError t = None)"

lemma read_frame_refl [simp]: "read_frame t t"
  by (simp add: read_frame_def same_queues_def)

lemma read_end_form: "read_end e t = (RGone, snd (read_end e t)) \<and> read_frame t (snd (read_end e t))"
  by (simp add: read_end_def Let_def read_frame_def same_queues_def recordWriteError_def)

lemma count_read_frame: "read_frame t (count_read n t)" "ht_startClosed (count_read n t) = ht_startClosed t"
    "ht_writeError (count_read n t) = ht_writeError t"
  by (simp_all add: count_read_def requestKeyExchange_def Let_def read_frame_def same_queues_def)

lemma read_frame_trans: "read_frame t u \<Longrightarrow> read_frame u v \<Longrightarrow> read_frame t v"
  by (simp add: read_frame_def same_queues_def)

lemma read_end_gone:
  assumes "read_end e u = (pc, t')" "read_frame t u"
  shows "pc = RGone \<and> read_frame t t'"
  using read_end_form [of e u] read_frame_trans [OF assms(2), of "snd (read_end e u)"] assms(1) by auto

text \<open>A packet is delivered, or the message of a key exchange passed on, or the loop ends.\<close>

lemma read_one_cases:
  assumes "read_one first rd t = Ret (pc, t')"
  obtains (ended) "pc = RGone" "read_frame t t'"
  | (start) p fk where "pc = RStart p fk" "read_frame t t'" "ht_startClosed t' = ht_startClosed t"
  | (packet) p where "pc = RRead False \<or> pc = RPush p" "\<not> first" "read_frame t t'" "ht_startClosed t' = ht_startClosed t"
proof (cases rd)
  case (Inl e)
  then have "read_end (HConn e) t = (pc, t')" using assms by (simp add: read_one_def)
  from read_end_gone [OF this read_frame_refl] show thesis using ended by simp
next
  case (Inr p)
  define t1 where "t1 = count_read (length p) t"
  note f = count_read_frame [where t = t and n = "length p", folded t1_def]
  obtain ty where ty: "msg_type p = Some ty" using assms Inr by (cases "msg_type p") (simp_all add: read_one_def Let_def)
  have h: "(if first \<and> ty \<noteq> msgKexInit then read_end ErrFirstPacket t1
            else if ty \<noteq> msgKexInit then (read_deliver p, t1) else (RStart p (ht_sessionID t1 = None), t1)) = (pc, t')"
    using assms unfolding read_one_def Inr sum.case Let_def ty option.case t1_def go.inject .
  consider "first \<and> ty \<noteq> msgKexInit" | "\<not> first" "ty \<noteq> msgKexInit" | "ty = msgKexInit" by blast
  then show thesis
  proof cases
    case 1
    then have "read_end ErrFirstPacket t1 = (pc, t')" using h by simp
    from read_end_gone [OF this f(1)] show thesis using ended by simp
  next
    case 2
    then have "pc = read_deliver p" "t' = t1" using h by auto
    then show thesis using packet [of p] 2 f by (auto simp: read_deliver_def)
  next
    case 3
    then have "pc = RStart p (ht_sessionID t1 = None)" "t' = t1" using h by auto
    then show thesis using start f by simp
  qed
qed

lemma read_done_cases:
  assumes "read_done fk err t = (pc, t')"
  obtains (ended) "pc = RGone" "read_frame t t'"
  | (packet) p where "pc = RRead False \<or> pc = RPush p" "err = None" "read_frame t t'" "ht_startClosed t' = ht_startClosed t"
proof (cases err)
  case (Some e)
  then have "read_end e t = (pc, t')" using assms by (simp add: read_done_def)
  from read_end_gone [OF this read_frame_refl] show thesis using ended by simp
next
  case None
  have "read_frame t (resetReadThresholds t)" "ht_startClosed (resetReadThresholds t) = ht_startClosed t"
    by (simp_all add: resetReadThresholds_def read_frame_def same_queues_def)
  then show thesis using packet [of "[char_of (if fk then msgNewKeys else msgIgnore)]"] None assms
    by (auto simp: read_done_def read_deliver_def split: if_split_asm)
qed

subsection \<open>The places of the goroutines\<close>

definition waiting :: "read_pc \<Rightarrow> bool" where
  "waiting pc \<longleftrightarrow> (\<exists>fk. pc = RWait fk) \<or> pc = RGone"

lemma waiting_simps [simp]: "waiting RGone" "waiting (RWait fk)" "\<not> waiting (RRead b)" "\<not> waiting (RStart p fk)" "\<not> waiting (RPush p)"
  by (simp_all add: waiting_def)

definition places :: "sys \<Rightarrow> bool" where
  "places s \<longleftrightarrow>
     (case sy_kex s of
        KWait q b \<Rightarrow> q = None \<and> (b \<longrightarrow> ht_sentInit (sy_t s) \<noteq> None)
      | KEnter r \<Rightarrow> ht_sentInit (sy_t s) \<noteq> None \<and> ht_done (sy_t s) = None
          \<and> ht_startKex (sy_t s) = None \<and> waiting (sy_read s)
      | KDrain \<Rightarrow> ht_writeError (sy_t s) \<noteq> None \<or> sy_read s = RGone
      | KGone \<Rightarrow> True)
   \<and> (ht_startKex (sy_t s) \<noteq> None \<longrightarrow> ht_done (sy_t s) = None \<and> waiting (sy_read s))
   \<and> (ht_done (sy_t s) \<noteq> None \<longrightarrow> waiting (sy_read s))
   \<and> (ht_startClosed (sy_t s) \<longrightarrow> sy_read s = RGone)
   \<and> (ht_sentInit (sy_t s) = None \<and> \<not> ht_mu (sy_t s) \<longrightarrow> ht_pendingPackets (sy_t s) = [])"

lemma places_frame:
  assumes "places s" "\<not> waiting (sy_read s)" "read_frame (sy_t s) t'" "ht_startClosed t' \<longrightarrow> pc = RGone"
  shows "places (s\<lparr>sy_t := t', sy_read := pc\<rparr>)"
  using assms by (auto simp: places_def read_frame_def same_queues_def split: kex_pc.split_asm kex_pc.split)

lemma readPacket_form:
  assumes "hs_readPacket stopped t = Some (res, t')"
  shows "\<exists>ps. t' = t\<lparr>ht_incoming := ps\<rparr> \<and> (ps \<noteq> [] \<or> (\<exists>p. res = Inr p) \<longrightarrow> ht_incoming t \<noteq> [])"
proof -
  have stay: ?thesis if "t' = t" "\<forall>p. res \<noteq> Inr p"
    by (rule exI [of _ "ht_incoming t"]) (use that in simp)
  show ?thesis
  proof (cases "stopped \<or> ht_incoming t = []")
    case True
    then show ?thesis using assms stay by (auto simp: hs_readPacket_def split: if_split_asm)
  next
    case False
    then obtain p ps where c: "ht_incoming t = p # ps" "\<not> stopped" by (auto simp: neq_Nil_conv)
    then show ?thesis using assms by (intro exI [of _ ps]) (auto simp: hs_readPacket_def)
  qed
qed

lemma waitSession_form:
  assumes "waitSession stopped t = Some (res, t')"
  shows "\<exists>ps. t' = t\<lparr>ht_incoming := ps\<rparr> \<and> (ps \<noteq> [] \<or> res = None \<longrightarrow> ht_incoming t \<noteq> [])"
proof -
  obtain r where r: "hs_readPacket stopped t = Some (r, t')" "res = None \<longrightarrow> (\<exists>p. r = Inr p)"
    using assms by (auto simp: waitSession_def split: option.split_asm prod.split_asm sum.split_asm if_split_asm)
  from readPacket_form [OF r(1)] r(2) show ?thesis by blast
qed

lemma places_kex_turn:
  assumes p: "places s" and w: "sy_kex s = KWait q b" and d: "rq \<noteq> None \<longrightarrow> ht_done (sy_t s) = None \<and> waiting (sy_read s)"
    and k: "kex_turn wr cookie rq b v = (pc, t')"
    and u: "ht_sentInit v = ht_sentInit (sy_t s)" "ht_done v = ht_done (sy_t s)"
      "ht_startClosed v = ht_startClosed (sy_t s)" "ht_startKex v = (if rq = None then ht_startKex (sy_t s) else None)"
      "ht_mu v = ht_mu (sy_t s)" "ht_pendingPackets v = ht_pendingPackets (sy_t s)"
  shows "places (s\<lparr>sy_t := t', sy_kex := pc\<rparr>)"
proof -
  have b: "b \<longrightarrow> ht_sentInit v \<noteq> None" using p w u by (simp add: places_def)
  from k b show ?thesis
  proof (cases rule: kex_turn_cases)
    case wait
    then show ?thesis using p u by (auto simp: places_def same_queues_def)
  next
    case (enter r)
    then show ?thesis using p u d by (auto simp: places_def same_queues_def)
  next
    case (drain e)
    then show ?thesis using p u d by (auto simp: places_def same_queues_def init_sent_def)
  qed
qed

lemma places_step: "hs_step s s' \<Longrightarrow> places s \<Longrightarrow> places s'"
proof (induction rule: hs_step.induct)
  case (app_wait s stopped res t')
  then show ?case using waitSession_form [of stopped "sy_t s" res t'] by (auto simp: places_def split: kex_pc.split_asm kex_pc.split)
next
  case (app_write s wr p res t')
  from app_write(2) app_write(3) show ?case
    by (cases rule: writePacket_cases) (auto simp: places_def split: kex_pc.split_asm kex_pc.split)
next
  case (app_read s stopped res t')
  then show ?case using readPacket_form [of stopped "sy_t s" res t'] by (auto simp: places_def split: kex_pc.split_asm kex_pc.split)
next
  case (kex_start s q b r wr cookie pc t')
  then have "ht_done (sy_t s) = None" "waiting (sy_read s)" by (simp_all add: places_def)
  then show ?case
    using places_kex_turn [OF kex_start(4,1) _ kex_start(3)] by simp
next
  case (kex_request s q b wr cookie pc t')
  then have "q = None" by (simp add: places_def)
  then show ?case using places_kex_turn [OF kex_request(4,1) _ kex_request(3)] by simp
next
  case (kex_enter s r x err t1 t' wrs)
  obtain a b n we where f: "t' = t1\<lparr>ht_writePacketsLeft := a, ht_writeBytesLeft := b, ht_sentInit := None, ht_requestKex := False,
       ht_done := Some err, ht_out := ht_out t1 @ map OutData (take n (ht_pendingPackets t1)), ht_writeError := we, ht_pendingPackets := []\<rparr>"
    using kex_finish_form [of wrs err t1] kex_enter(3) by blast
  have e: "ht_startKex t1 = ht_startKex (sy_t s)" "ht_startClosed t1 = ht_startClosed (sy_t s)"
    using enterKeyExchange_effect [OF kex_enter(2)] by (auto simp: exchange_effect_def)
  show ?case using kex_enter(1,4) e by (simp add: places_def f kex_top_def)
next
  case (kex_stop_reply s r x err t1)
  have e: "ht_startKex t1 = ht_startKex (sy_t s)" "ht_startClosed t1 = ht_startClosed (sy_t s)" "ht_done t1 = ht_done (sy_t s)"
    using enterKeyExchange_effect [OF kex_stop_reply(2)] by (auto simp: exchange_effect_def)
  show ?case using kex_stop_reply(1,3) e by (simp add: places_def kex_abandon_def resetWriteThresholds_def)
next
  case (read_conn s first rd pc t')
  have w: "\<not> waiting (sy_read s)" using read_conn(1) by simp
  have c: "\<not> ht_startClosed (sy_t s)" using read_conn(1,3) by (auto simp: places_def)
  from read_conn(2) show ?case
    by (cases rule: read_one_cases) (use places_frame [OF read_conn(3) w, of t'] c in auto)
next
  case (read_wait s fk err pc t')
  have c: "\<not> ht_startClosed (sy_t s)" "ht_startKex (sy_t s) = None" "\<And>r. sy_kex s \<noteq> KEnter r" using read_wait(1,2,4) by (auto simp: places_def)
  from read_wait(3) show ?case
    by (cases rule: read_done_cases)
      (use c read_wait(1,4) in \<open>auto simp: places_def read_frame_def same_queues_def split: kex_pc.split_asm kex_pc.split\<close>)
next
  case (read_start s p fk)
  then show ?case by (auto simp: places_def split: kex_pc.split_asm kex_pc.split)
next
  case (read_push s p)
  then show ?case by (auto simp: places_def split: kex_pc.split_asm kex_pc.split)
next
  case (read_stop s p)
  then show ?case by (auto simp: places_def split: kex_pc.split_asm kex_pc.split)
next
  case (read_halt s p fk pc t')
  have "pc = RGone" "read_frame (sy_t s) t'" using read_end_gone [OF read_halt(2) read_frame_refl] by simp_all
  then show ?case using read_halt(3) by (auto simp: places_def read_frame_def same_queues_def split: kex_pc.split_asm kex_pc.split)
qed (auto simp: places_def)

subsection \<open>Order\<close>

fun datas :: "out_event list \<Rightarrow> bytes list" where
  "datas [] = []"
| "datas (OutData p # es) = p # datas es"
| "datas (e # es) = datas es"

lemma datas_append [simp]: "datas (a @ b) = datas a @ datas b"
  by (induction a rule: datas.induct) simp_all

lemma datas_map [simp]: "datas (map OutKex ps) = []" "datas (map OutData ps) = ps"
  by (induction ps) simp_all

definition ordered :: "sys \<Rightarrow> bool" where
  "ordered s \<longleftrightarrow>
     (ht_writeError (sy_t s) = None \<or> (\<exists>r. sy_kex s = KEnter r) \<longrightarrow> datas (ht_out (sy_t s)) @ ht_pendingPackets (sy_t s) = sy_accepted s)
   \<and> (\<exists>rest. sy_accepted s = datas (ht_out (sy_t s)) @ rest)"

lemma ordered_frame:
  "ordered s \<Longrightarrow> read_frame (sy_t s) t' \<Longrightarrow> ordered (s\<lparr>sy_t := t', sy_read := pc\<rparr>)"
  by (simp add: ordered_def read_frame_def same_queues_def)

lemma ordered_turn:
  assumes "ordered s" "places s" "sy_kex s = KWait q b" "kex_turn wr cookie rq b v = (pc, t')"
    and v: "ht_sentInit v = ht_sentInit (sy_t s)" "ht_out v = ht_out (sy_t s)" "ht_pendingPackets v = ht_pendingPackets (sy_t s)"
      "ht_writeError v = ht_writeError (sy_t s)"
  shows "ordered (s\<lparr>sy_t := t', sy_kex := pc\<rparr>)"
proof -
  have b: "b \<longrightarrow> ht_sentInit v \<noteq> None" using assms(2,3) v by (simp add: places_def)
  have "datas (ht_out t') = datas (ht_out v) \<and> ht_pendingPackets t' = ht_pendingPackets v
      \<and> (ht_writeError t' = None \<or> (\<exists>r. pc = KEnter r) \<longrightarrow> ht_writeError v = None)"
    using assms(4) b by (cases rule: kex_turn_cases) (auto simp: init_sent_def same_queues_def)
  then show ?thesis using assms(1) v by (simp add: ordered_def)
qed

lemma effect_queues:
  assumes "exchange_effect t err t1"
  shows "ht_pendingPackets t1 = ht_pendingPackets t" "datas (ht_out t1) = datas (ht_out t)" "ht_incoming t1 = ht_incoming t"
  using assms by (auto simp: exchange_effect_def)

lemma ordered_step:
  "hs_step s s' \<Longrightarrow> places s \<Longrightarrow> ordered s \<Longrightarrow> ordered s'"
proof (induction rule: hs_step.induct)
  case (app_wait s stopped res t')
  then show ?case using waitSession_form [of stopped "sy_t s" res t'] by (auto simp: ordered_def)
next
  case (app_write s wr p res t')
  from app_write(2) show ?case
    by (cases rule: writePacket_cases) (use app_write(3,4) in \<open>auto simp: ordered_def places_def\<close>)
next
  case (app_read s stopped res t')
  then show ?case using readPacket_form [of stopped "sy_t s" res t'] by (auto simp: ordered_def)
next
  case (kex_start s q b r wr cookie pc t')
  then show ?case using ordered_turn [OF kex_start(5,4,1,3)] by simp
next
  case (kex_request s q b wr cookie pc t')
  then show ?case using ordered_turn [OF kex_request(5,4,1,3)] by simp
next
  case (kex_enter s r x err t1 t' wrs)
  obtain a b n we where f: "t' = t1\<lparr>ht_writePacketsLeft := a, ht_writeBytesLeft := b, ht_sentInit := None, ht_requestKex := False,
       ht_done := Some err, ht_out := ht_out t1 @ map OutData (take n (ht_pendingPackets t1)), ht_writeError := we, ht_pendingPackets := []\<rparr>"
      "we = None \<longrightarrow> n = length (ht_pendingPackets t1)"
    using kex_finish_form [of wrs err t1] kex_enter(3) by blast
  have acc: "sy_accepted s = datas (ht_out (sy_t s)) @ ht_pendingPackets (sy_t s)" using kex_enter(1,5) by (simp add: ordered_def)
  note e = effect_queues [OF enterKeyExchange_effect [OF kex_enter(2)]]
  have "\<exists>rest. sy_accepted s = datas (ht_out (sy_t s)) @ take n (ht_pendingPackets (sy_t s)) @ rest"
    by (rule exI [of _ "drop n (ht_pendingPackets (sy_t s))"]) (simp add: acc)
  moreover have "kex_top t' \<noteq> KEnter r'" for r' by (simp add: kex_top_def)
  ultimately show ?case using f(2) by (simp add: ordered_def f(1) e acc)
next
  case (kex_stop_reply s r x err t1)
  show ?case using kex_stop_reply(1,4) effect_queues [OF enterKeyExchange_effect [OF kex_stop_reply(2)]]
    by (simp add: ordered_def kex_abandon_def resetWriteThresholds_def)
next
  case (read_conn s first rd pc t')
  from read_conn(2) show ?case by (cases rule: read_one_cases) (use ordered_frame [OF read_conn(4)] in auto)
next
  case (read_wait s fk err pc t')
  have "ordered (s\<lparr>sy_t := (sy_t s)\<lparr>ht_done := None\<rparr>\<rparr>)" using read_wait(5) by (simp add: ordered_def)
  note o = ordered_frame [OF this, of t' pc]
  from read_wait(3) show ?case by (cases rule: read_done_cases) (use o in simp_all)
next
  case (read_halt s p fk pc t')
  show ?case using read_end_gone [OF read_halt(2) read_frame_refl] ordered_frame [OF read_halt(4)] by blast
qed (auto simp: ordered_def)

subsection \<open>Framing\<close>

text \<open>
  The language of what goes out: the offer of an exchange, its messages, the switch of keys, and
  after that data until the next offer.
\<close>

datatype phase = Fresh | Exchanging | Open

fun phase_step :: "phase \<Rightarrow> out_event \<Rightarrow> phase option" where
  "phase_step Fresh (OutInit p) = Some Exchanging"
| "phase_step Exchanging (OutKex p) = Some Exchanging"
| "phase_step Exchanging OutNewKeys = Some Open"
| "phase_step Open (OutData p) = Some Open"
| "phase_step Open (OutInit p) = Some Exchanging"
| "phase_step _ _ = None"

fun phase_run :: "phase \<Rightarrow> out_event list \<Rightarrow> phase option" where
  "phase_run ph [] = Some ph"
| "phase_run ph (e # es) = (case phase_step ph e of None \<Rightarrow> None | Some ph' \<Rightarrow> phase_run ph' es)"

lemma phase_run_append: "phase_run ph (a @ b) = (case phase_run ph a of None \<Rightarrow> None | Some ph' \<Rightarrow> phase_run ph' b)"
  by (induction a arbitrary: ph) (auto split: option.split)

lemma phase_run_map [simp]: "phase_run Exchanging (map OutKex ps) = Some Exchanging" "phase_run Open (map OutData ps) = Some Open"
  by (induction ps) simp_all

definition opened :: "sys \<Rightarrow> bool" where
  "opened s \<longleftrightarrow>
     (sy_session s \<or> ht_incoming (sy_t s) \<noteq> [] \<or> (\<exists>p. sy_read s = RPush p) \<or> sy_read s = RRead False
      \<or> ht_done (sy_t s) = Some None \<and> sy_read s \<noteq> RGone) \<longrightarrow> OutNewKeys \<in> set (ht_out (sy_t s))"

definition framed :: "sys \<Rightarrow> bool" where
  "framed s \<longleftrightarrow> \<not> sy_failed s \<longrightarrow>
     phase_run Fresh (ht_out (sy_t s)) =
       Some (if ht_sentInit (sy_t s) \<noteq> None then Exchanging else if OutNewKeys \<in> set (ht_out (sy_t s)) then Open else Fresh)"

lemma opened_frame:
  assumes "opened s" "read_frame (sy_t s) t'" "pc = RGone \<or> (\<exists>p fk. pc = RStart p fk) \<and> ht_done (sy_t s) \<noteq> Some None
    \<or> OutNewKeys \<in> set (ht_out (sy_t s))"
  shows "opened (s\<lparr>sy_t := t', sy_read := pc\<rparr>)"
  using assms by (auto simp: opened_def read_frame_def same_queues_def)

lemma init_sent_keys: "init_sent v t' \<Longrightarrow> OutNewKeys \<in> set (ht_out t') \<longleftrightarrow> OutNewKeys \<in> set (ht_out v)"
  by (auto simp: init_sent_def)

lemma turn_effect:
  assumes "places s" "sy_kex s = KWait q b" "kex_turn wr cookie rq b v = (pc, t')" "ht_sentInit v = ht_sentInit (sy_t s)"
  shows "init_sent v t'" "same_queues v t'" "ht_done t' = Some None \<longrightarrow> ht_done v = Some None"
proof -
  have b: "b \<longrightarrow> ht_sentInit v \<noteq> None" using assms(1,2,4) by (simp add: places_def)
  show "init_sent v t'" "same_queues v t'" "ht_done t' = Some None \<longrightarrow> ht_done v = Some None"
    using assms(3) b by (cases rule: kex_turn_cases; auto)+
qed

lemma opened_step:
  "hs_step s s' \<Longrightarrow> places s \<Longrightarrow> opened s \<Longrightarrow> opened s'"
proof (induction rule: hs_step.induct)
  case (app_wait s stopped res t')
  then show ?case using waitSession_form [of stopped "sy_t s" res t'] by (auto simp: opened_def)
next
  case (app_write s wr p res t')
  from app_write(2) show ?case
    by (cases rule: writePacket_cases) (use app_write(4) in \<open>auto simp: opened_def\<close>)
next
  case (app_read s stopped res t')
  then show ?case using readPacket_form [of stopped "sy_t s" res t'] by (auto simp: opened_def)
next
  case (kex_start s q b r wr cookie pc t')
  from turn_effect [OF kex_start(4,1,3)] kex_start(5) show ?case
    by (auto simp: opened_def same_queues_def init_sent_keys)
next
  case (kex_request s q b wr cookie pc t')
  from turn_effect [OF kex_request(4,1,3)] kex_request(5) show ?case
    by (auto simp: opened_def same_queues_def init_sent_keys)
next
  case (kex_enter s r x err t1 t' wrs)
  obtain a b n we where f: "t' = t1\<lparr>ht_writePacketsLeft := a, ht_writeBytesLeft := b, ht_sentInit := None, ht_requestKex := False,
       ht_done := Some err, ht_out := ht_out t1 @ map OutData (take n (ht_pendingPackets t1)), ht_writeError := we, ht_pendingPackets := []\<rparr>"
    using kex_finish_form [of wrs err t1] kex_enter(3) by blast
  from enterKeyExchange_effect [OF kex_enter(2)] show ?case
    using kex_enter(5) by (auto simp: exchange_effect_def opened_def f)
next
  case (kex_stop_reply s r x err t1)
  from enterKeyExchange_effect [OF kex_stop_reply(2)] show ?case
    using kex_stop_reply(4) by (auto simp: exchange_effect_def opened_def kex_abandon_def resetWriteThresholds_def)
next
  case (kex_drain s r)
  then show ?case by (auto simp: opened_def places_def)
next
  case (read_conn s first rd pc t')
  have d: "ht_done (sy_t s) = None" using read_conn(1,3) by (auto simp: places_def)
  have "pc = RGone \<or> (\<exists>p fk. pc = RStart p fk) \<and> ht_done (sy_t s) \<noteq> Some None \<or> OutNewKeys \<in> set (ht_out (sy_t s))"
    "read_frame (sy_t s) t'"
    using read_conn(2) by (cases rule: read_one_cases; use read_conn(1,4) d in \<open>auto simp: opened_def\<close>)+
  then show ?case using opened_frame [OF read_conn(4)] by blast
next
  case (read_wait s fk err pc t')
  have o: "opened (s\<lparr>sy_t := (sy_t s)\<lparr>ht_done := None\<rparr>\<rparr>)" using read_wait(5) by (auto simp: opened_def)
  have "pc = RGone \<or> OutNewKeys \<in> set (ht_out (sy_t s))" "read_frame ((sy_t s)\<lparr>ht_done := None\<rparr>) t'"
    using read_wait(3) by (cases rule: read_done_cases; use read_wait(1,2,5) in \<open>auto simp: opened_def\<close>)+
  then show ?case using opened_frame [OF o, of t' pc] by auto
next
  case (read_start s p fk)
  then show ?case by (auto simp: opened_def)
next
  case (read_halt s p fk pc t')
  show ?case using read_end_gone [OF read_halt(2) read_frame_refl] opened_frame [OF read_halt(4)] by blast
qed (auto simp: opened_def)

lemma framed_frame: "framed s \<Longrightarrow> read_frame (sy_t s) t' \<Longrightarrow> framed (s\<lparr>sy_t := t', sy_read := pc\<rparr>)"
  by (simp add: framed_def read_frame_def)

lemma framed_turn:
  assumes "framed s" "init_sent v t'" "ht_sentInit v = ht_sentInit (sy_t s)" "ht_out v = ht_out (sy_t s)"
  shows "framed (s\<lparr>sy_t := t', sy_kex := pc\<rparr>)"
  using assms by (cases "ht_sentInit (sy_t s)") (auto simp: framed_def init_sent_def phase_run_append)

lemma framed_step:
  "hs_step s s' \<Longrightarrow> places s \<Longrightarrow> opened s \<Longrightarrow> framed s \<Longrightarrow> framed s'"
proof (induction rule: hs_step.induct)
  case (app_wait s stopped res t')
  then show ?case using waitSession_form [of stopped "sy_t s" res t'] by (auto simp: framed_def)
next
  case (app_write s wr p res t')
  from app_write(2) show ?case
    by (cases rule: writePacket_cases) (use app_write(1,4,5) in \<open>auto simp: framed_def opened_def phase_run_append\<close>)
next
  case (app_read s stopped res t')
  then show ?case using readPacket_form [of stopped "sy_t s" res t'] by (auto simp: framed_def)
next
  case (kex_start s q b r wr cookie pc t')
  show ?case by (rule framed_turn [OF kex_start(6) turn_effect(1) [OF kex_start(4,1,3)]]) simp_all
next
  case (kex_request s q b wr cookie pc t')
  show ?case by (rule framed_turn [OF kex_request(6) turn_effect(1) [OF kex_request(4,1,3)]]) simp_all
next
  case (kex_enter s r x err t1 t' wrs)
  obtain a b n we where f: "t' = t1\<lparr>ht_writePacketsLeft := a, ht_writeBytesLeft := b, ht_sentInit := None, ht_requestKex := False,
       ht_done := Some err, ht_out := ht_out t1 @ map OutData (take n (ht_pendingPackets t1)), ht_writeError := we, ht_pendingPackets := []\<rparr>"
    using kex_finish_form [of wrs err t1] kex_enter(3) by blast
  have "ht_sentInit (sy_t s) \<noteq> None" using kex_enter(1,4) by (simp add: places_def)
  with enterKeyExchange_effect [OF kex_enter(2)] show ?case
    using kex_enter(6) by (auto simp: exchange_effect_def framed_def f phase_run_append)
next
  case (kex_stop_reply s r x err t1)
  have "ht_sentInit (sy_t s) \<noteq> None" using kex_stop_reply(1,3) by (simp add: places_def)
  with enterKeyExchange_effect [OF kex_stop_reply(2)] show ?case
    using kex_stop_reply(5) by (auto simp: exchange_effect_def framed_def kex_abandon_def resetWriteThresholds_def phase_run_append)
next
  case (read_conn s first rd pc t')
  from read_conn(2) show ?case by (cases rule: read_one_cases) (use framed_frame [OF read_conn(5)] in auto)
next
  case (read_wait s fk err pc t')
  have "framed (s\<lparr>sy_t := (sy_t s)\<lparr>ht_done := None\<rparr>\<rparr>)" using read_wait(6) by (simp add: framed_def)
  note o = framed_frame [OF this, of t' pc]
  from read_wait(3) show ?case by (cases rule: read_done_cases) (use o in simp_all)
next
  case (read_halt s p fk pc t')
  show ?case using read_end_gone [OF read_halt(2) read_frame_refl] framed_frame [OF read_halt(5)] by blast
qed (auto simp: framed_def)

subsection \<open>Reachable states\<close>

definition fresh_transport :: "handshakeTransport \<Rightarrow> bool" where
  "fresh_transport t \<longleftrightarrow> (\<exists>cfg cv sv algos. t = newClientTransport cfg cv sv algos) \<or> (\<exists>cfg cv sv ks. t = newServerTransport cfg cv sv ks)"

lemma reachable_invariants:
  assumes "hs_reachable t0 s" and "fresh_transport t0"
  shows "places s \<and> ordered s \<and> opened s \<and> framed s"
  using assms
proof (induction rule: hs_reachable.induct)
  case start
  then show ?case
    by (auto simp: fresh_transport_def newClientTransport_def newServerTransport_def newHandshakeTransport_def
        resetWriteThresholds_def resetReadThresholds_def sys_start_def kex_top_def places_def ordered_def opened_def framed_def)
next
  case (step s s')
  then show ?case using places_step ordered_step opened_step framed_step by blast
qed

text \<open>A data packet is preceded by a switch of keys with no later offer.\<close>

lemma data_after_switch:
  "phase_run ph (a @ OutData p # b) \<noteq> None \<Longrightarrow>
   (ph = Open \<and> (\<forall>q. OutInit q \<notin> set a)) \<or> (\<exists>a1 a2. a = a1 @ OutNewKeys # a2 \<and> (\<forall>q. OutInit q \<notin> set a2))"
proof (induction a arbitrary: ph)
  case Nil
  then show ?case by (cases ph) simp_all
next
  case (Cons e a)
  then obtain ph' where ph': "phase_step ph e = Some ph'" "phase_run ph' (a @ OutData p # b) \<noteq> None"
    by (cases "phase_step ph e") simp_all
  from Cons.IH [OF ph'(2)] show ?case
  proof
    assume o: "ph' = Open \<and> (\<forall>q. OutInit q \<notin> set a)"
    show ?thesis
    proof (cases "e = OutNewKeys")
      case True
      then show ?thesis using o by (metis append_Nil)
    next
      case False
      then have "ph = Open \<and> (\<forall>q. e \<noteq> OutInit q)" using o ph'(1) by (cases ph; cases e) simp_all
      then show ?thesis using o by auto
    qed
  next
    assume "\<exists>a1 a2. a = a1 @ OutNewKeys # a2 \<and> (\<forall>q. OutInit q \<notin> set a2)"
    then obtain a1 a2 where "a = a1 @ OutNewKeys # a2" "\<forall>q. OutInit q \<notin> set a2" by blast
    then have "e # a = (e # a1) @ OutNewKeys # a2" by simp
    then show ?thesis using \<open>\<forall>q. OutInit q \<notin> set a2\<close> by blast
  qed
qed

text \<open>After a failed exchange the packets that waited are sent all the same, and the error is forgotten.\<close>

lemma failed_exchange_still_sends:
  assumes "ht_pendingPackets t \<noteq> []"
  shows "ht_writeError (kex_finish [] (Some e) t) = None"
    and "ht_out (kex_finish [] (Some e) t) = ht_out t @ map OutData (ht_pendingPackets t)"
proof -
  have p: "push_pending [] ps u = u\<lparr>ht_out := ht_out u @ map OutData ps, ht_writeError := None\<rparr>" if "ps \<noteq> []" for ps u
    using that
  proof (induction ps arbitrary: u)
    case (Cons q ps)
    then show ?case by (cases ps) (simp_all add: push_def)
  qed simp
  show "ht_writeError (kex_finish [] (Some e) t) = None"
    "ht_out (kex_finish [] (Some e) t) = ht_out t @ map OutData (ht_pendingPackets t)"
    using assms by (simp_all add: kex_finish_def resetWriteThresholds_def p)
qed

text \<open>A stop that is noticed where the result is handed over leaves every later write waiting for ever.\<close>

lemma stop_blocks_writers:
  assumes "msg_type p = Some ty" "ty \<noteq> msgKexInit" "ty \<noteq> msgNewKeys"
  shows "hs_writePacket wr p (kex_abandon err t) = Hang"
  using assms by (simp add: hs_writePacket_def kex_abandon_def resetWriteThresholds_def)

end
