(* ===== verification/Kex_Proofs.thy ===== *)
theory Kex_Proofs
  imports Kex Wire_Proofs
begin

section \<open>Both ends of a key exchange agree\<close>

text \<open>
  The messages of the exchanges are read back, the secrets of the two ends are equal, and the hash
  binds everything the ends have seen.
\<close>

subsection \<open>Messages\<close>

lemma kex_msgs_read_back:
  "small (Marshal kexDHInitMsg [VInt X]) \<Longrightarrow> read_msg kexDHInitMsg (Inr (Marshal kexDHInitMsg [VInt X])) = Inr [VInt X]"
  "small (Marshal kexECDHInitMsg [VBytes b]) \<Longrightarrow> read_msg kexECDHInitMsg (Inr (Marshal kexECDHInitMsg [VBytes b])) = Inr [VBytes b]"
  "small (Marshal kexDHReplyMsg [VBytes a, VInt Y, VBytes c]) \<Longrightarrow>
     read_msg kexDHReplyMsg (Inr (Marshal kexDHReplyMsg [VBytes a, VInt Y, VBytes c])) = Inr [VBytes a, VInt Y, VBytes c]"
  "small (Marshal kexECDHReplyMsg [VBytes a, VBytes b, VBytes c]) \<Longrightarrow>
     read_msg kexECDHReplyMsg (Inr (Marshal kexECDHReplyMsg [VBytes a, VBytes b, VBytes c])) = Inr [VBytes a, VBytes b, VBytes c]"
  by (simp_all add: read_msg_def Unmarshal_of_Marshal kexDHInitMsg_def kexECDHInitMsg_def kexDHReplyMsg_def
      kexECDHReplyMsg_def tags_ok_def has_kind_def)

subsection \<open>The shared secret\<close>

lemma Exp_commute: "Exp (Exp g x p) y p = Exp (Exp g y p) x p"
  by (simp add: Exp_def power_mod power_mult [symmetric] mult.commute)

lemma diffieHellman_Inr:
  "diffieHellman G Y x = Inr k \<longleftrightarrow> 1 < Y \<and> Y < dh_pMinus1 G \<and> k = Exp Y x (dh_p G)"
  by (auto simp: diffieHellman_def)

text \<open>
  What is assumed of a curve of the standard library: a generated key is a valid point, points are
  read back from their encoding, and multiplication by two scalars commutes.
\<close>

definition curve_ok :: "ec_curve \<Rightarrow> bool" where
  "curve_ok c \<longleftrightarrow>
     (\<forall>r d x y. ec_GenerateKey c r = Some (d, x, y) \<longrightarrow>
        validateECPublicKey c x y \<and> ec_Unmarshal c (ec_Marshal c x y) = Some (x, y)
        \<and> (\<forall>r' d' x' y'. ec_GenerateKey c r' = Some (d', x', y') \<longrightarrow>
             ec_ScalarMult c x y d' = ec_ScalarMult c x' y' d))"

definition x25519_ok :: "kex_prims \<Rightarrow> bool" where
  "x25519_ok pr \<longleftrightarrow> (\<forall>a. length (kp_ScalarBaseMult pr a) = 32)
     \<and> (\<forall>a b. kp_ScalarMult pr a (kp_ScalarBaseMult pr b) = kp_ScalarMult pr b (kp_ScalarBaseMult pr a))"

text \<open>
  The hypothesis on an algorithm; for the groups of integers there is none but that the public value
  of the server is one that the client accepts.
\<close>

definition kex_alg_ok :: "kex_prims \<Rightarrow> randoms \<Rightarrow> kexAlgorithm \<Rightarrow> bool" where
  "kex_alg_ok pr rs alg =
     (case alg of
        DHGroup G \<Rightarrow> (case draw_loop (rn_Ints rs) of
            Inl _ \<Rightarrow> True
          | Inr y \<Rightarrow> 1 < Exp (dh_g G) y (dh_p G) \<and> Exp (dh_g G) y (dh_p G) < dh_pMinus1 G)
      | ECDH c \<Rightarrow> curve_ok c
      | Curve25519SHA256 \<Rightarrow> x25519_ok pr)"

lemma sent_None [simp]: "sent None p = [p]"
  by (simp add: sent_def)

lemma bind_err_simps [simp]: "bind_err (Inr x) f = f x" "bind_err (Inl e) f = Inl e"
  by (simp_all add: bind_err_def)

lemma dh_agrees:
  assumes c: "dh_Client pr G rc m None rd0 = ([init], res0)"
    and s: "dh_Server pr G rs m priv (Inr init) None = ([reply], Inr r)"
    and sm: "small init" "small reply" and b: "kex_alg_ok pr rs (DHGroup G)"
  shows "dh_Client pr G rc m None (Inr reply) = ([init], Inr r)"
proof -
  obtain x where x: "draw_loop (rn_Ints rc) = Inr x"
      and i: "init = Marshal kexDHInitMsg [VInt (Exp (dh_g G) x (dh_p G))]"
    using c by (auto simp: dh_Client_def Let_def split: sum.split_asm)
  obtain y where y: "draw_loop (rn_Ints rs) = Inr y"
    using s sm(1) by (auto simp: dh_Server_def kex_msgs_read_back i bind_err_def split: sum.split_asm)
  let ?X = "Exp (dh_g G) x (dh_p G)" and ?Y = "Exp (dh_g G) y (dh_p G)"
  obtain k sig where k: "diffieHellman G ?X y = Inr k"
    and sig: "signAndMarshal priv (kp_SHA1 pr (dh_transcript m (sn_PublicKey priv) ?X ?Y k)) = Inr sig"
    and rep: "reply = Marshal kexDHReplyMsg [VBytes (sn_PublicKey priv), VInt ?Y, VBytes sig]"
    and r: "r = kex_result (kp_SHA1 pr) (dh_transcript m (sn_PublicKey priv) ?X ?Y k) k (sn_PublicKey priv) sig"
    using s sm(1) by (auto simp: dh_Server_def kex_msgs_read_back i y Let_def bind_err_def split: sum.split_asm prod.split_asm)
  have "diffieHellman G ?Y x = Inr k"
    using k b y by (simp add: diffieHellman_Inr kex_alg_ok_def Exp_commute)
  then show ?thesis using sm(2) by (simp add: dh_Client_def x Let_def i rep kex_msgs_read_back r)
qed

lemma ec_agrees:
  assumes c: "ec_Client pr C rc m None rd0 = ([init], res0)"
    and s: "ec_Server pr C rs m priv (Inr init) None = ([reply], Inr r)"
    and sm: "small init" "small reply" and ok: "curve_ok C"
  shows "ec_Client pr C rc m None (Inr reply) = ([init], Inr r)"
proof -
  obtain d px py where g: "ec_GenerateKey C (rn_Bytes rc) = Some (d, px, py)"
      and i: "init = Marshal kexECDHInitMsg [VBytes (ec_Marshal C px py)]"
    using c by (auto simp: ec_Client_def Let_def split: option.split_asm prod.split_asm)
  have gc: "validateECPublicKey C px py" "ec_Unmarshal C (ec_Marshal C px py) = Some (px, py)"
    using ok g by (simp_all add: curve_ok_def)
  have u: "unmarshalECKey C (ec_Marshal C px py) = Inr (px, py)" using gc by (simp add: unmarshalECKey_def)
  obtain d' sx sy where g': "ec_GenerateKey C (rn_Bytes rs) = Some (d', sx, sy)"
    using s sm(1) by (auto simp: ec_Server_def ec_reply_def kex_msgs_read_back i u split: option.split_asm)
  have u': "unmarshalECKey C (ec_Marshal C sx sy) = Inr (sx, sy)"
    using ok g' by (simp add: curve_ok_def unmarshalECKey_def)
  have eq: "ec_ScalarMult C sx sy d = ec_ScalarMult C px py d'"
    using ok g g' unfolding curve_ok_def by metis
  show ?thesis
    using s sm by (auto simp: ec_Server_def ec_reply_def ec_Client_def i g g' u u' eq Let_def kex_msgs_read_back bind_err_def
        split: sum.split_asm prod.split_asm)
qed

lemma generate_Some: "generate pr rn = Some (a, p) \<Longrightarrow> p = kp_ScalarBaseMult pr a"
  by (auto simp: generate_def Let_def split: if_split_asm)

lemma curve_agrees:
  assumes c: "curve_Client pr rc m None rd0 = ([init], res0)"
    and s: "curve_Server pr rs m priv (Inr init) None = ([reply], Inr r)"
    and sm: "small init" "small reply" and ok: "x25519_ok pr"
  shows "curve_Client pr rc m None (Inr reply) = ([init], Inr r)"
proof -
  obtain a p where g: "generate pr rc = Some (a, p)" and i: "init = Marshal kexECDHInitMsg [VBytes p]"
    using c by (auto simp: curve_Client_def split: option.split_asm prod.split_asm)
  obtain b q where g': "generate pr rs = Some (b, q)"
    using s sm(1) by (auto simp: curve_Server_def ec_reply_def kex_msgs_read_back i split: option.split_asm if_split_asm)
  have len: "length p = 32" "length q = 32" using ok generate_Some [OF g] generate_Some [OF g'] by (simp_all add: x25519_ok_def)
  have eq: "kp_ScalarMult pr a q = kp_ScalarMult pr b p"
    using ok generate_Some [OF g] generate_Some [OF g'] by (simp add: x25519_ok_def)
  show ?thesis
    using s sm by (auto simp: curve_Server_def ec_reply_def curve_Client_def i g g' len eq Let_def kex_msgs_read_back bind_err_def
        split: sum.split_asm prod.split_asm if_split_asm)
qed

subsection \<open>Properties\<close>

definition demo_kex_prims :: kex_prims where
  "demo_kex_prims =
     (let c = \<lparr>ec_P = 7, ec_BitSize = 3, ec_IsOnCurve = (\<lambda>x y. True), ec_ScalarMult = (\<lambda>x y d. (x * int (length d), y)),
               ec_Marshal = (\<lambda>x y. []), ec_Unmarshal = (\<lambda>b. None), ec_GenerateKey = (\<lambda>r. None)\<rparr>
      in \<lparr>kp_SHA1 = (\<lambda>x. x), kp_SHA256 = (\<lambda>x. x), kp_SHA384 = (\<lambda>x. x), kp_SHA512 = (\<lambda>x. x),
          kp_P256 = c, kp_P384 = c, kp_P521 = c, kp_ScalarBaseMult = (\<lambda>a. replicate 32 CHR 0x01),
          kp_ScalarMult = (\<lambda>a b. replicate 32 CHR 0x02)\<rparr>)"

definition demo_signer :: signer where
  "demo_signer = \<lparr>sn_Type = ''t'', sn_PublicKey = ''pub'', sn_Sign = (\<lambda>x. Some (''t'', ''s''))\<rparr>"

definition demo_magics :: handshakeMagics where
  "demo_magics = \<lparr>hm_clientVersion = ''c'', hm_serverVersion = ''s'', hm_clientKexInit = ''a'', hm_serverKexInit = ''b''\<rparr>"

text \<open>
  C5: the two ends of a key exchange agree.  When the server completes an exchange on the packet
  the client sent, then the client completes it on the server's reply, and both hold the same
  result: the same secret, the same hash of everything that was said, the same host key and
  signature.  This holds for every algorithm of the table: for any group of integers with no
  assumption but that the server's public value is in bounds, for the curves under the laws of the
  curve.
\<close>

theorem key_exchange_agrees:
  assumes "kex_Client pr alg rc m None rd0 = ([init], res0)"
    and "kex_Server pr alg rs m priv (Inr init) None = ([reply], Inr r)"
    and "small init" and "small reply" and "kex_alg_ok pr rs alg"
  shows "kex_Client pr alg rc m None (Inr reply) = ([init], Inr r)"
proof (cases alg)
  case (DHGroup G)
  then show ?thesis using dh_agrees assms by simp
next
  case (ECDH C)
  then have "curve_ok C" using assms(5) by (simp add: kex_alg_ok_def)
  with ECDH show ?thesis using ec_agrees assms(1-4) by simp
next
  case Curve25519SHA256
  then have "x25519_ok pr" using assms(5) by (simp add: kex_alg_ok_def)
  with Curve25519SHA256 show ?thesis using curve_agrees assms(1-4) by simp
qed

theorem key_exchange_agrees_witness:
  "\<exists>init reply r. kex_Server demo_kex_prims (DHGroup (oakley 23)) \<lparr>rn_Ints = [0, 7], rn_Bytes = []\<rparr> demo_magics demo_signer (Inr init) None
        = ([reply], Inr r)
    \<and> kex_Client demo_kex_prims (DHGroup (oakley 23)) \<lparr>rn_Ints = [5], rn_Bytes = []\<rparr> demo_magics None (Inr reply) = ([init], Inr r)
    \<and> kr_K r = marshalInt 4"
proof -
  let ?G = "DHGroup (oakley 23)" and ?rc = "\<lparr>rn_Ints = [5], rn_Bytes = []\<rparr>" and ?rs = "\<lparr>rn_Ints = [0, 7], rn_Bytes = []\<rparr>"
  define init where "init = Marshal kexDHInitMsg [VInt 9]"
  define sig where "sig = Marshal signature_schema [VStr ''t'', VBytes ''s'']"
  define reply where "reply = Marshal kexDHReplyMsg [VBytes ''pub'', VInt 13, VBytes sig]"
  define r where "r = kex_result (\<lambda>x. x) (dh_transcript demo_magics ''pub'' 9 13 4) 4 ''pub'' sig"
  have sm: "small init" "small reply"
    by (simp_all add: small_def init_def reply_def sig_def kexDHInitMsg_def kexDHReplyMsg_def signature_schema_def
        Marshal_def marshal_field_def marshalInt_def int_contents_def high_bit_def be_bytes.simps appendInt_def appendU32_def)
  have c: "kex_Client demo_kex_prims ?G ?rc demo_magics None (Inl ErrFlush) = ([init], Inl (KexConn ErrFlush))"
    by (simp add: dh_Client_def oakley_def Exp_def Let_def init_def read_msg_def)
  have s: "kex_Server demo_kex_prims ?G ?rs demo_magics demo_signer (Inr init) None = ([reply], Inr r)"
    using kex_msgs_read_back(1) [OF sm(1) [unfolded init_def]]
    by (simp add: dh_Server_def init_def oakley_def Exp_def Let_def diffieHellman_def signAndMarshal_def demo_signer_def
        reply_def r_def sig_def demo_kex_prims_def)
  have ok: "kex_alg_ok demo_kex_prims ?rs ?G" by (simp add: kex_alg_ok_def oakley_def Exp_def)
  have k: "kr_K r = marshalInt 4" by (simp add: r_def kex_result_def)
  from key_exchange_agrees [OF c s sm ok] s k show ?thesis by blast
qed

text \<open>Strings and numbers in a row can be read in one way only.\<close>

lemma writeString_eq: "writeString s = enc_string s"
  by (simp add: writeString_def enc_string_def)

lemma small_tail: "small (a @ b) \<Longrightarrow> small b"
  using small_append by blast

text \<open>
  What an end of an exchange has seen: the packet of the client, the packet of the server and the
  result.  A public value is an integer or a string of bytes on the wire; both are hashed as a string
  of bytes with its length, an integer as the bytes of its encoding.
\<close>

definition init_schema :: "kexAlgorithm \<Rightarrow> schema" where
  "init_schema alg = (case alg of DHGroup _ \<Rightarrow> kexDHInitMsg | _ \<Rightarrow> kexECDHInitMsg)"

definition reply_schema :: "kexAlgorithm \<Rightarrow> schema" where
  "reply_schema alg = (case alg of DHGroup _ \<Rightarrow> kexDHReplyMsg | _ \<Rightarrow> kexECDHReplyMsg)"

fun pub_bytes :: "fval \<Rightarrow> bytes" where
  "pub_bytes (VBytes b) = b"
| "pub_bytes (VInt n) = int_contents n"
| "pub_bytes _ = []"

definition client_pub :: "kexAlgorithm \<Rightarrow> bytes \<Rightarrow> bytes" where
  "client_pub alg init = (case Unmarshal (init_schema alg) init of Inr [v] \<Rightarrow> pub_bytes v | _ \<Rightarrow> [])"

definition server_pub :: "kexAlgorithm \<Rightarrow> bytes \<Rightarrow> bytes" where
  "server_pub alg reply = (case Unmarshal (reply_schema alg) reply of Inr [_, v, _] \<Rightarrow> pub_bytes v | _ \<Rightarrow> [])"

definition exchange_transcript :: "kexAlgorithm \<Rightarrow> handshakeMagics \<Rightarrow> bytes \<Rightarrow> bytes \<Rightarrow> kexResult \<Rightarrow> bytes" where
  "exchange_transcript alg m init reply r =
     magics_write m @ writeString (kr_HostKey r) @ writeString (client_pub alg init) @ writeString (server_pub alg reply) @ kr_K r"

definition completed_exchange :: "kex_prims \<Rightarrow> kexAlgorithm \<Rightarrow> handshakeMagics \<Rightarrow> bytes \<Rightarrow> bytes \<Rightarrow> kexResult \<Rightarrow> bool" where
  "completed_exchange pr alg m init reply r \<longleftrightarrow>
     (\<exists>rc. kex_Client pr alg rc m None (Inr reply) = ([init], Inr r))
     \<or> (\<exists>rs priv. kex_Server pr alg rs m priv (Inr init) None = ([reply], Inr r))"

lemma writeInt_eq: "writeInt n = writeString (int_contents n)"
  by (simp add: writeInt_def marshalInt_def writeString_def)

lemma kr_simps [simp]:
  "kr_H (kex_result h t k hk sig) = h t" "kr_Hash (kex_result h t k hk sig) = h"
  "kr_K (kex_result h t k hk sig) = marshalInt k" "kr_HostKey (kex_result h t k hk sig) = hk"
  by (simp_all add: kex_result_def)

lemma read_msg_Inr: "read_msg s (Inr p) = Inr vs \<longleftrightarrow> Unmarshal s p = Inr vs"
  by (simp add: read_msg_def split: sum.split)

lemmas kex_unmarshal = kex_msgs_read_back [unfolded read_msg_Inr]

lemma kex_bind_Inr: "bind_err x f = Inr y \<longleftrightarrow> (\<exists>v. x = Inr v \<and> f v = Inr y)"
  by (simp add: bind_err_def split: sum.split)

lemma fields_Inr:
  "(case vs of [VInt X] \<Rightarrow> f X | _ \<Rightarrow> Inl e) = Inr y \<longleftrightarrow> (\<exists>X. vs = [VInt X] \<and> f X = Inr y)"
  "(case vs of [VBytes b] \<Rightarrow> g b | _ \<Rightarrow> Inl e) = Inr y \<longleftrightarrow> (\<exists>b. vs = [VBytes b] \<and> g b = Inr y)"
  "(case vs of [VBytes a, VInt Y, VBytes c] \<Rightarrow> h a Y c | _ \<Rightarrow> Inl e) = Inr y
     \<longleftrightarrow> (\<exists>a Y c. vs = [VBytes a, VInt Y, VBytes c] \<and> h a Y c = Inr y)"
  "(case vs of [VBytes a, VBytes b, VBytes c] \<Rightarrow> k a b c | _ \<Rightarrow> Inl e) = Inr y
     \<longleftrightarrow> (\<exists>a b c. vs = [VBytes a, VBytes b, VBytes c] \<and> k a b c = Inr y)"
  by (auto split: list.split fval.split)

lemma found_Inr:
  "(case o1 of None \<Rightarrow> Inl e | Some (a, b) \<Rightarrow> f a b) = Inr y \<longleftrightarrow> (\<exists>a b. o1 = Some (a, b) \<and> f a b = Inr y)"
  "(case o2 of None \<Rightarrow> Inl e | Some (a, b, c) \<Rightarrow> g a b c) = Inr y \<longleftrightarrow> (\<exists>a b c. o2 = Some (a, b, c) \<and> g a b c = Inr y)"
  "(if P then Inl e else x) = Inr y \<longleftrightarrow> \<not> P \<and> x = Inr y"
  by (auto split: option.split prod.split)

lemmas exchange_seen = exchange_transcript_def client_pub_def server_pub_def init_schema_def reply_schema_def
  dh_transcript_def ec_transcript_def writeInt_eq

lemma client_hashes_transcript:
  assumes "kex_Client pr alg rc m None (Inr reply) = ([init], Inr r)" and "small init"
  shows "kr_H r = kr_Hash r (exchange_transcript alg m init reply r) \<and> (\<exists>k. kr_K r = marshalInt k)"
proof (cases alg)
  case (DHGroup G)
  then show ?thesis using assms
    by (auto simp: dh_Client_def Let_def kex_bind_Inr read_msg_Inr fields_Inr kex_unmarshal exchange_seen
        split: sum.split_asm)
next
  case (ECDH C)
  then show ?thesis using assms
    by (auto simp: ec_Client_def Let_def kex_bind_Inr read_msg_Inr fields_Inr kex_unmarshal exchange_seen
        split: option.split_asm prod.split_asm)
next
  case Curve25519SHA256
  then show ?thesis using assms
    by (auto simp: curve_Client_def Let_def kex_bind_Inr read_msg_Inr fields_Inr kex_unmarshal exchange_seen
        split: option.split_asm prod.split_asm if_split_asm)
qed

lemma dh_server_reply:
  assumes "dh_Server pr G rs m priv (Inr init) None = ([reply], Inr r)"
  obtains X Y k sig where "Unmarshal kexDHInitMsg init = Inr [VInt X]"
    "reply = Marshal kexDHReplyMsg [VBytes (sn_PublicKey priv), VInt Y, VBytes sig]"
    "r = kex_result (kp_SHA1 pr) (dh_transcript m (sn_PublicKey priv) X Y k) k (sn_PublicKey priv) sig"
  using assms
  by (auto simp: dh_Server_def Let_def kex_bind_Inr read_msg_Inr fields_Inr
      split: sum.split_asm prod.split_asm)

lemma ec_reply_Inr: "ec_reply None x = ([reply], Inr r) \<longleftrightarrow> x = Inr (reply, r)"
  by (auto simp: ec_reply_def split: sum.split prod.split)

lemma ec_server_reply:
  assumes "ec_Server pr C rs m priv (Inr init) None = ([reply], Inr r) \<or> curve_Server pr rs m priv (Inr init) None = ([reply], Inr r)"
  obtains cpub spub k sig h where "Unmarshal kexECDHInitMsg init = Inr [VBytes cpub]"
    "reply = Marshal kexECDHReplyMsg [VBytes (sn_PublicKey priv), VBytes spub, VBytes sig]"
    "r = kex_result h (ec_transcript m (sn_PublicKey priv) cpub spub k) k (sn_PublicKey priv) sig"
  using assms
  by (auto simp: ec_Server_def curve_Server_def Let_def kex_bind_Inr read_msg_Inr fields_Inr found_Inr ec_reply_Inr)

lemma server_hashes_transcript:
  assumes "kex_Server pr alg rs m priv (Inr init) None = ([reply], Inr r)" and "small reply"
  shows "kr_H r = kr_Hash r (exchange_transcript alg m init reply r) \<and> (\<exists>k. kr_K r = marshalInt k)"
proof (cases alg)
  case (DHGroup G)
  with assms(1) have "dh_Server pr G rs m priv (Inr init) None = ([reply], Inr r)" by simp
  then show ?thesis using assms(2) DHGroup by (auto elim!: dh_server_reply simp: kex_unmarshal exchange_seen)
next
  case (ECDH C)
  with assms(1) have "ec_Server pr C rs m priv (Inr init) None = ([reply], Inr r)" by simp
  then show ?thesis using assms(2) ECDH by (auto elim!: ec_server_reply [OF disjI1] simp: kex_unmarshal exchange_seen)
next
  case Curve25519SHA256
  with assms(1) have "curve_Server pr rs m priv (Inr init) None = ([reply], Inr r)" by simp
  then show ?thesis using assms(2) Curve25519SHA256 by (auto elim!: ec_server_reply [OF disjI2] simp: kex_unmarshal exchange_seen)
qed

lemma completed_hash:
  assumes "completed_exchange pr alg m init reply r" and "small init" and "small reply"
  shows "kr_H r = kr_Hash r (exchange_transcript alg m init reply r) \<and> (\<exists>k. kr_K r = marshalInt k)"
  using assms client_hashes_transcript server_hashes_transcript unfolding completed_exchange_def by blast

lemma transcript_inj:
  assumes "exchange_transcript alg m init reply r = exchange_transcript alg' m' init' reply' r'"
    and "small (exchange_transcript alg m init reply r)"
  shows "m = m' \<and> kr_HostKey r = kr_HostKey r' \<and> client_pub alg init = client_pub alg' init'
    \<and> server_pub alg reply = server_pub alg' reply' \<and> kr_K r = kr_K r'"
proof -
  note t = assms(1) [unfolded exchange_transcript_def magics_write_def writeString_eq append_assoc]
    and s = assms(2) [unfolded exchange_transcript_def magics_write_def writeString_eq append_assoc]
  note 1 = wire_string.prefix_free [OF TrueI TrueI s t]
  note s1 = small_tail [OF s] note 2 = wire_string.prefix_free [OF TrueI TrueI s1 1 [THEN conjunct2]]
  note s2 = small_tail [OF s1] note 3 = wire_string.prefix_free [OF TrueI TrueI s2 2 [THEN conjunct2]]
  note s3 = small_tail [OF s2] note 4 = wire_string.prefix_free [OF TrueI TrueI s3 3 [THEN conjunct2]]
  note s4 = small_tail [OF s3] note 5 = wire_string.prefix_free [OF TrueI TrueI s4 4 [THEN conjunct2]]
  note s5 = small_tail [OF s4] note 6 = wire_string.prefix_free [OF TrueI TrueI s5 5 [THEN conjunct2]]
  note s6 = small_tail [OF s5] note 7 = wire_string.prefix_free [OF TrueI TrueI s6 6 [THEN conjunct2]]
  show ?thesis using 1 2 3 4 5 6 7 by (cases m; cases m') auto
qed

text \<open>
  C22: the hash that is signed binds the whole exchange.  Take two ends that completed an exchange,
  each the client or the server, with any algorithms of the table - groups of integers, curves,
  curve25519 - and any primitives.  If their hashes are equal, then both ends saw the same versions
  and the same offers of algorithms of both sides, the same host key, the same public value of the
  client and of the server (as bytes) and hold the same secret; or else the two byte strings they
  hashed are different and are an explicit collision of their hash functions.  The packets and what
  is hashed are shorter than \<open>2 ^ 32\<close> bytes.  So whoever alters an offer to have a weaker algorithm
  chosen changes the hash that the host key signs, unless he finds a collision.
\<close>

theorem hash_binds_exchange:
  assumes "completed_exchange pr alg m init reply r" and "completed_exchange pr' alg' m' init' reply' r'"
    and "kr_H r = kr_H r'"
    and "small init" and "small reply" and "small init'" and "small reply'" and "small (exchange_transcript alg m init reply r)"
  shows "(m = m' \<and> kr_HostKey r = kr_HostKey r' \<and> client_pub alg init = client_pub alg' init'
            \<and> server_pub alg reply = server_pub alg' reply' \<and> kr_K r = kr_K r')
    \<or> (exchange_transcript alg m init reply r \<noteq> exchange_transcript alg' m' init' reply' r'
       \<and> kr_Hash r (exchange_transcript alg m init reply r) = kr_Hash r' (exchange_transcript alg' m' init' reply' r'))"
  using completed_hash [OF assms(1,4,5)] completed_hash [OF assms(2,6,7)] assms(3) transcript_inj [OF _ assms(8)] by metis

lemma be_bytes_be_val: "length (be_bytes (be_val b)) \<le> length b"
proof (induction b rule: rev_induct)
  case (snoc c b)
  have "(256 * be_val b + of_char c) div 256 = be_val b" by simp
  then show ?case using snoc by (subst be_bytes.simps) simp
qed simp

theorem hash_binds_exchange_witness:
  "\<exists>init reply r r'.
      kex_Client demo_kex_prims Curve25519SHA256 \<lparr>rn_Ints = [], rn_Bytes = replicate 32 CHR 0x00\<rparr> demo_magics None (Inr reply) = ([init], Inr r)
    \<and> kex_Server demo_kex_prims Curve25519SHA256 \<lparr>rn_Ints = [], rn_Bytes = replicate 32 CHR 0x05\<rparr> demo_magics demo_signer (Inr init) None
        = ([reply], Inr r')
    \<and> kr_H r = kr_H r' \<and> kr_HostKey r = kr_HostKey r' \<and> kr_K r = kr_K r'
    \<and> client_pub Curve25519SHA256 init = replicate 32 CHR 0x01"
proof -
  let ?A = Curve25519SHA256 and ?rc = "\<lparr>rn_Ints = [], rn_Bytes = replicate 32 CHR 0x00\<rparr>"
  let ?rs = "\<lparr>rn_Ints = [], rn_Bytes = replicate 32 CHR 0x05\<rparr>" and ?pub = "replicate 32 CHR 0x01"
  define init where "init = Marshal kexECDHInitMsg [VBytes ?pub]"
  define sig where "sig = Marshal signature_schema [VStr ''t'', VBytes ''s'']"
  define reply where "reply = Marshal kexECDHReplyMsg [VBytes ''pub'', VBytes ?pub, VBytes sig]"
  define k where "k = int (be_val (replicate 32 CHR 0x02))"
  define r where "r = kex_result (\<lambda>x. x) (ec_transcript demo_magics ''pub'' ?pub ?pub k) k ''pub'' sig"
  have sm: "small init" "small reply"
    by (simp_all add: small_def init_def reply_def sig_def kexECDHInitMsg_def kexECDHReplyMsg_def signature_schema_def
        Marshal_def marshal_field_def appendInt_def appendU32_def)
  have nz: "replicate 32 CHR 0x02 \<noteq> curve25519Zeros" by (simp add: curve25519Zeros_def)
  have rd: "read_msg kexECDHInitMsg (Inr init) = Inr [VBytes ?pub]"
    "read_msg kexECDHReplyMsg (Inr reply) = Inr [VBytes ''pub'', VBytes ?pub, VBytes sig]"
    using kex_msgs_read_back(2) [OF sm(1) [unfolded init_def]] kex_msgs_read_back(4) [OF sm(2) [unfolded reply_def]]
    by (simp_all add: init_def reply_def)
  have c: "kex_Client demo_kex_prims ?A ?rc demo_magics None (Inr reply) = ([init], Inr r)"
    using nz by (simp add: curve_Client_def generate_def rd Let_def demo_kex_prims_def init_def r_def k_def)
  have s: "kex_Server demo_kex_prims ?A ?rs demo_magics demo_signer (Inr init) None = ([reply], Inr r)"
    using nz by (simp add: curve_Server_def ec_reply_def generate_def rd Let_def demo_kex_prims_def demo_signer_def signAndMarshal_def
        reply_def r_def k_def sig_def)
  have len: "length (int_contents k) \<le> 33"
    using be_bytes_be_val [of "replicate 32 CHR 0x02"] by (simp add: int_contents_def Let_def k_def)
  have st: "small (exchange_transcript ?A demo_magics init reply r)"
    using rd len by (simp add: read_msg_Inr small_def r_def exchange_seen magics_write_def writeString_def demo_magics_def
        marshalInt_def)
  have "completed_exchange demo_kex_prims ?A demo_magics init reply r" using c unfolding completed_exchange_def by blast
  moreover have "completed_exchange demo_kex_prims ?A demo_magics init reply r" using s unfolding completed_exchange_def by blast
  ultimately have "kr_HostKey r = kr_HostKey r \<and> kr_K r = kr_K r"
    using hash_binds_exchange [OF _ _ refl sm sm st] by blast
  moreover have "client_pub ?A init = ?pub" using rd by (simp add: read_msg_Inr client_pub_def init_schema_def)
  ultimately show ?thesis using c s by blast
qed

end
