(* ===== verification/Handshake_Run.thy ===== *)
theory Handshake_Run
  imports Handshake_Safety Kex_Proofs
begin

section \<open>A run of the handshake transport\<close>

text \<open>A complete first key exchange of a client, with the data packet that follows it.\<close>

definition hsd_cfg :: ssh_config where
  "hsd_cfg = \<lparr>sg_RekeyThreshold = 0, sg_KeyExchanges = Some [''curve25519-sha256@libssh.org''], sg_Ciphers = Some [''c''], sg_MACs = Some [''m'']\<rparr>"

definition hsd_init :: kex_init where
  "hsd_init = kex_init_of hsd_cfg [''k'']"

definition hsd_packet :: bytes where
  "hsd_packet = Marshal kexInitMsg (init_fields (replicate 16 CHR 0x00) hsd_init)"

lemma kexInit_fields: "sc_fields kexInitMsg = [KArray 16, KNames, KNames, KNames, KNames, KNames, KNames, KNames, KNames, KNames, KNames, KBool, KU32]"
  by (simp add: kexInitMsg_def eval_nat_numeral)

lemma hsd_init_fields:
  "init_fields (replicate 16 CHR 0x00) hsd_init =
     [VArray (replicate 16 CHR 0x00), VNames [''curve25519-sha256@libssh.org''], VNames [''k''], VNames [''c''], VNames [''c''],
      VNames [''m''], VNames [''m''], VNames [''none''], VNames [''none''], VNames [], VNames [], VBool False, VU32 0]"
  by (simp add: init_fields_def hsd_init_def kex_init_of_def hsd_cfg_def supportedCompressions_def)

lemma hsd_fits: "fits_fields (sc_fields kexInitMsg) (init_fields (replicate 16 CHR 0x00) hsd_init)"
  by (simp add: kexInit_fields hsd_init_fields has_kind_def names_ok_def)

lemma hsd_small: "small hsd_packet"
  by (simp add: hsd_packet_def small_def Marshal_def kexInit_fields hsd_init_fields marshal_field_def appendBool_def appendU32_def)
    (simp add: kexInitMsg_def)

lemma hsd_other_init: "other_init hsd_packet = Inr hsd_init"
proof -
  have "Unmarshal kexInitMsg hsd_packet = Inr (init_fields (replicate 16 CHR 0x00) hsd_init)"
    using hsd_fits hsd_small unfolding hsd_packet_def
    by (intro Unmarshal_of_Marshal) (simp_all add: kexInitMsg_def tags_ok_def)
  then show ?thesis
    by (simp add: other_init_def init_of_fields_def init_fields_def names_at_def hsd_init_def kex_init_of_def Let_def)
qed

definition hsd_reply :: bytes where
  "hsd_reply = Marshal kexECDHReplyMsg [VBytes ''host'', VBytes (replicate 32 CHR 0x01), VBytes (enc_string ''f'' @ enc_string ''s'')]"

definition hsd_x :: "pub_key \<Rightarrow> exchange_env" where
  "hsd_x k = \<lparr>xe_prims = demo_kex_prims, xe_randoms = \<lparr>rn_Ints = [], rn_Bytes = replicate 32 CHR 0x05\<rparr>, xe_guess = Inl ErrFlush,
     xe_kexRead = Inr hsd_reply, xe_kexWrite = None, xe_prepare = None, xe_newKeysWrite = None, xe_newKeysRead = Inr [CHR 0x15],
     xe_parseKey = (\<lambda>b. Some k), xe_verify = (\<lambda>k h s. True), xe_callback = (\<lambda>k. None)\<rparr>"

lemma hsd_client: "\<exists>out r. hs_client (hsd_x k) Curve25519SHA256 m = (out, Inr r)"
proof -
  have "small hsd_reply" by (simp add: hsd_reply_def small_def kexECDHReplyMsg_def Marshal_def marshal_field_def appendInt_def appendU32_def enc_string_def)
  then have r: "read_msg kexECDHReplyMsg (Inr hsd_reply) = Inr [VBytes ''host'', VBytes (replicate 32 CHR 0x01), VBytes (enc_string ''f'' @ enc_string ''s'')]"
    unfolding hsd_reply_def by (rule kex_msgs_read_back)
  have p: "parseSignatureBody (enc_string ''f'' @ enc_string ''s'') = Some ((''f'', ''s''), [])"
    using parseString_enc [of "''f''" "enc_string ''s''"] parseString_enc [of "''s''" "[]"]
    by (simp add: parseSignatureBody_def enc_string_def)
  show ?thesis
    by (simp add: hs_client_def hsd_x_def curve_Client_def generate_def Let_def r demo_kex_prims_def curve25519Zeros_def
        kex_result_def verifyHostKeySignature_def p)
qed

lemma hsd_agree: "\<exists>algs. agree True hsd_init hsd_init = Inr algs \<and> ag_kex algs = ''curve25519-sha256@libssh.org''"
  by (simp add: agree_def findAgreedAlgorithms_def findCommon_def hsd_init_def kex_init_of_def hsd_cfg_def
      supportedCompressions_def bind_err_def Let_def)

lemma hsd_exchange:
  assumes "ht_hostKeys t = []" "ht_sentInit t = Some (p, hsd_init)"
  shows "\<exists>t'. enterKeyExchange (hsd_x k) hsd_packet t = Ret (None, t')"
proof -
  obtain algs where a: "agree True hsd_init hsd_init = Inr algs" "ag_kex algs = ''curve25519-sha256@libssh.org''" using hsd_agree by blast
  have g: "\<not> wrong_guess hsd_init hsd_init hsd_init" by (simp add: wrong_guess_def)
  have kx: "kexAlgoMap (xe_prims (hsd_x k)) ''curve25519-sha256@libssh.org'' = Some Curve25519SHA256" by (simp add: kexAlgoMap_def)
  have sw: "\<exists>t'. switch_keys (hsd_x k) result u = Ret (None, t')" for result u
    by (simp add: switch_keys_def Let_def hsd_x_def push_def msg_type_def msgNewKeys_def)
  have "\<exists>t'. run_kex (hsd_x k) Curve25519SHA256 m algs u = Ret (None, t')" if h: "ht_hostKeys u = []" for m u
  proof -
    obtain out r where "hs_client (hsd_x k) Curve25519SHA256 m = (out, Inr r)" using hsd_client by blast
    then show ?thesis using h sw by (simp add: run_kex_def)
  qed
  then show ?thesis using assms a g kx by (simp add: enterKeyExchange_def hsd_other_init Let_def)
qed

definition hsd_start :: handshakeTransport where
  "hsd_start = newClientTransport hsd_cfg ''cv'' ''sv'' (Some [''k''])"

lemma hsd_start_fresh: "fresh_transport hsd_start"
  by (auto simp: fresh_transport_def hsd_start_def)

text \<open>The run: offer, the other side's offer, the exchange, the wait for the session, a packet.\<close>

lemma hsd_run:
  "\<exists>s before. hs_reachable hsd_start s \<and> \<not> sy_failed s \<and> ht_out (sy_t s) = before @ OutData ''hello'' # []
     \<and> sy_accepted s = [''hello''] \<and> ht_writeError (sy_t s) = None"
proof -
  let ?R = "hs_reachable hsd_start"
  note nt = newHandshakeTransport_def resetWriteThresholds_def resetReadThresholds_def newClientTransport_def
  define s0 where "s0 = sys_start hsd_start"
  have t0: "ht_requestKex (sy_t s0)" "ht_sentInit (sy_t s0) = None" "ht_writeError (sy_t s0) = None" "ht_hostKeys (sy_t s0) = []"
      "ht_out (sy_t s0) = []" "ht_done (sy_t s0) = None" "ht_startKex (sy_t s0) = None" "ht_pendingPackets (sy_t s0) = []"
      "ht_incoming (sy_t s0) = []" "\<not> ht_mu (sy_t s0)" "hs_kex_init (sy_t s0) = hsd_init" "ht_sessionID (sy_t s0) = None"
    by (simp_all add: s0_def sys_start_def hsd_start_def nt hs_kex_init_def hsd_init_def)
  have p0: "sy_kex s0 = KWait None False" "sy_read s0 = RRead True" "\<not> sy_session s0" "sy_accepted s0 = []" "\<not> sy_failed s0"
    by (simp_all add: s0_def sys_start_def kex_top_def hsd_start_def nt)
  have r0: "?R s0" unfolding s0_def by (rule hs_reachable.start)
  define t1 where "t1 = (sy_t s0)\<lparr>ht_requestKex := False, ht_out := [OutInit hsd_packet], ht_sentInit := Some (hsd_packet, hsd_init)\<rparr>"
  have "kex_turn None (replicate 16 CHR 0x00) None False ((sy_t s0)\<lparr>ht_requestKex := False\<rparr>) = (KWait None True, t1)"
    using t0 by (simp add: kex_turn_def sendKexInit_def push_def Let_def t1_def hs_kex_init_def hsd_packet_def)
  from hs_reachable.step [OF r0 kex_request [OF p0(1) t0(1) this]] obtain s1 where
    r1: "?R s1" and s1: "s1 = s0\<lparr>sy_t := t1, sy_kex := KWait None True\<rparr>" by blast
  have "msg_type hsd_packet = Some msgKexInit"
  proof -
    have "hsd_packet = char_of (20 :: nat) # marshal_fields (sc_fields kexInitMsg) (init_fields (replicate 16 CHR 0x00) hsd_init) []"
      using marshal_fields_append [of "sc_fields kexInitMsg" _ "[char_of (20 :: nat)]"]
      by (simp add: hsd_packet_def Marshal_def kexInitMsg_def)
    then obtain q where q: "hsd_packet = char_of (20 :: nat) # q" by blast
    show ?thesis unfolding msg_type_def msgKexInit_def q by simp
  qed
  then have "read_one True (Inr hsd_packet) (sy_t s1) = Ret (RStart hsd_packet (ht_sessionID (count_read (length hsd_packet) t1) = None), count_read (length hsd_packet) t1)"
    by (simp add: read_one_def s1 Let_def)
  then obtain t2 where t2: "read_one True (Inr hsd_packet) (sy_t s1) = Ret (RStart hsd_packet (ht_sessionID t2 = None), t2)"
      "t2 = count_read (length hsd_packet) t1" by blast
  obtain a b c where c2: "t2 = t1\<lparr>ht_readBytesLeft := a, ht_readPacketsLeft := b, ht_requestKex := c\<rparr>"
    using count_read_form t2(2) by blast
  have "sy_read s1 = RRead True" by (simp add: s1 p0)
  from hs_reachable.step [OF r1 read_conn [OF this t2(1)]] obtain s2 fk where
    r2: "?R s2" and s2: "s2 = s1\<lparr>sy_t := t2, sy_read := RStart hsd_packet fk\<rparr>" and fk: "fk = (ht_sessionID t2 = None)" by blast
  have "sy_read s2 = RStart hsd_packet fk" "ht_startKex (sy_t s2) = None" using t0 by (simp_all add: s2 c2 t1_def)
  from hs_reachable.step [OF r2 read_start [OF this]] obtain s3 where
    r3: "?R s3" and s3: "s3 = s2\<lparr>sy_t := t2\<lparr>ht_startKex := Some hsd_packet, ht_done := None\<rparr>, sy_read := RWait fk\<rparr>" by (simp add: s2)
  have k3: "sy_kex s3 = KWait None True" "ht_startKex (sy_t s3) = Some hsd_packet" by (simp_all add: s3 s2 s1)
  define t4 where "t4 = t2\<lparr>ht_startKex := None, ht_done := None\<rparr>"
  have "kex_turn None [] (Some hsd_packet) True ((sy_t s3)\<lparr>ht_startKex := None\<rparr>) = (KEnter hsd_packet, t4)"
    using t0 by (simp add: kex_turn_def s3 t4_def c2 t1_def)
  from hs_reachable.step [OF r3 kex_start [OF k3 this]] obtain s4 where
    r4: "?R s4" and s4: "s4 = s3\<lparr>sy_t := t4, sy_kex := KEnter hsd_packet\<rparr>" by blast
  have "ht_hostKeys t4 = []" "ht_sentInit t4 = Some (hsd_packet, hsd_init)" using t0 by (simp_all add: t4_def c2 t1_def)
  from hsd_exchange [OF this] obtain k t5 where x5: "enterKeyExchange (hsd_x k) hsd_packet (sy_t s4) = Ret (None, t5)" by (simp add: s4) blast
  obtain al sid ps where t5: "t5 = t4\<lparr>ht_algorithms := al, ht_sessionID := sid, ht_out := ht_out t4 @ map OutKex ps @ [OutNewKeys]\<rparr>"
    using enterKeyExchange_effect [OF x5] by (auto simp: exchange_effect_def s4)
  define t6 where "t6 = kex_finish [] None t5"
  have f6: "ht_pendingPackets t5 = []" using t0 by (simp add: t5 t4_def c2 t1_def)
  obtain a6 b6 n6 we where t6: "t6 = t5\<lparr>ht_writePacketsLeft := a6, ht_writeBytesLeft := b6, ht_sentInit := None, ht_requestKex := False,
       ht_done := Some None, ht_out := ht_out t5 @ map OutData (take n6 (ht_pendingPackets t5)), ht_writeError := we, ht_pendingPackets := []\<rparr>"
     "ht_pendingPackets t5 = [] \<longrightarrow> we = None" using kex_finish_form [of "[]" None t5] by (auto simp: t6_def)
  have "sy_kex s4 = KEnter hsd_packet" by (simp add: s4)
  from hs_reachable.step [OF r4 kex_enter [OF this x5 t6_def]] obtain s6 where
    r6: "?R s6" and s6: "s6 = s4\<lparr>sy_t := t6, sy_kex := kex_top t6, sy_failed := sy_failed s4\<rparr>" by auto
  have w6: "sy_read s6 = RWait fk" "ht_done (sy_t s6) = Some None" by (simp_all add: s6 s4 s3 t6)
  define t7 where "t7 = resetReadThresholds (t6\<lparr>ht_done := None\<rparr>)"
  have c21: "char_of (21 :: nat) = CHR 0x15" by code_simp
  have "read_done fk None ((sy_t s6)\<lparr>ht_done := None\<rparr>) = (RPush [CHR 0x15], t7)"
    using t0 c21 by (simp add: read_done_def read_deliver_def s6 t7_def fk c2 t1_def msg_type_def msgNewKeys_def msgIgnore_def msgDebug_def)
  from hs_reachable.step [OF r6 read_wait [OF w6 this]] obtain s7 where
    r7: "?R s7" and s7: "s7 = s6\<lparr>sy_t := t7, sy_read := RPush [CHR 0x15]\<rparr>" by blast
  have i7: "ht_incoming t7 = []" using t0 by (simp add: t7_def resetReadThresholds_def t6 t5 t4_def c2 t1_def)
  have "sy_read s7 = RPush [CHR 0x15]" "length (ht_incoming (sy_t s7)) < hs_chanSize" by (simp_all add: s7 i7 hs_chanSize_def)
  from hs_reachable.step [OF r7 read_push [OF this]] obtain s8 where
    r8: "?R s8" and s8: "s8 = s7\<lparr>sy_t := t7\<lparr>ht_incoming := [[CHR 0x15]]\<rparr>, sy_read := RRead False\<rparr>" by (simp add: s7 i7)
  have "\<not> sy_session s8" "waitSession False (sy_t s8) = Some (None, t7\<lparr>ht_incoming := []\<rparr>)"
    using p0 by (simp_all add: s8 s7 s6 s4 s3 s2 s1 waitSession_def hs_readPacket_def msg_type_def msgNewKeys_def)
  from hs_reachable.step [OF r8 app_wait [OF this]] obtain s9 where
    r9: "?R s9" and s9: "s9 = s8\<lparr>sy_t := t7\<lparr>ht_incoming := []\<rparr>, sy_session := True\<rparr>" by auto
  obtain a9 b9 c9 where c9: "count_write (length ''hello'') (sy_t s9) = (sy_t s9)\<lparr>ht_writeBytesLeft := a9, ht_writePacketsLeft := b9, ht_requestKex := c9\<rparr>"
    using count_write_form by blast
  have "\<not> ht_mu (sy_t s9)" "ht_writeError (sy_t s9) = None" "ht_sentInit (sy_t s9) = None"
    using t0 f6 by (simp_all add: s9 t7_def resetReadThresholds_def t6 t5 t4_def c2 t1_def)
  then have "\<exists>t. hs_writePacket None ''hello'' (sy_t s9) = Ret (None, t) \<and> ht_out t = ht_out (sy_t s9) @ [OutData ''hello''] \<and> ht_writeError t = None"
    by (simp add: hs_writePacket_def msg_type_def msgKexInit_def msgNewKeys_def push_def c9 [simplified])
  then obtain t where w: "hs_writePacket None ''hello'' (sy_t s9) = Ret (None, t)" "ht_out t = ht_out (sy_t s9) @ [OutData ''hello'']" "ht_writeError t = None" by blast
  have ss: "sy_session s9" by (simp add: s9)
  have "sy_accepted s9 = []" "\<not> sy_failed s9" using p0 by (simp_all add: s9 s8 s7 s6 s4 s3 s2 s1)
  with hs_reachable.step [OF r9 app_write [OF ss w(1)]] w show ?thesis
    by (intro exI [of _ "s9\<lparr>sy_t := t, sy_accepted := [''hello'']\<rparr>"] exI [of _ "ht_out (sy_t s9)"]) simp
qed

text \<open>
  C4: no data goes out before the first switch to new keys, and none between the offer of a key
  exchange and the switch that ends it: in whatever order the users of the transport, its read loop
  and its loop of key exchanges run, every data packet on the connection comes after a message that
  switches keys with no later offer in between - as long as no exchange has failed.
\<close>

theorem data_only_under_new_keys:
  assumes "hs_reachable t0 s" and "fresh_transport t0" and "\<not> sy_failed s" and "ht_out (sy_t s) = before @ OutData p # after"
  shows "\<exists>b1 b2. before = b1 @ OutNewKeys # b2 \<and> (\<forall>q. OutInit q \<notin> set b2)"
proof -
  have "phase_run Fresh (before @ OutData p # after) \<noteq> None"
    using reachable_invariants [OF assms(1,2)] assms(3,4) by (simp add: framed_def)
  from data_after_switch [OF this] show ?thesis by simp
qed

text \<open>
  C13: packets go out in the order in which they were accepted: at every moment the data packets on
  the connection are a beginning of the packets that \<open>writePacket\<close> accepted, and while no write error
  is recorded nothing is lost: those on the connection and those that wait for the end of a key
  exchange are together exactly the accepted ones, even when an exchange has failed.
\<close>

theorem accepted_packets_in_order:
  assumes "hs_reachable t0 s" and "fresh_transport t0"
  shows "(\<exists>rest. sy_accepted s = datas (ht_out (sy_t s)) @ rest) \<and>
    (ht_writeError (sy_t s) = None \<longrightarrow> sy_accepted s = datas (ht_out (sy_t s)) @ ht_pendingPackets (sy_t s))"
  using reachable_invariants [OF assms] by (simp add: ordered_def)

text \<open>
  C9: a client changes keys only with a server whose host key has signed this very exchange and
  was accepted: when a key exchange of a client succeeds, then the host key of the reply parses, its
  signature over the hash of the exchange - with the versions and both offers as this client saw
  them - verifies, and the callback that checks the host key has accepted it.
\<close>

theorem client_exchange_verified:
  assumes "enterKeyExchange x other t = Ret (None, t')" and "ht_hostKeys t = []"
  shows "\<exists>mine init kex out result k sig. ht_sentInit t = Some (mine, init)
     \<and> kex_Client (xe_prims x) kex (xe_randoms x)
         \<lparr>hm_clientVersion = ht_clientVersion t, hm_serverVersion = ht_serverVersion t, hm_clientKexInit = mine, hm_serverKexInit = other\<rparr>
         (xe_kexWrite x) (xe_kexRead x) = (out, Inr result)
     \<and> xe_parseKey x (kr_HostKey result) = Some k \<and> parseSignatureBody (kr_Signature result) = Some (sig, [])
     \<and> xe_verify x k (kr_H result) sig \<and> xe_callback x k = None"
proof -
  obtain oi where oi: "other_init other = Inr oi" using assms(1) by (cases "other_init other") (auto simp: enterKeyExchange_def)
  obtain mine init where i: "ht_sentInit t = Some (mine, init)"
    using assms(1) oi by (cases "ht_sentInit t") (auto simp: enterKeyExchange_def)
  let ?m = "\<lparr>hm_clientVersion = ht_clientVersion t, hm_serverVersion = ht_serverVersion t, hm_clientKexInit = mine, hm_serverKexInit = other\<rparr>"
  obtain algs kex where "run_kex x kex ?m algs (t\<lparr>ht_algorithms := Some algs\<rparr>) = Ret (None, t')"
    using assms(1) unfolding enterKeyExchange_def oi i assms(2)
    by (auto simp: Let_def split: sum.split_asm if_split_asm option.split_asm)
  then obtain out result where c: "hs_client x kex ?m = (out, Inr result)"
    by (cases "hs_client x kex ?m"; cases "snd (hs_client x kex ?m)") (auto simp: run_kex_def assms(2))
  then have k: "kex_Client (xe_prims x) kex (xe_randoms x) ?m (xe_kexWrite x) (xe_kexRead x) = (out, Inr result)"
    by (auto simp: hs_client_def split: prod.split_asm sum.split_asm option.split_asm)
  then obtain hk where "xe_parseKey x (kr_HostKey result) = Some hk" "verifyHostKeySignature x hk result = None" "xe_callback x hk = None"
    using c by (auto simp: hs_client_def split: option.split_asm)
  moreover from this(2) obtain sig where "parseSignatureBody (kr_Signature result) = Some (sig, [])" "xe_verify x hk (kr_H result) sig"
    by (auto simp: verifyHostKeySignature_def split: option.split_asm if_split_asm)
  ultimately show ?thesis using i k by blast
qed

theorem data_only_under_new_keys_witness:
  "\<exists>s b1 b2. hs_reachable hsd_start s \<and> ht_out (sy_t s) = (b1 @ OutNewKeys # b2) @ OutData ''hello'' # [] \<and> (\<forall>q. OutInit q \<notin> set b2)"
proof -
  obtain s before where r: "hs_reachable hsd_start s" "\<not> sy_failed s" "ht_out (sy_t s) = before @ OutData ''hello'' # []"
    using hsd_run by blast
  from data_only_under_new_keys [OF r(1) hsd_start_fresh r(2,3)] r show ?thesis by metis
qed

theorem accepted_packets_in_order_witness:
  "\<exists>s. hs_reachable hsd_start s \<and> [''hello''] = datas (ht_out (sy_t s)) @ ht_pendingPackets (sy_t s)"
proof -
  obtain s where r: "hs_reachable hsd_start s" "sy_accepted s = [''hello'']" "ht_writeError (sy_t s) = None" using hsd_run by blast
  from accepted_packets_in_order [OF r(1) hsd_start_fresh] r show ?thesis by metis
qed

theorem client_exchange_verified_witness:
  "\<exists>t' (result :: kexResult) k. enterKeyExchange (hsd_x \<lparr>pk_Type = ''t'', pk_Marshal = ''m''\<rparr>) hsd_packet (hsd_start\<lparr>ht_sentInit := Some (hsd_packet, hsd_init)\<rparr>) = Ret (None, t')
     \<and> xe_parseKey (hsd_x \<lparr>pk_Type = ''t'', pk_Marshal = ''m''\<rparr>) (kr_HostKey result) = Some k"
proof -
  have h: "ht_hostKeys (hsd_start\<lparr>ht_sentInit := Some (hsd_packet, hsd_init)\<rparr>) = []"
    by (simp add: hsd_start_def newClientTransport_def newHandshakeTransport_def resetWriteThresholds_def resetReadThresholds_def)
  obtain t' where x: "enterKeyExchange (hsd_x \<lparr>pk_Type = ''t'', pk_Marshal = ''m''\<rparr>) hsd_packet (hsd_start\<lparr>ht_sentInit := Some (hsd_packet, hsd_init)\<rparr>) = Ret (None, t')"
    using hsd_exchange [OF h, of hsd_packet] by auto
  from client_exchange_verified [OF x h] show ?thesis
    by (elim exE conjE) (rule exI, rule exI, rule exI, rule conjI, rule x, assumption)
qed

end
