(* ===== verification/Spec2Isabelle.thy ===== *)
theory Spec2Isabelle
  imports Known_Hosts_File Config_Proofs Wire_Proofs Server_Auth_Proofs User_Mgmt_Proofs Client_Proofs Serve_Proofs Halter_Proofs
    Client_Auth_Ends Idle_Timer Forwards_Proofs Authorized_Keys Private_Keys
    Transport_Keys Handshake_Run
begin

text \<open>
  \<^bold>\<open>A verification development for sshego.\<close>

  sshego is a Go library and command for ssh tunnels: a client that dials a server, checks its host
  key against a database of known hosts and forwards ports, and an embedded ssh server with a login
  of three factors (passphrase, one-time code, RSA key).  It brings its own copy of Go's ssh library,
  with halters and idle timers added, in \<^verbatim>\<open>src/xendor/github.com/glycerine/xcryptossh\<close> (called
  \<^verbatim>\<open>xcryptossh\<close> below).

  \<^bold>\<open>How the parts interact.\<close>  A client (\<^verbatim>\<open>cli.go\<close>, \<^verbatim>\<open>tri.go\<close>, \<^verbatim>\<open>sshutil.go\<close>) dials, and the ssh library
  exchanges version lines, runs the key exchange of the handshake transport over the packet ciphers
  of the transport, and asks the host-key callback (\<^verbatim>\<open>sshutil.go\<close>, \<^verbatim>\<open>knownhosts.go\<close>) whether the
  server is known.  The embedded server (\<^verbatim>\<open>server.go\<close>) authenticates the peer with the callbacks of
  \<^verbatim>\<open>PerAttempt\<close> over the user database (\<^verbatim>\<open>user.go\<close>, \<^verbatim>\<open>amap.go\<close>, \<^verbatim>\<open>filedb.go\<close>).  After the login both
  ends run a multiplexer of channels with flow control; the server serves forwarding and session
  channels (\<^verbatim>\<open>direct.go\<close>, \<^verbatim>\<open>pty.go\<close>).  Users are added and deleted through a command port
  (\<^verbatim>\<open>server.go\<close>, \<^verbatim>\<open>netcli.go\<close>) or from the command line (\<^verbatim>\<open>usermgt.go\<close>).  Halters stop trees of goroutines.

  \<^bold>\<open>The library.\<close>
  \<^item> \<open>Go_Prelude\<close>, \<open>Go_Stdlib\<close>, \<open>Go_Base64\<close>: Go's outcomes (\<open>Ret\<close>, \<open>Panic\<close>, \<open>Hang\<close> for a call that blocks
    for ever), strings, conversions, addresses, byte orders, base64, and the lemmas all theories share.
  \<^item> Interfaces as locales: \<open>Codec\<close> (encoders and decoders of a byte stream), \<open>Key_Store\<close> (tables),
    \<open>Byte_Queue\<close> (the buffer of a channel), \<open>Id_Table\<close> (the table of channels), \<open>Packet_Link\<close> (a cipher of
    packets).  Each is interpreted on the definitions of the model that provide it.

  \<^bold>\<open>The program's own parts.\<close>
  \<^item> \<open>Known_Hosts\<close> (\<^verbatim>\<open>knownhosts.go\<close>, \<^verbatim>\<open>sshutil.go\<close>): records, database, the host-key check, the three
    file formats.  \<open>Known_Hosts_Proofs\<close>: only vouched-for keys are accepted, banned keys never, the
    database keeps its invariant; \<open>Known_Hosts_File\<close>: the text format round trip.
  \<^item> \<open>Config\<close> (\<^verbatim>\<open>config.go\<close>): the configuration file and its check; \<open>Config_Proofs\<close>: round trip, what a
    validated configuration guarantees.
  \<^item> \<open>Host_Db\<close> (\<^verbatim>\<open>user.go\<close>, \<^verbatim>\<open>amap.go\<close>, \<^verbatim>\<open>filedb.go\<close>): users, files, saving and loading;
    \<open>Host_Db_Proofs\<close>: lookups after changes, every change is on disk, no clear passphrase is stored,
    reopening restores the database.
  \<^item> \<open>Server_Auth\<close> (\<^verbatim>\<open>server.go\<close>, \<^verbatim>\<open>xcryptossh/server.go\<close>): the login on the bytes of its packets;
    \<open>Server_Auth_Proofs\<close>: a login shows every factor, ends, bounds guesses - and does not need the
    private key, nor the identity that is claimed (findings).
  \<^item> \<open>Command_Port\<close> (\<^verbatim>\<open>server.go\<close>, \<^verbatim>\<open>netcli.go\<close>, \<^verbatim>\<open>tcplock.go\<close>): two goroutines with unbuffered channels;
    \<open>Command_Port_Proofs\<close>: every run refines requests served one after the other; an undelivered
    request wedges the port.  \<open>User_Mgmt\<close> (\<^verbatim>\<open>usermgt.go\<close>, \<^verbatim>\<open>prompt.go\<close>, \<^verbatim>\<open>cryrand.go\<close>).
  \<^item> \<open>Tower\<close> (\<^verbatim>\<open>buzz.go\<close>): subscribers and broadcasts.  \<open>Client\<close> (\<^verbatim>\<open>sshutil.go\<close>, \<^verbatim>\<open>cli.go\<close>, \<^verbatim>\<open>tri.go\<close>): dialling,
    trust on first use, reconnecting; \<open>Client_Proofs\<close>: a connection means a vouched-for key.
  \<^item> \<open>Serve\<close> (\<^verbatim>\<open>direct.go\<close>, \<^verbatim>\<open>ud.go\<close>, \<^verbatim>\<open>pty.go\<close>): forwarding and session requests.

  \<^bold>\<open>The ssh library.\<close>
  \<^item> \<open>Wire\<close> (\<^verbatim>\<open>messages.go\<close>): \<open>Marshal\<close> and \<open>Unmarshal\<close> over descriptions of the structures;
    \<open>Wire_Proofs\<close>: both round trips.
  \<^item> \<open>Packet_Cipher\<close> (\<^verbatim>\<open>cipher.go\<close>, \<^verbatim>\<open>mac.go\<close>): three ciphers on the bytes of the connection.
    \<open>Packet_Cipher_Proofs\<close>: each keeps the contract of \<open>Packet_Link\<close>; \<open>Packet_Safety\<close>: what a reader
    accepts carries the code of exactly that packet, no two packets are sealed with one nonce, which packets panic.
  \<^item> \<open>Negotiate\<close> (\<^verbatim>\<open>common.go\<close>), \<open>Transport\<close> (\<^verbatim>\<open>transport.go\<close>), \<open>Kex\<close> (\<^verbatim>\<open>kex.go\<close>).  \<open>Transport_Proofs\<close>,
    \<open>Transport_Keys\<close>: negotiation and key derivation give fitting ciphers, packets are delivered
    across key changes; \<open>Kex_Proofs\<close>: both ends compute the same secret and hash, and two
    exchanges of any kinds with equal hashes are equal or show a collision.
  \<^item> \<open>Handshake\<close> (\<^verbatim>\<open>handshake.go\<close>): users, read loop and loop of key exchanges as a step relation.
    \<open>Handshake_Proofs\<close>, \<open>Handshake_Safety\<close>, \<open>Handshake_Run\<close>: what every step keeps; no data outside of
    new keys, order, verified servers.
  \<^item> \<open>Flow\<close> (\<^verbatim>\<open>buffer.go\<close>, \<^verbatim>\<open>channel.go\<close>, \<^verbatim>\<open>common.go\<close>): buffers and windows; \<open>Pipe\<close>: two ends of a channel
    refine a stream of bytes, and no byte is stuck.  \<open>Mux\<close> (\<^verbatim>\<open>mux.go\<close>, \<^verbatim>\<open>channel.go\<close>): packets to channels;
    \<open>Mux_Proofs\<close>: no packet can panic it, its end closes every channel; \<open>Mux_Open\<close>: both ends of an opened channel are linked.
  \<^item> \<open>Client_Auth\<close> (\<^verbatim>\<open>client_auth.go\<close>): the login from the side of the client, with every method, on packets.
    \<open>Client_Auth_Proofs\<close>: an honest client logs in to the server of \<open>Server_Auth\<close>, and a client only uses methods that were
    offered; \<open>Client_Auth_Ends\<close>: its loops end whatever the server sends.
  \<^item> \<open>Forwards\<close> (\<^verbatim>\<open>tcpip.go\<close>, \<^verbatim>\<open>streamlocal.go\<close>, \<^verbatim>\<open>client.go\<close>, \<^verbatim>\<open>sshutil.go\<close>): the dispatcher of opened channels with its
    queues and the list of forwards with its goroutines as a step relation, listening, reverse tunnels.  \<open>Forwards_Proofs\<close>: every channel is in one place, a listener gets
    what is meant for it; the reverse tunnel crashes (finding).
  \<^item> \<open>Keys\<close> (\<^verbatim>\<open>keys.go\<close>, \<^verbatim>\<open>certs.go\<close>): public keys and certificates as mutually recursive data, writing, parsing, signatures, the
    certificate checker.  \<open>Keys_Proofs\<close>: what is written is read back, the signed bytes determine the certificate, an accepted
    certificate was issued; which keys panic (finding).  \<open>Authorized_Keys\<close>: the lines of an authorized-keys file, and that
    the parser is what \<open>Known_Hosts\<close> asks of its parameter.  \<open>Private_Keys\<close>: signers and files of private keys; what a
    signer signs, its public key verifies.
  \<^item> \<open>Idle_Timer\<close> (\<^verbatim>\<open>idle.go\<close>, \<^verbatim>\<open>channel.go\<close>): timeouts and deadlines; a timeout means an attempt without a success, which deadlines panic.
  \<^item> \<open>Halter\<close> (\<^verbatim>\<open>halter.go\<close>): stopping; \<open>Halter_Proofs\<close>: a stop reaches exactly the halters below.

  \<^bold>\<open>Conventions.\<close>  State is passed explicitly; a Go error is a value of a sum or option; \<open>uint32\<close> and
  \<open>uint64\<close> are words.  The answers of sockets, clocks, random sources and of code outside the
  repository are arguments or records of functions; what is assumed of them is a named predicate
  (\<open>aead_ok\<close>, \<open>block_ok\<close>, \<open>mac_ok\<close>, \<open>curve_ok\<close>, \<open>x25519_ok\<close>, \<open>primitives_ok\<close>, \<open>raw_verifies\<close> and others), and each property
  with such a hypothesis has a witness in which it holds.

  \<^bold>\<open>Fuel.\<close>  \<open>auth_loop\<close> is bounded by the packets that can be read, \<open>skip_loop\<close> by the bytes of the
  connection and one more turn (\<open>skip_loop_ends\<close>), \<open>key_loop\<close> by the bytes of a key
  (\<open>key_loop_returns\<close>), the recursion of \<open>request_stop\<close> by the number of halters, \<open>retry_loop\<close> by the tries that are
  allowed or the packets that can be read, as \<open>Client_Auth_Ends\<close> shows.  All other recursions end by a measure.

  \<^bold>\<open>Not modelled.\<close>  The listener (\<^verbatim>\<open>listen.go\<close>, an accept loop over sockets); sessions, agent and terminal
  of the ssh library, which the program does not call; the cryptographic primitives; the generated encoders; word lists,
  printing and mailing; vendored packages.
\<close>

end
